(* ===== verification/Rln_Hex.thy ===== *)
theory Rln_Hex
  imports Rln_Prelude
begin

text \<open>
  Hexadecimal text of \<open>src/utils.rs\<close>: \<open>hex_str\<close>, \<open>hex_str_to_vec\<close> and the payment hash and
  preimage parsers built on them. A payment hash is its list of 32 bytes. SHA-256 is
  a library function and a parameter of the definitions that call it.
\<close>

section \<open>Definitions\<close>

text \<open>The variants of \<open>APIError\<close> that the modelled code returns.\<close>

datatype api_error =
    CannotCloseChannel string
  | ClaimDeadlineExceeded
  | DuplicatePayment string
  | ExpiredSwapOffer
  | FailedClosingChannel string
  | InsufficientAssets
  | InvalidAssetID string
  | InvalidChannelID
  | InvalidContractLink string
  | InvalidInvoice string
  | InvalidPaymentHash string
  | InvalidPaymentPreimage
  | InvalidPubkey
  | InvalidRequest string
  | InvalidSwap string
  | InvalidSwapString string string
  | InvoiceAlreadyClaimed
  | InvoiceExpired
  | InvoiceNotClaimable
  | InvoiceNotHodl
  | InvoiceSettlingInProgress
  | SwapNotFound string
  | TemporaryChannelIdAlreadyUsed
  | Unexpected string
  | UnknownChannelId
  | UnknownLNInvoice
  | UnsupportedInExternalSignerMode string

definition hex_digit :: "nat \<Rightarrow> char" where
  "hex_digit d = (if d < 10 then char_of (48 + d) else char_of (87 + d))"

definition hex_byte :: "byte \<Rightarrow> string" where
  "hex_byte v = [hex_digit (unat v div 16), hex_digit (unat v mod 16)]"

fun hex_str :: "bytes \<Rightarrow> string" where
  "hex_str [] = []"
| "hex_str (v # vs) = hex_byte v @ hex_str vs"

definition hex_nibble :: "byte \<Rightarrow> byte option" where
  "hex_nibble c =
     (if 65 \<le> c \<and> c \<le> 70 then Some (c - 65 + 10)
      else if 97 \<le> c \<and> c \<le> 102 then Some (c - 97 + 10)
      else if 48 \<le> c \<and> c \<le> 57 then Some (c - 48)
      else None)"

text \<open>The loop of \<open>hex_str_to_vec\<close>: the running index, the byte being assembled, the output
  so far. A byte is pushed after every odd index; what a last even index assembled is lost.\<close>

fun hex_loop :: "nat \<Rightarrow> byte \<Rightarrow> bytes \<Rightarrow> bytes \<Rightarrow> bytes option" where
  "hex_loop idx b out [] = Some out"
| "hex_loop idx b out (c # cs) =
     (case hex_nibble c of
        None \<Rightarrow> None
      | Some d \<Rightarrow>
          let b' = or (push_bit 4 b) d
          in if odd idx then hex_loop (Suc idx) 0 (out @ [b']) cs
             else hex_loop (Suc idx) b' out cs)"

definition hex_str_to_vec :: "string \<Rightarrow> bytes option" where
  "hex_str_to_vec hex = hex_loop 0 0 [] (as_bytes hex)"

definition validate_and_parse_payment_hash :: "string \<Rightarrow> api_error + bytes" where
  "validate_and_parse_payment_hash s =
     (case hex_str_to_vec s of
        None \<Rightarrow> Inl (InvalidPaymentHash s)
      | Some v \<Rightarrow> if length v \<noteq> 32 then Inl (InvalidPaymentHash s) else Inr v)"

definition validate_and_parse_payment_preimage ::
  "(bytes \<Rightarrow> bytes) \<Rightarrow> string \<Rightarrow> bytes \<Rightarrow> api_error + bytes" where
  "validate_and_parse_payment_preimage sha256 s payment_hash =
     (case hex_str_to_vec s of
        None \<Rightarrow> Inl InvalidPaymentPreimage
      | Some v \<Rightarrow>
          if length v \<noteq> 32 then Inl InvalidPaymentPreimage
          else if sha256 v \<noteq> payment_hash then Inl InvalidPaymentPreimage
          else Inr v)"

definition is_hex_char :: "char \<Rightarrow> bool" where
  "is_hex_char c = (hex_nibble (word_of_nat (of_char c)) \<noteq> None)"


section \<open>Round trip and strictness\<close>

text \<open>Facts about the sixteen digits are decided by evaluation.\<close>

lemma hex_digit_nibble:
  "d < 16 \<Longrightarrow> hex_nibble (word_of_nat (of_char (hex_digit d))) = Some (word_of_nat d)"
proof -
  assume "d < 16"
  moreover have "\<forall>d \<in> set [0..<16].
      hex_nibble (word_of_nat (of_char (hex_digit d))) = Some (word_of_nat d)"
    by (simp add: upt_rec hex_digit_def hex_nibble_def)
  ultimately show ?thesis by simp
qed

lemma hex_digit_set: "d < 16 \<Longrightarrow> hex_digit d \<in> set ''0123456789abcdef''"
proof -
  assume "d < 16"
  moreover have "\<forall>d \<in> set [0..<16]. hex_digit d \<in> set ''0123456789abcdef''"
    by code_simp
  ultimately show ?thesis by simp
qed

lemma nibbles_join:
  "or (push_bit 4 (word_of_nat (unat v div 16))) (word_of_nat (unat v mod 16)) = (v :: byte)"
proof -
  have hi: "word_of_nat (unat v div 16) = drop_bit 4 v"
    using unat_less_exp [of v]
    by (intro word_unat_eq_iff [THEN iffD2]) (simp add: unat_drop_bit_eq drop_bit_eq_div unat_div)
  have lo: "word_of_nat (unat v mod 16) = take_bit 4 v"
    by (intro word_unat_eq_iff [THEN iffD2]) (simp add: unsigned_take_bit_eq take_bit_eq_mod unat_mod)
  show ?thesis
    unfolding hi lo by (rule bit_word_eqI) (auto simp: bit_simps)
qed

lemma unat_div_16: "unat (v :: byte) div 16 < 16"
  using unat_less_exp [of v] by simp

lemma hex_loop_hex_byte:
  "even idx \<Longrightarrow>
   hex_loop idx 0 out (as_bytes (hex_byte v) @ cs) = hex_loop (Suc (Suc idx)) 0 (out @ [v]) cs"
  using unat_div_16 [of v]
  by (simp add: as_bytes_def hex_byte_def hex_digit_nibble nibbles_join)

lemma as_bytes_append: "as_bytes (s @ t) = as_bytes s @ as_bytes t"
  by (simp add: as_bytes_def)

lemma hex_loop_hex_str:
  "even idx \<Longrightarrow>
   hex_loop idx 0 out (as_bytes (hex_str vs) @ cs) = hex_loop (idx + 2 * length vs) 0 (out @ vs) cs"
proof (induction vs arbitrary: idx out)
  case Nil
  then show ?case by (simp add: as_bytes_def)
next
  case (Cons v vs)
  then have "hex_loop (Suc (Suc idx)) 0 (out @ [v]) (as_bytes (hex_str vs) @ cs) =
    hex_loop (Suc (Suc idx) + 2 * length vs) 0 (out @ v # vs) cs"
    by simp
  with Cons.prems show ?case
    by (simp add: as_bytes_append hex_loop_hex_byte)
qed

lemma hex_str_to_vec_hex_str [simp]: "hex_str_to_vec (hex_str vs) = Some vs"
  using hex_loop_hex_str [of 0 "[]" vs "[]"] by (simp add: hex_str_to_vec_def)

lemma length_hex_str [simp]: "length (hex_str vs) = 2 * length vs"
  by (induction vs) (auto simp: hex_byte_def)

lemma hex_str_inj [simp]: "hex_str a = hex_str b \<longleftrightarrow> a = b"
  by (metis hex_str_to_vec_hex_str option.inject)

lemma hex_str_set: "set (hex_str vs) \<subseteq> set ''0123456789abcdef''"
proof (induction vs)
  case (Cons v vs)
  then show ?case
    using hex_digit_set [OF unat_div_16 [of v]] hex_digit_set [of "unat v mod 16"]
    by (auto simp: hex_byte_def)
qed simp

lemma hex_str_no_sep: "c \<notin> set ''0123456789abcdef'' \<Longrightarrow> c \<notin> set (hex_str vs)"
  using hex_str_set by blast

text \<open>The length of the result is half the length of the input, rounded down.\<close>

lemma hex_loop_length:
  "hex_loop idx b out cs = Some v \<Longrightarrow>
   length v = length out + (length cs + idx mod 2) div 2"
proof (induction cs arbitrary: idx b out)
  case (Cons c cs)
  then obtain d where d: "hex_nibble c = Some d"
    by (cases "hex_nibble c") auto
  show ?case
  proof (cases "odd idx")
    case True
    with Cons d have "length v = Suc (length out) + (length cs + Suc idx mod 2) div 2"
      by (fastforce simp: Let_def)
    with True show ?thesis by (simp add: odd_iff_mod_2_eq_one mod_Suc)
  next
    case False
    with Cons d have "length v = length out + (length cs + Suc idx mod 2) div 2"
      by (fastforce simp: Let_def)
    with False show ?thesis by (simp add: even_iff_mod_2_eq_zero mod_Suc)
  qed
qed simp

lemma hex_str_to_vec_length: "hex_str_to_vec s = Some v \<Longrightarrow> length v = length s div 2"
  using hex_loop_length [of 0 0 "[]" "as_bytes s" v] by (simp add: hex_str_to_vec_def)


text \<open>An even prefix is decoded on its own.\<close>

lemma hex_loop_append_even:
  "even idx \<Longrightarrow> even (length xs) \<Longrightarrow>
   hex_loop idx 0 out (xs @ ys) =
     Option.bind (hex_loop idx 0 out xs) (\<lambda>v. hex_loop (idx + length xs) 0 v ys)"
proof (induction xs arbitrary: idx out rule: induct_list012)
  case (3 x y zs)
  then show ?case
    by (auto simp: Let_def split: option.splits)
qed auto

lemma hex_str_to_vec_odd_tail:
  assumes "hex_str_to_vec s = Some v" "even (length s)" "is_hex_char c"
  shows "hex_str_to_vec (s @ [c]) = Some v"
proof -
  obtain d where "hex_nibble (word_of_nat (of_char c)) = Some d"
    using assms(3) by (auto simp: is_hex_char_def)
  moreover have "as_bytes [c] = [word_of_nat (of_char c)]"
    by (simp add: as_bytes_def)
  ultimately show ?thesis
    using assms(1,2)
    by (simp add: hex_str_to_vec_def as_bytes_append hex_loop_append_even)
qed

lemma validate_hash_hex_str:
  "length h = 32 \<Longrightarrow> validate_and_parse_payment_hash (hex_str h) = Inr h"
  by (simp add: validate_and_parse_payment_hash_def)

lemma validate_hash_Inr:
  "validate_and_parse_payment_hash s = Inr h \<longleftrightarrow> hex_str_to_vec s = Some h \<and> length h = 32"
  by (auto simp: validate_and_parse_payment_hash_def split: option.splits)

lemma validate_hash_cases:
  "validate_and_parse_payment_hash s = Inl (InvalidPaymentHash s) \<or>
   (\<exists>h. validate_and_parse_payment_hash s = Inr h \<and> length h = 32)"
  by (auto simp: validate_and_parse_payment_hash_def split: option.splits)

end
