(* ===== verification/Apay_Merkle.thy ===== *)
theory Apay_Merkle
  imports Rln_Prelude
begin

text \<open>
  The Merkle tree over the payment hashes of an asynchronous-payment batch,
  \<open>src/apay_merkle.rs\<close>. A \<open>Hash32\<close> is a list of 32 bytes and \<open>digest\<close> (SHA-256 of the
  \<open>bitcoin\<close> crate) is the parameter \<open>H\<close> of every definition. The two \<open>assert!\<close>s of the
  source are the \<^const>\<open>None\<close> branches of \<open>root\<close> and \<open>merkle_proof\<close>.
\<close>

section \<open>Definitions\<close>

type_synonym hash32 = bytes

datatype merkle_side = MLeft | MRight

record merkle_proof_element =
  mpe_sibling :: hash32
  mpe_side :: merkle_side

definition APAY_HASH_LEAF_TAG :: bytes where
  "APAY_HASH_LEAF_TAG = as_bytes ''UTEXO_APAY_HASH_V1''"

definition leaf_data :: "bytes \<Rightarrow> bytes \<Rightarrow> u64 \<Rightarrow> bytes \<Rightarrow> bytes" where
  "leaf_data recipient_pubkey batch_id hash_index payment_hash =
     [0] @ APAY_HASH_LEAF_TAG @ recipient_pubkey @ batch_id
       @ be_bytes 8 (unat hash_index) @ payment_hash"

definition leaf_hash ::
  "(bytes \<Rightarrow> hash32) \<Rightarrow> bytes \<Rightarrow> bytes \<Rightarrow> u64 \<Rightarrow> bytes \<Rightarrow> hash32" where
  "leaf_hash H recipient_pubkey batch_id hash_index payment_hash =
     H (leaf_data recipient_pubkey batch_id hash_index payment_hash)"

definition node_data :: "hash32 \<Rightarrow> hash32 \<Rightarrow> bytes" where
  "node_data left right = [1] @ left @ right"

definition node_hash :: "(bytes \<Rightarrow> hash32) \<Rightarrow> hash32 \<Rightarrow> hash32 \<Rightarrow> hash32" where
  "node_hash H left right = H (node_data left right)"

text \<open>One pass of the loop takes two nodes; a last node without a partner is paired with
  itself.\<close>

fun next_level :: "(bytes \<Rightarrow> hash32) \<Rightarrow> hash32 list \<Rightarrow> hash32 list" where
  "next_level H [] = []"
| "next_level H [left] = [node_hash H left left]"
| "next_level H (left # right # rest) = node_hash H left right # next_level H rest"

lemma length_next_level [simp]: "length (next_level H level) = (length level + 1) div 2"
  by (induction H level rule: next_level.induct) auto

function root_loop :: "(bytes \<Rightarrow> hash32) \<Rightarrow> hash32 list \<Rightarrow> hash32" where
  "root_loop H level = (if 1 < length level then root_loop H (next_level H level) else hd level)"
  by pat_completeness auto
termination
  by (relation "measure (\<lambda>(H, level). length level)") auto

declare root_loop.simps [simp del]

definition root :: "(bytes \<Rightarrow> hash32) \<Rightarrow> hash32 list \<Rightarrow> hash32 option" where
  "root H leaves = (if leaves = [] then None else Some (root_loop H leaves))"

definition proof_element :: "hash32 list \<Rightarrow> nat \<Rightarrow> merkle_proof_element" where
  "proof_element level idx =
     (if even idx
      then \<lparr>mpe_sibling = (if idx + 1 < length level then level ! (idx + 1) else level ! idx),
            mpe_side = MRight\<rparr>
      else \<lparr>mpe_sibling = level ! (idx - 1), mpe_side = MLeft\<rparr>)"

function proof_loop :: "(bytes \<Rightarrow> hash32) \<Rightarrow> hash32 list \<Rightarrow> nat \<Rightarrow> merkle_proof_element list" where
  "proof_loop H level idx =
     (if 1 < length level
      then proof_element level idx # proof_loop H (next_level H level) (idx div 2)
      else [])"
  by pat_completeness auto
termination
  by (relation "measure (\<lambda>(H, level, idx). length level)") auto

declare proof_loop.simps [simp del]

definition merkle_proof ::
  "(bytes \<Rightarrow> hash32) \<Rightarrow> hash32 list \<Rightarrow> nat \<Rightarrow> merkle_proof_element list option" where
  "merkle_proof H leaves index =
     (if index < length leaves then Some (proof_loop H leaves index) else None)"

fun verify_loop :: "(bytes \<Rightarrow> hash32) \<Rightarrow> hash32 \<Rightarrow> merkle_proof_element list \<Rightarrow> hash32" where
  "verify_loop H current [] = current"
| "verify_loop H current (e # es) =
     verify_loop H
       (case mpe_side e of
          MLeft \<Rightarrow> node_hash H (mpe_sibling e) current
        | MRight \<Rightarrow> node_hash H current (mpe_sibling e)) es"

definition verify ::
  "(bytes \<Rightarrow> hash32) \<Rightarrow> hash32 \<Rightarrow> merkle_proof_element list \<Rightarrow> hash32 \<Rightarrow> bool" where
  "verify H leaf path expected_root = (verify_loop H leaf path = expected_root)"


section \<open>Completeness: every produced proof verifies\<close>

lemma next_level_nth:
  "i < length level \<Longrightarrow>
   next_level H level ! (i div 2) =
     node_hash H (level ! (i - i mod 2))
       (if i - i mod 2 + 1 < length level then level ! (i - i mod 2 + 1) else level ! (i - i mod 2))"
proof (induction H level arbitrary: i rule: next_level.induct)
  case (3 H left right rest)
  show ?case
  proof (cases "i < 2")
    case True
    then have "i = 0 \<or> i = 1" by linarith
    then show ?thesis by auto
  next
    case False
    then obtain j where j: "i = Suc (Suc j)"
      by (metis add_2_eq_Suc le_add_diff_inverse not_less)
    with "3.prems" have "j < length rest" by simp
    from "3.IH" [OF this] show ?thesis
      by (simp add: j Suc_diff_le)
  qed
qed auto

lemma verify_step:
  assumes "idx < length level"
  shows "(case mpe_side (proof_element level idx) of
            MLeft \<Rightarrow> node_hash H (mpe_sibling (proof_element level idx)) (level ! idx)
          | MRight \<Rightarrow> node_hash H (level ! idx) (mpe_sibling (proof_element level idx)))
         = next_level H level ! (idx div 2)"
proof (cases "even idx")
  case True
  then have "idx mod 2 = 0" by presburger
  with True assms show ?thesis
    by (simp add: next_level_nth proof_element_def)
next
  case False
  then have "idx mod 2 = 1" and pos: "0 < idx" by (presburger, auto intro: Nat.gr0I)
  with False assms show ?thesis
    by (simp add: next_level_nth proof_element_def)
qed

lemma verify_loop_proof_loop:
  "idx < length level \<Longrightarrow> verify_loop H (level ! idx) (proof_loop H level idx) = root_loop H level"
proof (induction H level idx rule: proof_loop.induct)
  case (1 H level idx)
  show ?case
  proof (cases "1 < length level")
    case True
    from "1.prems" have "idx div 2 < length (next_level H level)"
      by simp
    with "1.IH" True have "verify_loop H (next_level H level ! (idx div 2))
        (proof_loop H (next_level H level) (idx div 2)) = root_loop H (next_level H level)"
      by simp
    with True "1.prems" show ?thesis
      by (simp add: proof_loop.simps [of H level] root_loop.simps [of H level] verify_step)
  next
    case False
    with "1.prems" have "length level = 1" by linarith
    then obtain x where "level = [x]" by (auto simp: length_Suc_conv)
    with "1.prems" show ?thesis
      by (simp add: proof_loop.simps root_loop.simps)
  qed
qed

text \<open>The length of a proof is the height of the tree.\<close>

lemma proof_loop_length:
  "level \<noteq> [] \<Longrightarrow>
   length level \<le> 2 ^ length (proof_loop H level idx) \<and>
   (1 < length level \<longrightarrow> 2 ^ (length (proof_loop H level idx) - 1) < length level)"
proof (induction H level idx rule: proof_loop.induct)
  case (1 H level idx)
  show ?case
  proof (cases "1 < length level")
    case True
    let ?n = "length (proof_loop H (next_level H level) (idx div 2))"
    from True have ne: "next_level H level \<noteq> []"
      by (auto simp: length_greater_0_conv [symmetric] simp del: length_greater_0_conv)
    with "1.IH" True have IH: "(length level + 1) div 2 \<le> 2 ^ ?n"
      "1 < (length level + 1) div 2 \<Longrightarrow> 2 ^ (?n - 1) < (length level + 1) div 2"
      by auto
    show ?thesis
    proof (cases "?n")
      case 0
      with IH(1) True show ?thesis
        by (simp add: proof_loop.simps [of H level])
    next
      case (Suc k)
      have "1 < (length level + 1) div 2"
      proof (rule ccontr)
        assume "\<not> 1 < (length level + 1) div 2"
        then have "proof_loop H (next_level H level) (idx div 2) = []"
          by (simp add: proof_loop.simps)
        with Suc show False by simp
      qed
      with IH Suc have "2 ^ k < (length level + 1) div 2" "(length level + 1) div 2 \<le> 2 * 2 ^ k"
        by auto
      then have "2 * 2 ^ k < length level" "length level \<le> 2 * (2 * 2 ^ k)"
        by linarith+
      with True Suc show ?thesis
        by (simp add: proof_loop.simps [of H level])
    qed
  next
    case False
    with "1.prems" show ?thesis
      by (simp add: proof_loop.simps Suc_le_eq)
  qed
qed


section \<open>Soundness: a proof binds its leaf, up to a collision of the digest\<close>

text \<open>The byte strings that \<^const>\<open>verify_loop\<close> feeds to the digest, in order. A forged proof
  is turned into two of them that differ and have the same digest.\<close>

definition step_data :: "hash32 \<Rightarrow> merkle_proof_element \<Rightarrow> bytes" where
  "step_data current e =
     (case mpe_side e of
        MLeft \<Rightarrow> node_data (mpe_sibling e) current
      | MRight \<Rightarrow> node_data current (mpe_sibling e))"

fun verify_inputs :: "(bytes \<Rightarrow> hash32) \<Rightarrow> hash32 \<Rightarrow> merkle_proof_element list \<Rightarrow> bytes list" where
  "verify_inputs H current [] = []"
| "verify_inputs H current (e # es) =
     step_data current e # verify_inputs H (H (step_data current e)) es"

definition collision_in :: "(bytes \<Rightarrow> hash32) \<Rightarrow> bytes list \<Rightarrow> bytes list \<Rightarrow> bool" where
  "collision_in H xs ys = list_ex (\<lambda>x. list_ex (\<lambda>y. x \<noteq> y \<and> H x = H y) ys) xs"

definition proof_sized :: "hash32 \<Rightarrow> merkle_proof_element list \<Rightarrow> bool" where
  "proof_sized leaf path =
     (length leaf = 32 \<and> list_all (\<lambda>e. length (mpe_sibling e) = 32) path)"

lemma verify_loop_step [simp]:
  "verify_loop H current (e # es) = verify_loop H (H (step_data current e)) es"
  by (simp add: step_data_def node_hash_def split: merkle_side.split)

declare verify_loop.simps(2) [simp del]

lemma step_data_inj:
  assumes "step_data c e = step_data c' e'" "mpe_side e = mpe_side e'"
    and "length c = 32" "length c' = 32"
    and "length (mpe_sibling e) = 32" "length (mpe_sibling e') = 32"
  shows "c = c' \<and> e = e'"
  using assms by (cases "mpe_side e'") (auto simp: step_data_def node_data_def)

lemma collision_in_Cons:
  "collision_in H (x # xs) (y # ys) \<longleftrightarrow>
     (x \<noteq> y \<and> H x = H y) \<or> list_ex (\<lambda>z. x \<noteq> z \<and> H x = H z) ys
     \<or> list_ex (\<lambda>z. z \<noteq> y \<and> H z = H y) xs \<or> collision_in H xs ys"
  by (auto simp: collision_in_def list_ex_iff)

lemma verify_loop_binding:
  assumes "\<And>d. length (H d) = 32"
  shows "verify_loop H l p = verify_loop H l' p' \<Longrightarrow> map mpe_side p = map mpe_side p' \<Longrightarrow>
    proof_sized l p \<Longrightarrow> proof_sized l' p' \<Longrightarrow>
    (l = l' \<and> p = p') \<or> collision_in H (verify_inputs H l p) (verify_inputs H l' p')"
proof (induction p arbitrary: l l' p')
  case (Cons e es)
  then obtain e' es' where p': "p' = e' # es'" by (cases p') auto
  let ?d = "step_data l e" and ?d' = "step_data l' e'"
  from Cons.prems have "(H ?d = H ?d' \<and> es = es')
      \<or> collision_in H (verify_inputs H (H ?d) es) (verify_inputs H (H ?d') es')"
    by (intro Cons.IH) (auto simp: p' proof_sized_def assms)
  moreover have "?d = ?d' \<Longrightarrow> l = l' \<and> e = e'"
    using Cons.prems step_data_inj [of l e l' e'] by (auto simp: p' proof_sized_def)
  ultimately show ?case
    by (auto simp: p' collision_in_Cons)
qed auto

lemma next_level_sized:
  "(\<And>d. length (H d) = 32) \<Longrightarrow> list_all (\<lambda>x. length x = 32) (next_level H level)"
  by (induction H level rule: next_level.induct) (auto simp: node_hash_def)

lemma proof_loop_siblings:
  "list_all (\<lambda>x. length x = 32) level \<Longrightarrow> (\<And>d. length (H d) = 32) \<Longrightarrow> idx < length level \<Longrightarrow>
   list_all (\<lambda>e. length (mpe_sibling e) = 32) (proof_loop H level idx)"
proof (induction H level idx rule: proof_loop.induct)
  case (1 H level idx)
  moreover have "length (mpe_sibling (proof_element level idx)) = 32"
    using "1.prems" by (auto simp: proof_element_def list_all_length)
  ultimately show ?case
    by (simp add: proof_loop.simps [of H level] next_level_sized)
qed

lemma leaf_data_inj:
  assumes "leaf_data rp b i h = leaf_data rp' b' i' h'"
    and "length rp = length rp'" "length b = length b'"
  shows "rp = rp' \<and> b = b' \<and> i = i' \<and> h = h'"
  using assms by (auto simp: leaf_data_def be_bytes_u64_inj)

lemma leaf_data_not_node_data: "leaf_data rp b i h \<noteq> node_data l r"
  by (simp add: leaf_data_def node_data_def)


section \<open>Properties\<close>

text \<open>Every proof the module produces verifies against the root of the same leaves, and it
  is as long as the tree is high: with \<open>n\<close> leaves its length is the least \<open>k\<close> with
  \<open>n \<le> 2 ^ k\<close>.\<close>

theorem merkle_proof_verifies:
  assumes "index < length leaves"
  shows "\<exists>path r. merkle_proof H leaves index = Some path \<and> root H leaves = Some r
    \<and> verify H (leaves ! index) path r
    \<and> length leaves \<le> 2 ^ length path
    \<and> (1 < length leaves \<longrightarrow> 2 ^ (length path - 1) < length leaves)"
proof -
  from assms have "leaves \<noteq> []" by auto
  with assms proof_loop_length [of leaves H index] show ?thesis
    by (simp add: merkle_proof_def root_def verify_def verify_loop_proof_loop)
qed

theorem merkle_proof_verifies_witness:
  "\<exists>path r. merkle_proof (\<lambda>d. d) [[1], [2], [3]] 2 = Some path
    \<and> root (\<lambda>d. d) [[1], [2], [3]] = Some r
    \<and> verify (\<lambda>d. d) [3] path r \<and> length path = 2"
  using merkle_proof_verifies [of 2 "[[1], [2], [3]]" "\<lambda>d. d"]
  by (auto simp: merkle_proof_def root_def proof_loop.simps)

text \<open>C17. A proof binds its leaf to its position. A proof of the shape of position
  \<open>index\<close> that verifies against the root of \<open>leaves\<close> proves the leaf at that position, or else
  the strings hashed in the two verifications hold two different strings with the same
  digest.\<close>

theorem merkle_proof_sound:
  assumes "\<And>d. length (H d) = 32"
    and "index < length leaves" "list_all (\<lambda>x. length x = 32) leaves"
    and "merkle_proof H leaves index = Some honest" "root H leaves = Some r"
    and "map mpe_side path = map mpe_side honest" "proof_sized leaf path"
    and "verify H leaf path r"
  shows "leaf = leaves ! index \<and> path = honest
    \<or> collision_in H (verify_inputs H leaf path) (verify_inputs H (leaves ! index) honest)"
proof -
  have honest: "honest = proof_loop H leaves index" "r = root_loop H leaves"
    using assms(2,4,5) by (auto simp: merkle_proof_def root_def split: if_splits)
  have "proof_sized (leaves ! index) honest"
    using assms(2,3) proof_loop_siblings [OF assms(3,1,2)]
    by (simp add: proof_sized_def honest list_all_iff)
  moreover have "verify_loop H leaf path = verify_loop H (leaves ! index) honest"
    using assms(2,8) by (simp add: verify_def honest verify_loop_proof_loop)
  ultimately show ?thesis
    using assms(1,6,7) by (intro verify_loop_binding) auto
qed

theorem merkle_proof_sound_witness:
  "let H = \<lambda>d :: bytes. replicate 32 (0 :: byte); a = replicate 32 1; b = replicate 32 2;
       path = [\<lparr>mpe_sibling = a, mpe_side = MLeft\<rparr>]
   in merkle_proof H [a, b] 1 = Some path \<and> root H [a, b] = Some (replicate 32 0)
      \<and> verify H a path (replicate 32 0)
      \<and> collision_in H (verify_inputs H a path) (verify_inputs H b path)"
  using merkle_proof_sound [of "\<lambda>d. replicate 32 0" 1 "[replicate 32 1, replicate 32 2]"
      "[\<lparr>mpe_sibling = replicate 32 1, mpe_side = MLeft\<rparr>]" "replicate 32 0"
      "[\<lparr>mpe_sibling = replicate 32 1, mpe_side = MLeft\<rparr>]" "replicate 32 1"]
  by (simp add: Let_def merkle_proof_def proof_loop.simps proof_element_def root_def
      root_loop.simps verify_def proof_sized_def node_hash_def)

end
