(* ===== verification/Kv_Base.thy ===== *)
theory Kv_Base
  imports Rln_Prelude
begin

text \<open>
  What the key-value stores share: the kinds of \<open>io::Error\<close> the sources build (messages are
  dropped), panics as values, the \<open>(primary_namespace, secondary_namespace, key)\<close> triple, and
  the contract of LDK's \<open>KVStoreSync\<close> trait as a locale. The contract speaks of the value a
  client would see (\<open>view\<close>) at the keys the store supports (\<open>ok\<close>); an operation that fails
  has either happened or not.
\<close>

datatype io_kind =
    NotFound | Other | InvalidData | TimedOut | WouldBlock | BrokenPipe | PermissionDenied

datatype failure = Io io_kind | Panic

type_synonym kv_key = "string \<times> string \<times> string"
type_synonym kv_view = "kv_key \<Rightarrow> bytes option"

locale kv_store_sync =
  fixes rd :: "'st \<Rightarrow> kv_key \<Rightarrow> (failure + bytes) \<times> 'st"
    and wr :: "'st \<Rightarrow> kv_key \<Rightarrow> bytes \<Rightarrow> (failure + unit) \<times> 'st"
    and rm :: "'st \<Rightarrow> kv_key \<Rightarrow> (failure + unit) \<times> 'st"
    and view :: "'st \<Rightarrow> kv_view"
    and ok :: "kv_key \<Rightarrow> bool"
  assumes rd_view: "ok k \<Longrightarrow> ok k' \<Longrightarrow> view (snd (rd st k)) k' = view st k'"
    and rd_Ok: "ok k \<Longrightarrow> fst (rd st k) = Inr v \<Longrightarrow> view st k = Some v"
    and rd_NotFound: "ok k \<Longrightarrow> fst (rd st k) = Inl (Io NotFound) \<Longrightarrow> view st k = None"
    and wr_Ok: "ok k \<Longrightarrow> fst (wr st k v) = Inr () \<Longrightarrow> view (snd (wr st k v)) k = Some v"
    and wr_Err: "ok k \<Longrightarrow> view (snd (wr st k v)) k = view st k \<or> view (snd (wr st k v)) k = Some v"
    and wr_other: "ok k \<Longrightarrow> ok k' \<Longrightarrow> k' \<noteq> k \<Longrightarrow> view (snd (wr st k v)) k' = view st k'"
    and rm_Ok: "ok k \<Longrightarrow> fst (rm st k) = Inr () \<Longrightarrow> view (snd (rm st k)) k = None"
    and rm_Err: "ok k \<Longrightarrow> view (snd (rm st k)) k = view st k \<or> view (snd (rm st k)) k = None"
    and rm_other: "ok k \<Longrightarrow> ok k' \<Longrightarrow> k' \<noteq> k \<Longrightarrow> view (snd (rm st k)) k' = view st k'"
begin

text \<open>What a client can rely on: it reads back what it wrote, and nothing it did not touch
  changes.\<close>

lemma read_after_write:
  assumes "ok k" "fst (wr st k v) = Inr ()" "fst (rd (snd (wr st k v)) k) = Inr u"
  shows "u = v"
  using rd_Ok [OF assms(1,3)] wr_Ok [OF assms(1,2)] by simp

lemma read_after_remove:
  assumes "ok k" "fst (rm st k) = Inr ()"
  shows "fst (rd (snd (rm st k)) k) \<noteq> Inr u"
  using rd_Ok [OF assms(1)] rm_Ok [OF assms] by fastforce

lemma read_after_write_not_absent:
  assumes "ok k" "fst (wr st k v) = Inr ()"
  shows "fst (rd (snd (wr st k v)) k) \<noteq> Inl (Io NotFound)"
  using rd_NotFound [OF assms(1)] wr_Ok [OF assms] by fastforce

end

end
