(* ===== verification/Local_Kv.thy ===== *)
theory Local_Kv
  imports Kv_Base
begin

text \<open>
  The local store, \<open>src/kv_store.rs\<close>: the \<open>kv_store\<close> table as an association list from key
  triples to values, in the order a query returns them. The database is an SQLite file behind
  sea-orm; each statement may fail, and a failed statement has no effect. Which statements fail
  is a schedule in the state (\<open>lk_faults\<close>, exhausted means that no further statement fails), so
  that every theorem holds for every pattern of database failures.
\<close>

section \<open>State and statements\<close>

type_synonym kv_rows = "(kv_key \<times> bytes) list"

record local_kv =
  lk_rows :: kv_rows
  lk_faults :: "bool list"

definition db_step :: "local_kv \<Rightarrow> bool \<times> local_kv" where
  "db_step db =
     (case lk_faults db of
        [] \<Rightarrow> (True, db)
      | f # fs \<Rightarrow> (\<not> f, db\<lparr>lk_faults := fs\<rparr>))"

datatype kv_stmt = Upsert kv_key bytes | DeleteMany kv_key

fun exec_stmt :: "kv_stmt \<Rightarrow> kv_rows \<Rightarrow> kv_rows" where
  "exec_stmt (Upsert k v) rows = AList.update k v rows"
| "exec_stmt (DeleteMany k) rows = filter (\<lambda>(k', v). k' \<noteq> k) rows"


section \<open>The KVStoreSync operations\<close>

definition local_read :: "local_kv \<Rightarrow> kv_key \<Rightarrow> (failure + bytes) \<times> local_kv" where
  "local_read db k =
     (case db_step db of
        (False, db) \<Rightarrow> (Inl (Io Other), db)
      | (True, db) \<Rightarrow>
          (case map_of (lk_rows db) k of
             Some v \<Rightarrow> (Inr v, db)
           | None \<Rightarrow> (Inl (Io NotFound), db)))"

definition local_exec :: "local_kv \<Rightarrow> kv_stmt \<Rightarrow> (failure + unit) \<times> local_kv" where
  "local_exec db stmt =
     (case db_step db of
        (False, db) \<Rightarrow> (Inl (Io Other), db)
      | (True, db) \<Rightarrow> (Inr (), db\<lparr>lk_rows := exec_stmt stmt (lk_rows db)\<rparr>))"

definition local_write :: "local_kv \<Rightarrow> kv_key \<Rightarrow> bytes \<Rightarrow> (failure + unit) \<times> local_kv" where
  "local_write db k buf = local_exec db (Upsert k buf)"

definition local_remove :: "local_kv \<Rightarrow> kv_key \<Rightarrow> (failure + unit) \<times> local_kv" where
  "local_remove db k = local_exec db (DeleteMany k)"

definition local_list :: "local_kv \<Rightarrow> string \<Rightarrow> string \<Rightarrow> (failure + string list) \<times> local_kv" where
  "local_list db primary secondary =
     (case db_step db of
        (False, db) \<Rightarrow> (Inl (Io Other), db)
      | (True, db) \<Rightarrow>
          (Inr (map (\<lambda>((p, s, k), v). k)
                  (filter (\<lambda>((p, s, k), v). p = primary \<and> s = secondary) (lk_rows db))), db))"

definition local_list_all :: "local_kv \<Rightarrow> (failure + kv_rows) \<times> local_kv" where
  "local_list_all db =
     (case db_step db of
        (False, db) \<Rightarrow> (Inl (Io Other), db)
      | (True, db) \<Rightarrow> (Inr (lk_rows db), db))"


section \<open>Transactions with a replication intent\<close>

text \<open>The calls the code makes of the database: it begins a transaction, executes statements on it, and
  commits; a statement executed on the connection itself takes effect at once. Each may fail, and the
  code returns at the first failure, which drops the transaction.\<close>

datatype db_call = DbBegin | DbTx kv_stmt | DbAuto kv_stmt | DbCommit

fun run_calls :: "(db_call \<Rightarrow> 'd \<Rightarrow> bool \<times> 'd) \<Rightarrow> db_call list \<Rightarrow> 'd \<Rightarrow> bool \<times> 'd" where
  "run_calls call [] d = (True, d)"
| "run_calls call (c # cs) d =
     (case call c d of
        (False, d) \<Rightarrow> (False, d)
      | (True, d) \<Rightarrow> run_calls call cs d)"

definition write_intent_calls :: "kv_key \<Rightarrow> bytes \<Rightarrow> kv_key \<Rightarrow> bytes \<Rightarrow> db_call list" where
  "write_intent_calls k v intent_key intent =
     [DbBegin, DbTx (Upsert k v), DbTx (Upsert intent_key intent), DbCommit]"

definition remove_intent_calls :: "kv_key \<Rightarrow> kv_key \<Rightarrow> bytes \<Rightarrow> db_call list" where
  "remove_intent_calls k intent_key intent =
     [DbBegin, DbTx (DeleteMany k), DbTx (Upsert intent_key intent), DbCommit]"

text \<open>A database: the rows, and the rows as an open transaction sees them.\<close>

fun local_call :: "db_call \<Rightarrow> local_kv \<times> kv_rows option \<Rightarrow> bool \<times> local_kv \<times> kv_rows option" where
  "local_call c (db, work) =
     (case db_step db of
        (False, db) \<Rightarrow> (False, db, work)
      | (True, db) \<Rightarrow>
          (True,
           (case c of
              DbBegin \<Rightarrow> (db, Some (lk_rows db))
            | DbTx stmt \<Rightarrow> (db, map_option (exec_stmt stmt) work)
            | DbAuto stmt \<Rightarrow> (db\<lparr>lk_rows := exec_stmt stmt (lk_rows db)\<rparr>, work)
            | DbCommit \<Rightarrow> (case work of None \<Rightarrow> (db, None) | Some rows \<Rightarrow> (db\<lparr>lk_rows := rows\<rparr>, None)))))"

definition db_calls :: "db_call list \<Rightarrow> local_kv \<Rightarrow> (failure + unit) \<times> local_kv" where
  "db_calls calls db =
     (case run_calls local_call calls (db, None) of
        (True, db, _) \<Rightarrow> (Inr (), db)
      | (False, db, _) \<Rightarrow> (Inl (Io Other), db))"

definition write_with_replication_intent ::
  "local_kv \<Rightarrow> kv_key \<Rightarrow> bytes \<Rightarrow> kv_key \<Rightarrow> bytes \<Rightarrow> (failure + unit) \<times> local_kv" where
  "write_with_replication_intent db k v intent_key intent = db_calls (write_intent_calls k v intent_key intent) db"

definition remove_with_replication_intent ::
  "local_kv \<Rightarrow> kv_key \<Rightarrow> kv_key \<Rightarrow> bytes \<Rightarrow> (failure + unit) \<times> local_kv" where
  "remove_with_replication_intent db k intent_key intent = db_calls (remove_intent_calls k intent_key intent) db"


section \<open>The contract of the database\<close>

text \<open>What SQLite documents of transactions, in the rows a process finds that opens the database later:
  a statement of an open transaction is seen by that transaction and changes nothing durable, a
  commit makes all of them durable at once, a statement outside takes effect by itself, and a call
  that fails changes nothing durable.\<close>

fun apply_stmt :: "kv_stmt \<Rightarrow> kv_view \<Rightarrow> kv_view" where
  "apply_stmt (Upsert k v) m = m(k \<mapsto> v)"
| "apply_stmt (DeleteMany k) m = m(k := None)"

locale transactional_db =
  fixes call :: "db_call \<Rightarrow> 'd \<Rightarrow> bool \<times> 'd"
    and durable :: "'d \<Rightarrow> kv_view"
    and work :: "'d \<Rightarrow> kv_view option"
  assumes begin_Ok: "call DbBegin d = (True, d') \<Longrightarrow> work d = None \<Longrightarrow>
      durable d' = durable d \<and> work d' = Some (durable d)"
    and tx_Ok: "call (DbTx stmt) d = (True, d') \<Longrightarrow> work d = Some w \<Longrightarrow>
      durable d' = durable d \<and> work d' = Some (apply_stmt stmt w)"
    and auto_Ok: "call (DbAuto stmt) d = (True, d') \<Longrightarrow> work d = None \<Longrightarrow>
      durable d' = apply_stmt stmt (durable d) \<and> work d' = None"
    and commit_Ok: "call DbCommit d = (True, d') \<Longrightarrow> work d = Some w \<Longrightarrow> durable d' = w \<and> work d' = None"
    and call_Err: "call c d = (False, d') \<Longrightarrow> durable d' = durable d"
begin

text \<open>A transaction, stopped after any of its calls.\<close>

lemma run_stmts:
  "run_calls call (map DbTx stmts) d = (r, d') \<Longrightarrow> work d = Some w \<Longrightarrow>
   durable d' = durable d \<and> (r \<longrightarrow> work d' = Some (fold apply_stmt stmts w))"
proof (induction stmts arbitrary: d w)
  case (Cons stmt stmts)
  obtain ok d1 where c: "call (DbTx stmt) d = (ok, d1)" by (cases "call (DbTx stmt) d")
  show ?case
  proof (cases ok)
    case True
    with c tx_Ok [of stmt d d1 w] Cons.prems(2) have "durable d1 = durable d" "work d1 = Some (apply_stmt stmt w)"
      by simp_all
    with Cons.IH [of d1 "apply_stmt stmt w"] Cons.prems(1) c True show ?thesis by simp
  next
    case False
    with c call_Err Cons.prems(1) show ?thesis by auto
  qed
qed simp

lemma run_calls_append:
  "run_calls call (cs @ cs') d = (case run_calls call cs d of (True, d) \<Rightarrow> run_calls call cs' d | (False, d) \<Rightarrow> (False, d))"
  by (induction cs arbitrary: d) (auto split: prod.split bool.split)

lemma transaction_prefix:
  assumes r: "run_calls call (take n (DbBegin # map DbTx stmts @ [DbCommit])) d = (r, d')" and w: "work d = None"
  shows "(if r \<and> length stmts + 2 \<le> n then durable d' = fold apply_stmt stmts (durable d) else durable d' = durable d)"
proof (cases n)
  case 0
  with r show ?thesis by simp
next
  case (Suc m)
  obtain ok d1 where c: "call DbBegin d = (ok, d1)" by (cases "call DbBegin d")
  show ?thesis
  proof (cases ok)
    case False
    with c call_Err r Suc show ?thesis by auto
  next
    case True
    note b = begin_Ok [of d d1, OF _ w]
    let ?stmts = "take m stmts"
    obtain q d2 where x: "run_calls call (map DbTx ?stmts) d1 = (q, d2)" by (cases "run_calls call (map DbTx ?stmts) d1")
    from b c True have w1: "work d1 = Some (durable d)" and d1: "durable d1 = durable d" by simp_all
    note s = run_stmts [OF x w1]
    have e: "(r, d') = (if q then run_calls call (take (m - length stmts) [DbCommit]) d2 else (False, d2))"
      using r c True Suc x by (simp add: run_calls_append take_map split: bool.splits)
    show ?thesis
    proof (cases "q \<and> length stmts < m")
      case False
      then have "d' = d2" "\<not> (r \<and> length stmts < m)"
        using e by (auto split: if_splits)
      with s d1 Suc show ?thesis by auto
    next
      case q: True
      then have "take (m - length stmts) [DbCommit] = [DbCommit]" "?stmts = stmts" by (cases "m - length stmts"; simp)+
      with e q have f: "(r, d') = run_calls call [DbCommit] d2" by simp
      obtain z d3 where k: "call DbCommit d2 = (z, d3)" by (cases "call DbCommit d2")
      show ?thesis
      proof (cases z)
        case True
        with k commit_Ok s q \<open>?stmts = stmts\<close> f Suc show ?thesis by auto
      next
        case False
        with k call_Err f s d1 show ?thesis by auto
      qed
    qed
  qed
qed

end


section \<open>Lemmas\<close>

named_theorems local_defs \<open>definitions of the local operations\<close>

lemmas [local_defs] = local_read_def local_write_def local_remove_def local_exec_def
  local_list_def local_list_all_def

lemma db_step_rows [simp]: "db_step db = (ok, db') \<Longrightarrow> lk_rows db' = lk_rows db"
  by (auto simp: db_step_def split: list.splits)

lemma db_step_healthy [simp]: "lk_faults db = [] \<Longrightarrow> db_step db = (True, db)"
  by (simp add: db_step_def)

lemma map_of_exec_Upsert [simp]:
  "map_of (exec_stmt (Upsert k v) rows) = (map_of rows)(k \<mapsto> v)"
  by (simp add: update_conv')

lemma map_of_exec_Delete [simp]:
  "map_of (exec_stmt (DeleteMany k) rows) = (map_of rows)(k := None)"
  by (induction rows) (auto simp: fun_eq_iff)

lemma distinct_exec_stmt:
  "distinct (map fst rows) \<Longrightarrow> distinct (map fst (exec_stmt stmt rows))"
  by (cases stmt) (auto simp: distinct_update distinct_map_filter case_prod_beta)

declare exec_stmt.simps [simp del]

text \<open>The outcomes of a single statement and of a transaction.\<close>

lemma local_exec_outcome:
  "(fst (local_exec db stmt) = Inl (Io Other) \<and> lk_rows (snd (local_exec db stmt)) = lk_rows db)
   \<or> (fst (local_exec db stmt) = Inr ()
      \<and> lk_rows (snd (local_exec db stmt)) = exec_stmt stmt (lk_rows db))"
  by (auto simp: local_exec_def split: prod.splits bool.splits)

lemma local_exec_cases:
  obtains (fails) db' where "local_exec db stmt = (Inl (Io Other), db')" "lk_rows db' = lk_rows db"
  | (applied) db' where "local_exec db stmt = (Inr (), db')"
      "lk_rows db' = exec_stmt stmt (lk_rows db)"
  using local_exec_outcome [of db stmt] by (metis prod.collapse)

definition db_transaction :: "kv_stmt list \<Rightarrow> local_kv \<Rightarrow> (failure + unit) \<times> local_kv" where
  "db_transaction stmts db = db_calls (DbBegin # map DbTx stmts @ [DbCommit]) db"

lemma intent_transactions:
  "write_with_replication_intent db k v ik i = db_transaction [Upsert k v, Upsert ik i] db"
  "remove_with_replication_intent db k ik i = db_transaction [DeleteMany k, Upsert ik i] db"
  by (simp_all add: write_with_replication_intent_def remove_with_replication_intent_def write_intent_calls_def
      remove_intent_calls_def db_transaction_def)

lemma run_local_stmts:
  "run_calls local_call (map DbTx stmts @ [DbCommit]) (db, Some w) = (r, db', w') \<Longrightarrow>
   lk_rows db' = (if r then fold exec_stmt stmts w else lk_rows db)"
  by (induction stmts arbitrary: db w) (auto split: prod.splits bool.splits if_splits)

lemma run_local_stmts_healthy:
  "lk_faults db = [] \<Longrightarrow> run_calls local_call (map DbTx stmts @ [DbCommit]) (db, Some w)
     = (True, db\<lparr>lk_rows := fold exec_stmt stmts w\<rparr>, None)"
  by (induction stmts arbitrary: w) simp_all

lemma db_transaction_outcome:
  "(fst (db_transaction stmts db) = Inl (Io Other)
      \<and> lk_rows (snd (db_transaction stmts db)) = lk_rows db)
   \<or> (fst (db_transaction stmts db) = Inr ()
      \<and> lk_rows (snd (db_transaction stmts db)) = fold exec_stmt stmts (lk_rows db))"
  by (auto simp: db_transaction_def db_calls_def split: prod.splits bool.splits
      dest!: run_local_stmts split: if_splits)

lemma db_transaction_cases:
  obtains (fails) db' where "db_transaction stmts db = (Inl (Io Other), db')"
      "lk_rows db' = lk_rows db"
  | (applied) db' where "db_transaction stmts db = (Inr (), db')"
      "lk_rows db' = fold exec_stmt stmts (lk_rows db)"
  using db_transaction_outcome [of stmts db] by (metis prod.collapse)

lemma db_transaction_healthy:
  "lk_faults db = [] \<Longrightarrow>
   db_transaction stmts db = (Inr (), db\<lparr>lk_rows := fold exec_stmt stmts (lk_rows db)\<rparr>)"
  by (simp add: db_transaction_def db_calls_def run_local_stmts_healthy)

lemma local_exec_healthy:
  "lk_faults db = [] \<Longrightarrow>
   local_exec db stmt = (Inr (), db\<lparr>lk_rows := exec_stmt stmt (lk_rows db)\<rparr>)"
  by (simp add: local_exec_def)

lemma db_step_faults: "db_step db = (ok, db') \<Longrightarrow> lk_faults db = [] \<Longrightarrow> lk_faults db' = []"
  by simp

lemma local_read_rows: "lk_rows (snd (local_read db k)) = lk_rows db"
  by (auto simp: local_read_def split: prod.splits bool.splits option.splits)

lemma local_list_rows: "lk_rows (snd (local_list db p q)) = lk_rows db"
  by (cases "db_step db"; cases "fst (db_step db)") (simp_all add: local_list_def)

lemma local_read_Inr: "local_read db k = (Inr v, db') \<Longrightarrow> map_of (lk_rows db) k = Some v"
  by (auto simp: local_read_def split: prod.splits bool.splits option.splits)

lemma local_read_fst:
  "fst (local_read db k) = Inr v \<Longrightarrow> map_of (lk_rows db) k = Some v"
  "fst (local_read db k) = Inl (Io NotFound) \<Longrightarrow> map_of (lk_rows db) k = None"
  by (auto simp: local_read_def split: prod.splits bool.splits option.splits)

lemma local_write_outcome:
  "(fst (local_write db k v) = Inl (Io Other) \<and> lk_rows (snd (local_write db k v)) = lk_rows db)
   \<or> (fst (local_write db k v) = Inr ()
      \<and> map_of (lk_rows (snd (local_write db k v))) = (map_of (lk_rows db))(k \<mapsto> v))"
  using local_exec_outcome [of db "Upsert k v"] by (auto simp: local_write_def)

lemma local_remove_outcome:
  "(fst (local_remove db k) = Inl (Io Other) \<and> lk_rows (snd (local_remove db k)) = lk_rows db)
   \<or> (fst (local_remove db k) = Inr ()
      \<and> map_of (lk_rows (snd (local_remove db k))) = (map_of (lk_rows db))(k := None))"
  using local_exec_outcome [of db "DeleteMany k"] by (auto simp: local_remove_def)

interpretation lkv: kv_store_sync local_read local_write local_remove "\<lambda>db. map_of (lk_rows db)"
  "\<lambda>k. True"
proof
  fix db k k' v
  show "map_of (lk_rows (snd (local_read db k))) k' = map_of (lk_rows db) k'"
    by (simp add: local_read_rows)
  note w = local_write_outcome [of db k v] and r = local_remove_outcome [of db k]
  show "fst (local_write db k v) = Inr () \<Longrightarrow>
      map_of (lk_rows (snd (local_write db k v))) k = Some v"
    using w by auto
  show "map_of (lk_rows (snd (local_write db k v))) k = map_of (lk_rows db) k
      \<or> map_of (lk_rows (snd (local_write db k v))) k = Some v"
    using w by auto
  show "k' \<noteq> k \<Longrightarrow> map_of (lk_rows (snd (local_write db k v))) k' = map_of (lk_rows db) k'"
    using w by auto
  show "fst (local_remove db k) = Inr () \<Longrightarrow> map_of (lk_rows (snd (local_remove db k))) k = None"
    using r by auto
  show "map_of (lk_rows (snd (local_remove db k))) k = map_of (lk_rows db) k
      \<or> map_of (lk_rows (snd (local_remove db k))) k = None"
    using r by auto
  show "k' \<noteq> k \<Longrightarrow> map_of (lk_rows (snd (local_remove db k))) k' = map_of (lk_rows db) k'"
    using r by auto
qed (simp_all add: local_read_fst)


interpretation ldb: transactional_db local_call "\<lambda>d. map_of (lk_rows (fst d))" "\<lambda>d. map_option map_of (snd d)"
proof
  have stmt: "map_of (exec_stmt stmt rows) = apply_stmt stmt (map_of rows)" for stmt rows
    by (cases stmt) simp_all
  show "map_of (lk_rows (fst d')) = map_of (lk_rows (fst d))" if "local_call c d = (False, d')" for c d d'
    using that by (cases d) (auto split: prod.splits bool.splits)
  show "map_of (lk_rows (fst d')) = map_of (lk_rows (fst d)) \<and> map_option map_of (snd d') = Some (map_of (lk_rows (fst d)))"
    if "local_call DbBegin d = (True, d')" for d d'
    using that by (cases d) (auto split: prod.splits bool.splits)
  show "map_of (lk_rows (fst d')) = map_of (lk_rows (fst d)) \<and> map_option map_of (snd d') = Some (apply_stmt stmt w)"
    if "local_call (DbTx stmt) d = (True, d')" "map_option map_of (snd d) = Some w" for stmt d d' w
    using that stmt by (cases d) (auto split: prod.splits bool.splits)
  show "map_of (lk_rows (fst d')) = apply_stmt stmt (map_of (lk_rows (fst d))) \<and> map_option map_of (snd d') = None"
    if "local_call (DbAuto stmt) d = (True, d')" "map_option map_of (snd d) = None" for stmt d d'
    using that stmt by (cases d) (auto split: prod.splits bool.splits)
  show "map_of (lk_rows (fst d')) = w \<and> map_option map_of (snd d') = None"
    if "local_call DbCommit d = (True, d')" "map_option map_of (snd d) = Some w" for d d' w
    using that by (cases d) (auto split: prod.splits bool.splits)
qed


section \<open>Properties\<close>

text \<open>C10. A write or removal and its replication intent become durable together. On any database with the
  documented behaviour of transactions, a process that dies after any number of the calls the code
  makes leaves the rows as they were or with both the change and the intent; when the code has run to
  its end, it returned \<open>Ok\<close> exactly when both are durable.\<close>

theorem write_intent_crash_atomic:
  assumes "transactional_db call durable work" "work d = None"
    and "calls = (case new of Some v \<Rightarrow> write_intent_calls k v ik i | None \<Rightarrow> remove_intent_calls k ik i)"
    and "run_calls call (take n calls) d = (r, d')"
  shows "(durable d' = durable d \<or> durable d' = (durable d)(k := new, ik \<mapsto> i))
    \<and> (length calls \<le> n \<longrightarrow> durable d' = (if r then (durable d)(k := new, ik \<mapsto> i) else durable d))"
proof -
  let ?stmts = "[case new of Some v \<Rightarrow> Upsert k v | None \<Rightarrow> DeleteMany k, Upsert ik i]"
  have c: "calls = DbBegin # map DbTx ?stmts @ [DbCommit]"
    using assms(3) by (cases new) (simp_all add: write_intent_calls_def remove_intent_calls_def)
  have f: "fold apply_stmt ?stmts (durable d) = (durable d)(k := new, ik \<mapsto> i)"
    by (cases new) (simp_all add: fun_eq_iff)
  from transactional_db.transaction_prefix [OF assms(1) assms(4) [unfolded c] assms(2)] f show ?thesis
    by (auto simp: c split: if_splits)
qed

theorem write_intent_crash_atomic_witness:
  "let k = (''p'', ''s'', ''k''); ik = (''vss_pending'', [], ''p/s/k'');
       db = \<lparr>lk_rows = [(k, [1])], lk_faults = []\<rparr>;
       run = (\<lambda>n. snd (run_calls local_call (take n (write_intent_calls k [2] ik [1, 2])) (db, None)))
   in map_of (lk_rows (fst (run 3))) k = Some [1] \<and> map_of (lk_rows (fst (run 3))) ik = None
      \<and> map_of (lk_rows (fst (run 4))) = [k \<mapsto> [2], ik \<mapsto> [1, 2]]"
proof -
  let ?k = "(''p'', ''s'', ''k'')" and ?ik = "(''vss_pending'', [], ''p/s/k'')"
  let ?db = "\<lparr>lk_rows = [(?k, [1])], lk_faults = []\<rparr>"
  let ?calls = "write_intent_calls ?k [2] ?ik [1, 2]"
  have r: "run_calls local_call (take 4 ?calls) (?db, None)
      = (True, snd (run_calls local_call (take 4 ?calls) (?db, None)))"
    by (simp add: write_intent_calls_def exec_stmt.simps)
  have three: "map_of (lk_rows (fst (snd (run_calls local_call (take 3 ?calls) (?db, None))))) = [?k \<mapsto> [1]]"
    by (simp add: write_intent_calls_def exec_stmt.simps)
  have "map_of (lk_rows (fst (snd (run_calls local_call (take 4 ?calls) (?db, None)))))
      = (map_of (lk_rows (fst (?db, None))))(?k := Some [2], ?ik \<mapsto> [1, 2])"
    using write_intent_crash_atomic [OF ldb.transactional_db_axioms _ _ r, where new = "Some [2]"]
    by (simp add: write_intent_calls_def)
  with three show ?thesis by (simp add: Let_def)
qed

end
