(* ===== verification/Rln_Utf8.thy ===== *)
theory Rln_Utf8
  imports Rln_Prelude
begin

text \<open>
  UTF-8 validation and lossy decoding as the Rust standard library does them
  (\<open>str::from_utf8\<close>, \<open>String::from_utf8_lossy\<close>): one scan step consumes a well-formed scalar
  value, or the longest prefix of a malformed one, which the lossy decoder replaces by U+FFFD.
\<close>

definition in_range :: "nat \<Rightarrow> nat \<Rightarrow> byte \<Rightarrow> bool" where
  "in_range lo hi b = (lo \<le> unat b \<and> unat b \<le> hi)"

text \<open>The range of the second byte and the number of continuation bytes after the first byte.\<close>

definition utf8_lead :: "byte \<Rightarrow> (nat \<times> nat \<times> nat) option" where
  "utf8_lead b =
     (if in_range 0xC2 0xDF b then Some (0x80, 0xBF, 1)
      else if b = 0xE0 then Some (0xA0, 0xBF, 2)
      else if b = 0xED then Some (0x80, 0x9F, 2)
      else if in_range 0xE1 0xEF b then Some (0x80, 0xBF, 2)
      else if b = 0xF0 then Some (0x90, 0xBF, 3)
      else if in_range 0xF1 0xF3 b then Some (0x80, 0xBF, 3)
      else if b = 0xF4 then Some (0x80, 0x8F, 3)
      else None)"

text \<open>How many of the wanted continuation bytes are there, the first within its own range.\<close>

fun utf8_cont :: "nat \<Rightarrow> nat \<Rightarrow> nat \<Rightarrow> bytes \<Rightarrow> nat" where
  "utf8_cont lo hi 0 bs = 0"
| "utf8_cont lo hi (Suc n) [] = 0"
| "utf8_cont lo hi (Suc n) (b # bs) =
     (if in_range lo hi b then Suc (utf8_cont 0x80 0xBF n bs) else 0)"

definition utf8_step :: "byte \<Rightarrow> bytes \<Rightarrow> bool \<times> nat" where
  "utf8_step b bs =
     (if unat b < 0x80 then (True, 0)
      else case utf8_lead b of
        None \<Rightarrow> (False, 0)
      | Some (lo, hi, n) \<Rightarrow> (utf8_cont lo hi n bs = n, utf8_cont lo hi n bs))"

function utf8_lossy :: "bytes \<Rightarrow> bytes" where
  "utf8_lossy [] = []"
| "utf8_lossy (b # bs) =
     (case utf8_step b bs of
        (True, n) \<Rightarrow> b # take n bs @ utf8_lossy (drop n bs)
      | (False, n) \<Rightarrow> [0xEF, 0xBF, 0xBD] @ utf8_lossy (drop n bs))"
  by pat_completeness auto
termination
  by (relation "measure length") auto

function utf8_valid :: "bytes \<Rightarrow> bool" where
  "utf8_valid [] = True"
| "utf8_valid (b # bs) = (case utf8_step b bs of (ok, n) \<Rightarrow> ok \<and> utf8_valid (drop n bs))"
  by pat_completeness auto
termination
  by (relation "measure length") auto

abbreviation is_ascii :: "bytes \<Rightarrow> bool" where
  "is_ascii \<equiv> list_all (\<lambda>b. unat b < 0x80)"

lemma utf8_lossy_ascii [simp]: "is_ascii bs \<Longrightarrow> utf8_lossy bs = bs"
  by (induction bs) (auto simp: utf8_step_def)

lemma utf8_valid_ascii [simp]: "is_ascii bs \<Longrightarrow> utf8_valid bs"
  by (induction bs) (auto simp: utf8_step_def)

lemma utf8_lossy_valid: "utf8_valid bs \<Longrightarrow> utf8_lossy bs = bs"
  by (induction bs rule: utf8_valid.induct) (auto split: prod.splits)

text \<open>A replacement character is never ASCII, so a lossy comparison with an ASCII string is an
  exact comparison.\<close>

lemma utf8_lossy_eq_ascii: "is_ascii a \<Longrightarrow> utf8_lossy bs = a \<longleftrightarrow> bs = a"
proof (induction bs arbitrary: a rule: utf8_lossy.induct)
  case (2 b bs)
  obtain ok n where st: "utf8_step b bs = (ok, n)" by fastforce
  show ?case
  proof (cases "unat b < 0x80")
    case True
    then have "utf8_step b bs = (True, 0)" by (simp add: utf8_step_def)
    with 2 show ?thesis by (cases a) auto
  next
    case False
    have "\<not> is_ascii (utf8_lossy (b # bs))"
      using False by (cases ok) (simp_all add: st)
    moreover have "\<not> is_ascii (b # bs)"
      using False by simp
    ultimately show ?thesis
      using "2.prems" by metis
  qed
qed auto


section \<open>Trimming\<close>

text \<open>\<open>str::trim\<close>. The characters with the Unicode property \<open>White_Space\<close>, as their UTF-8 bytes; on
  well-formed text a byte sequence at the front or back is the character.\<close>

definition whitespace :: "bytes list" where
  "whitespace =
     [[9], [10], [11], [12], [13], [32], [0xC2, 0x85], [0xC2, 0xA0], [0xE1, 0x9A, 0x80],
      [0xE2, 0x80, 0x80], [0xE2, 0x80, 0x81], [0xE2, 0x80, 0x82], [0xE2, 0x80, 0x83],
      [0xE2, 0x80, 0x84], [0xE2, 0x80, 0x85], [0xE2, 0x80, 0x86], [0xE2, 0x80, 0x87],
      [0xE2, 0x80, 0x88], [0xE2, 0x80, 0x89], [0xE2, 0x80, 0x8A], [0xE2, 0x80, 0xA8],
      [0xE2, 0x80, 0xA9], [0xE2, 0x80, 0xAF], [0xE2, 0x81, 0x9F], [0xE3, 0x80, 0x80]]"

function strip_front :: "bytes list \<Rightarrow> bytes \<Rightarrow> bytes" where
  "strip_front ws s =
     (case find (\<lambda>w. w \<noteq> [] \<and> take (length w) s = w) ws of
        None \<Rightarrow> s
      | Some w \<Rightarrow> strip_front ws (drop (length w) s))"
  by pat_completeness auto
termination
proof (relation "measure (\<lambda>(ws, s). length s)")
  fix ws s w
  assume "find (\<lambda>w. w \<noteq> [] \<and> take (length w) s = w) ws = Some w"
  then have "w \<noteq> []" "take (length w) s = w"
    unfolding find_Some_iff by auto
  then have "s \<noteq> []" by auto
  with \<open>w \<noteq> []\<close> show "((ws, drop (length w) s), (ws, s)) \<in> measure (\<lambda>(ws, s). length s)"
    by simp
qed simp

declare strip_front.simps [simp del]

definition str_trim :: "string \<Rightarrow> string" where
  "str_trim s =
     from_bytes (rev (strip_front (map rev whitespace) (rev (strip_front whitespace (as_bytes s)))))"

lemma strip_front_none:
  assumes "\<And>w. w \<in> set ws \<Longrightarrow> w \<noteq> [] \<Longrightarrow> take (length w) s \<noteq> w"
  shows "strip_front ws s = s"
proof -
  have "find (\<lambda>w. w \<noteq> [] \<and> take (length w) s = w) ws = None"
    unfolding find_None_iff using assms by blast
  then show ?thesis by (subst strip_front.simps) simp
qed

lemma str_trim_plain:
  assumes "\<And>b. b \<in> set (as_bytes s) \<Longrightarrow> 33 \<le> b \<and> b < 128"
  shows "str_trim s = s"
proof -
  have plain: "strip_front ws t = t"
    if "\<And>w. w \<in> set ws \<Longrightarrow> w \<noteq> [] \<Longrightarrow> \<not> (33 \<le> hd w \<and> hd w < 128)"
      "\<And>b. b \<in> set t \<Longrightarrow> 33 \<le> b \<and> b < 128" for ws and t :: bytes
  proof (rule strip_front_none)
    fix w :: bytes assume w: "w \<in> set ws" "w \<noteq> []"
    show "take (length w) t \<noteq> w"
    proof
      assume eq: "take (length w) t = w"
      with w(2) have "hd w \<in> set t" by (metis hd_in_set in_set_takeD)
      with that w show False by blast
    qed
  qed
  have f: "strip_front whitespace (as_bytes s) = as_bytes s"
    by (rule plain) (auto simp: whitespace_def assms)
  have "strip_front (map rev whitespace) (rev (as_bytes s)) = rev (as_bytes s)"
    by (rule plain) (auto simp: whitespace_def assms)
  then show ?thesis by (simp add: str_trim_def f)
qed

end
