(* ===== verification/Vss_Kv.thy ===== *)
theory Vss_Kv
  imports Kv_Base Rln_Utf8 Rln_Hex
begin

text \<open>
  The remote store, \<open>src/vss_kv_store.rs\<close>. The VSS server behind \<open>vss_client\<close>, the cipher of
  \<open>rgb_lib\<close> and the random generator are not part of the sources: they are the fields of
  \<open>vss_env\<close>, functions over an abstract environment state, and \<open>vss_service\<close> states what the
  code relies on. A panic of the code is the result \<^const>\<open>Panic\<close>.
\<close>

section \<open>The environment\<close>

datatype vss_error =
    NoSuchKeyError | InvalidRequestError | ConflictError | AuthError
  | InternalServerError | InternalError

record key_value =
  kv_key :: string
  kv_version :: int
  kv_value :: bytes

record put_object_request =
  po_store_id :: string
  po_transaction_items :: "key_value list"
  po_delete_items :: "key_value list"

record encryption_metadata =
  em_salt :: string
  em_nonce :: string
  em_version :: byte

record 's vss_env =
  ve_get_object :: "'s \<Rightarrow> string \<Rightarrow> string \<Rightarrow> (vss_error + key_value option) \<times> 's"
  ve_put_object :: "'s \<Rightarrow> put_object_request \<Rightarrow> (vss_error + unit) \<times> 's"
  ve_list_key_versions ::
    "'s \<Rightarrow> string \<Rightarrow> string option \<Rightarrow> string option
       \<Rightarrow> (vss_error + string list \<times> string option) \<times> 's"
  ve_completion ::
    "(vss_error + (string \<times> bytes) option) list \<Rightarrow> (vss_error + (string \<times> bytes) option) list"
  ve_random :: "'s \<Rightarrow> nat \<Rightarrow> bytes \<times> 's"
  ve_encrypt :: "bytes \<Rightarrow> bytes \<Rightarrow> encryption_metadata \<Rightarrow> bytes \<Rightarrow> bytes option"
  ve_decrypt :: "bytes \<Rightarrow> bytes \<Rightarrow> encryption_metadata \<Rightarrow> bytes \<Rightarrow> bytes option"

definition is_transient_vss_error :: "vss_error \<Rightarrow> bool" where
  "is_transient_vss_error e = (e = InternalServerError \<or> e = InternalError)"

definition vss_err_to_io :: "vss_error \<Rightarrow> failure" where
  "vss_err_to_io e = Io (if is_transient_vss_error e then TimedOut else Other)"

definition is_transient_io_error :: "failure \<Rightarrow> bool" where
  "is_transient_io_error e = (e = Io TimedOut)"

definition VSS_KV_HKDF_INFO :: bytes where
  "VSS_KV_HKDF_INFO = as_bytes ''rgb-ln-vss-kv-encryption-v1''"

definition VSS_KV_FORMAT_VERSION :: byte where
  "VSS_KV_FORMAT_VERSION = 1"

definition SALT_LEN :: nat where
  "SALT_LEN = 32"

definition NONCE_LEN :: nat where
  "NONCE_LEN = 19"

definition HEADER_LEN :: nat where
  "HEADER_LEN = 1 + SALT_LEN + NONCE_LEN"

definition FENCE_KEY :: string where
  "FENCE_KEY = ''__rln_instance__''"

definition FENCE_CHECK_INTERVAL :: u64 where
  "FENCE_CHECK_INTERVAL = 100"

text \<open>The \<open>VssKvStore\<close>; \<open>vs_instance_id\<close> is the printed UUID.\<close>

record vss_kv_store =
  vs_store_id :: string
  vs_signing_key :: bytes
  vs_instance_id :: string
  vs_write_counter :: u64


section \<open>Keys\<close>

definition vss_ns :: "string \<Rightarrow> string" where
  "vss_ns ns = (if ns = [] then ''_'' else ns)"

fun vss_key :: "kv_key \<Rightarrow> string" where
  "vss_key (primary, secondary, key) = vss_ns primary @ ''/'' @ vss_ns secondary @ ''/'' @ key"

definition unvss_ns :: "string \<Rightarrow> string" where
  "unvss_ns ns = (if ns = ''_'' then [] else ns)"

definition parse_vss_key :: "string \<Rightarrow> kv_key option" where
  "parse_vss_key x =
     (case split_once (CHR ''/'') x of
        None \<Rightarrow> None
      | Some (primary, rest) \<Rightarrow>
          (case split_once (CHR ''/'') rest of
             None \<Rightarrow> None
           | Some (secondary, key) \<Rightarrow>
               if key = [] then None
               else Some (unvss_ns primary, unvss_ns secondary, key)))"

definition vss_key_prefix :: "string \<Rightarrow> string \<Rightarrow> string" where
  "vss_key_prefix primary secondary = vss_ns primary @ ''/'' @ vss_ns secondary @ ''/''"

section \<open>Values\<close>

definition encrypt_value ::
  "'s vss_env \<Rightarrow> vss_kv_store \<Rightarrow> 's \<Rightarrow> bytes \<Rightarrow> (failure + bytes) \<times> 's" where
  "encrypt_value env vs s plaintext =
     (let (salt_bytes, s) = ve_random env s SALT_LEN;
          (nonce_bytes, s) = ve_random env s NONCE_LEN;
          metadata = \<lparr>em_salt = hex_str salt_bytes, em_nonce = hex_str nonce_bytes,
                      em_version = VSS_KV_FORMAT_VERSION\<rparr>
      in case ve_encrypt env plaintext (vs_signing_key vs) metadata VSS_KV_HKDF_INFO of
           None \<Rightarrow> (Inl (Io Other), s)
         | Some ciphertext \<Rightarrow>
             (Inr ([VSS_KV_FORMAT_VERSION] @ salt_bytes @ nonce_bytes @ ciphertext), s))"

definition decrypt_value :: "'s vss_env \<Rightarrow> vss_kv_store \<Rightarrow> bytes \<Rightarrow> failure + bytes" where
  "decrypt_value env vs stored =
     (if length stored < HEADER_LEN then Inl (Io InvalidData)
      else if stored ! 0 \<noteq> VSS_KV_FORMAT_VERSION then Inl (Io InvalidData)
      else
        let salt = take SALT_LEN (drop 1 stored);
            nonce = take NONCE_LEN (drop (1 + SALT_LEN) stored);
            ciphertext = drop HEADER_LEN stored;
            metadata = \<lparr>em_salt = hex_str salt, em_nonce = hex_str nonce, em_version = stored ! 0\<rparr>
        in case ve_decrypt env ciphertext (vs_signing_key vs) metadata VSS_KV_HKDF_INFO of
             None \<Rightarrow> Inl (Io InvalidData)
           | Some plaintext \<Rightarrow> Inr plaintext)"


section \<open>The single-writer fence\<close>

definition remote_id :: "key_value \<Rightarrow> string" where
  "remote_id kv = from_bytes (utf8_lossy (kv_value kv))"

definition fence_claim_request :: "vss_kv_store \<Rightarrow> put_object_request" where
  "fence_claim_request vs =
     \<lparr>po_store_id = vs_store_id vs,
      po_transaction_items =
        [\<lparr>kv_key = FENCE_KEY, kv_version = 0, kv_value = as_bytes (vs_instance_id vs)\<rparr>],
      po_delete_items = []\<rparr>"

definition delete_request :: "vss_kv_store \<Rightarrow> string \<Rightarrow> int \<Rightarrow> put_object_request" where
  "delete_request vs key version =
     \<lparr>po_store_id = vs_store_id vs, po_transaction_items = [],
      po_delete_items = [\<lparr>kv_key = key, kv_version = version, kv_value = []\<rparr>]\<rparr>"

text \<open>\<open>acquire_fence\<close> is a read followed by a conditional create; another instance may act in
  between, so the two halves are also definitions of their own.\<close>

definition acquire_fence_read ::
  "'s vss_env \<Rightarrow> vss_kv_store \<Rightarrow> 's \<Rightarrow> (failure + unit) option \<times> 's" where
  "acquire_fence_read env vs s =
     (case ve_get_object env s (vs_store_id vs) FENCE_KEY of
        (Inr (Some kv), s) \<Rightarrow>
          (if remote_id kv = vs_instance_id vs then (Some (Inr ()), s)
           else (Some (Inl (Io Other)), s))
      | (Inr None, s) \<Rightarrow> (None, s)
      | (Inl e, s) \<Rightarrow> (if e = NoSuchKeyError then (None, s) else (Some (Inl (Io Other)), s)))"

definition acquire_fence_claim :: "'s vss_env \<Rightarrow> vss_kv_store \<Rightarrow> 's \<Rightarrow> (failure + unit) \<times> 's" where
  "acquire_fence_claim env vs s =
     (case ve_put_object env s (fence_claim_request vs) of
        (Inr _, s) \<Rightarrow> (Inr (), s)
      | (Inl _, s) \<Rightarrow> (Inl (Io Other), s))"

definition acquire_fence :: "'s vss_env \<Rightarrow> vss_kv_store \<Rightarrow> 's \<Rightarrow> (failure + unit) \<times> 's" where
  "acquire_fence env vs s =
     (case acquire_fence_read env vs s of
        (Some r, s) \<Rightarrow> (r, s)
      | (None, s) \<Rightarrow> acquire_fence_claim env vs s)"

definition delete_object ::
  "'s vss_env \<Rightarrow> vss_kv_store \<Rightarrow> 's \<Rightarrow> string \<Rightarrow> int \<Rightarrow> (failure + unit) \<times> 's" where
  "delete_object env vs s key version =
     (case ve_put_object env s (delete_request vs key version) of
        (Inr _, s) \<Rightarrow> (Inr (), s)
      | (Inl e, s) \<Rightarrow> (if e = NoSuchKeyError then (Inr (), s) else (Inl (Io Other), s)))"

definition delete_fence :: "'s vss_env \<Rightarrow> vss_kv_store \<Rightarrow> 's \<Rightarrow> (failure + unit) \<times> 's" where
  "delete_fence env vs s =
     (case ve_get_object env s (vs_store_id vs) FENCE_KEY of
        (Inr (Some kv), s) \<Rightarrow> delete_object env vs s FENCE_KEY (kv_version kv)
      | (Inr None, s) \<Rightarrow> (Inr (), s)
      | (Inl e, s) \<Rightarrow> (if e = NoSuchKeyError then (Inr (), s) else (Inl (Io Other), s)))"

definition release_fence_if_owned ::
  "'s vss_env \<Rightarrow> vss_kv_store \<Rightarrow> 's \<Rightarrow> (failure + unit) \<times> 's" where
  "release_fence_if_owned env vs s =
     (case ve_get_object env s (vs_store_id vs) FENCE_KEY of
        (Inr (Some kv), s) \<Rightarrow>
          (if remote_id kv \<noteq> vs_instance_id vs then (Inr (), s)
           else delete_object env vs s FENCE_KEY (kv_version kv))
      | (Inr None, s) \<Rightarrow> (Inr (), s)
      | (Inl e, s) \<Rightarrow> (if e = NoSuchKeyError then (Inr (), s) else (Inl (Io Other), s)))"

text \<open>The counter wraps, as \<open>AtomicU64::fetch_add\<close> does. The result tells whether the code
  goes on; it panics otherwise.\<close>

definition check_fence_periodic ::
  "'s vss_env \<Rightarrow> vss_kv_store \<Rightarrow> 's \<Rightarrow> bool \<times> vss_kv_store \<times> 's" where
  "check_fence_periodic env vs s =
     (let counter = vs_write_counter vs; vs = vs\<lparr>vs_write_counter := counter + 1\<rparr>
      in if counter = 0 \<or> counter mod FENCE_CHECK_INTERVAL \<noteq> 0 then (True, vs, s)
         else case ve_get_object env s (vs_store_id vs) FENCE_KEY of
                (Inr (Some kv), s) \<Rightarrow> (remote_id kv = vs_instance_id vs, vs, s)
              | (_, s) \<Rightarrow> (True, vs, s))"


section \<open>Operations\<close>

definition put_request :: "vss_kv_store \<Rightarrow> string \<Rightarrow> bytes \<Rightarrow> put_object_request" where
  "put_request vs key stored =
     \<lparr>po_store_id = vs_store_id vs,
      po_transaction_items = [\<lparr>kv_key = key, kv_version = - 1, kv_value = stored\<rparr>],
      po_delete_items = []\<rparr>"

definition vss_read :: "'s vss_env \<Rightarrow> vss_kv_store \<Rightarrow> 's \<Rightarrow> kv_key \<Rightarrow> (failure + bytes) \<times> 's" where
  "vss_read env vs s k =
     (case ve_get_object env s (vs_store_id vs) (vss_key k) of
        (Inr (Some kv), s) \<Rightarrow> (decrypt_value env vs (kv_value kv), s)
      | (Inr None, s) \<Rightarrow> (Inl (Io NotFound), s)
      | (Inl e, s) \<Rightarrow>
          (if e = NoSuchKeyError then (Inl (Io NotFound), s) else (Inl (Io Other), s)))"

definition vss_write ::
  "'s vss_env \<Rightarrow> vss_kv_store \<Rightarrow> 's \<Rightarrow> kv_key \<Rightarrow> bytes \<Rightarrow> (failure + unit) \<times> vss_kv_store \<times> 's" where
  "vss_write env vs s k buf =
     (case check_fence_periodic env vs s of
        (False, vs, s) \<Rightarrow> (Inl Panic, vs, s)
      | (True, vs, s) \<Rightarrow>
          (case encrypt_value env vs s buf of
             (Inl e, s) \<Rightarrow> (Inl e, vs, s)
           | (Inr stored, s) \<Rightarrow>
               (case ve_put_object env s (put_request vs (vss_key k) stored) of
                  (Inl e, s) \<Rightarrow> (Inl (Io Other), vs, s)
                | (Inr _, s) \<Rightarrow> (Inr (), vs, s))))"

definition remove_raw :: "'s vss_env \<Rightarrow> vss_kv_store \<Rightarrow> 's \<Rightarrow> string \<Rightarrow> (failure + unit) \<times> 's" where
  "remove_raw env vs s key =
     (case ve_get_object env s (vs_store_id vs) key of
        (Inr (Some kv), s) \<Rightarrow> delete_object env vs s key (kv_version kv)
      | (Inr None, s) \<Rightarrow> (Inr (), s)
      | (Inl e, s) \<Rightarrow> (if e = NoSuchKeyError then (Inr (), s) else (Inl (Io Other), s)))"

definition vss_remove ::
  "'s vss_env \<Rightarrow> vss_kv_store \<Rightarrow> 's \<Rightarrow> kv_key \<Rightarrow> (failure + unit) \<times> vss_kv_store \<times> 's" where
  "vss_remove env vs s k =
     (case check_fence_periodic env vs s of
        (False, vs, s) \<Rightarrow> (Inl Panic, vs, s)
      | (True, vs, s) \<Rightarrow>
          (case remove_raw env vs s (vss_key k) of (r, s) \<Rightarrow> (r, vs, s)))"

text \<open>The asynchronous counterparts skip the fence check.\<close>

definition read_async :: "'s vss_env \<Rightarrow> vss_kv_store \<Rightarrow> 's \<Rightarrow> kv_key \<Rightarrow> (failure + bytes) \<times> 's" where
  "read_async env vs s k =
     (case ve_get_object env s (vs_store_id vs) (vss_key k) of
        (Inr (Some kv), s) \<Rightarrow> (decrypt_value env vs (kv_value kv), s)
      | (Inr None, s) \<Rightarrow> (Inl (Io NotFound), s)
      | (Inl e, s) \<Rightarrow>
          (if e = NoSuchKeyError then (Inl (Io NotFound), s) else (Inl (Io Other), s)))"

definition write_async ::
  "'s vss_env \<Rightarrow> vss_kv_store \<Rightarrow> 's \<Rightarrow> kv_key \<Rightarrow> bytes \<Rightarrow> (failure + unit) \<times> 's" where
  "write_async env vs s k buf =
     (case encrypt_value env vs s buf of
        (Inl e, s) \<Rightarrow> (Inl e, s)
      | (Inr stored, s) \<Rightarrow>
          (case ve_put_object env s (put_request vs (vss_key k) stored) of
             (Inl e, s) \<Rightarrow> (Inl (vss_err_to_io e), s)
           | (Inr _, s) \<Rightarrow> (Inr (), s)))"

definition remove_async ::
  "'s vss_env \<Rightarrow> vss_kv_store \<Rightarrow> 's \<Rightarrow> kv_key \<Rightarrow> (failure + unit) \<times> 's" where
  "remove_async env vs s k =
     (case ve_put_object env s (delete_request vs (vss_key k) (- 1)) of
        (Inl e, s) \<Rightarrow> (Inl (vss_err_to_io e), s)
      | (Inr _, s) \<Rightarrow> (Inr (), s))"

text \<open>The loops over pages end only if the server's page tokens do, so they are partial:
  \<^const>\<open>None\<close> is a loop that never ends.\<close>

definition next_token :: "string option \<Rightarrow> string option" where
  "next_token tok = (case tok of Some t \<Rightarrow> if t = [] then None else Some t | None \<Rightarrow> None)"

partial_function (option) list_loop ::
  "'s vss_env \<Rightarrow> string \<Rightarrow> string option \<Rightarrow> (string \<Rightarrow> string option) \<Rightarrow> 's \<Rightarrow> string option
     \<Rightarrow> string list \<Rightarrow> ((failure + string list) \<times> 's) option" where
  "list_loop env store_id prefix keep s page_token keys =
     (case ve_list_key_versions env s store_id prefix page_token of
        (Inl e, s) \<Rightarrow> Some (Inl (Io Other), s)
      | (Inr (page, tok), s) \<Rightarrow>
          (let keys = keys @ List.map_filter keep page
           in case next_token tok of
                Some t \<Rightarrow> list_loop env store_id prefix keep s (Some t) keys
              | None \<Rightarrow> Some (Inr keys, s)))"

definition list_all_keys ::
  "'s vss_env \<Rightarrow> vss_kv_store \<Rightarrow> 's \<Rightarrow> ((failure + string list) \<times> 's) option" where
  "list_all_keys env vs s =
     list_loop env (vs_store_id vs) None (\<lambda>k. if k = FENCE_KEY then None else Some k) s None []"

definition vss_list ::
  "'s vss_env \<Rightarrow> vss_kv_store \<Rightarrow> 's \<Rightarrow> string \<Rightarrow> string \<Rightarrow> ((failure + string list) \<times> 's) option" where
  "vss_list env vs s primary secondary =
     (let prefix = vss_key_prefix primary secondary
      in list_loop env (vs_store_id vs) (Some prefix)
           (\<lambda>k. if k = FENCE_KEY then None else strip_prefix prefix k) s None [])"

fun fetch_values ::
  "'s vss_env \<Rightarrow> vss_kv_store \<Rightarrow> 's \<Rightarrow> string list
     \<Rightarrow> (vss_error + (string \<times> bytes) option) list \<times> 's" where
  "fetch_values env vs s [] = ([], s)"
| "fetch_values env vs s (key # keys) =
     (let (resp, s) = ve_get_object env s (vs_store_id vs) key;
          item = (case resp of
                    Inr value \<Rightarrow> Inr (map_option (\<lambda>kv. (kv_key kv, kv_value kv)) value)
                  | Inl e \<Rightarrow> (if e = NoSuchKeyError then Inr None else Inl e));
          (items, s) = fetch_values env vs s keys
      in (item # items, s))"

fun decrypt_items ::
  "'s vss_env \<Rightarrow> vss_kv_store \<Rightarrow> (vss_error + (string \<times> bytes) option) list
     \<Rightarrow> failure + (string \<times> bytes) list" where
  "decrypt_items env vs [] = Inr []"
| "decrypt_items env vs (Inr None # items) = decrypt_items env vs items"
| "decrypt_items env vs (Inl e # items) = Inl (Io Other)"
| "decrypt_items env vs (Inr (Some (key, raw)) # items) =
     (case decrypt_value env vs raw of
        Inl e \<Rightarrow> Inl e
      | Inr plaintext \<Rightarrow>
          (case decrypt_items env vs items of
             Inl e \<Rightarrow> Inl e
           | Inr rest \<Rightarrow> Inr ((key, plaintext) # rest)))"

partial_function (option) download_loop ::
  "'s vss_env \<Rightarrow> vss_kv_store \<Rightarrow> 's \<Rightarrow> string option \<Rightarrow> (string \<times> bytes) list
     \<Rightarrow> ((failure + (string \<times> bytes) list) \<times> 's) option" where
  "download_loop env vs s page_token all_items =
     (case ve_list_key_versions env s (vs_store_id vs) None page_token of
        (Inl e, s) \<Rightarrow> Some (Inl (Io Other), s)
      | (Inr (page, tok), s) \<Rightarrow>
          (let (fetched, s) = fetch_values env vs s (filter (\<lambda>k. k \<noteq> FENCE_KEY) page)
           in case decrypt_items env vs (ve_completion env fetched) of
                Inl e \<Rightarrow> Some (Inl e, s)
              | Inr items \<Rightarrow>
                  (case next_token tok of
                     Some t \<Rightarrow> download_loop env vs s (Some t) (all_items @ items)
                   | None \<Rightarrow> Some (Inr (all_items @ items), s))))"

definition download_all ::
  "'s vss_env \<Rightarrow> vss_kv_store \<Rightarrow> 's \<Rightarrow> ((failure + (string \<times> bytes) list) \<times> 's) option" where
  "download_all env vs s = download_loop env vs s None []"


section \<open>Keys: canonical triples and injectivity\<close>

text \<open>The triples whose VSS name reads back: no separator and no literal \<open>_\<close> in the
  namespaces, and a key that is not empty.\<close>

fun canonical :: "kv_key \<Rightarrow> bool" where
  "canonical (primary, secondary, key) =
     (primary \<noteq> ''_'' \<and> secondary \<noteq> ''_'' \<and> CHR ''/'' \<notin> set primary
      \<and> CHR ''/'' \<notin> set secondary \<and> key \<noteq> [])"

lemma parse_vss_key_vss_key: "canonical k \<Longrightarrow> parse_vss_key (vss_key k) = Some k"
  by (cases k) (auto simp: parse_vss_key_def vss_ns_def unvss_ns_def split_once_sep)

lemma vss_key_inj: "canonical k \<Longrightarrow> canonical k' \<Longrightarrow> vss_key k = vss_key k' \<longleftrightarrow> k = k'"
  by (metis option.inject parse_vss_key_vss_key)

lemma vss_key_not_fence: "vss_key k \<noteq> FENCE_KEY"
proof -
  have "CHR ''/'' \<in> set (vss_key k)" by (cases k) simp
  moreover have "CHR ''/'' \<notin> set FENCE_KEY" by (simp add: FENCE_KEY_def)
  ultimately show ?thesis by metis
qed


section \<open>What the code relies on\<close>

text \<open>The contents of the server: for a store and a key, the version and the stored bytes.\<close>

type_synonym vss_contents = "string \<Rightarrow> string \<Rightarrow> (int \<times> bytes) option"

definition put_applied :: "put_object_request \<Rightarrow> vss_contents \<Rightarrow> vss_contents \<Rightarrow> bool" where
  "put_applied req c c' =
     ((\<forall>sid k. sid \<noteq> po_store_id req
          \<or> k \<notin> kv_key ` set (po_transaction_items req @ po_delete_items req) \<longrightarrow> c' sid k = c sid k)
      \<and> (\<forall>i \<in> set (po_transaction_items req).
            \<exists>ver. c' (po_store_id req) (kv_key i) = Some (ver, kv_value i))
      \<and> (\<forall>i \<in> set (po_delete_items req). c' (po_store_id req) (kv_key i) = None))"

definition put_guarded :: "put_object_request \<Rightarrow> vss_contents \<Rightarrow> bool" where
  "put_guarded req c =
     (\<forall>i \<in> set (po_transaction_items req). kv_version i = - 1
        \<or> kv_version i = (case c (po_store_id req) (kv_key i) of None \<Rightarrow> 0 | Some (v, _) \<Rightarrow> v))"

text \<open>What the instance reads at a key.\<close>

definition remote_view ::
  "'s vss_env \<Rightarrow> ('s \<Rightarrow> vss_contents) \<Rightarrow> vss_kv_store \<Rightarrow> 's \<Rightarrow> string \<Rightarrow> (failure + bytes) option" where
  "remote_view env contents vs s x =
     map_option (\<lambda>(ver, stored). decrypt_value env vs stored) (contents s (vs_store_id vs) x)"

definition fence_owner :: "('s \<Rightarrow> vss_contents) \<Rightarrow> string \<Rightarrow> 's \<Rightarrow> bytes option" where
  "fence_owner contents store_id s = map_option snd (contents s store_id FENCE_KEY)"

text \<open>The contract of the VSS protocol and of the cipher. Reads do not change the contents. A put
  is atomic: it is applied as a whole or not at all; it is applied when it succeeds, and a lost
  reply leaves both possible. A put is applied only if its version conditions hold, version 0
  asking for an absent key. The cipher decrypts what it encrypted.\<close>

locale vss_service =
  fixes env :: "'s vss_env"
    and contents :: "'s \<Rightarrow> vss_contents"
  assumes get_contents: "contents (snd (ve_get_object env s sid k)) = contents s"
    and get_Some: "fst (ve_get_object env s sid k) = Inr (Some kv) \<Longrightarrow>
      kv_key kv = k \<and> contents s sid k = Some (kv_version kv, kv_value kv)"
    and get_None: "fst (ve_get_object env s sid k) = Inr None \<Longrightarrow> contents s sid k = None"
    and get_NoSuchKey: "fst (ve_get_object env s sid k) = Inl NoSuchKeyError \<Longrightarrow>
      contents s sid k = None"
    and put_outcome: "contents (snd (ve_put_object env s req)) = contents s
        \<and> fst (ve_put_object env s req) \<noteq> Inr ()
      \<or> put_applied req (contents s) (contents (snd (ve_put_object env s req)))
        \<and> put_guarded req (contents s)"
    and put_NoSuchKey: "fst (ve_put_object env s req) = Inl NoSuchKeyError \<Longrightarrow>
      contents (snd (ve_put_object env s req)) = contents s
      \<and> (\<exists>i \<in> set (po_delete_items req). contents s (po_store_id req) (kv_key i) = None)"
    and versions_positive: "contents s sid k = Some (v, b) \<Longrightarrow> 0 < v"
    and random_contents: "contents (snd (ve_random env s n)) = contents s"
    and random_length: "length (fst (ve_random env s n)) = n"
    and decrypt_encrypt: "ve_encrypt env p key md info = Some c \<Longrightarrow>
      ve_decrypt env c key md info = Some p"
begin

lemma encrypt_value_contents:
  "encrypt_value env vs s p = (r, s') \<Longrightarrow> contents s' = contents s"
  by (auto simp: encrypt_value_def Let_def split: prod.splits option.splits)
    (metis random_contents snd_conv)+

lemma decrypt_encrypt_value:
  assumes "encrypt_value env vs s p = (Inr stored, s')"
  shows "decrypt_value env vs stored = Inr p"
proof -
  let ?r = "ve_random env s SALT_LEN"
  let ?n = "ve_random env (snd ?r) NONCE_LEN"
  have len: "length (fst ?r) = 32" "length (fst ?n) = 19"
    by (simp_all add: random_length SALT_LEN_def NONCE_LEN_def)
  obtain c where c: "ve_encrypt env p (vs_signing_key vs)
      \<lparr>em_salt = hex_str (fst ?r), em_nonce = hex_str (fst ?n), em_version = VSS_KV_FORMAT_VERSION\<rparr>
      VSS_KV_HKDF_INFO = Some c"
    and st: "stored = [VSS_KV_FORMAT_VERSION] @ fst ?r @ fst ?n @ c"
    using assms by (auto simp: encrypt_value_def Let_def split: prod.splits option.splits)
  show ?thesis
    using decrypt_encrypt [OF c] len
    by (simp add: decrypt_value_def st HEADER_LEN_def SALT_LEN_def NONCE_LEN_def Let_def)
qed

lemma check_fence_periodic_frame:
  assumes "check_fence_periodic env vs s = (ok, vs', s')"
  shows "contents s' = contents s \<and> vs' = vs\<lparr>vs_write_counter := vs_write_counter vs + 1\<rparr>"
  using assms get_contents [of s "vs_store_id vs" FENCE_KEY]
  by (auto simp: check_fence_periodic_def Let_def split: if_splits prod.splits sum.splits option.splits)

lemma decrypt_value_counter [simp]:
  "decrypt_value env (vs\<lparr>vs_write_counter := c\<rparr>) = decrypt_value env vs"
  by (simp add: decrypt_value_def fun_eq_iff)

lemma remote_view_counter [simp]: "remote_view env contents (vs\<lparr>vs_write_counter := c\<rparr>) = remote_view env contents vs"
  by (simp add: remote_view_def fun_eq_iff)

text \<open>The effect of a remote write and of a remote removal, whatever the result.\<close>

definition remote_effect ::
  "vss_kv_store \<Rightarrow> 's \<Rightarrow> string \<Rightarrow> bytes option \<Rightarrow> (failure + unit) \<Rightarrow> 's \<Rightarrow> bool" where
  "remote_effect vs s x value r s' \<longleftrightarrow>
     (\<forall>sid y. sid \<noteq> vs_store_id vs \<or> y \<noteq> x \<longrightarrow> contents s' sid y = contents s sid y)
     \<and> (remote_view env contents vs s' x = map_option Inr value
        \<or> contents s' = contents s \<and> r \<noteq> Inr ())"

lemma put_object_effect:
  assumes enc: "decrypt_value env vs stored = Inr v" and s: "contents s = contents s0"
    and put: "ve_put_object env s (put_request vs x stored) = (r, s')"
  shows "remote_effect vs s0 x (Some v) (case r of Inl e \<Rightarrow> Inl (f e) | Inr _ \<Rightarrow> Inr ()) s'"
proof -
  have "put_applied (put_request vs x stored) (contents s) (contents s') \<Longrightarrow>
    (\<forall>sid y. sid \<noteq> vs_store_id vs \<or> y \<noteq> x \<longrightarrow> contents s' sid y = contents s0 sid y)
     \<and> remote_view env contents vs s' x = Some (Inr v)"
    using enc by (auto simp: put_applied_def put_request_def remote_view_def s)
  then show ?thesis
    using put_outcome [of s "put_request vs x stored"] put s
    by (cases r) (auto simp: remote_effect_def)
qed

lemma vss_write_effect:
  assumes "vss_write env vs s k v = (r, vs', s')"
  shows "remote_effect vs s (vss_key k) (Some v) r s'
    \<and> vs' = vs\<lparr>vs_write_counter := vs_write_counter vs + 1\<rparr>"
proof -
  let ?vs = "vs\<lparr>vs_write_counter := vs_write_counter vs + 1\<rparr>"
  obtain ok s1 where f: "check_fence_periodic env vs s = (ok, ?vs, s1)"
    using check_fence_periodic_frame by (metis prod_cases3)
  note fr = check_fence_periodic_frame [OF f]
  obtain e s2 where en: "encrypt_value env ?vs s1 v = (e, s2)" by fastforce
  note ec = encrypt_value_contents [OF en]
  show ?thesis
  proof (cases "ok \<and> \<not> isl e")
    case False
    then show ?thesis
      using assms fr ec by (cases ok; cases e) (auto simp: vss_write_def f en remote_effect_def)
  next
    case True
    then obtain st where e: "e = Inr st" by (cases e) auto
    obtain pr s3 where p: "ve_put_object env s2 (put_request ?vs (vss_key k) st) = (pr, s3)"
      by fastforce
    have d: "decrypt_value env ?vs st = Inr v"
      using decrypt_encrypt_value en e by blast
    have "remote_effect ?vs s (vss_key k) (Some v)
        (case pr of Inl _ \<Rightarrow> Inl (Io Other) | Inr _ \<Rightarrow> Inr ()) s3"
      using put_object_effect [OF d _ p, of s] fr ec by simp
    then show ?thesis
      using assms True by (auto simp: vss_write_def f en e p remote_effect_def split: sum.splits)
  qed
qed

lemma delete_object_effect:
  assumes "delete_object env vs s x ver = (r, s')"
  shows "remote_effect vs s x None r s'"
proof -
  obtain pr s2 where p: "ve_put_object env s (delete_request vs x ver) = (pr, s2)" by fastforce
  then have s2: "s2 = s'"
    using assms by (auto simp: delete_object_def split: sum.splits if_splits)
  have "put_applied (delete_request vs x ver) (contents s) (contents s') \<Longrightarrow>
    (\<forall>sid y. sid \<noteq> vs_store_id vs \<or> y \<noteq> x \<longrightarrow> contents s' sid y = contents s sid y)
     \<and> remote_view env contents vs s' x = None"
    by (auto simp: put_applied_def delete_request_def remote_view_def)
  then show ?thesis
    using put_outcome [of s "delete_request vs x ver"]
      put_NoSuchKey [of s "delete_request vs x ver"] p assms s2
    by (auto simp: delete_object_def remote_effect_def delete_request_def remote_view_def
        split: sum.splits if_splits)
qed

lemma remove_raw_effect:
  assumes "remove_raw env vs s x = (r, s')"
  shows "remote_effect vs s x None r s'"
proof -
  obtain gr s1 where g: "ve_get_object env s (vs_store_id vs) x = (gr, s1)" by fastforce
  have c: "contents s1 = contents s"
    using get_contents [of s "vs_store_id vs" x] g by simp
  show ?thesis
  proof (cases "\<exists>kv. gr = Inr (Some kv)")
    case True
    then obtain kv where "gr = Inr (Some kv)" by blast
    then have "remote_effect vs s1 x None r s'"
      using assms g delete_object_effect by (simp add: remove_raw_def)
    then show ?thesis
      by (simp add: remote_effect_def c)
  next
    case False
    then show ?thesis
      using assms g c get_None [of s "vs_store_id vs" x] get_NoSuchKey [of s "vs_store_id vs" x]
      by (auto simp: remove_raw_def remote_effect_def remote_view_def
          split: sum.splits option.splits if_splits)
  qed
qed

lemma vss_remove_effect:
  assumes "vss_remove env vs s k = (r, vs', s')"
  shows "remote_effect vs s (vss_key k) None r s'
    \<and> vs' = vs\<lparr>vs_write_counter := vs_write_counter vs + 1\<rparr>"
proof -
  let ?vs = "vs\<lparr>vs_write_counter := vs_write_counter vs + 1\<rparr>"
  obtain ok s1 where f: "check_fence_periodic env vs s = (ok, ?vs, s1)"
    using check_fence_periodic_frame by (metis prod_cases3)
  note fr = check_fence_periodic_frame [OF f]
  obtain r2 s2 where rr: "remove_raw env ?vs s1 (vss_key k) = (r2, s2)" by fastforce
  show ?thesis
    using assms fr remove_raw_effect [OF rr]
    by (cases ok) (auto simp: vss_remove_def f rr remote_effect_def)
qed

text \<open>The fence: who holds it after each operation.\<close>

lemma remote_id_eq:
  "is_ascii (as_bytes i) \<Longrightarrow> remote_id kv = i \<longleftrightarrow> kv_value kv = as_bytes i"
  unfolding remote_id_def
  by (metis as_bytes_from_bytes from_bytes_as_bytes utf8_lossy_eq_ascii)

lemma acquire_fence_read_frame:
  "acquire_fence_read env vs s = (r, s') \<Longrightarrow> contents s' = contents s"
  using get_contents [of s "vs_store_id vs" FENCE_KEY]
  by (auto simp: acquire_fence_read_def split: prod.splits sum.splits option.splits if_splits)

lemma acquire_fence_read_Ok:
  assumes "is_ascii (as_bytes (vs_instance_id vs))" "acquire_fence_read env vs s = (Some (Inr ()), s')"
  shows "fence_owner contents (vs_store_id vs) s = Some (as_bytes (vs_instance_id vs))"
  using assms get_Some [of s "vs_store_id vs" FENCE_KEY]
  by (auto simp: acquire_fence_read_def fence_owner_def remote_id_eq
      split: prod.splits sum.splits option.splits if_splits)

lemma acquire_fence_claim_outcome:
  assumes "acquire_fence_claim env vs s = (r, s')"
  shows "contents s' = contents s \<and> r \<noteq> Inr ()
    \<or> fence_owner contents (vs_store_id vs) s = None
      \<and> fence_owner contents (vs_store_id vs) s' = Some (as_bytes (vs_instance_id vs))"
proof -
  let ?req = "fence_claim_request vs"
  have "put_guarded ?req (contents s) \<Longrightarrow> fence_owner contents (vs_store_id vs) s = None"
    using versions_positive [of s "vs_store_id vs" FENCE_KEY]
    by (fastforce simp: put_guarded_def fence_claim_request_def fence_owner_def
        split: option.splits)
  moreover have "put_applied ?req (contents s) (contents s') \<Longrightarrow>
      fence_owner contents (vs_store_id vs) s' = Some (as_bytes (vs_instance_id vs))"
    by (auto simp: put_applied_def fence_claim_request_def fence_owner_def)
  ultimately show ?thesis
    using put_outcome [of s ?req] assms
    by (cases "ve_put_object env s ?req")
      (auto simp: acquire_fence_claim_def split: sum.splits)
qed

lemma acquire_fence_Ok:
  assumes "is_ascii (as_bytes (vs_instance_id vs))" "acquire_fence env vs s = (Inr (), s')"
  shows "fence_owner contents (vs_store_id vs) s' = Some (as_bytes (vs_instance_id vs))"
  using assms acquire_fence_read_frame acquire_fence_read_Ok acquire_fence_claim_outcome
  by (fastforce simp: acquire_fence_def fence_owner_def split: prod.splits option.splits)

lemma acquire_fence_foreign:
  assumes "is_ascii (as_bytes (vs_instance_id vs))"
    and "fence_owner contents (vs_store_id vs) s = Some i" "i \<noteq> as_bytes (vs_instance_id vs)"
    and "acquire_fence env vs s = (r, s')"
  shows "r \<noteq> Inr () \<and> contents s' = contents s"
proof -
  obtain ro s1 where rd: "acquire_fence_read env vs s = (ro, s1)" by fastforce
  note c = acquire_fence_read_frame [OF rd]
  show ?thesis
  proof (cases ro)
    case (Some r')
    then show ?thesis
      using assms rd c acquire_fence_read_Ok [of vs s s1] by (auto simp: acquire_fence_def)
  next
    case None
    then have "acquire_fence_claim env vs s1 = (r, s')"
      using assms(4) rd by (simp add: acquire_fence_def)
    from acquire_fence_claim_outcome [OF this] show ?thesis
      using assms(2) c by (auto simp: fence_owner_def)
  qed
qed

lemma release_fence_foreign:
  assumes "is_ascii (as_bytes (vs_instance_id vs))"
    and "fence_owner contents (vs_store_id vs) s = Some i" "i \<noteq> as_bytes (vs_instance_id vs)"
  shows "contents (snd (release_fence_if_owned env vs s)) = contents s"
  using assms get_contents [of s "vs_store_id vs" FENCE_KEY] get_Some [of s "vs_store_id vs" FENCE_KEY]
  by (auto simp: release_fence_if_owned_def fence_owner_def remote_id_eq
      split: prod.splits sum.splits option.splits if_splits)

lemma remote_effect_fence:
  "remote_effect vs s (vss_key k) value r s' \<Longrightarrow>
   fence_owner contents sid s' = fence_owner contents sid s"
  using vss_key_not_fence [of k] by (auto simp: remote_effect_def fence_owner_def)

end

end
