(* ===== verification/Vss_Service.thy ===== *)
theory Vss_Service
  imports Vss_Kv "HOL-Library.Sublist" "HOL-Library.Multiset"
begin

text \<open>
  More of the contract of the VSS service, for the operations that need it: a service that is
  up (\<open>vss_available\<close>) and complete, finite listings (\<open>vss_listing\<close>); what the operations of
  \<open>src/vss_kv_store.rs\<close> achieve under them; and a server kept in memory, on which all contracts
  hold. The properties of the remote store are at the end.
\<close>

lemma list_all2_set1: "list_all2 P xs ys \<Longrightarrow> x \<in> set xs \<Longrightarrow> \<exists>y \<in> set ys. P x y"
  by (induction rule: list_all2_induct) auto

lemma list_all2_set2: "list_all2 P xs ys \<Longrightarrow> y \<in> set ys \<Longrightarrow> \<exists>x \<in> set xs. P x y"
  by (induction rule: list_all2_induct) auto


section \<open>A service that is up\<close>

definition fence_ours :: "('s \<Rightarrow> vss_contents) \<Rightarrow> vss_kv_store \<Rightarrow> 's \<Rightarrow> bool" where
  "fence_ours contents vs s \<longleftrightarrow>
     (case fence_owner contents (vs_store_id vs) s of
        None \<Rightarrow> True
      | Some i \<Rightarrow> from_bytes (utf8_lossy i) = vs_instance_id vs)"

locale vss_available = vss_service env contents
  for env :: "'s vss_env" and contents +
  fixes up :: "'s \<Rightarrow> bool"
  assumes up_get: "up s \<Longrightarrow> up (snd (ve_get_object env s sid k))
      \<and> (isl (fst (ve_get_object env s sid k)) \<longrightarrow>
           fst (ve_get_object env s sid k) = Inl NoSuchKeyError)"
    and up_put: "up s \<Longrightarrow> up (snd (ve_put_object env s req))"
    and up_put_Ok: "up s \<Longrightarrow> put_guarded req (contents s) \<Longrightarrow>
      distinct (map kv_key (po_transaction_items req @ po_delete_items req)) \<Longrightarrow>
      (\<And>i. i \<in> set (po_delete_items req) \<Longrightarrow>
        \<exists>b. contents s (po_store_id req) (kv_key i) = Some (kv_version i, b)) \<Longrightarrow>
      fst (ve_put_object env s req) = Inr ()"
    and up_random: "up s \<Longrightarrow> up (snd (ve_random env s n))"
    and encrypt_total: "ve_encrypt env p key md info \<noteq> None"
begin

lemma fence_ours_counter [simp]:
  "fence_ours contents (vs\<lparr>vs_write_counter := c\<rparr>) = fence_ours contents vs"
  by (simp add: fence_ours_def fun_eq_iff split: option.split)

lemma fence_ours_effect:
  "remote_effect vs s (vss_key k) value r s' \<Longrightarrow> fence_ours contents vs' s' = fence_ours contents vs' s"
  by (simp add: fence_ours_def remote_effect_fence)

lemma up_check_fence:
  assumes "up s" "fence_ours contents vs s"
  obtains s' where "check_fence_periodic env vs s =
      (True, vs\<lparr>vs_write_counter := vs_write_counter vs + 1\<rparr>, s')" "up s'"
      "contents s' = contents s"
proof -
  let ?g = "ve_get_object env s (vs_store_id vs) FENCE_KEY"
  obtain ok vs' s' where f: "check_fence_periodic env vs s = (ok, vs', s')"
    by (cases "check_fence_periodic env vs s") auto
  note fr = check_fence_periodic_frame [OF f]
  have "ok"
    using f assms(2) get_Some [of s "vs_store_id vs" FENCE_KEY]
    by (cases ?g) (auto simp: check_fence_periodic_def Let_def fence_ours_def fence_owner_def
        remote_id_def split: if_splits sum.splits option.splits)
  moreover have "up s'"
    using f assms(1) up_get [of s "vs_store_id vs" FENCE_KEY]
    by (cases ?g) (auto simp: check_fence_periodic_def Let_def
        split: if_splits sum.splits option.splits)
  ultimately show ?thesis
    using that [of s'] f fr by simp
qed

lemma up_encrypt:
  assumes "up s"
  obtains stored s' where "encrypt_value env vs s p = (Inr stored, s')" "up s'"
proof -
  let ?r = "ve_random env s SALT_LEN"
  let ?n = "ve_random env (snd ?r) NONCE_LEN"
  obtain c where "ve_encrypt env p (vs_signing_key vs)
      \<lparr>em_salt = hex_str (fst ?r), em_nonce = hex_str (fst ?n), em_version = VSS_KV_FORMAT_VERSION\<rparr>
      VSS_KV_HKDF_INFO = Some c"
    using encrypt_total by fastforce
  then show ?thesis
    using that [of "[VSS_KV_FORMAT_VERSION] @ fst ?r @ fst ?n @ c" "snd ?n"] up_random assms
    by (simp add: encrypt_value_def Let_def split_beta)
qed

lemma up_write:
  assumes "up s" "fence_ours contents vs s"
  obtains vs' s' where "vss_write env vs s k v = (Inr (), vs', s')" "up s'" "fence_ours contents vs' s'"
proof -
  obtain s1 where f: "check_fence_periodic env vs s =
      (True, vs\<lparr>vs_write_counter := vs_write_counter vs + 1\<rparr>, s1)" (is "_ = (True, ?vs, s1)")
    "up s1" "contents s1 = contents s"
    using up_check_fence [OF assms] by blast
  obtain st s2 where e: "encrypt_value env ?vs s1 v = (Inr st, s2)" "up s2"
    using up_encrypt [OF f(2)] by blast
  have "fst (ve_put_object env s2 (put_request ?vs (vss_key k) st)) = Inr ()"
    using e(2) by (intro up_put_Ok) (auto simp: put_guarded_def put_request_def)
  moreover have "up (snd (ve_put_object env s2 (put_request ?vs (vss_key k) st)))"
    using e(2) by (rule up_put)
  ultimately obtain s' where w: "vss_write env vs s k v = (Inr (), ?vs, s')" "up s'"
    by (simp add: vss_write_def f e split_beta)
  then have "fence_ours contents ?vs s'"
    using assms(2) vss_write_effect [OF w(1)] fence_ours_effect by auto
  with w that show ?thesis by blast
qed

lemma up_remove_raw:
  assumes "up s"
  obtains s' where "remove_raw env vs s x = (Inr (), s')" "up s'"
proof -
  let ?sid = "vs_store_id vs"
  obtain gr s1 where g: "ve_get_object env s ?sid x = (gr, s1)" by fastforce
  have u: "up s1" "isl gr \<longrightarrow> gr = Inl NoSuchKeyError" "contents s1 = contents s"
    using up_get [OF assms, of ?sid x] get_contents [of s ?sid x] by (auto simp: g)
  show ?thesis
  proof (cases "\<exists>kv. gr = Inr (Some kv)")
    case True
    then obtain kv where kv: "gr = Inr (Some kv)" by blast
    let ?req = "delete_request vs x (kv_version kv)"
    have "fst (ve_put_object env s1 ?req) = Inr ()"
      using u get_Some [of s ?sid x kv] g kv
      by (intro up_put_Ok) (auto simp: put_guarded_def delete_request_def)
    then show ?thesis
      using that [of "snd (ve_put_object env s1 ?req)"] up_put [OF u(1), of ?req] g kv
      by (auto simp: remove_raw_def delete_object_def split_beta)
  next
    case False
    then show ?thesis
      using that [of s1] u g
      by (cases gr) (auto simp: remove_raw_def split: option.splits)
  qed
qed

lemma up_remove:
  assumes "up s" "fence_ours contents vs s"
  obtains vs' s' where "vss_remove env vs s k = (Inr (), vs', s')" "up s'" "fence_ours contents vs' s'"
proof -
  obtain s1 where f: "check_fence_periodic env vs s =
      (True, vs\<lparr>vs_write_counter := vs_write_counter vs + 1\<rparr>, s1)" (is "_ = (True, ?vs, s1)")
    "up s1"
    using up_check_fence [OF assms] by blast
  obtain s' where "remove_raw env ?vs s1 (vss_key k) = (Inr (), s')" and u: "up s'"
    using up_remove_raw [OF f(2)] by blast
  then have w: "vss_remove env vs s k = (Inr (), ?vs, s')"
    by (simp add: vss_remove_def f)
  then have "fence_ours contents ?vs s'"
    using assms(2) vss_remove_effect [OF w(1)] fence_ours_effect by auto
  with w u that show ?thesis by blast
qed

end


section \<open>Complete and finite listings\<close>

text \<open>\<open>page_keys\<close> are the keys a listing still delivers from a page token on, \<open>rank\<close> bounds the
  number of pages left. \<open>FuturesUnordered\<close> yields the fetched values of a page in any order.\<close>

locale vss_listing = vss_service env contents
  for env :: "'s vss_env" and contents +
  fixes page_keys :: "'s \<Rightarrow> string \<Rightarrow> string option \<Rightarrow> string option \<Rightarrow> string list"
    and rank :: "'s \<Rightarrow> string \<Rightarrow> string option \<Rightarrow> string option \<Rightarrow> nat"
  assumes list_contents: "contents (snd (ve_list_key_versions env s sid pre tok)) = contents s"
    and list_last: "fst (ve_list_key_versions env s sid pre tok) = Inr (ks, nt) \<Longrightarrow>
      next_token nt = None \<Longrightarrow> page_keys s sid pre tok = ks"
    and list_more: "fst (ve_list_key_versions env s sid pre tok) = Inr (ks, nt) \<Longrightarrow>
      next_token nt = Some t \<Longrightarrow>
      page_keys s sid pre tok =
        ks @ page_keys (snd (ve_list_key_versions env s sid pre tok)) sid pre (Some t)
      \<and> rank (snd (ve_list_key_versions env s sid pre tok)) sid pre (Some t) < rank s sid pre tok"
    and page_all: "set (page_keys s sid pre None) =
      {k. contents s sid k \<noteq> None \<and> (case pre of None \<Rightarrow> True | Some p \<Rightarrow> prefix p k)}"
    and get_pages: "page_keys (snd (ve_get_object env s sid' k)) = page_keys s"
    and get_rank: "rank (snd (ve_get_object env s sid' k)) = rank s"
    and completion_perm: "mset (ve_completion env items) = mset items"
begin

lemma list_loop_ends:
  "\<exists>r s'. list_loop env sid pre keep s tok acc = Some (r, s') \<and> contents s' = contents s
     \<and> (\<forall>ks. r = Inr ks \<longrightarrow> ks = acc @ List.map_filter keep (page_keys s sid pre tok))"
proof (induction "rank s sid pre tok" arbitrary: s tok acc rule: less_induct)
  case less
  obtain r s1 where l: "ve_list_key_versions env s sid pre tok = (r, s1)" by fastforce
  have c: "contents s1 = contents s"
    using list_contents [of s sid pre tok] by (simp add: l)
  show ?case
  proof (cases r)
    case (Inl e)
    with l c show ?thesis by (simp add: list_loop.simps)
  next
    case (Inr p)
    then obtain ks nt where r: "r = Inr (ks, nt)" by (cases p) auto
    show ?thesis
    proof (cases "next_token nt")
      case None
      with l c r list_last [of s sid pre tok ks nt] show ?thesis
        by (simp add: list_loop.simps Let_def)
    next
      case (Some t)
      note more = list_more [of s sid pre tok ks nt t, unfolded l, simplified, OF r Some]
      from less [of s1 "Some t" "acc @ List.map_filter keep ks"] more
      obtain r' s' where "list_loop env sid pre keep s1 (Some t) (acc @ List.map_filter keep ks)
          = Some (r', s')" "contents s' = contents s1"
        "\<forall>ks'. r' = Inr ks' \<longrightarrow> ks' = (acc @ List.map_filter keep ks)
           @ List.map_filter keep (page_keys s1 sid pre (Some t))"
        by blast
      then show ?thesis
        using l r Some more c by (simp add: list_loop.simps [of _ _ _ _ s] Let_def map_filter_def)
    qed
  qed
qed

lemma fetch_values_spec:
  "fetch_values env vs s ks = (items, s') \<Longrightarrow>
   contents s' = contents s \<and> page_keys s' = page_keys s \<and> rank s' = rank s
   \<and> list_all2 (\<lambda>k it. (it = Inr None \<longrightarrow> contents s (vs_store_id vs) k = None)
        \<and> (\<forall>k' raw. it = Inr (Some (k', raw)) \<longrightarrow>
             k' = k \<and> map_option snd (contents s (vs_store_id vs) k) = Some raw)) ks items"
proof (induction ks arbitrary: s s' items)
  case (Cons k ks)
  let ?sid = "vs_store_id vs"
  obtain g s1 where g: "ve_get_object env s ?sid k = (g, s1)" by fastforce
  obtain its s2 where f: "fetch_values env vs s1 ks = (its, s2)" by fastforce
  have s1: "contents s1 = contents s" "page_keys s1 = page_keys s" "rank s1 = rank s"
    using get_contents [of s ?sid k] get_pages [of s ?sid k] get_rank [of s ?sid k]
    by (simp_all add: g)
  from Cons.IH [OF f] Cons.prems g f s1 show ?case
    using get_Some [of s ?sid k] get_None [of s ?sid k] get_NoSuchKey [of s ?sid k]
    by (auto simp: Let_def split: sum.splits if_splits)
qed simp

lemma decrypt_items_Inr:
  "decrypt_items env vs items = Inr out \<Longrightarrow>
   (\<forall>k v. (k, v) \<in> set out \<longleftrightarrow>
      (\<exists>raw. Inr (Some (k, raw)) \<in> set items \<and> decrypt_value env vs raw = Inr v))
   \<and> (\<forall>e. Inl e \<notin> set items)
   \<and> (\<forall>k raw. Inr (Some (k, raw)) \<in> set items \<longrightarrow> (\<exists>v. decrypt_value env vs raw = Inr v))"
  by (induction env vs items arbitrary: out rule: decrypt_items.induct)
    (auto split: sum.splits)

text \<open>What a complete download of some keys is.\<close>

definition downloaded :: "vss_kv_store \<Rightarrow> 's \<Rightarrow> string list \<Rightarrow> (string \<times> bytes) list \<Rightarrow> bool" where
  "downloaded vs s ks items \<longleftrightarrow>
     (\<forall>k v. (k, v) \<in> set items \<longrightarrow>
        k \<in> set ks \<and> k \<noteq> FENCE_KEY \<and> remote_view env contents vs s k = Some (Inr v))
     \<and> (\<forall>k \<in> set ks. k \<noteq> FENCE_KEY \<longrightarrow> contents s (vs_store_id vs) k \<noteq> None \<longrightarrow>
         (\<exists>v. (k, v) \<in> set items))"

lemma page_downloaded:
  assumes "fetch_values env vs s (filter (\<lambda>k. k \<noteq> FENCE_KEY) ks) = (items, s')"
    and "decrypt_items env vs (ve_completion env items) = Inr out"
  shows "downloaded vs s ks out"
proof -
  have items: "set (ve_completion env items) = set items"
    using completion_perm by (metis set_mset_mset)
  note f = fetch_values_spec [OF assms(1), THEN conjunct2, THEN conjunct2, THEN conjunct2]
  note d = decrypt_items_Inr [OF assms(2), unfolded items]
  have fwd: "k \<in> set ks \<and> k \<noteq> FENCE_KEY \<and> map_option snd (contents s (vs_store_id vs) k) = Some raw"
    if "Inr (Some (k, raw)) \<in> set items" for k raw
    using list_all2_set2 [OF f that] by auto
  have bwd: "\<exists>it \<in> set items. (it = Inr None \<longrightarrow> contents s (vs_store_id vs) k = None)
      \<and> (\<forall>k' raw. it = Inr (Some (k', raw)) \<longrightarrow> k' = k)"
    if "k \<in> set ks" "k \<noteq> FENCE_KEY" for k
    using list_all2_set1 [OF f, of k] that by auto
  show ?thesis
    unfolding downloaded_def
  proof (intro conjI allI ballI impI)
    fix k v assume "(k, v) \<in> set out"
    with d obtain raw where "Inr (Some (k, raw)) \<in> set items" "decrypt_value env vs raw = Inr v"
      by blast
    with fwd [of k raw] show "k \<in> set ks" "k \<noteq> FENCE_KEY"
      "remote_view env contents vs s k = Some (Inr v)"
      by (auto simp: remote_view_def)
  next
    fix k assume k: "k \<in> set ks" "k \<noteq> FENCE_KEY" "contents s (vs_store_id vs) k \<noteq> None"
    from bwd [OF k(1,2)] obtain it where it: "it \<in> set items" "it \<noteq> Inr None"
      "\<forall>k' raw. it = Inr (Some (k', raw)) \<longrightarrow> k' = k"
      using k(3) by blast
    have "it \<noteq> Inl e" for e
      using d it(1) by blast
    with it(2,3) obtain raw where "it = Inr (Some (k, raw))"
      by (metis old.sum.exhaust option.exhaust surj_pair)
    with it d show "\<exists>v. (k, v) \<in> set out" by blast
  qed
qed

lemma downloaded_cong:
  "contents s' = contents s \<Longrightarrow> downloaded vs s' ks items = downloaded vs s ks items"
  by (simp add: downloaded_def remote_view_def)

lemma downloaded_append:
  "downloaded vs s ks xs \<Longrightarrow> downloaded vs s ks' ys \<Longrightarrow> downloaded vs s (ks @ ks') (xs @ ys)"
  unfolding downloaded_def by fastforce

lemma download_loop_ends:
  "\<exists>r s'. download_loop env vs s tok acc = Some (r, s') \<and> contents s' = contents s
     \<and> (\<forall>items. r = Inr items \<longrightarrow> (\<exists>new. items = acc @ new
          \<and> downloaded vs s (page_keys s (vs_store_id vs) None tok) new))"
proof (induction "rank s (vs_store_id vs) None tok" arbitrary: s tok acc rule: less_induct)
  case less
  let ?sid = "vs_store_id vs"
  obtain r s1 where l: "ve_list_key_versions env s ?sid None tok = (r, s1)" by fastforce
  have c: "contents s1 = contents s"
    using list_contents [of s ?sid None tok] by (simp add: l)
  show ?case
  proof (cases r)
    case (Inl e)
    with l c show ?thesis by (simp add: download_loop.simps)
  next
    case (Inr p)
    then obtain ks nt where r: "r = Inr (ks, nt)" by (cases p) auto
    obtain items s2 where f: "fetch_values env vs s1 (filter (\<lambda>k. k \<noteq> FENCE_KEY) ks) = (items, s2)"
      by fastforce
    note fs = fetch_values_spec [OF f]
    show ?thesis
    proof (cases "decrypt_items env vs (ve_completion env items)")
      case (Inl e)
      with l r f fs c show ?thesis by (simp add: download_loop.simps)
    next
      case (Inr out)
      have out: "downloaded vs s ks out"
        using page_downloaded [OF f Inr] c downloaded_cong by metis
      show ?thesis
      proof (cases "next_token nt")
        case None
        with l c r f fs Inr out list_last [of s ?sid None tok ks nt] show ?thesis
          by (simp add: download_loop.simps)
      next
        case (Some t)
        note more = list_more [of s ?sid None tok ks nt t, unfolded l, simplified, OF r Some]
        have "rank s2 ?sid None (Some t) < rank s ?sid None tok"
          using more fs by simp
        from less [OF this, of "acc @ out"] obtain r' s' where
          r': "download_loop env vs s2 (Some t) (acc @ out) = Some (r', s')"
          "contents s' = contents s2"
          "\<And>items. r' = Inr items \<Longrightarrow> \<exists>new. items = (acc @ out) @ new
             \<and> downloaded vs s2 (page_keys s2 ?sid None (Some t)) new"
          by blast
        have "download_loop env vs s tok acc = Some (r', s')"
          using l r Some f Inr r'(1) by (simp add: download_loop.simps [of _ _ s])
        moreover have "\<exists>new. items = acc @ new \<and> downloaded vs s (page_keys s ?sid None tok) new"
          if R: "r' = Inr items" for items
        proof -
          obtain new where n: "items = (acc @ out) @ new"
            "downloaded vs s2 (page_keys s2 ?sid None (Some t)) new"
            using r'(3) [OF R] by blast
          have "contents s2 = contents s" using fs c by simp
          then have "downloaded vs s (page_keys s1 ?sid None (Some t)) new"
            using n(2) fs downloaded_cong [of s2 s] by simp
          with out more n(1) show ?thesis
            by (auto intro!: exI [of _ "out @ new"] downloaded_append)
        qed
        ultimately show ?thesis
          using r'(2) fs c by auto
      qed
    qed
  qed
qed

lemma download_all_ends:
  "\<exists>r s'. download_all env vs s = Some (r, s') \<and> contents s' = contents s
     \<and> (\<forall>items. r = Inr items \<longrightarrow>
          (\<forall>k v. (k, v) \<in> set items \<longleftrightarrow>
             k \<noteq> FENCE_KEY \<and> remote_view env contents vs s k = Some (Inr v))
          \<and> (\<forall>k e. k \<noteq> FENCE_KEY \<longrightarrow> remote_view env contents vs s k \<noteq> Some (Inl e)))"
proof -
  obtain r s' where d: "download_all env vs s = Some (r, s')" "contents s' = contents s"
    "\<forall>items. r = Inr items \<longrightarrow> downloaded vs s (page_keys s (vs_store_id vs) None None) items"
    using download_loop_ends [of vs s None "[]"] by (auto simp: download_all_def)
  have "(\<forall>k v. (k, v) \<in> set items \<longleftrightarrow>
             k \<noteq> FENCE_KEY \<and> remote_view env contents vs s k = Some (Inr v))
      \<and> (\<forall>k e. k \<noteq> FENCE_KEY \<longrightarrow> remote_view env contents vs s k \<noteq> Some (Inl e))"
    if "r = Inr items" for items
  proof -
    have dl: "downloaded vs s (page_keys s (vs_store_id vs) None None) items"
      using d(3) that by blast
    have pres: "\<exists>v. (k, v) \<in> set items"
      if "k \<noteq> FENCE_KEY" "remote_view env contents vs s k = Some x" for k x
      using dl that page_all [of s "vs_store_id vs" None]
      by (auto simp: downloaded_def remote_view_def)
    have val: "k \<noteq> FENCE_KEY \<and> remote_view env contents vs s k = Some (Inr v)"
      if "(k, v) \<in> set items" for k v
      using dl that by (auto simp: downloaded_def)
    have same: "\<exists>v. x = Inr v \<and> (k, v) \<in> set items"
      if "k \<noteq> FENCE_KEY" "remote_view env contents vs s k = Some x" for k x
      using pres [OF that] val that(2) by fastforce
    show ?thesis
      using val same by fastforce
  qed
  with d show ?thesis by blast
qed

end


section \<open>A server in memory\<close>

text \<open>Objects carry the number of their overwrites; the version a client sees is one more. A
  request that names a key twice is invalid.\<close>

type_synonym mem_vss = "((string \<times> string) \<times> nat \<times> bytes) list"

definition mem_contents :: "mem_vss \<Rightarrow> vss_contents" where
  "mem_contents s sid k = map_option (\<lambda>(n, b). (int n + 1, b)) (map_of s (sid, k))"

definition mem_get :: "mem_vss \<Rightarrow> string \<Rightarrow> string \<Rightarrow> (vss_error + key_value option) \<times> mem_vss" where
  "mem_get s sid k =
     (case map_of s (sid, k) of
        None \<Rightarrow> (Inl NoSuchKeyError, s)
      | Some (n, b) \<Rightarrow> (Inr (Some \<lparr>kv_key = k, kv_version = int n + 1, kv_value = b\<rparr>), s))"

definition mem_version :: "mem_vss \<Rightarrow> string \<Rightarrow> string \<Rightarrow> nat" where
  "mem_version s sid k = (case map_of s (sid, k) of None \<Rightarrow> 0 | Some (n, b) \<Rightarrow> n + 1)"

definition mem_store :: "string \<Rightarrow> key_value \<Rightarrow> mem_vss \<Rightarrow> mem_vss" where
  "mem_store sid i s =
     AList.update (sid, kv_key i) (mem_version s sid (kv_key i), kv_value i) s"

definition mem_drop :: "string \<Rightarrow> key_value \<Rightarrow> mem_vss \<Rightarrow> mem_vss" where
  "mem_drop sid i s = AList.delete (sid, kv_key i) s"

definition mem_put :: "mem_vss \<Rightarrow> put_object_request \<Rightarrow> (vss_error + unit) \<times> mem_vss" where
  "mem_put s req =
     (let sid = po_store_id req; puts = po_transaction_items req; dels = po_delete_items req
      in if \<not> distinct (map kv_key (puts @ dels)) then (Inl InvalidRequestError, s)
         else if list_all (\<lambda>i. kv_version i = - 1
                \<or> kv_version i = int (mem_version s sid (kv_key i))) puts
              \<and> list_all (\<lambda>i. mem_version s sid (kv_key i) \<noteq> 0
                \<and> kv_version i = int (mem_version s sid (kv_key i))) dels
         then (Inr (), fold (mem_drop sid) dels (fold (mem_store sid) puts s))
         else (Inl ConflictError, s))"

definition mem_keys :: "mem_vss \<Rightarrow> string \<Rightarrow> string option \<Rightarrow> string list" where
  "mem_keys s sid pre =
     map snd (filter (\<lambda>(sid', k). sid' = sid
       \<and> (case pre of None \<Rightarrow> True | Some p \<Rightarrow> prefix p k)) (map fst s))"

definition mem_env :: "mem_vss vss_env" where
  "mem_env =
     \<lparr>ve_get_object = mem_get,
      ve_put_object = mem_put,
      ve_list_key_versions = (\<lambda>s sid pre tok. (Inr (mem_keys s sid pre, None), s)),
      ve_completion = (\<lambda>items. items),
      ve_random = (\<lambda>s n. (replicate n 0, s)),
      ve_encrypt = (\<lambda>p key md info. Some p),
      ve_decrypt = (\<lambda>c key md info. Some c)\<rparr>"

lemma map_of_mem_store:
  "map_of (mem_store sid i s) =
     (map_of s)((sid, kv_key i) \<mapsto> (mem_version s sid (kv_key i), kv_value i))"
  by (simp add: mem_store_def update_conv')

lemma map_of_mem_stores:
  "distinct (map kv_key puts) \<Longrightarrow>
   (\<forall>i \<in> set puts. \<exists>n. map_of (fold (mem_store sid) puts s) (sid, kv_key i) = Some (n, kv_value i))
   \<and> (\<forall>sid' k. sid' \<noteq> sid \<or> k \<notin> kv_key ` set puts \<longrightarrow>
        map_of (fold (mem_store sid) puts s) (sid', k) = map_of s (sid', k))"
proof (induction puts arbitrary: s)
  case (Cons i puts)
  then have IH: "(\<forall>j \<in> set puts. \<exists>n. map_of (fold (mem_store sid) puts (mem_store sid i s)) (sid, kv_key j)
      = Some (n, kv_value j))"
    "\<And>sid' k. sid' \<noteq> sid \<or> k \<notin> kv_key ` set puts \<Longrightarrow>
       map_of (fold (mem_store sid) puts (mem_store sid i s)) (sid', k)
       = map_of (mem_store sid i s) (sid', k)"
    by simp_all
  with Cons.prems show ?case
    by (auto simp: map_of_mem_store)
qed simp

lemma map_of_mem_drops:
  "map_of (fold (mem_drop sid) dels s) (sid', k) =
     (if sid' = sid \<and> k \<in> kv_key ` set dels then None else map_of s (sid', k))"
  by (induction dels arbitrary: s) (auto simp: mem_drop_def delete_conv')

lemma mem_put_applied:
  assumes "fst (mem_put s req) = Inr ()"
  shows "put_applied req (mem_contents s) (mem_contents (snd (mem_put s req)))
    \<and> put_guarded req (mem_contents s)"
proof -
  let ?sid = "po_store_id req" and ?puts = "po_transaction_items req"
    and ?dels = "po_delete_items req"
  have d: "distinct (map kv_key (?puts @ ?dels))"
    and g: "list_all (\<lambda>i. kv_version i = - 1
      \<or> kv_version i = int (mem_version s ?sid (kv_key i))) ?puts"
    and s': "snd (mem_put s req) = fold (mem_drop ?sid) ?dels (fold (mem_store ?sid) ?puts s)"
    using assms by (auto simp: mem_put_def Let_def split: if_splits)
  have "put_guarded req (mem_contents s)"
    using g by (fastforce simp: put_guarded_def list_all_iff mem_version_def mem_contents_def
        split: option.splits)
  moreover have "put_applied req (mem_contents s) (mem_contents (snd (mem_put s req)))"
    unfolding put_applied_def
  proof (intro conjI allI ballI impI)
    note st = map_of_mem_stores [of ?puts ?sid s]
    fix sid k assume "sid \<noteq> ?sid \<or> k \<notin> kv_key ` set (?puts @ ?dels)"
    with d st show "mem_contents (snd (mem_put s req)) sid k = mem_contents s sid k"
      by (auto simp: s' mem_contents_def map_of_mem_drops image_Un)
  next
    note st = map_of_mem_stores [of ?puts ?sid s]
    fix i assume i: "i \<in> set ?puts"
    with d have "kv_key i \<notin> kv_key ` set ?dels" by auto
    moreover obtain n where
      "map_of (fold (mem_store ?sid) ?puts s) (?sid, kv_key i) = Some (n, kv_value i)"
      using st d i by auto
    ultimately show "\<exists>ver. mem_contents (snd (mem_put s req)) ?sid (kv_key i)
        = Some (ver, kv_value i)"
      by (simp add: s' mem_contents_def map_of_mem_drops)
  next
    fix i assume "i \<in> set ?dels"
    then show "mem_contents (snd (mem_put s req)) ?sid (kv_key i) = None"
      by (simp add: s' mem_contents_def map_of_mem_drops)
  qed
  ultimately show ?thesis by blast
qed

lemma mem_put_not_NoSuchKey: "fst (mem_put s req) \<noteq> Inl NoSuchKeyError"
  by (simp add: mem_put_def Let_def)

lemma mem_put_unchanged: "fst (mem_put s req) \<noteq> Inr () \<Longrightarrow> snd (mem_put s req) = s"
  by (auto simp: mem_put_def Let_def split: if_splits)

interpretation mem: vss_service mem_env mem_contents
proof
  fix s req
  show "mem_contents (snd (ve_put_object mem_env s req)) = mem_contents s
        \<and> fst (ve_put_object mem_env s req) \<noteq> Inr ()
      \<or> put_applied req (mem_contents s) (mem_contents (snd (ve_put_object mem_env s req)))
        \<and> put_guarded req (mem_contents s)"
    using mem_put_applied [of s req] mem_put_unchanged [of s req]
    by (cases "fst (mem_put s req) = Inr ()") (simp_all add: mem_env_def)
qed (auto simp add: mem_env_def mem_get_def mem_contents_def mem_put_not_NoSuchKey
    split: option.splits)

lemma mem_version_contents:
  "int (mem_version s sid k) = (case mem_contents s sid k of None \<Rightarrow> 0 | Some (v, _) \<Rightarrow> v)"
  by (auto simp: mem_version_def mem_contents_def split: option.splits)

lemma mem_put_Ok:
  assumes "put_guarded req (mem_contents s)"
    and "distinct (map kv_key (po_transaction_items req @ po_delete_items req))"
    and "\<And>i. i \<in> set (po_delete_items req) \<Longrightarrow>
      \<exists>b. mem_contents s (po_store_id req) (kv_key i) = Some (kv_version i, b)"
  shows "fst (mem_put s req) = Inr ()"
proof -
  have "list_all (\<lambda>i. mem_version s (po_store_id req) (kv_key i) \<noteq> 0
      \<and> kv_version i = int (mem_version s (po_store_id req) (kv_key i))) (po_delete_items req)"
    unfolding list_all_iff
  proof
    fix i assume "i \<in> set (po_delete_items req)"
    with assms(3) obtain b where
      b: "mem_contents s (po_store_id req) (kv_key i) = Some (kv_version i, b)" by blast
    with mem.versions_positive [OF b] mem_version_contents [of s "po_store_id req" "kv_key i"]
    show "mem_version s (po_store_id req) (kv_key i) \<noteq> 0
        \<and> kv_version i = int (mem_version s (po_store_id req) (kv_key i))"
      by simp
  qed
  moreover have "list_all (\<lambda>i. kv_version i = - 1
      \<or> kv_version i = int (mem_version s (po_store_id req) (kv_key i))) (po_transaction_items req)"
    using assms(1) by (simp add: put_guarded_def list_all_iff mem_version_contents)
  ultimately show ?thesis
    using assms(2) by (simp add: mem_put_def Let_def)
qed

interpretation mem_up: vss_available mem_env mem_contents "\<lambda>s. True"
  by unfold_locales
    (auto simp: mem_env_def mem_get_def split: option.splits intro!: mem_put_Ok)

lemma mem_keys_set:
  "k \<in> set (mem_keys s sid pre) \<longleftrightarrow>
     (sid, k) \<in> fst ` set s \<and> (case pre of None \<Rightarrow> True | Some p \<Rightarrow> prefix p k)"
proof -
  have "set (mem_keys s sid pre) = snd ` {x \<in> fst ` set s. fst x = sid
      \<and> (case pre of None \<Rightarrow> True | Some p \<Rightarrow> prefix p (snd x))}"
    by (simp add: mem_keys_def case_prod_beta)
  then show ?thesis by (cases pre) (auto simp: image_iff)
qed

lemma mem_contents_None: "mem_contents s sid k = None \<longleftrightarrow> (sid, k) \<notin> fst ` set s"
  by (simp add: mem_contents_def map_of_eq_None_iff)

interpretation mem_ls: vss_listing mem_env mem_contents "\<lambda>s sid pre tok. mem_keys s sid pre"
  "\<lambda>_ _ _ _. 0"
proof
  fix s sid pre
  show "set (mem_keys s sid pre) =
      {k. mem_contents s sid k \<noteq> None \<and> (case pre of None \<Rightarrow> True | Some p \<Rightarrow> prefix p k)}"
    by (simp add: set_eq_iff mem_keys_set mem_contents_None del: option.case)
qed (auto simp: mem_env_def next_token_def mem_get_def split: option.splits)


section \<open>The remote store as a KVStoreSync\<close>

definition remote_kv_view ::
  "'s vss_env \<Rightarrow> ('s \<Rightarrow> vss_contents) \<Rightarrow> vss_kv_store \<times> 's \<Rightarrow> kv_view" where
  "remote_kv_view env contents st k =
     (case remote_view env contents (fst st) (snd st) (vss_key k) of
        Some (Inr v) \<Rightarrow> Some v
      | _ \<Rightarrow> None)"

context vss_service
begin

lemma decrypt_value_kind: "decrypt_value env vs b \<noteq> Inl (Io NotFound)"
  by (simp add: decrypt_value_def Let_def split: option.splits)

lemma vss_read_spec:
  assumes "vss_read env vs s k = (r, s')"
  shows "contents s' = contents s"
    and "r = Inr v \<Longrightarrow> remote_view env contents vs s (vss_key k) = Some (Inr v)"
    and "r = Inl (Io NotFound) \<Longrightarrow> remote_view env contents vs s (vss_key k) = None"
  using assms get_contents [of s "vs_store_id vs" "vss_key k"]
    get_Some [of s "vs_store_id vs" "vss_key k"] get_None [of s "vs_store_id vs" "vss_key k"]
    get_NoSuchKey [of s "vs_store_id vs" "vss_key k"]
  by (auto simp: vss_read_def remote_view_def decrypt_value_kind
      split: prod.splits sum.splits option.splits if_splits)

lemma remote_effect_view:
  assumes "remote_effect vs s (vss_key k) value r s'" "canonical k"
  shows "canonical k' \<Longrightarrow> k' \<noteq> k \<Longrightarrow>
      remote_kv_view env contents (vs, s') k' = remote_kv_view env contents (vs, s) k'"
    and "remote_kv_view env contents (vs, s') k = value
      \<or> remote_kv_view env contents (vs, s') k = remote_kv_view env contents (vs, s) k \<and> r \<noteq> Inr ()"
proof -
  show "canonical k' \<Longrightarrow> k' \<noteq> k \<Longrightarrow>
      remote_kv_view env contents (vs, s') k' = remote_kv_view env contents (vs, s) k'"
    using assms vss_key_inj [of k' k]
    by (simp add: remote_effect_def remote_kv_view_def remote_view_def)
  have "remote_view env contents vs s' (vss_key k) = map_option Inr value
      \<or> contents s' = contents s \<and> r \<noteq> Inr ()"
    using assms(1) by (simp add: remote_effect_def)
  then show "remote_kv_view env contents (vs, s') k = value
      \<or> remote_kv_view env contents (vs, s') k = remote_kv_view env contents (vs, s) k \<and> r \<noteq> Inr ()"
    by (cases "value") (auto simp: remote_kv_view_def remote_view_def)
qed

lemma remote_kv_view_counter [simp]:
  "remote_kv_view env contents (vs\<lparr>vs_write_counter := c\<rparr>, s) = remote_kv_view env contents (vs, s)"
  by (simp add: remote_kv_view_def fun_eq_iff)

lemma vss_write_view:
  assumes "vss_write env vs s k v = (r, st')" "canonical k"
  shows "canonical k' \<Longrightarrow> k' \<noteq> k \<Longrightarrow>
      remote_kv_view env contents st' k' = remote_kv_view env contents (vs, s) k'"
    and "remote_kv_view env contents st' k = Some v
      \<or> remote_kv_view env contents st' k = remote_kv_view env contents (vs, s) k \<and> r \<noteq> Inr ()"
proof -
  obtain vs' s' where st': "st' = (vs', s')" by fastforce
  note e = vss_write_effect [OF assms(1) [unfolded st']]
  show "canonical k' \<Longrightarrow> k' \<noteq> k \<Longrightarrow>
      remote_kv_view env contents st' k' = remote_kv_view env contents (vs, s) k'"
    using remote_effect_view(1) [OF conjunct1 [OF e] assms(2)] e by (simp add: st')
  show "remote_kv_view env contents st' k = Some v
      \<or> remote_kv_view env contents st' k = remote_kv_view env contents (vs, s) k \<and> r \<noteq> Inr ()"
    using remote_effect_view(2) [OF conjunct1 [OF e] assms(2)] e by (simp add: st')
qed

lemma vss_remove_view:
  assumes "vss_remove env vs s k = (r, st')" "canonical k"
  shows "canonical k' \<Longrightarrow> k' \<noteq> k \<Longrightarrow>
      remote_kv_view env contents st' k' = remote_kv_view env contents (vs, s) k'"
    and "remote_kv_view env contents st' k = None
      \<or> remote_kv_view env contents st' k = remote_kv_view env contents (vs, s) k \<and> r \<noteq> Inr ()"
proof -
  obtain vs' s' where st': "st' = (vs', s')" by fastforce
  note e = vss_remove_effect [OF assms(1) [unfolded st']]
  show "canonical k' \<Longrightarrow> k' \<noteq> k \<Longrightarrow>
      remote_kv_view env contents st' k' = remote_kv_view env contents (vs, s) k'"
    using remote_effect_view(1) [OF conjunct1 [OF e] assms(2)] e by (simp add: st')
  show "remote_kv_view env contents st' k = None
      \<or> remote_kv_view env contents st' k = remote_kv_view env contents (vs, s) k \<and> r \<noteq> Inr ()"
    using remote_effect_view(2) [OF conjunct1 [OF e] assms(2)] e by (simp add: st')
qed

end

sublocale vss_service \<subseteq> rkv: kv_store_sync
  "\<lambda>st k. map_prod id (Pair (fst st)) (vss_read env (fst st) (snd st) k)"
  "\<lambda>st k v. vss_write env (fst st) (snd st) k v"
  "\<lambda>st k. vss_remove env (fst st) (snd st) k"
  "remote_kv_view env contents"
  canonical
proof
  fix st :: "vss_kv_store \<times> 's" and k k' v
  obtain vs s where st: "st = (vs, s)" by fastforce
  obtain r s' where rd: "vss_read env vs s k = (r, s')" by (metis surj_pair)
  obtain rw sw where w: "vss_write env vs s k v = (rw, sw)" by (metis surj_pair)
  obtain rr sr where rm: "vss_remove env vs s k = (rr, sr)" by (metis surj_pair)
  note specs = st rd w rm
  assume k: "canonical k"
  note rs = vss_read_spec [OF rd] and ws = vss_write_view [OF w k] and ms = vss_remove_view [OF rm k]
  show "remote_kv_view env contents
        (snd (map_prod id (Pair (fst st)) (vss_read env (fst st) (snd st) k))) k' =
      remote_kv_view env contents st k'"
    using rs(1) by (simp add: specs remote_kv_view_def remote_view_def)
  show "fst (map_prod id (Pair (fst st)) (vss_read env (fst st) (snd st) k)) = Inr v \<Longrightarrow>
      remote_kv_view env contents st k = Some v"
    using rs(2) by (simp add: specs remote_kv_view_def)
  show "fst (map_prod id (Pair (fst st)) (vss_read env (fst st) (snd st) k)) = Inl (Io NotFound) \<Longrightarrow>
      remote_kv_view env contents st k = None"
    using rs(3) by (simp add: specs remote_kv_view_def)
  show "fst (vss_write env (fst st) (snd st) k v) = Inr () \<Longrightarrow>
      remote_kv_view env contents (snd (vss_write env (fst st) (snd st) k v)) k = Some v"
    using ws(2) by (auto simp: specs)
  show "remote_kv_view env contents (snd (vss_write env (fst st) (snd st) k v)) k =
        remote_kv_view env contents st k
      \<or> remote_kv_view env contents (snd (vss_write env (fst st) (snd st) k v)) k = Some v"
    using ws(2) by (auto simp: specs)
  show "canonical k' \<Longrightarrow> k' \<noteq> k \<Longrightarrow>
      remote_kv_view env contents (snd (vss_write env (fst st) (snd st) k v)) k' =
      remote_kv_view env contents st k'"
    using ws(1) by (simp add: specs)
  show "fst (vss_remove env (fst st) (snd st) k) = Inr () \<Longrightarrow>
      remote_kv_view env contents (snd (vss_remove env (fst st) (snd st) k)) k = None"
    using ms(2) by (auto simp: specs)
  show "remote_kv_view env contents (snd (vss_remove env (fst st) (snd st) k)) k =
        remote_kv_view env contents st k
      \<or> remote_kv_view env contents (snd (vss_remove env (fst st) (snd st) k)) k = None"
    using ms(2) by (auto simp: specs)
  show "canonical k' \<Longrightarrow> k' \<noteq> k \<Longrightarrow>
      remote_kv_view env contents (snd (vss_remove env (fst st) (snd st) k)) k' =
      remote_kv_view env contents st k'"
    using ms(1) by (simp add: specs)
qed

context vss_service
begin

lemmas vss_kv_read_after_write = rkv.read_after_write [of _ "(vs, s)" for vs s, simplified]
  and vss_kv_not_absent = rkv.read_after_write_not_absent [of _ "(vs, s)" for vs s, simplified]
  and vss_kv_read_after_remove = rkv.read_after_remove [of _ "(vs, s)" for vs s, simplified]
  and vss_kv_write_other = rkv.wr_other [of _ _ "(vs, s)" for vs s, simplified]
  and vss_kv_remove_other = rkv.rm_other [of _ _ "(vs, s)" for vs s, simplified]

end


section \<open>The fence over time\<close>

text \<open>What happens to a store while \<open>holder\<close> has its fence and neither gives it up nor has it deleted by the
  operator: instances of any identity acquire, claim on the strength of an earlier read, release, write
  and remove, and anything that leaves the contents alone.\<close>

inductive fence_step ::
  "'s vss_env \<Rightarrow> ('s \<Rightarrow> vss_contents) \<Rightarrow> string \<Rightarrow> string \<Rightarrow> 's \<Rightarrow> 's \<Rightarrow> bool"
  for env contents sid holder where
  fence_acquire: "vs_store_id vs = sid \<Longrightarrow> is_ascii (as_bytes (vs_instance_id vs)) \<Longrightarrow>
    acquire_fence env vs s = (r, s') \<Longrightarrow> fence_step env contents sid holder s s'"
| fence_claim: "vs_store_id vs = sid \<Longrightarrow> acquire_fence_claim env vs s = (r, s') \<Longrightarrow>
    fence_step env contents sid holder s s'"
| fence_release: "vs_store_id vs = sid \<Longrightarrow> is_ascii (as_bytes (vs_instance_id vs)) \<Longrightarrow>
    vs_instance_id vs \<noteq> holder \<Longrightarrow> release_fence_if_owned env vs s = (r, s') \<Longrightarrow>
    fence_step env contents sid holder s s'"
| fence_write: "vss_write env vs s k v = (r, vs', s') \<Longrightarrow> fence_step env contents sid holder s s'"
| fence_remove: "vss_remove env vs s k = (r, vs', s') \<Longrightarrow> fence_step env contents sid holder s s'"
| fence_write_async: "write_async env vs s k v = (r, s') \<Longrightarrow> fence_step env contents sid holder s s'"
| fence_remove_async: "remove_async env vs s k = (r, s') \<Longrightarrow> fence_step env contents sid holder s s'"
| fence_other: "contents s' = contents s \<Longrightarrow> fence_step env contents sid holder s s'"

context vss_service
begin

lemma put_leaves_fence:
  assumes "ve_put_object env s req = (r, s')"
    and "FENCE_KEY \<notin> kv_key ` set (po_transaction_items req @ po_delete_items req)"
  shows "fence_owner contents sid s' = fence_owner contents sid s"
  using put_outcome [of s req] assms by (auto simp: put_applied_def fence_owner_def)

lemma write_async_fence: "write_async env vs s k v = (r, s') \<Longrightarrow> fence_owner contents sid s' = fence_owner contents sid s"
proof -
  assume w: "write_async env vs s k v = (r, s')"
  obtain e s1 where e: "encrypt_value env vs s v = (e, s1)" by (cases "encrypt_value env vs s v")
  note ec = encrypt_value_contents [OF e]
  show ?thesis
  proof (cases e)
    case (Inl x)
    with w e ec show ?thesis by (simp add: write_async_def fence_owner_def)
  next
    case (Inr stored)
    obtain q s2 where p: "ve_put_object env s1 (put_request vs (vss_key k) stored) = (q, s2)"
      by (cases "ve_put_object env s1 (put_request vs (vss_key k) stored)")
    from w e Inr p have "s' = s2" by (auto simp: write_async_def split: sum.splits)
    moreover from put_leaves_fence [OF p, of sid] vss_key_not_fence [of k]
    have "fence_owner contents sid s2 = fence_owner contents sid s1" by (simp add: put_request_def)
    ultimately show ?thesis using ec by (simp add: fence_owner_def)
  qed
qed

lemma remove_async_fence: "remove_async env vs s k = (r, s') \<Longrightarrow> fence_owner contents sid s' = fence_owner contents sid s"
proof -
  assume w: "remove_async env vs s k = (r, s')"
  obtain q s1 where p: "ve_put_object env s (delete_request vs (vss_key k) (- 1)) = (q, s1)"
    by (cases "ve_put_object env s (delete_request vs (vss_key k) (- 1))")
  from w p have "s' = s1" by (auto simp: remove_async_def split: sum.splits)
  with put_leaves_fence [OF p, of sid] vss_key_not_fence [of k] show ?thesis by (simp add: delete_request_def)
qed

lemma acquire_fence_held:
  assumes "acquire_fence env vs s = (r, s')" "fence_owner contents (vs_store_id vs) s \<noteq> None"
  shows "contents s' = contents s"
proof -
  obtain q s1 where q: "acquire_fence_read env vs s = (q, s1)" by (cases "acquire_fence_read env vs s")
  note fr = acquire_fence_read_frame [OF q]
  show ?thesis
  proof (cases q)
    case None
    with assms(1) q have "acquire_fence_claim env vs s1 = (r, s')" by (simp add: acquire_fence_def)
    from acquire_fence_claim_outcome [OF this] fr assms(2) show ?thesis by (auto simp: fence_owner_def)
  next
    case (Some x)
    with assms(1) q fr show ?thesis by (simp add: acquire_fence_def)
  qed
qed

lemma fence_step_kept:
  assumes "fence_step env contents sid holder s s'" "fence_owner contents sid s = Some (as_bytes holder)"
  shows "fence_owner contents sid s' = Some (as_bytes holder)"
  using assms(1)
proof (cases rule: fence_step.cases)
  case (fence_acquire vs r)
  have "contents s' = contents s"
    by (rule acquire_fence_held [OF fence_acquire(3)]) (simp add: fence_acquire(1) assms(2))
  with assms(2) show ?thesis by (simp add: fence_owner_def)
next
  case (fence_claim vs r)
  have "contents s' = contents s"
    using acquire_fence_claim_outcome [OF fence_claim(2)] assms(2) by (simp add: fence_claim(1))
  with assms(2) show ?thesis by (simp add: fence_owner_def)
next
  case (fence_release vs r)
  have ne: "as_bytes holder \<noteq> as_bytes (vs_instance_id vs)" using fence_release(3) by simp
  have "fence_owner contents (vs_store_id vs) s = Some (as_bytes holder)" by (simp add: fence_release(1) assms(2))
  from release_fence_foreign [OF fence_release(2) this ne] have "contents s' = contents s" by (simp add: fence_release(4))
  with assms(2) show ?thesis by (simp add: fence_owner_def)
next
  case (fence_write vs k v r vs')
  from remote_effect_fence [OF conjunct1 [OF vss_write_effect [OF fence_write]]] assms(2) show ?thesis by simp
next
  case (fence_remove vs k r vs')
  from remote_effect_fence [OF conjunct1 [OF vss_remove_effect [OF fence_remove]]] assms(2) show ?thesis by simp
next
  case (fence_write_async vs k v r)
  from write_async_fence [OF fence_write_async] assms(2) show ?thesis by simp
next
  case (fence_remove_async vs k r)
  from remove_async_fence [OF fence_remove_async] assms(2) show ?thesis by simp
next
  case fence_other
  with assms(2) show ?thesis by (simp add: fence_owner_def)
qed

lemma fence_steps_kept:
  assumes "(fence_step env contents sid holder)\<^sup>*\<^sup>* s s'" "fence_owner contents sid s = Some (as_bytes holder)"
  shows "fence_owner contents sid s' = Some (as_bytes holder)"
  using assms
proof (induction rule: rtranclp_induct)
  case (step y z)
  from fence_step_kept [OF step.hyps(2) step.IH [OF step.prems]] show ?case .
qed

lemma delete_object_frees:
  assumes "delete_object env vs s FENCE_KEY ver = (Inr (), s')"
  shows "fence_owner contents (vs_store_id vs) s' = None"
proof -
  let ?req = "delete_request vs FENCE_KEY ver"
  show ?thesis
    using assms put_outcome [of s ?req] put_NoSuchKey [of s ?req]
    by (cases "ve_put_object env s ?req")
      (auto simp: delete_object_def delete_request_def put_applied_def fence_owner_def split: sum.splits if_splits)
qed

lemma fence_freed:
  assumes "is_ascii (as_bytes (vs_instance_id vs))"
    and "fence_owner contents (vs_store_id vs) s = Some (as_bytes (vs_instance_id vs))"
  shows "release_fence_if_owned env vs s = (Inr (), s') \<Longrightarrow> fence_owner contents (vs_store_id vs) s' = None"
  using assms get_contents [of s "vs_store_id vs" FENCE_KEY] get_Some [of s "vs_store_id vs" FENCE_KEY]
    get_None [of s "vs_store_id vs" FENCE_KEY] get_NoSuchKey [of s "vs_store_id vs" FENCE_KEY] delete_object_frees
  by (auto simp: release_fence_if_owned_def fence_owner_def remote_id_eq
      split: prod.splits sum.splits option.splits if_splits)

lemma delete_fence_frees:
  "delete_fence env vs s = (Inr (), s') \<Longrightarrow> fence_owner contents (vs_store_id vs) s' = None"
  using get_contents [of s "vs_store_id vs" FENCE_KEY] get_None [of s "vs_store_id vs" FENCE_KEY]
    get_NoSuchKey [of s "vs_store_id vs" FENCE_KEY] delete_object_frees
  by (auto simp: delete_fence_def fence_owner_def split: prod.splits sum.splits option.splits if_splits)

end


section \<open>Properties\<close>

text \<open>C4. The fence admits one writer at a time. From the moment an instance has acquired the fence of a
  store, through any sequence of acquisitions, claims, releases, writes and removals by instances of any
  identity, as long as the holder does not release it and the operator does not delete it, the
  fence stays the holder's, and an instance of another identity neither acquires it nor changes
  anything by trying, not even by the conditional create of one whose read came before. A release by the
  holder and a deletion by the operator that return \<open>Ok\<close> leave it free.\<close>

theorem fence_exclusive:
  assumes "vss_service env contents"
    and "is_ascii (as_bytes (vs_instance_id a))" "is_ascii (as_bytes (vs_instance_id b))"
    and "vs_store_id b = vs_store_id a" "vs_instance_id b \<noteq> vs_instance_id a"
    and "acquire_fence env a s0 = (Inr (), s1)"
    and "(fence_step env contents (vs_store_id a) (vs_instance_id a))\<^sup>*\<^sup>* s1 s"
  shows "fence_owner contents (vs_store_id a) s = Some (as_bytes (vs_instance_id a))
    \<and> fst (acquire_fence env b s) \<noteq> Inr () \<and> contents (snd (acquire_fence env b s)) = contents s
    \<and> fst (acquire_fence_claim env b s) \<noteq> Inr ()
    \<and> contents (snd (acquire_fence_claim env b s)) = contents s
    \<and> (fst (release_fence_if_owned env a s) = Inr () \<longrightarrow>
         fence_owner contents (vs_store_id a) (snd (release_fence_if_owned env a s)) = None)
    \<and> (fst (delete_fence env b s) = Inr () \<longrightarrow>
         fence_owner contents (vs_store_id a) (snd (delete_fence env b s)) = None)"
proof -
  note own = vss_service.fence_steps_kept [OF assms(1,7) vss_service.acquire_fence_Ok [OF assms(1,2,6)]]
  have own_b: "fence_owner contents (vs_store_id b) s = Some (as_bytes (vs_instance_id a))"
    "as_bytes (vs_instance_id a) \<noteq> as_bytes (vs_instance_id b)"
    using own assms(4,5) as_bytes_inj by auto
  obtain r1 s1 where x1: "acquire_fence env b s = (r1, s1)" by (cases "acquire_fence env b s")
  obtain r2 s2 where x2: "acquire_fence_claim env b s = (r2, s2)" by (cases "acquire_fence_claim env b s")
  have "r2 \<noteq> Inr () \<and> contents s2 = contents s"
    using vss_service.acquire_fence_claim_outcome [OF assms(1) x2] own_b by auto
  moreover have "fst (release_fence_if_owned env a s) = Inr () \<longrightarrow>
      fence_owner contents (vs_store_id a) (snd (release_fence_if_owned env a s)) = None"
    using vss_service.fence_freed [OF assms(1,2) own] by (metis prod.collapse)
  moreover have "fst (delete_fence env b s) = Inr () \<longrightarrow>
      fence_owner contents (vs_store_id a) (snd (delete_fence env b s)) = None"
    using vss_service.delete_fence_frees [OF assms(1), of b s] assms(4) by (metis prod.collapse)
  ultimately show ?thesis
    using own vss_service.acquire_fence_foreign [OF assms(1,3) own_b x1] by (simp add: x1 x2)
qed

theorem fence_exclusive_witness:
  "let a = \<lparr>vs_store_id = ''s'', vs_signing_key = [], vs_instance_id = ''a'', vs_write_counter = 0\<rparr>;
       b = \<lparr>vs_store_id = ''s'', vs_signing_key = [], vs_instance_id = ''b'', vs_write_counter = 0\<rparr>;
       s = [((''s'', FENCE_KEY), 0, as_bytes ''a'')]; s' = snd (snd (vss_write mem_env b s (''p'', [], ''k'') [7]))
   in acquire_fence mem_env a [] = (Inr (), s) \<and> fst (acquire_fence mem_env b s') \<noteq> Inr ()
      \<and> release_fence_if_owned mem_env a s = (Inr (), []) \<and> fst (acquire_fence mem_env b []) = Inr ()"
proof -
  let ?a = "\<lparr>vs_store_id = ''s'', vs_signing_key = [], vs_instance_id = ''a'', vs_write_counter = 0\<rparr>"
  let ?b = "\<lparr>vs_store_id = ''s'', vs_signing_key = [], vs_instance_id = ''b'', vs_write_counter = 0\<rparr>"
  let ?s = "[((''s'', FENCE_KEY), 0, as_bytes ''a'')]"
  let ?w = "vss_write mem_env ?b ?s (''p'', [], ''k'') [7]"
  have a: "acquire_fence mem_env ?a [] = (Inr (), ?s)" "fst (acquire_fence mem_env ?b []) = Inr ()"
    by (simp_all add: acquire_fence_def acquire_fence_read_def acquire_fence_claim_def mem_env_def
        mem_get_def mem_put_def mem_version_def mem_store_def fence_claim_request_def)
  have r: "release_fence_if_owned mem_env ?a ?s = (Inr (), [])"
    by (simp add: release_fence_if_owned_def mem_env_def mem_get_def mem_put_def mem_version_def mem_drop_def
        delete_object_def delete_request_def mem.remote_id_eq as_bytes_def)
  have "fence_step mem_env mem_contents ''s'' ''a'' ?s (snd (snd ?w))"
    by (rule fence_write [of _ ?b _ _ _ "fst ?w" "fst (snd ?w)"]) simp
  then have "(fence_step mem_env mem_contents (vs_store_id ?a) (vs_instance_id ?a))\<^sup>*\<^sup>* ?s (snd (snd ?w))" by simp
  from fence_exclusive [OF mem.vss_service_axioms _ _ _ _ a(1) this, of ?b] a r
  show ?thesis by (simp add: as_bytes_def Let_def)
qed

text \<open>What the remote store returns is what was written to it. A read that succeeds after a
  successful write of the same canonical key returns the written bytes through encryption and
  decryption, after a successful removal no read succeeds, and neither changes what is stored at
  another canonical key.\<close>

theorem vss_read_after_write:
  assumes "vss_service env contents" "canonical k" "canonical k'" "k' \<noteq> k"
    and "vss_write env vs s k v = (Inr (), vs1, s1)" "vss_remove env vs s k = (Inr (), vs2, s2)"
  shows "(fst (vss_read env vs1 s1 k) = Inr u \<longrightarrow> u = v)
    \<and> fst (vss_read env vs1 s1 k) \<noteq> Inl (Io NotFound)
    \<and> fst (vss_read env vs2 s2 k) \<noteq> Inr u
    \<and> remote_kv_view env contents (vs1, s1) k' = remote_kv_view env contents (vs, s) k'
    \<and> remote_kv_view env contents (vs2, s2) k' = remote_kv_view env contents (vs, s) k'"
proof -
  have "fst (vss_write env vs s k v) = Inr ()" "fst (vss_remove env vs s k) = Inr ()"
    using assms(5,6) by simp_all
  then show ?thesis
    using vss_service.vss_kv_read_after_write [OF assms(1,2), of vs s v u]
      vss_service.vss_kv_not_absent [OF assms(1,2), of vs s v]
      vss_service.vss_kv_read_after_remove [OF assms(1,2), of vs s u]
      vss_service.vss_kv_write_other [OF assms(1-4), of vs s v]
      vss_service.vss_kv_remove_other [OF assms(1-4), of vs s]
    by (simp add: assms(5,6))
qed

theorem vss_read_after_write_witness:
  "let vs = \<lparr>vs_store_id = ''s'', vs_signing_key = [], vs_instance_id = ''a'', vs_write_counter = 0\<rparr>;
       vs' = vs\<lparr>vs_write_counter := 1\<rparr>; k = (''p'', [], ''k'');
       s = [((''s'', ''p/_/k''), 0, 1 # replicate 51 0 @ [7])]
   in vss_write mem_env vs [] k [7] = (Inr (), vs', s)
      \<and> vss_remove mem_env vs [] k = (Inr (), vs', [])
      \<and> fst (vss_read mem_env vs' [] k) \<noteq> Inr [7]
      \<and> fst (vss_read mem_env vs' s k) = Inr [7]"
proof -
  let ?vs = "\<lparr>vs_store_id = ''s'', vs_signing_key = [], vs_instance_id = ''a'', vs_write_counter = 0\<rparr>"
  let ?vs' = "?vs\<lparr>vs_write_counter := 1\<rparr>" and ?k = "(''p'', [], ''k'')"
  let ?s = "[((''s'', ''p/_/k''), 0, 1 # replicate 51 0 @ [7])]"
  note evals = vss_write_def vss_remove_def vss_read_def check_fence_periodic_def encrypt_value_def
    decrypt_value_def mem_env_def mem_get_def mem_put_def mem_version_def mem_store_def
    put_request_def remove_raw_def vss_ns_def SALT_LEN_def NONCE_LEN_def HEADER_LEN_def
    VSS_KV_FORMAT_VERSION_def Let_def
  have w: "vss_write mem_env ?vs [] ?k [7] = (Inr (), ?vs', ?s)"
    by (simp add: evals replicate_append_same [symmetric] eval_nat_numeral)
  have m: "vss_remove mem_env ?vs [] ?k = (Inr (), ?vs', [])"
    by (simp add: evals)
  have r: "fst (vss_read mem_env ?vs' ?s ?k) = Inr [7]"
    by (simp add: evals)
  show ?thesis
    using vss_read_after_write [OF mem.vss_service_axioms _ _ _ w m,
        of "(''q'', [], ''k'')" "[7]"] w m r
    by (simp add: Let_def)
qed

end
