(* ===== verification/Kv_Routes.thy ===== *)
theory Kv_Routes
  imports Kv_Base
begin

text \<open>
  Which record goes where: the mainnet mutation boundary of \<open>src/mainnet_state.rs\<close> and the routes
  of the background processor in \<open>src/async_kv_store.rs\<close>. The names of LDK's own records and of
  the RGB namespaces are constants of other crates: they are the fields of \<open>kv_names\<close>.
\<close>

record kv_names =
  nm_channel_manager :: kv_key
  nm_output_sweeper :: kv_key
  nm_network_graph :: kv_key
  nm_scorer :: kv_key
  nm_rgb_primary :: string
  nm_rgb_wallet_config :: string

definition COMMON_CONFIG_KEYS :: "string list" where
  "COMMON_CONFIG_KEYS =
     [''indexer_url'', ''bitcoin_network'', ''wallet_fingerprint'', ''wallet_account_xpub_vanilla'',
      ''wallet_account_xpub_colored'', ''wallet_master_fingerprint'']"

fun is_common_config :: "kv_names \<Rightarrow> kv_key \<Rightarrow> bool" where
  "is_common_config nm (primary, secondary, key) =
     (primary = nm_rgb_primary nm \<and> secondary = nm_rgb_wallet_config nm
      \<and> key \<in> set COMMON_CONFIG_KEYS)"

definition is_common_remote_key :: "kv_names \<Rightarrow> string \<Rightarrow> bool" where
  "is_common_remote_key nm key =
     list_ex (\<lambda>name. key = nm_rgb_primary nm @ ''/'' @ nm_rgb_wallet_config nm @ ''/'' @ name)
       COMMON_CONFIG_KEYS"

datatype bp_route_kind = RemoteFirst | LocalOnly | Rest

definition bp_route :: "kv_names \<Rightarrow> kv_key \<Rightarrow> bp_route_kind" where
  "bp_route nm k =
     (if k = nm_channel_manager nm \<or> k = nm_output_sweeper nm then RemoteFirst
      else if k = nm_network_graph nm \<or> k = nm_scorer nm then LocalOnly
      else Rest)"

end
