(* ===== verification/Synced_Kv.thy ===== *)
theory Synced_Kv
  imports Local_Kv Vss_Service Kv_Routes
begin

text \<open>
  The replicating store, \<open>src/synced_kv_store.rs\<close>: every mutation is committed locally together
  with a durable replication intent, then sent to VSS, and its intent is cleared once VSS has
  confirmed it; what could not be sent stays queued and is drained later.

  \<open>drain_gate\<close> is held for the whole of a mutation and of a drain, so these are atomic with
  respect to each other and to \<open>stop\<close>. A panic under the gate poisons it, which is a flag of the
  state. The HashMap of pending entries is iterated in an order the code does not control: the
  function \<open>sc_iter\<close>. A process that dies loses everything but \<open>sy_local\<close> and \<open>sy_server\<close>.
\<close>

section \<open>State\<close>

record 's synced_ctx =
  sc_names :: kv_names
  sc_env :: "'s vss_env"
  sc_iter :: "(string \<times> bytes option) list \<Rightarrow> (string \<times> bytes option) list"

record 's synced_kv =
  sy_local :: local_kv
  sy_common_config_only :: bool
  sy_remote :: "vss_kv_store option"
  sy_server :: 's
  sy_pending :: "(string \<times> bytes option) list"
  sy_pending_capacity :: nat
  sy_stopped :: bool
  sy_gate_poisoned :: bool

definition PENDING_QUEUE_CAP :: nat where
  "PENDING_QUEUE_CAP = 1000"

definition PENDING_DRAIN_BATCH :: nat where
  "PENDING_DRAIN_BATCH = 16"

definition RGB_SENDER_FUNDING_NAMESPACE :: string where
  "RGB_SENDER_FUNDING_NAMESPACE = ''rgb_sender_funding''"

definition RGB_PRIMARY_NAMESPACE :: string where
  "RGB_PRIMARY_NAMESPACE = ''rgb''"

definition RGB_FUNDING_ACCEPTANCE_NAMESPACE :: string where
  "RGB_FUNDING_ACCEPTANCE_NAMESPACE = ''funding_acceptance''"

definition PENDING_NS :: string where
  "PENDING_NS = ''vss_pending''"

definition REIMPORT_MARKER_NAMESPACE :: string where
  "REIMPORT_MARKER_NAMESPACE = ''reimport_marker''"

definition REIMPORT_MARKER_KEY :: string where
  "REIMPORT_MARKER_KEY = ''fascia_replay''"

abbreviation pending_key :: "string \<Rightarrow> kv_key" where
  "pending_key x \<equiv> (PENDING_NS, [], x)"


section \<open>Construction\<close>

definition local_only :: "'s \<Rightarrow> local_kv \<Rightarrow> 's synced_kv" where
  "local_only s db =
     \<lparr>sy_local = db, sy_common_config_only = False, sy_remote = None, sy_server = s,
      sy_pending = [], sy_pending_capacity = PENDING_QUEUE_CAP, sy_stopped = False,
      sy_gate_poisoned = False\<rparr>"

definition local_common_config_only :: "'s \<Rightarrow> local_kv \<Rightarrow> 's synced_kv" where
  "local_common_config_only s db = (local_only s db)\<lparr>sy_common_config_only := True\<rparr>"

fun is_common_config_intent :: "bytes \<Rightarrow> bool" where
  "is_common_config_intent [] = False"
| "is_common_config_intent (b # payload) =
     (if b = 0 then payload = [] else if b = 1 then utf8_valid payload else False)"

fun reload_pending ::
  "kv_names \<Rightarrow> bool \<Rightarrow> local_kv \<Rightarrow> (string \<times> bytes option) list \<Rightarrow> string list
     \<Rightarrow> local_kv \<times> (string \<times> bytes option) list" where
  "reload_pending nm cco db pending [] = (db, pending)"
| "reload_pending nm cco db pending (key # keys) =
     (if cco \<and> \<not> is_common_remote_key nm key then reload_pending nm cco db pending keys
      else case local_read db (pending_key key) of
        (Inl e, db) \<Rightarrow> reload_pending nm cco db pending keys
      | (Inr row, db) \<Rightarrow>
          (if cco \<and> \<not> is_common_config_intent row then reload_pending nm cco db pending keys
           else case row of
             [] \<Rightarrow> reload_pending nm cco (snd (local_remove db (pending_key key))) pending keys
           | b # buf \<Rightarrow>
               if b = 1 then reload_pending nm cco db (AList.update key (Some buf) pending) keys
               else if b = 0 then reload_pending nm cco db (AList.update key None pending) keys
               else reload_pending nm cco (snd (local_remove db (pending_key key))) pending keys))"

definition with_vss_capacity_inner ::
  "kv_names \<Rightarrow> local_kv \<Rightarrow> vss_kv_store \<Rightarrow> 's \<Rightarrow> nat \<Rightarrow> bool \<Rightarrow> failure + 's synced_kv" where
  "with_vss_capacity_inner nm db vs s capacity cco =
     (if capacity = 0 then Inl Panic
      else
        let (db, pending) =
          (case local_list db PENDING_NS [] of
             (Inl e, db) \<Rightarrow> (db, [])
           | (Inr keys, db) \<Rightarrow> reload_pending nm cco db [] keys)
        in Inr \<lparr>sy_local = db, sy_common_config_only = cco, sy_remote = Some vs, sy_server = s,
                sy_pending = pending, sy_pending_capacity = capacity, sy_stopped = False,
                sy_gate_poisoned = False\<rparr>)"

definition with_vss ::
  "kv_names \<Rightarrow> local_kv \<Rightarrow> vss_kv_store \<Rightarrow> 's \<Rightarrow> failure + 's synced_kv" where
  "with_vss nm db vs s = with_vss_capacity_inner nm db vs s PENDING_QUEUE_CAP False"

definition with_vss_common_config_only ::
  "kv_names \<Rightarrow> local_kv \<Rightarrow> vss_kv_store \<Rightarrow> 's \<Rightarrow> failure + 's synced_kv" where
  "with_vss_common_config_only nm db vs s = with_vss_capacity_inner nm db vs s PENDING_QUEUE_CAP True"


section \<open>Guards and the pending queue\<close>

definition check_mutation :: "kv_names \<Rightarrow> 's synced_kv \<Rightarrow> kv_key \<Rightarrow> failure + unit" where
  "check_mutation nm st k =
     (if sy_common_config_only st \<and> \<not> is_common_config nm k then Inl (Io PermissionDenied)
      else Inr ())"

definition check_bulk_sync :: "'s synced_kv \<Rightarrow> failure + unit" where
  "check_bulk_sync st = (if sy_common_config_only st then Inl (Io PermissionDenied) else Inr ())"

definition stop :: "'s synced_kv \<Rightarrow> 's synced_kv" where
  "stop st = st\<lparr>sy_stopped := True\<rparr>"

definition encode_pending_row :: "bytes option \<Rightarrow> bytes" where
  "encode_pending_row value = (case value of Some buf \<Rightarrow> 1 # buf | None \<Rightarrow> [0])"

definition reserve_pending ::
  "'s synced_kv \<Rightarrow> string \<Rightarrow> bytes option \<Rightarrow> (failure + bytes option option) \<times> 's synced_kv" where
  "reserve_pending st x value =
     (if sy_pending_capacity st \<le> length (sy_pending st) \<and> map_of (sy_pending st) x = None
      then (Inl (Io WouldBlock), st)
      else (Inr (map_of (sy_pending st) x),
            st\<lparr>sy_pending := AList.update x value (sy_pending st)\<rparr>))"

definition restore_pending_reservation ::
  "'s synced_kv \<Rightarrow> string \<Rightarrow> bytes option option \<Rightarrow> 's synced_kv" where
  "restore_pending_reservation st x previous =
     (case previous of
        Some value \<Rightarrow> st\<lparr>sy_pending := AList.update x value (sy_pending st)\<rparr>
      | None \<Rightarrow> st\<lparr>sy_pending := AList.delete x (sy_pending st)\<rparr>)"

definition clear_pending_row :: "'s synced_kv \<Rightarrow> string \<Rightarrow> (failure + unit) \<times> 's synced_kv" where
  "clear_pending_row st x =
     (case local_remove (sy_local st) (pending_key x) of
        (Inl e, db) \<Rightarrow> (Inl e, st\<lparr>sy_local := db\<rparr>)
      | (Inr _, db) \<Rightarrow>
          (Inr (), st\<lparr>sy_local := db, sy_pending := AList.delete x (sy_pending st)\<rparr>))"

fun requires_remote_durability :: "kv_key \<Rightarrow> bool" where
  "requires_remote_durability (primary, secondary, key) =
     ((primary = RGB_SENDER_FUNDING_NAMESPACE \<and> secondary = [])
      \<or> (primary = RGB_PRIMARY_NAMESPACE \<and> secondary = RGB_FUNDING_ACCEPTANCE_NAMESPACE))"

definition pending_remote_writes :: "'s synced_kv \<Rightarrow> nat" where
  "pending_remote_writes st = length (sy_pending st)"


section \<open>Replication\<close>

definition remote_apply ::
  "'s synced_ctx \<Rightarrow> vss_kv_store \<Rightarrow> 's synced_kv \<Rightarrow> kv_key \<Rightarrow> bytes option
     \<Rightarrow> (failure + unit) \<times> 's synced_kv" where
  "remote_apply c vs st k value =
     (case (case value of
              Some buf \<Rightarrow> vss_write (sc_env c) vs (sy_server st) k buf
            | None \<Rightarrow> vss_remove (sc_env c) vs (sy_server st) k) of
        (r, vs, s) \<Rightarrow> (r, st\<lparr>sy_remote := Some vs, sy_server := s\<rparr>))"

fun drain_loop ::
  "'s synced_ctx \<Rightarrow> vss_kv_store \<Rightarrow> 's synced_kv \<Rightarrow> (string \<times> bytes option) list
     \<Rightarrow> (failure + unit) \<times> 's synced_kv" where
  "drain_loop c vs st [] = (Inr (), st)"
| "drain_loop c vs st ((x, value) # snapshot) =
     (if map_of (sy_pending st) x \<noteq> Some value then drain_loop c vs st snapshot
      else case parse_vss_key x of
        None \<Rightarrow> drain_loop c vs (snd (clear_pending_row st x)) snapshot
      | Some k \<Rightarrow>
          (case remote_apply c vs st k value of
             (Inl e, st) \<Rightarrow>
               (if e = Panic then (Inl Panic, st\<lparr>sy_gate_poisoned := True\<rparr>) else (Inr (), st))
           | (Inr _, st) \<Rightarrow>
               (case clear_pending_row st x of
                  (Inl e, st) \<Rightarrow> (Inr (), st)
                | (Inr _, st) \<Rightarrow>
                    drain_loop c (case sy_remote st of Some vs \<Rightarrow> vs | None \<Rightarrow> vs) st snapshot)))"

text \<open>The part of \<open>drain_pending\<close> under the gate; a drain may have waited for the gate since it
  looked at \<open>stopped\<close> for the first time.\<close>

definition drain_locked ::
  "'s synced_ctx \<Rightarrow> vss_kv_store \<Rightarrow> 's synced_kv \<Rightarrow> (failure + unit) \<times> 's synced_kv" where
  "drain_locked c vs st =
     (if sy_gate_poisoned st then (Inl Panic, st)
      else if sy_stopped st then (Inr (), st)
      else drain_loop c vs st (take PENDING_DRAIN_BATCH (sc_iter c (sy_pending st))))"

definition drain_pending :: "'s synced_ctx \<Rightarrow> 's synced_kv \<Rightarrow> (failure + unit) \<times> 's synced_kv" where
  "drain_pending c st =
     (case sy_remote st of
        None \<Rightarrow> (Inr (), st)
      | Some vs \<Rightarrow> if sy_stopped st then (Inr (), st) else drain_locked c vs st)"

text \<open>\<open>deadline n\<close> tells whether the deadline has passed at the \<open>n\<close>th pass of the loop.\<close>

function flush_pending_until ::
  "'s synced_ctx \<Rightarrow> (nat \<Rightarrow> bool) \<Rightarrow> nat \<Rightarrow> 's synced_kv \<Rightarrow> (failure + nat) \<times> 's synced_kv" where
  "flush_pending_until c deadline n st =
     (let before = pending_remote_writes st
      in if before = 0 \<or> deadline n then (Inr before, st)
         else case drain_pending c st of
           (Inl e, st') \<Rightarrow> (Inl e, st')
         | (Inr _, st') \<Rightarrow>
             (if before \<le> pending_remote_writes st' then (Inr (pending_remote_writes st'), st')
              else flush_pending_until c deadline (Suc n) st'))"
  by pat_completeness auto
termination
  by (relation "measure (\<lambda>(c, deadline, n, st). length (sy_pending st))")
    (auto simp: pending_remote_writes_def)

declare flush_pending_until.simps [simp del]


section \<open>Mutations\<close>

definition commit_with_intent ::
  "'s synced_kv \<Rightarrow> kv_key \<Rightarrow> bytes option \<Rightarrow> (failure + unit) \<times> 's synced_kv" where
  "commit_with_intent st k value =
     (let x = vss_key k
      in case reserve_pending st x value of
           (Inl e, st) \<Rightarrow> (Inl e, st)
         | (Inr previous, st) \<Rightarrow>
             (let row = encode_pending_row value
              in case (case value of
                         Some buf \<Rightarrow>
                           write_with_replication_intent (sy_local st) k buf (pending_key x) row
                       | None \<Rightarrow> remove_with_replication_intent (sy_local st) k (pending_key x) row) of
                   (Inl e, db) \<Rightarrow>
                     (Inl e, restore_pending_reservation (st\<lparr>sy_local := db\<rparr>) x previous)
                 | (Inr _, db) \<Rightarrow> (Inr (), st\<lparr>sy_local := db\<rparr>)))"

definition replicate_mutation ::
  "'s synced_ctx \<Rightarrow> vss_kv_store \<Rightarrow> 's synced_kv \<Rightarrow> kv_key \<Rightarrow> bytes option
     \<Rightarrow> (failure + bool \<times> failure option) \<times> 's synced_kv" where
  "replicate_mutation c vs st k value =
     (case remote_apply c vs st k value of
        (Inr _, st) \<Rightarrow>
          (case clear_pending_row st (vss_key k) of
             (Inl e, st) \<Rightarrow> (Inr (False, None), st)
           | (Inr _, st) \<Rightarrow> (Inr (True, None), st))
      | (Inl e, st) \<Rightarrow>
          (if e = Panic then (Inl Panic, st\<lparr>sy_gate_poisoned := True\<rparr>)
           else (Inr (False, Some e), st)))"

definition synced_mutation ::
  "'s synced_ctx \<Rightarrow> vss_kv_store \<Rightarrow> 's synced_kv \<Rightarrow> kv_key \<Rightarrow> bytes option
     \<Rightarrow> (failure + unit) \<times> 's synced_kv" where
  "synced_mutation c vs st k value =
     (if sy_gate_poisoned st then (Inl Panic, st)
      else if sy_stopped st then (Inl (Io BrokenPipe), st)
      else case commit_with_intent st k value of
        (Inl e, st) \<Rightarrow> (Inl e, st)
      | (Inr _, st) \<Rightarrow>
          (case replicate_mutation c vs st k value of
             (Inl e, st) \<Rightarrow> (Inl e, st)
           | (Inr (replicated, remote_error), st) \<Rightarrow>
               (case (if replicated then drain_pending c st else (Inr (), st)) of
                  (Inl e, st) \<Rightarrow> (Inl e, st)
                | (Inr _, st) \<Rightarrow>
                    (if requires_remote_durability k
                     then case remote_error of Some e \<Rightarrow> (Inl e, st) | None \<Rightarrow> (Inr (), st)
                     else (Inr (), st)))))"

definition write_with_durability ::
  "'s synced_ctx \<Rightarrow> 's synced_kv \<Rightarrow> kv_key \<Rightarrow> bytes \<Rightarrow> (failure + unit) \<times> 's synced_kv" where
  "write_with_durability c st k buf =
     (case check_mutation (sc_names c) st k of
        Inl e \<Rightarrow> (Inl e, st)
      | Inr _ \<Rightarrow>
          (case sy_remote st of
             Some vs \<Rightarrow> synced_mutation c vs st k (Some buf)
           | None \<Rightarrow>
               (case local_write (sy_local st) k buf of (r, db) \<Rightarrow> (r, st\<lparr>sy_local := db\<rparr>))))"

definition synced_remove ::
  "'s synced_ctx \<Rightarrow> 's synced_kv \<Rightarrow> kv_key \<Rightarrow> (failure + unit) \<times> 's synced_kv" where
  "synced_remove c st k =
     (case check_mutation (sc_names c) st k of
        Inl e \<Rightarrow> (Inl e, st)
      | Inr _ \<Rightarrow>
          (case sy_remote st of
             Some vs \<Rightarrow> synced_mutation c vs st k None
           | None \<Rightarrow>
               (case local_remove (sy_local st) k of (r, db) \<Rightarrow> (r, st\<lparr>sy_local := db\<rparr>))))"

definition synced_read :: "'s synced_kv \<Rightarrow> kv_key \<Rightarrow> (failure + bytes) \<times> 's synced_kv" where
  "synced_read st k = (case local_read (sy_local st) k of (r, db) \<Rightarrow> (r, st\<lparr>sy_local := db\<rparr>))"

definition synced_list ::
  "'s synced_kv \<Rightarrow> string \<Rightarrow> string \<Rightarrow> (failure + string list) \<times> 's synced_kv" where
  "synced_list st primary secondary =
     (case local_list (sy_local st) primary secondary of (r, db) \<Rightarrow> (r, st\<lparr>sy_local := db\<rparr>))"

definition write_local_only ::
  "kv_names \<Rightarrow> 's synced_kv \<Rightarrow> kv_key \<Rightarrow> bytes \<Rightarrow> (failure + unit) \<times> 's synced_kv" where
  "write_local_only nm st k buf =
     (case check_mutation nm st k of
        Inl e \<Rightarrow> (Inl e, st)
      | Inr _ \<Rightarrow> (case local_write (sy_local st) k buf of (r, db) \<Rightarrow> (r, st\<lparr>sy_local := db\<rparr>)))"

definition remove_local_only ::
  "kv_names \<Rightarrow> 's synced_kv \<Rightarrow> kv_key \<Rightarrow> (failure + unit) \<times> 's synced_kv" where
  "remove_local_only nm st k =
     (case check_mutation nm st k of
        Inl e \<Rightarrow> (Inl e, st)
      | Inr _ \<Rightarrow> (case local_remove (sy_local st) k of (r, db) \<Rightarrow> (r, st\<lparr>sy_local := db\<rparr>)))"

definition release_vss_fence_if_owned ::
  "'s synced_ctx \<Rightarrow> 's synced_kv \<Rightarrow> (failure + unit) \<times> 's synced_kv" where
  "release_vss_fence_if_owned c st =
     (case sy_remote st of
        None \<Rightarrow> (Inr (), st)
      | Some vs \<Rightarrow>
          (case release_fence_if_owned (sc_env c) vs (sy_server st) of
             (r, s) \<Rightarrow> (r, st\<lparr>sy_server := s\<rparr>)))"


section \<open>Bulk restore and refill\<close>

fun restore_items ::
  "local_kv \<Rightarrow> nat \<Rightarrow> (string \<times> bytes) list \<Rightarrow> nat \<times> local_kv" where
  "restore_items db restored [] = (restored, db)"
| "restore_items db restored ((x, value) # items) =
     (case parse_vss_key x of
        None \<Rightarrow> restore_items db restored items
      | Some k \<Rightarrow>
          (case local_write db k value of
             (Inl e, db) \<Rightarrow> restore_items db restored items
           | (Inr _, db) \<Rightarrow> restore_items db (restored + 1) items))"

definition restore_download ::
  "'s synced_ctx \<Rightarrow> vss_kv_store \<Rightarrow> 's synced_kv \<Rightarrow> ((failure + nat) \<times> 's synced_kv) option" where
  "restore_download c vs st =
     (case download_all (sc_env c) vs (sy_server st) of
        None \<Rightarrow> None
      | Some (Inl e, s) \<Rightarrow> Some (Inl e, st\<lparr>sy_server := s\<rparr>)
      | Some (Inr items, s) \<Rightarrow>
          (case restore_items (sy_local st) 0 items of
             (restored, db) \<Rightarrow> Some (Inr restored, st\<lparr>sy_local := db, sy_server := s\<rparr>)))"

definition restore_from_vss ::
  "'s synced_ctx \<Rightarrow> 's synced_kv \<Rightarrow> bool \<Rightarrow> ((failure + nat) \<times> 's synced_kv) option" where
  "restore_from_vss c st force =
     (case check_bulk_sync st of
        Inl e \<Rightarrow> Some (Inl e, st)
      | Inr _ \<Rightarrow>
          (case sy_remote st of
             None \<Rightarrow> Some (Inr 0, st)
           | Some vs \<Rightarrow>
               if force then restore_download c vs st
               else case local_read (sy_local st) (nm_channel_manager (sc_names c)) of
                 (Inr _, db) \<Rightarrow> Some (Inr 0, st\<lparr>sy_local := db\<rparr>)
               | (Inl _, db) \<Rightarrow> restore_download c vs (st\<lparr>sy_local := db\<rparr>)))"

definition is_local_only :: "kv_names \<Rightarrow> kv_key \<Rightarrow> bool" where
  "is_local_only nm k =
     (fst k = PENDING_NS
      \<or> (fst k = REIMPORT_MARKER_NAMESPACE \<and> snd (snd k) = REIMPORT_MARKER_KEY)
      \<or> bp_route nm k = LocalOnly)"

fun push_rows ::
  "'s synced_ctx \<Rightarrow> vss_kv_store \<Rightarrow> 's synced_kv \<Rightarrow> string list \<Rightarrow> nat \<Rightarrow> kv_rows
     \<Rightarrow> (failure + nat) \<times> 's synced_kv" where
  "push_rows c vs st remote_keys pushed [] = (Inr pushed, st)"
| "push_rows c vs st remote_keys pushed ((k, value) # rows) =
     (if is_local_only (sc_names c) k \<or> vss_key k \<in> set remote_keys
      then push_rows c vs st remote_keys pushed rows
      else case remote_apply c vs st k (Some value) of
        (Inl e, st) \<Rightarrow> (Inl e, st)
      | (Inr _, st) \<Rightarrow>
          push_rows c (case sy_remote st of Some vs \<Rightarrow> vs | None \<Rightarrow> vs) st remote_keys
            (pushed + 1) rows)"

definition push_missing_to_vss ::
  "'s synced_ctx \<Rightarrow> 's synced_kv \<Rightarrow> ((failure + nat) \<times> 's synced_kv) option" where
  "push_missing_to_vss c st =
     (case check_bulk_sync st of
        Inl e \<Rightarrow> Some (Inl e, st)
      | Inr _ \<Rightarrow>
          (case sy_remote st of
             None \<Rightarrow> Some (Inr 0, st)
           | Some vs \<Rightarrow>
               (case list_all_keys (sc_env c) vs (sy_server st) of
                  None \<Rightarrow> None
                | Some (Inl e, s) \<Rightarrow> Some (Inl e, st\<lparr>sy_server := s\<rparr>)
                | Some (Inr remote_keys, s) \<Rightarrow>
                    (case local_list_all (sy_local st) of
                       (Inl e, db) \<Rightarrow> Some (Inl e, st\<lparr>sy_local := db, sy_server := s\<rparr>)
                     | (Inr rows, db) \<Rightarrow>
                         Some (push_rows c vs (st\<lparr>sy_local := db, sy_server := s\<rparr>)
                           remote_keys 0 rows)))))"

end
