(* ===== verification/Synced_Inv.thy ===== *)
theory Synced_Inv
  imports Synced_Kv
begin

text \<open>
  The replication invariant of \<open>SyncedKvStore\<close> and that every operation, every failure and every
  crash keeps it. For each tracked key either a durable intent records its local value, or the
  remote store holds its local value. The abstract meaning of a pending row is the inverse of
  \<^const>\<open>encode_pending_row\<close>.
\<close>

declare vss_key.simps [simp del] canonical.simps [simp del]


section \<open>The invariant\<close>

definition decode_pending_row :: "bytes \<Rightarrow> bytes option option" where
  "decode_pending_row row =
     (case row of
        [] \<Rightarrow> None
      | b # buf \<Rightarrow> if b = 1 then Some (Some buf) else if b = 0 then Some None else None)"

lemma decode_encode [simp]: "decode_pending_row (encode_pending_row v) = Some v"
  by (cases v) (simp_all add: decode_pending_row_def encode_pending_row_def)

definition local_value :: "'s synced_kv \<Rightarrow> kv_key \<Rightarrow> bytes option" where
  "local_value st k = map_of (lk_rows (sy_local st)) k"

definition pending_row :: "'s synced_kv \<Rightarrow> string \<Rightarrow> bytes option" where
  "pending_row st x = map_of (lk_rows (sy_local st)) (pending_key x)"

definition remote_value ::
  "'s synced_ctx \<Rightarrow> ('s \<Rightarrow> vss_contents) \<Rightarrow> 's synced_kv \<Rightarrow> kv_key \<Rightarrow> (failure + bytes) option" where
  "remote_value c contents st k =
     (case sy_remote st of
        None \<Rightarrow> None
      | Some vs \<Rightarrow> remote_view (sc_env c) contents vs (sy_server st) (vss_key k))"

definition replicated ::
  "'s synced_ctx \<Rightarrow> ('s \<Rightarrow> vss_contents) \<Rightarrow> 's synced_kv \<Rightarrow> kv_key \<Rightarrow> bool" where
  "replicated c contents st k \<longleftrightarrow>
     remote_value c contents st k = map_option Inr (local_value st k)"

definition tracked ::
  "'s synced_ctx \<Rightarrow> ('s \<Rightarrow> vss_contents) \<Rightarrow> 's synced_kv \<Rightarrow> kv_key \<Rightarrow> bool" where
  "tracked c contents st k \<longleftrightarrow>
     (case pending_row st (vss_key k) of
        None \<Rightarrow> replicated c contents st k
      | Some row \<Rightarrow> decode_pending_row row = Some (local_value st k))"

abbreviation client_key :: "kv_key \<Rightarrow> bool" where
  "client_key k \<equiv> canonical k \<and> fst k \<noteq> PENDING_NS"

definition sync_inv ::
  "'s synced_ctx \<Rightarrow> ('s \<Rightarrow> vss_contents) \<Rightarrow> kv_key set \<Rightarrow> 's synced_kv \<Rightarrow> bool" where
  "sync_inv c contents T st \<longleftrightarrow>
     distinct (map fst (sy_pending st))
     \<and> (\<forall>x v. map_of (sy_pending st) x = Some v \<longrightarrow>
          Option.bind (pending_row st x) decode_pending_row = Some v)
     \<and> (\<forall>x. pending_row st x \<noteq> None \<longrightarrow> (\<exists>k. canonical k \<and> x = vss_key k))
     \<and> (\<forall>k \<in> T. client_key k \<and> tracked c contents st k)"

lemma sync_invD:
  assumes "sync_inv c contents T st"
  shows "distinct (map fst (sy_pending st))"
    and "map_of (sy_pending st) x = Some v \<Longrightarrow>
      Option.bind (pending_row st x) decode_pending_row = Some v"
    and "pending_row st x \<noteq> None \<Longrightarrow> \<exists>k. canonical k \<and> x = vss_key k"
    and "k \<in> T \<Longrightarrow> canonical k" "k \<in> T \<Longrightarrow> fst k \<noteq> PENDING_NS"
    and "k \<in> T \<Longrightarrow> tracked c contents st k"
  using assms by (auto simp: sync_inv_def)

lemma pending_canonical:
  assumes "sync_inv c contents T st" "map_of (sy_pending st) x = Some v"
  obtains k where "canonical k" "x = vss_key k" "parse_vss_key x = Some k"
proof -
  have "pending_row st x \<noteq> None"
    using sync_invD(2) [OF assms] by (auto simp: bind_eq_Some_conv)
  from sync_invD(3) [OF assms(1) this] show ?thesis
    using that parse_vss_key_vss_key by blast
qed

text \<open>The parts of the state the invariant reads.\<close>

lemma sync_inv_cong:
  assumes "sync_inv c contents T st" "lk_rows (sy_local st') = lk_rows (sy_local st)"
    and "sy_pending st' = sy_pending st" "sy_remote st' = sy_remote st"
    and "contents (sy_server st') = contents (sy_server st)"
  shows "sync_inv c contents T st'"
proof -
  have eqs: "pending_row st' = pending_row st" "local_value st' = local_value st"
    using assms(2) by (simp_all add: pending_row_def local_value_def fun_eq_iff)
  have "remote_value c contents st' = remote_value c contents st"
    using assms(4,5) by (simp add: remote_value_def remote_view_def fun_eq_iff split: option.split)
  then have "tracked c contents st' = tracked c contents st"
    by (intro ext) (simp add: tracked_def replicated_def eqs split: option.split)
  then show ?thesis
    using assms(1) unfolding sync_inv_def assms(3) eqs by simp
qed


section \<open>Local stages\<close>

lemma clear_pending_row_cases:
  assumes "clear_pending_row st x = (r, st')"
  obtains (fails) "r \<noteq> Inr ()" "lk_rows (sy_local st') = lk_rows (sy_local st)"
      "sy_pending st' = sy_pending st" "sy_remote st' = sy_remote st" "sy_server st' = sy_server st"
  | (clears) "r = Inr ()" "map_of (lk_rows (sy_local st')) = (map_of (lk_rows (sy_local st)))(pending_key x := None)"
      "sy_pending st' = AList.delete x (sy_pending st)" "sy_remote st' = sy_remote st"
      "sy_server st' = sy_server st"
  using assms local_remove_outcome [of "sy_local st" "pending_key x"]
  by (auto simp: clear_pending_row_def split: prod.splits sum.splits)

lemma clear_pending_row_frame:
  assumes "clear_pending_row st x = (r, st')"
  shows "fst k \<noteq> PENDING_NS \<Longrightarrow> local_value st' k = local_value st k"
    and "remote_value c contents st' k = remote_value c contents st k"
    and "pending_row st y = None \<Longrightarrow> pending_row st' y = None"
    and "r = Inr () \<Longrightarrow> pending_row st' x = None"
    and "sy_remote st' = sy_remote st" "sy_server st' = sy_server st"
    and "sy_stopped st' = sy_stopped st" "sy_gate_poisoned st' = sy_gate_poisoned st"
proof -
  show "fst k \<noteq> PENDING_NS \<Longrightarrow> local_value st' k = local_value st k"
    using assms by (cases rule: clear_pending_row_cases) (auto simp: local_value_def)
  show "pending_row st y = None \<Longrightarrow> pending_row st' y = None"
    "r = Inr () \<Longrightarrow> pending_row st' x = None"
    using assms by (cases rule: clear_pending_row_cases; simp add: pending_row_def)+
  show srv: "sy_remote st' = sy_remote st" "sy_server st' = sy_server st"
    using assms by (cases rule: clear_pending_row_cases; simp)+
  show "remote_value c contents st' k = remote_value c contents st k"
    using srv by (simp add: remote_value_def split: option.split)
  show "sy_stopped st' = sy_stopped st" "sy_gate_poisoned st' = sy_gate_poisoned st"
    using assms by (auto simp: clear_pending_row_def split: prod.splits sum.splits)
qed

lemma sync_inv_clear:
  assumes inv: "sync_inv c contents T st" and cl: "clear_pending_row st x = (r, st')"
    and x: "\<And>k. k \<in> T \<Longrightarrow> vss_key k = x \<Longrightarrow> replicated c contents st k"
  shows "sync_inv c contents T st'"
  using cl
proof (cases rule: clear_pending_row_cases)
  case fails
  with inv show ?thesis by (intro sync_inv_cong [OF inv]) auto
next
  case clears
  have row: "pending_row st' y = (if y = x then None else pending_row st y)" for y
    by (simp add: pending_row_def clears)
  have repl: "replicated c contents st' k = replicated c contents st k" if "fst k \<noteq> PENDING_NS" for k
    using clear_pending_row_frame [OF cl] that by (simp add: replicated_def)
  show ?thesis
    unfolding sync_inv_def
  proof (intro conjI ballI allI impI)
    show "distinct (map fst (sy_pending st'))"
      using sync_invD(1) [OF inv] by (simp add: clears distinct_delete)
  next
    fix y v assume "map_of (sy_pending st') y = Some v"
    then have "y \<noteq> x" "map_of (sy_pending st) y = Some v"
      by (auto simp: clears delete_conv' split: if_splits)
    then show "Option.bind (pending_row st' y) decode_pending_row = Some v"
      using sync_invD(2) [OF inv] by (simp add: row)
  next
    fix y assume "pending_row st' y \<noteq> None"
    then show "\<exists>k. canonical k \<and> y = vss_key k"
      using sync_invD(3) [OF inv] by (auto simp: row split: if_splits)
  next
    fix k assume k: "k \<in> T"
    show "canonical k" "fst k \<noteq> PENDING_NS"
      using sync_invD(4,5) [OF inv k] by auto
    then show "tracked c contents st' k"
      using sync_invD(6) [OF inv k] x [OF k] repl clear_pending_row_frame(1) [OF cl]
      by (auto simp: tracked_def row split: option.splits)
  qed
qed

lemma commit_with_intent_cases:
  assumes "commit_with_intent st k value = (r, st')"
  obtains (fails) "r \<noteq> Inr ()" "lk_rows (sy_local st') = lk_rows (sy_local st)"
      "map_of (sy_pending st') = map_of (sy_pending st)"
      "distinct (map fst (sy_pending st)) \<Longrightarrow> distinct (map fst (sy_pending st'))"
      "sy_remote st' = sy_remote st" "sy_server st' = sy_server st"
  | (commits) "r = Inr ()"
      "map_of (lk_rows (sy_local st')) = (map_of (lk_rows (sy_local st)))
         (k := value, pending_key (vss_key k) \<mapsto> encode_pending_row value)"
      "sy_pending st' = AList.update (vss_key k) value (sy_pending st)"
      "sy_remote st' = sy_remote st" "sy_server st' = sy_server st"
proof -
  let ?x = "vss_key k"
  let ?stmts = "[case value of Some buf \<Rightarrow> Upsert k buf | None \<Rightarrow> DeleteMany k,
    Upsert (pending_key ?x) (encode_pending_row value)]"
  let ?db = "db_transaction ?stmts (sy_local st)"
  have tx: "(case value of
        Some buf \<Rightarrow> write_with_replication_intent (sy_local st) k buf (pending_key ?x) (encode_pending_row value)
      | None \<Rightarrow> remove_with_replication_intent (sy_local st) k (pending_key ?x) (encode_pending_row value))
      = ?db"
    by (simp add: intent_transactions split: option.splits)
  have rows: "map_of (fold exec_stmt ?stmts (lk_rows (sy_local st))) = (map_of (lk_rows (sy_local st)))
      (k := value, pending_key ?x \<mapsto> encode_pending_row value)"
    by (cases "value") (simp_all add: fun_upd_def fun_eq_iff)
  show ?thesis
  proof (cases "sy_pending_capacity st \<le> length (sy_pending st) \<and> map_of (sy_pending st) ?x = None")
    case True
    with assms show ?thesis
      by (intro fails) (auto simp: commit_with_intent_def reserve_pending_def Let_def)
  next
    case False
    then have eq: "commit_with_intent st k value = (case ?db of
        (Inl e, db) \<Rightarrow> (Inl e, restore_pending_reservation
           (st\<lparr>sy_pending := AList.update ?x value (sy_pending st), sy_local := db\<rparr>) ?x
           (map_of (sy_pending st) ?x))
      | (Inr _, db) \<Rightarrow> (Inr (), st\<lparr>sy_pending := AList.update ?x value (sy_pending st), sy_local := db\<rparr>))"
      unfolding commit_with_intent_def reserve_pending_def Let_def tx [symmetric]
      by (simp only: if_False prod.case sum.case) (simp cong: option.case_cong)
    consider (f) db' where "?db = (Inl (Io Other), db')" "lk_rows db' = lk_rows (sy_local st)"
      | (a) db' where "?db = (Inr (), db')" "lk_rows db' = fold exec_stmt ?stmts (lk_rows (sy_local st))"
      by (rule db_transaction_cases)
    then show ?thesis
    proof cases
      case f
      then show ?thesis
        using assms eq
        by (intro fails) (auto simp: restore_pending_reservation_def update_conv' delete_conv'
            distinct_update distinct_delete fun_eq_iff split: option.splits)
    next
      case a
      then show ?thesis
        using assms eq rows by (intro commits) auto
    qed
  qed
qed

lemma commit_with_intent_frame:
  assumes "commit_with_intent st k value = (r, st')"
  shows "sy_remote st' = sy_remote st" "sy_server st' = sy_server st"
    and "sy_stopped st' = sy_stopped st" "sy_gate_poisoned st' = sy_gate_poisoned st"
    and "r = Inr () \<Longrightarrow> fst k \<noteq> PENDING_NS \<Longrightarrow> local_value st' k = value"
    and "r = Inr () \<Longrightarrow> pending_row st' (vss_key k) = Some (encode_pending_row value)"
    and "r = Inr () \<Longrightarrow> map_of (sy_pending st') (vss_key k) = Some value"
proof -
  show "sy_stopped st' = sy_stopped st" "sy_gate_poisoned st' = sy_gate_poisoned st"
    using assms
    by (auto simp: commit_with_intent_def reserve_pending_def restore_pending_reservation_def Let_def
        split: prod.splits sum.splits if_splits option.splits)
  show "sy_remote st' = sy_remote st" "sy_server st' = sy_server st"
    using assms by (cases rule: commit_with_intent_cases; simp)+
  show "r = Inr () \<Longrightarrow> fst k \<noteq> PENDING_NS \<Longrightarrow> local_value st' k = value"
    using assms by (cases rule: commit_with_intent_cases; cases k; simp add: local_value_def)
  show "r = Inr () \<Longrightarrow> pending_row st' (vss_key k) = Some (encode_pending_row value)"
    "r = Inr () \<Longrightarrow> map_of (sy_pending st') (vss_key k) = Some value"
    using assms by (cases rule: commit_with_intent_cases; simp add: pending_row_def update_conv')+
qed

lemma sync_inv_commit:
  assumes inv: "sync_inv c contents T st" and cm: "commit_with_intent st k value = (r, st')"
    and k: "k \<in> T"
  shows "sync_inv c contents T st'"
  using cm
proof (cases rule: commit_with_intent_cases)
  case fails
  have "sync_inv c contents T (st\<lparr>sy_pending := sy_pending st'\<rparr>)"
    using inv fails(3,4)
    by (simp add: sync_inv_def tracked_def replicated_def remote_value_def pending_row_def
        local_value_def cong: option.case_cong)
  from sync_inv_cong [OF this] fails show ?thesis by simp
next
  case commits
  have ck: "canonical k" "fst k \<noteq> PENDING_NS"
    using sync_invD(4,5) [OF inv k] by auto
  have kp: "k \<noteq> pending_key y" for y
    using ck(2) by auto
  have row: "pending_row st' y =
      (if y = vss_key k then Some (encode_pending_row value) else pending_row st y)" for y
    using kp by (auto simp: pending_row_def commits)
  have val: "local_value st' j = (if j = k then value else local_value st j)"
    if "fst j \<noteq> PENDING_NS" for j
    using that kp by (cases j) (auto simp: local_value_def commits)
  have rem: "remote_value c contents st' j = remote_value c contents st j" for j
    by (simp add: remote_value_def commits cong: option.case_cong)
  show ?thesis
    unfolding sync_inv_def
  proof (intro conjI ballI allI impI)
    show "distinct (map fst (sy_pending st'))"
      using sync_invD(1) [OF inv] by (simp add: commits distinct_update)
  next
    fix y v assume "map_of (sy_pending st') y = Some v"
    then show "Option.bind (pending_row st' y) decode_pending_row = Some v"
      using sync_invD(2) [OF inv, of y v] by (auto simp: row commits update_conv' split: if_splits)
  next
    fix y assume y: "pending_row st' y \<noteq> None"
    show "\<exists>k. canonical k \<and> y = vss_key k"
    proof (cases "y = vss_key k")
      case False
      with y show ?thesis using sync_invD(3) [OF inv, of y] by (simp add: row)
    qed (use ck(1) in blast)
  next
    fix j assume j: "j \<in> T"
    note cj = sync_invD(4,5) [OF inv j]
    show "canonical j" "fst j \<noteq> PENDING_NS" by (fact cj)+
    have "vss_key j = vss_key k \<longleftrightarrow> j = k"
      using cj(1) ck(1) by (rule vss_key_inj)
    then show "tracked c contents st' j"
      using sync_invD(6) [OF inv j] cj
      by (auto simp: tracked_def row val replicated_def rem split: option.splits)
  qed
qed


section \<open>Remote stages\<close>

context vss_service
begin

lemma remote_apply_effect:
  assumes "sc_env c = env" "remote_apply c vs st k value = (r, st')"
  shows "\<exists>s'. st' = st\<lparr>sy_remote := Some (vs\<lparr>vs_write_counter := vs_write_counter vs + 1\<rparr>),
            sy_server := s'\<rparr>
    \<and> remote_effect vs (sy_server st) (vss_key k) value r s'"
proof (cases "value")
  case None
  obtain r' vs' s' where x: "vss_remove env vs (sy_server st) k = (r', vs', s')"
    by (metis prod_cases3)
  from vss_remove_effect [OF x] show ?thesis
    using assms by (auto simp: remote_apply_def None x)
next
  case (Some v)
  obtain r' vs' s' where x: "vss_write env vs (sy_server st) k v = (r', vs', s')"
    by (metis prod_cases3)
  from vss_write_effect [OF x] show ?thesis
    using assms by (auto simp: remote_apply_def Some x)
qed

lemma remote_apply_frame:
  assumes "sc_env c = env" "sy_remote st = Some vs" "remote_apply c vs st k value = (r, st')"
  shows "local_value st' = local_value st" "pending_row st' = pending_row st"
    and "sy_pending st' = sy_pending st" "sy_local st' = sy_local st"
    and "sy_remote st' = Some (vs\<lparr>vs_write_counter := vs_write_counter vs + 1\<rparr>)"
    and "sy_stopped st' = sy_stopped st" "sy_gate_poisoned st' = sy_gate_poisoned st"
    and "r = Inr () \<Longrightarrow> remote_value c contents st' k = map_option Inr value"
    and "canonical k \<Longrightarrow> canonical j \<Longrightarrow> j \<noteq> k \<Longrightarrow>
      remote_value c contents st' j = remote_value c contents st j"
proof -
  obtain s' where s': "st' = st\<lparr>sy_remote := Some (vs\<lparr>vs_write_counter := vs_write_counter vs + 1\<rparr>),
        sy_server := s'\<rparr>" "remote_effect vs (sy_server st) (vss_key k) value r s'"
    using remote_apply_effect [OF assms(1,3)] by blast
  show "local_value st' = local_value st" "pending_row st' = pending_row st"
    "sy_pending st' = sy_pending st" "sy_local st' = sy_local st"
    "sy_remote st' = Some (vs\<lparr>vs_write_counter := vs_write_counter vs + 1\<rparr>)"
    "sy_stopped st' = sy_stopped st" "sy_gate_poisoned st' = sy_gate_poisoned st"
    by (simp_all add: s' local_value_def pending_row_def fun_eq_iff)
  show "r = Inr () \<Longrightarrow> remote_value c contents st' k = map_option Inr value"
    using s'(2) assms(1) by (auto simp: s'(1) remote_value_def remote_effect_def)
  show "remote_value c contents st' j = remote_value c contents st j"
    if "canonical k" "canonical j" "j \<noteq> k"
    using s'(2) assms(1,2) vss_key_inj [OF that(2,1)] that(3)
    by (simp add: s'(1) remote_value_def remote_effect_def remote_view_def)
qed

lemma sync_inv_remote:
  assumes c: "sc_env c = env" "sy_remote st = Some vs" "remote_apply c vs st k value = (r, st')"
    and inv: "sync_inv c contents T st" and k: "canonical k" "pending_row st (vss_key k) \<noteq> None"
  shows "sync_inv c contents T st'"
proof -
  note fr = remote_apply_frame [OF c]
  have "tracked c contents st' j" if "j \<in> T" for j
  proof (cases "j = k")
    case True
    then show ?thesis
      using sync_invD(6) [OF inv that] k(2) by (auto simp: tracked_def fr(1,2) split: option.splits)
  next
    case False
    then have "remote_value c contents st' j = remote_value c contents st j"
      using sync_invD(4) [OF inv that] k(1) fr(9) by simp
    then show ?thesis
      using sync_invD(6) [OF inv that]
      by (simp add: tracked_def replicated_def fr(1,2) split: option.splits)
  qed
  then show ?thesis
    using inv by (simp add: sync_inv_def fr(2,3))
qed

text \<open>After a confirmed remote mutation that matches the intent, the key is replicated.\<close>

lemma replicated_after_remote:
  assumes c: "sc_env c = env" "sy_remote st = Some vs" "remote_apply c vs st k value = (Inr (), st')"
    and inv: "sync_inv c contents T st" and k: "canonical k"
    and row: "Option.bind (pending_row st (vss_key k)) decode_pending_row = Some value"
    and j: "j \<in> T" "vss_key j = vss_key k"
  shows "replicated c contents st' j"
proof -
  have jk: "j = k"
    using vss_key_inj [OF sync_invD(4) [OF inv j(1)] k] j(2) by simp
  have "local_value st k = value"
    using sync_invD(6) [OF inv j(1)] row by (auto simp: tracked_def jk bind_eq_Some_conv)
  then show ?thesis
    using remote_apply_frame [OF c] by (simp add: replicated_def jk)
qed

text \<open>One entry of a drain, and a whole drain.\<close>

definition drains :: "'s synced_ctx \<Rightarrow> kv_key set \<Rightarrow> 's synced_kv \<Rightarrow> 's synced_kv \<Rightarrow> bool" where
  "drains c T st st' \<longleftrightarrow>
     sync_inv c contents T st' \<and> sy_remote st' \<noteq> None \<and> sy_stopped st' = sy_stopped st
     \<and> (\<forall>k. fst k \<noteq> PENDING_NS \<longrightarrow> local_value st' k = local_value st k)
     \<and> (\<forall>x. pending_row st x = None \<longrightarrow> pending_row st' x = None)"

lemma drainsD:
  assumes "drains c T st st'"
  shows "sync_inv c contents T st'" "sy_remote st' \<noteq> None" "sy_stopped st' = sy_stopped st"
    and "fst k \<noteq> PENDING_NS \<Longrightarrow> local_value st' k = local_value st k"
    and "pending_row st x = None \<Longrightarrow> pending_row st' x = None"
  using assms unfolding drains_def by blast+

lemma drains_trans: "drains c T st st1 \<Longrightarrow> drains c T st1 st2 \<Longrightarrow> drains c T st st2"
  by (simp add: drains_def)

lemma drains_entry:
  assumes c: "sc_env c = env" "sy_remote st = Some vs" "sync_inv c contents T st"
    and p: "map_of (sy_pending st) (vss_key k) = Some value" "canonical k"
    and ra: "remote_apply c vs st k value = (r, st1)"
  shows "drains c T st st1"
    and "r = Inr () \<Longrightarrow> clear_pending_row st1 (vss_key k) = (q, st2) \<Longrightarrow> drains c T st st2"
proof -
  note fr = remote_apply_frame [OF c(1,2) ra]
  have row: "Option.bind (pending_row st (vss_key k)) decode_pending_row = Some value"
    using sync_invD(2) [OF c(3) p(1)] .
  then have "pending_row st (vss_key k) \<noteq> None"
    by (auto simp: bind_eq_Some_conv)
  from sync_inv_remote [OF c(1,2) ra c(3) p(2) this] have inv1: "sync_inv c contents T st1" .
  with fr show d1: "drains c T st st1"
    by (simp add: drains_def)
  assume r: "r = Inr ()" and cl: "clear_pending_row st1 (vss_key k) = (q, st2)"
  have "sync_inv c contents T st2"
    using replicated_after_remote [OF c(1,2) ra [unfolded r] c(3) p(2) row]
    by (intro sync_inv_clear [OF inv1 cl])
  with clear_pending_row_frame [OF cl] fr(5,6) d1 show "drains c T st st2"
    by (simp add: drains_def)
qed

lemma drains_loop:
  "sc_env c = env \<Longrightarrow> sy_remote st = Some vs \<Longrightarrow> sync_inv c contents T st \<Longrightarrow>
   drain_loop c vs st snapshot = (r, st') \<Longrightarrow> drains c T st st'"
proof (induction snapshot arbitrary: vs st)
  case Nil
  then show ?case by (simp add: drains_def)
next
  case (Cons e snapshot)
  obtain x v where e: "e = (x, v)" by fastforce
  note c = Cons.prems(1-3)
  show ?case
  proof (cases "map_of (sy_pending st) x = Some v")
    case False
    with Cons show ?thesis by (simp add: e)
  next
    case True
    then obtain k where k: "canonical k" "x = vss_key k" "parse_vss_key x = Some k"
      using pending_canonical [OF c(3)] by blast
    obtain q st1 where ra: "remote_apply c vs st k v = (q, st1)" by fastforce
    obtain q2 st2 where cl: "clear_pending_row st1 x = (q2, st2)" by fastforce
    note de = drains_entry [OF c True [unfolded k(2)] k(1) ra]
    have st2: "q = Inr () \<Longrightarrow> drains c T st st2"
      using de(2) cl k(2) by blast
    obtain vs2 where vs2: "sy_remote st2 = Some vs2"
      using clear_pending_row_frame [OF cl] remote_apply_frame [OF c(1,2) ra] by simp
    show ?thesis
    proof (cases "q = Inr () \<and> q2 = Inr ()")
      case False
      have "drains c T st (st1\<lparr>sy_gate_poisoned := True\<rparr>)"
        using de(1) sync_inv_cong [of c contents T st1 "st1\<lparr>sy_gate_poisoned := True\<rparr>"]
        by (simp add: drains_def local_value_def pending_row_def)
      with False st2 de(1) Cons.prems(4) True k(3) ra cl show ?thesis
        by (auto simp: e split: sum.splits if_splits)
    next
      case ok: True
      then have "drain_loop c vs2 st2 snapshot = (r, st')"
        using Cons.prems(4) True k(3) ra cl vs2 by (simp add: e)
      from Cons.IH [OF c(1) vs2 _ this] show ?thesis
        using st2 ok drains_trans drains_def by blast
    qed
  qed
qed

lemma drains_pending:
  assumes "sc_env c = env" "sy_remote st \<noteq> None" "sync_inv c contents T st"
    and "drain_pending c st = (r, st')"
  shows "drains c T st st'"
proof -
  obtain vs where vs: "sy_remote st = Some vs"
    using assms(2) by blast
  have refl: "drains c T st st"
    using assms(2,3) by (simp add: drains_def)
  show ?thesis
    using assms(4) refl drains_loop [OF assms(1) vs assms(3)]
    by (auto simp: drain_pending_def drain_locked_def vs split: if_splits)
qed


section \<open>Mutations\<close>

text \<open>The replication stage after a commit; \<open>r\<close> tells whether the remote confirmed.\<close>

lemma replicate_mutation_inv:
  assumes c: "sc_env c = env" "sy_remote st = Some vs" "sync_inv c contents T st"
    and p: "map_of (sy_pending st) (vss_key k) = Some value" "canonical k"
    and rm: "replicate_mutation c vs st k value = (r, st')"
  shows "drains c T st st'"
    and "r = Inr (True, e) \<Longrightarrow> pending_row st' (vss_key k) = None"
    and "r = Inr (b, None) \<Longrightarrow> remote_value c contents st' k = map_option Inr value"
proof -
  obtain q st1 where ra: "remote_apply c vs st k value = (q, st1)" by fastforce
  obtain q2 st2 where cl: "clear_pending_row st1 (vss_key k) = (q2, st2)" by fastforce
  note de = drains_entry [OF c p ra] and fr = remote_apply_frame [OF c(1,2) ra]
    and cf = clear_pending_row_frame [OF cl]
  have st2: "q = Inr () \<Longrightarrow> drains c T st st2"
    using de(2) cl by blast
  have "drains c T st (st1\<lparr>sy_gate_poisoned := True\<rparr>)"
    using de(1) sync_inv_cong [of c contents T st1 "st1\<lparr>sy_gate_poisoned := True\<rparr>"]
    by (simp add: drains_def local_value_def pending_row_def)
  with st2 de(1) rm ra cl show "drains c T st st'"
    by (auto simp: replicate_mutation_def split: sum.splits if_splits)
  show "r = Inr (True, e) \<Longrightarrow> pending_row st' (vss_key k) = None"
    using rm ra cl cf(4) by (auto simp: replicate_mutation_def split: sum.splits if_splits)
  show "r = Inr (b, None) \<Longrightarrow> remote_value c contents st' k = map_option Inr value"
    using rm ra cl cf(2) [of c contents k] fr(8)
    by (auto simp: replicate_mutation_def split: sum.splits if_splits)
qed

lemma synced_mutation_inv:
  assumes c: "sc_env c = env" "sy_remote st = Some vs" "sync_inv c contents T st" "k \<in> T"
    and m: "synced_mutation c vs st k value = (r, st')"
  shows "sync_inv c contents T st' \<and> sy_remote st' \<noteq> None
    \<and> (r = Inr () \<longrightarrow> local_value st' k = value)
    \<and> (r = Inr () \<and> requires_remote_durability k \<longrightarrow>
         remote_value c contents st' k = map_option Inr value)"
proof (cases "sy_gate_poisoned st \<or> sy_stopped st")
  case True
  then show ?thesis
    using m c by (auto simp: synced_mutation_def split: if_splits)
next
  case False
  obtain q st1 where cm: "commit_with_intent st k value = (q, st1)" by fastforce
  note inv1 = sync_inv_commit [OF c(3) cm c(4)] and fr = commit_with_intent_frame [OF cm]
  have vs1: "sy_remote st1 = Some vs" using fr(1) c(2) by simp
  have ck: "canonical k" "fst k \<noteq> PENDING_NS"
    using sync_invD(4,5) [OF c(3,4)] by auto
  show ?thesis
  proof (cases "q = Inr ()")
    case False
    then show ?thesis
      using m cm inv1 vs1 \<open>\<not> (sy_gate_poisoned st \<or> sy_stopped st)\<close>
      by (auto simp: synced_mutation_def split: sum.splits)
  next
    case q: True
    obtain o2 st2 where rp: "replicate_mutation c vs st1 k value = (o2, st2)" by fastforce
    note ri = replicate_mutation_inv [OF c(1) vs1 inv1 fr(7) [OF q] ck(1) rp]
    have l2: "local_value st2 k = value" "sync_inv c contents T st2" "sy_remote st2 \<noteq> None"
      using drainsD(1,2) [OF ri(1)] drainsD(4) [OF ri(1) ck(2)] fr(5) [OF q ck(2)] by auto
    obtain o3 st3 where dr: "drain_pending c st2 = (o3, st3)" by fastforce
    note d3 = drains_pending [OF c(1) l2(3,2) dr]
    have st3: "sync_inv c contents T st3" "sy_remote st3 \<noteq> None" "local_value st3 k = value"
      using drainsD(1,2) [OF d3] drainsD(4) [OF d3 ck(2)] l2(1) by auto
    have rv3: "remote_value c contents st3 k = map_option Inr value"
      if "o2 = Inr (True, e)" for e
    proof -
      have "pending_row st3 (vss_key k) = None"
        using ri(2) [OF that] drainsD(5) [OF d3] by blast
      then show ?thesis
        using sync_invD(6) [OF st3(1) c(4)] st3(3) by (simp add: tracked_def replicated_def)
    qed
    show ?thesis
      using m cm q rp dr l2 st3 rv3 ri(3) \<open>\<not> (sy_gate_poisoned st \<or> sy_stopped st)\<close>
      by (auto simp: synced_mutation_def split: sum.splits if_splits option.splits)
  qed
qed

end


section \<open>Reopening\<close>

definition reload_ok :: "kv_rows \<Rightarrow> (string \<times> bytes option) list \<Rightarrow> bool" where
  "reload_ok rows pending \<longleftrightarrow>
     distinct (map fst pending)
     \<and> (\<forall>x v. map_of pending x = Some v \<longrightarrow>
          Option.bind (map_of rows (pending_key x)) decode_pending_row = Some v)"

text \<open>A reload keeps all rows but malformed intents.\<close>

definition rows_kept :: "kv_rows \<Rightarrow> kv_rows \<Rightarrow> bool" where
  "rows_kept rows rows' \<longleftrightarrow>
     (\<forall>k. map_of rows' k = map_of rows k
        \<or> (\<exists>x. k = pending_key x) \<and> map_of rows' k = None
          \<and> Option.bind (map_of rows k) decode_pending_row = None)"

lemma rows_kept_refl [simp]: "rows_kept rows rows"
  by (simp add: rows_kept_def)

lemma rows_kept_trans: "rows_kept a b \<Longrightarrow> rows_kept b c \<Longrightarrow> rows_kept a c"
  unfolding rows_kept_def by metis

lemma rows_kept_remove:
  assumes "decode_pending_row row = None" "map_of (lk_rows db) (pending_key x) = Some row"
  shows "rows_kept (lk_rows db) (lk_rows (snd (local_remove db (pending_key x))))"
  using assms local_remove_outcome [of db "pending_key x"]
  by (auto simp: rows_kept_def split: if_splits)

lemma reload_ok_kept:
  "reload_ok rows pending \<Longrightarrow> rows_kept rows rows' \<Longrightarrow> reload_ok rows' pending"
  unfolding reload_ok_def rows_kept_def by (metis option.distinct(1))

lemma reload_ok_update:
  "reload_ok rows pending \<Longrightarrow> map_of rows (pending_key x) = Some row \<Longrightarrow>
   decode_pending_row row = Some v \<Longrightarrow> reload_ok rows (AList.update x v pending)"
  by (auto simp: reload_ok_def distinct_update update_conv')

lemma reload_pending_ok:
  "reload_pending nm cco db pending keys = (db', pending') \<Longrightarrow> reload_ok (lk_rows db) pending \<Longrightarrow>
   reload_ok (lk_rows db') pending' \<and> rows_kept (lk_rows db) (lk_rows db')"
proof (induction keys arbitrary: db pending)
  case (Cons x keys)
  obtain r db1 where rd: "local_read db (pending_key x) = (r, db1)" by fastforce
  have rows: "lk_rows db1 = lk_rows db"
    using local_read_rows [of db "pending_key x"] rd by simp
  show ?case
  proof (cases "\<exists>row. r = Inr row \<and> \<not> (cco \<and> \<not> is_common_remote_key nm x)
      \<and> \<not> (cco \<and> \<not> is_common_config_intent row)")
    case False
    then show ?thesis
      using Cons.IH [of db1 pending] Cons.IH [of db pending] Cons.prems rd rows
      by (cases r) (auto split: if_splits)
  next
    case True
    then obtain row where r: "r = Inr row" "\<not> (cco \<and> \<not> is_common_remote_key nm x)"
      "\<not> (cco \<and> \<not> is_common_config_intent row)" by blast
    have m: "map_of (lk_rows db1) (pending_key x) = Some row"
      using local_read_Inr rd r rows by metis
    show ?thesis
    proof (cases "decode_pending_row row")
      case None
      let ?db = "snd (local_remove db1 (pending_key x))"
      have "reload_pending nm cco ?db pending keys = (db', pending')"
        using Cons.prems(1) rd r None
        by (auto simp: decode_pending_row_def split: list.splits if_splits)
      moreover have k: "rows_kept (lk_rows db) (lk_rows ?db)"
        using rows_kept_remove [OF None m] rows by simp
      ultimately show ?thesis
        using Cons.IH [of ?db pending] reload_ok_kept [OF Cons.prems(2) k] rows_kept_trans [OF k]
        by blast
    next
      case (Some v)
      then have "reload_pending nm cco db1 (AList.update x v pending) keys = (db', pending')"
        using Cons.prems(1) rd r
        by (auto simp: decode_pending_row_def split: list.splits if_splits)
      then show ?thesis
        using Cons.IH reload_ok_update [OF _ m Some] Cons.prems(2) rows by metis
    qed
  qed
qed simp

definition reopens ::
  "'s synced_ctx \<Rightarrow> ('s \<Rightarrow> vss_contents) \<Rightarrow> 's synced_kv \<Rightarrow> 's synced_kv \<Rightarrow> bool" where
  "reopens c contents st st' \<longleftrightarrow>
     (\<exists>db vs vs' s capacity cco. sy_remote st = Some vs
        \<and> lk_rows db = lk_rows (sy_local st) \<and> contents s = contents (sy_server st)
        \<and> vs_store_id vs' = vs_store_id vs \<and> vs_signing_key vs' = vs_signing_key vs
        \<and> with_vss_capacity_inner (sc_names c) db vs' s capacity cco = Inr st')"

lemma with_vss_reload:
  assumes "with_vss_capacity_inner nm db vs s capacity cco = Inr st"
  shows "reload_ok (lk_rows (sy_local st)) (sy_pending st)"
    "rows_kept (lk_rows db) (lk_rows (sy_local st))"
    "sy_remote st = Some vs" "sy_server st = s" "sy_pending_capacity st = capacity" "0 < capacity"
    "\<not> sy_stopped st" "\<not> sy_gate_poisoned st"
proof -
  obtain r db1 where l: "local_list db PENDING_NS [] = (r, db1)" by fastforce
  have rows: "lk_rows db1 = lk_rows db"
    using l by (auto simp: local_list_def split: prod.splits bool.splits)
  have "reload_ok (lk_rows (sy_local st)) (sy_pending st)
      \<and> rows_kept (lk_rows db) (lk_rows (sy_local st))"
  proof (cases r)
    case (Inl e)
    with assms l rows show ?thesis
      by (auto simp: with_vss_capacity_inner_def reload_ok_def split: if_splits)
  next
    case (Inr keys)
    obtain db2 p2 where "reload_pending nm cco db1 [] keys = (db2, p2)" by fastforce
    with reload_pending_ok [OF this] assms l rows Inr show ?thesis
      by (auto simp: with_vss_capacity_inner_def reload_ok_def split: if_splits)
  qed
  then show "reload_ok (lk_rows (sy_local st)) (sy_pending st)"
    "rows_kept (lk_rows db) (lk_rows (sy_local st))" by auto
  show "sy_remote st = Some vs" "sy_server st = s" "sy_pending_capacity st = capacity" "0 < capacity"
    "\<not> sy_stopped st" "\<not> sy_gate_poisoned st"
    using assms by (auto simp: with_vss_capacity_inner_def split: if_splits prod.splits)
qed

lemma sync_inv_reopens:
  assumes inv: "sync_inv c contents T st" and re: "reopens c contents st st'"
  shows "sync_inv c contents T st'"
    and "fst k \<noteq> PENDING_NS \<Longrightarrow> local_value st' k = local_value st k"
proof -
  obtain db vs vs' s capacity cco where w: "sy_remote st = Some vs"
    "lk_rows db = lk_rows (sy_local st)" "contents s = contents (sy_server st)"
    "vs_store_id vs' = vs_store_id vs" "vs_signing_key vs' = vs_signing_key vs"
    "with_vss_capacity_inner (sc_names c) db vs' s capacity cco = Inr st'"
    using re by (auto simp: reopens_def)
  note r = with_vss_reload [OF w(6)]
  have kept: "map_of (lk_rows (sy_local st')) j = map_of (lk_rows (sy_local st)) j
      \<or> (\<exists>x. j = pending_key x) \<and> map_of (lk_rows (sy_local st')) j = None
        \<and> Option.bind (map_of (lk_rows (sy_local st)) j) decode_pending_row = None" for j
    using r(2) unfolding w(2) rows_kept_def by blast
  have val: "local_value st' j = local_value st j" if "fst j \<noteq> PENDING_NS" for j
    using kept [of j] that by (auto simp: local_value_def)
  then show "fst k \<noteq> PENDING_NS \<Longrightarrow> local_value st' k = local_value st k" .
  have row: "pending_row st' x = pending_row st x \<or> pending_row st' x = None
      \<and> Option.bind (pending_row st x) decode_pending_row = None" for x
    using kept [of "pending_key x"] by (auto simp: pending_row_def)
  have rem: "remote_value c contents st' j = remote_value c contents st j" for j
  proof -
    have "decrypt_value (sc_env c) vs' = decrypt_value (sc_env c) vs"
      by (intro ext) (simp only: decrypt_value_def w(5))
    then show ?thesis
      using w(3,4) by (simp add: remote_value_def r w(1) remote_view_def)
  qed
  show "sync_inv c contents T st'"
    unfolding sync_inv_def
  proof (intro conjI allI ballI impI)
    show "distinct (map fst (sy_pending st'))"
      using r(1) by (simp add: reload_ok_def)
    show "Option.bind (pending_row st' x) decode_pending_row = Some v"
      if "map_of (sy_pending st') x = Some v" for x v
      using r(1) that by (simp add: reload_ok_def pending_row_def)
    show "\<exists>k. canonical k \<and> x = vss_key k" if "pending_row st' x \<noteq> None" for x
      using row [of x] that sync_invD(3) [OF inv, of x] by metis
    fix j assume j: "j \<in> T"
    show "canonical j" and nj: "fst j \<noteq> PENDING_NS"
      using sync_invD(4,5) [OF inv j] by auto
    show "tracked c contents st' j"
      using sync_invD(6) [OF inv j] row [of "vss_key j"] val [OF nj] rem
      by (auto simp: tracked_def replicated_def bind_eq_None_conv split: option.splits)
  qed
qed

end
