(* ===== verification/Synced_Props.thy ===== *)
theory Synced_Props
  imports Synced_Inv
begin

text \<open>
  What \<open>SyncedKvStore\<close> promises. The step relation \<open>sync_step\<close> is the life of a store: the
  operations of \<open>src/synced_kv_store.rs\<close> in any order, with every failure of the database and of
  VSS, and processes that die at any point of a mutation or of a drain and are reopened.
\<close>

section \<open>The life of a store\<close>

inductive sync_step ::
  "'s synced_ctx \<Rightarrow> ('s \<Rightarrow> vss_contents) \<Rightarrow> kv_key set \<Rightarrow> 's synced_kv \<Rightarrow> 's synced_kv \<Rightarrow> bool"
  for c contents T where
  step_write: "k \<in> T \<Longrightarrow> write_with_durability c st k buf = (r, st') \<Longrightarrow>
    sync_step c contents T st st'"
| step_remove: "k \<in> T \<Longrightarrow> synced_remove c st k = (r, st') \<Longrightarrow> sync_step c contents T st st'"
| step_read: "synced_read st k = (r, st') \<Longrightarrow> sync_step c contents T st st'"
| step_list: "synced_list st p q = (r, st') \<Longrightarrow> sync_step c contents T st st'"
| step_drain: "drain_pending c st = (r, st') \<Longrightarrow> sync_step c contents T st st'"
| step_drain_locked: "sy_remote st = Some vs \<Longrightarrow> drain_locked c vs st = (r, st') \<Longrightarrow>
    sync_step c contents T st st'"
| step_flush: "flush_pending_until c deadline 0 st = (r, st') \<Longrightarrow> sync_step c contents T st st'"
| step_stop: "sync_step c contents T st (stop st)"
| step_environment: "contents s = contents (sy_server st) \<Longrightarrow> lk_rows db = lk_rows (sy_local st) \<Longrightarrow>
    sync_step c contents T st (st\<lparr>sy_local := db, sy_server := s\<rparr>)"
| step_reopen: "reopens c contents st st' \<Longrightarrow> sync_step c contents T st st'"
| step_die_after_commit: "k \<in> T \<Longrightarrow> commit_with_intent st k value = (r, st1) \<Longrightarrow>
    reopens c contents st1 st' \<Longrightarrow> sync_step c contents T st st'"
| step_die_after_remote: "k \<in> T \<Longrightarrow> commit_with_intent st k value = (Inr (), st1) \<Longrightarrow>
    sy_remote st1 = Some vs \<Longrightarrow> remote_apply c vs st1 k value = (r, st2) \<Longrightarrow>
    reopens c contents st2 st' \<Longrightarrow> sync_step c contents T st st'"
| step_die_draining: "map_of (sy_pending st) x = Some value \<Longrightarrow> parse_vss_key x = Some k \<Longrightarrow>
    sy_remote st = Some vs \<Longrightarrow> remote_apply c vs st k value = (r, st1) \<Longrightarrow>
    reopens c contents st1 st' \<Longrightarrow> sync_step c contents T st st'"

context vss_service
begin

lemma flush_inv:
  "sc_env c = env \<Longrightarrow> sy_remote st \<noteq> None \<Longrightarrow> sync_inv c contents T st \<Longrightarrow>
   flush_pending_until c deadline n st = (r, st') \<Longrightarrow> drains c T st st'"
proof (induction c deadline n st rule: flush_pending_until.induct)
  case (1 c deadline n st)
  obtain q st1 where d: "drain_pending c st = (q, st1)" by fastforce
  note dr = drains_pending [OF "1.prems"(1-3) d]
  have here: "drains c T st st"
    using "1.prems"(2,3) by (simp add: drains_def)
  show ?case
  proof (cases "pending_remote_writes st = 0 \<or> deadline n \<or> isl q
      \<or> pending_remote_writes st \<le> pending_remote_writes st1")
    case True
    then show ?thesis
      using "1.prems"(4) d dr here
      by (subst (asm) flush_pending_until.simps) (auto simp: Let_def split: sum.splits if_splits)
  next
    case False
    then obtain u where q: "q = Inr u" by (cases q) auto
    have "flush_pending_until c deadline (Suc n) st1 = (r, st')"
      using "1.prems"(4) False d q
      by (subst (asm) flush_pending_until.simps) (simp add: Let_def)
    from "1.IH" [OF refl _ d [symmetric] q _ "1.prems"(1) _ _ this] False dr show ?thesis
      using drains_trans [OF dr] by (auto simp: drains_def)
  qed
qed

lemma write_inv:
  assumes "sc_env c = env" "sy_remote st \<noteq> None" "sync_inv c contents T st" "k \<in> T"
  shows "write_with_durability c st k buf = (r, st') \<Longrightarrow> sync_inv c contents T st' \<and> sy_remote st' \<noteq> None"
    and "synced_remove c st k = (r, st') \<Longrightarrow> sync_inv c contents T st' \<and> sy_remote st' \<noteq> None"
  using assms synced_mutation_inv [OF assms(1) _ assms(3,4)]
  by (auto simp: write_with_durability_def synced_remove_def split: sum.splits option.splits)

lemma reopens_remote: "reopens c contents st st' \<Longrightarrow> sy_remote st' \<noteq> None"
  unfolding reopens_def using with_vss_reload(3) by (metis option.distinct(1))

lemma sync_step_inv:
  assumes "sync_step c contents T st st'" "sc_env c = env" "sy_remote st \<noteq> None"
    and "sync_inv c contents T st"
  shows "sync_inv c contents T st' \<and> sy_remote st' \<noteq> None"
  using assms
proof (induction rule: sync_step.induct)
  case (step_write k st buf r st')
  then show ?case using write_inv(1) by blast
next
  case (step_remove k st r st')
  then show ?case using write_inv(2) by blast
next
  case (step_read st k r st')
  then show ?case
    using local_read_rows [of "sy_local st" k] sync_inv_cong [of c contents T st st']
    by (auto simp: synced_read_def split: prod.splits)
next
  case (step_list st p q r st')
  then show ?case
    using sync_inv_cong [of c contents T st st']
    by (auto simp: synced_list_def local_list_def split: prod.splits bool.splits)
next
  case (step_drain st r st')
  then show ?case using drains_pending drainsD by blast
next
  case (step_drain_locked st vs r st')
  then show ?case
    using drains_loop [of c st vs T] drainsD(1,2) [of c T st st']
    by (auto simp: drain_locked_def split: if_splits)
next
  case (step_flush deadline st r st')
  then show ?case using flush_inv drainsD by blast
next
  case (step_stop st)
  then show ?case using sync_inv_cong [of c contents T st "stop st"] by (simp add: stop_def)
next
  case (step_environment s st db)
  then show ?case
    using sync_inv_cong [of c contents T st "st\<lparr>sy_local := db, sy_server := s\<rparr>"] by simp
next
  case (step_reopen st st')
  then show ?case using sync_inv_reopens(1) reopens_remote by blast
next
  case (step_die_after_commit k st val r st1 st')
  then show ?case using sync_inv_commit sync_inv_reopens(1) reopens_remote by blast
next
  case (step_die_after_remote k st val st1 vs r st2 st')
  note fr = commit_with_intent_frame [OF step_die_after_remote.hyps(2)]
  have inv1: "sync_inv c contents T st1"
    using sync_inv_commit step_die_after_remote by blast
  have "canonical k" "pending_row st1 (vss_key k) \<noteq> None"
    using sync_invD(4) [OF inv1 step_die_after_remote.hyps(1)] fr(6) by auto
  then have "sync_inv c contents T st2"
    using sync_inv_remote step_die_after_remote inv1 by blast
  then show ?case
    using sync_inv_reopens(1) reopens_remote step_die_after_remote.hyps(5) by blast
next
  case (step_die_draining st x val k vs r st1 st')
  obtain k' where "canonical k'" "x = vss_key k'" "parse_vss_key x = Some k'"
    using pending_canonical step_die_draining by blast
  then have "canonical k" "x = vss_key k"
    using step_die_draining.hyps(2) by auto
  then have "drains c T st st1"
    using drains_entry(1) step_die_draining by blast
  then show ?case
    using drainsD(1) sync_inv_reopens(1) reopens_remote step_die_draining.hyps(5) by blast
qed

lemma sync_steps_inv:
  assumes "(sync_step c contents T)\<^sup>*\<^sup>* st st'" "sc_env c = env" "sy_remote st \<noteq> None"
    and "sync_inv c contents T st"
  shows "sync_inv c contents T st' \<and> sy_remote st' \<noteq> None"
  using assms by (induction rule: rtranclp_induct) (auto dest: sync_step_inv)

end


section \<open>Convergence when everything is up\<close>

definition healthy :: "('s \<Rightarrow> vss_contents) \<Rightarrow> ('s \<Rightarrow> bool) \<Rightarrow> 's synced_kv \<Rightarrow> bool" where
  "healthy contents up st \<longleftrightarrow>
     (case sy_remote st of
        None \<Rightarrow> False
      | Some vs \<Rightarrow> up (sy_server st) \<and> fence_ours contents vs (sy_server st))
     \<and> lk_faults (sy_local st) = [] \<and> \<not> sy_stopped st \<and> \<not> sy_gate_poisoned st"

definition queue_complete :: "'s synced_kv \<Rightarrow> bool" where
  "queue_complete st \<longleftrightarrow>
     (\<forall>x. pending_row st x \<noteq> None \<longrightarrow> map_of (sy_pending st) x \<noteq> None)"

lemma clear_pending_row_complete:
  "clear_pending_row st x = (r, st') \<Longrightarrow> queue_complete st \<Longrightarrow> queue_complete st'"
  by (cases rule: clear_pending_row_cases)
    (auto simp: queue_complete_def pending_row_def delete_conv' split: if_splits)

lemma clear_pending_row_healthy:
  assumes "lk_faults (sy_local st) = []"
  shows "clear_pending_row st x = (Inr (), st\<lparr>
      sy_local := (sy_local st)\<lparr>lk_rows := exec_stmt (DeleteMany (pending_key x)) (lk_rows (sy_local st))\<rparr>,
      sy_pending := AList.delete x (sy_pending st)\<rparr>)"
  using assms by (simp add: clear_pending_row_def local_remove_def local_exec_healthy)

context vss_available
begin

lemma remote_apply_healthy:
  assumes "sc_env c = env" "healthy contents up st" "sy_remote st = Some vs"
    and ra: "remote_apply c vs st k value = (r, st')"
  shows "r = Inr () \<and> healthy contents up st'"
proof -
  note fr = remote_apply_frame [OF assms(1,3) ra]
  have u: "up (sy_server st)" "fence_ours contents vs (sy_server st)"
    using assms(2,3) by (simp_all add: healthy_def)
  have "\<exists>vs' s'. (case value of Some buf \<Rightarrow> vss_write env vs (sy_server st) k buf
      | None \<Rightarrow> vss_remove env vs (sy_server st) k) = (Inr (), vs', s') \<and> up s' \<and> fence_ours contents vs' s'"
  proof (cases "value")
    case None
    then show ?thesis using up_remove [OF u] by (metis option.simps(4))
  next
    case (Some v)
    then show ?thesis using up_write [OF u] by (metis option.simps(5))
  qed
  then show ?thesis
    using assms fr by (auto simp: remote_apply_def healthy_def)
qed

lemma drain_loop_healthy:
  "sc_env c = env \<Longrightarrow> healthy contents up st \<Longrightarrow> sy_remote st = Some vs \<Longrightarrow>
   sync_inv c contents T st \<Longrightarrow> queue_complete st \<Longrightarrow>
   set snapshot \<subseteq> set (sy_pending st) \<Longrightarrow> distinct (map fst snapshot) \<Longrightarrow>
   \<exists>st'. drain_loop c vs st snapshot = (Inr (), st') \<and> healthy contents up st' \<and> queue_complete st'
     \<and> sy_pending st' = filter (\<lambda>e. fst e \<notin> fst ` set snapshot) (sy_pending st)"
proof (induction snapshot arbitrary: vs st)
  case Nil
  then show ?case by (cases "sy_pending st") auto
next
  case (Cons e snapshot)
  obtain x v where e: "e = (x, v)" by fastforce
  note c = Cons.prems(1-5)
  have p: "map_of (sy_pending st) x = Some v"
    using sync_invD(1) [OF c(4)] Cons.prems(6) by (simp add: e)
  then obtain k where k: "canonical k" "x = vss_key k" "parse_vss_key x = Some k"
    using pending_canonical [OF c(4)] by blast
  obtain q st1 where ra: "remote_apply c vs st k v = (q, st1)" by fastforce
  note h1 = remote_apply_healthy [OF c(1-3) ra] and fr = remote_apply_frame [OF c(1,3) ra]
  obtain q2 st2 where cl: "clear_pending_row st1 x = (q2, st2)" by fastforce
  have faults: "lk_faults (sy_local st1) = []"
    using h1 by (simp add: healthy_def)
  have st2: "q2 = Inr ()" "sy_pending st2 = AList.delete x (sy_pending st)" "healthy contents up st2"
    using cl h1 fr(3)
    by (auto simp: clear_pending_row_healthy [OF faults] healthy_def split: option.splits)
  have "queue_complete st1"
    using c(5) by (simp add: queue_complete_def fr(2,3))
  then have qc: "queue_complete st2"
    using clear_pending_row_complete [OF cl] by blast
  have inv2: "sync_inv c contents T st2"
    using drains_entry(2) [OF c(1,3,4) p [unfolded k(2)] k(1) ra] h1 cl k(2) drainsD(1) by blast
  obtain vs2 where vs2: "sy_remote st2 = Some vs2"
    using st2(3) by (auto simp: healthy_def split: option.splits)
  have sub: "set snapshot \<subseteq> set (sy_pending st2)" "distinct (map fst snapshot)"
    using Cons.prems(6,7) by (auto simp: st2(2) AList.delete_eq e rev_image_eqI)
  from Cons.IH [OF c(1) st2(3) vs2 inv2 qc sub] obtain st' where
    "drain_loop c vs2 st2 snapshot = (Inr (), st')" "healthy contents up st'" "queue_complete st'"
    "sy_pending st' = filter (\<lambda>e. fst e \<notin> fst ` set snapshot) (sy_pending st2)" by blast
  then show ?case
    using p k(3) ra h1 cl st2(1,2) vs2
    by (auto simp: e AList.delete_eq case_prod_beta intro!: filter_cong)
qed

lemma drain_pending_healthy:
  assumes c: "sc_env c = env" "healthy contents up st" "sync_inv c contents T st" "queue_complete st"
    and iter: "mset (sc_iter c (sy_pending st)) = mset (sy_pending st)" and ne: "sy_pending st \<noteq> []"
  shows "\<exists>st'. drain_pending c st = (Inr (), st') \<and> healthy contents up st' \<and> queue_complete st'
    \<and> length (sy_pending st') < length (sy_pending st)"
proof -
  let ?snap = "take PENDING_DRAIN_BATCH (sc_iter c (sy_pending st))"
  obtain vs where vs: "sy_remote st = Some vs"
    using c(2) by (auto simp: healthy_def split: option.splits)
  have "mset (map fst (sc_iter c (sy_pending st))) = mset (map fst (sy_pending st))"
    using iter by simp
  then have d: "distinct (map fst (sc_iter c (sy_pending st)))"
    using sync_invD(1) [OF c(3)] by (metis mset_eq_imp_distinct_iff)
  have set: "set (sc_iter c (sy_pending st)) = set (sy_pending st)"
    using iter by (metis set_mset_mset)
  have sub: "set ?snap \<subseteq> set (sy_pending st)" "distinct (map fst ?snap)"
    using set d by (auto simp: take_map [symmetric] dest: in_set_takeD)
  obtain st' where st': "drain_loop c vs st ?snap = (Inr (), st')" "healthy contents up st'"
    "queue_complete st'" "sy_pending st' = filter (\<lambda>e. fst e \<notin> fst ` set ?snap) (sy_pending st)"
    using drain_loop_healthy [OF c(1,2) vs c(3,4) sub] by blast
  have "sc_iter c (sy_pending st) \<noteq> []"
    using iter ne by (metis mset_zero_iff)
  then obtain e where "e \<in> set ?snap"
    by (cases "sc_iter c (sy_pending st)") (auto simp: PENDING_DRAIN_BATCH_def)
  then have "e \<in> set (sy_pending st)" "fst e \<in> fst ` set ?snap"
    using sub(1) by auto
  then have "length (sy_pending st') < length (sy_pending st)"
    unfolding st'(4) by (intro length_filter_less) auto
  with st' show ?thesis
    using c(2) by (simp add: drain_pending_def drain_locked_def vs healthy_def)
qed

lemma flush_healthy:
  "sc_env c = env \<Longrightarrow> healthy contents up st \<Longrightarrow> sync_inv c contents T st \<Longrightarrow> queue_complete st \<Longrightarrow>
   (\<And>p. mset (sc_iter c p) = mset p) \<Longrightarrow> (\<And>n. \<not> deadline n) \<Longrightarrow>
   \<exists>st'. flush_pending_until c deadline n st = (Inr 0, st') \<and> sy_pending st' = []
     \<and> queue_complete st'"
proof (induction "length (sy_pending st)" arbitrary: n st rule: less_induct)
  case less
  show ?case
  proof (cases "sy_pending st = []")
    case True
    with less.prems(4) show ?thesis
      by (subst flush_pending_until.simps) (simp add: pending_remote_writes_def)
  next
    case False
    obtain st1 where d: "drain_pending c st = (Inr (), st1)" "healthy contents up st1"
      "queue_complete st1" "length (sy_pending st1) < length (sy_pending st)"
      using drain_pending_healthy [OF less.prems(1-5) False] by blast
    have "sy_remote st \<noteq> None"
      using less.prems(2) by (auto simp: healthy_def split: option.splits)
    then have "sync_inv c contents T st1"
      using drains_pending [OF less.prems(1) _ less.prems(3) d(1)] drainsD(1) by blast
    from less.hyps [OF d(4) less.prems(1) d(2) this d(3) less.prems(5,6)] show ?thesis
      using d(1,4) False less.prems(6)
      by (subst flush_pending_until.simps) (simp add: pending_remote_writes_def Let_def)
  qed
qed

end

lemma rows_kept_None: "rows_kept rows rows' \<Longrightarrow> map_of rows k = None \<Longrightarrow> map_of rows' k = None"
  unfolding rows_kept_def by metis

lemma reload_pending_complete:
  "reload_pending nm False db pending keys = (db', pending') \<Longrightarrow> lk_faults db = [] \<Longrightarrow>
   reload_ok (lk_rows db) pending \<Longrightarrow>
   lk_faults db' = []
   \<and> (\<forall>x. x \<in> set keys \<or> map_of pending x \<noteq> None \<longrightarrow> map_of (lk_rows db') (pending_key x) \<noteq> None \<longrightarrow>
        map_of pending' x \<noteq> None)"
proof (induction keys arbitrary: db pending)
  case (Cons x keys)
  note kept = reload_pending_ok [THEN conjunct2]
  have gone: ?case if rl: "reload_pending nm False db1 pending keys = (db', pending')"
    and f: "lk_faults db1 = []" and ok: "reload_ok (lk_rows db1) pending"
    and n: "map_of (lk_rows db1) (pending_key x) = None" for db1
    using Cons.IH [OF rl f ok] rows_kept_None [OF kept [OF rl ok] n] by auto
  show ?case
  proof (cases "Option.bind (map_of (lk_rows db) (pending_key x)) decode_pending_row")
    case None
    show ?thesis
    proof (cases "map_of (lk_rows db) (pending_key x)")
      case absent: None
      then show ?thesis
        using Cons.prems by (intro gone [of db]) (simp_all add: local_read_def)
    next
      case (Some row)
      let ?db = "snd (local_remove db (pending_key x))"
      have d: "decode_pending_row row = None" using None Some by simp
      have db: "?db = db\<lparr>lk_rows := exec_stmt (DeleteMany (pending_key x)) (lk_rows db)\<rparr>"
        using Cons.prems(2) by (simp add: local_remove_def local_exec_healthy)
      have "reload_pending nm False ?db pending keys = (db', pending')"
        using Cons.prems(1,2) Some d
        by (auto simp: local_read_def decode_pending_row_def split: list.splits if_splits)
      then show ?thesis
        using Cons.prems reload_ok_kept rows_kept_remove [OF d Some]
        by (intro gone [of ?db]) (auto simp: db)
    qed
  next
    case (Some v)
    then obtain row where row: "map_of (lk_rows db) (pending_key x) = Some row"
      "decode_pending_row row = Some v" by (auto simp: bind_eq_Some_conv)
    have "reload_pending nm False db (AList.update x v pending) keys = (db', pending')"
      using Cons.prems(1,2) row
      by (auto simp: local_read_def decode_pending_row_def split: list.splits if_splits)
    from Cons.IH [OF this Cons.prems(2) reload_ok_update [OF Cons.prems(3) row]] show ?thesis
      by (auto simp: update_conv')
  qed
qed simp

lemma with_vss_complete:
  assumes "with_vss_capacity_inner nm db vs s capacity False = Inr st" "lk_faults db = []"
  shows "queue_complete st" "lk_faults (sy_local st) = []"
proof -
  let ?keys = "map (\<lambda>((p, s, k), v). k) (filter (\<lambda>((p, s, k), v). p = PENDING_NS \<and> s = []) (lk_rows db))"
  obtain db' pending' where rl: "reload_pending nm False db [] ?keys = (db', pending')" by fastforce
  have ok: "reload_ok (lk_rows db) []" by (simp add: reload_ok_def)
  have st: "sy_local st = db'" "sy_pending st = pending'"
    using assms rl by (auto simp: with_vss_capacity_inner_def local_list_def split: if_splits)
  note c = reload_pending_complete [OF rl assms(2) ok]
  show "lk_faults (sy_local st) = []" using c st by simp
  have "x \<in> set ?keys" if "pending_row st x \<noteq> None" for x
  proof -
    have "map_of (lk_rows db) (pending_key x) \<noteq> None"
      using rows_kept_None [OF conjunct2 [OF reload_pending_ok [OF rl ok]], of "pending_key x"] that
      unfolding pending_row_def st by blast
    then show ?thesis
      by (force dest: map_of_SomeD)
  qed
  then show "queue_complete st"
    using c unfolding queue_complete_def pending_row_def st by blast
qed

end
