(* ===== verification/Rln_Assoc.thy ===== *)
theory Rln_Assoc
  imports "HOL-Library.AList"
begin

text \<open>
  Lemmas on association lists, the model of the \<open>HashMap\<close>s and \<open>BTreeMap\<close>s of the source:
  length, entries and sums over the entries after \<open>insert\<close> and \<open>remove\<close>.
\<close>

lemma length_update:
  "length (AList.update k v xs) = (if map_of xs k = None then Suc (length xs) else length xs)"
  by (induction xs) auto

lemma update_fresh: "map_of xs k = None \<Longrightarrow> AList.update k v xs = xs @ [(k, v)]"
  by (induction xs) (auto split: if_splits)

lemma in_set_update: "x \<in> set (AList.update k v xs) \<Longrightarrow> x = (k, v) \<or> x \<in> set xs"
  by (induction xs) (auto split: if_splits)

lemma sum_filter_delete:
  fixes f :: "'k \<times> 'v \<Rightarrow> nat"
  assumes "distinct (map fst xs)" "map_of xs k = Some v"
  shows "sum_list (map f (filter P xs))
    = sum_list (map f (filter P (AList.delete k xs))) + (if P (k, v) then f (k, v) else 0)"
  using assms
proof (induction xs)
  case (Cons x xs)
  show ?case
  proof (cases "fst x = k")
    case True
    with Cons.prems have "AList.delete k xs = xs"
      by (cases x) (simp add: delete_id)
    with True Cons.prems show ?thesis by (cases x) auto
  next
    case False
    with Cons show ?thesis by (cases x) auto
  qed
qed simp

lemma sum_filter_update:
  fixes f :: "'k \<times> 'v \<Rightarrow> nat"
  assumes "distinct (map fst xs)"
  shows "sum_list (map f (filter P (AList.update k v xs)))
    = sum_list (map f (filter P (AList.delete k xs))) + (if P (k, v) then f (k, v) else 0)"
  using sum_filter_delete [of "AList.update k v xs" k v f P] assms
  by (simp add: distinct_update update_conv' delete_update_same)

lemma length_filter_update:
  assumes "distinct (map fst xs)"
  shows "length (filter P (AList.update k v xs))
      = length (filter P (AList.delete k xs)) + (if P (k, v) then 1 else 0)"
  using sum_filter_update [OF assms, of "\<lambda>_. 1" P k v] by (simp add: sum_list_triv)

lemma length_filter_delete:
  assumes "distinct (map fst xs)" "map_of xs k = Some v" "P (k, v)"
  shows "length (filter P xs) = Suc (length (filter P (AList.delete k xs)))"
  using sum_filter_delete [OF assms(1,2), of "\<lambda>_. 1" P] assms(3) by (simp add: sum_list_triv)

lemma sum_filter_groups:
  fixes f :: "'a \<Rightarrow> nat"
  assumes "finite T" "\<forall>x \<in> set xs. g x \<in> T"
  shows "sum_list (map f (filter P xs)) = (\<Sum>t\<in>T. sum_list (map f (filter (\<lambda>x. P x \<and> g x = t) xs)))"
  using assms(2)
proof (induction xs)
  case (Cons x xs)
  have "(\<Sum>t\<in>T. sum_list (map f (filter (\<lambda>x. P x \<and> g x = t) (x # xs))))
      = (\<Sum>t\<in>T. (if g x = t then (if P x then f x else 0) else 0)
            + sum_list (map f (filter (\<lambda>x. P x \<and> g x = t) xs)))"
    by (rule sum.cong) auto
  also have "\<dots> = (if P x then f x else 0) + sum_list (map f (filter P xs))"
    using Cons assms(1) by (simp add: sum.distrib)
  finally show ?case by simp
qed simp

end
