(* ===== verification/Synced_Claims.thy ===== *)
theory Synced_Claims
  imports Synced_Props Rln_Assoc
begin

text \<open>
  The properties of \<open>SyncedKvStore\<close> (\<open>src/synced_kv_store.rs\<close>) over the invariant of
  \<open>Synced_Inv\<close> and the step relation of \<open>Synced_Props\<close>, with the frame lemmas that need no
  assumption on the VSS service.
\<close>

section \<open>Frames that hold for every VSS service\<close>

lemma remote_apply_local:
  "remote_apply c vs st k value = (r, st') \<Longrightarrow>
   sy_local st' = sy_local st \<and> sy_pending st' = sy_pending st \<and> sy_stopped st' = sy_stopped st
   \<and> sy_pending_capacity st' = sy_pending_capacity st
   \<and> sy_common_config_only st' = sy_common_config_only st"
  by (auto simp: remote_apply_def split: prod.splits)

lemma clear_pending_row_local:
  assumes "clear_pending_row st x = (r, st')"
  shows "length (sy_pending st') \<le> length (sy_pending st)"
    "sy_pending_capacity st' = sy_pending_capacity st"
    "sy_common_config_only st' = sy_common_config_only st"
  using assms length_delete_le [of x "sy_pending st"]
  by (auto simp: clear_pending_row_def split: prod.splits sum.splits)

text \<open>What a drain leaves alone.\<close>

definition drain_frame :: "'s synced_kv \<Rightarrow> 's synced_kv \<Rightarrow> bool" where
  "drain_frame st st' \<longleftrightarrow>
     (\<forall>k. fst k \<noteq> PENDING_NS \<longrightarrow> local_value st' k = local_value st k)
     \<and> length (sy_pending st') \<le> length (sy_pending st)
     \<and> sy_pending_capacity st' = sy_pending_capacity st
     \<and> sy_common_config_only st' = sy_common_config_only st
     \<and> (queue_complete st \<longrightarrow> queue_complete st')"

lemma drain_frame_refl [simp]: "drain_frame st st"
  by (simp add: drain_frame_def)

lemma drain_frame_value:
  "drain_frame st st' \<Longrightarrow> fst k \<noteq> PENDING_NS \<Longrightarrow> local_value st' k = local_value st k"
  unfolding drain_frame_def by blast

lemma drain_frame_trans: "drain_frame a b \<Longrightarrow> drain_frame b c \<Longrightarrow> drain_frame a c"
  by (simp add: drain_frame_def)

lemma drain_frame_clear: "clear_pending_row st x = (r, st') \<Longrightarrow> drain_frame st st'"
  unfolding drain_frame_def
  by (intro conjI allI impI; erule clear_pending_row_frame(1) clear_pending_row_local
      clear_pending_row_complete; assumption)

lemma drain_frame_remote: "remote_apply c vs st k value = (r, st') \<Longrightarrow> drain_frame st st'"
  using remote_apply_local
  by (fastforce simp: drain_frame_def local_value_def queue_complete_def pending_row_def)

lemma drain_frame_poison: "drain_frame st st' \<Longrightarrow> drain_frame st (st'\<lparr>sy_gate_poisoned := True\<rparr>)"
  by (simp add: drain_frame_def local_value_def queue_complete_def pending_row_def)

lemma drain_loop_frame: "drain_loop c vs st snapshot = (r, st') \<Longrightarrow> drain_frame st st'"
proof (induction c vs st snapshot arbitrary: r rule: drain_loop.induct)
  case (2 c vs st x v snapshot)
  show ?case
  proof (cases "map_of (sy_pending st) x = Some v")
    case False
    with 2 show ?thesis by simp
  next
    case p: True
    show ?thesis
    proof (cases "parse_vss_key x")
      case None
      then show ?thesis
        using 2(2) [of r] p "2.prems" drain_frame_clear [of st x] drain_frame_trans
        by (metis (no_types, lifting) drain_loop.simps(2) option.simps(4) prod.collapse)
    next
      case (Some k)
      obtain q st1 where ra: "remote_apply c vs st k v = (q, st1)" by fastforce
      note f1 = drain_frame_remote [OF ra]
      obtain q2 st2 where cl: "clear_pending_row st1 x = (q2, st2)" by fastforce
      note f2 = drain_frame_trans [OF f1 drain_frame_clear [OF cl]]
      show ?thesis
      proof (cases "isl q \<or> isl q2")
        case True
        then show ?thesis
          using "2.prems" p Some ra cl f1 f2 drain_frame_poison [OF f1]
          by (auto split: sum.splits if_splits)
      next
        case False
        then obtain u u2 where q: "q = Inr u" "q2 = Inr u2" by (cases q; cases q2) auto
        then have "drain_loop c (case sy_remote st2 of Some vs \<Rightarrow> vs | None \<Rightarrow> vs) st2 snapshot = (r, st')"
          using "2.prems" p Some ra cl by simp
        from 2(3) [OF _ Some ra [symmetric] q(1) cl [symmetric] q(2) this] p show ?thesis
          using drain_frame_trans [OF f2] by simp
      qed
    qed
  qed
qed simp

lemma drain_pending_frame: "drain_pending c st = (r, st') \<Longrightarrow> drain_frame st st'"
  using drain_loop_frame
  by (auto simp: drain_pending_def drain_locked_def split: option.splits if_splits)

lemma flush_pending_frame: "flush_pending_until c deadline n st = (r, st') \<Longrightarrow> drain_frame st st'"
proof (induction c deadline n st rule: flush_pending_until.induct)
  case (1 c deadline n st)
  obtain q st1 where d: "drain_pending c st = (q, st1)" by (cases "drain_pending c st")
  note f = drain_pending_frame [OF d]
  show ?case
  proof (cases "pending_remote_writes st = 0 \<or> deadline n \<or> isl q
      \<or> pending_remote_writes st \<le> pending_remote_writes st1")
    case True
    then show ?thesis
      using "1.prems" d f
      by (subst (asm) flush_pending_until.simps) (auto simp: Let_def split: sum.splits if_splits)
  next
    case False
    then obtain u where q: "q = Inr u" by (cases q) auto
    have "flush_pending_until c deadline (Suc n) st1 = (r, st')"
      using "1.prems" False d q by (subst (asm) flush_pending_until.simps) (simp add: Let_def)
    from "1.IH" [OF refl _ d [symmetric] q _ this] False show ?thesis
      using drain_frame_trans [OF f] by blast
  qed
qed

lemma replicate_mutation_frame:
  assumes "replicate_mutation c vs st k value = (r, st')"
  shows "drain_frame st st'"
proof -
  obtain q st1 where ra: "remote_apply c vs st k value = (q, st1)" by fastforce
  note f1 = drain_frame_remote [OF ra]
  obtain q2 st2 where cl: "clear_pending_row st1 (vss_key k) = (q2, st2)" by fastforce
  show ?thesis
    using assms ra cl f1 drain_frame_trans [OF f1 drain_frame_clear [OF cl]] drain_frame_poison [OF f1]
    by (auto simp: replicate_mutation_def split: sum.splits if_splits)
qed

lemma commit_with_intent_local:
  assumes "commit_with_intent st k value = (q, st1)" "fst k \<noteq> PENDING_NS"
  shows "q \<noteq> Inr () \<Longrightarrow> local_value st1 = local_value st"
    and "q = Inr () \<Longrightarrow> local_value st1 k = value"
    and "fst j \<noteq> PENDING_NS \<Longrightarrow> j \<noteq> k \<Longrightarrow> local_value st1 j = local_value st j"
proof -
  have k: "k \<noteq> pending_key y" for y using assms(2) by auto
  show "q \<noteq> Inr () \<Longrightarrow> local_value st1 = local_value st"
    using assms(1) by (cases rule: commit_with_intent_cases) (auto simp: local_value_def)
  show "q = Inr () \<Longrightarrow> local_value st1 k = value"
    using assms(1) k by (cases rule: commit_with_intent_cases) (auto simp: local_value_def)
  have "j \<noteq> pending_key y" if "fst j \<noteq> PENDING_NS" for y using that by auto
  with assms(1) show "fst j \<noteq> PENDING_NS \<Longrightarrow> j \<noteq> k \<Longrightarrow> local_value st1 j = local_value st j"
    by (cases rule: commit_with_intent_cases) (simp_all add: local_value_def)
qed

text \<open>A mutation ends before its commit, with a failed commit, or after it.\<close>

lemma synced_mutation_cases:
  assumes "synced_mutation c vs st k value = (r, st')"
  obtains (refused) "st' = st" "r \<noteq> Inr ()"
  | (uncommitted) e where "commit_with_intent st k value = (Inl e, st')" "r = Inl e"
  | (committed) st1 where "commit_with_intent st k value = (Inr (), st1)" "drain_frame st1 st'"
proof -
  obtain q st1 where cm: "commit_with_intent st k value = (q, st1)" by fastforce
  obtain q2 st2 where rp: "replicate_mutation c vs st1 k value = (q2, st2)" by fastforce
  obtain q3 st3 where dr: "drain_pending c st2 = (q3, st3)" by fastforce
  note f2 = replicate_mutation_frame [OF rp]
  note f3 = drain_frame_trans [OF f2 drain_pending_frame [OF dr]]
  show ?thesis
  proof (cases "sy_gate_poisoned st \<or> sy_stopped st")
    case True
    then show ?thesis
      using assms refused by (auto simp: synced_mutation_def split: if_splits)
  next
    case False
    show ?thesis
    proof (cases q)
      case (Inl e)
      then show ?thesis
        using assms cm False uncommitted by (simp add: synced_mutation_def)
    next
      case (Inr u)
      then have "st' = st2 \<or> st' = st3"
        using assms cm rp dr False
        by (auto simp: synced_mutation_def split: if_splits sum.splits option.splits)
      then show ?thesis
        using committed [of st1] cm Inr f2 f3 by auto
    qed
  qed
qed

lemma synced_mutation_local:
  assumes "synced_mutation c vs st k value = (r, st')" "fst k \<noteq> PENDING_NS"
  shows "fst j \<noteq> PENDING_NS \<Longrightarrow> j \<noteq> k \<Longrightarrow> local_value st' j = local_value st j"
    and "local_value st' k = value \<or> local_value st' k = local_value st k \<and> r \<noteq> Inr ()"
proof -
  show "local_value st' j = local_value st j" if j: "fst j \<noteq> PENDING_NS" "j \<noteq> k"
    using assms(1)
  proof (cases rule: synced_mutation_cases)
    case (uncommitted e)
    then show ?thesis using commit_with_intent_local(3) [OF _ assms(2) j] by blast
  next
    case (committed st1)
    then show ?thesis
      using commit_with_intent_local(3) [OF committed(1) assms(2) j] drain_frame_value j(1) by metis
  qed simp
  show "local_value st' k = value \<or> local_value st' k = local_value st k \<and> r \<noteq> Inr ()"
    using assms(1)
  proof (cases rule: synced_mutation_cases)
    case (uncommitted e)
    then show ?thesis using commit_with_intent_local(1) [OF uncommitted(1) assms(2)] by simp
  next
    case (committed st1)
    then show ?thesis
      using commit_with_intent_local(2) [OF committed(1) assms(2)] drain_frame_value assms(2) by metis
  qed simp
qed

text \<open>The store as its clients see it, whatever the VSS service does.\<close>

lemma synced_ops_view:
  assumes "fst k \<noteq> PENDING_NS"
  shows "fst j \<noteq> PENDING_NS \<Longrightarrow> j \<noteq> k \<Longrightarrow>
      local_value (snd (write_with_durability c st k v)) j = local_value st j"
    and "local_value (snd (write_with_durability c st k v)) k = Some v
      \<or> local_value (snd (write_with_durability c st k v)) k = local_value st k
        \<and> fst (write_with_durability c st k v) \<noteq> Inr ()"
    and "fst j \<noteq> PENDING_NS \<Longrightarrow> j \<noteq> k \<Longrightarrow>
      local_value (snd (synced_remove c st k)) j = local_value st j"
    and "local_value (snd (synced_remove c st k)) k = None
      \<or> local_value (snd (synced_remove c st k)) k = local_value st k
        \<and> fst (synced_remove c st k) \<noteq> Inr ()"
proof -
  have m: "fst j \<noteq> PENDING_NS \<Longrightarrow> j \<noteq> k \<Longrightarrow>
      local_value (snd (synced_mutation c vs st k val)) j = local_value st j"
    "local_value (snd (synced_mutation c vs st k val)) k = val
      \<or> local_value (snd (synced_mutation c vs st k val)) k = local_value st k
        \<and> fst (synced_mutation c vs st k val) \<noteq> Inr ()" for vs val
    using synced_mutation_local [of c vs st k val, OF prod.collapse [symmetric] assms] by auto
  note ow = local_write_outcome [of "sy_local st" k v] and om = local_remove_outcome [of "sy_local st" k]
  show "fst j \<noteq> PENDING_NS \<Longrightarrow> j \<noteq> k \<Longrightarrow>
      local_value (snd (write_with_durability c st k v)) j = local_value st j"
    using m(1) ow by (auto simp: write_with_durability_def local_value_def split_beta
        split: sum.split option.split)
  show "local_value (snd (write_with_durability c st k v)) k = Some v
      \<or> local_value (snd (write_with_durability c st k v)) k = local_value st k
        \<and> fst (write_with_durability c st k v) \<noteq> Inr ()"
    using m(2) ow by (auto simp: write_with_durability_def local_value_def split_beta
        split: sum.split option.split)
  show "fst j \<noteq> PENDING_NS \<Longrightarrow> j \<noteq> k \<Longrightarrow>
      local_value (snd (synced_remove c st k)) j = local_value st j"
    using m(1) om by (auto simp: synced_remove_def local_value_def split_beta
        split: sum.split option.split)
  show "local_value (snd (synced_remove c st k)) k = None
      \<or> local_value (snd (synced_remove c st k)) k = local_value st k
        \<and> fst (synced_remove c st k) \<noteq> Inr ()"
    using m(2) om by (auto simp: synced_remove_def local_value_def split_beta
        split: sum.split option.split)
qed

interpretation skv: kv_store_sync synced_read "write_with_durability c" "synced_remove c" local_value
  "\<lambda>k. fst k \<noteq> PENDING_NS" for c :: "'s synced_ctx"
proof
  fix st :: "'s synced_kv" and k k' :: kv_key and v
  assume k: "fst k \<noteq> PENDING_NS"
  note o = synced_ops_view [OF k]
  show "local_value (snd (synced_read st k)) k' = local_value st k'"
    using local_read_rows [of "sy_local st" k]
    by (auto simp: synced_read_def local_value_def split: prod.splits)
  show "fst (synced_read st k) = Inr v \<Longrightarrow> local_value st k = Some v"
    "fst (synced_read st k) = Inl (Io NotFound) \<Longrightarrow> local_value st k = None"
    using local_read_fst [of "sy_local st" k]
    by (auto simp: synced_read_def local_value_def split: prod.splits)
  show "fst (write_with_durability c st k v) = Inr () \<Longrightarrow>
      local_value (snd (write_with_durability c st k v)) k = Some v"
    "local_value (snd (write_with_durability c st k v)) k = local_value st k
      \<or> local_value (snd (write_with_durability c st k v)) k = Some v"
    using o(2) by blast+
  show "fst k' \<noteq> PENDING_NS \<Longrightarrow> k' \<noteq> k \<Longrightarrow>
      local_value (snd (write_with_durability c st k v)) k' = local_value st k'"
    using o(1) by blast
  show "fst (synced_remove c st k) = Inr () \<Longrightarrow> local_value (snd (synced_remove c st k)) k = None"
    "local_value (snd (synced_remove c st k)) k = local_value st k
      \<or> local_value (snd (synced_remove c st k)) k = None"
    using o(4) by metis+
  show "fst k' \<noteq> PENDING_NS \<Longrightarrow> k' \<noteq> k \<Longrightarrow>
      local_value (snd (synced_remove c st k)) k' = local_value st k'"
    using o(3) by blast
qed


section \<open>Reachable stores\<close>

text \<open>A node starts with an empty database and a VSS store that holds nothing of it (the fence
  apart); its clients use canonical keys outside the namespace of the intents.\<close>

definition fresh_store :: "'s synced_ctx \<Rightarrow> ('s \<Rightarrow> vss_contents) \<Rightarrow> 's synced_kv \<Rightarrow> bool" where
  "fresh_store c contents st \<longleftrightarrow>
     (\<exists>vs s faults. (\<forall>k. contents s (vs_store_id vs) (vss_key k) = None)
        \<and> with_vss (sc_names c) \<lparr>lk_rows = [], lk_faults = faults\<rparr> vs s = Inr st)"

definition synced_reachable :: "'s synced_ctx \<Rightarrow> ('s \<Rightarrow> vss_contents) \<Rightarrow> 's synced_kv \<Rightarrow> bool" where
  "synced_reachable c contents st \<longleftrightarrow>
     (\<exists>st0. fresh_store c contents st0
        \<and> (sync_step c contents {k. client_key k})\<^sup>*\<^sup>* st0 st)"

lemma fresh_store_inv:
  assumes "fresh_store c contents st"
  shows "sync_inv c contents {k. client_key k} st \<and> sy_remote st \<noteq> None"
proof -
  obtain vs s faults where e: "\<And>k. contents s (vs_store_id vs) (vss_key k) = None"
    and w: "with_vss_capacity_inner (sc_names c) \<lparr>lk_rows = [], lk_faults = faults\<rparr> vs s
      PENDING_QUEUE_CAP False = Inr st"
    using assms by (auto simp: fresh_store_def with_vss_def)
  note r = with_vss_reload [OF w]
  have rows: "map_of (lk_rows (sy_local st)) = Map.empty"
    using r(2) unfolding rows_kept_def by (metis ext local_kv.select_convs(1) map_of.simps(1))
  have "map_of (sy_pending st) x = None" for x
    using r(1) rows by (fastforce simp: reload_ok_def)
  then show ?thesis
    using r(1,3,4) e
    by (auto simp: sync_inv_def reload_ok_def pending_row_def tracked_def replicated_def
        remote_value_def remote_view_def local_value_def rows)
qed

lemma synced_reachable_inv:
  assumes "vss_service (sc_env c) contents" "synced_reachable c contents st"
  shows "sync_inv c contents {k. client_key k} st \<and> sy_remote st \<noteq> None"
proof -
  obtain st0 where st0: "fresh_store c contents st0"
    "(sync_step c contents {k. client_key k})\<^sup>*\<^sup>* st0 st"
    using assms(2) unfolding synced_reachable_def by blast
  from fresh_store_inv [OF st0(1)] show ?thesis
    using vss_service.sync_steps_inv [OF assms(1) st0(2) refl] by blast
qed

text \<open>A store that runs in a process that opened it on a working database, so that the reload
  found every intent; from then on the database and VSS may fail in any way. The store has not been
  closed since.\<close>

inductive running_store :: "'s synced_ctx \<Rightarrow> ('s \<Rightarrow> vss_contents) \<Rightarrow> 's synced_kv \<Rightarrow> bool"
  for c contents where
  run_fresh: "fresh_store c contents st \<Longrightarrow> running_store c contents st"
| run_open: "synced_reachable c contents st0 \<Longrightarrow> sy_remote st0 = Some vs \<Longrightarrow>
    lk_rows db = lk_rows (sy_local st0) \<Longrightarrow> lk_faults db = [] \<Longrightarrow> contents s = contents (sy_server st0) \<Longrightarrow>
    vs_store_id vs' = vs_store_id vs \<Longrightarrow> vs_signing_key vs' = vs_signing_key vs \<Longrightarrow>
    with_vss_capacity_inner (sc_names c) db vs' s capacity False = Inr st \<Longrightarrow> running_store c contents st"
| run_write: "running_store c contents st \<Longrightarrow> client_key k \<Longrightarrow>
    write_with_durability c st k buf = (r, st') \<Longrightarrow> running_store c contents st'"
| run_remove: "running_store c contents st \<Longrightarrow> client_key k \<Longrightarrow>
    synced_remove c st k = (r, st') \<Longrightarrow> running_store c contents st'"
| run_read: "running_store c contents st \<Longrightarrow> synced_read st k = (r, st') \<Longrightarrow> running_store c contents st'"
| run_list: "running_store c contents st \<Longrightarrow> synced_list st p q = (r, st') \<Longrightarrow> running_store c contents st'"
| run_drain: "running_store c contents st \<Longrightarrow> drain_pending c st = (r, st') \<Longrightarrow> running_store c contents st'"
| run_flush: "running_store c contents st \<Longrightarrow> flush_pending_until c deadline 0 st = (r, st') \<Longrightarrow>
    running_store c contents st'"
| run_environment: "running_store c contents st \<Longrightarrow> contents s = contents (sy_server st) \<Longrightarrow>
    lk_rows db = lk_rows (sy_local st) \<Longrightarrow> running_store c contents (st\<lparr>sy_local := db, sy_server := s\<rparr>)"

lemma synced_reachable_step:
  "synced_reachable c contents st \<Longrightarrow> sync_step c contents {k. client_key k} st st' \<Longrightarrow>
   synced_reachable c contents st'"
  unfolding synced_reachable_def by (meson rtranclp.rtrancl_into_rtrancl)

lemma queue_complete_local:
  "queue_complete st \<Longrightarrow> (\<And>x. map_of (lk_rows db) (pending_key x) = map_of (lk_rows (sy_local st)) (pending_key x)) \<Longrightarrow>
   queue_complete (st\<lparr>sy_local := db\<rparr>)"
  by (simp add: queue_complete_def pending_row_def)

lemma synced_mutation_complete:
  assumes "synced_mutation c vs st k value = (r, st')" "fst k \<noteq> PENDING_NS" "queue_complete st"
  shows "queue_complete st'"
proof -
  have commit: "queue_complete st1" if "commit_with_intent st k value = (q, st1)" for q st1
    using that
  proof (cases rule: commit_with_intent_cases)
    case fails
    with assms(3) show ?thesis by (simp add: queue_complete_def pending_row_def)
  next
    case commits
    with assms(2,3) show ?thesis
      by (cases k) (auto simp: queue_complete_def pending_row_def update_conv' split: if_splits)
  qed
  show ?thesis
    using assms(1)
    by (cases rule: synced_mutation_cases) (use assms(3) commit in \<open>auto simp: drain_frame_def\<close>)
qed

lemma local_exec_complete:
  assumes "local_exec (sy_local st) stmt = (r, db)" "stmt = Upsert k v \<or> stmt = DeleteMany k"
    and "fst k \<noteq> PENDING_NS" "queue_complete st"
  shows "queue_complete (st\<lparr>sy_local := db\<rparr>)"
proof (rule queue_complete_local [OF assms(4)])
  fix x
  have "pending_key x \<noteq> k" using assms(3) by auto
  then show "map_of (lk_rows db) (pending_key x) = map_of (lk_rows (sy_local st)) (pending_key x)"
    using local_exec_outcome [of "sy_local st" stmt] assms(1,2) by auto
qed

lemma fresh_store_complete: "fresh_store c contents st \<Longrightarrow> queue_complete st"
proof -
  assume "fresh_store c contents st"
  then obtain vs s faults where "with_vss_capacity_inner (sc_names c) \<lparr>lk_rows = [], lk_faults = faults\<rparr> vs s
      PENDING_QUEUE_CAP False = Inr st"
    by (auto simp: fresh_store_def with_vss_def)
  from with_vss_reload(2) [OF this] show ?thesis
    unfolding rows_kept_def queue_complete_def pending_row_def
    by (metis local_kv.select_convs(1) map_of.simps(1))
qed

lemma running_store_complete:
  "running_store c contents st \<Longrightarrow> synced_reachable c contents st \<and> queue_complete st"
proof (induction rule: running_store.induct)
  case (run_fresh st)
  then show ?case
    using fresh_store_complete unfolding synced_reachable_def by blast
next
  case (run_open st0 vs db s vs' capacity st)
  have "reopens c contents st0 st"
    unfolding reopens_def
    by (intro exI [of _ db] exI [of _ vs] exI [of _ vs'] exI [of _ s] exI [of _ capacity]
        exI [of _ False] conjI run_open)
  with run_open(1) have "synced_reachable c contents st"
    by (blast intro: synced_reachable_step step_reopen)
  with with_vss_complete(1) [OF run_open(8,4)] show ?case by blast
next
  case (run_write st k buf r st')
  have "queue_complete st'"
    using run_write local_exec_complete [of st "Upsert k buf" _ _ k] synced_mutation_complete [of c _ st k "Some buf"]
    by (auto simp: write_with_durability_def local_write_def split: sum.splits option.splits if_splits prod.splits)
  with run_write show ?case by (blast intro: synced_reachable_step step_write)
next
  case (run_remove st k r st')
  have "queue_complete st'"
    using run_remove local_exec_complete [of st "DeleteMany k" _ _ k] synced_mutation_complete [of c _ st k None]
    by (auto simp: synced_remove_def local_remove_def split: sum.splits option.splits if_splits prod.splits)
  with run_remove show ?case by (blast intro: synced_reachable_step step_remove)
next
  case (run_read st k r st')
  have "queue_complete st'"
    using run_read queue_complete_local [of st] local_read_rows [of "sy_local st" k]
    by (auto simp: synced_read_def split: prod.splits)
  with run_read show ?case by (blast intro: synced_reachable_step step_read)
next
  case (run_list st p q r st')
  have "queue_complete st'"
    using run_list queue_complete_local [of st] local_list_rows [of "sy_local st" p q]
    by (auto simp: synced_list_def split: prod.splits)
  with run_list show ?case by (blast intro: synced_reachable_step step_list)
next
  case (run_drain st r st')
  with drain_pending_frame [OF run_drain(2)] show ?case
    by (auto simp: drain_frame_def intro: synced_reachable_step step_drain)
next
  case (run_flush st deadline r st')
  with flush_pending_frame [OF run_flush(2)] show ?case
    by (auto simp: drain_frame_def intro: synced_reachable_step step_flush)
next
  case (run_environment st s db)
  then have "queue_complete (st\<lparr>sy_local := db, sy_server := s\<rparr>)"
    by (simp add: queue_complete_def pending_row_def)
  with run_environment show ?case by (blast intro: synced_reachable_step step_environment)
qed

text \<open>A store over the server in memory, on which the witnesses run.\<close>

definition mem_ctx :: "mem_vss synced_ctx" where
  "mem_ctx =
     \<lparr>sc_names = \<lparr>nm_channel_manager = ([], [], ''manager''), nm_output_sweeper = ([], [], ''sweeper''),
        nm_network_graph = ([], [], ''graph''), nm_scorer = ([], [], ''scorer''),
        nm_rgb_primary = ''rgb'', nm_rgb_wallet_config = ''wallet_config''\<rparr>,
      sc_env = mem_env, sc_iter = (\<lambda>p. p)\<rparr>"

definition mem_vs :: vss_kv_store where
  "mem_vs = \<lparr>vs_store_id = ''s'', vs_signing_key = [], vs_instance_id = ''a'', vs_write_counter = 0\<rparr>"

definition mem_synced :: "mem_vss synced_kv" where
  "mem_synced =
     \<lparr>sy_local = \<lparr>lk_rows = [], lk_faults = []\<rparr>, sy_common_config_only = False,
      sy_remote = Some mem_vs, sy_server = [], sy_pending = [],
      sy_pending_capacity = PENDING_QUEUE_CAP, sy_stopped = False, sy_gate_poisoned = False\<rparr>"

abbreviation funding_key :: kv_key where
  "funding_key \<equiv> (RGB_SENDER_FUNDING_NAMESPACE, [], ''f'')"

lemma mem_ctx_simps [simp]: "sc_env mem_ctx = mem_env" "sc_iter mem_ctx = (\<lambda>p. p)"
  by (simp_all add: mem_ctx_def)

lemma mem_synced_fresh: "fresh_store mem_ctx mem_contents mem_synced"
proof -
  have "with_vss (sc_names mem_ctx) \<lparr>lk_rows = [], lk_faults = []\<rparr> mem_vs [] = Inr mem_synced"
    by (simp add: with_vss_def with_vss_capacity_inner_def local_list_def mem_synced_def
        PENDING_QUEUE_CAP_def)
  moreover have "\<forall>k. mem_contents [] (vs_store_id mem_vs) (vss_key k) = None"
    by (simp add: mem_contents_def)
  ultimately show ?thesis
    unfolding fresh_store_def by blast
qed

lemma funding_key_client: "client_key funding_key" "requires_remote_durability funding_key"
  by (simp_all add: canonical.simps RGB_SENDER_FUNDING_NAMESPACE_def PENDING_NS_def)

lemmas mem_evals = write_with_durability_def synced_mutation_def commit_with_intent_def
  reserve_pending_def replicate_mutation_def remote_apply_def intent_transactions
  db_transaction_healthy check_mutation_def mem_synced_def vss_write_def check_fence_periodic_def
  mem_vs_def encrypt_value_def mem_env_def mem_put_def put_request_def PENDING_QUEUE_CAP_def Let_def
  clear_pending_row_def local_remove_def local_exec_healthy drain_pending_def drain_locked_def
  mem_version_def exec_stmt.simps mem_store_def RGB_SENDER_FUNDING_NAMESPACE_def PENDING_NS_def

definition mem_written :: "mem_vss synced_kv" where
  "mem_written = mem_synced\<lparr>sy_local := \<lparr>lk_rows = [(funding_key, [7])], lk_faults = []\<rparr>,
     sy_server := [((''s'', vss_key funding_key), 0,
       VSS_KV_FORMAT_VERSION # replicate SALT_LEN 0 @ replicate NONCE_LEN 0 @ [7])],
     sy_remote := Some (mem_vs\<lparr>vs_write_counter := 1\<rparr>)\<rparr>"

lemma mem_synced_write:
  "write_with_durability mem_ctx mem_synced funding_key [7] = (Inr (), mem_written)"
  by (simp add: mem_written_def mem_evals)

lemma mem_reachable:
  "synced_reachable mem_ctx mem_contents mem_synced" "synced_reachable mem_ctx mem_contents mem_written"
proof -
  show "synced_reachable mem_ctx mem_contents mem_synced"
    using mem_synced_fresh unfolding synced_reachable_def by blast
  have "sync_step mem_ctx mem_contents {k. client_key k} mem_synced mem_written"
    using funding_key_client(1) by (intro step_write [OF _ mem_synced_write]) simp
  then show "synced_reachable mem_ctx mem_contents mem_written"
    using mem_synced_fresh unfolding synced_reachable_def by blast
qed

text \<open>The same store when the process died between the commit and the remote call, reopened.\<close>

definition mem_backlog :: "mem_vss synced_kv" where
  "mem_backlog = mem_synced\<lparr>
     sy_local := \<lparr>lk_rows = [(funding_key, [7]), (pending_key (vss_key funding_key), [1, 7])], lk_faults = []\<rparr>,
     sy_pending := [(vss_key funding_key, Some [7])]\<rparr>"

lemma mem_commit:
  "commit_with_intent mem_synced funding_key (Some [7]) = (Inr (), mem_backlog)"
  by (simp add: mem_evals mem_backlog_def encode_pending_row_def)

lemma mem_backlog_opens:
  "with_vss_capacity_inner (sc_names mem_ctx) (sy_local mem_backlog) mem_vs [] PENDING_QUEUE_CAP False
     = Inr mem_backlog"
  by (simp add: with_vss_capacity_inner_def local_list_def local_read_def mem_backlog_def mem_synced_def
      PENDING_QUEUE_CAP_def RGB_SENDER_FUNDING_NAMESPACE_def PENDING_NS_def)

lemma mem_backlog_running: "running_store mem_ctx mem_contents mem_backlog"
proof -
  have r: "sy_remote mem_backlog = Some mem_vs" "sy_server mem_backlog = []" "lk_faults (sy_local mem_backlog) = []"
    by (simp_all add: mem_backlog_def mem_synced_def)
  have "reopens mem_ctx mem_contents mem_backlog mem_backlog"
    unfolding reopens_def using r mem_backlog_opens by metis
  then have "sync_step mem_ctx mem_contents {k. client_key k} mem_synced mem_backlog"
    using funding_key_client(1) by (intro step_die_after_commit [OF _ mem_commit]) simp_all
  then have "synced_reachable mem_ctx mem_contents mem_backlog"
    by (rule synced_reachable_step [OF mem_reachable(1)])
  then show ?thesis
    by (rule run_open [OF _ r(1) refl r(3) _ refl refl mem_backlog_opens]) (simp add: r(2))
qed

lemma mem_written_values:
  "pending_row mem_written x = None" "local_value mem_written funding_key = Some [7]"
  "sy_pending mem_written = []"
  by (simp_all add: pending_row_def local_value_def mem_written_def mem_synced_def
      RGB_SENDER_FUNDING_NAMESPACE_def PENDING_NS_def)


lemma commit_with_intent_queue:
  assumes "commit_with_intent st k value = (r, st')" "length (sy_pending st) \<le> sy_pending_capacity st"
  shows "length (sy_pending st') \<le> sy_pending_capacity st"
  using assms length_delete_le [of "vss_key k" "sy_pending st"]
  by (auto simp: commit_with_intent_def reserve_pending_def restore_pending_reservation_def Let_def
      length_update delete_update_same split: if_splits prod.splits sum.splits option.splits)


section \<open>Properties\<close>

text \<open>C1. No replication is ever lost. Whatever sequence of writes, removals, drains, failures
  of the database or of VSS, and crashes a store has been through, a client key either has a
  durable intent that records exactly its local value, or the remote store holds exactly its
  local value (and nothing if it has none).\<close>

theorem replication_invariant:
  assumes "vss_service (sc_env c) contents" "synced_reachable c contents st" "client_key k"
  shows "case pending_row st (vss_key k) of
      None \<Rightarrow> remote_value c contents st k = map_option Inr (local_value st k)
    | Some row \<Rightarrow> decode_pending_row row = Some (local_value st k)"
  using synced_reachable_inv [OF assms(1,2)] assms(3) sync_invD(6)
  by (fastforce simp: tracked_def replicated_def split: option.splits)

theorem replication_invariant_witness:
  "synced_reachable mem_ctx mem_contents mem_written \<and> local_value mem_written funding_key = Some [7]
   \<and> remote_value mem_ctx mem_contents mem_written funding_key = Some (Inr [7])"
  using replication_invariant [of mem_ctx mem_contents mem_written funding_key]
    mem.vss_service_axioms mem_reachable(2) funding_key_client(1)
  by (simp add: mem_written_values)

text \<open>C2. A write that must be durable remotely is. When a write of a key of the channel-funding
  records returns \<open>Ok\<close>, the remote store and the local store both hold the written bytes, even
  if the intent could not be cleared and however many other entries the drain behind it moved.\<close>

theorem durable_write_replicated:
  assumes "vss_service (sc_env c) contents" "synced_reachable c contents st" "client_key k"
    and "requires_remote_durability k" "write_with_durability c st k buf = (Inr (), st')"
  shows "remote_value c contents st' k = Some (Inr buf) \<and> local_value st' k = Some buf"
proof -
  note inv = synced_reachable_inv [OF assms(1,2)]
  then obtain vs where vs: "sy_remote st = Some vs" by blast
  have "synced_mutation c vs st k (Some buf) = (Inr (), st')"
    using assms(5) vs by (simp add: write_with_durability_def split: sum.splits)
  from vss_service.synced_mutation_inv [OF assms(1) refl vs conjunct1 [OF inv] _ this] show ?thesis
    using assms(3,4) by simp
qed

theorem durable_write_replicated_witness:
  "write_with_durability mem_ctx mem_synced funding_key [7] = (Inr (), mem_written)
   \<and> remote_value mem_ctx mem_contents mem_written funding_key = Some (Inr [7])"
  using durable_write_replicated [of mem_ctx mem_contents mem_synced funding_key "[7]" mem_written]
    mem.vss_service_axioms mem_reachable(1) funding_key_client mem_synced_write
  by simp

text \<open>C11. Replication converges. Take any running store that was opened on a working database,
  whatever writes, removals and drains it has seen and whatever failures of the database and of VSS
  it has been through since. Once both work again, the fence not taken by another instance, the
  store not stopped and its gate not poisoned, flushing without a deadline ends, reports an empty
  queue, and leaves every client key replicated with its local value unchanged.\<close>

theorem flush_converges:
  assumes "vss_available (sc_env c) contents up" "\<And>p. mset (sc_iter c p) = mset p"
    and "running_store c contents st" "healthy contents up st"
  shows "\<exists>st'. flush_pending_until c (\<lambda>n. False) 0 st = (Inr 0, st') \<and> pending_remote_writes st' = 0
    \<and> (\<forall>k. client_key k \<longrightarrow> local_value st' k = local_value st k
         \<and> remote_value c contents st' k = map_option Inr (local_value st k))"
proof -
  have svc: "vss_service (sc_env c) contents"
    using assms(1) by (simp add: vss_available_def)
  note rs = running_store_complete [OF assms(3)]
  have inv: "sync_inv c contents {k. client_key k} st" "sy_remote st \<noteq> None"
    using synced_reachable_inv [OF svc] rs by blast+
  have "\<exists>st'. flush_pending_until c (\<lambda>n. False) 0 st = (Inr 0, st') \<and> sy_pending st' = []
      \<and> queue_complete st'"
    by (rule vss_available.flush_healthy [OF assms(1) refl assms(4) inv(1) conjunct2 [OF rs] assms(2)]) simp
  then obtain st' where st': "flush_pending_until c (\<lambda>n. False) 0 st = (Inr 0, st')"
    "sy_pending st' = []" "queue_complete st'" by blast
  note d = vss_service.flush_inv [OF svc refl inv(2,1) st'(1)]
  note inv' = vss_service.drainsD(1) [OF svc d]
  have none: "pending_row st' x = None" for x
    using st'(2,3) by (simp add: queue_complete_def)
  have "replicated c contents st' k" if "client_key k" for k
    using sync_invD(6) [OF inv', of k] that none [of "vss_key k"] by (simp add: tracked_def)
  moreover have "local_value st' k = local_value st k" if "client_key k" for k
    using that vss_service.drainsD(4) [OF svc d, of k] by simp
  ultimately show ?thesis
    using st' unfolding replicated_def pending_remote_writes_def by auto
qed

theorem flush_converges_witness:
  "sy_pending mem_backlog = [(vss_key funding_key, Some [7])]
   \<and> remote_value mem_ctx mem_contents mem_backlog funding_key = None
   \<and> (\<exists>st'. flush_pending_until mem_ctx (\<lambda>n. False) 0 mem_backlog = (Inr 0, st')
        \<and> remote_value mem_ctx mem_contents st' funding_key = Some (Inr [7]))"
proof -
  have "vss_available (sc_env mem_ctx) mem_contents (\<lambda>s. True)"
    using mem_up.vss_available_axioms by simp
  moreover have "healthy mem_contents (\<lambda>s. True) mem_backlog"
    by (simp add: healthy_def mem_backlog_def mem_synced_def fence_ours_def fence_owner_def mem_contents_def)
  ultimately obtain st' where "flush_pending_until mem_ctx (\<lambda>n. False) 0 mem_backlog = (Inr 0, st')"
    "client_key funding_key \<longrightarrow>
       remote_value mem_ctx mem_contents st' funding_key = map_option Inr (local_value mem_backlog funding_key)"
    using flush_converges [of mem_ctx mem_contents "\<lambda>s. True" mem_backlog] mem_backlog_running by auto
  moreover have "local_value mem_backlog funding_key = Some [7]"
    by (simp add: local_value_def mem_backlog_def RGB_SENDER_FUNDING_NAMESPACE_def PENDING_NS_def)
  moreover have "sy_pending mem_backlog = [(vss_key funding_key, Some [7])]" by (simp add: mem_backlog_def)
  moreover have "remote_value mem_ctx mem_contents mem_backlog funding_key = None"
    by (simp add: remote_value_def remote_view_def mem_backlog_def mem_synced_def mem_contents_def)
  ultimately show ?thesis using funding_key_client(1) by auto
qed

text \<open>After \<open>stop\<close> nothing more leaves the node: mutations fail before the local commit
  and leave the whole state as it is, and drains, including one that was waiting for the gate,
  return without touching anything.\<close>

theorem stop_is_final:
  assumes "sy_remote st = Some vs" "st' = stop st"
  shows "fst (write_with_durability c st' k buf) \<in> {Inl (Io PermissionDenied), Inl (Io BrokenPipe), Inl Panic}
    \<and> snd (write_with_durability c st' k buf) = st'
    \<and> fst (synced_remove c st' k) \<in> {Inl (Io PermissionDenied), Inl (Io BrokenPipe), Inl Panic}
    \<and> snd (synced_remove c st' k) = st'
    \<and> drain_pending c st' = (Inr (), st')
    \<and> snd (drain_locked c vs st') = st'"
  using assms
  by (auto simp: stop_def write_with_durability_def synced_remove_def check_mutation_def
      synced_mutation_def drain_pending_def drain_locked_def)

theorem stop_is_final_witness:
  "fst (write_with_durability mem_ctx (stop mem_written) funding_key [8]) = Inl (Io BrokenPipe)
   \<and> snd (write_with_durability mem_ctx (stop mem_written) funding_key [8]) = stop mem_written"
  using stop_is_final [of mem_written "mem_vs\<lparr>vs_write_counter := 1\<rparr>" "stop mem_written" mem_ctx
      funding_key "[8]"]
  by (simp add: stop_def mem_written_def write_with_durability_def check_mutation_def
      synced_mutation_def mem_synced_def)

text \<open>The replication backlog is bounded and never evicts. A mutation keeps the queue within
  its capacity; when the queue is full, a mutation of a key that is not queued is refused with
  \<open>WouldBlock\<close> and changes nothing.\<close>

theorem backlog_bounded:
  assumes "length (sy_pending st) \<le> sy_pending_capacity st"
  shows "length (sy_pending (snd (synced_mutation c vs st k value))) \<le> sy_pending_capacity st
    \<and> (length (sy_pending st) = sy_pending_capacity st \<longrightarrow> map_of (sy_pending st) (vss_key k) = None \<longrightarrow>
        \<not> sy_gate_poisoned st \<longrightarrow> \<not> sy_stopped st \<longrightarrow>
        synced_mutation c vs st k value = (Inl (Io WouldBlock), st))"
proof (intro conjI impI)
  obtain r st' where m: "synced_mutation c vs st k value = (r, st')" by fastforce
  show "length (sy_pending (snd (synced_mutation c vs st k value))) \<le> sy_pending_capacity st"
    using m
  proof (cases rule: synced_mutation_cases)
    case refused
    with m assms show ?thesis by simp
  next
    case (uncommitted e)
    from commit_with_intent_queue [OF this(1) assms] m show ?thesis by simp
  next
    case (committed st1)
    from commit_with_intent_queue [OF this(1) assms] this(2) m show ?thesis
      by (simp add: drain_frame_def)
  qed
next
  assume "length (sy_pending st) = sy_pending_capacity st" "map_of (sy_pending st) (vss_key k) = None"
    "\<not> sy_gate_poisoned st" "\<not> sy_stopped st"
  then show "synced_mutation c vs st k value = (Inl (Io WouldBlock), st)"
    by (simp add: synced_mutation_def commit_with_intent_def reserve_pending_def Let_def)
qed

theorem backlog_bounded_witness:
  "let st = mem_written\<lparr>sy_pending := [(''a/_/x'', None)], sy_pending_capacity := 1\<rparr>
   in synced_mutation mem_ctx mem_vs st funding_key None = (Inl (Io WouldBlock), st)"
  using backlog_bounded [of "mem_written\<lparr>sy_pending := [(''a/_/x'', None)], sy_pending_capacity := 1\<rparr>"
      mem_ctx mem_vs funding_key None]
  by (simp add: Let_def mem_written_def mem_synced_def vss_key.simps vss_ns_def
      RGB_SENDER_FUNDING_NAMESPACE_def)

text \<open>C14. To its client the replicated store is one local map, whatever VSS answers: a write or
  removal that returns \<open>Ok\<close> updates the map at its key, one that fails leaves the old or the
  new value there, no other client key changes, and a read that returns a value returns the
  map's.\<close>

theorem synced_refines_map:
  assumes k: "fst k \<noteq> PENDING_NS"
    and w: "write_with_durability c st k v = (rw, stw)" and d: "synced_remove c st k = (rd, std)"
  shows "(if rw = Inr () then local_value stw k = Some v else local_value stw k \<in> {local_value st k, Some v})
    \<and> (if rd = Inr () then local_value std k = None else local_value std k \<in> {local_value st k, None})
    \<and> (\<forall>j. fst j \<noteq> PENDING_NS \<and> j \<noteq> k \<longrightarrow>
         local_value stw j = local_value st j \<and> local_value std j = local_value st j)
    \<and> (\<forall>u. fst (synced_read st k) = Inr u \<longrightarrow> local_value st k = Some u)"
proof -
  have "if rw = Inr () then local_value stw k = Some v else local_value stw k \<in> {local_value st k, Some v}"
    using skv.wr_Ok [OF k, of c st v] skv.wr_Err [OF k, of c st v] w by simp
  moreover have "if rd = Inr () then local_value std k = None else local_value std k \<in> {local_value st k, None}"
    using skv.rm_Ok [OF k, of c st] skv.rm_Err [OF k, of c st] d by simp
  moreover have "local_value stw j = local_value st j \<and> local_value std j = local_value st j"
    if "fst j \<noteq> PENDING_NS" "j \<noteq> k" for j
    using skv.wr_other [OF k that, of c st v] skv.rm_other [OF k that, of c st] w d by simp
  ultimately show ?thesis
    using skv.rd_Ok [OF k, of st] by blast
qed

theorem synced_refines_map_witness:
  "local_value (snd (write_with_durability mem_ctx mem_synced funding_key [7])) funding_key = Some [7]"
  using synced_refines_map [OF _ mem_synced_write surjective_pairing] mem_synced_write
    funding_key_client(1) by simp

end
