(* ===== verification/Synced_Bulk.thy ===== *)
theory Synced_Bulk
  imports Synced_Claims
begin

text \<open>
  The bulk operations of \<open>SyncedKvStore\<close> (restore onto a fresh device, refill of a wiped VSS
  store) and the mainnet boundary, where only the common wallet configuration may be mutated.
\<close>

section \<open>Restoring\<close>

lemma parse_canonical: "parse_vss_key x = Some k \<Longrightarrow> canonical k"
  by (auto simp: parse_vss_key_def unvss_ns_def canonical.simps split: option.splits if_splits
      dest!: split_once_Some)

lemma restore_items_healthy:
  "restore_items db n items = (m, db') \<Longrightarrow> lk_faults db = [] \<Longrightarrow>
   (\<forall>x v k. (x, v) \<in> set items \<longrightarrow> parse_vss_key x = Some k \<longrightarrow> x = vss_key k) \<Longrightarrow> canonical k \<Longrightarrow>
   (\<exists>v. (vss_key k, v) \<in> set items \<and> map_of (lk_rows db') k = Some v)
   \<or> (\<forall>v. (vss_key k, v) \<notin> set items) \<and> map_of (lk_rows db') k = map_of (lk_rows db) k"
proof (induction items arbitrary: db n)
  case (Cons e items)
  obtain x v where e: "e = (x, v)" by fastforce
  have sub: "\<forall>x v k. (x, v) \<in> set items \<longrightarrow> parse_vss_key x = Some k \<longrightarrow> x = vss_key k"
    using Cons.prems(3) by (meson list.set_intros(2))
  show ?case
  proof (cases "parse_vss_key x")
    case None
    then have "x \<noteq> vss_key k"
      using parse_vss_key_vss_key [OF Cons.prems(4)] by auto
    moreover have "restore_items db n items = (m, db')"
      using None Cons.prems(1) by (simp add: e)
    from Cons.IH [OF this Cons.prems(2) sub Cons.prems(4)]
    have "(\<exists>v. (vss_key k, v) \<in> set items \<and> map_of (lk_rows db') k = Some v)
        \<or> (\<forall>v. (vss_key k, v) \<notin> set items) \<and> map_of (lk_rows db') k = map_of (lk_rows db) k" .
    ultimately show ?thesis
      by (auto simp: e)
  next
    case (Some j)
    let ?db = "db\<lparr>lk_rows := exec_stmt (Upsert j v) (lk_rows db)\<rparr>"
    have "(x, v) \<in> set (e # items)" by (simp add: e)
    then have j: "x = vss_key j" "canonical j"
      using Cons.prems(3) Some parse_canonical by blast+
    have r: "restore_items ?db (n + 1) items = (m, db')"
      using Cons.prems(1,2) Some by (simp add: e local_write_def local_exec_healthy)
    have "lk_faults ?db = []" using Cons.prems(2) by simp
    from Cons.IH [OF r this sub Cons.prems(4)]
    have "(\<exists>v. (vss_key k, v) \<in> set items \<and> map_of (lk_rows db') k = Some v)
        \<or> (\<forall>v. (vss_key k, v) \<notin> set items) \<and> map_of (lk_rows db') k = map_of (lk_rows ?db) k" .
    then show ?thesis
      using vss_key_inj [OF Cons.prems(4) j(2)] by (cases "k = j") (auto simp: e j(1))
  qed
qed simp

lemma restore_from_vss_cases:
  assumes "restore_from_vss c st force = Some (Inr n, st')" "sy_remote st = Some vs"
    and "\<not> sy_common_config_only st" "lk_faults (sy_local st) = []"
    and "map_of (lk_rows (sy_local st)) (nm_channel_manager (sc_names c)) = None"
  obtains items s where "download_all (sc_env c) vs (sy_server st) = Some (Inr items, s)"
    "restore_items (sy_local st) 0 items = (n, sy_local st')" "sy_server st' = s"
  using assms
  by (auto simp: restore_from_vss_def check_bulk_sync_def restore_download_def local_read_def
      split: if_splits option.splits prod.splits sum.splits intro: that)

text \<open>C12. A lost device is recovered from VSS. When every intent of a store has been cleared, a
  new device that opens an empty database on the same VSS store and completes
  \<open>restore_from_vss\<close> holds exactly the same value at every client key. (The names on the server
  that read as record keys must be the names of records.)\<close>

theorem recovery_from_vss:
  assumes "vss_listing (sc_env c) contents page_keys rank"
    and "synced_reachable c contents st" "sy_remote st = Some vs" "\<And>x. pending_row st x = None"
    and "\<And>x k. contents s (vs_store_id vs) x \<noteq> None \<Longrightarrow> parse_vss_key x = Some k \<Longrightarrow> x = vss_key k"
    and "vs_store_id vs' = vs_store_id vs" "vs_signing_key vs' = vs_signing_key vs"
    and "contents s = contents (sy_server st)"
    and "with_vss (sc_names c) \<lparr>lk_rows = [], lk_faults = []\<rparr> vs' s = Inr st1"
    and "restore_from_vss c st1 force = Some (Inr n, st2)" "client_key k"
  shows "local_value st2 k = local_value st k"
proof -
  have svc: "vss_service (sc_env c) contents"
    using assms(1) by (simp add: vss_listing_def)
  have st1: "sy_remote st1 = Some vs'" "sy_server st1 = s" "\<not> sy_common_config_only st1"
    "sy_local st1 = \<lparr>lk_rows = [], lk_faults = []\<rparr>"
    using assms(9) by (auto simp: with_vss_def with_vss_capacity_inner_def local_list_def split: if_splits)
  have f: "lk_faults (sy_local st1) = []"
    "map_of (lk_rows (sy_local st1)) (nm_channel_manager (sc_names c)) = None"
    by (simp_all add: st1)
  obtain items s' where d: "download_all (sc_env c) vs' s = Some (Inr items, s')"
    and r: "restore_items (sy_local st1) 0 items = (n, sy_local st2)"
    using restore_from_vss_cases [OF assms(10) st1(1,3) f] st1(2) by metis
  have items: "(x, v) \<in> set items \<longleftrightarrow>
      x \<noteq> FENCE_KEY \<and> remote_view (sc_env c) contents vs' s x = Some (Inr v)" for x v
    using vss_listing.download_all_ends [OF assms(1), of vs' s] d by auto
  have rv: "remote_view (sc_env c) contents vs' s x = remote_view (sc_env c) contents vs (sy_server st) x" for x
  proof -
    have "decrypt_value (sc_env c) vs' = decrypt_value (sc_env c) vs"
      by (intro ext) (simp only: decrypt_value_def assms(7))
    then show ?thesis by (simp add: remote_view_def assms(6,8))
  qed
  have "x = vss_key j" if "(x, v) \<in> set items" "parse_vss_key x = Some j" for x v j
    using assms(5) [of x j] that items [of x v] assms(6) by (auto simp: remote_view_def)
  then have "\<forall>x v k. (x, v) \<in> set items \<longrightarrow> parse_vss_key x = Some k \<longrightarrow> x = vss_key k"
    by blast
  from restore_items_healthy [OF r f(1) this, of k] assms(11) st1(4)
  have "(\<exists>v. (vss_key k, v) \<in> set items \<and> local_value st2 k = Some v)
      \<or> (\<forall>v. (vss_key k, v) \<notin> set items) \<and> local_value st2 k = None"
    by (simp add: local_value_def)
  moreover have "remote_view (sc_env c) contents vs (sy_server st) (vss_key k)
      = map_option Inr (local_value st k)"
    using synced_reachable_inv [OF svc assms(2)] assms(3,4,11) sync_invD(6)
    by (fastforce simp: tracked_def replicated_def remote_value_def)
  ultimately show ?thesis
    using items rv vss_key_not_fence by (cases "local_value st k") auto
qed

theorem recovery_from_vss_witness:
  "\<exists>n st2. restore_from_vss mem_ctx (mem_synced\<lparr>sy_server := sy_server mem_written\<rparr>) False = Some (Inr n, st2)
     \<and> local_value st2 funding_key = Some [7]"
proof -
  let ?st1 = "mem_synced\<lparr>sy_server := sy_server mem_written\<rparr>"
  let ?vs = "mem_vs\<lparr>vs_write_counter := 1\<rparr>"
  let ?st2 = "?st1\<lparr>sy_local := \<lparr>lk_rows = [(funding_key, [7])], lk_faults = []\<rparr>\<rparr>"
  have "vss_key funding_key \<noteq> FENCE_KEY" by (rule vss_key_not_fence)
  then have r: "restore_from_vss mem_ctx ?st1 False = Some (Inr 1, ?st2)"
    using parse_vss_key_vss_key [of funding_key] funding_key_client(1)
    by (simp add: restore_from_vss_def check_bulk_sync_def local_read_def restore_download_def
        download_all_def download_loop.simps mem_env_def mem_keys_def mem_get_def next_token_def
        mem_written_def mem_synced_def mem_vs_def decrypt_value_def HEADER_LEN_def SALT_LEN_def
        NONCE_LEN_def Let_def local_write_def local_exec_healthy exec_stmt.simps)
  have m: "sy_remote mem_written = Some ?vs" by (simp add: mem_written_def)
  have w: "with_vss (sc_names mem_ctx) \<lparr>lk_rows = [], lk_faults = []\<rparr> mem_vs (sy_server mem_written)
      = Inr ?st1"
    by (simp add: with_vss_def with_vss_capacity_inner_def local_list_def mem_synced_def
        PENDING_QUEUE_CAP_def)
  have k: "x = vss_key k"
    if "mem_contents (sy_server mem_written) (vs_store_id ?vs) x \<noteq> None" "parse_vss_key x = Some k" for x k
    using that parse_vss_key_vss_key [of funding_key] funding_key_client(1)
    by (auto simp: mem_contents_def mem_written_def split: if_splits)
  have l: "vss_listing (sc_env mem_ctx) mem_contents (\<lambda>s sid pre tok. mem_keys s sid pre) (\<lambda>_ _ _ _. 0)"
    using mem_ls.vss_listing_axioms by simp
  have "local_value ?st2 funding_key = local_value mem_written funding_key"
    by (rule recovery_from_vss [OF l mem_reachable(2) m _ k _ _ refl w r funding_key_client(1)])
      (simp_all add: mem_written_values mem_vs_def)
  then show ?thesis
    using r by (auto simp: mem_written_values)
qed


section \<open>Refilling a wiped VSS store\<close>

context vss_service
begin

lemma push_rows_safe:
  "sc_env c = env \<Longrightarrow> sy_remote st = Some vs \<Longrightarrow> push_rows c vs st keys n rows = (r, st') \<Longrightarrow>
   sy_local st' = sy_local st
   \<and> (\<forall>x. x \<in> set keys \<or> x = FENCE_KEY \<longrightarrow>
        contents (sy_server st') (vs_store_id vs) x = contents (sy_server st) (vs_store_id vs) x)
   \<and> (\<forall>x. contents (sy_server st) (vs_store_id vs) x \<noteq> None \<longrightarrow>
        contents (sy_server st') (vs_store_id vs) x \<noteq> None)
   \<and> (\<not> isl r \<longrightarrow> list_all (\<lambda>(k, v). is_local_only (sc_names c) k \<or> vss_key k \<in> set keys
        \<or> contents (sy_server st') (vs_store_id vs) (vss_key k) \<noteq> None) rows)"
proof (induction rows arbitrary: vs st n)
  case (Cons e rows)
  obtain k v where e: "e = (k, v)" by fastforce
  show ?case
  proof (cases "is_local_only (sc_names c) k \<or> vss_key k \<in> set keys")
    case True
    then have "push_rows c vs st keys n rows = (r, st')"
      using Cons.prems(3) by (auto simp: e)
    from Cons.IH [OF Cons.prems(1,2) this] True show ?thesis
      by (auto simp: e)
  next
    case False
    obtain q st1 where ra: "remote_apply c vs st k (Some v) = (q, st1)" by fastforce
    let ?vs = "vs\<lparr>vs_write_counter := vs_write_counter vs + 1\<rparr>"
    obtain s1 where s1: "st1 = st\<lparr>sy_remote := Some ?vs, sy_server := s1\<rparr>"
      "remote_effect vs (sy_server st) (vss_key k) (Some v) q s1"
      using remote_apply_effect [OF Cons.prems(1) ra] by blast
    have eff: "y \<noteq> vss_key k \<Longrightarrow>
        contents s1 (vs_store_id vs) y = contents (sy_server st) (vs_store_id vs) y" for y
      using s1(2) by (simp add: remote_effect_def)
    have pres: "contents (sy_server st) (vs_store_id vs) y \<noteq> None \<Longrightarrow>
        contents s1 (vs_store_id vs) y \<noteq> None" for y
      using s1(2) eff by (cases "y = vss_key k") (auto simp: remote_effect_def remote_view_def)
    have keep: "y \<in> set keys \<or> y = FENCE_KEY \<Longrightarrow>
        contents s1 (vs_store_id vs) y = contents (sy_server st) (vs_store_id vs) y" for y
      using eff [of y] False vss_key_not_fence [of k] by auto
    show ?thesis
    proof (cases q)
      case (Inl f)
      then have "r = Inl f" "st' = st1"
        using Cons.prems(3) False ra by (simp_all add: e)
      then show ?thesis
        using keep pres by (auto simp: s1(1))
    next
      case (Inr u)
      then have new: "contents s1 (vs_store_id vs) (vss_key k) \<noteq> None"
        using s1(2) by (auto simp: remote_effect_def remote_view_def)
      have "push_rows c ?vs st1 keys (n + 1) rows = (r, st')"
        using Cons.prems(3) False ra Inr by (simp add: e s1(1))
      from Cons.IH [OF Cons.prems(1) _ this] show ?thesis
        using keep pres new by (auto simp: s1(1) e)
    qed
  qed
qed simp

end

context vss_listing
begin

lemma list_all_keys_ends:
  "\<exists>r s'. list_all_keys env vs s = Some (r, s') \<and> contents s' = contents s
     \<and> (\<forall>ks. r = Inr ks \<longrightarrow> set ks = {x. contents s (vs_store_id vs) x \<noteq> None \<and> x \<noteq> FENCE_KEY})"
proof -
  obtain r s' where l: "list_all_keys env vs s = Some (r, s')" "contents s' = contents s"
    "\<And>ks. r = Inr ks \<Longrightarrow> ks = List.map_filter (\<lambda>k. if k = FENCE_KEY then None else Some k)
       (page_keys s (vs_store_id vs) None None)"
    using list_loop_ends [of "vs_store_id vs" None "\<lambda>k. if k = FENCE_KEY then None else Some k" s None "[]"]
    by (auto simp: list_all_keys_def)
  have "set (List.map_filter (\<lambda>k. if k = FENCE_KEY then None else Some k) ks) = {k \<in> set ks. k \<noteq> FENCE_KEY}"
    for ks by (auto simp: map_filter_def)
  with l page_all [of s "vs_store_id vs" None] show ?thesis by auto
qed

lemma push_missing_ends:
  assumes "sc_env c = env" "sy_remote st = Some vs" "\<not> sy_common_config_only st"
  shows "\<exists>r st'. push_missing_to_vss c st = Some (r, st')
    \<and> lk_rows (sy_local st') = lk_rows (sy_local st)
    \<and> (\<forall>x. contents (sy_server st) (vs_store_id vs) x \<noteq> None \<longrightarrow>
         contents (sy_server st') (vs_store_id vs) x = contents (sy_server st) (vs_store_id vs) x)
    \<and> (\<not> isl r \<longrightarrow> list_all (\<lambda>(k, v). is_local_only (sc_names c) k
         \<or> contents (sy_server st') (vs_store_id vs) (vss_key k) \<noteq> None) (lk_rows (sy_local st)))"
proof -
  obtain lr s where l: "list_all_keys env vs (sy_server st) = Some (lr, s)"
    "contents s = contents (sy_server st)"
    "\<And>ks. lr = Inr ks \<Longrightarrow>
      set ks = {x. contents (sy_server st) (vs_store_id vs) x \<noteq> None \<and> x \<noteq> FENCE_KEY}"
    using list_all_keys_ends [of vs "sy_server st"] by blast
  obtain dr db where d: "local_list_all (sy_local st) = (dr, db)" by fastforce
  have db: "lk_rows db = lk_rows (sy_local st)" "\<And>rows. dr = Inr rows \<Longrightarrow> rows = lk_rows (sy_local st)"
    using d by (auto simp: local_list_all_def split: prod.splits bool.splits)
  show ?thesis
  proof (cases "\<exists>ks rows. lr = Inr ks \<and> dr = Inr rows")
    case False
    then show ?thesis
      using assms l d db
      by (cases lr; cases dr) (auto simp: push_missing_to_vss_def check_bulk_sync_def)
  next
    case True
    then obtain ks where ks: "lr = Inr ks" "dr = Inr (lk_rows (sy_local st))" using db by auto
    let ?st = "st\<lparr>sy_local := db, sy_server := s\<rparr>"
    obtain r st' where p: "push_rows c vs ?st ks 0 (lk_rows (sy_local st)) = (r, st')" by fastforce
    have "push_missing_to_vss c st = Some (r, st')"
      using assms l(1) d ks p by (simp add: push_missing_to_vss_def check_bulk_sync_def)
    moreover have "sy_remote ?st = Some vs" using assms(2) by simp
    note safe = push_rows_safe [OF assms(1) this p]
    have "list_all (\<lambda>(k, v). is_local_only (sc_names c) k
         \<or> contents (sy_server st') (vs_store_id vs) (vss_key k) \<noteq> None) (lk_rows (sy_local st))"
      if "\<not> isl r"
    proof (rule list.pred_mono_strong)
      show "list_all (\<lambda>(k, v). is_local_only (sc_names c) k \<or> vss_key k \<in> set ks
          \<or> contents (sy_server st') (vs_store_id vs) (vss_key k) \<noteq> None) (lk_rows (sy_local st))"
        using safe that by blast
    qed (use safe l(2) l(3) [OF ks(1)] in auto)
    ultimately show ?thesis
      using safe l(2) l(3) [OF ks(1)] db(1) by auto
  qed
qed

end

text \<open>C13. A refill returns, keeps the local database, and never overwrites: every object that
  VSS held before keeps its version and bytes. When it succeeds, every local row that is meant to
  be replicated has an object on the server.\<close>

theorem push_missing_never_overwrites:
  assumes "vss_listing (sc_env c) contents page_keys rank"
    and "sy_remote st = Some vs" "\<not> sy_common_config_only st"
  shows "\<exists>r st'. push_missing_to_vss c st = Some (r, st')
    \<and> lk_rows (sy_local st') = lk_rows (sy_local st)
    \<and> (\<forall>x. contents (sy_server st) (vs_store_id vs) x \<noteq> None \<longrightarrow>
         contents (sy_server st') (vs_store_id vs) x = contents (sy_server st) (vs_store_id vs) x)
    \<and> (\<not> isl r \<longrightarrow> list_all (\<lambda>(k, v). is_local_only (sc_names c) k
         \<or> contents (sy_server st') (vs_store_id vs) (vss_key k) \<noteq> None) (lk_rows (sy_local st)))"
  by (rule vss_listing.push_missing_ends [OF assms(1) refl assms(2,3)])

theorem push_missing_never_overwrites_witness:
  "\<exists>r st'. push_missing_to_vss mem_ctx (mem_written\<lparr>sy_server := []\<rparr>) = Some (r, st')
     \<and> lk_rows (sy_local st') = [(funding_key, [7])]"
proof -
  have "vss_listing (sc_env mem_ctx) mem_contents (\<lambda>s sid pre tok. mem_keys s sid pre) (\<lambda>_ _ _ _. 0)"
    using mem_ls.vss_listing_axioms by simp
  from push_missing_never_overwrites [OF this, of "mem_written\<lparr>sy_server := []\<rparr>"
      "mem_vs\<lparr>vs_write_counter := 1\<rparr>"]
  show ?thesis by (auto simp: mem_written_def mem_synced_def)
qed

end
