(* ===== verification/Mainnet_Boundary.thy ===== *)
theory Mainnet_Boundary
  imports Synced_Bulk
begin

text \<open>
  The mainnet boundary: a store opened with \<open>common_config_only\<close> (\<open>src/synced_kv_store.rs\<close>,
  \<open>src/mainnet_state.rs\<close>) changes nothing but the six records of the wallet configuration, their
  replication intents and their objects on VSS, whatever it is asked to do, and at teardown releases
  the fence only when it holds it.
\<close>

section \<open>Frame\<close>

definition names_ok :: "kv_names \<Rightarrow> bool" where
  "names_ok nm \<longleftrightarrow>
     list_all (\<lambda>ns. ns \<noteq> [] \<and> ns \<noteq> ''_'' \<and> CHR ''/'' \<notin> set ns \<and> ns \<noteq> PENDING_NS)
       [nm_rgb_primary nm, nm_rgb_wallet_config nm]"

lemma common_config_canonical:
  assumes "names_ok nm" "is_common_config nm k"
  shows "client_key k" "is_common_remote_key nm (vss_key k)"
  using assms
  by (cases k; auto simp: names_ok_def canonical.simps COMMON_CONFIG_KEYS_def is_common_remote_key_def
      vss_key.simps vss_ns_def)+

lemma common_remote_key:
  assumes "names_ok nm" "is_common_remote_key nm x"
  obtains k where "is_common_config nm k" "x = vss_key k" "canonical k" "parse_vss_key x = Some k"
proof -
  obtain name where n: "name \<in> set COMMON_CONFIG_KEYS"
    "x = nm_rgb_primary nm @ ''/'' @ nm_rgb_wallet_config nm @ ''/'' @ name"
    using assms(2) by (auto simp: is_common_remote_key_def list_ex_iff)
  let ?k = "(nm_rgb_primary nm, nm_rgb_wallet_config nm, name)"
  have "is_common_config nm ?k" "x = vss_key ?k"
    using n assms(1) by (auto simp: names_ok_def vss_key.simps vss_ns_def)
  with common_config_canonical(1) [OF assms(1)] parse_vss_key_vss_key that show ?thesis by blast
qed

definition mainnet_ok :: "kv_names \<Rightarrow> 's synced_kv \<Rightarrow> bool" where
  "mainnet_ok nm st \<longleftrightarrow>
     sy_common_config_only st
     \<and> (\<forall>x. map_of (sy_pending st) x \<noteq> None \<longrightarrow> is_common_remote_key nm x)"

definition mainnet_key :: "kv_names \<Rightarrow> kv_key \<Rightarrow> bool" where
  "mainnet_key nm k \<longleftrightarrow>
     is_common_config nm k \<or> fst k = PENDING_NS \<and> is_common_remote_key nm (snd (snd k))"

text \<open>The fence object of the store's own VSS store, when it does not name another instance.\<close>

definition own_fence ::
  "('s \<Rightarrow> vss_contents) \<Rightarrow> 's synced_kv \<Rightarrow> string \<Rightarrow> string \<Rightarrow> bool" where
  "own_fence contents st sid x \<longleftrightarrow>
     (case sy_remote st of
        None \<Rightarrow> False
      | Some vs \<Rightarrow> sid = vs_store_id vs \<and> x = FENCE_KEY \<and> fence_ours contents vs (sy_server st))"

definition remote_ident :: "'s synced_kv \<Rightarrow> (string \<times> string) option" where
  "remote_ident st = map_option (\<lambda>vs. (vs_store_id vs, vs_instance_id vs)) (sy_remote st)"

definition mainnet_frame ::
  "kv_names \<Rightarrow> ('s \<Rightarrow> vss_contents) \<Rightarrow> 's synced_kv \<Rightarrow> 's synced_kv \<Rightarrow> bool" where
  "mainnet_frame nm contents st st' \<longleftrightarrow>
     mainnet_ok nm st'
     \<and> remote_ident st' = remote_ident st
     \<and> (\<forall>k. \<not> mainnet_key nm k \<longrightarrow> local_value st' k = local_value st k)
     \<and> (\<forall>sid x. map_option fst (remote_ident st) \<noteq> Some sid \<or> \<not> is_common_remote_key nm x \<longrightarrow>
          contents (sy_server st') sid x = contents (sy_server st) sid x
          \<or> own_fence contents st sid x \<and> contents (sy_server st') sid x = None)"

lemmas mainnet_frame_defs = mainnet_frame_def mainnet_ok_def remote_ident_def

lemma own_fence_cong:
  "remote_ident st' = remote_ident st \<Longrightarrow>
   contents (sy_server st') sid x = contents (sy_server st) sid x \<Longrightarrow>
   own_fence contents st' sid x = own_fence contents st sid x"
  by (auto simp: own_fence_def remote_ident_def fence_ours_def fence_owner_def split: option.splits)

lemma mainnet_frame_refl: "mainnet_ok nm st \<Longrightarrow> mainnet_frame nm contents st st"
  by (simp add: mainnet_frame_def)

lemma mainnet_frame_trans:
  "mainnet_frame nm contents a b \<Longrightarrow> mainnet_frame nm contents b c \<Longrightarrow> mainnet_frame nm contents a c"
  unfolding mainnet_frame_def using own_fence_cong [of b a contents] by metis

lemma mainnet_frame_ok: "mainnet_frame nm contents st st' \<Longrightarrow> mainnet_ok nm st'"
  by (simp add: mainnet_frame_def)

lemma mainnet_frame_poison:
  "mainnet_frame nm contents st st' \<Longrightarrow> mainnet_frame nm contents st (st'\<lparr>sy_gate_poisoned := True\<rparr>)"
  by (simp add: mainnet_frame_defs local_value_def)

lemma mainnet_frame_clear:
  assumes "mainnet_ok nm st" "is_common_remote_key nm x" "clear_pending_row st x = (r, st')"
  shows "mainnet_frame nm contents st st'"
  using assms(3)
proof (cases rule: clear_pending_row_cases)
  case fails
  then show ?thesis
    using assms(1) clear_pending_row_local(3) [OF assms(3)]
    by (auto simp: mainnet_frame_defs local_value_def)
next
  case clears
  have "local_value st' k = local_value st k" if "\<not> mainnet_key nm k" for k
    using that assms(2) by (auto simp: local_value_def clears mainnet_key_def)
  then show ?thesis
    using assms(1) clears clear_pending_row_local(3) [OF assms(3)]
    by (auto simp: mainnet_frame_defs delete_conv' split: if_splits)
qed

lemma mainnet_frame_commit:
  assumes "names_ok nm" "mainnet_ok nm st" "is_common_config nm k"
    and cm: "commit_with_intent st k value = (r, st')"
  shows "mainnet_frame nm contents st st'"
proof -
  have cco: "sy_common_config_only st' = sy_common_config_only st"
    using cm by (auto simp: commit_with_intent_def reserve_pending_def restore_pending_reservation_def
        Let_def split: if_splits prod.splits sum.splits option.splits)
  note common = common_config_canonical [OF assms(1,3)]
  show ?thesis
    using cm
  proof (cases rule: commit_with_intent_cases)
    case fails
    then show ?thesis
      using assms(2) cco by (simp add: mainnet_frame_defs local_value_def)
  next
    case commits
    have "local_value st' j = local_value st j" if "\<not> mainnet_key nm j" for j
      using that assms(3) common by (auto simp: local_value_def commits mainnet_key_def)
    then show ?thesis
      using assms(2) cco commits common(2)
      by (simp add: mainnet_frame_defs update_conv')
  qed
qed

context vss_service
begin

lemma mainnet_frame_remote:
  assumes "sc_env c = env" "sy_remote st = Some vs" "mainnet_ok nm st" "is_common_remote_key nm (vss_key k)"
    and ra: "remote_apply c vs st k value = (r, st')"
  shows "mainnet_frame nm contents st st'"
proof -
  obtain s' where s': "st' = st\<lparr>sy_remote := Some (vs\<lparr>vs_write_counter := vs_write_counter vs + 1\<rparr>),
        sy_server := s'\<rparr>" "remote_effect vs (sy_server st) (vss_key k) value r s'"
    using remote_apply_effect [OF assms(1) ra] by blast
  have "contents s' sid x = contents (sy_server st) sid x"
    if "sid \<noteq> vs_store_id vs \<or> \<not> is_common_remote_key nm x" for sid x
    using s'(2) that assms(4) unfolding remote_effect_def by metis
  then show ?thesis
    using assms(2,3) by (auto simp: s'(1) mainnet_frame_defs local_value_def)
qed

lemma mainnet_frame_loop:
  "sc_env c = env \<Longrightarrow> names_ok nm \<Longrightarrow> sy_remote st = Some vs \<Longrightarrow> mainnet_ok nm st \<Longrightarrow>
   drain_loop c vs st snapshot = (r, st') \<Longrightarrow> mainnet_frame nm contents st st'"
proof (induction snapshot arbitrary: vs st)
  case Nil
  then show ?case by (simp add: mainnet_frame_refl)
next
  case (Cons e snapshot)
  obtain x v where e: "e = (x, v)" by fastforce
  note c = Cons.prems(1-4)
  show ?case
  proof (cases "map_of (sy_pending st) x = Some v")
    case False
    with Cons show ?thesis by (simp add: e)
  next
    case True
    then have cx: "is_common_remote_key nm x"
      using c(4) by (simp add: mainnet_ok_def)
    then obtain k where k: "x = vss_key k" "parse_vss_key x = Some k"
      using common_remote_key [OF c(2)] by metis
    obtain q st1 where ra: "remote_apply c vs st k v = (q, st1)" by fastforce
    obtain q2 st2 where cl: "clear_pending_row st1 x = (q2, st2)" by fastforce
    note f1 = mainnet_frame_remote [OF c(1,3,4) cx [unfolded k(1)] ra]
    note f2 = mainnet_frame_trans [OF f1 mainnet_frame_clear [OF mainnet_frame_ok [OF f1] cx cl]]
    obtain vs2 where vs2: "sy_remote st2 = Some vs2"
      using clear_pending_row_frame(5) [OF cl] remote_apply_frame(5) [OF c(1,3) ra] by simp
    show ?thesis
    proof (cases "isl q \<or> isl q2")
      case True
      then show ?thesis
        using Cons.prems(5) \<open>map_of (sy_pending st) x = Some v\<close> k(2) ra cl f1 f2 mainnet_frame_poison [OF f1]
        by (auto simp: e split: sum.splits if_splits)
    next
      case False
      then have "drain_loop c vs2 st2 snapshot = (r, st')"
        using Cons.prems(5) True k(2) ra cl vs2 by (auto simp: e split: sum.splits)
      from Cons.IH [OF c(1,2) vs2 mainnet_frame_ok [OF f2] this] show ?thesis
        using mainnet_frame_trans [OF f2] by blast
    qed
  qed
qed

lemma mainnet_frame_drain:
  assumes "sc_env c = env" "names_ok nm" "mainnet_ok nm st" "drain_pending c st = (r, st')"
  shows "mainnet_frame nm contents st st'"
  using assms mainnet_frame_refl [OF assms(3)] mainnet_frame_loop [OF assms(1,2) _ assms(3)]
  by (auto simp: drain_pending_def drain_locked_def split: option.splits if_splits)

lemma mainnet_frame_mutation:
  assumes c: "sc_env c = env" "names_ok nm" "sy_remote st = Some vs" "mainnet_ok nm st" "is_common_config nm k"
    and m: "synced_mutation c vs st k value = (r, st')"
  shows "mainnet_frame nm contents st st'"
proof -
  note common = common_config_canonical [OF c(2,5)]
  obtain q st1 where cm: "commit_with_intent st k value = (q, st1)" by fastforce
  note f1 = mainnet_frame_commit [OF c(2,4,5) cm]
  have vs1: "sy_remote st1 = Some vs"
    using commit_with_intent_frame(1) [OF cm] c(3) by simp
  obtain q2 st2 where ra: "remote_apply c vs st1 k value = (q2, st2)" by fastforce
  note f2 = mainnet_frame_remote [OF c(1) vs1 mainnet_frame_ok [OF f1] common(2) ra]
  obtain q3 st3 where cl: "clear_pending_row st2 (vss_key k) = (q3, st3)" by fastforce
  note f3 = mainnet_frame_clear [OF mainnet_frame_ok [OF f2] common(2) cl]
  obtain q4 st4 where dr: "drain_pending c st3 = (q4, st4)" by fastforce
  note f4 = mainnet_frame_drain [OF c(1,2) mainnet_frame_ok [OF f3] dr]
  have "st' \<in> {st, st1, st2, st2\<lparr>sy_gate_poisoned := True\<rparr>, st3, st4}"
    using m cm ra cl dr
    by (auto simp: synced_mutation_def replicate_mutation_def
        split: if_splits sum.splits option.splits prod.splits)
  then show ?thesis
    using mainnet_frame_refl [OF c(4)] f1 mainnet_frame_trans [OF f1 f2]
      mainnet_frame_poison [OF mainnet_frame_trans [OF f1 f2]]
      mainnet_frame_trans [OF mainnet_frame_trans [OF f1 f2] f3]
      mainnet_frame_trans [OF mainnet_frame_trans [OF mainnet_frame_trans [OF f1 f2] f3] f4]
    by blast
qed

lemma mainnet_frame_flush:
  "sc_env c = env \<Longrightarrow> names_ok nm \<Longrightarrow> mainnet_ok nm st \<Longrightarrow>
   flush_pending_until c deadline n st = (r, st') \<Longrightarrow> mainnet_frame nm contents st st'"
proof (induction c deadline n st rule: flush_pending_until.induct)
  case (1 c deadline n st)
  obtain q st1 where d: "drain_pending c st = (q, st1)" by fastforce
  note dr = mainnet_frame_drain [OF "1.prems"(1-3) d]
  show ?case
  proof (cases "pending_remote_writes st = 0 \<or> deadline n \<or> isl q
      \<or> pending_remote_writes st \<le> pending_remote_writes st1")
    case True
    then show ?thesis
      using "1.prems"(4) d dr mainnet_frame_refl [OF "1.prems"(3)]
      by (subst (asm) flush_pending_until.simps) (auto simp: Let_def split: sum.splits if_splits)
  next
    case False
    then obtain u where q: "q = Inr u" by (cases q) auto
    have "flush_pending_until c deadline (Suc n) st1 = (r, st')"
      using "1.prems"(4) False d q
      by (subst (asm) flush_pending_until.simps) (simp add: Let_def)
    from "1.IH" [OF refl _ d [symmetric] q _ "1.prems"(1,2) mainnet_frame_ok [OF dr] this] False
    show ?thesis
      using mainnet_frame_trans [OF dr] by blast
  qed
qed

lemma delete_fence_object_effect:
  assumes "delete_object env vs s FENCE_KEY ver = (r, s')"
  shows "contents s' sid x = contents s sid x
    \<or> sid = vs_store_id vs \<and> x = FENCE_KEY \<and> contents s' sid x = None"
proof -
  let ?req = "delete_request vs FENCE_KEY ver"
  have "s' = snd (ve_put_object env s ?req)"
    using assms by (cases "ve_put_object env s ?req") (auto simp: delete_object_def split: sum.splits if_splits)
  with put_outcome [of s ?req]
  have "contents s' = contents s \<or> put_applied ?req (contents s) (contents s')" by auto
  then show ?thesis
    by (cases "sid = vs_store_id vs \<and> x = FENCE_KEY") (auto simp: put_applied_def delete_request_def)
qed

lemma release_fence_effect:
  assumes "release_fence_if_owned env vs s = (r, s')"
  shows "contents s' sid x = contents s sid x
    \<or> sid = vs_store_id vs \<and> x = FENCE_KEY \<and> fence_ours contents vs s \<and> contents s' sid x = None"
proof -
  obtain g s1 where g: "ve_get_object env s (vs_store_id vs) FENCE_KEY = (g, s1)"
    by (cases "ve_get_object env s (vs_store_id vs) FENCE_KEY")
  then have s1: "contents s1 = contents s"
    using get_contents [of s "vs_store_id vs" FENCE_KEY] by simp
  show ?thesis
  proof (cases "\<exists>kv. g = Inr (Some kv) \<and> remote_id kv = vs_instance_id vs")
    case True
    then obtain kv where kv: "g = Inr (Some kv)" "remote_id kv = vs_instance_id vs" by blast
    have "fence_ours contents vs s"
      using get_Some [of s "vs_store_id vs" FENCE_KEY kv] g kv
      by (simp add: fence_ours_def fence_owner_def remote_id_def)
    moreover have "delete_object env vs s1 FENCE_KEY (kv_version kv) = (r, s')"
      using assms g kv by (simp add: release_fence_if_owned_def)
    ultimately show ?thesis
      using delete_fence_object_effect [of vs s1 "kv_version kv" r s' sid x] s1 by auto
  next
    case False
    then have "s' = s1"
      using assms g by (auto simp: release_fence_if_owned_def split: sum.splits option.splits if_splits)
    with s1 show ?thesis by simp
  qed
qed

lemma mainnet_frame_release:
  assumes "sc_env c = env" "mainnet_ok nm st" "release_vss_fence_if_owned c st = (r, st')"
  shows "mainnet_frame nm contents st st'"
proof (cases "sy_remote st")
  case None
  with assms(3) have "st' = st" by (simp add: release_vss_fence_if_owned_def)
  with assms(2) show ?thesis by (simp add: mainnet_frame_refl)
next
  case (Some vs)
  obtain s' where s': "release_fence_if_owned env vs (sy_server st) = (r, s')" "st' = st\<lparr>sy_server := s'\<rparr>"
    using assms(1,3) Some by (auto simp: release_vss_fence_if_owned_def split: prod.splits)
  show ?thesis
    using assms(2) release_fence_effect [OF s'(1)] Some
    by (auto simp: s'(2) mainnet_frame_defs local_value_def own_fence_def)
qed

end

lemma mainnet_frame_local:
  assumes "mainnet_ok nm st" "is_common_config nm k"
    and "local_exec (sy_local st) stmt = (r, db)" "stmt \<in> {Upsert k v, DeleteMany k}"
  shows "mainnet_frame nm contents st (st\<lparr>sy_local := db\<rparr>)"
proof -
  have other: "map_of (lk_rows db) j = map_of (lk_rows (sy_local st)) j" if "j \<noteq> k" for j
    using local_exec_outcome [of "sy_local st" stmt] assms(3,4) that by auto
  have "local_value (st\<lparr>sy_local := db\<rparr>) j = local_value st j" if "\<not> mainnet_key nm j" for j
  proof -
    from that assms(2) have "j \<noteq> k" by (auto simp: mainnet_key_def)
    from other [OF this] show ?thesis by (simp add: local_value_def)
  qed
  then show ?thesis
    using assms(1) unfolding mainnet_frame_defs by simp
qed


section \<open>The boundary\<close>

text \<open>Everything a store can be asked to do.\<close>

inductive store_call :: "'s synced_ctx \<Rightarrow> 's synced_kv \<Rightarrow> 's synced_kv \<Rightarrow> bool" for c where
  call_write: "write_with_durability c st k buf = (r, st') \<Longrightarrow> store_call c st st'"
| call_remove: "synced_remove c st k = (r, st') \<Longrightarrow> store_call c st st'"
| call_write_local: "write_local_only (sc_names c) st k buf = (r, st') \<Longrightarrow> store_call c st st'"
| call_remove_local: "remove_local_only (sc_names c) st k = (r, st') \<Longrightarrow> store_call c st st'"
| call_drain: "drain_pending c st = (r, st') \<Longrightarrow> store_call c st st'"
| call_flush: "flush_pending_until c deadline n st = (r, st') \<Longrightarrow> store_call c st st'"
| call_restore: "restore_from_vss c st force = Some (r, st') \<Longrightarrow> store_call c st st'"
| call_push: "push_missing_to_vss c st = Some (r, st') \<Longrightarrow> store_call c st st'"
| call_read: "synced_read st k = (r, st') \<Longrightarrow> store_call c st st'"
| call_list: "synced_list st primary secondary = (r, st') \<Longrightarrow> store_call c st st'"
| call_stop: "store_call c st (stop st)"
| call_release: "release_vss_fence_if_owned c st = (r, st') \<Longrightarrow> store_call c st st'"

lemma store_call_frame:
  assumes "store_call c st st'" "vss_service (sc_env c) contents" "names_ok (sc_names c)"
    and "mainnet_ok (sc_names c) st"
  shows "mainnet_frame (sc_names c) contents st st'"
  using assms
proof (induction rule: store_call.induct)
  case (call_write st k buf r st')
  then show ?case
    using vss_service.mainnet_frame_mutation [OF call_write.prems(1) refl call_write.prems(2)]
      mainnet_frame_local [of "sc_names c" st k "Upsert k buf" _ _ buf contents]
      mainnet_frame_refl [of "sc_names c" st contents]
    by (auto simp: write_with_durability_def check_mutation_def mainnet_ok_def local_write_def
        split: if_splits option.splits prod.splits)
next
  case (call_remove st k r st')
  then show ?case
    using vss_service.mainnet_frame_mutation [OF call_remove.prems(1) refl call_remove.prems(2)]
      mainnet_frame_local [of "sc_names c" st k "DeleteMany k" _ _ "[]" contents]
      mainnet_frame_refl [of "sc_names c" st contents]
    by (auto simp: synced_remove_def check_mutation_def mainnet_ok_def local_remove_def
        split: if_splits option.splits prod.splits)
next
  case (call_write_local st k buf r st')
  then show ?case
    using mainnet_frame_local [of "sc_names c" st k "Upsert k buf" _ _ buf contents]
      mainnet_frame_refl [of "sc_names c" st contents]
    by (auto simp: write_local_only_def check_mutation_def mainnet_ok_def local_write_def
        split: if_splits prod.splits)
next
  case (call_remove_local st k r st')
  then show ?case
    using mainnet_frame_local [of "sc_names c" st k "DeleteMany k" _ _ "[]" contents]
      mainnet_frame_refl [of "sc_names c" st contents]
    by (auto simp: remove_local_only_def check_mutation_def mainnet_ok_def local_remove_def
        split: if_splits prod.splits)
next
  case (call_drain st r st')
  then show ?case using vss_service.mainnet_frame_drain by blast
next
  case (call_flush deadline n st r st')
  then show ?case using vss_service.mainnet_frame_flush by blast
next
  case (call_restore st force r st')
  then show ?case
    by (auto simp: restore_from_vss_def check_bulk_sync_def mainnet_frame_defs)
next
  case (call_push st r st')
  then show ?case
    by (auto simp: push_missing_to_vss_def check_bulk_sync_def mainnet_frame_defs)
next
  case (call_read st k r st')
  then show ?case
    using local_read_rows [of "sy_local st" k]
    by (auto simp: synced_read_def mainnet_frame_defs local_value_def split: prod.splits)
next
  case (call_list st primary secondary r st')
  then show ?case
    using local_list_rows [of "sy_local st" primary secondary]
    by (auto simp: synced_list_def mainnet_frame_defs local_value_def split: prod.splits)
next
  case (call_release st r st')
  then show ?case using vss_service.mainnet_frame_release by blast
next
  case (call_stop st)
  then show ?case
    by (simp add: stop_def mainnet_frame_defs local_value_def)
qed

definition reload_frame ::
  "kv_names \<Rightarrow> local_kv \<Rightarrow> local_kv \<Rightarrow> (string \<times> bytes option) list \<Rightarrow> bool" where
  "reload_frame nm db db' pending \<longleftrightarrow>
     (\<forall>x. map_of pending x \<noteq> None \<longrightarrow> is_common_remote_key nm x)
     \<and> (\<forall>k. \<not> mainnet_key nm k \<longrightarrow> map_of (lk_rows db') k = map_of (lk_rows db) k)"

lemma reload_frame_update:
  "reload_frame nm db db' pending \<Longrightarrow> is_common_remote_key nm x \<Longrightarrow>
   reload_frame nm db db' (AList.update x v pending)"
  unfolding reload_frame_def by (simp add: update_conv')

lemma reload_frame_read:
  "reload_frame nm db db' pending \<Longrightarrow> local_read db' k = (r, db'') \<Longrightarrow> reload_frame nm db db'' pending"
  using local_read_rows [of db' k] unfolding reload_frame_def by simp

lemma reload_frame_remove:
  assumes "reload_frame nm db db' pending" "is_common_remote_key nm x"
  shows "reload_frame nm db (snd (local_remove db' (pending_key x))) pending"
proof -
  have "map_of (lk_rows (snd (local_remove db' (pending_key x)))) k = map_of (lk_rows db') k"
    if "\<not> mainnet_key nm k" for k
  proof -
    from that assms(2) have "k \<noteq> pending_key x"
      by (cases k) (auto simp: mainnet_key_def)
    then show ?thesis
      using local_remove_outcome [of db' "pending_key x"] by (elim disjE conjE) simp_all
  qed
  then show ?thesis
    using assms(1) unfolding reload_frame_def by simp
qed

lemma reload_pending_common:
  "reload_pending nm True db' pending keys = (db'', pending') \<Longrightarrow>
   reload_frame nm db db' pending \<Longrightarrow> reload_frame nm db db'' pending'"
proof (induction keys arbitrary: db' pending)
  case (Cons x keys)
  obtain r db1 where rd: "local_read db' (pending_key x) = (r, db1)" by fastforce
  note f = reload_frame_read [OF Cons.prems(2) rd]
  show ?case
  proof (cases "is_common_remote_key nm x")
    case False
    with Cons show ?thesis by simp
  next
    case True
    with rd Cons.IH [OF _ f] Cons.IH [OF _ reload_frame_remove [OF f True]]
      Cons.IH [OF _ reload_frame_update [OF f True]] Cons.prems(1)
    show ?thesis
      by (simp split: sum.splits list.splits if_splits)
  qed
qed simp

lemma common_config_store_ok:
  assumes "with_vss_common_config_only nm db vs s = Inr st"
  shows "mainnet_ok nm st" "\<not> mainnet_key nm k \<Longrightarrow> local_value st k = map_of (lk_rows db) k"
proof -
  obtain r db1 where l: "local_list db PENDING_NS [] = (r, db1)" by fastforce
  then have f: "reload_frame nm db db1 []"
    by (auto simp: reload_frame_def local_list_def split: prod.splits bool.splits)
  have "reload_frame nm db (sy_local st) (sy_pending st) \<and> sy_common_config_only st"
  proof (cases r)
    case (Inl e)
    with assms l f show ?thesis
      by (auto simp: with_vss_common_config_only_def with_vss_capacity_inner_def split: if_splits)
  next
    case (Inr keys)
    obtain db2 p2 where rl: "reload_pending nm True db1 [] keys = (db2, p2)" by fastforce
    from reload_pending_common [OF rl f] assms l Inr rl show ?thesis
      by (auto simp: with_vss_common_config_only_def with_vss_capacity_inner_def split: if_splits)
  qed
  then show "mainnet_ok nm st" "\<not> mainnet_key nm k \<Longrightarrow> local_value st k = map_of (lk_rows db) k"
    unfolding reload_frame_def mainnet_ok_def local_value_def by blast+
qed

text \<open>C3. On mainnet the historical Lightning state is inert. A store opened for the common
  configuration only, over whatever database and VSS store, may be asked to do anything in any
  order, the teardown included: no local record outside the six configuration records and their
  intents changes, and no object on VSS outside the six configuration objects changes, except that
  the fence may be deleted when it does not name another instance.\<close>

theorem mainnet_state_inert:
  assumes "vss_service (sc_env c) contents" "names_ok (sc_names c)"
    and "with_vss_common_config_only (sc_names c) db vs s = Inr st"
    and "(store_call c)\<^sup>*\<^sup>* st st'"
  shows "(\<forall>k. \<not> mainnet_key (sc_names c) k \<longrightarrow> local_value st' k = map_of (lk_rows db) k)
    \<and> (\<forall>sid x. sid \<noteq> vs_store_id vs \<or> \<not> is_common_remote_key (sc_names c) x \<longrightarrow>
         contents (sy_server st') sid x = contents s sid x
         \<or> sid = vs_store_id vs \<and> x = FENCE_KEY \<and> fence_ours contents vs s
           \<and> contents (sy_server st') sid x = None)"
proof -
  have "mainnet_frame (sc_names c) contents st st'"
    using assms(4)
  proof (induction rule: rtranclp_induct)
    case base
    show ?case using common_config_store_ok(1) [OF assms(3)] by (rule mainnet_frame_refl)
  next
    case (step y z)
    from store_call_frame [OF step.hyps(2) assms(1,2) mainnet_frame_ok [OF step.IH]] step.IH
    show ?case using mainnet_frame_trans by blast
  qed
  moreover have "sy_remote st = Some vs" "sy_server st = s"
    using with_vss_reload [of "sc_names c" db vs s PENDING_QUEUE_CAP True st] assms(3)
    by (simp_all add: with_vss_common_config_only_def)
  moreover note common_config_store_ok(2) [OF assms(3)]
  ultimately show ?thesis
    unfolding mainnet_frame_def by (auto simp: remote_ident_def own_fence_def)
qed

theorem mainnet_state_inert_witness:
  "let st = mem_synced\<lparr>sy_common_config_only := True\<rparr>
   in with_vss_common_config_only (sc_names mem_ctx) \<lparr>lk_rows = [], lk_faults = []\<rparr> mem_vs [] = Inr st
      \<and> local_value (snd (write_with_durability mem_ctx st funding_key [7])) funding_key = None"
proof -
  let ?st = "mem_synced\<lparr>sy_common_config_only := True\<rparr>"
  have w: "with_vss_common_config_only (sc_names mem_ctx) \<lparr>lk_rows = [], lk_faults = []\<rparr> mem_vs [] = Inr ?st"
    by (simp add: with_vss_common_config_only_def with_vss_capacity_inner_def local_list_def
        mem_synced_def PENDING_QUEUE_CAP_def)
  have n: "names_ok (sc_names mem_ctx)"
    by (simp add: names_ok_def mem_ctx_def PENDING_NS_def)
  have "store_call mem_ctx ?st (snd (write_with_durability mem_ctx ?st funding_key [7]))"
    by (rule call_write [of _ _ funding_key "[7]" "fst (write_with_durability mem_ctx ?st funding_key [7])"])
      simp
  then have s: "(store_call mem_ctx)\<^sup>*\<^sup>* ?st (snd (write_with_durability mem_ctx ?st funding_key [7]))"
    by simp
  have "\<not> mainnet_key (sc_names mem_ctx) funding_key"
    by (simp add: mainnet_key_def mem_ctx_def RGB_SENDER_FUNDING_NAMESPACE_def PENDING_NS_def)
  moreover have "vss_service (sc_env mem_ctx) mem_contents"
    using mem.vss_service_axioms by simp
  ultimately have "local_value (snd (write_with_durability mem_ctx ?st funding_key [7])) funding_key
      = map_of (lk_rows \<lparr>lk_rows = [], lk_faults = []\<rparr>) funding_key"
    using mainnet_state_inert [OF _ n w s] by blast
  then show ?thesis
    using w by (simp add: Let_def)
qed

end
