(* ===== verification/Remote_First_Kv.thy ===== *)
theory Remote_First_Kv
  imports Synced_Bulk
begin

text \<open>
  The remote-first store and the router of the background processor, \<open>src/async_kv_store.rs\<close>.
  Operations on one key are serialised by its lock, so each operation is one step. The retry loop
  ends only if the outage does or the node stops: it is partial, and \<open>None\<close> is a loop that never
  ends. Its \<open>select!\<close> between the sleep and the shutdown signal is the parameter \<open>wait\<close>: whether
  the shutdown wins at the given attempt and delay. The shutdown signal is a \<open>tokio\<close> watch channel
  of which the store keeps the sender only: \<open>send\<close> fails and stores nothing while no receiver is
  alive.
\<close>

section \<open>Retrying an outage\<close>

text \<open>Delays are in milliseconds.\<close>

definition RETRY_INITIAL_DELAY :: nat where
  "RETRY_INITIAL_DELAY = 500"

definition RETRY_MAX_DELAY :: nat where
  "RETRY_MAX_DELAY = 10 * 1000"

partial_function (option) retry_loop ::
  "(nat \<Rightarrow> nat \<Rightarrow> bool) \<Rightarrow> ('s \<Rightarrow> (failure + unit) \<times> 's) \<Rightarrow> nat \<Rightarrow> nat \<Rightarrow> 's
     \<Rightarrow> ((failure + unit) \<times> 's) option" where
  "retry_loop wait op delay attempts s =
     (case op s of
        (Inr _, s) \<Rightarrow> Some (Inr (), s)
      | (Inl e, s) \<Rightarrow>
          (if is_transient_io_error e then
             (let attempts = Suc attempts
              in if wait attempts delay then Some (Inl e, s)
                 else retry_loop wait op (min (delay * 2) RETRY_MAX_DELAY) attempts s)
           else Some (Inl e, s)))"

definition retry_transient ::
  "(nat \<Rightarrow> nat \<Rightarrow> bool) \<Rightarrow> ('s \<Rightarrow> (failure + unit) \<times> 's) \<Rightarrow> 's \<Rightarrow> ((failure + unit) \<times> 's) option" where
  "retry_transient wait op s = retry_loop wait op RETRY_INITIAL_DELAY 0 s"


section \<open>The store\<close>

record 's remote_first =
  rf_local :: local_kv
  rf_remote :: "vss_kv_store option"
  rf_server :: 's
  rf_shutdown :: bool
  rf_receivers :: nat

text \<open>\<open>rf_shutdown\<close> is the value of the watch channel and \<open>rf_receivers\<close> the number of its live
  receivers. \<open>new\<close> drops the first one; every write and removal subscribes one when it is called
  and drops it when it ends.\<close>

definition rf_new :: "local_kv \<Rightarrow> vss_kv_store option \<Rightarrow> 's \<Rightarrow> 's remote_first" where
  "rf_new db remote s = \<lparr>rf_local = db, rf_remote = remote, rf_server = s, rf_shutdown = False,
     rf_receivers = 0\<rparr>"

definition rf_stop :: "'s remote_first \<Rightarrow> 's remote_first" where
  "rf_stop st = (if rf_receivers st = 0 then st else st\<lparr>rf_shutdown := True\<rparr>)"

definition rf_subscribe :: "'s remote_first \<Rightarrow> 's remote_first" where
  "rf_subscribe st = st\<lparr>rf_receivers := Suc (rf_receivers st)\<rparr>"

definition rf_unsubscribe :: "'s remote_first \<Rightarrow> 's remote_first" where
  "rf_unsubscribe st = st\<lparr>rf_receivers := rf_receivers st - 1\<rparr>"

definition remote_reachable :: "'s vss_env \<Rightarrow> 's remote_first \<Rightarrow> bool \<times> 's remote_first" where
  "remote_reachable env st =
     (case rf_remote st of
        None \<Rightarrow> (True, st)
      | Some vs \<Rightarrow>
          (case read_async env vs (rf_server st) ([], [], ''vss_health_probe'') of
             (Inr _, s) \<Rightarrow> (True, st\<lparr>rf_server := s\<rparr>)
           | (Inl e, s) \<Rightarrow> (e = Io NotFound, st\<lparr>rf_server := s\<rparr>)))"

definition rf_read ::
  "'s vss_env \<Rightarrow> 's remote_first \<Rightarrow> kv_key \<Rightarrow> (failure + bytes) \<times> 's remote_first" where
  "rf_read env st k =
     (case local_read (rf_local st) k of
        (Inr value, db) \<Rightarrow> (Inr value, st\<lparr>rf_local := db\<rparr>)
      | (Inl e, db) \<Rightarrow>
          (let st = st\<lparr>rf_local := db\<rparr>
           in if e = Io NotFound then
                (case rf_remote st of
                   Some vs \<Rightarrow>
                     (case read_async env vs (rf_server st) k of (r, s) \<Rightarrow> (r, st\<lparr>rf_server := s\<rparr>))
                 | None \<Rightarrow> (Inl e, st))
              else (Inl e, st)))"

text \<open>A shutdown that was already signalled wins every select. The state names the receivers of the
  other mutations in flight: the one the mutation itself subscribes is dropped by its end.\<close>

definition rf_write ::
  "'s vss_env \<Rightarrow> (nat \<Rightarrow> nat \<Rightarrow> bool) \<Rightarrow> 's remote_first \<Rightarrow> kv_key \<Rightarrow> bytes
     \<Rightarrow> ((failure + unit) \<times> 's remote_first) option" where
  "rf_write env wait st k buf =
     (case rf_remote st of
        Some vs \<Rightarrow>
          (case retry_transient (\<lambda>n d. rf_shutdown st \<or> wait n d)
                  (\<lambda>s. write_async env vs s k buf) (rf_server st) of
             None \<Rightarrow> None
           | Some (Inl e, s) \<Rightarrow> Some (Inl e, st\<lparr>rf_server := s\<rparr>)
           | Some (Inr _, s) \<Rightarrow>
               (case local_write (rf_local st) k buf of
                  (_, db) \<Rightarrow> Some (Inr (), st\<lparr>rf_server := s, rf_local := db\<rparr>)))
      | None \<Rightarrow>
          (case local_write (rf_local st) k buf of
             (r, db) \<Rightarrow> Some (r, st\<lparr>rf_local := db\<rparr>)))"

definition rf_remove ::
  "'s vss_env \<Rightarrow> (nat \<Rightarrow> nat \<Rightarrow> bool) \<Rightarrow> 's remote_first \<Rightarrow> kv_key
     \<Rightarrow> ((failure + unit) \<times> 's remote_first) option" where
  "rf_remove env wait st k =
     (case rf_remote st of
        Some vs \<Rightarrow>
          (case retry_transient (\<lambda>n d. rf_shutdown st \<or> wait n d)
                  (\<lambda>s. remove_async env vs s k) (rf_server st) of
             None \<Rightarrow> None
           | Some (Inl e, s) \<Rightarrow> Some (Inl e, st\<lparr>rf_server := s\<rparr>)
           | Some (Inr _, s) \<Rightarrow>
               (case local_remove (rf_local st) k of
                  (_, db) \<Rightarrow> Some (Inr (), st\<lparr>rf_server := s, rf_local := db\<rparr>)))
      | None \<Rightarrow>
          (case local_remove (rf_local st) k of
             (r, db) \<Rightarrow> Some (r, st\<lparr>rf_local := db\<rparr>)))"

definition rf_list ::
  "'s remote_first \<Rightarrow> string \<Rightarrow> string \<Rightarrow> (failure + string list) \<times> 's remote_first" where
  "rf_list st p q = (case local_list (rf_local st) p q of (r, db) \<Rightarrow> (r, st\<lparr>rf_local := db\<rparr>))"


section \<open>The router\<close>

text \<open>The three stores of the router share the database and the VSS store; the shutdown channel is
  the remote-first store's own.\<close>

record 's bp_router =
  bp_rest :: "'s synced_kv"
  bp_shutdown :: bool
  bp_receivers :: nat

definition bp_remote_first :: "'s bp_router \<Rightarrow> 's remote_first" where
  "bp_remote_first r =
     \<lparr>rf_local = sy_local (bp_rest r), rf_remote = sy_remote (bp_rest r),
      rf_server = sy_server (bp_rest r), rf_shutdown = bp_shutdown r,
      rf_receivers = bp_receivers r\<rparr>"

definition bp_put_back :: "'s bp_router \<Rightarrow> 's remote_first \<Rightarrow> 's bp_router" where
  "bp_put_back r f =
     \<lparr>bp_rest = (bp_rest r)\<lparr>sy_local := rf_local f, sy_server := rf_server f\<rparr>,
      bp_shutdown = rf_shutdown f, bp_receivers = rf_receivers f\<rparr>"

definition bp_new :: "'s synced_kv \<Rightarrow> 's bp_router" where
  "bp_new st = \<lparr>bp_rest = st, bp_shutdown = False, bp_receivers = 0\<rparr>"

text \<open>What is done to the remote-first store of the node.\<close>

definition bp_monitors :: "('s remote_first \<Rightarrow> 's remote_first) \<Rightarrow> 's bp_router \<Rightarrow> 's bp_router" where
  "bp_monitors f r = bp_put_back r (f (bp_remote_first r))"

definition bp_read ::
  "'s synced_ctx \<Rightarrow> 's bp_router \<Rightarrow> kv_key \<Rightarrow> (failure + bytes) \<times> 's bp_router" where
  "bp_read c r k =
     (case bp_route (sc_names c) k of
        RemoteFirst \<Rightarrow>
          (case rf_read (sc_env c) (bp_remote_first r) k of (v, f) \<Rightarrow> (v, bp_put_back r f))
      | LocalOnly \<Rightarrow>
          (case local_read (sy_local (bp_rest r)) k of
             (v, db) \<Rightarrow> (v, r\<lparr>bp_rest := (bp_rest r)\<lparr>sy_local := db\<rparr>\<rparr>))
      | Rest \<Rightarrow> (case synced_read (bp_rest r) k of (v, st) \<Rightarrow> (v, r\<lparr>bp_rest := st\<rparr>)))"

definition bp_write ::
  "'s synced_ctx \<Rightarrow> (nat \<Rightarrow> nat \<Rightarrow> bool) \<Rightarrow> 's bp_router \<Rightarrow> kv_key \<Rightarrow> bytes
     \<Rightarrow> ((failure + unit) \<times> 's bp_router) option" where
  "bp_write c wait r k buf =
     (case bp_route (sc_names c) k of
        RemoteFirst \<Rightarrow>
          map_option (\<lambda>(v, f). (v, bp_put_back r f))
            (rf_write (sc_env c) wait (bp_remote_first r) k buf)
      | LocalOnly \<Rightarrow>
          (case local_write (sy_local (bp_rest r)) k buf of
             (v, db) \<Rightarrow> Some (v, r\<lparr>bp_rest := (bp_rest r)\<lparr>sy_local := db\<rparr>\<rparr>))
      | Rest \<Rightarrow>
          (case write_with_durability c (bp_rest r) k buf of (v, st) \<Rightarrow> Some (v, r\<lparr>bp_rest := st\<rparr>)))"

definition bp_remove ::
  "'s synced_ctx \<Rightarrow> (nat \<Rightarrow> nat \<Rightarrow> bool) \<Rightarrow> 's bp_router \<Rightarrow> kv_key
     \<Rightarrow> ((failure + unit) \<times> 's bp_router) option" where
  "bp_remove c wait r k =
     (case bp_route (sc_names c) k of
        RemoteFirst \<Rightarrow>
          map_option (\<lambda>(v, f). (v, bp_put_back r f))
            (rf_remove (sc_env c) wait (bp_remote_first r) k)
      | LocalOnly \<Rightarrow>
          (case local_remove (sy_local (bp_rest r)) k of
             (v, db) \<Rightarrow> Some (v, r\<lparr>bp_rest := (bp_rest r)\<lparr>sy_local := db\<rparr>\<rparr>))
      | Rest \<Rightarrow>
          (case synced_remove c (bp_rest r) k of (v, st) \<Rightarrow> Some (v, r\<lparr>bp_rest := st\<rparr>)))"

definition bp_list ::
  "'s bp_router \<Rightarrow> string \<Rightarrow> string \<Rightarrow> (failure + string list) \<times> 's bp_router" where
  "bp_list r p q =
     (case local_list (sy_local (bp_rest r)) p q of
        (v, db) \<Rightarrow> (v, r\<lparr>bp_rest := (bp_rest r)\<lparr>sy_local := db\<rparr>\<rparr>))"


section \<open>The retry loop\<close>

text \<open>The state after \<open>n\<close> attempts.\<close>

fun after_attempts :: "('s \<Rightarrow> (failure + unit) \<times> 's) \<Rightarrow> nat \<Rightarrow> 's \<Rightarrow> 's" where
  "after_attempts op 0 s = s"
| "after_attempts op (Suc n) s = after_attempts op n (snd (op s))"

definition outage :: "('s \<Rightarrow> (failure + unit) \<times> 's) \<Rightarrow> nat \<Rightarrow> 's \<Rightarrow> bool" where
  "outage op n s \<longleftrightarrow> (\<forall>i<n. fst (op (after_attempts op i s)) = Inl (Io TimedOut))"

fun retry_delay :: "nat \<Rightarrow> nat" where
  "retry_delay 0 = RETRY_INITIAL_DELAY"
| "retry_delay (Suc n) = min (retry_delay n * 2) RETRY_MAX_DELAY"

lemma retry_delay_closed: "retry_delay n = min (500 * 2 ^ n) 10000"
  by (induction n) (auto simp: RETRY_INITIAL_DELAY_def RETRY_MAX_DELAY_def)

lemma outage_Suc:
  "outage op (Suc n) s \<longleftrightarrow> fst (op s) = Inl (Io TimedOut) \<and> outage op n (snd (op s))"
  unfolding outage_def using less_Suc_eq_0_disj by auto

lemma retry_loop_outage:
  assumes "outage op n s" "\<forall>i<n. \<not> wait (Suc (m + i)) (retry_delay (m + i))"
  shows "retry_loop wait op (retry_delay m) m s =
    retry_loop wait op (retry_delay (m + n)) (m + n) (after_attempts op n s)"
  using assms
proof (induction n arbitrary: m s)
  case (Suc n)
  obtain s' where o: "op s = (Inl (Io TimedOut), s')" "outage op n s'"
    using Suc.prems(1) unfolding outage_Suc by (metis prod.collapse)
  have "\<not> wait (Suc m) (retry_delay m)"
    using Suc.prems(2) by force
  then have "retry_loop wait op (retry_delay m) m s = retry_loop wait op (retry_delay (Suc m)) (Suc m) s'"
    by (subst retry_loop.simps) (simp add: o is_transient_io_error_def)
  also have "\<dots> = retry_loop wait op (retry_delay (Suc m + n)) (Suc m + n) (after_attempts op n s')"
    using Suc.prems(2) by (intro Suc.IH [OF o(2)]) fastforce
  finally show ?case by (simp add: o(1))
qed simp

lemma retry_transient_outage:
  assumes "outage op n s" "\<forall>i<n. \<not> wait (Suc i) (retry_delay i)"
  shows "retry_transient wait op s = retry_loop wait op (retry_delay n) n (after_attempts op n s)"
  using retry_loop_outage [of op n s wait 0] assms by (simp add: retry_transient_def)

lemma after_attempts_Suc: "after_attempts op (Suc n) s = snd (op (after_attempts op n s))"
  by (induction n arbitrary: s) auto

text \<open>The loop returns what its last attempt returned, after a transient failure at every attempt
  before; it returns a transient failure only when the node stops.\<close>

lemma retry_loop_sound:
  assumes "retry_loop wait op delay m s = Some y" "delay = retry_delay m"
  shows "\<exists>i. outage op i s \<and> y = op (after_attempts op i s)
    \<and> (fst y = Inl (Io TimedOut) \<longrightarrow> wait (Suc (m + i)) (retry_delay (m + i)))"
  using assms
proof (induction rule: retry_loop.raw_induct [rotated, consumes 1, case_names step])
  case (step retry wait op delay m s y)
  obtain q s1 where o: "op s = (q, s1)" by fastforce
  show ?case
  proof (cases "q = Inl (Io TimedOut) \<and> \<not> wait (Suc m) delay")
    case True
    then have "retry wait op (retry_delay (Suc m)) (Suc m) s1 = Some y"
      using step.hyps step.prems o by (simp add: is_transient_io_error_def Let_def)
    from step.IH [OF this refl] obtain i where i: "outage op i s1" "y = op (after_attempts op i s1)"
      "fst y = Inl (Io TimedOut) \<longrightarrow> wait (Suc (Suc m + i)) (retry_delay (Suc m + i))" by blast
    then show ?thesis
      using True o by (intro exI [of _ "Suc i"]) (simp add: outage_Suc)
  next
    case False
    then have "y = op s"
      using step.hyps step.prems o
      by (auto simp: is_transient_io_error_def Let_def split: sum.splits if_splits)
    then show ?thesis
      using False o step.prems by (intro exI [of _ 0]) (auto simp: outage_def)
  qed
qed

text \<open>The loop fails to return exactly when the outage never ends and the node never stops.\<close>

lemma retry_transient_None:
  "retry_transient wait op s = None \<longleftrightarrow>
   (\<forall>n. fst (op (after_attempts op n s)) = Inl (Io TimedOut) \<and> \<not> wait (Suc n) (retry_delay n))"
  (is "_ \<longleftrightarrow> (\<forall>n. ?on n)")
proof
  show "\<forall>n. ?on n" if none: "retry_transient wait op s = None"
  proof (rule ccontr)
    assume "\<not> (\<forall>n. ?on n)"
    then obtain n where n: "\<not> ?on n" "\<forall>i<n. ?on i"
      using exists_least_iff [of "\<lambda>n. \<not> ?on n"] by blast
    then have "retry_loop wait op (retry_delay n) n (after_attempts op n s) = None"
      using retry_transient_outage [of op n s wait] none by (simp add: outage_def)
    then show False
      using n(1) by (subst (asm) retry_loop.simps)
        (auto simp: is_transient_io_error_def Let_def split: prod.splits sum.splits if_splits)
  qed
  show "retry_transient wait op s = None" if on: "\<forall>n. ?on n"
  proof (rule ccontr)
    assume "retry_transient wait op s \<noteq> None"
    then obtain y where "retry_loop wait op RETRY_INITIAL_DELAY 0 s = Some y"
      by (auto simp: retry_transient_def)
    from retry_loop_sound [OF this] obtain i where
      "y = op (after_attempts op i s)" "fst y = Inl (Io TimedOut) \<longrightarrow> wait (Suc i) (retry_delay i)"
      by auto
    with on show False by simp
  qed
qed

lemma retry_transient_rel:
  assumes "retry_transient wait op s = Some (r, s')"
    and op: "\<And>s r s'. op s = (r, s') \<Longrightarrow> R s r s'"
    and comp: "\<And>s e s1 r s2. R s (Inl e) s1 \<Longrightarrow> R s1 r s2 \<Longrightarrow> R s r s2"
  shows "R s r s'"
proof -
  obtain i where i: "outage op i s" "(r, s') = op (after_attempts op i s)"
    using retry_loop_sound [of wait op RETRY_INITIAL_DELAY 0 s "(r, s')"] assms(1)
    by (auto simp: retry_transient_def)
  then show ?thesis
  proof (induction i arbitrary: s)
    case 0
    then show ?case using op [of s r s'] by simp
  next
    case (Suc i)
    obtain s1 where s1: "op s = (Inl (Io TimedOut), s1)" "outage op i s1"
      using Suc.prems(1) unfolding outage_Suc by (metis prod.collapse)
    have "R s1 r s'" using Suc.IH [OF s1(2)] Suc.prems(2) s1(1) by simp
    with comp [OF op [OF s1(1)]] show ?case .
  qed
qed


section \<open>What reaches VSS\<close>

context vss_service
begin

lemma remote_effect_trans:
  "remote_effect vs s x value (Inl e) s1 \<Longrightarrow> remote_effect vs s1 x value r s2 \<Longrightarrow>
   remote_effect vs s x value r s2"
  by (auto simp: remote_effect_def remote_view_def)

lemma write_async_effect:
  assumes "write_async env vs s k v = (r, s')"
  shows "remote_effect vs s (vss_key k) (Some v) r s'"
proof -
  obtain e s2 where en: "encrypt_value env vs s v = (e, s2)" by fastforce
  note ec = encrypt_value_contents [OF en]
  show ?thesis
  proof (cases e)
    case (Inl f)
    then show ?thesis using assms ec by (auto simp: write_async_def en remote_effect_def)
  next
    case (Inr stored)
    obtain pr s3 where p: "ve_put_object env s2 (put_request vs (vss_key k) stored) = (pr, s3)"
      by fastforce
    have d: "decrypt_value env vs stored = Inr v"
      using decrypt_encrypt_value en Inr by blast
    from put_object_effect [OF d ec p, of vss_err_to_io] show ?thesis
      using assms Inr by (auto simp: write_async_def en p split: sum.splits)
  qed
qed

lemma remove_async_effect:
  assumes "remove_async env vs s k = (r, s')"
  shows "remote_effect vs s (vss_key k) None r s'"
proof -
  let ?req = "delete_request vs (vss_key k) (- 1)"
  obtain pr where p: "ve_put_object env s ?req = (pr, s')"
    using assms by (auto simp: remove_async_def split: prod.splits sum.splits)
  have "put_applied ?req (contents s) (contents s') \<Longrightarrow>
    (\<forall>sid y. sid \<noteq> vs_store_id vs \<or> y \<noteq> vss_key k \<longrightarrow> contents s' sid y = contents s sid y)
     \<and> remote_view env contents vs s' (vss_key k) = None"
    by (auto simp: put_applied_def delete_request_def remote_view_def)
  then show ?thesis
    using put_outcome [of s ?req] p assms
    by (auto simp: remove_async_def remote_effect_def split: sum.splits)
qed

end

text \<open>A write or a removal, as one mutation.\<close>

definition rf_mutate ::
  "'s vss_env \<Rightarrow> (nat \<Rightarrow> nat \<Rightarrow> bool) \<Rightarrow> 's remote_first \<Rightarrow> kv_key \<Rightarrow> bytes option
     \<Rightarrow> ((failure + unit) \<times> 's remote_first) option" where
  "rf_mutate env wait st k value =
     (case value of Some buf \<Rightarrow> rf_write env wait st k buf | None \<Rightarrow> rf_remove env wait st k)"

lemma local_mutation_rows:
  "map_of (lk_rows (snd (case value of
       Some buf \<Rightarrow> local_write db k buf | None \<Rightarrow> local_remove db k)))
   \<in> {map_of (lk_rows db), (map_of (lk_rows db))(k := value)}"
proof (cases "value")
  case None
  then show ?thesis using local_remove_outcome [of db k] by auto
next
  case (Some buf)
  then show ?thesis using local_write_outcome [of db k buf] by auto
qed

context vss_service
begin

lemma rf_mutate_effect:
  assumes m: "rf_mutate env wait st k value = Some (r, st')" and vs: "rf_remote st = Some vs"
  shows "remote_effect vs (rf_server st) (vss_key k) value r (rf_server st')"
    and "rf_remote st' = rf_remote st" "rf_shutdown st' = rf_shutdown st"
    and "r \<noteq> Inr () \<Longrightarrow> rf_local st' = rf_local st"
    and "map_of (lk_rows (rf_local st')) = map_of (lk_rows (rf_local st))
      \<or> r = Inr () \<and> map_of (lk_rows (rf_local st')) = (map_of (lk_rows (rf_local st)))(k := value)"
proof -
  let ?w = "\<lambda>n d. rf_shutdown st \<or> wait n d"
  let ?op = "\<lambda>s. case value of Some buf \<Rightarrow> write_async env vs s k buf | None \<Rightarrow> remove_async env vs s k"
  obtain q s where rt: "retry_transient ?w ?op (rf_server st) = Some (q, s)"
    "st' = (case q of Inl _ \<Rightarrow> st\<lparr>rf_server := s\<rparr>
       | Inr _ \<Rightarrow> st\<lparr>rf_server := s, rf_local := snd (case value of
           Some buf \<Rightarrow> local_write (rf_local st) k buf | None \<Rightarrow> local_remove (rf_local st) k)\<rparr>)"
    "r = q"
    using m vs
    by (auto simp: rf_mutate_def rf_write_def rf_remove_def split: option.splits sum.splits prod.splits)
  have op: "\<And>s r s'. ?op s = (r, s') \<Longrightarrow> remote_effect vs s (vss_key k) value r s'"
    using write_async_effect remove_async_effect by (cases "value") auto
  have "remote_effect vs (rf_server st) (vss_key k) value q s"
    using retry_transient_rel [OF rt(1), of "\<lambda>s r s'. remote_effect vs s (vss_key k) value r s'"] op
      remote_effect_trans by blast
  then show "remote_effect vs (rf_server st) (vss_key k) value r (rf_server st')"
    using rt(2,3) by (cases q) simp_all
  show "rf_remote st' = rf_remote st" "rf_shutdown st' = rf_shutdown st"
    "r \<noteq> Inr () \<Longrightarrow> rf_local st' = rf_local st"
    using rt(2,3) by (cases q; simp)+
  show "map_of (lk_rows (rf_local st')) = map_of (lk_rows (rf_local st))
      \<or> r = Inr () \<and> map_of (lk_rows (rf_local st')) = (map_of (lk_rows (rf_local st)))(k := value)"
    using rt(2,3) local_mutation_rows [of "rf_local st" k "value"] by (cases q) auto
qed

end


text \<open>When a mutation returns.\<close>

lemma rf_mutate_None:
  assumes "rf_remote st = Some vs"
    and "op = (\<lambda>s. case value of Some buf \<Rightarrow> write_async env vs s k buf | None \<Rightarrow> remove_async env vs s k)"
  shows "rf_mutate env wait st k value = None \<longleftrightarrow>
    \<not> rf_shutdown st \<and> (\<forall>n. outage op n (rf_server st) \<and> \<not> wait (Suc n) (min (500 * 2 ^ n) 10000))"
proof -
  have "rf_mutate env wait st k value = None \<longleftrightarrow>
      retry_transient (\<lambda>n d. rf_shutdown st \<or> wait n d) op (rf_server st) = None"
    using assms
    by (cases "value") (auto simp: rf_mutate_def rf_write_def rf_remove_def
        split: option.splits prod.splits sum.splits)
  moreover have "(\<forall>n. fst (op (after_attempts op n s)) = Inl (Io TimedOut)) \<longleftrightarrow> (\<forall>n. outage op n s)" for s
    unfolding outage_def by auto
  ultimately show ?thesis
    unfolding retry_transient_None retry_delay_closed by auto
qed

lemma rf_mutate_shutdown:
  assumes "rf_remote st = Some vs" "rf_shutdown st"
    and "op = (\<lambda>s. case value of Some buf \<Rightarrow> write_async env vs s k buf | None \<Rightarrow> remove_async env vs s k)"
  shows "\<exists>r st'. rf_mutate env wait st k value = Some (r, st') \<and> (r, rf_server st') = op (rf_server st)"
proof -
  obtain r s' where o: "op (rf_server st) = (r, s')" by (cases "op (rf_server st)")
  then have "retry_transient (\<lambda>n d. True) op (rf_server st) = Some (r, s')"
    unfolding retry_transient_def by (subst retry_loop.simps) (auto split: sum.split)
  with o show ?thesis
    using assms
    by (cases "value"; cases r) (auto simp: rf_mutate_def rf_write_def rf_remove_def
        split: option.splits prod.splits sum.splits)
qed


section \<open>The node's stores together\<close>

text \<open>The life of the router: the operations of the background processor, and everything that
  happens to the replicated store beside it.\<close>

definition route_names_ok :: "kv_names \<Rightarrow> bool" where
  "route_names_ok nm \<longleftrightarrow>
     list_all client_key [nm_channel_manager nm, nm_output_sweeper nm, nm_network_graph nm, nm_scorer nm]"

abbreviation rest_keys :: "kv_names \<Rightarrow> kv_key set" where
  "rest_keys nm \<equiv> {k. client_key k \<and> bp_route nm k = Rest}"

inductive router_step ::
  "'s synced_ctx \<Rightarrow> ('s \<Rightarrow> vss_contents) \<Rightarrow> 's bp_router \<Rightarrow> 's bp_router \<Rightarrow> bool" for c contents where
  router_write: "client_key k \<Longrightarrow> bp_write c wait r k buf = Some (v, r') \<Longrightarrow> router_step c contents r r'"
| router_remove: "client_key k \<Longrightarrow> bp_remove c wait r k = Some (v, r') \<Longrightarrow> router_step c contents r r'"
| router_read: "bp_read c r k = (v, r') \<Longrightarrow> router_step c contents r r'"
| router_list: "bp_list r p q = (v, r') \<Longrightarrow> router_step c contents r r'"
| router_stop: "router_step c contents r (bp_monitors rf_stop r)"
| router_call: "router_step c contents r (bp_monitors rf_subscribe r)"
| router_return: "router_step c contents r (bp_monitors rf_unsubscribe r)"
| router_rest: "sync_step c contents (rest_keys (sc_names c)) (bp_rest r) st \<Longrightarrow>
    router_step c contents r (r\<lparr>bp_rest := st\<rparr>)"

lemma bp_monitors_rest [simp]:
  "bp_rest (bp_monitors rf_stop r) = bp_rest r" "bp_rest (bp_monitors rf_subscribe r) = bp_rest r"
  "bp_rest (bp_monitors rf_unsubscribe r) = bp_rest r"
  by (simp_all add: bp_monitors_def bp_put_back_def bp_remote_first_def rf_stop_def rf_subscribe_def
      rf_unsubscribe_def)

lemma sync_inv_other:
  assumes inv: "sync_inv c contents T st" and k: "client_key k" "k \<notin> T"
    and local: "\<And>j. j \<noteq> k \<Longrightarrow> map_of (lk_rows (sy_local st')) j = map_of (lk_rows (sy_local st)) j"
    and pend: "sy_pending st' = sy_pending st" and rem: "sy_remote st' = sy_remote st"
    and cont: "\<And>sid y. y \<noteq> vss_key k \<Longrightarrow> contents (sy_server st') sid y = contents (sy_server st) sid y"
  shows "sync_inv c contents T st'"
proof -
  have rows: "pending_row st' x = pending_row st x" for x
    unfolding pending_row_def using k(1) by (intro local) auto
  have tr: "tracked c contents st' j" if j: "j \<in> T" for j
  proof -
    have "j \<noteq> k" "vss_key j \<noteq> vss_key k"
      using k j vss_key_inj sync_invD(4) [OF inv j] by blast+
    then have "local_value st' j = local_value st j"
      "remote_value c contents st' j = remote_value c contents st j"
      using local cont rem by (simp_all add: local_value_def remote_value_def remote_view_def split: option.split)
    with rows sync_invD(6) [OF inv j] show ?thesis
      by (auto simp: tracked_def replicated_def split: option.splits)
  qed
  show ?thesis
    unfolding sync_inv_def pend
  proof (intro conjI allI impI ballI)
    show "distinct (map fst (sy_pending st))" using sync_invD(1) [OF inv] .
    show "Option.bind (pending_row st' x) decode_pending_row = Some v"
      if "map_of (sy_pending st) x = Some v" for x v
      using sync_invD(2) [OF inv that] rows by simp
    show "\<exists>k. canonical k \<and> x = vss_key k" if "pending_row st' x \<noteq> None" for x
      using sync_invD(3) [OF inv] that rows by simp
    fix j assume j: "j \<in> T"
    show "canonical j" "fst j \<noteq> PENDING_NS" "tracked c contents st' j"
      using sync_invD(4,5) [OF inv j] tr [OF j] by auto
  qed
qed

context vss_service
begin

lemma router_mutate_inv:
  assumes "sc_env c = env" "sy_remote (bp_rest r) \<noteq> None" "client_key k"
    and inv: "sync_inv c contents (rest_keys (sc_names c)) (bp_rest r)"
    and m: "(case value of Some buf \<Rightarrow> bp_write c wait r k buf | None \<Rightarrow> bp_remove c wait r k) = Some (v, r')"
  shows "sync_inv c contents (rest_keys (sc_names c)) (bp_rest r') \<and> sy_remote (bp_rest r') \<noteq> None"
proof (cases "bp_route (sc_names c) k")
  case RemoteFirst
  obtain vs where vs: "sy_remote (bp_rest r) = Some vs" using assms(2) by auto
  obtain f where f: "rf_mutate env wait (bp_remote_first r) k value = Some (v, f)" "r' = bp_put_back r f"
    using m RemoteFirst assms(1)
    by (auto simp: bp_write_def bp_remove_def rf_mutate_def split: option.splits)
  have "rf_remote (bp_remote_first r) = Some vs" using vs by (simp add: bp_remote_first_def)
  note e = rf_mutate_effect [OF f(1) this]
  have "map_of (lk_rows (rf_local f)) j = map_of (lk_rows (sy_local (bp_rest r))) j" if "j \<noteq> k" for j
    using e(5) that by (auto simp: bp_remote_first_def)
  moreover have "contents (rf_server f) sid y = contents (sy_server (bp_rest r)) sid y"
    if "y \<noteq> vss_key k" for sid y
    using e(1) that by (auto simp: remote_effect_def bp_remote_first_def)
  ultimately have "sync_inv c contents (rest_keys (sc_names c)) (bp_rest r')"
    using RemoteFirst by (intro sync_inv_other [OF inv assms(3)]) (simp_all add: f(2) bp_put_back_def)
  then show ?thesis
    using assms(2) by (simp add: f(2) bp_put_back_def)
next
  case LocalOnly
  let ?m = "case value of Some buf \<Rightarrow> local_write (sy_local (bp_rest r)) k buf
    | None \<Rightarrow> local_remove (sy_local (bp_rest r)) k"
  have r': "bp_rest r' = (bp_rest r)\<lparr>sy_local := snd ?m\<rparr>"
    using m LocalOnly by (auto simp: bp_write_def bp_remove_def split: option.splits prod.splits)
  have "map_of (lk_rows (snd ?m)) j = map_of (lk_rows (sy_local (bp_rest r))) j" if "j \<noteq> k" for j
    using local_mutation_rows [of "sy_local (bp_rest r)" k "value"] that by auto
  then have "sync_inv c contents (rest_keys (sc_names c)) (bp_rest r')"
    using LocalOnly by (intro sync_inv_other [OF inv assms(3)]) (simp_all add: r')
  then show ?thesis
    using assms(2) by (simp add: r')
next
  case Rest
  then show ?thesis
    using m write_inv [OF assms(1,2) inv, of k] assms(3)
    by (auto simp: bp_write_def bp_remove_def split: option.splits prod.splits)
qed

lemma read_async_contents: "contents (snd (read_async env vs s k)) = contents s"
  using get_contents [of s "vs_store_id vs" "vss_key k"]
  by (auto simp: read_async_def split: prod.splits sum.splits option.splits)

lemma rf_read_frame:
  assumes "rf_read env st k = (v, f)"
  shows "contents (rf_server f) = contents (rf_server st)" "lk_rows (rf_local f) = lk_rows (rf_local st)"
proof -
  obtain q db where l: "local_read (rf_local st) k = (q, db)" by fastforce
  then have rows: "lk_rows db = lk_rows (rf_local st)"
    using local_read_rows [of "rf_local st" k] by simp
  obtain u s where a: "\<And>vs. rf_remote st = Some vs \<Longrightarrow> read_async env vs (rf_server st) k = (u, s)"
    by (cases "rf_remote st") fastforce+
  have "rf_remote st = Some vs \<Longrightarrow> contents s = contents (rf_server st)" for vs
    using read_async_contents [of vs "rf_server st" k] a [of vs] by simp
  then show "contents (rf_server f) = contents (rf_server st)" "lk_rows (rf_local f) = lk_rows (rf_local st)"
    using assms l rows a
    by (auto simp: rf_read_def Let_def split: sum.splits if_splits option.splits)
qed

lemma router_step_inv:
  assumes "router_step c contents r r'" "sc_env c = env" "sy_remote (bp_rest r) \<noteq> None"
    and "sync_inv c contents (rest_keys (sc_names c)) (bp_rest r)"
  shows "sync_inv c contents (rest_keys (sc_names c)) (bp_rest r') \<and> sy_remote (bp_rest r') \<noteq> None"
  using assms
proof (induction rule: router_step.induct)
  case (router_write k wait r buf v r')
  then show ?case using router_mutate_inv [of c r k wait "Some buf"] by simp
next
  case (router_remove k wait r v r')
  then show ?case using router_mutate_inv [of c r k wait None] by simp
next
  case (router_read r k v r')
  have "contents (sy_server (bp_rest r')) = contents (sy_server (bp_rest r))
    \<and> lk_rows (sy_local (bp_rest r')) = lk_rows (sy_local (bp_rest r))
    \<and> sy_pending (bp_rest r') = sy_pending (bp_rest r) \<and> sy_remote (bp_rest r') = sy_remote (bp_rest r)"
  proof (cases "bp_route (sc_names c) k")
    case RemoteFirst
    obtain f where f: "rf_read env (bp_remote_first r) k = (v, f)" "r' = bp_put_back r f"
      using router_read.hyps RemoteFirst router_read.prems(1) by (auto simp: bp_read_def split: prod.splits)
    from rf_read_frame [OF f(1)] show ?thesis
      by (simp add: f(2) bp_put_back_def bp_remote_first_def)
  next
    case LocalOnly
    then show ?thesis
      using router_read.hyps local_read_rows [of "sy_local (bp_rest r)" k]
      by (auto simp: bp_read_def split: prod.splits)
  next
    case Rest
    then show ?thesis
      using router_read.hyps local_read_rows [of "sy_local (bp_rest r)" k]
      by (auto simp: bp_read_def synced_read_def split: prod.splits)
  qed
  then show ?case
    using sync_inv_cong [OF router_read.prems(3)] router_read.prems(2) by simp
next
  case (router_list r p q v r')
  then show ?case
    using sync_inv_cong [of c contents "rest_keys (sc_names c)" "bp_rest r" "bp_rest r'"]
    by (auto simp: bp_list_def local_list_def split: prod.splits bool.splits)
next
  case (router_stop r)
  then show ?case by simp
next
  case (router_call r)
  then show ?case by simp
next
  case (router_return r)
  then show ?case by simp
next
  case (router_rest r st)
  from sync_step_inv [OF router_rest.hyps router_rest.prems] show ?case by simp
qed

end


section \<open>Properties\<close>

text \<open>C15. A remote-first mutation is durable before it is acknowledged, and the local copy never
  runs ahead of VSS. When it returns \<open>Ok\<close>, VSS holds the new value; when it fails, the local
  database is as before; a local record that changed is the mutation's own and VSS holds its new
  value; no other object of VSS changes, the fence included.\<close>

theorem remote_first_durable:
  assumes "vss_service env contents" "rf_remote st = Some vs"
    and "rf_mutate env wait st k value = Some (r, st')"
  shows "(r = Inr () \<longrightarrow> remote_view env contents vs (rf_server st') (vss_key k) = map_option Inr value)
    \<and> (r \<noteq> Inr () \<longrightarrow> rf_local st' = rf_local st)
    \<and> (\<forall>j. map_of (lk_rows (rf_local st')) j \<noteq> map_of (lk_rows (rf_local st)) j \<longrightarrow>
         j = k \<and> map_of (lk_rows (rf_local st')) j = value
         \<and> remote_view env contents vs (rf_server st') (vss_key k) = map_option Inr value)
    \<and> (\<forall>sid x. sid \<noteq> vs_store_id vs \<or> x \<noteq> vss_key k \<longrightarrow>
         contents (rf_server st') sid x = contents (rf_server st) sid x)"
proof -
  note e = vss_service.rf_mutate_effect [OF assms(1,3,2)]
  have "r = Inr () \<Longrightarrow> remote_view env contents vs (rf_server st') (vss_key k) = map_option Inr value"
    using e(1) by (simp add: vss_service.remote_effect_def [OF assms(1)])
  moreover have "j = k \<and> map_of (lk_rows (rf_local st')) j = value \<and> r = Inr ()"
    if "map_of (lk_rows (rf_local st')) j \<noteq> map_of (lk_rows (rf_local st)) j" for j
    using e(5) that by (auto split: if_splits)
  ultimately show ?thesis
    using e(1,4) unfolding vss_service.remote_effect_def [OF assms(1)] by metis
qed

definition mem_rf :: "mem_vss remote_first" where
  "mem_rf = rf_new \<lparr>lk_rows = [], lk_faults = []\<rparr> (Some mem_vs) []"

definition mem_stored :: bytes where
  "mem_stored = VSS_KV_FORMAT_VERSION # replicate SALT_LEN 0 @ replicate NONCE_LEN 0 @ [7]"

lemma mem_write_async:
  "write_async mem_env mem_vs [] ([], [], ''manager'') [7]
     = (Inr (), [((''s'', ''_/_/manager''), 0, mem_stored)])"
  by (simp add: write_async_def encrypt_value_def mem_env_def mem_put_def put_request_def mem_vs_def
      mem_version_def mem_store_def vss_key.simps vss_ns_def Let_def mem_stored_def)

lemma mem_rf_write:
  "rf_mutate mem_env (\<lambda>n d. False) mem_rf ([], [], ''manager'') (Some [7]) =
     Some (Inr (), mem_rf\<lparr>rf_server := [((''s'', ''_/_/manager''), 0, mem_stored)],
       rf_local := \<lparr>lk_rows = [(([], [], ''manager''), [7])], lk_faults = []\<rparr>\<rparr>)"
proof -
  have "retry_transient (\<lambda>n d. False) (\<lambda>s. write_async mem_env mem_vs s ([], [], ''manager'') [7]) []
      = Some (Inr (), [((''s'', ''_/_/manager''), 0, mem_stored)])"
    unfolding retry_transient_def by (subst retry_loop.simps) (simp add: mem_write_async)
  then show ?thesis
    by (simp add: rf_mutate_def rf_write_def mem_rf_def rf_new_def local_write_def local_exec_healthy
        exec_stmt.simps)
qed

theorem remote_first_durable_witness:
  "remote_view mem_env mem_contents mem_vs [((''s'', ''_/_/manager''), 0, mem_stored)] ''_/_/manager''
     = Some (Inr [7])"
proof -
  have "rf_remote mem_rf = Some mem_vs" by (simp add: mem_rf_def rf_new_def)
  from remote_first_durable [OF mem.vss_service_axioms this mem_rf_write] show ?thesis
    by (simp add: vss_key.simps vss_ns_def)
qed

text \<open>An outage never wedges a channel. However many attempts fail transiently, the write
  completes with \<open>Ok\<close> as soon as VSS accepts it, provided the node is not stopped meanwhile; the
  delays start at half a second, double, and never exceed ten seconds.\<close>

theorem outage_recovers:
  assumes "rf_remote st = Some vs" "op = (\<lambda>s. write_async env vs s k buf)"
    and "outage op n (rf_server st)" "fst (op (after_attempts op n (rf_server st))) = Inr ()"
    and "\<not> rf_shutdown st" "\<forall>i<n. \<not> wait (Suc i) (min (500 * 2 ^ i) 10000)"
  shows "\<exists>st'. rf_write env wait st k buf = Some (Inr (), st')
    \<and> rf_server st' = after_attempts op (Suc n) (rf_server st)"
proof -
  have d: "\<forall>i<n. \<not> (rf_shutdown st \<or> wait (Suc i) (retry_delay i))"
    using assms(5,6) unfolding retry_delay_closed by blast
  define s' where "s' = snd (op (after_attempts op n (rf_server st)))"
  then have s': "op (after_attempts op n (rf_server st)) = (Inr (), s')"
    using assms(4) by (simp add: prod_eq_iff)
  have "retry_loop (\<lambda>n d. rf_shutdown st \<or> wait n d) op (retry_delay n) n
      (after_attempts op n (rf_server st)) = Some (Inr (), s')"
    by (subst retry_loop.simps) (simp add: s')
  with retry_transient_outage [OF assms(3) d]
  have "retry_transient (\<lambda>n d. rf_shutdown st \<or> wait n d) op (rf_server st) = Some (Inr (), s')"
    by (rule trans)
  moreover have "s' = after_attempts op (Suc n) (rf_server st)"
    unfolding after_attempts_Suc by (simp add: s')
  ultimately show ?thesis
    unfolding assms(2) rf_write_def assms(1) by (auto split: prod.split)
qed

text \<open>A server that is down for the first puts.\<close>

definition flaky_env :: "(nat \<times> mem_vss) vss_env" where
  "flaky_env =
     \<lparr>ve_get_object = (\<lambda>(n, s) sid k. case ve_get_object mem_env s sid k of (r, s) \<Rightarrow> (r, (n, s))),
      ve_put_object = (\<lambda>(n, s) req. case n of
         Suc m \<Rightarrow> (Inl InternalServerError, (m, s))
       | 0 \<Rightarrow> (case ve_put_object mem_env s req of (r, s) \<Rightarrow> (r, (0, s)))),
      ve_list_key_versions = (\<lambda>(n, s) sid p t. case ve_list_key_versions mem_env s sid p t of (r, s) \<Rightarrow> (r, (n, s))),
      ve_completion = ve_completion mem_env,
      ve_random = (\<lambda>(n, s) m. case ve_random mem_env s m of (r, s) \<Rightarrow> (r, (n, s))),
      ve_encrypt = ve_encrypt mem_env, ve_decrypt = ve_decrypt mem_env\<rparr>"

lemma flaky_down:
  "write_async flaky_env mem_vs (Suc m, s) ([], [], ''manager'') [7] = (Inl (Io TimedOut), (m, s))"
  by (simp add: write_async_def encrypt_value_def flaky_env_def mem_env_def Let_def vss_err_to_io_def
      is_transient_vss_error_def)

definition mem_flaky :: "nat \<Rightarrow> (nat \<times> mem_vss) remote_first" where
  "mem_flaky n = rf_new \<lparr>lk_rows = [], lk_faults = []\<rparr> (Some mem_vs) (n, [])"

theorem outage_recovers_witness:
  "\<exists>st'. rf_write flaky_env (\<lambda>n d. False)
      (mem_flaky 2) ([], [], ''manager'') [7]
    = Some (Inr (), st') \<and> snd (rf_server st') = [((''s'', ''_/_/manager''), 0, mem_stored)]"
proof -
  let ?op = "\<lambda>s. write_async flaky_env mem_vs s ([], [], ''manager'') [7]"
  have down: "?op (Suc m, s) = (Inl (Io TimedOut), (m, s))" for m s
    by (rule flaky_down)
  have up: "?op (0, []) = (Inr (), (0, [((''s'', ''_/_/manager''), 0, mem_stored)]))"
    by (simp add: write_async_def encrypt_value_def flaky_env_def mem_env_def mem_put_def put_request_def
        mem_vs_def mem_version_def mem_store_def vss_key.simps vss_ns_def Let_def mem_stored_def)
  have two: "after_attempts ?op 2 (2, []) = (0, [])" "after_attempts ?op 3 (2, []) =
      (0, [((''s'', ''_/_/manager''), 0, mem_stored)])"
    by (simp_all add: numeral_2_eq_2 numeral_3_eq_3 down up)
  have "outage ?op 2 (2, [])"
    by (simp add: numeral_2_eq_2 outage_Suc down) (simp add: outage_def)
  then show ?thesis
    using outage_recovers [of "mem_flaky 2" mem_vs ?op
        flaky_env "([], [], ''manager'')" "[7]" 2 "\<lambda>n d. False"] two up
    by (auto simp: mem_flaky_def rf_new_def numeral_3_eq_3 numeral_2_eq_2 simp del: after_attempts.simps)
qed

text \<open>C16. When a remote-first mutation returns. It hangs exactly when VSS fails transiently for
  ever and no shutdown reaches it. A \<open>stop\<close> called while some mutation is in flight makes every
  later one return after a single attempt; a \<open>stop\<close> called while none is in flight is lost, and a
  mutation after it hangs under the same conditions as before.\<close>

theorem retry_terminates:
  assumes "rf_remote st = Some vs"
    and "op = (\<lambda>s. case value of Some buf \<Rightarrow> write_async env vs s k buf | None \<Rightarrow> remove_async env vs s k)"
    and "hangs = (\<forall>n. outage op n (rf_server st) \<and> \<not> wait (Suc n) (min (500 * 2 ^ n) 10000))"
  shows "(rf_mutate env wait st k value = None \<longleftrightarrow> \<not> rf_shutdown st \<and> hangs)
    \<and> (rf_mutate env wait (rf_stop st) k value = None \<longleftrightarrow>
         \<not> rf_shutdown st \<and> rf_receivers st = 0 \<and> hangs)
    \<and> (rf_receivers st \<noteq> 0 \<longrightarrow>
         (\<exists>r st'. rf_mutate env wait (rf_stop st) k value = Some (r, st')
            \<and> (r, rf_server st') = op (rf_server st)))"
proof -
  have none: "rf_mutate env wait st k value = None \<longleftrightarrow> \<not> rf_shutdown st \<and> hangs"
    using rf_mutate_None [OF assms(1,2)] assms(3) by simp
  have "\<exists>r st'. rf_mutate env wait (rf_stop st) k value = Some (r, st') \<and> (r, rf_server st') = op (rf_server st)"
    if "rf_receivers st \<noteq> 0"
    using rf_mutate_shutdown [OF _ _ assms(2), of "rf_stop st" wait] assms(1) that
    by (simp add: rf_stop_def)
  with none show ?thesis
    by (cases "rf_receivers st = 0") (auto simp: rf_stop_def)
qed

text \<open>A server that is down for ever, with another mutation in flight at the \<open>stop\<close> and without.\<close>

definition dead_env :: "mem_vss vss_env" where
  "dead_env = mem_env\<lparr>ve_put_object := (\<lambda>s req. (Inl InternalServerError, s))\<rparr>"

theorem retry_terminates_witness:
  "(\<exists>st'. rf_mutate dead_env (\<lambda>n d. False) (rf_stop (rf_subscribe mem_rf)) ([], [], ''manager'') (Some [7])
       = Some (Inl (Io TimedOut), st'))
   \<and> rf_mutate dead_env (\<lambda>n d. False) (rf_stop mem_rf) ([], [], ''manager'') (Some [7]) = None"
proof -
  let ?op = "\<lambda>s. write_async dead_env mem_vs s ([], [], ''manager'') [7]"
  have down: "?op s = (Inl (Io TimedOut), s)" for s
    by (simp add: write_async_def encrypt_value_def dead_env_def mem_env_def Let_def vss_err_to_io_def
        is_transient_vss_error_def)
  have "outage ?op n s" for n s
    by (induction n) (simp_all add: outage_Suc down, simp add: outage_def)
  moreover have "rf_remote mem_rf = Some mem_vs" "rf_remote (rf_subscribe mem_rf) = Some mem_vs"
    "\<not> rf_shutdown mem_rf" "rf_receivers mem_rf = 0" "rf_receivers (rf_subscribe mem_rf) \<noteq> 0"
    by (simp_all add: mem_rf_def rf_new_def rf_subscribe_def)
  ultimately show ?thesis
    using retry_terminates [OF _ refl refl, of "rf_subscribe mem_rf" mem_vs dead_env "\<lambda>n d. False"
        "([], [], ''manager'')" "Some [7]"]
      retry_terminates [OF _ refl refl, of mem_rf mem_vs dead_env "\<lambda>n d. False"
        "([], [], ''manager'')" "Some [7]"] down
    by auto
qed

text \<open>Replication through the router loses nothing. A node whose background processor writes
  through the router while everything else happens to the replicated store keeps, for every client
  key that is not the channel manager's, the sweeper's, the network graph's or the scorer's, a
  durable intent of its local value or that value on VSS.\<close>

theorem router_keeps_replication:
  assumes "vss_service (sc_env c) contents" "fresh_store c contents st"
    and "(router_step c contents)\<^sup>*\<^sup>* (bp_new st) r" "k \<in> rest_keys (sc_names c)"
  shows "tracked c contents (bp_rest r) k"
proof -
  have "sync_inv c contents (rest_keys (sc_names c)) (bp_rest (bp_new st))
      \<and> sy_remote (bp_rest (bp_new st)) \<noteq> None"
    using fresh_store_inv [OF assms(2)] by (auto simp: bp_new_def sync_inv_def)
  with assms(3) have "sync_inv c contents (rest_keys (sc_names c)) (bp_rest r) \<and> sy_remote (bp_rest r) \<noteq> None"
    by (induction rule: rtranclp_induct) (use vss_service.router_step_inv [OF assms(1) _ refl] in blast)+
  then show ?thesis
    using sync_invD(6) assms(4) by blast
qed

theorem router_keeps_replication_witness:
  "tracked mem_ctx mem_contents
     (bp_rest (snd (the (bp_write mem_ctx (\<lambda>n d. False) (bp_new mem_synced) funding_key [7])))) funding_key"
proof -
  have rest: "funding_key \<in> rest_keys (sc_names mem_ctx)"
    using funding_key_client(1)
    by (simp add: bp_route_def mem_ctx_def RGB_SENDER_FUNDING_NAMESPACE_def)
  then have w: "bp_write mem_ctx (\<lambda>n d. False) (bp_new mem_synced) funding_key [7]
      = Some (Inr (), (bp_new mem_synced)\<lparr>bp_rest := mem_written\<rparr>)"
    by (simp add: bp_write_def bp_new_def mem_synced_write)
  have "(router_step mem_ctx mem_contents)\<^sup>*\<^sup>* (bp_new mem_synced) ((bp_new mem_synced)\<lparr>bp_rest := mem_written\<rparr>)"
    using router_write [OF funding_key_client(1) w] by blast
  from router_keeps_replication [OF _ mem_synced_fresh this rest] w mem.vss_service_axioms
  show ?thesis by simp
qed

text \<open>The server's rule for deletions as \<open>remove_raw\<close> documents it: they need the object's current
  version.\<close>

definition deletes_versioned :: "'s vss_env \<Rightarrow> ('s \<Rightarrow> vss_contents) \<Rightarrow> bool" where
  "deletes_versioned env contents \<longleftrightarrow>
     (\<forall>s req. (\<exists>i \<in> set (po_delete_items req).
          \<forall>b. contents s (po_store_id req) (kv_key i) \<noteq> Some (kv_version i, b)) \<longrightarrow>
        fst (ve_put_object env s req) \<noteq> Inr () \<and> contents (snd (ve_put_object env s req)) = contents s)"

lemma mem_deletes_versioned: "deletes_versioned mem_env mem_contents"
  by (auto simp: deletes_versioned_def mem_env_def mem_put_def mem_contents_def mem_version_def Let_def
      list_all_iff split: option.splits prod.splits)

text \<open>C34. On a server that deletes only at the current version a remote-first removal never
  succeeds: \<open>remove_async\<close> asks for version -1, which no object has, so whatever VSS holds stays
  and so does the local record.\<close>

theorem remote_first_remove_refused:
  assumes "vss_service env contents" "deletes_versioned env contents" "rf_remote st = Some vs"
    and "rf_remove env wait st k = Some (r, st')"
  shows "r \<noteq> Inr () \<and> contents (rf_server st') = contents (rf_server st) \<and> rf_local st' = rf_local st"
proof -
  let ?req = "delete_request vs (vss_key k) (- 1)"
  have op: "r \<noteq> Inr () \<and> contents s' = contents s" if "remove_async env vs s k = (r, s')" for s r s'
  proof -
    have "contents s (vs_store_id vs) (vss_key k) \<noteq> Some (- 1, b)" for b
      using vss_service.versions_positive [OF assms(1), of s "vs_store_id vs" "vss_key k" "- 1" b] by auto
    then have "fst (ve_put_object env s ?req) \<noteq> Inr () \<and> contents (snd (ve_put_object env s ?req)) = contents s"
      using assms(2) unfolding deletes_versioned_def by (simp add: delete_request_def)
    then show ?thesis
      using that by (auto simp: remove_async_def split: prod.splits sum.splits)
  qed
  obtain q s where rt: "retry_transient (\<lambda>n d. rf_shutdown st \<or> wait n d)
      (\<lambda>s. remove_async env vs s k) (rf_server st) = Some (q, s)"
    using assms(3,4) by (auto simp: rf_remove_def split: option.splits)
  from retry_transient_rel [OF rt, of "\<lambda>s r s'. r \<noteq> Inr () \<and> contents s' = contents s"] op
  have "q \<noteq> Inr () \<and> contents s = contents (rf_server st)" by auto
  then show ?thesis
    using rt assms(3,4) by (cases q) (auto simp: rf_remove_def)
qed

theorem remote_first_remove_refused_witness:
  "let st = mem_rf\<lparr>rf_server := [((''s'', ''_/_/manager''), 0, mem_stored)]\<rparr>
   in rf_remove mem_env (\<lambda>n d. False) st ([], [], ''manager'') = Some (Inl (Io Other), st)
      \<and> mem_contents (rf_server st) ''s'' ''_/_/manager'' \<noteq> None"
proof -
  let ?st = "mem_rf\<lparr>rf_server := [((''s'', ''_/_/manager''), 0, mem_stored)]\<rparr>"
  have "remove_async mem_env mem_vs (rf_server ?st) ([], [], ''manager'') = (Inl (Io Other), rf_server ?st)"
    by (simp add: remove_async_def mem_env_def mem_put_def delete_request_def mem_vs_def mem_version_def
        vss_key.simps vss_ns_def vss_err_to_io_def is_transient_vss_error_def Let_def)
  then have "retry_transient (\<lambda>n d. False) (\<lambda>s. remove_async mem_env mem_vs s ([], [], ''manager'')) (rf_server ?st)
      = Some (Inl (Io Other), rf_server ?st)"
    unfolding retry_transient_def by (subst retry_loop.simps) (simp add: is_transient_io_error_def)
  then have r: "rf_remove mem_env (\<lambda>n d. False) ?st ([], [], ''manager'') = Some (Inl (Io Other), ?st)"
    by (simp add: rf_remove_def mem_rf_def rf_new_def)
  have "rf_remote ?st = Some mem_vs" by (simp add: mem_rf_def rf_new_def)
  from remote_first_remove_refused [OF mem.vss_service_axioms mem_deletes_versioned this r] r show ?thesis
    by (simp add: Let_def mem_contents_def)
qed

end
