(* ===== verification/Vss_Session.thy ===== *)
theory Vss_Session
  imports Remote_First_Kv
begin

text \<open>
  A node's session on its VSS store, from unlock to shutdown (\<open>src/ldk.rs\<close>): taking the fence and
  opening, restoring or refilling the stores, stopping them within the teardown budget, and giving
  the fence back. The timeouts of the teardown are arguments. A task abandoned at its deadline goes
  on as the steps of the store itself.
\<close>

section \<open>Unlock\<close>

text \<open>The variant of \<open>APIError\<close> with the failure behind it; the printed reason is not modelled.\<close>

datatype startup_error = FailedVssInit failure

text \<open>The early returns drop the \<open>FenceReleaseGuard\<close>, which releases the fence.\<close>

definition guard_drop :: "'s synced_ctx \<Rightarrow> vss_kv_store \<Rightarrow> 's \<Rightarrow> 's" where
  "guard_drop c vs s = snd (release_fence_if_owned (sc_env c) vs s)"

definition open_vss_session ::
  "'s synced_ctx \<Rightarrow> bool \<Rightarrow> bool \<Rightarrow> local_kv \<Rightarrow> vss_kv_store \<Rightarrow> 's
     \<Rightarrow> (startup_error \<times> 's + 's synced_kv \<times> nat) option" where
  "open_vss_session c mainnet vss_allow_empty_restore db vs s =
     (case acquire_fence (sc_env c) vs s of
        (Inl e, s) \<Rightarrow> Some (Inl (FailedVssInit e, s))
      | (Inr _, s) \<Rightarrow>
          (case (if mainnet then with_vss_common_config_only (sc_names c) db vs s
                 else with_vss (sc_names c) db vs s) of
             Inl e \<Rightarrow> Some (Inl (FailedVssInit e, guard_drop c vs s))
           | Inr synced \<Rightarrow>
               if mainnet then Some (Inr (synced, 0))
               else case synced_read synced (nm_channel_manager (sc_names c)) of
                 (Inl _, synced) \<Rightarrow>
                   (case restore_from_vss c synced False of
                      None \<Rightarrow> None
                    | Some (Inr n, synced) \<Rightarrow> Some (Inr (synced, n))
                    | Some (Inl e, synced) \<Rightarrow>
                        if vss_allow_empty_restore then Some (Inr (synced, 0))
                        else Some (Inl (FailedVssInit e, guard_drop c vs (sy_server synced))))
               | (Inr _, synced) \<Rightarrow>
                   (case push_missing_to_vss c synced of
                      None \<Rightarrow> None
                    | Some (Inl e, synced) \<Rightarrow>
                        Some (Inl (FailedVssInit e, guard_drop c vs (sy_server synced)))
                    | Some (Inr _, synced) \<Rightarrow> Some (Inr (synced, 0)))))"


section \<open>Shutdown\<close>

datatype vss_teardown = Complete | Abandoned

text \<open>\<open>flush_in_time\<close> and \<open>stop_in_time\<close>: the step ends within the budget. A stop that does not end
  has set the flag if its task ran at all, \<open>stop_begun\<close>. A panic of the flush is the join error.\<close>

definition stop_vss_stores ::
  "'s synced_ctx \<Rightarrow> (nat \<Rightarrow> bool) \<Rightarrow> bool \<Rightarrow> bool \<Rightarrow> bool \<Rightarrow> 's bp_router \<Rightarrow> vss_teardown \<times> 's bp_router" where
  "stop_vss_stores c flush_deadline flush_in_time stop_in_time stop_begun r =
     (let stop_monitors = bp_monitors rf_stop
      in if \<not> flush_in_time then (Abandoned, stop_monitors r)
         else case flush_pending_until c flush_deadline 0 (bp_rest r) of
           (Inl e, st) \<Rightarrow> (Abandoned, stop_monitors (r\<lparr>bp_rest := st\<rparr>))
         | (Inr n, st) \<Rightarrow>
             (if \<not> stop_in_time then
                (Abandoned, stop_monitors (r\<lparr>bp_rest := (if stop_begun then stop st else st)\<rparr>))
              else (Complete, stop_monitors (r\<lparr>bp_rest := stop st\<rparr>))))"

definition release_vss_fence ::
  "'s synced_ctx \<Rightarrow> 's bp_router \<Rightarrow> vss_teardown \<Rightarrow> bool \<times> 's bp_router" where
  "release_vss_fence c r teardown =
     (if teardown \<noteq> Complete then (False, r)
      else (True, r\<lparr>bp_rest := snd (release_vss_fence_if_owned c (bp_rest r))\<rparr>))"


section \<open>The fence through a session\<close>

lemma bp_monitors_shutdown:
  "bp_shutdown (bp_monitors rf_stop r) \<longleftrightarrow> bp_shutdown r \<or> bp_receivers r \<noteq> 0"
  by (simp add: bp_monitors_def bp_put_back_def bp_remote_first_def rf_stop_def)

context vss_listing
begin

lemma restore_contents:
  assumes "sc_env c = env" "restore_from_vss c st force = Some (r, st')"
  shows "contents (sy_server st') = contents (sy_server st)"
proof -
  have "\<exists>r s'. download_all env vs s = Some (r, s') \<and> contents s' = contents s" for vs s
    using download_all_ends by blast
  then show ?thesis
    using assms
    by (auto simp: restore_from_vss_def check_bulk_sync_def restore_download_def
        split: if_splits option.splits prod.splits sum.splits)
      (metis option.inject prod.inject)+
qed

lemma push_fence:
  assumes "sc_env c = env" "sy_remote st = Some vs" "push_missing_to_vss c st = Some (r, st')"
    and "fence_owner contents (vs_store_id vs) (sy_server st) = Some i"
  shows "fence_owner contents (vs_store_id vs) (sy_server st') = Some i"
proof (cases "sy_common_config_only st")
  case True
  with assms show ?thesis by (auto simp: push_missing_to_vss_def check_bulk_sync_def)
next
  case False
  then have "contents (sy_server st) (vs_store_id vs) FENCE_KEY \<noteq> None \<longrightarrow>
      contents (sy_server st') (vs_store_id vs) FENCE_KEY = contents (sy_server st) (vs_store_id vs) FENCE_KEY"
    using push_missing_ends [OF assms(1,2)] assms(3) by (metis option.inject prod.inject)
  with assms(4) show ?thesis by (auto simp: fence_owner_def)
qed

lemma open_session_owner:
  assumes c: "sc_env c = env" and ascii: "is_ascii (as_bytes (vs_instance_id vs))"
    and op: "open_vss_session c mainnet allow db vs s = Some (Inr (st, n))"
  shows "fence_owner contents (vs_store_id vs) (sy_server st) = Some (as_bytes (vs_instance_id vs))"
proof -
  obtain s1 where a: "acquire_fence env vs s = (Inr (), s1)"
    using op c by (cases "acquire_fence env vs s") (auto simp: open_vss_session_def split: sum.splits)
  note own = acquire_fence_Ok [OF ascii a]
  obtain st1 where w: "with_vss_capacity_inner (sc_names c) db vs s1 PENDING_QUEUE_CAP mainnet = Inr st1"
    by (fastforce simp: with_vss_capacity_inner_def PENDING_QUEUE_CAP_def split_beta)
  note r = with_vss_reload(3,4) [OF w]
  have opened: "(if mainnet then with_vss_common_config_only (sc_names c) db vs s1
      else with_vss (sc_names c) db vs s1) = Inr st1"
    using w by (cases mainnet) (simp_all add: with_vss_def with_vss_common_config_only_def)
  show ?thesis
  proof (cases mainnet)
    case True
    with op c a opened r own show ?thesis by (simp add: open_vss_session_def)
  next
    case False
    obtain q st2 where rd: "synced_read st1 (nm_channel_manager (sc_names c)) = (q, st2)" by fastforce
    then have st2: "sy_remote st2 = Some vs" "sy_server st2 = s1"
      using r by (auto simp: synced_read_def split: prod.splits)
    have "\<exists>r. push_missing_to_vss c st2 = Some (r, st) \<or> restore_from_vss c st2 False = Some (r, st)"
      using op c a opened rd False
      by (auto simp: open_vss_session_def split: sum.splits option.splits if_splits prod.splits)
    then show ?thesis
      using push_fence [OF c st2(1)] restore_contents [OF c] own st2(2)
      by (auto simp: fence_owner_def)
  qed
qed

end

context vss_available
begin

lemma up_release_fence:
  assumes "up s" "is_ascii (as_bytes (vs_instance_id vs))"
    and "fence_owner contents (vs_store_id vs) s = Some (as_bytes (vs_instance_id vs))"
  obtains s' where "release_fence_if_owned env vs s = (Inr (), s')" "up s'"
    "fence_owner contents (vs_store_id vs) s' = None"
proof -
  let ?sid = "vs_store_id vs"
  obtain gr s1 where g: "ve_get_object env s ?sid FENCE_KEY = (gr, s1)" by fastforce
  have u: "up s1" "isl gr \<longrightarrow> gr = Inl NoSuchKeyError" "contents s1 = contents s"
    using up_get [OF assms(1), of ?sid FENCE_KEY] get_contents [of s ?sid FENCE_KEY] by (auto simp: g)
  have held: "contents s ?sid FENCE_KEY \<noteq> None"
    using assms(3) by (auto simp: fence_owner_def)
  then obtain kv where kv: "gr = Inr (Some kv)"
    using u(2) get_None [of s ?sid FENCE_KEY] get_NoSuchKey [of s ?sid FENCE_KEY] g
    by (cases gr) (auto split: option.splits, metis not_None_eq)
  have c: "contents s ?sid FENCE_KEY = Some (kv_version kv, kv_value kv)"
    using get_Some [of s ?sid FENCE_KEY kv] g kv by simp
  then have own: "remote_id kv = vs_instance_id vs"
    using assms(3) remote_id_eq [OF assms(2), of kv] by (simp add: fence_owner_def)
  let ?req = "delete_request vs FENCE_KEY (kv_version kv)"
  have ok: "fst (ve_put_object env s1 ?req) = Inr ()"
    using u c by (intro up_put_Ok) (auto simp: put_guarded_def delete_request_def)
  let ?s' = "snd (ve_put_object env s1 ?req)"
  have "release_fence_if_owned env vs s = (Inr (), ?s')"
    using g kv own ok by (simp add: release_fence_if_owned_def delete_object_def split_beta)
  moreover have "put_applied ?req (contents s1) (contents ?s')"
    using put_outcome [of s1 ?req] ok by simp
  then have "fence_owner contents ?sid ?s' = None"
    by (simp add: put_applied_def delete_request_def fence_owner_def)
  ultimately show ?thesis
    using that up_put [OF u(1)] by blast
qed

lemma up_acquire_fence:
  assumes "up s" "fence_owner contents (vs_store_id vs) s = None"
  shows "fst (acquire_fence env vs s) = Inr ()"
proof -
  let ?sid = "vs_store_id vs"
  obtain gr s1 where g: "ve_get_object env s ?sid FENCE_KEY = (gr, s1)" by fastforce
  have u: "up s1" "isl gr \<longrightarrow> gr = Inl NoSuchKeyError" "contents s1 = contents s"
    using up_get [OF assms(1), of ?sid FENCE_KEY] get_contents [of s ?sid FENCE_KEY] by (auto simp: g)
  have free: "contents s ?sid FENCE_KEY = None"
    using assms(2) by (simp add: fence_owner_def)
  then have "acquire_fence_read env vs s = (None, s1)"
    using u(2) get_Some [of s ?sid FENCE_KEY "the (projr gr)"] g
    by (cases gr; cases "projr gr") (auto simp: acquire_fence_read_def)
  moreover have "fst (ve_put_object env s1 (fence_claim_request vs)) = Inr ()"
    using u free by (intro up_put_Ok) (auto simp: put_guarded_def fence_claim_request_def)
  ultimately show ?thesis
    by (auto simp: acquire_fence_def acquire_fence_claim_def split: prod.splits sum.splits)
qed

end


section \<open>Properties\<close>

text \<open>One session at a time. An instance that came through unlock owns the fence, and as long as
  it does every unlock of another instance of the same store is refused and leaves VSS as it is,
  whatever its network, flags and local database.\<close>

theorem one_session_at_a_time:
  assumes "vss_listing (sc_env c) contents page_keys rank"
    and "is_ascii (as_bytes (vs_instance_id a))" "is_ascii (as_bytes (vs_instance_id b))"
    and "vs_store_id b = vs_store_id a" "vs_instance_id b \<noteq> vs_instance_id a"
    and "open_vss_session c mainnet allow db a s = Some (Inr (st, n))"
    and "fence_owner contents (vs_store_id a) s' = fence_owner contents (vs_store_id a) (sy_server st)"
  shows "\<exists>e s2. open_vss_session c mainnet' allow' db' b s' = Some (Inl (FailedVssInit e, s2))
    \<and> contents s2 = contents s'"
proof -
  have serv: "vss_service (sc_env c) contents"
    using assms(1) by (simp add: vss_listing_def)
  have own: "fence_owner contents (vs_store_id b) s' = Some (as_bytes (vs_instance_id a))"
    using vss_listing.open_session_owner [OF assms(1) refl assms(2,6)] assms(4,7) by simp
  obtain r s2 where a: "acquire_fence (sc_env c) b s' = (r, s2)" by fastforce
  have "as_bytes (vs_instance_id a) \<noteq> as_bytes (vs_instance_id b)"
    using assms(5) as_bytes_inj by auto
  from vss_service.acquire_fence_foreign [OF serv assms(3) own this a] a show ?thesis
    by (cases r) (auto simp: open_vss_session_def)
qed

theorem one_session_at_a_time_witness:
  "\<exists>e s2. open_vss_session mem_ctx False False \<lparr>lk_rows = [], lk_faults = []\<rparr>
      (mem_vs\<lparr>vs_instance_id := ''b''\<rparr>) [((''s'', FENCE_KEY), 0, as_bytes ''a'')]
    = Some (Inl (FailedVssInit e, s2))"
proof -
  let ?s = "[((''s'', FENCE_KEY), 0, as_bytes ''a'')]" and ?db = "\<lparr>lk_rows = [], lk_faults = []\<rparr>"
  let ?st = "mem_synced\<lparr>sy_common_config_only := True, sy_server := ?s\<rparr>"
  have a: "acquire_fence mem_env mem_vs [] = (Inr (), ?s)"
    by (simp add: acquire_fence_def acquire_fence_read_def acquire_fence_claim_def mem_env_def
        mem_get_def mem_put_def mem_version_def mem_store_def fence_claim_request_def mem_vs_def)
  then have o: "open_vss_session mem_ctx True False ?db mem_vs [] = Some (Inr (?st, 0))"
    by (simp add: open_vss_session_def with_vss_common_config_only_def with_vss_capacity_inner_def
        local_list_def mem_synced_def PENDING_QUEUE_CAP_def)
  have l: "vss_listing (sc_env mem_ctx) mem_contents (\<lambda>s sid pre tok. mem_keys s sid pre) (\<lambda>_ _ _ _. 0)"
    using mem_ls.vss_listing_axioms by simp
  show ?thesis
    using one_session_at_a_time [OF l _ _ _ _ o, of "mem_vs\<lparr>vs_instance_id := ''b''\<rparr>" ?s False False ?db]
    by (auto simp: mem_vs_def as_bytes_def)
qed

text \<open>A complete shutdown hands the store over. When the stores stopped within the budget and the
  fence was given back, another instance takes it at once, and the replicated store of the old one
  can no longer touch VSS: mutations are refused, drains and flushes return, and nothing changes. A
  teardown that was abandoned keeps the fence. The retry loops of the remote-first store are told to
  end exactly if one of its mutations was in flight when it was stopped.\<close>

theorem vss_handover:
  assumes "vss_available (sc_env c) contents up"
    and "sy_remote (bp_rest r1) = Some vs" "is_ascii (as_bytes (vs_instance_id vs))"
    and "stop_vss_stores c flush_deadline flush_in_time stop_in_time stop_begun r = (t, r1)"
    and "up (sy_server (bp_rest r1))"
    and "fence_owner contents (vs_store_id vs) (sy_server (bp_rest r1)) = Some (as_bytes (vs_instance_id vs))"
    and "release_vss_fence c r1 t = (released, r2)" "vs_store_id other = vs_store_id vs" "st = bp_rest r2"
  shows "(bp_shutdown r2 \<longleftrightarrow> bp_shutdown r \<or> bp_receivers r \<noteq> 0) \<and> (if t = Complete
      then released \<and> fst (acquire_fence (sc_env c) other (sy_server st)) = Inr ()
        \<and> snd (write_with_durability c st k buf) = st \<and> fst (write_with_durability c st k buf) \<noteq> Inr ()
        \<and> snd (synced_remove c st k) = st \<and> fst (synced_remove c st k) \<noteq> Inr ()
        \<and> drain_pending c st = (Inr (), st)
        \<and> snd (flush_pending_until c deadline i st) = st
      else \<not> released \<and> r2 = r1)"
proof (cases "t = Complete")
  case False
  with assms(4,7) show ?thesis
    by (auto simp: release_vss_fence_def stop_vss_stores_def bp_monitors_shutdown Let_def split: if_splits prod.splits sum.splits)
next
  case True
  have stopped: "sy_stopped (bp_rest r1)" "bp_shutdown r1 \<longleftrightarrow> bp_shutdown r \<or> bp_receivers r \<noteq> 0"
    using assms(4) True
    by (auto simp: stop_vss_stores_def bp_monitors_shutdown Let_def stop_def split: if_splits prod.splits sum.splits)
  obtain s' where rel: "release_fence_if_owned (sc_env c) vs (sy_server (bp_rest r1)) = (Inr (), s')"
    "up s'" "fence_owner contents (vs_store_id vs) s' = None"
    using vss_available.up_release_fence [OF assms(1,5,3,6)] by blast
  have r2: "released" "st = (bp_rest r1)\<lparr>sy_server := s'\<rparr>" "bp_shutdown r2 = bp_shutdown r1"
    using assms(7,9) True rel(1) assms(2)
    by (auto simp: release_vss_fence_def release_vss_fence_if_owned_def)
  have st: "sy_stopped st" "sy_remote st = Some vs" "sy_server st = s'"
    using r2(2) stopped(1) assms(2) by simp_all
  have drain: "drain_pending c st = (Inr (), st)"
    using st by (simp add: drain_pending_def drain_locked_def)
  then have "snd (flush_pending_until c deadline i st) = st"
    by (subst flush_pending_until.simps) (simp add: Let_def)
  moreover have "fst (acquire_fence (sc_env c) other (sy_server st)) = Inr ()"
    using vss_available.up_acquire_fence [OF assms(1) rel(2), of other] rel(3) assms(8) st(3) by simp
  ultimately show ?thesis
    using True r2 stopped(2) drain st(1,2)
    by (auto simp: write_with_durability_def synced_remove_def synced_mutation_def check_mutation_def)
qed

theorem vss_handover_witness:
  "let s = [((''s'', FENCE_KEY), 0, as_bytes ''a'')]; r = bp_new (mem_synced\<lparr>sy_server := s\<rparr>);
       r1 = r\<lparr>bp_rest := stop (bp_rest r)\<rparr>
   in stop_vss_stores mem_ctx (\<lambda>n. False) True True True r = (Complete, r1)
      \<and> fst (acquire_fence mem_env (mem_vs\<lparr>vs_instance_id := ''b''\<rparr>)
           (sy_server (bp_rest (snd (release_vss_fence mem_ctx r1 Complete))))) = Inr ()"
proof -
  let ?s = "[((''s'', FENCE_KEY), 0, as_bytes ''a'')]"
  let ?r = "bp_new (mem_synced\<lparr>sy_server := ?s\<rparr>)"
  let ?r1 = "?r\<lparr>bp_rest := stop (bp_rest ?r)\<rparr>"
  have t: "stop_vss_stores mem_ctx (\<lambda>n. False) True True True ?r = (Complete, ?r1)"
    by (simp add: stop_vss_stores_def bp_new_def bp_monitors_def bp_put_back_def bp_remote_first_def
        rf_stop_def stop_def flush_pending_until.simps pending_remote_writes_def
        mem_synced_def Let_def)
  have f: "release_vss_fence mem_ctx ?r1 Complete = (True, snd (release_vss_fence mem_ctx ?r1 Complete))"
    by (simp add: release_vss_fence_def)
  have up: "vss_available (sc_env mem_ctx) mem_contents (\<lambda>s. True)"
    using mem_up.vss_available_axioms by simp
  have "fst (acquire_fence (sc_env mem_ctx) (mem_vs\<lparr>vs_instance_id := ''b''\<rparr>)
      (sy_server (bp_rest (snd (release_vss_fence mem_ctx ?r1 Complete))))) = Inr ()"
    using vss_handover [OF up _ _ t _ _ f, of mem_vs "mem_vs\<lparr>vs_instance_id := ''b''\<rparr>" _ funding_key "[]"
        "\<lambda>n. False" 0]
    by (auto simp: bp_new_def stop_def mem_synced_def mem_vs_def fence_owner_def mem_contents_def as_bytes_def)
  with t show ?thesis by (simp add: Let_def)
qed

end
