(* ===== verification/Custom_Msg.thy ===== *)
theory Custom_Msg
  imports Rln_Utf8 "HOL-Library.AList"
begin

text \<open>
  JSON-RPC over custom peer messages, \<open>src/custom_msg_rpc.rs\<close>: the envelope, the errors, and the
  table of requests that wait for a reply. JSON values are the values of \<open>serde_json\<close>; its parser,
  its printer and the derived decoders are third-party code and arguments (\<open>rpc_codec\<close>). A channel
  to a waiting task is a number; what was sent on it is part of the state.
\<close>

section \<open>Values and errors\<close>

datatype json =
    JNull | JBool bool | JNum int | JFloat string | JStr string | JArr "json list"
  | JObj "(string \<times> json) list"

type_synonym node_id = bytes

definition JSONRPC_INTERNAL_ERROR :: int where
  "JSONRPC_INTERNAL_ERROR = - 32603"

definition JSONRPC_INVALID_PARAMS :: int where
  "JSONRPC_INVALID_PARAMS = - 32602"

definition JSONRPC_INVALID_REQUEST :: int where
  "JSONRPC_INVALID_REQUEST = - 32600"

definition JSONRPC_METHOD_NOT_FOUND :: int where
  "JSONRPC_METHOD_NOT_FOUND = - 32601"

definition JSONRPC_PARSE_ERROR :: int where
  "JSONRPC_PARSE_ERROR = - 32700"

definition JSONRPC_VERSION :: string where
  "JSONRPC_VERSION = ''2.0''"

record rpc_error =
  re_code :: int
  re_message :: string

definition application_error :: "int \<Rightarrow> string \<Rightarrow> rpc_error" where
  "application_error code message = \<lparr>re_code = code, re_message = message\<rparr>"

definition internal_error :: "string \<Rightarrow> rpc_error" where
  "internal_error message = \<lparr>re_code = JSONRPC_INTERNAL_ERROR, re_message = message\<rparr>"

definition invalid_params :: "string \<Rightarrow> rpc_error" where
  "invalid_params message = \<lparr>re_code = JSONRPC_INVALID_PARAMS, re_message = message\<rparr>"

definition invalid_request :: rpc_error where
  "invalid_request = \<lparr>re_code = JSONRPC_INVALID_REQUEST, re_message = ''invalid request''\<rparr>"

definition parse_error :: rpc_error where
  "parse_error = \<lparr>re_code = JSONRPC_PARSE_ERROR, re_message = ''parse error''\<rparr>"


section \<open>Envelopes\<close>

record rpc_envelope =
  env_jsonrpc :: string
  env_id :: "json option"
  env_method :: "string option"
  env_params :: "json option"
  env_result :: "json option"
  env_error :: "json option"

definition is_response_like :: "rpc_envelope \<Rightarrow> bool" where
  "is_response_like e =
     (env_result e \<noteq> None \<or> env_error e \<noteq> None
      \<or> (env_method e = None \<and> env_id e \<noteq> None \<and> env_params e = None))"

text \<open>\<open>rc_from_str\<close> decodes an envelope, \<open>rc_error\<close> a wire error (\<open>Inl\<close> the printed reason of a
  failure), \<open>rc_to_string\<close> prints a value.\<close>

record rpc_codec =
  rc_from_str :: "string \<Rightarrow> rpc_envelope option"
  rc_error :: "json \<Rightarrow> string + rpc_error"
  rc_to_string :: "json \<Rightarrow> string"

definition rpc_error_json :: "rpc_error \<Rightarrow> json" where
  "rpc_error_json e = JObj [(''code'', JNum (re_code e)), (''message'', JStr (re_message e))]"

definition jsonrpc_error_value :: "json \<Rightarrow> rpc_error \<Rightarrow> json" where
  "jsonrpc_error_value rid e =
     JObj [(''jsonrpc'', JStr JSONRPC_VERSION), (''id'', rid), (''error'', rpc_error_json e)]"

definition jsonrpc_result_value :: "json \<Rightarrow> json \<Rightarrow> json" where
  "jsonrpc_result_value rid result =
     JObj [(''jsonrpc'', JStr JSONRPC_VERSION), (''id'', rid), (''result'', result)]"


section \<open>Requests that wait\<close>

type_synonym rpc_response = "rpc_error + json"
type_synonym response_key = "node_id \<times> string"
type_synonym pending_responses = "(response_key \<times> nat) list"

definition response_of ::
  "rpc_codec \<Rightarrow> string \<Rightarrow> json option \<Rightarrow> json option \<Rightarrow> rpc_response" where
  "response_of codec protocol result error =
     (case (result, error) of
        (Some result, None) \<Rightarrow> Inr result
      | (None, Some error) \<Rightarrow>
          (case rc_error codec error of
             Inr err \<Rightarrow> Inl err
           | Inl err \<Rightarrow> Inl (internal_error (''invalid_'' @ protocol @ ''_response_error: '' @ err)))
      | (Some _, Some _) \<Rightarrow>
          Inl (internal_error (''invalid_'' @ protocol @ ''_response: contained both result and error''))
      | (None, None) \<Rightarrow>
          Inl (internal_error (''invalid_'' @ protocol @ ''_response: missing result and error'')))"

definition resolve_pending_response ::
  "rpc_codec \<Rightarrow> pending_responses \<Rightarrow> string \<Rightarrow> node_id \<Rightarrow> json option \<Rightarrow> json option \<Rightarrow> json option
     \<Rightarrow> pending_responses \<times> (nat \<times> rpc_response) option" where
  "resolve_pending_response codec pending protocol sender_node_id rid result error =
     (case rid of
        Some (JStr request_id) \<Rightarrow>
          (let response = response_of codec protocol result error; key = (sender_node_id, request_id)
           in case map_of pending key of
                Some chan \<Rightarrow> (AList.delete key pending, Some (chan, response))
              | None \<Rightarrow> (AList.delete key pending, None))
      | _ \<Rightarrow> (pending, None))"


section \<open>Facts\<close>

lemma resolve_pending_cases:
  assumes "resolve_pending_response codec pending protocol sender rid result error = (pending', d)"
  obtains (ignored) "d = None" "map_of pending' = map_of pending"
  | (resolved) request_id chan where "rid = Some (JStr request_id)"
      "map_of pending (sender, request_id) = Some chan"
      "map_of pending' = (map_of pending)((sender, request_id) := None)"
      "d = Some (chan, response_of codec protocol result error)"
proof (cases "\<exists>x. rid = Some (JStr x)")
  case False
  with assms ignored show ?thesis
    by (auto simp: resolve_pending_response_def split: option.splits json.splits)
next
  case True
  then obtain x where x: "rid = Some (JStr x)" by blast
  show ?thesis
  proof (cases "map_of pending (sender, x)")
    case None
    then have "map_of (AList.delete (sender, x) pending) = map_of pending"
      by (simp add: delete_conv' fun_upd_idem)
    with assms x None ignored show ?thesis
      by (simp add: resolve_pending_response_def Let_def)
  next
    case (Some chan)
    then have "pending' = AList.delete (sender, x) pending"
      "d = Some (chan, response_of codec protocol result error)"
      using assms x by (simp_all add: resolve_pending_response_def Let_def)
    with x Some resolved [of x chan] show ?thesis
      by (simp add: delete_conv')
  qed
qed


section \<open>Properties\<close>

text \<open>A reply reaches the request it answers and no other. A peer's reply with some id completes
  only the request that was sent to that very peer under that id, removes exactly that entry, so a
  second reply to it completes nothing, and a reply without a string id or to an unknown request
  changes nothing.\<close>

theorem reply_reaches_its_request:
  assumes "resolve_pending_response codec pending protocol sender rid result error = (pending', d)"
  shows "(case d of
      None \<Rightarrow> map_of pending' = map_of pending
    | Some (chan, response) \<Rightarrow>
        (\<exists>request_id. rid = Some (JStr request_id)
           \<and> map_of pending (sender, request_id) = Some chan
           \<and> map_of pending' = (map_of pending)((sender, request_id) := None))
        \<and> response = response_of codec protocol result error)
    \<and> (d \<noteq> None \<longrightarrow>
         snd (resolve_pending_response codec pending' protocol sender rid result' error') = None)
    \<and> (\<forall>peer x. peer \<noteq> sender \<longrightarrow> map_of pending' (peer, x) = map_of pending (peer, x))"
  using assms
proof (cases rule: resolve_pending_cases)
  case ignored
  then show ?thesis by simp
next
  case (resolved request_id chan)
  then show ?thesis
    by (auto simp: resolve_pending_response_def Let_def)
qed

theorem reply_reaches_its_request_witness:
  "let codec = \<lparr>rc_from_str = (\<lambda>s. None), rc_error = (\<lambda>v. Inl []), rc_to_string = (\<lambda>v. [])\<rparr>;
       r = resolve_pending_response codec [(([1], ''q''), 4), (([2], ''q''), 5)] ''p'' [2]
             (Some (JStr ''q'')) (Some JNull) None
   in r = ([(([1], ''q''), 4)], Some (5, Inr JNull))
      \<and> snd (resolve_pending_response codec (fst r) ''p'' [2] (Some (JStr ''q'')) None None) = None"
proof -
  let ?codec = "\<lparr>rc_from_str = (\<lambda>s. None), rc_error = (\<lambda>v. Inl []), rc_to_string = (\<lambda>v. [])\<rparr>"
  have r: "resolve_pending_response ?codec [(([1], ''q''), 4), (([2], ''q''), 5)] ''p'' [2]
      (Some (JStr ''q'')) (Some JNull) None = ([(([1], ''q''), 4)], Some (5, Inr JNull))"
    by (simp add: resolve_pending_response_def response_of_def)
  from reply_reaches_its_request [OF r, of None None] r show ?thesis by simp
qed

end
