(* ===== verification/Async_Order.thy ===== *)
theory Async_Order
  imports Custom_Msg Rln_Hex
begin

text \<open>
  The asynchronous-order protocol, \<open>src/async_order.rs\<close>: the host's table of payment hashes per
  peer, the invoice cache of the recipient, and the message handler over them. Decoding of
  parameters is \<open>serde\<close>'s and an argument, as are the invoice provider and the clock; the HTTP
  request to the LSP is a task whose answer arrives as a later step. A peer is the serialised
  public key.
\<close>

section \<open>Wire types\<close>

definition ASYNC_ORDER_MAX_HASH_BATCH_SIZE :: nat where
  "ASYNC_ORDER_MAX_HASH_BATCH_SIZE = 200"

definition ASYNC_ERROR_DUPLICATE_INDEX_CONFLICT :: int where
  "ASYNC_ERROR_DUPLICATE_INDEX_CONFLICT = 1004"

definition ASYNC_ERROR_DUPLICATE_HASH_CONFLICT :: int where
  "ASYNC_ERROR_DUPLICATE_HASH_CONFLICT = 1005"

definition ASYNC_ERROR_INVALID_HASH_BATCH :: int where
  "ASYNC_ERROR_INVALID_HASH_BATCH = 1003"

definition ASYNC_ERROR_STALE_FLOW :: int where
  "ASYNC_ERROR_STALE_FLOW = 1105"

definition ASYNC_ERROR_UNSUPPORTED_PROTOCOL_VERSION :: int where
  "ASYNC_ERROR_UNSUPPORTED_PROTOCOL_VERSION = 1000"

definition ASYNC_ORDER_NEW_METHOD :: string where
  "ASYNC_ORDER_NEW_METHOD = ''async_order.new''"

definition ASYNC_ORDER_REQUEST_INVOICE_METHOD :: string where
  "ASYNC_ORDER_REQUEST_INVOICE_METHOD = ''async_order.request_invoice''"

definition PROTOCOL_VERSION :: u64 where
  "PROTOCOL_VERSION = 1"

record new_hash_wire =
  nh_hash_index :: u64
  nh_payment_hash :: string

record batch_commitment_wire =
  bc_host_pubkey :: string
  bc_batch_id :: string
  bc_batch_root :: string
  bc_batch_size :: u64
  bc_batch_sig :: string
  bc_created_at :: u64
  bc_expires_at :: u64

record new_params_wire =
  np_protocol_version :: u64
  np_hashes :: "new_hash_wire list"
  np_batch :: "batch_commitment_wire option"
  np_address_sig :: "string option"

record new_result_wire =
  nr_protocol_version :: u64
  nr_order_id :: string
  nr_status :: string
  nr_accepted_through_index :: u64
  nr_next_index_expected :: u64
  nr_unused_hashes :: u64
  nr_refill_batch_size :: u64

record invoice_result_wire =
  ir_payment_hash :: string
  ir_bolt11 :: string

record request_invoice_params =
  ri_hash_index :: string
  ri_payment_hash :: string
  ri_amount_msat :: u64
  ri_asset_id :: "string option"
  ri_asset_amount :: "u64 option"
  ri_description_hash :: string
  ri_invoice_expiry_sec :: u32
  ri_min_final_cltv_expiry_delta :: u16

text \<open>The derived serialisers: a field per key in the order of the struct; \<open>batch\<close> and
  \<open>address_sig\<close> are left out when absent.\<close>

definition json_u :: "'a::len word \<Rightarrow> json" where
  "json_u x = JNum (uint x)"

definition new_hash_json :: "new_hash_wire \<Rightarrow> json" where
  "new_hash_json h =
     JObj [(''hash_index'', json_u (nh_hash_index h)), (''payment_hash'', JStr (nh_payment_hash h))]"

definition batch_commitment_json :: "batch_commitment_wire \<Rightarrow> json" where
  "batch_commitment_json b =
     JObj [(''host_pubkey'', JStr (bc_host_pubkey b)), (''batch_id'', JStr (bc_batch_id b)),
       (''batch_root'', JStr (bc_batch_root b)), (''batch_size'', json_u (bc_batch_size b)),
       (''batch_sig'', JStr (bc_batch_sig b)), (''created_at'', json_u (bc_created_at b)),
       (''expires_at'', json_u (bc_expires_at b))]"

definition new_params_json :: "new_params_wire \<Rightarrow> json" where
  "new_params_json p =
     JObj ([(''protocol_version'', json_u (np_protocol_version p)),
        (''hashes'', JArr (map new_hash_json (np_hashes p)))]
       @ (case np_batch p of None \<Rightarrow> [] | Some b \<Rightarrow> [(''batch'', batch_commitment_json b)])
       @ (case np_address_sig p of None \<Rightarrow> [] | Some s \<Rightarrow> [(''address_sig'', JStr s)]))"

definition new_result_json :: "new_result_wire \<Rightarrow> json" where
  "new_result_json r =
     JObj [(''protocol_version'', json_u (nr_protocol_version r)), (''order_id'', JStr (nr_order_id r)),
       (''status'', JStr (nr_status r)), (''accepted_through_index'', json_u (nr_accepted_through_index r)),
       (''next_index_expected'', json_u (nr_next_index_expected r)),
       (''unused_hashes'', json_u (nr_unused_hashes r)),
       (''refill_batch_size'', json_u (nr_refill_batch_size r))]"

definition invoice_result_json :: "invoice_result_wire \<Rightarrow> json" where
  "invoice_result_json r =
     JObj [(''payment_hash'', JStr (ir_payment_hash r)), (''bolt11'', JStr (ir_bolt11 r))]"

definition json_opt :: "('a \<Rightarrow> json) \<Rightarrow> 'a option \<Rightarrow> json" where
  "json_opt f x = (case x of None \<Rightarrow> JNull | Some y \<Rightarrow> f y)"

definition request_invoice_json :: "request_invoice_params \<Rightarrow> json" where
  "request_invoice_json p =
     JObj [(''hash_index'', JStr (ri_hash_index p)), (''payment_hash'', JStr (ri_payment_hash p)),
       (''amount_msat'', json_u (ri_amount_msat p)), (''asset_id'', json_opt JStr (ri_asset_id p)),
       (''asset_amount'', json_opt json_u (ri_asset_amount p)),
       (''description_hash'', JStr (ri_description_hash p)),
       (''invoice_expiry_sec'', json_u (ri_invoice_expiry_sec p)),
       (''min_final_cltv_expiry_delta'', json_u (ri_min_final_cltv_expiry_delta p))]"

definition duplicate_index_conflict :: rpc_error where
  "duplicate_index_conflict =
     \<lparr>re_code = ASYNC_ERROR_DUPLICATE_INDEX_CONFLICT, re_message = ''duplicate_index_conflict''\<rparr>"

definition duplicate_hash_conflict :: rpc_error where
  "duplicate_hash_conflict =
     \<lparr>re_code = ASYNC_ERROR_DUPLICATE_HASH_CONFLICT, re_message = ''duplicate_hash_conflict''\<rparr>"

definition invalid_hash_batch :: rpc_error where
  "invalid_hash_batch =
     \<lparr>re_code = ASYNC_ERROR_INVALID_HASH_BATCH, re_message = ''invalid_hash_batch''\<rparr>"

definition stale_flow :: rpc_error where
  "stale_flow = \<lparr>re_code = ASYNC_ERROR_STALE_FLOW, re_message = ''stale_flow''\<rparr>"

definition unsupported_protocol_version :: rpc_error where
  "unsupported_protocol_version =
     \<lparr>re_code = ASYNC_ERROR_UNSUPPORTED_PROTOCOL_VERSION, re_message = ''unsupported_protocol_version''\<rparr>"


section \<open>Batches of hashes\<close>

fun parse_hash_loop ::
  "u64 option \<Rightarrow> (u64 \<times> string) list \<Rightarrow> new_hash_wire list \<Rightarrow> rpc_error + (u64 \<times> string) list" where
  "parse_hash_loop previous_index parsed [] = Inr parsed"
| "parse_hash_loop previous_index parsed (entry # entries) =
     (case validate_and_parse_payment_hash (nh_payment_hash entry) of
        Inl _ \<Rightarrow> Inl invalid_hash_batch
      | Inr payment_hash \<Rightarrow>
          (case previous_index of
             Some previous \<Rightarrow>
               if nh_hash_index entry \<noteq> saturating_add previous 1 then Inl invalid_hash_batch
               else parse_hash_loop (Some (nh_hash_index entry))
                      (parsed @ [(nh_hash_index entry, hex_str payment_hash)]) entries
           | None \<Rightarrow>
               parse_hash_loop (Some (nh_hash_index entry))
                 (parsed @ [(nh_hash_index entry, hex_str payment_hash)]) entries))"

definition parse_hash_batch :: "new_hash_wire list \<Rightarrow> rpc_error + (u64 \<times> string) list" where
  "parse_hash_batch hashes = parse_hash_loop None [] hashes"

definition validate_async_order_new_params :: "new_params_wire \<Rightarrow> rpc_error + unit" where
  "validate_async_order_new_params p =
     (if np_protocol_version p \<noteq> PROTOCOL_VERSION then Inl unsupported_protocol_version
      else if np_hashes p = [] then Inl invalid_hash_batch
      else if length (np_hashes p) > ASYNC_ORDER_MAX_HASH_BATCH_SIZE then Inl invalid_hash_batch
      else case parse_hash_batch (np_hashes p) of Inl e \<Rightarrow> Inl e | Inr _ \<Rightarrow> Inr ())"


section \<open>Orders\<close>

text \<open>A \<open>BTreeMap\<close> is its list of entries in the order of the keys.\<close>

fun bt_insert :: "'k::linorder \<Rightarrow> 'v \<Rightarrow> ('k \<times> 'v) list \<Rightarrow> ('k \<times> 'v) list" where
  "bt_insert k v [] = [(k, v)]"
| "bt_insert k v ((k', v') # m) =
     (if k < k' then (k, v) # (k', v') # m
      else if k = k' then (k, v) # m
      else (k', v') # bt_insert k v m)"

record order_record =
  or_order_id :: u64
  or_hashes :: "(u64 \<times> string) list"

definition order_new :: "u64 \<Rightarrow> order_record" where
  "order_new order_id = \<lparr>or_order_id = order_id, or_hashes = []\<rparr>"

definition highest_hash_index :: "order_record \<Rightarrow> u64" where
  "highest_hash_index r = (if or_hashes r = [] then 0 else fst (last (or_hashes r)))"

definition next_hash_index :: "order_record \<Rightarrow> u64" where
  "next_hash_index r = saturating_add (highest_hash_index r) 1"

definition available_hashes :: "order_record \<Rightarrow> u64" where
  "available_hashes r = of_nat (length (or_hashes r))"

text \<open>The first loop of \<open>merge_hashes\<close>, with the hashes of the batch seen so far and the two
  flags.\<close>

fun merge_scan ::
  "(u64 \<times> string) list \<Rightarrow> string list \<Rightarrow> bool \<Rightarrow> bool \<Rightarrow> (u64 \<times> string) list
     \<Rightarrow> rpc_error + bool \<times> bool" where
  "merge_scan known seen saw_existing saw_missing [] = Inr (saw_existing, saw_missing)"
| "merge_scan known seen saw_existing saw_missing ((index, payment_hash) # hashes) =
     (if payment_hash \<in> set seen then Inl duplicate_hash_conflict
      else case map_of known index of
        Some existing \<Rightarrow>
          if existing \<noteq> payment_hash then Inl duplicate_index_conflict
          else if list_ex (\<lambda>(i, h). i \<noteq> index \<and> h = payment_hash) known
            then Inl duplicate_hash_conflict
          else merge_scan known (payment_hash # seen) True saw_missing hashes
      | None \<Rightarrow>
          if list_ex (\<lambda>(i, h). i \<noteq> index \<and> h = payment_hash) known
            then Inl duplicate_hash_conflict
          else merge_scan known (payment_hash # seen) saw_existing True hashes)"

definition merge_hashes :: "order_record \<Rightarrow> (u64 \<times> string) list \<Rightarrow> rpc_error + order_record" where
  "merge_hashes r hashes =
     (if hashes = [] then Inl invalid_hash_batch
      else let expected_start = next_hash_index r
        in case merge_scan (or_hashes r) [] False False hashes of
             Inl e \<Rightarrow> Inl e
           | Inr (saw_existing, saw_missing) \<Rightarrow>
               (let missing_count = length (filter (\<lambda>(i, h). map_of (or_hashes r) i = None) hashes)
                in if length (or_hashes r) + missing_count > ASYNC_ORDER_MAX_HASH_BATCH_SIZE
                     then Inl invalid_hash_batch
                   else if saw_existing \<and> saw_missing then Inl invalid_hash_batch
                   else if saw_existing then Inr r
                   else if fst (hd hashes) \<noteq> expected_start then Inl invalid_hash_batch
                   else Inr (r\<lparr>or_hashes := fold (\<lambda>(i, h). bt_insert i h) hashes (or_hashes r)\<rparr>)))"

definition snapshot_result :: "order_record \<Rightarrow> new_result_wire" where
  "snapshot_result r =
     \<lparr>nr_protocol_version = PROTOCOL_VERSION, nr_order_id = show_u64 (or_order_id r),
      nr_status = ''active'', nr_accepted_through_index = highest_hash_index r,
      nr_next_index_expected = next_hash_index r, nr_unused_hashes = available_hashes r,
      nr_refill_batch_size = of_nat ASYNC_ORDER_MAX_HASH_BATCH_SIZE\<rparr>"


section \<open>State\<close>

text \<open>\<open>as_sent\<close> is what was sent on the channels of waiting requests, \<open>as_channels\<close> the number of
  channels made, \<open>as_lsp_tasks\<close> the requests to the LSP in flight.\<close>

record invoice_cache_entry =
  ce_params :: request_invoice_params
  ce_result :: invoice_result_wire
  ce_expires_at :: nat

record async_state =
  as_next_order_id :: u64
  as_peers :: "(node_id \<times> order_record option) list"
  as_pending :: "(node_id \<times> string) list"
  as_pending_responses :: pending_responses
  as_cache :: "((node_id \<times> string) \<times> invoice_cache_entry) list"
  as_channels :: nat
  as_sent :: "(nat \<times> rpc_response) list"
  as_lsp_tasks :: "(node_id \<times> json \<times> new_params_wire) list"

definition async_state_default :: async_state where
  "async_state_default =
     \<lparr>as_next_order_id = 1, as_peers = [], as_pending = [], as_pending_responses = [], as_cache = [],
      as_channels = 0, as_sent = [], as_lsp_tasks = []\<rparr>"

text \<open>What the handler is built with and what it meets: access control, decoders, the invoice
  provider, whether an LSP client is configured, and the two readings of the clock (in
  nanoseconds) of one request with \<open>Instant::checked_add\<close>.\<close>

record async_ctx =
  ac_codec :: rpc_codec
  ac_allows_peer :: "node_id \<Rightarrow> bool"
  ac_new_params :: "json \<Rightarrow> new_params_wire option"
  ac_invoice_params :: "json \<Rightarrow> request_invoice_params option"
  ac_sha256_from_str :: "string \<Rightarrow> bytes option"
  ac_provider :: "(node_id \<Rightarrow> request_invoice_params \<Rightarrow> rpc_error + invoice_result_wire) option"
  ac_lsp_client :: bool
  ac_now :: nat
  ac_now2 :: nat
  ac_checked_add :: "nat \<Rightarrow> nat \<Rightarrow> nat option"


section \<open>Queueing\<close>

definition queue_jsonrpc_value :: "async_ctx \<Rightarrow> node_id \<Rightarrow> json \<Rightarrow> async_state \<Rightarrow> async_state" where
  "queue_jsonrpc_value c peer v st =
     st\<lparr>as_pending := as_pending st @ [(peer, rc_to_string (ac_codec c) v)]\<rparr>"

definition queue_jsonrpc_result :: "async_ctx \<Rightarrow> node_id \<Rightarrow> json \<Rightarrow> json \<Rightarrow> async_state \<Rightarrow> async_state" where
  "queue_jsonrpc_result c peer rid result st = queue_jsonrpc_value c peer (jsonrpc_result_value rid result) st"

definition queue_jsonrpc_error ::
  "async_ctx \<Rightarrow> node_id \<Rightarrow> json \<Rightarrow> int \<Rightarrow> string \<Rightarrow> async_state \<Rightarrow> async_state" where
  "queue_jsonrpc_error c peer rid code message st =
     queue_jsonrpc_value c peer
       (jsonrpc_error_value rid \<lparr>re_code = code, re_message = message\<rparr>) st"

definition queue_jsonrpc_parse_error :: "async_ctx \<Rightarrow> node_id \<Rightarrow> async_state \<Rightarrow> async_state" where
  "queue_jsonrpc_parse_error c peer st =
     queue_jsonrpc_value c peer (jsonrpc_error_value JNull parse_error) st"

definition queue_jsonrpc_invalid_request :: "async_ctx \<Rightarrow> node_id \<Rightarrow> async_state \<Rightarrow> async_state" where
  "queue_jsonrpc_invalid_request c peer st =
     queue_jsonrpc_value c peer (jsonrpc_error_value JNull invalid_request) st"

text \<open>A request of our own: its answer arrives on the channel that is returned.\<close>

definition queue_async_order_request ::
  "async_ctx \<Rightarrow> node_id \<Rightarrow> json \<Rightarrow> string \<Rightarrow> json \<Rightarrow> async_state \<Rightarrow> (rpc_error + nat) \<times> async_state" where
  "queue_async_order_request c peer rid method params st =
     (case rid of
        JStr request_id \<Rightarrow>
          (if map_of (as_pending_responses st) (peer, request_id) \<noteq> None
           then (Inl (internal_error ''async_order_request_id_already_pending''), st)
           else
             (Inr (as_channels st),
              queue_jsonrpc_value c peer
                (JObj [(''jsonrpc'', JStr JSONRPC_VERSION), (''id'', rid), (''method'', JStr method),
                   (''params'', params)])
                (st\<lparr>as_pending_responses :=
                      AList.update (peer, request_id) (as_channels st) (as_pending_responses st),
                    as_channels := Suc (as_channels st)\<rparr>)))
      | _ \<Rightarrow> (Inl invalid_request, st))"

definition queue_async_order_new ::
  "async_ctx \<Rightarrow> node_id \<Rightarrow> json \<Rightarrow> new_params_wire \<Rightarrow> async_state \<Rightarrow> (rpc_error + nat) \<times> async_state" where
  "queue_async_order_new c host rid params st =
     (case validate_async_order_new_params params of
        Inl e \<Rightarrow> (Inl e, st)
      | Inr _ \<Rightarrow>
          queue_async_order_request c host rid ASYNC_ORDER_NEW_METHOD (new_params_json params) st)"

definition queue_async_order_request_invoice ::
  "async_ctx \<Rightarrow> node_id \<Rightarrow> json \<Rightarrow> request_invoice_params \<Rightarrow> async_state \<Rightarrow> (rpc_error + nat) \<times> async_state" where
  "queue_async_order_request_invoice c peer rid params st =
     queue_async_order_request c peer rid ASYNC_ORDER_REQUEST_INVOICE_METHOD (request_invoice_json params) st"

definition forget_async_order_response :: "node_id \<Rightarrow> string \<Rightarrow> async_state \<Rightarrow> async_state" where
  "forget_async_order_response host request_id st =
     st\<lparr>as_pending_responses := AList.delete (host, request_id) (as_pending_responses st)\<rparr>"

definition complete_async_order_response ::
  "async_ctx \<Rightarrow> node_id \<Rightarrow> json option \<Rightarrow> json option \<Rightarrow> json option \<Rightarrow> async_state \<Rightarrow> async_state" where
  "complete_async_order_response c peer rid result error st =
     (case resolve_pending_response (ac_codec c) (as_pending_responses st) ''async_order'' peer rid
             result error of
        (pending, None) \<Rightarrow> st\<lparr>as_pending_responses := pending\<rparr>
      | (pending, Some d) \<Rightarrow> st\<lparr>as_pending_responses := pending, as_sent := as_sent st @ [d]\<rparr>)"


section \<open>Requests\<close>

definition canonicalize_request_invoice_params ::
  "async_ctx \<Rightarrow> request_invoice_params \<Rightarrow> rpc_error + request_invoice_params" where
  "canonicalize_request_invoice_params c p =
     (case parse_u64 (ri_hash_index p) of
        None \<Rightarrow> Inl (invalid_params ''invalid_hash_index'')
      | Some hash_index \<Rightarrow>
          (case validate_and_parse_payment_hash (ri_payment_hash p) of
             Inl _ \<Rightarrow> Inl (invalid_params ''invalid_payment_hash'')
           | Inr payment_hash \<Rightarrow>
               (case ac_sha256_from_str c (str_trim (ri_description_hash p)) of
                  None \<Rightarrow> Inl (invalid_params ''invalid_description_hash'')
                | Some description_hash \<Rightarrow>
                    Inr (p\<lparr>ri_hash_index := show_u64 hash_index,
                            ri_payment_hash := hex_str payment_hash,
                            ri_description_hash := hex_str description_hash\<rparr>))))"

definition receive_async_order_request_invoice ::
  "async_ctx \<Rightarrow> node_id \<Rightarrow> request_invoice_params \<Rightarrow> async_state
     \<Rightarrow> (rpc_error + invoice_result_wire) \<times> async_state" where
  "receive_async_order_request_invoice c peer params st =
     (case canonicalize_request_invoice_params c params of
        Inl e \<Rightarrow> (Inl e, st)
      | Inr canonical_params \<Rightarrow>
          (case ac_provider c of
             None \<Rightarrow> (Inl (internal_error ''async_order_invoice_provider_not_available''), st)
           | Some invoice_provider \<Rightarrow>
               (let cache_key = (peer, ri_payment_hash canonical_params);
                    cached = map_of (as_cache st) cache_key;
                    fresh = (\<lambda>st. case invoice_provider peer params of
                        Inl e \<Rightarrow> (Inl e, st)
                      | Inr result \<Rightarrow>
                          (case ac_checked_add c (ac_now2 c) (unat (ri_invoice_expiry_sec params) * 10 ^ 9) of
                             None \<Rightarrow> (Inl (internal_error ''async_order_invoice_expiry_overflow''), st)
                           | Some expires_at \<Rightarrow>
                               (Inr result,
                                st\<lparr>as_cache := AList.update cache_key
                                     \<lparr>ce_params = canonical_params, ce_result = result,
                                      ce_expires_at = expires_at\<rparr> (as_cache st)\<rparr>)))
                in case cached of
                     None \<Rightarrow> fresh st
                   | Some entry \<Rightarrow>
                       if ac_now c < ce_expires_at entry then
                         (if ce_params entry = canonical_params then (Inr (ce_result entry), st)
                          else (Inl stale_flow, st))
                       else fresh (st\<lparr>as_cache := AList.delete cache_key (as_cache st)\<rparr>))))"

text \<open>The result is \<^const>\<open>None\<close> where the code panics: the counter of orders overflows.\<close>

definition record_async_order_new ::
  "node_id \<Rightarrow> new_params_wire \<Rightarrow> async_state \<Rightarrow> (rpc_error + new_result_wire) option \<times> async_state" where
  "record_async_order_new peer params st =
     (case validate_async_order_new_params params of
        Inl e \<Rightarrow> (Some (Inl e), st)
      | Inr _ \<Rightarrow>
          (case parse_hash_batch (np_hashes params) of
             Inl e \<Rightarrow> (Some (Inl e), st)
           | Inr parsed_hashes \<Rightarrow>
               (let merge = (\<lambda>order st.
                      case merge_hashes order parsed_hashes of
                        Inl e \<Rightarrow> (Some (Inl e), st)
                      | Inr order \<Rightarrow>
                          (Some (Inr (snapshot_result order)),
                           st\<lparr>as_peers := AList.update peer (Some order) (as_peers st)\<rparr>))
                in case map_of (as_peers st) peer of
                     Some (Some order) \<Rightarrow> merge order st
                   | _ \<Rightarrow>
                       (let order_id = as_next_order_id st
                        in case checked_add (as_next_order_id st) 1 of
                             None \<Rightarrow> (None, st)
                           | Some next \<Rightarrow>
                               merge (order_new order_id)
                                 (st\<lparr>as_next_order_id := next,
                                     as_peers := AList.update peer (Some (order_new order_id)) (as_peers st)\<rparr>)))))"

definition send_new_async_order_to_lsp ::
  "async_ctx \<Rightarrow> node_id \<Rightarrow> json \<Rightarrow> new_params_wire \<Rightarrow> async_state \<Rightarrow> (rpc_error + unit) \<times> async_state" where
  "send_new_async_order_to_lsp c peer rid params st =
     (if \<not> ac_lsp_client c then (Inl (internal_error ''async_order_lsp_client_not_available''), st)
      else (Inr (), st\<lparr>as_lsp_tasks := as_lsp_tasks st @ [(peer, rid, params)]\<rparr>))"

text \<open>The task's end: the answer of the LSP client goes to the peer.\<close>

definition lsp_task_done ::
  "async_ctx \<Rightarrow> node_id \<Rightarrow> json \<Rightarrow> rpc_error + new_result_wire \<Rightarrow> async_state \<Rightarrow> async_state" where
  "lsp_task_done c peer rid answer st =
     (case answer of
        Inr result \<Rightarrow> queue_jsonrpc_result c peer rid (new_result_json result) st
      | Inl err \<Rightarrow> queue_jsonrpc_error c peer rid (re_code err) (re_message err) st)"


section \<open>The message handler\<close>

definition handle_new :: "async_ctx \<Rightarrow> node_id \<Rightarrow> json \<Rightarrow> json option \<Rightarrow> async_state \<Rightarrow> async_state option" where
  "handle_new c peer rid params_value st =
     (case params_value of
        None \<Rightarrow> Some (queue_jsonrpc_error c peer rid JSONRPC_INVALID_PARAMS ''missing params'' st)
      | Some v \<Rightarrow>
          (case ac_new_params c v of
             None \<Rightarrow>
               Some (queue_jsonrpc_error c peer rid ASYNC_ERROR_INVALID_HASH_BATCH ''invalid_hash_batch'' st)
           | Some params \<Rightarrow>
               if ac_lsp_client c then
                 (case validate_async_order_new_params params of
                    Inr _ \<Rightarrow>
                      (case send_new_async_order_to_lsp c peer rid params st of
                         (Inl err, st) \<Rightarrow>
                           Some (queue_jsonrpc_error c peer rid (re_code err) (re_message err) st)
                       | (Inr _, st) \<Rightarrow> Some st)
                  | Inl err \<Rightarrow> Some (queue_jsonrpc_error c peer rid (re_code err) (re_message err) st))
               else
                 (case record_async_order_new peer params st of
                    (None, st) \<Rightarrow> None
                  | (Some (Inr result), st) \<Rightarrow>
                      Some (queue_jsonrpc_result c peer rid (new_result_json result) st)
                  | (Some (Inl err), st) \<Rightarrow>
                      Some (queue_jsonrpc_error c peer rid (re_code err) (re_message err) st))))"

definition handle_request_invoice ::
  "async_ctx \<Rightarrow> node_id \<Rightarrow> json \<Rightarrow> json option \<Rightarrow> async_state \<Rightarrow> async_state" where
  "handle_request_invoice c peer rid params_value st =
     (case params_value of
        None \<Rightarrow> queue_jsonrpc_error c peer rid JSONRPC_INVALID_PARAMS ''missing params'' st
      | Some v \<Rightarrow>
          (case ac_invoice_params c v of
             None \<Rightarrow>
               queue_jsonrpc_error c peer rid JSONRPC_INVALID_PARAMS ''invalid_request_invoice_params'' st
           | Some params \<Rightarrow>
               (case receive_async_order_request_invoice c peer params st of
                  (Inr result, st) \<Rightarrow> queue_jsonrpc_result c peer rid (invoice_result_json result) st
                | (Inl err, st) \<Rightarrow> queue_jsonrpc_error c peer rid (re_code err) (re_message err) st)))"

definition handle_custom_message ::
  "async_ctx \<Rightarrow> string \<Rightarrow> node_id \<Rightarrow> async_state \<Rightarrow> async_state option" where
  "handle_custom_message c payload peer st =
     (if \<not> ac_allows_peer c peer then Some st
      else if 0 \<in> set (as_bytes payload) then Some (queue_jsonrpc_parse_error c peer st)
      else case rc_from_str (ac_codec c) payload of
        None \<Rightarrow> Some (queue_jsonrpc_parse_error c peer st)
      | Some e \<Rightarrow>
          if env_jsonrpc e \<noteq> JSONRPC_VERSION then Some (queue_jsonrpc_invalid_request c peer st)
          else if is_response_like e then
            (if env_method e \<noteq> None then Some st
             else Some (complete_async_order_response c peer (env_id e) (env_result e) (env_error e) st))
          else (case (env_method e, env_id e) of
            (Some method, Some rid) \<Rightarrow>
              if method = ASYNC_ORDER_NEW_METHOD then handle_new c peer rid (env_params e) st
              else if method = ASYNC_ORDER_REQUEST_INVOICE_METHOD
                then Some (handle_request_invoice c peer rid (env_params e) st)
              else Some (queue_jsonrpc_error c peer rid JSONRPC_METHOD_NOT_FOUND ''method not found'' st)
          | _ \<Rightarrow> Some (queue_jsonrpc_invalid_request c peer st)))"

definition get_and_clear_pending_msg :: "async_state \<Rightarrow> (node_id \<times> string) list \<times> async_state" where
  "get_and_clear_pending_msg st = (as_pending st, st\<lparr>as_pending := []\<rparr>)"

end
