(* ===== verification/Apay_Commit.thy ===== *)
theory Apay_Commit
  imports Async_Order Apay_Merkle
begin

text \<open>
  Batch commitments and address attestations of asynchronous payments, \<open>src/async_order.rs\<close>: what
  a recipient signs over a batch of payment hashes and over its Lightning address. SHA-256 is the
  parameter \<open>H\<close>; the signer is an argument, \<^const>\<open>None\<close> its failure.
\<close>

section \<open>Definitions\<close>

definition APAY_BATCH_EXPIRY_SECS :: u64 where
  "APAY_BATCH_EXPIRY_SECS = 365 * 24 * 60 * 60"

definition APAY_BATCH_ID_TAG :: bytes where
  "APAY_BATCH_ID_TAG = as_bytes ''UTEXO_APAY_BATCH_ID_V1''"

definition APAY_HASH_BATCH_TAG :: bytes where
  "APAY_HASH_BATCH_TAG = as_bytes ''UTEXO_APAY_HASH_BATCH_V1''"

definition APAY_LNADDR_TAG :: bytes where
  "APAY_LNADDR_TAG = as_bytes ''UTEXO_APAY_LNADDR_V1''"

definition apay_hex_nibble :: "byte \<Rightarrow> byte option" where
  "apay_hex_nibble b =
     (if 48 \<le> b \<and> b \<le> 57 then Some (b - 48)
      else if 97 \<le> b \<and> b \<le> 102 then Some (b - 97 + 10)
      else if 65 \<le> b \<and> b \<le> 70 then Some (b - 65 + 10)
      else None)"

text \<open>The loop over the pairs of characters; the length was checked, so nothing is left over.\<close>

fun decode_pairs :: "bytes \<Rightarrow> bytes option" where
  "decode_pairs (x # y # rest) =
     (case apay_hex_nibble x of
        None \<Rightarrow> None
      | Some high \<Rightarrow>
          (case apay_hex_nibble y of
             None \<Rightarrow> None
           | Some low \<Rightarrow> map_option (\<lambda>out. or (push_bit 4 high) low # out) (decode_pairs rest)))"
| "decode_pairs _ = Some []"

definition apay_decode_hex_fixed :: "nat \<Rightarrow> string \<Rightarrow> string \<Rightarrow> rpc_error + bytes" where
  "apay_decode_hex_fixed n field s =
     (let s = str_trim s; err = invalid_params (field @ '' must be '' @ show_nat n @ ''-byte hex'')
      in if length s \<noteq> 2 * n then Inl err
         else case decode_pairs (as_bytes s) of None \<Rightarrow> Inl err | Some out \<Rightarrow> Inr out)"

definition batch_id_material :: "bytes \<Rightarrow> u64 \<Rightarrow> bytes" where
  "batch_id_material recipient_pubkey start_index =
     APAY_BATCH_ID_TAG @ recipient_pubkey @ be_bytes 8 (unat start_index)"

definition apay_derive_batch_id :: "(bytes \<Rightarrow> bytes) \<Rightarrow> bytes \<Rightarrow> u64 \<Rightarrow> bytes" where
  "apay_derive_batch_id H recipient_pubkey start_index =
     take 16 (H (batch_id_material recipient_pubkey start_index))"

fun batch_leaves ::
  "(bytes \<Rightarrow> bytes) \<Rightarrow> bytes \<Rightarrow> bytes \<Rightarrow> new_hash_wire list \<Rightarrow> rpc_error + bytes list" where
  "batch_leaves H recipient_pubkey batch_id [] = Inr []"
| "batch_leaves H recipient_pubkey batch_id (entry # entries) =
     (case validate_and_parse_payment_hash (nh_payment_hash entry) of
        Inl _ \<Rightarrow> Inl (invalid_params ''invalid_payment_hash'')
      | Inr payment_hash \<Rightarrow>
          (case batch_leaves H recipient_pubkey batch_id entries of
             Inl e \<Rightarrow> Inl e
           | Inr leaves \<Rightarrow>
               Inr (leaf_hash H recipient_pubkey batch_id (nh_hash_index entry) payment_hash # leaves)))"

definition apay_batch_root ::
  "(bytes \<Rightarrow> bytes) \<Rightarrow> bytes \<Rightarrow> bytes \<Rightarrow> new_hash_wire list \<Rightarrow> rpc_error + bytes" where
  "apay_batch_root H recipient_pubkey batch_id hashes =
     (if hashes = [] then Inl invalid_hash_batch
      else case batch_leaves H recipient_pubkey batch_id hashes of
        Inl e \<Rightarrow> Inl e
      | Inr leaves \<Rightarrow> Inr (the (root H leaves)))"

definition apay_commit_bytes ::
  "bytes \<Rightarrow> bytes \<Rightarrow> bytes \<Rightarrow> bytes \<Rightarrow> u64 \<Rightarrow> u64 \<Rightarrow> u64 \<Rightarrow> bytes" where
  "apay_commit_bytes recipient_pubkey host_pubkey batch_id batch_root batch_size created_at expires_at =
     APAY_HASH_BATCH_TAG @ recipient_pubkey @ host_pubkey @ batch_id @ batch_root
       @ be_bytes 8 (unat batch_size) @ be_bytes 8 (unat created_at) @ be_bytes 8 (unat expires_at)"

definition apay_attest_bytes :: "bytes \<Rightarrow> string \<Rightarrow> string \<Rightarrow> u64 \<Rightarrow> bytes" where
  "apay_attest_bytes recipient_pubkey domain username expires_at =
     APAY_LNADDR_TAG @ recipient_pubkey @ as_bytes domain @ as_bytes username
       @ be_bytes 8 (unat expires_at)"

definition build_apay_address_attestation ::
  "string \<Rightarrow> string \<Rightarrow> string \<Rightarrow> u64 \<Rightarrow> (bytes \<Rightarrow> string option) \<Rightarrow> rpc_error + string" where
  "build_apay_address_attestation recipient_pubkey_hex domain username expires_at sign =
     (case apay_decode_hex_fixed 33 ''recipient_pubkey'' recipient_pubkey_hex of
        Inl e \<Rightarrow> Inl e
      | Inr recipient_pubkey \<Rightarrow>
          (case sign (apay_attest_bytes recipient_pubkey domain username expires_at) of
             None \<Rightarrow> Inl (internal_error ''apay_attest_sign_failed'')
           | Some sig \<Rightarrow> Inr sig))"

definition build_apay_batch_commitment ::
  "(bytes \<Rightarrow> bytes) \<Rightarrow> string \<Rightarrow> string \<Rightarrow> u64 \<Rightarrow> new_hash_wire list \<Rightarrow> u64 \<Rightarrow> u64
     \<Rightarrow> (bytes \<Rightarrow> string option) \<Rightarrow> rpc_error + batch_commitment_wire" where
  "build_apay_batch_commitment H recipient_pubkey_hex host_pubkey_hex start_index hashes created_at
       expires_at sign =
     (case apay_decode_hex_fixed 33 ''recipient_pubkey'' recipient_pubkey_hex of
        Inl e \<Rightarrow> Inl e
      | Inr recipient_pubkey \<Rightarrow>
          (case apay_decode_hex_fixed 33 ''host_pubkey'' host_pubkey_hex of
             Inl e \<Rightarrow> Inl e
           | Inr host_pubkey \<Rightarrow>
               (let batch_id = apay_derive_batch_id H recipient_pubkey start_index
                in case apay_batch_root H recipient_pubkey batch_id hashes of
                     Inl e \<Rightarrow> Inl e
                   | Inr batch_root \<Rightarrow>
                       (let batch_size = of_nat (length hashes)
                        in case sign (apay_commit_bytes recipient_pubkey host_pubkey batch_id batch_root
                                        batch_size created_at expires_at) of
                             None \<Rightarrow> Inl (internal_error ''apay_batch_sign_failed'')
                           | Some batch_sig \<Rightarrow>
                               Inr \<lparr>bc_host_pubkey = hex_str host_pubkey, bc_batch_id = hex_str batch_id,
                                    bc_batch_root = hex_str batch_root, bc_batch_size = batch_size,
                                    bc_batch_sig = batch_sig, bc_created_at = created_at,
                                    bc_expires_at = expires_at\<rparr>))))"


section \<open>Decoding\<close>

lemma apay_hex_nibble_eq: "apay_hex_nibble b = hex_nibble b"
  by (auto simp: apay_hex_nibble_def hex_nibble_def word_le_nat_alt)

lemma decode_pairs_hex_loop:
  "even (length s) \<Longrightarrow> even idx \<Longrightarrow>
   hex_loop idx 0 out s = map_option (\<lambda>v. out @ v) (decode_pairs s)"
proof (induction s arbitrary: idx out rule: decode_pairs.induct)
  case (1 x y rest)
  show ?case
  proof (cases "hex_nibble x = None \<or> hex_nibble y = None")
    case True
    then show ?thesis
      using "1.prems"(2) by (auto simp: apay_hex_nibble_eq split: option.splits)
  next
    case False
    then obtain a b where ab: "hex_nibble x = Some a" "hex_nibble y = Some b" by auto
    have "even (length rest)" "even (Suc (Suc idx))" using "1.prems" by auto
    from "1.IH" [OF _ _ this, of a b "out @ [or (push_bit 4 a) b]"] ab show ?thesis
      using "1.prems"(2)
      by (simp add: apay_hex_nibble_eq option.map_comp comp_def)
  qed
qed simp_all

lemma decode_pairs_hex_str: "even (length s) \<Longrightarrow> decode_pairs (as_bytes s) = hex_str_to_vec s"
  using decode_pairs_hex_loop [of "as_bytes s" 0 "[]"]
  by (simp add: hex_str_to_vec_def option.map_ident)

lemma hex_text_plain: "set s \<subseteq> set ''0123456789abcdef'' \<Longrightarrow> str_trim s = s"
proof (rule str_trim_plain)
  fix b assume s: "set s \<subseteq> set ''0123456789abcdef''" and b: "b \<in> set (as_bytes s)"
  have "\<forall>ch \<in> set ''0123456789abcdef''. (33 :: byte) \<le> word_of_nat (of_char ch)
      \<and> (word_of_nat (of_char ch) :: byte) < 128"
    by simp
  with s b show "33 \<le> b \<and> b < 128" by (auto simp: as_bytes_def)
qed

lemma decode_hex_fixed_hex_str:
  "length v = n \<Longrightarrow> apay_decode_hex_fixed n field (hex_str v) = Inr v"
  by (simp add: apay_decode_hex_fixed_def Let_def hex_text_plain [OF hex_str_set] decode_pairs_hex_str)

lemma decode_pairs_length: "decode_pairs s = Some v \<Longrightarrow> even (length s) \<Longrightarrow> length s = 2 * length v"
  by (induction s arbitrary: v rule: decode_pairs.induct) (auto split: option.splits)

lemma decode_hex_fixed_length: "apay_decode_hex_fixed n field s = Inr v \<Longrightarrow> length v = n"
  using decode_pairs_length [of "as_bytes (str_trim s)" v]
  by (auto simp: apay_decode_hex_fixed_def Let_def split: if_splits option.splits)

lemma root_loop_length:
  assumes "\<And>d. length (H d) = 32"
  shows "level \<noteq> [] \<Longrightarrow> list_all (\<lambda>x. length x = 32) level \<Longrightarrow> length (root_loop H level) = 32"
proof (induction "length level" arbitrary: level rule: less_induct)
  case less
  show ?case
  proof (cases "1 < length level")
    case True
    then have "next_level H level \<noteq> []" "length (next_level H level) < length level"
      by (auto simp del: length_0_conv simp: length_0_conv [symmetric])
    then show ?thesis
      using less.hyps [of "next_level H level"] next_level_sized [OF assms] True
      by (subst root_loop.simps) auto
  next
    case False
    with less.prems show ?thesis by (subst root_loop.simps) (cases level, auto)
  qed
qed

lemma batch_leaves_nth:
  "batch_leaves H rp bid hashes = Inr leaves \<Longrightarrow>
   length leaves = length hashes
   \<and> (\<forall>i < length hashes. \<exists>h. validate_and_parse_payment_hash (nh_payment_hash (hashes ! i)) = Inr h
        \<and> leaves ! i = leaf_hash H rp bid (nh_hash_index (hashes ! i)) h)"
proof (induction hashes arbitrary: leaves)
  case (Cons e hashes)
  then obtain h ls where e: "validate_and_parse_payment_hash (nh_payment_hash e) = Inr h"
    "batch_leaves H rp bid hashes = Inr ls" "leaves = leaf_hash H rp bid (nh_hash_index e) h # ls"
    by (auto split: sum.splits)
  from Cons.IH [OF e(2)] e show ?case by (auto simp: less_Suc_eq_0_disj)
qed simp


section \<open>Properties\<close>

text \<open>A commitment opens for every hash of its batch. When a commitment is built, the signed bytes
  are those of its own fields, which decode to the host key, the batch id and the root, and for
  every entry of the batch there is a Merkle proof that verifies its leaf against that root.\<close>

theorem batch_commitment_opens:
  assumes "build_apay_batch_commitment H recipient_hex host_hex start_index hashes created_at
      expires_at sign = Inr w"
    and "\<And>d. length (H d) = 32" "i < length hashes"
  shows "\<exists>rp hp bid r h path leaves.
      apay_decode_hex_fixed 33 ''recipient_pubkey'' recipient_hex = Inr rp
    \<and> apay_decode_hex_fixed 33 field (bc_host_pubkey w) = Inr hp
    \<and> apay_decode_hex_fixed 16 field (bc_batch_id w) = Inr bid
    \<and> apay_decode_hex_fixed 32 field (bc_batch_root w) = Inr r
    \<and> sign (apay_commit_bytes rp hp bid r (of_nat (length hashes)) created_at expires_at) = Some (bc_batch_sig w)
    \<and> validate_and_parse_payment_hash (nh_payment_hash (hashes ! i)) = Inr h
    \<and> merkle_proof H leaves i = Some path
    \<and> verify H (leaf_hash H rp bid (nh_hash_index (hashes ! i)) h) path r"
proof -
  obtain rp hp leaves where d: "apay_decode_hex_fixed 33 ''recipient_pubkey'' recipient_hex = Inr rp"
    "apay_decode_hex_fixed 33 ''host_pubkey'' host_hex = Inr hp"
    "batch_leaves H rp (apay_derive_batch_id H rp start_index) hashes = Inr leaves"
    "sign (apay_commit_bytes rp hp (apay_derive_batch_id H rp start_index) (the (root H leaves))
        (of_nat (length hashes)) created_at expires_at) = Some (bc_batch_sig w)"
    "bc_host_pubkey w = hex_str hp" "bc_batch_id w = hex_str (apay_derive_batch_id H rp start_index)"
    "bc_batch_root w = hex_str (the (root H leaves))"
    using assms(1)
    by (auto simp: build_apay_batch_commitment_def apay_batch_root_def Let_def
        split: sum.splits option.splits if_splits)
  let ?bid = "apay_derive_batch_id H rp start_index"
  obtain h where h: "validate_and_parse_payment_hash (nh_payment_hash (hashes ! i)) = Inr h"
    "leaves ! i = leaf_hash H rp ?bid (nh_hash_index (hashes ! i)) h" "i < length leaves"
    using batch_leaves_nth [OF d(3)] assms(3) by auto
  obtain r where r: "root H leaves = Some r" "length r = 32"
    "verify H (leaves ! i) (proof_loop H leaves i) r"
  proof
    have ne: "leaves \<noteq> []" using h(3) by auto
    then show "root H leaves = Some (root_loop H leaves)" by (simp add: root_def)
    show "verify H (leaves ! i) (proof_loop H leaves i) (root_loop H leaves)"
      using verify_loop_proof_loop [OF h(3), of H] by (simp add: verify_def)
    show "length (root_loop H leaves) = 32"
    proof (rule root_loop_length [OF assms(2) ne])
      show "list_all (\<lambda>x. length x = 32) leaves"
        using batch_leaves_nth [OF d(3)] assms(2) by (auto simp: list_all_length leaf_hash_def)
    qed
  qed
  have "length hp = 33" "length ?bid = 16"
    using decode_hex_fixed_length [OF d(2)] assms(2) by (simp_all add: apay_derive_batch_id_def)
  then show ?thesis
    using d h r decode_hex_fixed_hex_str
    by (intro exI [of _ rp] exI [of _ hp] exI [of _ ?bid] exI [of _ r] exI [of _ h]
        exI [of _ "proof_loop H leaves i"] exI [of _ leaves]) (simp add: merkle_proof_def)
qed

theorem batch_commitment_opens_witness:
  "let H = (\<lambda>d :: bytes. replicate 32 (of_nat (length d))); key = hex_str (replicate 33 2);
       hashes = [\<lparr>nh_hash_index = 1, nh_payment_hash = hex_str (replicate 32 7)\<rparr>]
   in \<exists>w rp bid r h path. build_apay_batch_commitment H key key 1 hashes 0 9 (\<lambda>m. Some ''sig'') = Inr w
      \<and> verify H (leaf_hash H rp bid 1 h) path r \<and> h = replicate 32 7"
proof -
  let ?H = "\<lambda>d :: bytes. replicate 32 (of_nat (length d) :: byte)" and ?key = "hex_str (replicate 33 2)"
  let ?hashes = "[\<lparr>nh_hash_index = 1, nh_payment_hash = hex_str (replicate 32 7)\<rparr>]"
  have v: "validate_and_parse_payment_hash (hex_str (replicate 32 7)) = Inr (replicate 32 7)"
    by (simp add: validate_hash_hex_str)
  have "\<exists>w. build_apay_batch_commitment ?H ?key ?key 1 ?hashes 0 9 (\<lambda>m. Some ''sig'') = Inr w"
    by (simp add: build_apay_batch_commitment_def decode_hex_fixed_hex_str apay_batch_root_def Let_def v)
  then obtain w where w: "build_apay_batch_commitment ?H ?key ?key 1 ?hashes 0 9 (\<lambda>m. Some ''sig'') = Inr w" ..
  from batch_commitment_opens [OF w, of 0 "[]"] w v show ?thesis
    by (auto simp: Let_def)
qed

text \<open>The signed bytes of a batch determine the batch: two commitments with the same bytes agree in
  both keys, the batch id, the root, the size and both times.\<close>

theorem commit_bytes_injective:
  assumes "apay_commit_bytes rp hp bid r n ct et = apay_commit_bytes rp' hp' bid' r' n' ct' et'"
    and "length rp = 33" "length hp = 33" "length bid = 16" "length r = 32"
    and "length rp' = 33" "length hp' = 33" "length bid' = 16" "length r' = 32"
  shows "rp = rp' \<and> hp = hp' \<and> bid = bid' \<and> r = r' \<and> n = n' \<and> ct = ct' \<and> et = et'"
  using assms by (simp add: apay_commit_bytes_def be_bytes_u64_inj)

theorem commit_bytes_injective_witness:
  "apay_commit_bytes (replicate 33 2) (replicate 33 3) (replicate 16 0) (replicate 32 1) 5 7 9
   \<noteq> apay_commit_bytes (replicate 33 2) (replicate 33 3) (replicate 16 0) (replicate 32 1) 5 7 8"
  using commit_bytes_injective [of "replicate 33 2" "replicate 33 3" "replicate 16 0" "replicate 32 1" 5 7 9
      "replicate 33 2" "replicate 33 3" "replicate 16 0" "replicate 32 1" 5 7 8]
  by auto

text \<open>The signed bytes of an address attestation determine the key, the expiry and the domain and
  user name run together, and nothing more: moving the border between domain and user name
  leaves the bytes, and so the signature, as they are.\<close>

theorem attest_bytes_join_names:
  assumes "length rp = 33" "length rp' = 33"
  shows "apay_attest_bytes rp domain username et = apay_attest_bytes rp' domain' username' et'
    \<longleftrightarrow> rp = rp' \<and> et = et' \<and> domain @ username = domain' @ username'"
proof -
  have "as_bytes domain @ as_bytes username @ be_bytes 8 (unat et)
      = as_bytes domain' @ as_bytes username' @ be_bytes 8 (unat et')
    \<longleftrightarrow> as_bytes (domain @ username) = as_bytes (domain' @ username') \<and> et = et'"
    unfolding as_bytes_append append_assoc [symmetric]
    by (subst append_eq_append_conv) (auto simp: be_bytes_u64_inj)
  then show ?thesis
    using assms by (auto simp: apay_attest_bytes_def simp del: append_assoc)
qed

theorem attest_bytes_join_names_witness:
  "apay_attest_bytes (replicate 33 2) ''utexo.com'' ''alice'' 0
   = apay_attest_bytes (replicate 33 2) ''utexo.comal'' ''ice'' 0"
  using attest_bytes_join_names [of "replicate 33 2" "replicate 33 2" "''utexo.com''" "''alice''" 0
      "''utexo.comal''" "''ice''" 0]
  by simp

end
