(* ===== verification/Async_Order_Props.thy ===== *)
theory Async_Order_Props
  imports Async_Order
begin

text \<open>
  What the host of \<open>src/async_order.rs\<close> keeps of its orders through every sequence of messages, and
  what the recipient's invoice cache guarantees.
\<close>

section \<open>Batches\<close>

definition hash_text :: "string \<Rightarrow> bool" where
  "hash_text s \<longleftrightarrow> (\<exists>h. length h = 32 \<and> s = hex_str h)"

definition follows :: "u64 \<times> string \<Rightarrow> u64 \<times> string \<Rightarrow> bool" where
  "follows x y \<longleftrightarrow> fst y = saturating_add (fst x) 1"

lemma parse_hash_loop_Inr:
  "parse_hash_loop prev parsed entries = Inr out \<Longrightarrow>
   \<exists>ps. out = parsed @ ps \<and> length ps = length entries \<and> list_all (\<lambda>(i, s). hash_text s) ps
     \<and> successively follows ps
     \<and> (\<forall>p. prev = Some p \<longrightarrow> ps \<noteq> [] \<longrightarrow> fst (hd ps) = saturating_add p 1)
     \<and> list_all2 (\<lambda>e (i, s). i = nh_hash_index e
          \<and> validate_and_parse_payment_hash (nh_payment_hash e) = Inr (the (hex_str_to_vec s))) entries ps"
proof (induction entries arbitrary: prev parsed)
  case Nil
  then show ?case by simp
next
  case (Cons e entries)
  then obtain h where h: "validate_and_parse_payment_hash (nh_payment_hash e) = Inr h"
    by (auto split: sum.splits)
  then have len: "length h = 32" by (simp add: validate_hash_Inr)
  let ?x = "(nh_hash_index e, hex_str h)"
  have guard: "\<forall>p. prev = Some p \<longrightarrow> nh_hash_index e = saturating_add p 1"
    and rest: "parse_hash_loop (Some (nh_hash_index e)) (parsed @ [?x]) entries = Inr out"
    using Cons.prems h by (auto split: option.splits if_splits)
  from Cons.IH [OF rest] obtain ps where ps: "out = (parsed @ [?x]) @ ps" "length ps = length entries"
    "list_all (\<lambda>(i, s). hash_text s) ps" "successively follows ps"
    "ps \<noteq> [] \<longrightarrow> fst (hd ps) = saturating_add (nh_hash_index e) 1"
    "list_all2 (\<lambda>e (i, s). i = nh_hash_index e
        \<and> validate_and_parse_payment_hash (nh_payment_hash e) = Inr (the (hex_str_to_vec s))) entries ps"
    by blast
  then show ?case
    using h len guard
    by (intro exI [of _ "?x # ps"]) (auto simp: hash_text_def successively_Cons follows_def)
qed

lemma parse_hash_batch_Inr:
  assumes "parse_hash_batch hashes = Inr ps"
  shows "length ps = length hashes" "list_all (\<lambda>(i, s). hash_text s) ps" "successively follows ps"
  using parse_hash_loop_Inr [OF assms [unfolded parse_hash_batch_def]] by auto

lemma saturating_add_small:
  "n + 1 < 2 ^ 64 \<Longrightarrow> saturating_add (of_nat n :: u64) 1 = of_nat (Suc n)"
  by (simp add: saturating_add_def unat_of_nat)

lemma follows_upto:
  "successively follows ps \<Longrightarrow> ps \<noteq> [] \<Longrightarrow> fst (hd ps) = of_nat a \<Longrightarrow> a + length ps < 2 ^ 64 \<Longrightarrow>
   map fst ps = map of_nat [a..<a + length ps]"
proof (induction ps arbitrary: a rule: induct_list012)
  case (3 x y ps)
  have "fst y = of_nat (Suc a)"
    using saturating_add_small [of a] 3(3,5,6) by (simp add: follows_def)
  then have "map fst (y # ps) = map of_nat [Suc a..<Suc a + length (y # ps)]"
    using 3(3,6) by (intro 3(2)) auto
  moreover have "[a..<a + length (x # y # ps)] = a # [Suc a..<Suc a + length (y # ps)]"
    by (subst upt_conv_Cons) auto
  ultimately show ?case
    using 3(5) by simp
qed auto


section \<open>Orders\<close>

definition order_ok :: "order_record \<Rightarrow> bool" where
  "order_ok r \<longleftrightarrow>
     map fst (or_hashes r) = map of_nat [1..<Suc (length (or_hashes r))]
     \<and> length (or_hashes r) \<le> ASYNC_ORDER_MAX_HASH_BATCH_SIZE
     \<and> distinct (map snd (or_hashes r)) \<and> list_all (\<lambda>(i, s). hash_text s) (or_hashes r)"

lemma order_ok_new [simp]: "order_ok (order_new n)"
  by (simp add: order_ok_def order_new_def)

lemma order_ok_next:
  assumes "order_ok r"
  shows "highest_hash_index r = of_nat (length (or_hashes r))"
    "next_hash_index r = of_nat (Suc (length (or_hashes r)))"
proof -
  let ?hs = "or_hashes r"
  have "fst (last ?hs) = of_nat (length ?hs)" if "?hs \<noteq> []"
  proof -
    have "fst (last ?hs) = last (map fst ?hs)" using that by (simp add: last_map)
    also have "\<dots> = last (map of_nat [1..<Suc (length ?hs)])"
      using assms by (simp add: order_ok_def)
    also have "\<dots> = of_nat (length ?hs)"
      using that by (cases "or_hashes r") (simp_all add: last_map)
    finally show ?thesis .
  qed
  then show h: "highest_hash_index r = of_nat (length ?hs)"
    by (simp add: highest_hash_index_def)
  show "next_hash_index r = of_nat (Suc (length ?hs))"
    unfolding next_hash_index_def h
    using assms by (intro saturating_add_small)
      (simp add: order_ok_def ASYNC_ORDER_MAX_HASH_BATCH_SIZE_def)
qed

lemma merge_scan_Inr:
  "merge_scan known seen ex mi hashes = Inr (ex', mi') \<Longrightarrow>
   distinct (map snd hashes) \<and> snd ` set hashes \<inter> set seen = {}
   \<and> (\<forall>(i, h) \<in> set hashes. map_of known i \<in> {None, Some h} \<and> (\<forall>(i', h') \<in> set known. h' = h \<longrightarrow> i' = i))
   \<and> (ex' \<longleftrightarrow> ex \<or> (\<exists>(i, h) \<in> set hashes. map_of known i \<noteq> None))
   \<and> (mi' \<longleftrightarrow> mi \<or> (\<exists>(i, h) \<in> set hashes. map_of known i = None))"
proof (induction known seen ex mi hashes rule: merge_scan.induct)
  case (2 known seen ex mi i h hashes)
  note ih = "2.IH"
  have nseen: "h \<notin> set seen" using "2.prems" by (auto split: if_splits)
  have nother: "\<not> list_ex (\<lambda>(i', h'). i' \<noteq> i \<and> h' = h) known"
    using "2.prems" by (auto split: if_splits option.splits)
  then have other: "\<forall>(i', h') \<in> set known. h' = h \<longrightarrow> i' = i"
    by (auto simp: list_ex_iff)
  show ?case
  proof (cases "map_of known i")
    case None
    have "merge_scan known (h # seen) ex True hashes = Inr (ex', mi')"
      using "2.prems" None nseen nother by simp
    from ih(1) [OF nseen None nother this] None other nseen show ?thesis by auto
  next
    case (Some old)
    then have old: "old = h" and "merge_scan known (h # seen) True mi hashes = Inr (ex', mi')"
      using "2.prems" nseen nother by (auto split: if_splits)
    from ih(2) [OF nseen Some _ nother this(2)] Some old other nseen show ?thesis by auto
  qed
qed simp

lemma bt_insert_last: "\<forall>(k', v') \<in> set m. k' < k \<Longrightarrow> bt_insert k v m = m @ [(k, v)]"
  by (induction m) auto

lemma bt_insert_fold:
  "sorted_wrt (<) (map fst (m @ hs)) \<Longrightarrow> fold (\<lambda>(i, h). bt_insert i h) hs m = m @ hs"
proof (induction hs arbitrary: m)
  case (Cons x hs)
  obtain i h where x: "x = (i, h)" by fastforce
  have "bt_insert i h m = m @ [(i, h)]"
    using Cons.prems by (intro bt_insert_last) (auto simp: x sorted_wrt_append)
  with Cons.IH [of "m @ [x]"] Cons.prems x show ?case by simp
qed simp

lemma sorted_indexes: "n < 2 ^ 64 \<Longrightarrow> sorted_wrt (<) (map (of_nat :: nat \<Rightarrow> u64) [1..<Suc n])"
proof -
  assume n: "n < 2 ^ 64"
  then have "(of_nat (Suc a) :: u64) < of_nat (Suc b)" if "a < b" "b < n" for a b
    using that by (simp add: word_less_nat_alt unat_of_nat del: of_nat_Suc)
  then show ?thesis
    by (auto simp: sorted_wrt_iff_nth_less simp del: of_nat_Suc upt_Suc)
qed

text \<open>What a merge does to a good order with a parsed batch: nothing, or it appends the batch.\<close>

definition batch_ok :: "(u64 \<times> string) list \<Rightarrow> bool" where
  "batch_ok ps \<longleftrightarrow> list_all (\<lambda>(i, s). hash_text s) ps \<and> successively follows ps
     \<and> length ps \<le> ASYNC_ORDER_MAX_HASH_BATCH_SIZE"

lemma merge_hashes_Inr:
  assumes ok: "order_ok r" and batch: "batch_ok ps" and m: "merge_hashes r ps = Inr r'"
  shows "order_ok r'" "or_order_id r' = or_order_id r"
    and "r' = r \<and> set ps \<subseteq> set (or_hashes r) \<or> or_hashes r' = or_hashes r @ ps"
proof -
  let ?n = "length (or_hashes r)"
  obtain ex mi where scan: "merge_scan (or_hashes r) [] False False ps = Inr (ex, mi)" and ne: "ps \<noteq> []"
    using m by (auto simp: merge_hashes_def Let_def split: if_splits sum.splits)
  note sc = merge_scan_Inr [OF scan]
  have "order_ok r' \<and> or_order_id r' = or_order_id r
    \<and> (r' = r \<and> set ps \<subseteq> set (or_hashes r) \<or> or_hashes r' = or_hashes r @ ps)"
  proof (cases ex)
    case True
    then have r': "r' = r" and nmi: "\<not> mi"
      using m scan ne by (auto simp: merge_hashes_def Let_def split: if_splits)
    have "(i, h) \<in> set (or_hashes r)" if "(i, h) \<in> set ps" for i h
      using sc nmi that by (auto dest!: map_of_SomeD)
    with r' ok show ?thesis by auto
  next
    case False
    have none: "map_of (or_hashes r) i = None" if "(i, h) \<in> set ps" for i h
      using sc False that by auto
    then have "filter (\<lambda>(i, h). map_of (or_hashes r) i = None) ps = ps"
      by (intro filter_True) auto
    with m scan ne False have len: "?n + length ps \<le> ASYNC_ORDER_MAX_HASH_BATCH_SIZE"
      and hd: "fst (hd ps) = of_nat (Suc ?n)"
      and r': "r' = r\<lparr>or_hashes := fold (\<lambda>(i, h). bt_insert i h) ps (or_hashes r)\<rparr>"
      using order_ok_next(2) [OF ok] by (auto simp: merge_hashes_def Let_def split: if_splits)
    have small: "?n + length ps < 2 ^ 64"
      using len by (simp add: ASYNC_ORDER_MAX_HASH_BATCH_SIZE_def)
    have idx: "map fst ps = map of_nat [Suc ?n..<Suc ?n + length ps]"
      using batch ne hd len by (intro follows_upto)
        (auto simp: batch_ok_def ASYNC_ORDER_MAX_HASH_BATCH_SIZE_def)
    have all: "map fst (or_hashes r @ ps) = map of_nat [1..<Suc (?n + length ps)]"
      using ok idx upt_add_eq_append [of 1 "Suc ?n" "length ps"]
      by (simp add: order_ok_def del: upt_Suc)
    have "fold (\<lambda>(i, h). bt_insert i h) ps (or_hashes r) = or_hashes r @ ps"
      using sorted_indexes [OF small] all by (intro bt_insert_fold) metis
    then have hs: "or_hashes r' = or_hashes r @ ps" by (simp add: r')
    have disj: "snd ` set ps \<inter> snd ` set (or_hashes r) = {}"
    proof (rule ccontr)
      assume "\<not> ?thesis"
      then obtain i i' h where mem: "(i, h) \<in> set ps" "(i', h) \<in> set (or_hashes r)" by force
      then have "i' = i" using sc by blast
      with mem none [of i h] show False by (metis map_of_eq_None_iff fst_conv image_eqI)
    qed
    have "order_ok r'"
      using ok batch all len sc disj unfolding order_ok_def hs batch_ok_def by auto
    with hs r' show ?thesis by simp
  qed
  then show "order_ok r'" "or_order_id r' = or_order_id r"
    "r' = r \<and> set ps \<subseteq> set (or_hashes r) \<or> or_hashes r' = or_hashes r @ ps" by blast+
qed

lemma merge_hashes_again:
  assumes ok: "order_ok r" and batch: "batch_ok ps" and m: "merge_hashes r ps = Inr r'"
  shows "merge_hashes r' ps = Inr r'"
proof -
  note r' = merge_hashes_Inr [OF ok batch m]
  have ne: "ps \<noteq> []" using m by (auto simp: merge_hashes_def)
  have dist: "distinct (map snd ps)"
    using m merge_scan_Inr [of "or_hashes r" "[]" False False ps]
    by (auto simp: merge_hashes_def Let_def split: if_splits sum.splits)
  have sub: "set ps \<subseteq> set (or_hashes r')" using r'(3) by auto
  have dfst: "distinct (map fst (or_hashes r'))"
    using r'(1) sorted_indexes [of "length (or_hashes r')"]
    by (simp add: order_ok_def ASYNC_ORDER_MAX_HASH_BATCH_SIZE_def strict_sorted_iff)
  have dsnd: "distinct (map snd (or_hashes r'))" using r'(1) by (simp add: order_ok_def)
  have scan: "merge_scan (or_hashes r') seen ex mi qs = Inr (ex \<or> qs \<noteq> [], mi)"
    if "distinct (map snd qs)" "snd ` set qs \<inter> set seen = {}" "set qs \<subseteq> set (or_hashes r')" for seen ex mi qs
    using that
  proof (induction qs arbitrary: seen ex)
    case (Cons q qs)
    obtain i h where q: "q = (i, h)" by fastforce
    have mem: "(i, h) \<in> set (or_hashes r')" using Cons.prems q by auto
    have "map_of (or_hashes r') i = Some h" using mem dfst by simp
    moreover have "\<not> list_ex (\<lambda>(i', h'). i' \<noteq> i \<and> h' = h) (or_hashes r')"
    proof
      assume "list_ex (\<lambda>(i', h'). i' \<noteq> i \<and> h' = h) (or_hashes r')"
      then obtain i' where "(i', h) \<in> set (or_hashes r')" "i' \<noteq> i" by (auto simp: list_ex_iff)
      with mem dsnd show False by (metis distinct_map inj_onD prod.inject snd_conv)
    qed
    ultimately show ?case
      using Cons.IH [of "h # seen" True] Cons.prems q by auto
  qed simp
  have "filter (\<lambda>(i, h). map_of (or_hashes r') i = None) ps = []"
    using sub dfst by (auto simp: filter_empty_conv map_of_eq_None_iff) force
  then show ?thesis
    using scan [OF dist _ sub, of "[]" False False] ne r'(1)
    by (simp add: merge_hashes_def Let_def order_ok_def)
qed


section \<open>States\<close>

lemma update_same: "AList.update k v (AList.update k v m) = AList.update k v m"
  by (induction m) auto

definition orders_ok :: "async_state \<Rightarrow> bool" where
  "orders_ok st \<longleftrightarrow>
     (\<forall>p r. map_of (as_peers st) p = Some (Some r) \<longrightarrow>
        order_ok r \<and> or_order_id r < as_next_order_id st)
     \<and> (\<forall>p q r s. map_of (as_peers st) p = Some (Some r) \<longrightarrow> map_of (as_peers st) q = Some (Some s) \<longrightarrow>
        or_order_id r = or_order_id s \<longrightarrow> p = q)"

text \<open>No accepted hash is lost or rebound, and orders keep their identity.\<close>

definition orders_kept :: "async_state \<Rightarrow> async_state \<Rightarrow> bool" where
  "orders_kept st st' \<longleftrightarrow>
     (\<forall>p r. map_of (as_peers st) p = Some (Some r) \<longrightarrow>
        (\<exists>r'. map_of (as_peers st') p = Some (Some r') \<and> or_order_id r' = or_order_id r
           \<and> (\<exists>more. or_hashes r' = or_hashes r @ more)))"

lemma orders_kept_refl [simp]: "orders_kept st st"
  by (auto simp: orders_kept_def)

lemma orders_kept_trans: "orders_kept a b \<Longrightarrow> orders_kept b c \<Longrightarrow> orders_kept a c"
  unfolding orders_kept_def by (metis append.assoc)

lemma orders_same:
  "as_peers st' = as_peers st \<Longrightarrow> as_next_order_id st' = as_next_order_id st \<Longrightarrow>
   orders_ok st' = orders_ok st \<and> orders_kept st st'"
  by (simp add: orders_ok_def orders_kept_def)

lemma record_new_orders:
  assumes "orders_ok st" "record_async_order_new peer params st = (r, st')"
  shows "orders_ok st' \<and> orders_kept st st'"
proof (cases "\<exists>ps. validate_async_order_new_params params = Inr () \<and> parse_hash_batch (np_hashes params) = Inr ps")
  case False
  then have "st' = st"
    using assms(2) by (auto simp: record_async_order_new_def split: sum.splits)
  with assms(1) show ?thesis by simp
next
  case True
  then obtain ps where v: "validate_async_order_new_params params = Inr ()"
    "parse_hash_batch (np_hashes params) = Inr ps" by blast
  have batch: "batch_ok ps"
    using parse_hash_batch_Inr [OF v(2)] v(1)
    by (auto simp: batch_ok_def validate_async_order_new_params_def split: if_splits)
  have merged: "orders_ok s' \<and> orders_kept s s'"
    if "orders_ok s" "map_of (as_peers s) peer = Some (Some order)" "merge_hashes order ps = Inr order'"
      "s' = s\<lparr>as_peers := AList.update peer (Some order') (as_peers s)\<rparr>" for s s' order order'
  proof -
    have ok: "order_ok order" "or_order_id order < as_next_order_id s"
      using that(1,2) by (auto simp: orders_ok_def)
    note m = merge_hashes_Inr [OF ok(1) batch that(3)]
    have "orders_ok s'"
      using that(1,2) m(1,2) ok(2) by (auto simp: orders_ok_def that(4) update_conv' split: if_splits)
    moreover have "\<exists>more. or_hashes order' = or_hashes order @ more" using m(3) by auto
    ultimately show ?thesis
      using that(2) m(2) by (auto simp: orders_kept_def that(4) update_conv')
  qed
  show ?thesis
  proof (cases "\<exists>order. map_of (as_peers st) peer = Some (Some order)")
    case True
    then obtain order where o: "map_of (as_peers st) peer = Some (Some order)" by blast
    with assms v merged [OF assms(1) o] show ?thesis
      by (cases "merge_hashes order ps") (auto simp: record_async_order_new_def Let_def)
  next
    case new: False
    show ?thesis
    proof (cases "checked_add (as_next_order_id st) 1")
      case None
      with assms v new show ?thesis
        by (auto simp: record_async_order_new_def Let_def split: option.splits)
    next
      case (Some nxt)
      let ?o = "order_new (as_next_order_id st)"
      let ?s = "st\<lparr>as_next_order_id := nxt, as_peers := AList.update peer (Some ?o) (as_peers st)\<rparr>"
      have lt: "as_next_order_id st < nxt"
        using Some unat_add_lem [of "as_next_order_id st" 1]
        by (auto simp: checked_add_def word_less_nat_alt split: if_splits)
      have s: "orders_ok ?s" "orders_kept st ?s" "map_of (as_peers ?s) peer = Some (Some ?o)"
      proof -
        have "or_order_id r < nxt \<and> or_order_id r \<noteq> as_next_order_id st"
          if "map_of (as_peers st) p = Some (Some r)" for p r
          using assms(1) that lt by (fastforce simp: orders_ok_def)
        then show "orders_ok ?s"
          using assms(1) lt by (auto simp: orders_ok_def update_conv' order_new_def [of "as_next_order_id st"]
              order_ok_new [unfolded order_new_def] split: if_splits) metis+
        show "orders_kept st ?s" "map_of (as_peers ?s) peer = Some (Some ?o)"
          using new by (auto simp: orders_kept_def update_conv')
      qed
      have "st' = ?s \<or> (\<exists>o'. merge_hashes ?o ps = Inr o'
          \<and> st' = ?s\<lparr>as_peers := AList.update peer (Some o') (as_peers ?s)\<rparr>)"
        using assms(2) v new Some
        by (auto simp: record_async_order_new_def Let_def split: option.splits sum.splits)
      then show ?thesis
        using s merged [OF s(1,3)] orders_kept_trans [OF s(2)] by blast
    qed
  qed
qed

section \<open>The life of a host\<close>

inductive async_step :: "async_state \<Rightarrow> async_state \<Rightarrow> bool" where
  step_message: "handle_custom_message c payload peer st = Some st' \<Longrightarrow> async_step st st'"
| step_request_new: "queue_async_order_new c host rid params st = (r, st') \<Longrightarrow> async_step st st'"
| step_request_invoice: "queue_async_order_request_invoice c peer rid p st = (r, st') \<Longrightarrow> async_step st st'"
| step_forget: "async_step st (forget_async_order_response host request_id st)"
| step_lsp: "lsp_task_done c peer rid answer st = st' \<Longrightarrow> async_step st st'"
| step_send: "get_and_clear_pending_msg st = (msgs, st') \<Longrightarrow> async_step st st'"

lemma queue_frame [simp]:
  "as_peers (queue_jsonrpc_value c p v st) = as_peers st"
  "as_next_order_id (queue_jsonrpc_value c p v st) = as_next_order_id st"
  "as_cache (queue_jsonrpc_value c p v st) = as_cache st"
  "as_pending_responses (queue_jsonrpc_value c p v st) = as_pending_responses st"
  "as_sent (queue_jsonrpc_value c p v st) = as_sent st"
  by (simp_all add: queue_jsonrpc_value_def)

lemma queue_orders [simp]:
  "orders_ok (queue_jsonrpc_value c p v st) = orders_ok st"
  "orders_kept s (queue_jsonrpc_value c p v st) = orders_kept s st"
  "orders_ok (st\<lparr>as_lsp_tasks := ts\<rparr>) = orders_ok st"
  "orders_kept s (st\<lparr>as_lsp_tasks := ts\<rparr>) = orders_kept s st"
  by (simp_all add: orders_ok_def orders_kept_def)

lemmas queue_defs = queue_jsonrpc_result_def queue_jsonrpc_error_def queue_jsonrpc_parse_error_def
  queue_jsonrpc_invalid_request_def

lemma complete_frame [simp]:
  "as_peers (complete_async_order_response c p rid res e st) = as_peers st"
  "as_next_order_id (complete_async_order_response c p rid res e st) = as_next_order_id st"
  "as_cache (complete_async_order_response c p rid res e st) = as_cache st"
  "as_pending (complete_async_order_response c p rid res e st) = as_pending st"
  by (simp_all add: complete_async_order_response_def split: prod.split option.split)

lemma receive_invoice_frame:
  assumes "receive_async_order_request_invoice c p params st = (r, st')"
  shows "as_peers st' = as_peers st" "as_next_order_id st' = as_next_order_id st"
    "as_pending st' = as_pending st"
  using assms
  by (auto simp: receive_async_order_request_invoice_def Let_def
      split: sum.splits option.splits if_splits)

lemma handle_new_orders:
  assumes "orders_ok st" "handle_new c peer rid v st = Some st'"
  shows "orders_ok st' \<and> orders_kept st st'"
proof -
  obtain r s1 where rec: "\<And>p. ac_new_params c (the v) = Some p \<Longrightarrow> record_async_order_new peer p st = (r, s1)"
    by (cases "ac_new_params c (the v)") fastforce+
  have s1: "ac_new_params c (the v) = Some p \<Longrightarrow> orders_ok s1 \<and> orders_kept st s1" for p
    using record_new_orders [OF assms(1) rec] by blast
  show ?thesis
    using assms rec s1
    by (auto simp: handle_new_def send_new_async_order_to_lsp_def queue_defs
        split: option.splits if_splits sum.splits)
qed

lemma async_step_orders:
  assumes "async_step st st'" "orders_ok st"
  shows "orders_ok st' \<and> orders_kept st st'"
  using assms
proof (induction rule: async_step.induct)
  case (step_message c payload peer st st')
  have invoice: "as_peers (handle_request_invoice c peer rid v st) = as_peers st"
    "as_next_order_id (handle_request_invoice c peer rid v st) = as_next_order_id st" for rid v
    using receive_invoice_frame
    by (auto simp: handle_request_invoice_def queue_defs split: option.split prod.split sum.split)
  have "(\<exists>rid v. handle_new c peer rid v st = Some st')
      \<or> (as_peers st' = as_peers st \<and> as_next_order_id st' = as_next_order_id st)"
    using step_message.hyps invoice
    by (auto simp: handle_custom_message_def queue_defs split: if_splits option.splits)
  then show ?case
    using handle_new_orders [OF step_message.prems] orders_same [of st' st] step_message.prems by blast
next
  case (step_request_new c host rid params st r st')
  then have "as_peers st' = as_peers st" "as_next_order_id st' = as_next_order_id st"
    by (auto simp: queue_async_order_new_def queue_async_order_request_def
        split: sum.splits json.splits if_splits)
  then show ?case using orders_same step_request_new.prems by blast
next
  case (step_request_invoice c peer rid p st r st')
  then have "as_peers st' = as_peers st" "as_next_order_id st' = as_next_order_id st"
    by (auto simp: queue_async_order_request_invoice_def queue_async_order_request_def
        split: json.splits if_splits)
  then show ?case using orders_same step_request_invoice.prems by blast
next
  case (step_forget st host request_id)
  then show ?case
    using orders_same [of "forget_async_order_response host request_id st" st]
    by (simp add: forget_async_order_response_def)
next
  case (step_lsp c peer rid answer st st')
  then show ?case
    using orders_same [of st' st] by (auto simp: lsp_task_done_def queue_defs split: sum.splits)
next
  case (step_send st msgs st')
  then show ?case
    using orders_same [of st' st] by (auto simp: get_and_clear_pending_msg_def)
qed

lemma async_steps_orders:
  assumes "async_step\<^sup>*\<^sup>* st st'" "orders_ok st"
  shows "orders_ok st' \<and> orders_kept st st'"
  using assms
proof (induction rule: rtranclp_induct)
  case (step y z)
  then show ?case using async_step_orders orders_kept_trans by blast
qed simp


section \<open>The invoice cache\<close>

lemma receive_invoice_cached:
  assumes "receive_async_order_request_invoice c peer p st = (Inr res, st')"
    and "canonicalize_request_invoice_params c p = Inr q"
  obtains e where "map_of (as_cache st') (peer, ri_payment_hash q) = Some e" "ce_params e = q" "ce_result e = res"
  using assms
  by (auto simp: receive_async_order_request_invoice_def Let_def update_conv'
      split: option.splits if_splits sum.splits)

lemma receive_invoice_keeps:
  assumes "receive_async_order_request_invoice c peer p st = (r, st')"
    and "map_of (as_cache st) key = Some e" "ac_now c < ce_expires_at e"
  shows "map_of (as_cache st') key = Some e"
proof (cases "canonicalize_request_invoice_params c p")
  case (Inl a)
  with assms show ?thesis by (simp add: receive_async_order_request_invoice_def)
next
  case (Inr q)
  show ?thesis
  proof (cases "key = (peer, ri_payment_hash q)")
    case True
    with assms Inr show ?thesis
      by (auto simp: receive_async_order_request_invoice_def Let_def split: option.splits if_splits)
  next
    case False
    with assms Inr show ?thesis
      by (auto simp: receive_async_order_request_invoice_def Let_def update_conv' delete_conv'
          split: option.splits if_splits sum.splits)
  qed
qed

text \<open>Messages handled before a given time.\<close>

inductive message_before :: "nat \<Rightarrow> async_state \<Rightarrow> async_state \<Rightarrow> bool" for t where
  "ac_now c < t \<Longrightarrow> handle_custom_message c payload peer st = Some st' \<Longrightarrow> message_before t st st'"

lemma record_new_cache: "record_async_order_new peer params st = (r, st') \<Longrightarrow> as_cache st' = as_cache st"
  by (auto simp: record_async_order_new_def Let_def split: sum.splits option.splits)

lemma message_before_cache:
  assumes "message_before t st st'" "map_of (as_cache st) key = Some e" "ce_expires_at e = t"
  shows "map_of (as_cache st') key = Some e"
  using assms
proof (cases rule: message_before.cases)
  case (1 c payload peer)
  have new: "as_cache s' = as_cache st" if "handle_new c peer rid v st = Some s'" for rid v s'
    using that record_new_cache
    by (fastforce simp: handle_new_def send_new_async_order_to_lsp_def queue_defs
        split: option.splits if_splits sum.splits prod.splits)
  have invoice: "map_of (as_cache (handle_request_invoice c peer rid v st)) key = Some e" for rid v
    using receive_invoice_keeps [OF _ assms(2)] 1(1) assms(2,3)
    by (auto simp: handle_request_invoice_def queue_defs split: option.split prod.split sum.split)
  show ?thesis
    using 1(2) new invoice assms(2)
    by (auto simp: handle_custom_message_def queue_defs split: if_splits option.splits)
qed

lemma messages_before_cache:
  assumes "(message_before t)\<^sup>*\<^sup>* st st'" "map_of (as_cache st) key = Some e" "ce_expires_at e = t"
  shows "map_of (as_cache st') key = Some e"
  using assms by (induction rule: rtranclp_induct) (auto dest: message_before_cache)


section \<open>Isolation\<close>

text \<open>The parts of the state that belong to a peer: its order, its cached invoices, the requests
  that wait for it. At most one message is queued, and only for it.\<close>

definition only_peer :: "node_id \<Rightarrow> async_state \<Rightarrow> async_state \<Rightarrow> bool" where
  "only_peer peer st st' \<longleftrightarrow>
     (\<forall>q. q \<noteq> peer \<longrightarrow>
        map_of (as_peers st') q = map_of (as_peers st) q
        \<and> (\<forall>h. map_of (as_cache st') (q, h) = map_of (as_cache st) (q, h))
        \<and> (\<forall>x. map_of (as_pending_responses st') (q, x) = map_of (as_pending_responses st) (q, x)))
     \<and> (as_pending st' = as_pending st \<or> (\<exists>text. as_pending st' = as_pending st @ [(peer, text)]))"

lemma only_peer_queue:
  assumes "only_peer peer st st'" "as_pending st' = as_pending st"
  shows "only_peer peer st (queue_jsonrpc_value c peer v st')"
  using assms by (auto simp: only_peer_def queue_jsonrpc_value_def)

lemma only_peer_refl [simp]: "only_peer peer st st"
  by (simp add: only_peer_def)

lemma only_peer_record:
  assumes "record_async_order_new peer params st = (r, st')"
  shows "only_peer peer st st'" "as_pending st' = as_pending st"
  using assms
  by (auto simp: only_peer_def record_async_order_new_def Let_def update_conv'
      split: sum.splits option.splits)

lemma only_peer_receive:
  assumes "receive_async_order_request_invoice c peer p st = (r, st')"
  shows "only_peer peer st st'"
  using assms
  by (auto simp: only_peer_def receive_async_order_request_invoice_def Let_def update_conv' delete_conv'
      split: sum.splits option.splits if_splits)

lemma only_peer_complete: "only_peer peer st (complete_async_order_response c peer rid res e st)"
proof -
  obtain pend d where r: "resolve_pending_response (ac_codec c) (as_pending_responses st)
      ''async_order'' peer rid res e = (pend, d)" by fastforce
  then have "q \<noteq> peer \<Longrightarrow> map_of pend (q, x) = map_of (as_pending_responses st) (q, x)" for q x
    by (cases rule: resolve_pending_cases) auto
  then show ?thesis
    by (auto simp: only_peer_def complete_async_order_response_def r split: option.split)
qed

lemma only_peer_new:
  assumes "handle_new c peer rid v st = Some st'"
  shows "only_peer peer st st'"
proof -
  obtain r s1 where rec: "\<And>p. ac_new_params c (the v) = Some p \<Longrightarrow> record_async_order_new peer p st = (r, s1)"
    by (cases "ac_new_params c (the v)") fastforce+
  have s1: "ac_new_params c (the v) = Some p \<Longrightarrow> only_peer peer st s1 \<and> as_pending s1 = as_pending st" for p
    using only_peer_record [OF rec] by blast
  have task: "only_peer peer st (st\<lparr>as_lsp_tasks := ts\<rparr>)" for ts
    by (simp add: only_peer_def)
  show ?thesis
    using assms rec s1 task only_peer_queue [of peer st st] only_peer_queue [of peer st s1]
    by (auto simp: handle_new_def send_new_async_order_to_lsp_def queue_defs
        split: option.splits if_splits sum.splits)
qed

lemma only_peer_invoice: "only_peer peer st (handle_request_invoice c peer rid v st)"
proof -
  have "only_peer peer st (queue_jsonrpc_value c peer w s)"
    if "receive_async_order_request_invoice c peer p st = (r, s)" for p r s w
    using only_peer_queue only_peer_receive [OF that] receive_invoice_frame(3) [OF that] by blast
  then show ?thesis
    using only_peer_queue [of peer st st]
    by (auto simp: handle_request_invoice_def queue_defs split: option.split prod.split sum.split)
qed


section \<open>A small exchange\<close>

text \<open>Two readable messages, on which the witnesses run.\<close>

definition demo_hash :: string where
  "demo_hash = hex_str (replicate 32 7)"

definition demo_new :: new_params_wire where
  "demo_new = \<lparr>np_protocol_version = 1, np_hashes = [\<lparr>nh_hash_index = 1, nh_payment_hash = demo_hash\<rparr>],
     np_batch = None, np_address_sig = None\<rparr>"

definition demo_invoice :: request_invoice_params where
  "demo_invoice = \<lparr>ri_hash_index = ''1'', ri_payment_hash = demo_hash, ri_amount_msat = 1000,
     ri_asset_id = None, ri_asset_amount = None, ri_description_hash = demo_hash,
     ri_invoice_expiry_sec = 60, ri_min_final_cltv_expiry_delta = 18\<rparr>"

definition demo_envelope :: "string \<Rightarrow> rpc_envelope" where
  "demo_envelope method =
     \<lparr>env_jsonrpc = ''2.0'', env_id = Some (JStr ''1''), env_method = Some method,
      env_params = Some JNull, env_result = None, env_error = None\<rparr>"

definition demo_ctx :: async_ctx where
  "demo_ctx =
     \<lparr>ac_codec = \<lparr>rc_from_str = (\<lambda>s. Some (demo_envelope s)), rc_error = (\<lambda>v. Inl []),
        rc_to_string = (\<lambda>v. ''reply'')\<rparr>,
      ac_allows_peer = (\<lambda>p. p = [1]), ac_new_params = (\<lambda>v. Some demo_new),
      ac_invoice_params = (\<lambda>v. Some demo_invoice), ac_sha256_from_str = hex_str_to_vec,
      ac_provider = Some (\<lambda>p q. Inr \<lparr>ir_payment_hash = demo_hash, ir_bolt11 = ''lnbc''\<rparr>),
      ac_lsp_client = False, ac_now = 5, ac_now2 = 6, ac_checked_add = (\<lambda>a b. Some (a + b))\<rparr>"

definition demo_order :: order_record where
  "demo_order = \<lparr>or_order_id = 1, or_hashes = [(1, demo_hash)]\<rparr>"

definition demo_state :: async_state where
  "demo_state = async_state_default\<lparr>as_next_order_id := 2, as_peers := [([1], Some demo_order)]\<rparr>"

lemma demo_hash_parse: "validate_and_parse_payment_hash demo_hash = Inr (replicate 32 7)"
  by (simp add: demo_hash_def validate_hash_hex_str)

lemma demo_parse: "parse_hash_batch (np_hashes demo_new) = Inr [(1, demo_hash)]"
  by (simp add: parse_hash_batch_def demo_new_def demo_hash_parse) (simp add: demo_hash_def)

lemma demo_record:
  "record_async_order_new [1] demo_new async_state_default = (Some (Inr (snapshot_result demo_order)), demo_state)"
proof -
  have "validate_async_order_new_params demo_new = Inr ()"
    using demo_parse by (simp add: validate_async_order_new_params_def PROTOCOL_VERSION_def
        ASYNC_ORDER_MAX_HASH_BATCH_SIZE_def) (simp add: demo_new_def)
  moreover have "merge_hashes (order_new 1) [(1, demo_hash)] = Inr demo_order"
    by (simp add: merge_hashes_def order_new_def next_hash_index_def highest_hash_index_def
        saturating_add_def ASYNC_ORDER_MAX_HASH_BATCH_SIZE_def demo_order_def)
  ultimately show ?thesis
    by (simp add: record_async_order_new_def demo_parse async_state_default_def checked_add_def
        demo_state_def)
qed

lemma demo_message:
  "handle_custom_message demo_ctx ASYNC_ORDER_NEW_METHOD [1] async_state_default
     = Some (demo_state\<lparr>as_pending := [([1], ''reply'')]\<rparr>)"
proof -
  have "0 \<notin> set (as_bytes ASYNC_ORDER_NEW_METHOD)"
    by (simp add: as_bytes_def ASYNC_ORDER_NEW_METHOD_def)
  then show ?thesis
    by (simp add: handle_custom_message_def demo_ctx_def demo_envelope_def JSONRPC_VERSION_def
        is_response_like_def handle_new_def demo_record queue_defs queue_jsonrpc_value_def)
      (simp add: demo_state_def async_state_default_def)
qed

lemma demo_step: "async_step\<^sup>*\<^sup>* async_state_default (demo_state\<lparr>as_pending := [([1], ''reply'')]\<rparr>)"
  using step_message [OF demo_message] by blast

lemma demo_canonical: "canonicalize_request_invoice_params demo_ctx demo_invoice = Inr demo_invoice"
proof -
  have "33 \<le> b \<and> b < 128" if b: "b \<in> set (as_bytes demo_hash)" for b
  proof -
    obtain ch where "ch \<in> set demo_hash" "b = word_of_nat (of_char ch)"
      using b by (auto simp: as_bytes_def)
    moreover have "\<forall>ch \<in> set ''0123456789abcdef''. (33 :: byte) \<le> word_of_nat (of_char ch) \<and> (word_of_nat (of_char ch) :: byte) < 128"
      by simp
    ultimately show ?thesis
      using hex_str_set [of "replicate 32 7"] unfolding demo_hash_def by blast
  qed
  then have "str_trim demo_hash = demo_hash" by (rule str_trim_plain)
  moreover have "hex_str_to_vec demo_hash = Some (replicate 32 7)" by (simp add: demo_hash_def)
  moreover have "parse_u64 ''1'' = Some 1" "show_u64 1 = ''1''"
    by (simp_all add: parse_u64_def show_u64_def digit_val_def show_nat.simps digit_char_def char_of_def bit_0)
  ultimately show ?thesis
    by (simp add: canonicalize_request_invoice_params_def demo_invoice_def demo_ctx_def demo_hash_parse)
      (simp add: demo_hash_def)
qed


section \<open>Properties\<close>

text \<open>C18. The host's books stay in order. Whatever messages, from whatever peers, it has handled,
  the hashes of every peer's order are numbered 1, 2, 3, ... without a gap, are at most 200, are
  pairwise distinct 32-byte hashes in lower-case hexadecimal, and no two peers share an order id.\<close>

theorem order_books_invariant:
  assumes "async_step\<^sup>*\<^sup>* async_state_default st" "map_of (as_peers st) peer = Some (Some r)"
  shows "map fst (or_hashes r) = map of_nat [1..<Suc (length (or_hashes r))]
    \<and> length (or_hashes r) \<le> 200 \<and> distinct (map snd (or_hashes r))
    \<and> list_all (\<lambda>(i, s). \<exists>h. length h = 32 \<and> s = hex_str h) (or_hashes r)
    \<and> (\<forall>q s. map_of (as_peers st) q = Some (Some s) \<and> or_order_id s = or_order_id r \<longrightarrow> q = peer)"
proof -
  have "orders_ok async_state_default"
    by (simp add: orders_ok_def async_state_default_def)
  with async_steps_orders [OF assms(1)] have ok: "orders_ok st" by blast
  then have "order_ok r" using assms(2) by (auto simp: orders_ok_def)
  then show ?thesis
    using ok assms(2) unfolding orders_ok_def order_ok_def hash_text_def ASYNC_ORDER_MAX_HASH_BATCH_SIZE_def
    by blast
qed

theorem order_books_invariant_witness:
  "map fst (or_hashes demo_order) = [1] \<and> distinct (map snd (or_hashes demo_order))
   \<and> map_of (as_peers demo_state) [1] = Some (Some demo_order)"
  using order_books_invariant [OF demo_step, of "[1]" demo_order]
  by (simp add: demo_state_def demo_order_def)

text \<open>What a host has accepted stays accepted: through every further sequence of messages an
  order keeps its id, and each index keeps the payment hash it was bound to.\<close>

theorem accepted_hashes_stable:
  assumes "async_step\<^sup>*\<^sup>* async_state_default st" "async_step\<^sup>*\<^sup>* st st'"
    and "map_of (as_peers st) peer = Some (Some r)"
  shows "\<exists>r'. map_of (as_peers st') peer = Some (Some r') \<and> or_order_id r' = or_order_id r
    \<and> (\<forall>i h. map_of (or_hashes r) i = Some h \<longrightarrow> map_of (or_hashes r') i = Some h)"
proof -
  have "orders_ok async_state_default"
    by (simp add: orders_ok_def async_state_default_def)
  with async_steps_orders [OF assms(1)] have "orders_ok st" by blast
  with async_steps_orders [OF assms(2)] have "orders_kept st st'" by blast
  then obtain r' more where r': "map_of (as_peers st') peer = Some (Some r')"
    "or_order_id r' = or_order_id r" "or_hashes r' = or_hashes r @ more"
    using assms(3) unfolding orders_kept_def by blast
  then show ?thesis
    by (auto simp: map_add_Some_iff)
qed

theorem accepted_hashes_stable_witness:
  "\<exists>r'. map_of (as_peers (demo_state\<lparr>as_pending := []\<rparr>)) [1] = Some (Some r')
     \<and> map_of (or_hashes r') 1 = Some demo_hash"
proof -
  let ?st = "demo_state\<lparr>as_pending := [([1], ''reply'')]\<rparr>"
  have "async_step ?st (demo_state\<lparr>as_pending := []\<rparr>)"
    by (rule step_send [of _ "[([1], ''reply'')]"]) (simp add: get_and_clear_pending_msg_def)
  then have s: "async_step\<^sup>*\<^sup>* ?st (demo_state\<lparr>as_pending := []\<rparr>)" by simp
  have "map_of (as_peers ?st) [1] = Some (Some demo_order)" by (simp add: demo_state_def)
  from accepted_hashes_stable [OF demo_step s this] show ?thesis
    by (force simp: demo_order_def)
qed

text \<open>Sending a batch again is harmless: a batch that was accepted is accepted again with the same
  answer, and the host's state does not change.\<close>

theorem resubmission_idempotent:
  assumes "async_step\<^sup>*\<^sup>* async_state_default st"
    and "record_async_order_new peer params st = (Some (Inr result), st')"
  shows "record_async_order_new peer params st' = (Some (Inr result), st')"
proof -
  have "orders_ok async_state_default"
    by (simp add: orders_ok_def async_state_default_def)
  with async_steps_orders [OF assms(1)] have ok: "orders_ok st" by blast
  obtain ps where v: "validate_async_order_new_params params = Inr ()"
    "parse_hash_batch (np_hashes params) = Inr ps"
    using assms(2) by (auto simp: record_async_order_new_def split: sum.splits)
  have batch: "batch_ok ps"
    using parse_hash_batch_Inr [OF v(2)] v(1)
    by (auto simp: batch_ok_def validate_async_order_new_params_def split: if_splits)
  obtain order order' peers where m: "order_ok order" "merge_hashes order ps = Inr order'"
    "result = snapshot_result order'" "as_peers st' = AList.update peer (Some order') peers"
  proof (cases "\<exists>order. map_of (as_peers st) peer = Some (Some order)")
    case True
    then obtain order where o: "map_of (as_peers st) peer = Some (Some order)" by blast
    then have "order_ok order" using ok by (auto simp: orders_ok_def)
    with that [of order] assms(2) v o show ?thesis
      by (auto simp: record_async_order_new_def Let_def split: sum.splits)
  next
    case False
    with that [of "order_new (as_next_order_id st)"] assms(2) v show ?thesis
      by (auto simp: record_async_order_new_def Let_def split: sum.splits option.splits)
  qed
  have "map_of (as_peers st') peer = Some (Some order')" by (simp add: m(4) update_conv')
  moreover have "AList.update peer (Some order') (as_peers st') = as_peers st'"
    by (simp add: m(4) update_same)
  ultimately show ?thesis
    using v merge_hashes_again [OF m(1) batch m(2)] m(3)
    by (simp add: record_async_order_new_def Let_def)
qed

theorem resubmission_idempotent_witness:
  "record_async_order_new [1] demo_new demo_state = (Some (Inr (snapshot_result demo_order)), demo_state)"
  using resubmission_idempotent [OF rtranclp.rtrancl_refl demo_record] .

text \<open>One invoice per payment hash and term. After a request was answered, and until the invoice
  expires, the same peer's next request for that payment hash gets the very same invoice when its
  canonical parameters are the same and \<open>stale_flow\<close> when they differ, whatever messages came
  in between and whatever the invoice provider would say.\<close>

theorem invoice_answers_stable:
  assumes "receive_async_order_request_invoice c peer p st = (Inr res, st1)"
    and "canonicalize_request_invoice_params c p = Inr q"
    and "map_of (as_cache st1) (peer, ri_payment_hash q) = Some e"
    and "(message_before (ce_expires_at e))\<^sup>*\<^sup>* st1 st2" "ac_now c' < ce_expires_at e"
    and "canonicalize_request_invoice_params c' p' = Inr q'" "ri_payment_hash q' = ri_payment_hash q"
    and "ac_provider c' = Some provider"
  shows "receive_async_order_request_invoice c' peer p' st2
    = (if q' = q then Inr res else Inl stale_flow, st2)"
proof -
  obtain e' where "map_of (as_cache st1) (peer, ri_payment_hash q) = Some e'" "ce_params e' = q" "ce_result e' = res"
    using receive_invoice_cached [OF assms(1,2)] .
  then have e: "ce_params e = q" "ce_result e = res" using assms(3) by auto
  have "map_of (as_cache st2) (peer, ri_payment_hash q) = Some e"
    using messages_before_cache [OF assms(4,3)] by simp
  then show ?thesis
    using e assms(5-8) by (auto simp: receive_async_order_request_invoice_def)
qed

theorem invoice_answers_stable_witness:
  "let e = \<lparr>ce_params = demo_invoice, ce_result = \<lparr>ir_payment_hash = demo_hash, ir_bolt11 = ''lnbc''\<rparr>,
             ce_expires_at = 60 * 10 ^ 9 + 6\<rparr>;
       st = async_state_default\<lparr>as_cache := [(([1], demo_hash), e)]\<rparr>
   in receive_async_order_request_invoice demo_ctx [1] demo_invoice async_state_default = (Inr (ce_result e), st)
      \<and> receive_async_order_request_invoice demo_ctx [1] demo_invoice st = (Inr (ce_result e), st)"
proof -
  let ?e = "\<lparr>ce_params = demo_invoice, ce_result = \<lparr>ir_payment_hash = demo_hash, ir_bolt11 = ''lnbc''\<rparr>,
      ce_expires_at = 60 * 10 ^ 9 + 6\<rparr>"
  let ?st = "async_state_default\<lparr>as_cache := [(([1], demo_hash), ?e)]\<rparr>"
  have r: "receive_async_order_request_invoice demo_ctx [1] demo_invoice async_state_default = (Inr (ce_result ?e), ?st)"
    by (simp add: receive_async_order_request_invoice_def demo_canonical)
      (simp add: demo_ctx_def demo_invoice_def async_state_default_def)
  have "map_of (as_cache ?st) ([1], ri_payment_hash demo_invoice) = Some ?e"
    by (simp add: demo_invoice_def)
  from invoice_answers_stable [OF r demo_canonical this rtranclp.rtrancl_refl _ demo_canonical refl] r
  show ?thesis by (simp add: demo_ctx_def Let_def)
qed

text \<open>Peers are kept apart. A message of a peer that access control does not allow changes nothing
  and is not answered; any other message can change only the sender's own order, cached invoices
  and waiting requests, and is answered by at most one message, to the sender.\<close>

theorem peers_isolated:
  assumes "handle_custom_message c payload peer st = Some st'"
  shows "(if ac_allows_peer c peer
      then (\<forall>q. q \<noteq> peer \<longrightarrow>
          map_of (as_peers st') q = map_of (as_peers st) q
          \<and> (\<forall>h. map_of (as_cache st') (q, h) = map_of (as_cache st) (q, h))
          \<and> (\<forall>x. map_of (as_pending_responses st') (q, x) = map_of (as_pending_responses st) (q, x)))
        \<and> (as_pending st' = as_pending st \<or> (\<exists>text. as_pending st' = as_pending st @ [(peer, text)]))
      else st' = st)"
proof (cases "ac_allows_peer c peer")
  case True
  have "only_peer peer st st'"
    using assms True only_peer_new only_peer_invoice only_peer_complete only_peer_queue
    by (auto simp: handle_custom_message_def queue_defs split: if_splits option.splits)
  with True show ?thesis by (simp add: only_peer_def)
next
  case False
  with assms show ?thesis by (simp add: handle_custom_message_def)
qed

theorem peers_isolated_witness:
  "handle_custom_message demo_ctx ASYNC_ORDER_NEW_METHOD [2] demo_state = Some demo_state
   \<and> map_of (as_peers (demo_state\<lparr>as_pending := [([1], ''reply'')]\<rparr>)) [2] = None"
proof -
  have n: "handle_custom_message demo_ctx ASYNC_ORDER_NEW_METHOD [2] demo_state = Some demo_state"
    by (simp add: handle_custom_message_def demo_ctx_def)
  show ?thesis
    using peers_isolated [OF n] peers_isolated [OF demo_message] n
    by (auto simp: demo_ctx_def async_state_default_def)
qed

end
