(* ===== verification/Async_Client.thy ===== *)
theory Async_Client
  imports Async_Order_Props Synced_Claims
begin

text \<open>
  The recipient's and the LSP's side of asynchronous orders, \<open>src/async_order.rs\<close>: the derivation of
  payment preimages and the batches made of them, the persisted next index, and what the HTTP
  client accepts as an answer. SHA-256 is the parameter \<open>H\<close>; the BIP-32 library, the HTTP library
  and the key-value store are arguments.
\<close>

section \<open>Preimages\<close>

definition ASYNC_ORDER_FIRST_HASH_INDEX :: u64 where
  "ASYNC_ORDER_FIRST_HASH_INDEX = 1"

definition ASYNC_PAYMENTS_ACCOUNT_INDEX :: u32 where
  "ASYNC_PAYMENTS_ACCOUNT_INDEX = 0"

definition ASYNC_PAYMENTS_BIP32_MAX_CHILD_INDEX :: u32 where
  "ASYNC_PAYMENTS_BIP32_MAX_CHILD_INDEX = 0x7fffffff"

definition ASYNC_PAYMENTS_PREIMAGE_DOMAIN :: bytes where
  "ASYNC_PAYMENTS_PREIMAGE_DOMAIN = as_bytes ''async-payments/v0''"

definition ASYNC_PAYMENTS_PURPOSE_APAY_INDEX :: u32 where
  "ASYNC_PAYMENTS_PURPOSE_APAY_INDEX = 0x41504159"

definition ASYNC_PAYMENTS_KV_NAMESPACE :: string where
  "ASYNC_PAYMENTS_KV_NAMESPACE = ''async_payments''"

definition ASYNC_PAYMENTS_NEXT_INDEX_KV_NAMESPACE :: string where
  "ASYNC_PAYMENTS_NEXT_INDEX_KV_NAMESPACE = ''next_hash_index''"

text \<open>Extended keys and their operations; \<open>Inl\<close> is the printed error of the library.\<close>

record 'x bip32 =
  bk_new_master :: "string \<Rightarrow> bytes \<Rightarrow> string + 'x"
  bk_into_extended_key :: "string \<Rightarrow> string + (string \<Rightarrow> 'x option)"
  bk_derive_priv :: "'x \<Rightarrow> u32 \<Rightarrow> string + 'x"
  bk_secret_bytes :: "'x \<Rightarrow> bytes"

definition derive_hardened_child :: "'x bip32 \<Rightarrow> 'x \<Rightarrow> u32 \<Rightarrow> rpc_error + 'x" where
  "derive_hardened_child bk parent index =
     (if index > ASYNC_PAYMENTS_BIP32_MAX_CHILD_INDEX then Inl invalid_hash_batch
      else case bk_derive_priv bk parent index of
        Inl err \<Rightarrow> Inl (internal_error (''async_payment_preimage_derivation_failed: '' @ err))
      | Inr child \<Rightarrow> Inr child)"

fun derive_path :: "'x bip32 \<Rightarrow> 'x \<Rightarrow> u32 list \<Rightarrow> rpc_error + 'x" where
  "derive_path bk xprv [] = Inr xprv"
| "derive_path bk xprv (index # path) =
     (case derive_hardened_child bk xprv index of
        Inl e \<Rightarrow> Inl e
      | Inr child \<Rightarrow> derive_path bk child path)"

definition node_h31 :: "(bytes \<Rightarrow> bytes) \<Rightarrow> node_id \<Rightarrow> u32" where
  "node_h31 H this_node_pubkey =
     and (word_of_nat (be_val (take 4 (H this_node_pubkey)))) ASYNC_PAYMENTS_BIP32_MAX_CHILD_INDEX"

definition account_path :: "(bytes \<Rightarrow> bytes) \<Rightarrow> node_id \<Rightarrow> u32 list" where
  "account_path H this_node_pubkey =
     [ASYNC_PAYMENTS_PURPOSE_APAY_INDEX, ASYNC_PAYMENTS_ACCOUNT_INDEX, node_h31 H this_node_pubkey]"

definition build_from_seed ::
  "(bytes \<Rightarrow> bytes) \<Rightarrow> 'x bip32 \<Rightarrow> bytes \<Rightarrow> string \<Rightarrow> node_id \<Rightarrow> rpc_error + 'x" where
  "build_from_seed H bk seed network this_node_pubkey =
     (case bk_new_master bk network seed of
        Inl err \<Rightarrow> Inl (internal_error (''async_payment_root_derivation_failed: '' @ err))
      | Inr account_xprv \<Rightarrow> derive_path bk account_xprv (account_path H this_node_pubkey))"

definition build_from_mnemonic ::
  "(bytes \<Rightarrow> bytes) \<Rightarrow> 'x bip32 \<Rightarrow> string \<Rightarrow> string \<Rightarrow> node_id \<Rightarrow> rpc_error + 'x" where
  "build_from_mnemonic H bk mnemonic network this_node_pubkey =
     (case bk_into_extended_key bk mnemonic of
        Inl err \<Rightarrow> Inl (internal_error (''async_payment_root_derivation_failed: '' @ err))
      | Inr xkey \<Rightarrow>
          (case xkey network of
             None \<Rightarrow> Inl (internal_error ''async_payment_xprv_not_available'')
           | Some account_xprv \<Rightarrow> derive_path bk account_xprv (account_path H this_node_pubkey)))"

record hash_material =
  hm_hash_index :: u64
  hm_payment_preimage :: bytes
  hm_payment_hash :: bytes

definition derive_hash_material ::
  "(bytes \<Rightarrow> bytes) \<Rightarrow> 'x bip32 \<Rightarrow> 'x \<Rightarrow> u64 \<Rightarrow> rpc_error + hash_material" where
  "derive_hash_material H bk account_xprv hash_index =
     (if hash_index < ASYNC_ORDER_FIRST_HASH_INDEX then Inl invalid_hash_batch
      else if 2 ^ 32 \<le> unat hash_index then Inl invalid_hash_batch
      else let index = ucast hash_index :: u32
        in if index > ASYNC_PAYMENTS_BIP32_MAX_CHILD_INDEX then Inl invalid_hash_batch
           else case derive_hardened_child bk account_xprv index of
             Inl e \<Rightarrow> Inl e
           | Inr child_xprv \<Rightarrow>
               (let payment_preimage = H (ASYNC_PAYMENTS_PREIMAGE_DOMAIN @ bk_secret_bytes bk child_xprv)
                in Inr \<lparr>hm_hash_index = hash_index, hm_payment_preimage = payment_preimage,
                        hm_payment_hash = H payment_preimage\<rparr>))"

fun prepare_hashes ::
  "(bytes \<Rightarrow> bytes) \<Rightarrow> 'x bip32 \<Rightarrow> 'x \<Rightarrow> u64 list \<Rightarrow> rpc_error + new_hash_wire list" where
  "prepare_hashes H bk account_xprv [] = Inr []"
| "prepare_hashes H bk account_xprv (hash_index # rest) =
     (case derive_hash_material H bk account_xprv hash_index of
        Inl e \<Rightarrow> Inl e
      | Inr material \<Rightarrow>
          (case prepare_hashes H bk account_xprv rest of
             Inl e \<Rightarrow> Inl e
           | Inr hashes \<Rightarrow>
               Inr (\<lparr>nh_hash_index = hm_hash_index material,
                     nh_payment_hash = hex_str (hm_payment_hash material)\<rparr> # hashes)))"

text \<open>\<open>start_index..=last_index\<close> are the values from one to the other.\<close>

definition prepare_async_order_new_params ::
  "(bytes \<Rightarrow> bytes) \<Rightarrow> 'x bip32 \<Rightarrow> 'x \<Rightarrow> u64 \<Rightarrow> nat \<Rightarrow> rpc_error + new_params_wire" where
  "prepare_async_order_new_params H bk account_xprv start_index batch_size =
     (if start_index < ASYNC_ORDER_FIRST_HASH_INDEX \<or> batch_size = 0
         \<or> ASYNC_ORDER_MAX_HASH_BATCH_SIZE < batch_size then Inl invalid_hash_batch
      else case checked_add start_index (of_nat (batch_size - 1)) of
        None \<Rightarrow> Inl invalid_hash_batch
      | Some last_index \<Rightarrow>
          if last_index > ucast ASYNC_PAYMENTS_BIP32_MAX_CHILD_INDEX then Inl invalid_hash_batch
          else case prepare_hashes H bk account_xprv
                 (map of_nat [unat start_index..<Suc (unat last_index)]) of
            Inl e \<Rightarrow> Inl e
          | Inr hashes \<Rightarrow>
              Inr \<lparr>np_protocol_version = PROTOCOL_VERSION, np_hashes = hashes, np_batch = None,
                   np_address_sig = None\<rparr>)"


section \<open>The persisted next index\<close>

definition validate_async_payments_next_hash_index :: "u64 \<Rightarrow> rpc_error + unit" where
  "validate_async_payments_next_hash_index next_index =
     (if ASYNC_ORDER_FIRST_HASH_INDEX \<le> next_index
         \<and> next_index \<le> ucast ASYNC_PAYMENTS_BIP32_MAX_CHILD_INDEX + 1 then Inr ()
      else Inl (internal_error ''async_payments_next_index_out_of_range''))"

definition next_index_key :: "node_id \<Rightarrow> kv_key" where
  "next_index_key host_node_id =
     (ASYNC_PAYMENTS_KV_NAMESPACE, ASYNC_PAYMENTS_NEXT_INDEX_KV_NAMESPACE, hex_str host_node_id)"

text \<open>The printed forms of library errors, and an unwinding panic of the store as \<open>None\<close>.\<close>

record error_text =
  et_utf8 :: "bytes \<Rightarrow> string"
  et_int :: "string \<Rightarrow> string"
  et_io :: "io_kind \<Rightarrow> string"

definition decode_next_hash_index :: "error_text \<Rightarrow> bytes \<Rightarrow> rpc_error + u64" where
  "decode_next_hash_index et bs =
     (if \<not> utf8_valid bs then
        Inl (internal_error (''async_payments_next_index_invalid_utf8: '' @ et_utf8 et bs))
      else case parse_u64 (from_bytes bs) of
        None \<Rightarrow>
          Inl (internal_error (''async_payments_next_index_invalid_value: '' @ et_int et (from_bytes bs)))
      | Some next_index \<Rightarrow>
          (case validate_async_payments_next_hash_index next_index of
             Inl e \<Rightarrow> Inl e
           | Inr _ \<Rightarrow> Inr next_index))"

definition read_async_payments_next_hash_index ::
  "error_text \<Rightarrow> ('st \<Rightarrow> kv_key \<Rightarrow> (failure + bytes) \<times> 'st) \<Rightarrow> 'st \<Rightarrow> node_id
     \<Rightarrow> (rpc_error + u64) option \<times> 'st" where
  "read_async_payments_next_hash_index et rd st host_node_id =
     (case rd st (next_index_key host_node_id) of
        (Inr bs, st) \<Rightarrow> (Some (decode_next_hash_index et bs), st)
      | (Inl (Io k), st) \<Rightarrow>
          (if k = NotFound then (Some (Inr ASYNC_ORDER_FIRST_HASH_INDEX), st)
           else (Some (Inl (internal_error (''async_payments_next_index_read_failed: '' @ et_io et k))), st))
      | (Inl Panic, st) \<Rightarrow> (None, st))"

definition write_async_payments_next_hash_index ::
  "error_text \<Rightarrow> ('st \<Rightarrow> kv_key \<Rightarrow> bytes \<Rightarrow> (failure + unit) \<times> 'st) \<Rightarrow> 'st \<Rightarrow> node_id \<Rightarrow> u64
     \<Rightarrow> (rpc_error + unit) option \<times> 'st" where
  "write_async_payments_next_hash_index et wr st host_node_id next_index =
     (case validate_async_payments_next_hash_index next_index of
        Inl e \<Rightarrow> (Some (Inl e), st)
      | Inr _ \<Rightarrow>
          (case wr st (next_index_key host_node_id) (as_bytes (show_u64 next_index)) of
             (Inr _, st) \<Rightarrow> (Some (Inr ()), st)
           | (Inl (Io k), st) \<Rightarrow>
               (Some (Inl (internal_error (''async_payments_next_index_write_failed: '' @ et_io et k))), st)
           | (Inl Panic, st) \<Rightarrow> (None, st)))"


section \<open>The LSP client\<close>

definition trim_end_slashes :: "string \<Rightarrow> string" where
  "trim_end_slashes s = rev (dropWhile (\<lambda>c. c = CHR ''/'') (rev s))"

record lsp_client =
  lc_base_url :: string
  lc_bearer_token :: "string option"

definition lsp_client_new :: "string \<Rightarrow> string option \<Rightarrow> lsp_client" where
  "lsp_client_new base_url token = \<lparr>lc_base_url = trim_end_slashes base_url, lc_bearer_token = token\<rparr>"

record http_request =
  hr_url :: string
  hr_bearer :: "string option"
  hr_body :: json

definition lsp_post :: "lsp_client \<Rightarrow> string \<Rightarrow> json \<Rightarrow> http_request" where
  "lsp_post lc path body =
     \<lparr>hr_url = lc_base_url lc @ path,
      hr_bearer = (case lc_bearer_token lc of None \<Rightarrow> None | Some t \<Rightarrow> if t = [] then None else Some t),
      hr_body = body\<rparr>"

record http_envelope =
  he_jsonrpc :: string
  he_id :: "json option"
  he_result :: "new_result_wire option"
  he_error :: "rpc_error option"

text \<open>What comes back: a timeout, a failed send, or a status with its printed form and the decoded
  body (\<open>Inl\<close> the reason of a failure).\<close>

datatype http_outcome =
    HttpTimeout
  | HttpFailed string
  | HttpResponse nat string "string + http_envelope"

definition is_success :: "nat \<Rightarrow> bool" where
  "is_success status \<longleftrightarrow> 200 \<le> status \<and> status < 300"

definition claimable_request :: "lsp_client \<Rightarrow> bytes \<Rightarrow> u64 \<Rightarrow> u32 option \<Rightarrow> http_request" where
  "claimable_request lc payment_hash amount_msat claim_deadline_height =
     lsp_post lc ''/internal/async_order/claimable''
       (JObj [(''amount_msat'', json_u amount_msat),
          (''claim_deadline_height'', json_opt json_u claim_deadline_height),
          (''payment_hash'', JStr (hex_str payment_hash))])"

definition payment_sent_request :: "lsp_client \<Rightarrow> string \<Rightarrow> string \<Rightarrow> http_request" where
  "payment_sent_request lc payment_hash payment_preimage =
     lsp_post lc ''/internal/async_order/payment_sent''
       (JObj [(''payment_hash'', JStr payment_hash), (''payment_preimage'', JStr payment_preimage)])"

definition order_new_request :: "lsp_client \<Rightarrow> node_id \<Rightarrow> json \<Rightarrow> new_params_wire \<Rightarrow> http_request" where
  "order_new_request lc sender_node_id request_id p =
     lsp_post lc ''/internal/async_order/new''
       (JObj ([(''id'', request_id), (''peer_pubkey'', JStr (hex_str sender_node_id)),
           (''protocol_version'', json_u (np_protocol_version p)),
           (''hashes'', JArr (map new_hash_json (np_hashes p)))]
          @ (case np_batch p of None \<Rightarrow> [] | Some b \<Rightarrow> [(''batch'', batch_commitment_json b)])
          @ (case np_address_sig p of None \<Rightarrow> [] | Some s \<Rightarrow> [(''address_sig'', JStr s)])))"

text \<open>The notifications are spawned only with a client and a runtime; the request is what is sent.\<close>

definition notify_claimable_hodl_invoice ::
  "lsp_client option \<Rightarrow> bool \<Rightarrow> bytes \<Rightarrow> u64 \<Rightarrow> u32 option \<Rightarrow> http_request option" where
  "notify_claimable_hodl_invoice client runtime payment_hash amount_msat claim_deadline_height =
     (case client of
        None \<Rightarrow> None
      | Some lc \<Rightarrow>
          if runtime then Some (claimable_request lc payment_hash amount_msat claim_deadline_height)
          else None)"

definition notify_payment_sent ::
  "lsp_client option \<Rightarrow> bool \<Rightarrow> bytes \<Rightarrow> bytes \<Rightarrow> http_request option" where
  "notify_payment_sent client runtime payment_hash payment_preimage =
     (case client of
        None \<Rightarrow> None
      | Some lc \<Rightarrow>
          if runtime then Some (payment_sent_request lc (hex_str payment_hash) (hex_str payment_preimage))
          else None)"

text \<open>The common part of the two notifications, with the name of the path in the message.\<close>

definition notification_answer :: "string \<Rightarrow> http_outcome \<Rightarrow> rpc_error + unit" where
  "notification_answer path outcome =
     (let prefix = ''async_order_lsp_request_failed: POST /internal/async_order/'' @ path
      in case outcome of
           HttpTimeout \<Rightarrow> Inl (internal_error (prefix @ '' timed out''))
         | HttpFailed err \<Rightarrow> Inl (internal_error (prefix @ '' failed: '' @ err))
         | HttpResponse status text body \<Rightarrow>
             if \<not> is_success status then Inl (internal_error (prefix @ '' returned '' @ text))
             else Inr ())"

definition async_order_claimable :: "http_outcome \<Rightarrow> rpc_error + unit" where
  "async_order_claimable outcome = notification_answer ''claimable'' outcome"

definition async_order_payment_sent :: "http_outcome \<Rightarrow> rpc_error + unit" where
  "async_order_payment_sent outcome = notification_answer ''payment_sent'' outcome"

definition async_order_new_answer :: "json \<Rightarrow> http_outcome \<Rightarrow> rpc_error + new_result_wire" where
  "async_order_new_answer request_id outcome =
     (let bad = (\<lambda>why. Inl (internal_error (''utexo_lsp_invalid_response: '' @ why)))
      in case outcome of
           HttpTimeout \<Rightarrow>
             Inl (internal_error ''async_order_lsp_request_failed: POST /internal/async_order/new timed out'')
         | HttpFailed err \<Rightarrow>
             Inl (internal_error (''async_order_lsp_request_failed: POST /internal/async_order/new failed: '' @ err))
         | HttpResponse status text (Inl err) \<Rightarrow> bad err
         | HttpResponse status text (Inr e) \<Rightarrow>
             if he_jsonrpc e \<noteq> JSONRPC_VERSION
               then bad (''expected jsonrpc '' @ JSONRPC_VERSION @ '', got '' @ he_jsonrpc e)
             else if he_id e \<noteq> Some request_id then bad ''response id did not match request id''
             else if he_result e \<noteq> None \<and> he_error e \<noteq> None
               then bad ''response contained both result and error''
             else if is_success status then
               (case (he_result e, he_error e) of
                  (Some result, None) \<Rightarrow> Inr result
                | (None, Some err) \<Rightarrow> Inl err
                | (Some _, Some _) \<Rightarrow> bad ''response contained both result and error''
                | (None, None) \<Rightarrow> bad ''response missing result'')
             else
               (let failed = (\<lambda>why. Inl (internal_error (''utexo_lsp_error_status_'' @ text @ why)))
                in case (he_result e, he_error e) of
                     (Some _, Some _) \<Rightarrow> failed '': response contained both result and error''
                   | (Some _, None) \<Rightarrow> failed '': response unexpectedly contained result''
                   | (None, Some err) \<Rightarrow> Inl err
                   | (None, None) \<Rightarrow> failed '': missing error envelope''))"

end
