(* ===== verification/Async_Client_Props.thy ===== *)
theory Async_Client_Props
  imports Async_Client
begin

text \<open>
  Properties of the two ends of an order: the batches a recipient prepares are batches the host
  accepts, the persisted index is read back as written, and only a well-formed answer of the LSP
  counts as success.
\<close>

section \<open>Derivation\<close>

lemma ucast_u32_u64 [simp]: "unat (ucast (n :: u64) :: u32) = unat n mod 2 ^ 32"
  by (simp add: unsigned_ucast_eq unsigned_take_bit_eq take_bit_eq_mod)

lemma derive_hash_material_Inr:
  assumes "derive_hash_material H bk x i = Inr m"
  shows "hm_hash_index m = i" "hm_payment_hash m = H (hm_payment_preimage m)"
  using assms by (auto simp: derive_hash_material_def Let_def split: if_splits sum.splits)

lemma derive_hash_material_iff:
  "derive_hash_material H bk x i = Inr m \<longleftrightarrow>
     1 \<le> unat i \<and> unat i < 2 ^ 31
     \<and> (\<exists>child. bk_derive_priv bk x (word_of_nat (unat i)) = Inr child
          \<and> m = (let p = H (ASYNC_PAYMENTS_PREIMAGE_DOMAIN @ bk_secret_bytes bk child)
                  in \<lparr>hm_hash_index = i, hm_payment_preimage = p, hm_payment_hash = H p\<rparr>))"
proof -
  have "(ucast i :: u32) = word_of_nat (unat i)" if "unat i < 2 ^ 32"
    using that by (intro word_unat_eq_iff [THEN iffD2]) (simp add: unat_of_nat)
  then show ?thesis
    by (cases "unat i < 2 ^ 32")
      (auto simp: derive_hash_material_def derive_hardened_child_def ASYNC_ORDER_FIRST_HASH_INDEX_def
        ASYNC_PAYMENTS_BIP32_MAX_CHILD_INDEX_def Let_def word_less_nat_alt unat_of_nat not_less
        split: sum.splits)
qed

lemma prepare_hashes_Inr:
  "prepare_hashes H bk x indexes = Inr hs \<Longrightarrow>
   list_all2 (\<lambda>i h. \<exists>m. derive_hash_material H bk x i = Inr m
      \<and> h = \<lparr>nh_hash_index = i, nh_payment_hash = hex_str (hm_payment_hash m)\<rparr>) indexes hs"
proof (induction indexes arbitrary: hs)
  case (Cons i indexes)
  then obtain m hs' where m: "derive_hash_material H bk x i = Inr m"
    and rest: "prepare_hashes H bk x indexes = Inr hs'"
    and hs: "hs = \<lparr>nh_hash_index = hm_hash_index m, nh_payment_hash = hex_str (hm_payment_hash m)\<rparr> # hs'"
    by (auto split: sum.splits)
  from Cons.IH [OF rest] m derive_hash_material_Inr [OF m] show ?case
    unfolding hs by auto
qed simp

lemma account_path_bound:
  "list_all (\<lambda>index. index \<le> ASYNC_PAYMENTS_BIP32_MAX_CHILD_INDEX) (account_path H pk)"
  by (simp add: account_path_def node_h31_def ASYNC_PAYMENTS_BIP32_MAX_CHILD_INDEX_def
      ASYNC_PAYMENTS_PURPOSE_APAY_INDEX_def ASYNC_PAYMENTS_ACCOUNT_INDEX_def word_and_le1)


section \<open>Batches the host accepts\<close>

definition entry_pair :: "new_hash_wire \<Rightarrow> u64 \<times> string" where
  "entry_pair e = (nh_hash_index e, nh_payment_hash e)"

lemma hash_text_parse:
  "hash_text s \<Longrightarrow> \<exists>h. validate_and_parse_payment_hash s = Inr h \<and> hex_str h = s"
  by (auto simp: hash_text_def validate_hash_hex_str)

lemma parse_hash_loop_ok:
  assumes "list_all (\<lambda>e. hash_text (nh_payment_hash e)) es"
    and "successively follows (map entry_pair es)"
    and "\<And>p. prev = Some p \<Longrightarrow> es \<noteq> [] \<Longrightarrow> nh_hash_index (hd es) = saturating_add p 1"
  shows "parse_hash_loop prev parsed es = Inr (parsed @ map entry_pair es)"
  using assms
proof (induction es arbitrary: prev parsed)
  case (Cons e es)
  obtain h where h: "validate_and_parse_payment_hash (nh_payment_hash e) = Inr h"
      "hex_str h = nh_payment_hash e"
    using Cons.prems(1) hash_text_parse by auto
  have "parse_hash_loop (Some (nh_hash_index e)) (parsed @ [entry_pair e]) es
      = Inr ((parsed @ [entry_pair e]) @ map entry_pair es)"
    using Cons.prems(1,2)
    by (intro Cons.IH) (auto simp: successively_Cons follows_def entry_pair_def hd_map)
  then show ?case
    using h Cons.prems(3) by (auto simp: entry_pair_def split: option.split)
qed simp

lemma successively_follows_upto:
  assumes "map fst ps = map of_nat [a..<a + length ps]" "a + length ps < 2 ^ 64"
  shows "successively follows ps"
proof -
  have n: "fst (ps ! k) = of_nat (a + k)" if "k < length ps" for k
    using arg_cong [OF assms(1), of "\<lambda>l. l ! k"] that by simp
  have "follows (ps ! k) (ps ! Suc k)" if "Suc k < length ps" for k
    using n [of k] n [OF that] saturating_add_small [of "a + k"] that assms(2)
    by (simp add: follows_def)
  then show ?thesis
    by (simp add: successively_conv_nth)
qed

lemma merge_scan_fresh:
  assumes "list_all (\<lambda>(i, h). map_of known i = None) ps"
    and "distinct (map snd ps)" "set (map snd ps) \<inter> (set seen \<union> snd ` set known) = {}"
  shows "merge_scan known seen ex mi ps = Inr (ex, mi \<or> ps \<noteq> [])"
  using assms
proof (induction ps arbitrary: seen mi)
  case (Cons p ps)
  obtain i h where p: "p = (i, h)" by fastforce
  have "\<not> list_ex (\<lambda>(i', h'). i' \<noteq> i \<and> h' = h) known"
    using Cons.prems(3) by (force simp: p list_ex_iff)
  moreover have "merge_scan known (h # seen) ex True ps = Inr (ex, True)"
    using Cons.IH [of "h # seen" True] Cons.prems p by auto
  ultimately show ?case
    using Cons.prems p by auto
qed simp

lemma merge_hashes_append:
  assumes ok: "order_ok r" and ne: "ps \<noteq> []"
    and idx: "map fst ps = map of_nat [Suc (length (or_hashes r))..<Suc (length (or_hashes r)) + length ps]"
    and room: "length (or_hashes r) + length ps \<le> ASYNC_ORDER_MAX_HASH_BATCH_SIZE"
    and dist: "distinct (map snd (or_hashes r @ ps))"
  shows "merge_hashes r ps = Inr (r\<lparr>or_hashes := or_hashes r @ ps\<rparr>)"
proof -
  let ?n = "length (or_hashes r)"
  have all: "map fst (or_hashes r @ ps) = map of_nat [1..<Suc (?n + length ps)]"
    using ok idx upt_add_eq_append [of 1 "Suc ?n" "length ps"]
    by (simp add: order_ok_def del: upt_Suc)
  have small: "?n + length ps < 2 ^ 64"
    using room by (simp add: ASYNC_ORDER_MAX_HASH_BATCH_SIZE_def)
  have sorted: "sorted_wrt (<) (map fst (or_hashes r @ ps))"
    unfolding all by (rule sorted_indexes [OF small])
  then have "distinct (map fst (or_hashes r @ ps))"
    by (simp add: strict_sorted_iff)
  then have fresh: "list_all (\<lambda>(i, h). map_of (or_hashes r) i = None) ps"
    by (force simp: list_all_iff map_of_eq_None_iff)
  have scan: "merge_scan (or_hashes r) [] False False ps = Inr (False, True)"
    using merge_scan_fresh [OF fresh, of "[]" False False] dist ne by auto
  have "fst (hd ps) = next_hash_index r"
    using arg_cong [OF idx, of hd] ne by (simp add: hd_map order_ok_next(2) [OF ok] upt_conv_Cons del: upt_Suc)
  moreover have "filter (\<lambda>(i, h). map_of (or_hashes r) i = None) ps = ps"
    using fresh by (simp add: list_all_iff filter_id_conv)
  ultimately show ?thesis
    using ne scan room bt_insert_fold [OF sorted] by (simp add: merge_hashes_def Let_def)
qed

lemma prepare_params_Inr:
  assumes prep: "prepare_async_order_new_params H bk x (of_nat a) n = Inr p"
    and H: "\<forall>m. length (H m) = 32" and a: "a + n < 2 ^ 64"
  shows "validate_async_order_new_params p = Inr ()"
    and "parse_hash_batch (np_hashes p) = Inr (map entry_pair (np_hashes p))"
    and "map nh_hash_index (np_hashes p) = map of_nat [a..<a + n]" and "0 < n"
    and "\<forall>k<n. \<exists>m. derive_hash_material H bk x (of_nat (a + k)) = Inr m
           \<and> np_hashes p ! k = \<lparr>nh_hash_index = of_nat (a + k), nh_payment_hash = hex_str (hm_payment_hash m)\<rparr>"
proof -
  have ua: "unat (of_nat a :: u64) = a" "unat (of_nat (n - 1) :: u64) = n - 1"
    using a by (simp_all add: unat_of_nat)
  obtain hs where n: "0 < n" "n \<le> ASYNC_ORDER_MAX_HASH_BATCH_SIZE"
    and hs: "prepare_hashes H bk x (map of_nat [a..<a + n]) = Inr hs"
    and p: "p = \<lparr>np_protocol_version = PROTOCOL_VERSION, np_hashes = hs, np_batch = None, np_address_sig = None\<rparr>"
  proof -
    obtain l where l: "checked_add (of_nat a :: u64) (of_nat (n - 1)) = Some l"
      using prep by (auto simp: prepare_async_order_new_params_def split: if_splits option.splits)
    have guard: "0 < n" "n \<le> ASYNC_ORDER_MAX_HASH_BATCH_SIZE"
      using prep by (auto simp: prepare_async_order_new_params_def split: if_splits)
    have "Suc (unat l) = a + n"
      using l guard(1) ua a by (auto simp: checked_add_def unat_word_ariths split: if_splits)
    then show thesis
      using that prep guard l ua
      by (auto simp: prepare_async_order_new_params_def split: if_splits sum.splits simp del: upt_Suc)
  qed
  note all = prepare_hashes_Inr [OF hs]
  then have len: "length hs = n" by (auto dest: list_all2_lengthD)
  show k: "\<forall>k<n. \<exists>m. derive_hash_material H bk x (of_nat (a + k)) = Inr m
      \<and> np_hashes p ! k = \<lparr>nh_hash_index = of_nat (a + k), nh_payment_hash = hex_str (hm_payment_hash m)\<rparr>"
    using list_all2_nthD [OF all] by (simp add: p)
  then show idx: "map nh_hash_index (np_hashes p) = map of_nat [a..<a + n]"
    using len by (intro nth_equalityI) (auto simp: p)
  have texts: "list_all (\<lambda>e. hash_text (nh_payment_hash e)) hs"
    using k len H derive_hash_material_Inr(2)
    by (fastforce simp: p list_all_length hash_text_def)
  have "successively follows (map entry_pair hs)"
    using idx len a
    by (intro successively_follows_upto [of _ a]) (auto simp: p entry_pair_def comp_def)
  from parse_hash_loop_ok [OF texts this, of None "[]"]
  show parsed: "parse_hash_batch (np_hashes p) = Inr (map entry_pair (np_hashes p))"
    by (simp add: parse_hash_batch_def p)
  show "validate_async_order_new_params p = Inr ()"
    using parsed n len by (auto simp: validate_async_order_new_params_def p)
  show "0 < n" by (rule n(1))
qed


section \<open>The index in a store\<close>

lemma next_index_key_inj [simp]: "next_index_key a = next_index_key b \<longleftrightarrow> a = b"
  by (simp add: next_index_key_def)

lemma digit_ascii: "c \<in> set ''0123456789'' \<Longrightarrow> unat (word_of_nat (of_char c) :: byte) < 0x80"
  by auto

lemma digits_ascii: "set s \<subseteq> set ''0123456789'' \<Longrightarrow> is_ascii (as_bytes s)"
proof (induction s)
  case (Cons c s)
  then have "c \<in> set ''0123456789''" and s: "is_ascii (as_bytes s)" by simp_all
  from digit_ascii [OF this(1)] s show ?case by (simp only: as_bytes_def list.map list.pred_inject simp_thms)
qed (simp add: as_bytes_def)

lemma show_u64_ascii: "utf8_valid (as_bytes (show_u64 n))"
  unfolding show_u64_def by (rule utf8_valid_ascii [OF digits_ascii [OF show_nat_set]])

lemma decode_show:
  "validate_async_payments_next_hash_index n = Inr () \<Longrightarrow>
   decode_next_hash_index et (as_bytes (show_u64 n)) = Inr n"
  by (simp add: decode_next_hash_index_def show_u64_ascii)

lemma write_index_Ok:
  assumes "write_async_payments_next_hash_index et wr st host n = (Some (Inr ()), st')"
  shows "validate_async_payments_next_hash_index n = Inr ()"
    and "wr st (next_index_key host) (as_bytes (show_u64 n)) = (Inr (), st')"
  using assms
  by (auto simp: write_async_payments_next_hash_index_def split: sum.splits prod.splits failure.splits)

context kv_store_sync
begin

lemma next_index_read_back:
  assumes ok: "ok (next_index_key host)"
    and w: "write_async_payments_next_hash_index et wr st host n = (Some (Inr ()), st')"
    and r: "fst (read_async_payments_next_hash_index et rd st' host) = Some answer"
  shows "answer = Inr n
    \<or> (\<exists>k. answer = Inl (internal_error (''async_payments_next_index_read_failed: '' @ et_io et k)))"
proof -
  let ?k = "next_index_key host"
  note wr = write_index_Ok [OF w]
  have view: "view st' ?k = Some (as_bytes (show_u64 n))"
    using wr_Ok [OF ok, of st "as_bytes (show_u64 n)"] wr(2) by simp
  obtain res st'' where rd: "rd st' ?k = (res, st'')" by fastforce
  show ?thesis
  proof (cases res)
    case (Inr v)
    then have "v = as_bytes (show_u64 n)"
      using rd_Ok [OF ok, of st' v] rd view by simp
    then show ?thesis
      using r rd Inr decode_show [OF wr(1)] by (simp add: read_async_payments_next_hash_index_def)
  next
    case (Inl f)
    then have "f \<noteq> Io NotFound"
      using rd_NotFound [OF ok, of st'] rd view by auto
    then show ?thesis
      using r rd Inl
      by (auto simp: read_async_payments_next_hash_index_def split: failure.splits if_splits)
  qed
qed

lemma next_index_other_host:
  assumes "ok (next_index_key host)" "ok (next_index_key host')" "host' \<noteq> host"
  shows "view (snd (write_async_payments_next_hash_index et wr st host n)) (next_index_key host')
    = view st (next_index_key host')"
  using wr_other [OF assms(1,2), of st "as_bytes (show_u64 n)"] assms(3)
  by (auto simp: write_async_payments_next_hash_index_def split: sum.splits prod.splits failure.splits)

end

lemma next_index_key_client: "fst (next_index_key host) \<noteq> PENDING_NS"
  by (simp add: next_index_key_def ASYNC_PAYMENTS_KV_NAMESPACE_def PENDING_NS_def)


lemma validate_index_range:
  "validate_async_payments_next_hash_index n = Inr () \<Longrightarrow> 1 \<le> unat n \<and> unat n \<le> 2 ^ 31"
  by (simp add: validate_async_payments_next_hash_index_def ASYNC_ORDER_FIRST_HASH_INDEX_def
      ASYNC_PAYMENTS_BIP32_MAX_CHILD_INDEX_def word_le_nat_alt split: if_splits)

lemma new_result_json_inj [simp]: "new_result_json a = new_result_json b \<longleftrightarrow> a = b"
  by (cases a; cases b) (auto simp: new_result_json_def json_u_def word_uint_eq_iff)


section \<open>Properties\<close>

text \<open>A batch the recipient prepares from the index the host expects is accepted. At every reachable
  state of the host, if the peer's order has room for it and the digest gives fresh hashes, the host
  appends exactly the prepared hashes, each the hash of the preimage the recipient can derive again
  from its index, and announces the next index after the batch.\<close>

theorem prepared_batch_accepted:
  assumes reach: "async_step\<^sup>*\<^sup>* async_state_default st"
    and order: "map_of (as_peers st) peer = Some (Some r)"
    and prep: "prepare_async_order_new_params H bk x (next_hash_index r) n = Inr p"
    and H: "\<forall>m. length (H m) = 32"
    and room: "length (or_hashes r) + n \<le> ASYNC_ORDER_MAX_HASH_BATCH_SIZE"
    and fresh: "distinct (map snd (or_hashes r) @ map nh_payment_hash (np_hashes p))"
  shows "\<exists>r' ps. record_async_order_new peer p st
           = (Some (Inr (snapshot_result r')), st\<lparr>as_peers := AList.update peer (Some r') (as_peers st)\<rparr>)
       \<and> or_hashes r' = or_hashes r @ ps \<and> length ps = n
       \<and> nr_next_index_expected (snapshot_result r') = next_hash_index r + of_nat n
       \<and> (\<forall>k<n. \<exists>m. derive_hash_material H bk x (next_hash_index r + of_nat k) = Inr m
            \<and> ps ! k = (next_hash_index r + of_nat k, hex_str (H (hm_payment_preimage m))))"
proof -
  let ?a = "Suc (length (or_hashes r))" and ?ps = "map entry_pair (np_hashes p)"
  have "orders_ok async_state_default"
    by (simp add: orders_ok_def async_state_default_def)
  with async_steps_orders [OF reach] have "orders_ok st" by blast
  with order have ok: "order_ok r" unfolding orders_ok_def by blast
  note nxt = order_ok_next(2) [OF ok]
  have small: "?a + n < 2 ^ 64"
    using room by (simp add: ASYNC_ORDER_MAX_HASH_BATCH_SIZE_def)
  note p = prepare_params_Inr [OF prep [unfolded nxt] H small]
  have len: "length ?ps = n" using arg_cong [OF p(3), of length] by simp
  have fst: "map fst ?ps = map of_nat [?a..<?a + length ?ps]"
    using p(3) len by (simp add: entry_pair_def comp_def del: upt_Suc)
  let ?r = "r\<lparr>or_hashes := or_hashes r @ ?ps\<rparr>"
  have merge: "merge_hashes r ?ps = Inr ?r"
    using ok fst len room fresh p(4)
    by (intro merge_hashes_append) (auto simp: entry_pair_def comp_def)
  have "batch_ok ?ps"
    using parse_hash_batch_Inr [OF p(2)] len room by (simp add: batch_ok_def)
  from merge_hashes_Inr(1) [OF ok this merge]
  have "next_hash_index ?r = of_nat (?a + n)"
    using len by (simp add: order_ok_next(2))
  then have snap: "nr_next_index_expected (snapshot_result ?r) = next_hash_index r + of_nat n"
    by (simp add: snapshot_result_def nxt)
  have nth: "?ps ! k = (of_nat ?a + of_nat k, hex_str (H (hm_payment_preimage m)))"
    if "k < n" "derive_hash_material H bk x (of_nat (?a + k)) = Inr m"
      "np_hashes p ! k = \<lparr>nh_hash_index = of_nat (?a + k), nh_payment_hash = hex_str (hm_payment_hash m)\<rparr>" for k m
    using that(1,3) len derive_hash_material_Inr(2) [OF that(2)] by (simp add: entry_pair_def)
  have "record_async_order_new peer p st
      = (Some (Inr (snapshot_result ?r)), st\<lparr>as_peers := AList.update peer (Some ?r) (as_peers st)\<rparr>)"
    using p(1,2) merge order by (simp add: record_async_order_new_def)
  moreover have "\<forall>k<n. \<exists>m. derive_hash_material H bk x (next_hash_index r + of_nat k) = Inr m
      \<and> ?ps ! k = (next_hash_index r + of_nat k, hex_str (H (hm_payment_preimage m)))"
    using p(5) nth unfolding nxt of_nat_add by blast
  moreover have "or_hashes ?r = or_hashes r @ ?ps" by simp
  ultimately show ?thesis
    using len snap by blast
qed

definition demo_bip32 :: "unit bip32" where
  "demo_bip32 = \<lparr>bk_new_master = (\<lambda>n s. Inr ()), bk_into_extended_key = (\<lambda>m. Inr (\<lambda>n. Some ())),
     bk_derive_priv = (\<lambda>x i. Inr x), bk_secret_bytes = (\<lambda>x. [])\<rparr>"

definition demo_batch :: new_params_wire where
  "demo_batch = demo_new\<lparr>np_hashes := [\<lparr>nh_hash_index = 2, nh_payment_hash = hex_str (replicate 32 9)\<rparr>]\<rparr>"

lemma demo_prepare:
  "prepare_async_order_new_params (\<lambda>m. replicate 32 9) demo_bip32 () 2 1 = Inr demo_batch"
proof -
  have "derive_hash_material (\<lambda>m. replicate 32 9) demo_bip32 () 2
      = Inr \<lparr>hm_hash_index = 2, hm_payment_preimage = replicate 32 9, hm_payment_hash = replicate 32 9\<rparr>"
    by (simp add: derive_hash_material_def derive_hardened_child_def demo_bip32_def
        ASYNC_ORDER_FIRST_HASH_INDEX_def ASYNC_PAYMENTS_BIP32_MAX_CHILD_INDEX_def Let_def)
  then show ?thesis
    by (simp add: prepare_async_order_new_params_def checked_add_def ASYNC_ORDER_FIRST_HASH_INDEX_def
        ASYNC_PAYMENTS_BIP32_MAX_CHILD_INDEX_def ASYNC_ORDER_MAX_HASH_BATCH_SIZE_def demo_batch_def
        demo_new_def PROTOCOL_VERSION_def)
qed

theorem prepared_batch_accepted_witness:
  "\<exists>r'. fst (record_async_order_new [1] demo_batch (demo_state\<lparr>as_pending := [([1], ''reply'')]\<rparr>))
      = Some (Inr (snapshot_result r')) \<and> length (or_hashes r') = 2"
proof -
  have nxt: "next_hash_index demo_order = 2"
    by (simp add: next_hash_index_def highest_hash_index_def demo_order_def saturating_add_def)
  have "replicate 32 (7 :: byte) \<noteq> replicate 32 9" by simp
  then have "distinct (map snd (or_hashes demo_order) @ map nh_payment_hash (np_hashes demo_batch))"
    by (simp add: demo_order_def demo_batch_def demo_hash_def)
  from prepared_batch_accepted [OF demo_step _ demo_prepare [folded nxt] _ _ this, of "[1]"]
  obtain r' ps where "fst (record_async_order_new [1] demo_batch (demo_state\<lparr>as_pending := [([1], ''reply'')]\<rparr>))
      = Some (Inr (snapshot_result r'))" "or_hashes r' = or_hashes demo_order @ ps" "length ps = 1"
    by (auto simp: demo_state_def demo_order_def ASYNC_ORDER_MAX_HASH_BATCH_SIZE_def)
  then show ?thesis by (intro exI [of _ r']) (simp add: demo_order_def)
qed

text \<open>The next hash index survives in the replicated store: after a successful write for a host a
  read gives that index or reports a failure of the database, never another number, and no other
  host's index changes.\<close>

theorem next_index_persists:
  assumes "write_async_payments_next_hash_index et (write_with_durability c) st host n = (Some (Inr ()), st')"
  shows "1 \<le> unat n \<and> unat n \<le> 2 ^ 31
    \<and> fst (read_async_payments_next_hash_index et synced_read st' host) \<in>
      {Some (Inr n), None}
        \<union> range (\<lambda>k. Some (Inl (internal_error (''async_payments_next_index_read_failed: '' @ et_io et k))))
    \<and> (\<forall>host'. host' \<noteq> host \<longrightarrow>
         local_value st' (next_index_key host') = local_value st (next_index_key host'))"
proof (intro conjI allI impI)
  show "1 \<le> unat n" "unat n \<le> 2 ^ 31"
    using validate_index_range [OF write_index_Ok(1) [OF assms]] by simp_all
  show "fst (read_async_payments_next_hash_index et synced_read st' host) \<in>
      {Some (Inr n), None}
        \<union> range (\<lambda>k. Some (Inl (internal_error (''async_payments_next_index_read_failed: '' @ et_io et k))))"
    using skv.next_index_read_back [OF next_index_key_client assms]
    by (cases "fst (read_async_payments_next_hash_index et synced_read st' host)") auto
  show "local_value st' (next_index_key host') = local_value st (next_index_key host')" if "host' \<noteq> host" for host'
    using skv.next_index_other_host [OF next_index_key_client next_index_key_client that, of et c st n] assms
    by simp
qed

definition demo_texts :: error_text where
  "demo_texts = \<lparr>et_utf8 = (\<lambda>b. []), et_int = (\<lambda>s. []), et_io = (\<lambda>k. [])\<rparr>"

theorem next_index_persists_witness:
  "let st' = snd (write_async_payments_next_hash_index demo_texts (write_with_durability mem_ctx)
               (mem_synced\<lparr>sy_remote := None\<rparr>) [2] 5)
   in local_value st' (next_index_key [2]) = Some (as_bytes ''5'') \<and> local_value st' (next_index_key [3]) = None"
proof -
  let ?st = "mem_synced\<lparr>sy_remote := None\<rparr>"
  have five: "show_u64 5 = ''5''"
    by (simp add: show_u64_def show_nat.simps digit_char_def char_of_def bit_0)
  obtain st' where w: "write_with_durability mem_ctx ?st (next_index_key [2]) (as_bytes ''5'') = (Inr (), st')"
    "local_value st' (next_index_key [2]) = Some (as_bytes ''5'')"
    by (simp add: mem_evals local_write_def next_index_key_def local_value_def)
  have "write_async_payments_next_hash_index demo_texts (write_with_durability mem_ctx) ?st [2] 5
      = (Some (Inr ()), st')"
    using w(1) five by (simp add: write_async_payments_next_hash_index_def
        validate_async_payments_next_hash_index_def ASYNC_ORDER_FIRST_HASH_INDEX_def
        ASYNC_PAYMENTS_BIP32_MAX_CHILD_INDEX_def word_le_nat_alt)
  with next_index_persists [OF this] w(2) show ?thesis
    by (simp add: mem_synced_def local_value_def)
qed

text \<open>The client takes an order as placed only for a success status, the right protocol version, the
  id of its own request, and a result without an error; then the peer is sent that result under its
  own request id, and in every other case it is sent something else, once.\<close>

theorem lsp_answer_checked:
  "(async_order_new_answer rid outcome = Inr result \<longleftrightarrow>
     (\<exists>status shown e. outcome = HttpResponse status shown (Inr e) \<and> 200 \<le> status \<and> status < 300
        \<and> he_jsonrpc e = ''2.0'' \<and> he_id e = Some rid \<and> he_result e = Some result \<and> he_error e = None))
   \<and> (\<exists>body. lsp_task_done c peer rid (async_order_new_answer rid outcome) st
        = queue_jsonrpc_value c peer body st
      \<and> (body = jsonrpc_result_value rid (new_result_json result)
           \<longleftrightarrow> async_order_new_answer rid outcome = Inr result))"
proof
  show "async_order_new_answer rid outcome = Inr result \<longleftrightarrow>
     (\<exists>status shown e. outcome = HttpResponse status shown (Inr e) \<and> 200 \<le> status \<and> status < 300
        \<and> he_jsonrpc e = ''2.0'' \<and> he_id e = Some rid \<and> he_result e = Some result \<and> he_error e = None)"
    by (auto simp: async_order_new_answer_def is_success_def JSONRPC_VERSION_def Let_def
        split: http_outcome.splits sum.splits option.splits if_splits)
  show "\<exists>body. lsp_task_done c peer rid (async_order_new_answer rid outcome) st
        = queue_jsonrpc_value c peer body st
      \<and> (body = jsonrpc_result_value rid (new_result_json result)
           \<longleftrightarrow> async_order_new_answer rid outcome = Inr result)"
    by (cases "async_order_new_answer rid outcome")
      (auto simp: lsp_task_done_def queue_defs jsonrpc_error_value_def jsonrpc_result_value_def)
qed

text \<open>Derivation stays in the range of hardened children. A preimage exists exactly for the indexes
  1 to $2^{31}-1$ the library can derive, with the child number equal to the index, so the conversion
  to 32 bits never maps two indexes to one child; the path to the account never leaves the range; and
  the material's hash is the digest of its preimage.\<close>

theorem derivation_in_range:
  "((\<exists>m. derive_hash_material H bk x i = Inr m) \<longleftrightarrow>
      1 \<le> unat i \<and> unat i < 2 ^ 31 \<and> (\<exists>child. bk_derive_priv bk x (word_of_nat (unat i)) = Inr child))
   \<and> (derive_hash_material H bk x i = Inr m \<longleftrightarrow>
        1 \<le> unat i \<and> unat i < 2 ^ 31 \<and> hm_hash_index m = i \<and> hm_payment_hash m = H (hm_payment_preimage m)
        \<and> (\<exists>child. bk_derive_priv bk x (word_of_nat (unat i)) = Inr child
             \<and> hm_payment_preimage m = H (as_bytes ''async-payments/v0'' @ bk_secret_bytes bk child)))
   \<and> list_all (\<lambda>index. unat index < 2 ^ 31) (account_path H pk)"
proof -
  have eq: "derive_hash_material H bk x i = Inr m \<longleftrightarrow>
        1 \<le> unat i \<and> unat i < 2 ^ 31 \<and> hm_hash_index m = i \<and> hm_payment_hash m = H (hm_payment_preimage m)
        \<and> (\<exists>child. bk_derive_priv bk x (word_of_nat (unat i)) = Inr child
             \<and> hm_payment_preimage m = H (as_bytes ''async-payments/v0'' @ bk_secret_bytes bk child))" for m
    by (cases m) (auto simp: derive_hash_material_iff ASYNC_PAYMENTS_PREIMAGE_DOMAIN_def Let_def)
  have "(\<exists>m. derive_hash_material H bk x i = Inr m) \<longleftrightarrow>
      1 \<le> unat i \<and> unat i < 2 ^ 31 \<and> (\<exists>child. bk_derive_priv bk x (word_of_nat (unat i)) = Inr child)"
    unfolding derive_hash_material_iff by blast
  with eq show ?thesis
    using account_path_bound [of H pk]
    by (auto simp: list_all_iff ASYNC_PAYMENTS_BIP32_MAX_CHILD_INDEX_def word_le_nat_alt)
qed

end
