(* ===== verification/Swap_Core.thy ===== *)
theory Swap_Core
  imports Custom_Msg Rln_Hex Kv_Base "HOL-Library.AList"
begin

text \<open>
  Swaps: the offers as strings (\<open>src/swap.rs\<close>), the two maps of swaps with their statuses and the
  check of an intercepted payment against the whitelist (\<open>src/ldk.rs\<close>), and the routes that read
  and fill the maps (\<open>src/routes.rs\<close>). Contract ids are a type variable, with their textual form as
  a parameter; channels, clock and key-value store are parameters too. A panic is \<^const>\<open>None\<close>.
\<close>

section \<open>Data\<close>

datatype swap_status = Waiting | Pending | Succeeded | Expired | Failed

record 'c swap_info =
  si_qty_from :: u64
  si_qty_to :: u64
  si_from_asset :: "'c option"
  si_to_asset :: "'c option"
  si_expiry :: u64

record 'c swap_data =
  sd_swap_info :: "'c swap_info"
  sd_status :: swap_status
  sd_requested_at :: u64
  sd_initiated_at :: "u64 option"
  sd_completed_at :: "u64 option"
  sd_pending_intercept_id :: "bytes option"
  sd_authorized_peer :: "node_id option"

definition PENDING_SWAP_TIMEOUT_SECS :: u64 where
  "PENDING_SWAP_TIMEOUT_SECS = 24 * 60 * 60"

definition create_from_swap_info :: "u64 \<Rightarrow> 'c swap_info \<Rightarrow> 'c swap_data" where
  "create_from_swap_info now info =
     \<lparr>sd_swap_info = info, sd_status = Waiting, sd_requested_at = now, sd_initiated_at = None,
      sd_completed_at = None, sd_pending_intercept_id = None, sd_authorized_peer = None\<rparr>"

definition same_asset :: "'c swap_info \<Rightarrow> bool" where
  "same_asset info \<longleftrightarrow> si_from_asset info = si_to_asset info"

definition is_from_btc :: "'c swap_info \<Rightarrow> bool" where
  "is_from_btc info \<longleftrightarrow> si_from_asset info = None"

definition is_to_btc :: "'c swap_info \<Rightarrow> bool" where
  "is_to_btc info \<longleftrightarrow> si_to_asset info = None"


section \<open>Offers as strings\<close>

record 'c contract_codec =
  cc_to_string :: "'c \<Rightarrow> string"
  cc_from_str :: "string \<Rightarrow> 'c option"

definition asset_string :: "'c contract_codec \<Rightarrow> 'c option \<Rightarrow> string" where
  "asset_string cc a = (case a of Some c \<Rightarrow> cc_to_string cc c | None \<Rightarrow> ''btc'')"

definition swapstring_fmt :: "'c contract_codec \<Rightarrow> 'c swap_info \<Rightarrow> bytes \<Rightarrow> string" where
  "swapstring_fmt cc info payment_hash =
     show_u64 (si_qty_from info) @ ''/'' @ asset_string cc (si_from_asset info) @ ''/''
       @ show_u64 (si_qty_to info) @ ''/'' @ asset_string cc (si_to_asset info) @ ''/''
       @ show_u64 (si_expiry info) @ ''/'' @ hex_str payment_hash"

text \<open>\<open>None\<close> is a failed parse.\<close>

definition parse_swapstring_asset :: "'c contract_codec \<Rightarrow> string \<Rightarrow> 'c option option" where
  "parse_swapstring_asset cc asset =
     (if asset = ''btc'' then Some None else map_option Some (cc_from_str cc asset))"

definition parse_hash32 :: "string \<Rightarrow> bytes option" where
  "parse_hash32 s =
     (case hex_str_to_vec s of
        Some v \<Rightarrow> if length v = 32 then Some v else None
      | None \<Rightarrow> None)"

definition swapstring_from_str :: "'c contract_codec \<Rightarrow> string \<Rightarrow> string + 'c swap_info \<times> bytes" where
  "swapstring_from_str cc s =
     (case split_on (CHR ''/'') s of
        [qty_from, from_asset, qty_to, to_asset, expiry, payment_hash] \<Rightarrow>
          (case (parse_u64 qty_from, parse_swapstring_asset cc from_asset, parse_u64 qty_to,
                 parse_swapstring_asset cc to_asset, parse_u64 expiry, parse_hash32 payment_hash) of
             (Some qty_from, Some from_asset, Some qty_to, Some to_asset, Some expiry, Some payment_hash) \<Rightarrow>
               if qty_from = 0 \<or> qty_to = 0 \<or> expiry = 0
                 then Inl ''qty_from, qty_to and expiry should be positive''
               else let info = \<lparr>si_qty_from = qty_from, si_qty_to = qty_to, si_from_asset = from_asset,
                                si_to_asset = to_asset, si_expiry = expiry\<rparr>
                 in if same_asset info then Inl ''From and to assets should be different''
                    else Inr (info, payment_hash)
           | _ \<Rightarrow> Inl ''Unable to parse'')
      | _ \<Rightarrow> Inl ''Wrong number of parts'')"


section \<open>The maps of swaps\<close>

type_synonym 'c swap_map = "(bytes \<times> 'c swap_data) list"

record ('c, 'st) swap_state =
  ss_maker :: "'c swap_map"
  ss_taker :: "'c swap_map"
  ss_kv :: 'st

record ('c, 'st) swap_env =
  se_write :: "'st \<Rightarrow> kv_key \<Rightarrow> bytes \<Rightarrow> (failure + unit) \<times> 'st"
  se_encode :: "'c swap_map \<Rightarrow> bytes"
  se_decode :: "bytes \<Rightarrow> 'c swap_map option"

definition MAKER_SWAPS_KEY :: string where
  "MAKER_SWAPS_KEY = ''maker_swaps''"

definition TAKER_SWAPS_KEY :: string where
  "TAKER_SWAPS_KEY = ''taker_swaps''"

definition save_maker_swaps :: "('c, 'st) swap_env \<Rightarrow> ('c, 'st) swap_state \<Rightarrow> ('c, 'st) swap_state option" where
  "save_maker_swaps e st =
     (case se_write e (ss_kv st) ([], [], MAKER_SWAPS_KEY) (se_encode e (ss_maker st)) of
        (Inr _, kv) \<Rightarrow> Some (st\<lparr>ss_kv := kv\<rparr>)
      | (Inl _, kv) \<Rightarrow> None)"

definition save_taker_swaps :: "('c, 'st) swap_env \<Rightarrow> ('c, 'st) swap_state \<Rightarrow> ('c, 'st) swap_state option" where
  "save_taker_swaps e st =
     (case se_write e (ss_kv st) ([], [], TAKER_SWAPS_KEY) (se_encode e (ss_taker st)) of
        (Inr _, kv) \<Rightarrow> Some (st\<lparr>ss_kv := kv\<rparr>)
      | (Inl _, kv) \<Rightarrow> None)"

definition add_maker_swap ::
  "('c, 'st) swap_env \<Rightarrow> bytes \<Rightarrow> 'c swap_data \<Rightarrow> ('c, 'st) swap_state \<Rightarrow> ('c, 'st) swap_state option" where
  "add_maker_swap e payment_hash swap st =
     save_maker_swaps e (st\<lparr>ss_maker := AList.update payment_hash swap (ss_maker st)\<rparr>)"

definition add_taker_swap ::
  "('c, 'st) swap_env \<Rightarrow> bytes \<Rightarrow> 'c swap_data \<Rightarrow> ('c, 'st) swap_state \<Rightarrow> ('c, 'st) swap_state option" where
  "add_taker_swap e payment_hash swap st =
     save_taker_swaps e (st\<lparr>ss_taker := AList.update payment_hash swap (ss_taker st)\<rparr>)"

definition maker_set_status :: "u64 \<Rightarrow> swap_status \<Rightarrow> 'c swap_data \<Rightarrow> 'c swap_data option" where
  "maker_set_status now status sd =
     (case status of
        Waiting \<Rightarrow> None
      | Pending \<Rightarrow> Some (sd\<lparr>sd_initiated_at := Some now, sd_status := status\<rparr>)
      | _ \<Rightarrow> Some (sd\<lparr>sd_completed_at := Some now, sd_status := status\<rparr>))"

definition taker_set_status :: "u64 \<Rightarrow> swap_status \<Rightarrow> 'c swap_data \<Rightarrow> 'c swap_data option" where
  "taker_set_status now status sd =
     (case status of
        Waiting \<Rightarrow> None
      | Pending \<Rightarrow> Some (sd\<lparr>sd_initiated_at := Some now, sd_status := status\<rparr>)
      | _ \<Rightarrow> Some (sd\<lparr>sd_completed_at := Some now, sd_pending_intercept_id := None, sd_status := status\<rparr>))"

definition update_maker_swap_status ::
  "('c, 'st) swap_env \<Rightarrow> u64 \<Rightarrow> bytes \<Rightarrow> swap_status \<Rightarrow> ('c, 'st) swap_state \<Rightarrow> ('c, 'st) swap_state option" where
  "update_maker_swap_status e now payment_hash status st =
     (case map_of (ss_maker st) payment_hash of
        None \<Rightarrow> None
      | Some sd \<Rightarrow>
          (case maker_set_status now status sd of
             None \<Rightarrow> None
           | Some sd \<Rightarrow> save_maker_swaps e (st\<lparr>ss_maker := AList.update payment_hash sd (ss_maker st)\<rparr>)))"

definition update_taker_swap_status ::
  "('c, 'st) swap_env \<Rightarrow> u64 \<Rightarrow> bytes \<Rightarrow> swap_status \<Rightarrow> ('c, 'st) swap_state \<Rightarrow> ('c, 'st) swap_state option" where
  "update_taker_swap_status e now payment_hash status st =
     (case map_of (ss_taker st) payment_hash of
        None \<Rightarrow> None
      | Some sd \<Rightarrow>
          (case taker_set_status now status sd of
             None \<Rightarrow> None
           | Some sd \<Rightarrow> save_taker_swaps e (st\<lparr>ss_taker := AList.update payment_hash sd (ss_taker st)\<rparr>)))"

definition update_taker_swap_pending_intercept ::
  "('c, 'st) swap_env \<Rightarrow> u64 \<Rightarrow> bytes \<Rightarrow> bytes \<Rightarrow> ('c, 'st) swap_state \<Rightarrow> ('c, 'st) swap_state option" where
  "update_taker_swap_pending_intercept e now payment_hash intercept_id st =
     (case map_of (ss_taker st) payment_hash of
        None \<Rightarrow> None
      | Some sd \<Rightarrow>
          save_taker_swaps e
            (st\<lparr>ss_taker := AList.update payment_hash
                 (sd\<lparr>sd_status := Pending, sd_initiated_at := Some now,
                     sd_pending_intercept_id := Some intercept_id\<rparr>) (ss_taker st)\<rparr>))"

definition is_maker_swap :: "bytes \<Rightarrow> ('c, 'st) swap_state \<Rightarrow> bool" where
  "is_maker_swap payment_hash st \<longleftrightarrow> map_of (ss_maker st) payment_hash \<noteq> None"

definition is_taker_swap :: "bytes \<Rightarrow> ('c, 'st) swap_state \<Rightarrow> bool" where
  "is_taker_swap payment_hash st \<longleftrightarrow> map_of (ss_taker st) payment_hash \<noteq> None"

text \<open>The maps at start-up.\<close>

definition read_swaps ::
  "('c, 'st) swap_env \<Rightarrow> ('st \<Rightarrow> kv_key \<Rightarrow> (failure + bytes) \<times> 'st) \<Rightarrow> 'st \<Rightarrow> string
     \<Rightarrow> 'c swap_map option \<times> 'st" where
  "read_swaps e rd kv key =
     (case rd kv ([], [], key) of
        (Inr bs, kv) \<Rightarrow> (Some (case se_decode e bs of Some m \<Rightarrow> m | None \<Rightarrow> []), kv)
      | (Inl err, kv) \<Rightarrow> (if err = Io NotFound then Some [] else None, kv))"

text \<open>When a payment was forwarded, its swap has succeeded.\<close>

definition payment_forwarded_swap ::
  "('c, 'st) swap_env \<Rightarrow> u64 \<Rightarrow> bytes \<Rightarrow> ('c, 'st) swap_state \<Rightarrow> ('c, 'st) swap_state option" where
  "payment_forwarded_swap e now payment_hash st =
     (if is_taker_swap payment_hash st then update_taker_swap_status e now payment_hash Succeeded st
      else Some st)"


section \<open>Intercepted payments\<close>

record 'c intercept =
  ie_is_swap :: bool
  ie_payment_hash :: bytes
  ie_intercept_id :: bytes
  ie_inbound_amount_msat :: u64
  ie_expected_outbound_amount_msat :: u64
  ie_inbound_rgb_amount :: "u64 option"
  ie_expected_outbound_rgb_payment :: "('c \<times> u64) option"
  ie_requested_next_hop_scid :: u64
  ie_prev_outbound_scid_alias :: u64

record channel_details =
  cd_channel_id :: bytes
  cd_counterparty :: node_id
  cd_short_channel_id :: "u64 option"
  cd_outbound_scid_alias :: "u64 option"

text \<open>The two readings of the channel list, the contract of a channel, the reading of the clock at
  the expiry check and at the update, and whether the channel manager takes the forward.\<close>

record 'c intercept_ctx =
  ic_channels_in :: "channel_details list"
  ic_channels_out :: "channel_details list"
  ic_rgb_contract :: "bytes \<Rightarrow> 'c option"
  ic_checked_at :: u64
  ic_updated_at :: u64
  ic_failed_at :: u64
  ic_forward_ok :: bool

datatype 'c htlc_action =
    FailIntercepted bytes
  | ForwardIntercepted bytes u64 node_id u64 "('c \<times> u64) option"

definition checked_sub :: "u64 \<Rightarrow> u64 \<Rightarrow> u64 option" where
  "checked_sub a b = (if b \<le> a then Some (a - b) else None)"

definition swap_matches ::
  "'c swap_info \<Rightarrow> 'c intercept \<Rightarrow> 'c option \<Rightarrow> 'c option \<Rightarrow> bool" where
  "swap_matches info ev inbound_contract outbound_contract =
     (if is_from_btc info then
        ie_inbound_rgb_amount ev = Some (si_qty_to info)
        \<and> inbound_contract = si_to_asset info
        \<and> checked_sub (ie_expected_outbound_amount_msat ev) (ie_inbound_amount_msat ev) = Some (si_qty_from info)
      else if is_to_btc info then
        ie_expected_outbound_rgb_payment ev = map_option (\<lambda>a. (a, si_qty_from info)) (si_from_asset info)
        \<and> outbound_contract = si_from_asset info
        \<and> saturating_sub (ie_inbound_amount_msat ev) (ie_expected_outbound_amount_msat ev) = si_qty_to info
      else
        checked_sub (ie_inbound_amount_msat ev) (ie_expected_outbound_amount_msat ev) = Some 0
        \<and> ie_expected_outbound_rgb_payment ev = map_option (\<lambda>a. (a, si_qty_from info)) (si_from_asset info)
        \<and> outbound_contract = si_from_asset info
        \<and> ie_inbound_rgb_amount ev = Some (si_qty_to info)
        \<and> inbound_contract = si_to_asset info)"

definition forwardable :: "'c swap_data \<Rightarrow> bytes \<Rightarrow> bool" where
  "forwardable sd intercept_id =
     (case sd_status sd of
        Waiting \<Rightarrow> True
      | Pending \<Rightarrow> sd_pending_intercept_id sd = Some intercept_id
      | _ \<Rightarrow> False)"

definition htlc_intercepted ::
  "('c, 'st) swap_env \<Rightarrow> 'c intercept_ctx \<Rightarrow> 'c intercept \<Rightarrow> ('c, 'st) swap_state
     \<Rightarrow> ('c htlc_action list \<times> ('c, 'st) swap_state) option" where
  "htlc_intercepted e c ev st =
     (let hash = ie_payment_hash ev; iid = ie_intercept_id ev; reject = [FailIntercepted iid]
      in if \<not> ie_is_swap ev then Some (reject, st)
      else case find (\<lambda>d. cd_outbound_scid_alias d = Some (ie_prev_outbound_scid_alias ev)) (ic_channels_in c) of
        None \<Rightarrow> Some (reject, st)
      | Some inbound \<Rightarrow>
      (case find (\<lambda>d. cd_short_channel_id d = Some (ie_requested_next_hop_scid ev)
                      \<or> cd_outbound_scid_alias d = Some (ie_requested_next_hop_scid ev)) (ic_channels_out c) of
        None \<Rightarrow> Some (reject, st)
      | Some outbound \<Rightarrow>
      (case map_of (ss_taker st) hash of
        None \<Rightarrow> Some (reject, st)
      | Some sd \<Rightarrow>
      if \<not> forwardable sd iid then Some (reject, st)
      else if sd_authorized_peer sd \<noteq> None \<and> sd_authorized_peer sd \<noteq> Some (cd_counterparty inbound)
        then Some (reject, st)
      else if ic_checked_at c > si_expiry (sd_swap_info sd) then
        map_option (Pair reject) (update_taker_swap_status e (ic_updated_at c) hash Expired st)
      else if \<not> swap_matches (sd_swap_info sd) ev (ic_rgb_contract c (cd_channel_id inbound))
                 (ic_rgb_contract c (cd_channel_id outbound)) then
        map_option (Pair reject) (update_taker_swap_status e (ic_updated_at c) hash Failed st)
      else case update_taker_swap_pending_intercept e (ic_updated_at c) hash iid st of
        None \<Rightarrow> None
      | Some st \<Rightarrow>
          (let forward = ForwardIntercepted iid (ie_requested_next_hop_scid ev) (cd_counterparty outbound)
                 (ie_expected_outbound_amount_msat ev) (ie_expected_outbound_rgb_payment ev)
           in if ic_forward_ok c then Some ([forward], st)
              else map_option (Pair (forward # reject))
                     (update_taker_swap_status e (ic_failed_at c) hash Failed st)))))"


section \<open>Routes\<close>

text \<open>The channels' contracts and local amounts; the loop keeps the greatest.\<close>

fun max_local :: "'c \<Rightarrow> u64 \<Rightarrow> ('c \<times> u64) option list \<Rightarrow> u64" where
  "max_local contract_id max_balance [] = max_balance"
| "max_local contract_id max_balance (None # chans) = max_local contract_id max_balance chans"
| "max_local contract_id max_balance (Some (c, local_amount) # chans) =
     max_local contract_id
       (if c = contract_id \<and> local_amount > max_balance then local_amount else max_balance) chans"

definition get_max_local_rgb_amount :: "'c \<Rightarrow> ('c \<times> u64) option list \<Rightarrow> u64" where
  "get_max_local_rgb_amount contract_id chans = max_local contract_id 0 chans"

definition taker ::
  "('c, 'st) swap_env \<Rightarrow> 'c contract_codec \<Rightarrow> ('c \<times> u64) option list \<Rightarrow> u64 \<Rightarrow> u64 \<Rightarrow> string
     \<Rightarrow> ('c, 'st) swap_state \<Rightarrow> (api_error + ('c, 'st) swap_state) option" where
  "taker e cc chans now now2 swapstring st =
     (case swapstring_from_str cc swapstring of
        Inl err \<Rightarrow> Some (Inl (InvalidSwapString swapstring err))
      | Inr (info, payment_hash) \<Rightarrow>
          if now > si_expiry info then Some (Inl ExpiredSwapOffer)
          else if (case si_from_asset info of
                     Some from_asset \<Rightarrow> si_qty_from info > get_max_local_rgb_amount from_asset chans
                   | None \<Rightarrow> False) then Some (Inl InsufficientAssets)
          else map_option Inr (add_taker_swap e payment_hash (create_from_swap_info now2 info) st))"

record maker_init_request =
  mr_qty_from :: u64
  mr_qty_to :: u64
  mr_from_asset :: "string option"
  mr_to_asset :: "string option"
  mr_timeout_sec :: u32

definition parse_asset_option :: "'c contract_codec \<Rightarrow> string option \<Rightarrow> api_error + 'c option" where
  "parse_asset_option cc a =
     (case a of
        None \<Rightarrow> Inr None
      | Some asset \<Rightarrow>
          (case cc_from_str cc asset of None \<Rightarrow> Inl (InvalidAssetID asset) | Some c \<Rightarrow> Inr (Some c)))"

text \<open>\<open>created\<close> is the payment hash and secret the channel manager makes, \<open>None\<close> its error.\<close>

definition maker_init ::
  "('c, 'st) swap_env \<Rightarrow> 'c contract_codec \<Rightarrow> ('c \<times> u64) option list \<Rightarrow> u64 \<Rightarrow> u64
     \<Rightarrow> (bytes \<times> bytes) option \<Rightarrow> maker_init_request \<Rightarrow> ('c, 'st) swap_state
     \<Rightarrow> (api_error + (string \<times> string \<times> string) \<times> ('c, 'st) swap_state) option" where
  "maker_init e cc chans now now2 created r st =
     (case parse_asset_option cc (mr_from_asset r) of Inl err \<Rightarrow> Some (Inl err) | Inr from_asset \<Rightarrow>
     (case parse_asset_option cc (mr_to_asset r) of Inl err \<Rightarrow> Some (Inl err) | Inr to_asset \<Rightarrow>
      if from_asset = None \<and> to_asset = None then Some (Inl (InvalidSwap ''cannot swap BTC for BTC''))
      else if from_asset = to_asset then Some (Inl (InvalidSwap ''cannot swap the same asset''))
      else case checked_add now (ucast (mr_timeout_sec r)) of None \<Rightarrow> None | Some expiry \<Rightarrow>
        (let info = \<lparr>si_qty_from = mr_qty_from r, si_qty_to = mr_qty_to r, si_from_asset = from_asset,
                     si_to_asset = to_asset, si_expiry = expiry\<rparr>;
             swap_data = create_from_swap_info now2 info
         in if (case to_asset of
                  Some a \<Rightarrow> si_qty_to info > get_max_local_rgb_amount a chans | None \<Rightarrow> False)
              then Some (Inl InsufficientAssets)
            else case created of None \<Rightarrow> None | Some (payment_hash, payment_secret) \<Rightarrow>
              (case add_maker_swap e payment_hash swap_data st of None \<Rightarrow> None | Some st \<Rightarrow>
                 Some (Inr ((hex_str payment_hash, hex_str payment_secret,
                    swapstring_fmt cc info payment_hash), st))))))"

record swap_view =
  sv_payment_hash :: string
  sv_qty_from :: u64
  sv_qty_to :: u64
  sv_from_asset :: "string option"
  sv_to_asset :: "string option"
  sv_status :: swap_status
  sv_requested_at :: u64
  sv_initiated_at :: "u64 option"
  sv_expires_at :: u64
  sv_completed_at :: "u64 option"

text \<open>The status a reader sees, with the two readings of the clock.\<close>

definition shown_status :: "u64 \<Rightarrow> u64 \<Rightarrow> 'c swap_data \<Rightarrow> swap_status option" where
  "shown_status now now2 sd =
     (if sd_status sd = Waiting \<and> now > si_expiry (sd_swap_info sd) then Some Expired
      else if sd_status sd = Pending then
        (case sd_initiated_at sd of
           None \<Rightarrow> None
         | Some t \<Rightarrow>
             (case checked_add t PENDING_SWAP_TIMEOUT_SECS of
                None \<Rightarrow> None
              | Some deadline \<Rightarrow> Some (if now2 > deadline then Failed else Pending)))
      else Some (sd_status sd))"

definition map_swap ::
  "('c, 'st) swap_env \<Rightarrow> 'c contract_codec \<Rightarrow> u64 \<Rightarrow> u64 \<Rightarrow> u64 \<Rightarrow> bytes \<Rightarrow> 'c swap_data \<Rightarrow> bool
     \<Rightarrow> ('c, 'st) swap_state \<Rightarrow> (swap_view \<times> ('c, 'st) swap_state) option" where
  "map_swap e cc now now2 now3 payment_hash sd is_taker st =
     (case shown_status now now2 sd of None \<Rightarrow> None | Some status \<Rightarrow>
     (case (if status = sd_status sd then Some st
            else if is_taker then update_taker_swap_status e now3 payment_hash status st
            else update_maker_swap_status e now3 payment_hash status st) of None \<Rightarrow> None | Some st \<Rightarrow>
        Some (\<lparr>sv_payment_hash = hex_str payment_hash, sv_qty_from = si_qty_from (sd_swap_info sd),
          sv_qty_to = si_qty_to (sd_swap_info sd),
          sv_from_asset = map_option (cc_to_string cc) (si_from_asset (sd_swap_info sd)),
          sv_to_asset = map_option (cc_to_string cc) (si_to_asset (sd_swap_info sd)),
          sv_status = status, sv_requested_at = sd_requested_at sd, sv_initiated_at = sd_initiated_at sd,
          sv_expires_at = si_expiry (sd_swap_info sd), sv_completed_at = sd_completed_at sd\<rparr>, st)))"

definition get_swap ::
  "('c, 'st) swap_env \<Rightarrow> 'c contract_codec \<Rightarrow> u64 \<Rightarrow> u64 \<Rightarrow> u64 \<Rightarrow> string \<Rightarrow> bool \<Rightarrow> ('c, 'st) swap_state
     \<Rightarrow> (api_error + swap_view \<times> ('c, 'st) swap_state) option" where
  "get_swap e cc now now2 now3 payment_hash is_taker st =
     (case validate_and_parse_payment_hash payment_hash of
        Inl err \<Rightarrow> Some (Inl err)
      | Inr requested_ph \<Rightarrow>
          (case map_of (if is_taker then ss_taker st else ss_maker st) requested_ph of
             None \<Rightarrow> Some (Inl (SwapNotFound payment_hash))
           | Some sd \<Rightarrow> map_option Inr (map_swap e cc now now2 now3 requested_ph sd is_taker st)))"

text \<open>\<open>list_swaps\<close> works on copies of the two maps; \<open>clock i\<close> are the readings at the \<open>i\<close>-th swap.\<close>

fun map_swaps ::
  "('c, 'st) swap_env \<Rightarrow> 'c contract_codec \<Rightarrow> (nat \<Rightarrow> u64 \<times> u64 \<times> u64) \<Rightarrow> nat \<Rightarrow> bool \<Rightarrow> 'c swap_map
     \<Rightarrow> ('c, 'st) swap_state \<Rightarrow> (swap_view list \<times> ('c, 'st) swap_state) option" where
  "map_swaps e cc clock i is_taker [] st = Some ([], st)"
| "map_swaps e cc clock i is_taker ((ph, sd) # swaps) st =
     (case clock i of (now, now2, now3) \<Rightarrow>
     (case map_swap e cc now now2 now3 ph sd is_taker st of None \<Rightarrow> None | Some (v, st) \<Rightarrow>
     (case map_swaps e cc clock (Suc i) is_taker swaps st of None \<Rightarrow> None | Some (vs, st) \<Rightarrow>
        Some (v # vs, st))))"

definition list_swaps ::
  "('c, 'st) swap_env \<Rightarrow> 'c contract_codec \<Rightarrow> (nat \<Rightarrow> u64 \<times> u64 \<times> u64) \<Rightarrow> ('c, 'st) swap_state
     \<Rightarrow> ((swap_view list \<times> swap_view list) \<times> ('c, 'st) swap_state) option" where
  "list_swaps e cc clock st =
     (let taker_swaps = ss_taker st; maker_swaps = ss_maker st
      in case map_swaps e cc clock 0 True taker_swaps st of None \<Rightarrow> None | Some (ts, st) \<Rightarrow>
        (case map_swaps e cc clock (length taker_swaps) False maker_swaps st of None \<Rightarrow> None | Some (ms, st) \<Rightarrow>
           Some ((ts, ms), st)))"

end
