(* ===== verification/Asset_Link.thy ===== *)
theory Asset_Link
  imports Swap_Core Async_Order
begin

text \<open>
  The asset link protocol (\<open>src/asset_link.rs\<close>) and the authorizer of linked-asset payments
  (\<open>src/ldk.rs\<close>), which whitelists a one-to-one swap for the peer that asks for it.
\<close>

section \<open>Data\<close>

definition ASSET_LINK_AUTHORIZE_SWAP_METHOD :: string where
  "ASSET_LINK_AUTHORIZE_SWAP_METHOD = ''asset_link.authorize_swap''"

definition ASSET_LINK_ERROR_DUPLICATE_PAYMENT_HASH :: int where
  "ASSET_LINK_ERROR_DUPLICATE_PAYMENT_HASH = 1203"

definition ASSET_LINK_ERROR_INSUFFICIENT_LIQUIDITY :: int where
  "ASSET_LINK_ERROR_INSUFFICIENT_LIQUIDITY = 1202"

definition ASSET_LINK_ERROR_UNKNOWN_ASSET :: int where
  "ASSET_LINK_ERROR_UNKNOWN_ASSET = 1204"

definition ASSET_LINK_ERROR_UNKNOWN_LINK :: int where
  "ASSET_LINK_ERROR_UNKNOWN_LINK = 1201"

definition ASSET_LINK_ERROR_UNSUPPORTED_PROTOCOL_VERSION :: int where
  "ASSET_LINK_ERROR_UNSUPPORTED_PROTOCOL_VERSION = 1200"

definition ASSET_LINK_PROTOCOL_VERSION :: u64 where
  "ASSET_LINK_PROTOCOL_VERSION = 1"

definition ASSET_LINK_SWAP_AUTHORIZATION_MAX_EXPIRY_SECS :: u64 where
  "ASSET_LINK_SWAP_AUTHORIZATION_MAX_EXPIRY_SECS = 24 * 60 * 60"

record authorize_params =
  ap_protocol_version :: u64
  ap_payment_hash :: string
  ap_asset_id :: string
  ap_linked_asset_id :: string
  ap_amount :: u64
  ap_expiry_sec :: u64

definition authorize_params_json :: "authorize_params \<Rightarrow> json" where
  "authorize_params_json p =
     JObj [(''protocol_version'', json_u (ap_protocol_version p)), (''payment_hash'', JStr (ap_payment_hash p)),
       (''asset_id'', JStr (ap_asset_id p)), (''linked_asset_id'', JStr (ap_linked_asset_id p)),
       (''amount'', json_u (ap_amount p)), (''expiry_sec'', json_u (ap_expiry_sec p))]"

record asset_metadata =
  am_is_ifa :: bool
  am_linked_to :: "string option"
  am_linked_from :: "string option"

record ('c, 'st) link_state =
  al_pending :: "(node_id \<times> string) list"
  al_pending_responses :: pending_responses
  al_channels :: nat
  al_sent :: "(nat \<times> rpc_response) list"
  al_swaps :: "('c, 'st) swap_state"

text \<open>What the handler and the authorizer are built with and meet. \<open>lx_link_transfer\<close> is \<open>None\<close> on
  an error, then whether a transfer exists and is settled; \<open>lx_alive\<close> tells whether the node's state
  still exists.\<close>

record ('c, 'st) link_ctx =
  lx_codec :: rpc_codec
  lx_allows_peer :: "node_id \<Rightarrow> bool"
  lx_params :: "json \<Rightarrow> authorize_params option"
  lx_authorizer :: bool
  lx_alive :: bool
  lx_env :: "('c, 'st) swap_env"
  lx_contracts :: "'c contract_codec"
  lx_metadata :: "'c \<Rightarrow> asset_metadata option"
  lx_link_transfer :: "'c \<Rightarrow> bool option option"
  lx_rgb_channels :: "('c \<times> u64) option list"
  lx_authorization_time :: u64
  lx_requested_at :: u64
  lx_io_text :: "io_kind \<Rightarrow> string"


section \<open>The authorizer\<close>

definition reserves :: "'c \<Rightarrow> u64 \<Rightarrow> 'c swap_data \<Rightarrow> bool" where
  "reserves contract current_time swap =
     (if si_from_asset (sd_swap_info swap) \<noteq> Some contract then False
      else case sd_status swap of
        Waiting \<Rightarrow> current_time \<le> si_expiry (sd_swap_info swap)
      | Pending \<Rightarrow>
          (case sd_initiated_at swap of
             None \<Rightarrow> True
           | Some initiated_at \<Rightarrow> current_time \<le> saturating_add initiated_at PENDING_SWAP_TIMEOUT_SECS)
      | _ \<Rightarrow> False)"

definition reserved_outbound_rgb_amount :: "'c swap_map \<Rightarrow> 'c \<Rightarrow> u64 \<Rightarrow> u64" where
  "reserved_outbound_rgb_amount swaps contract current_time =
     fold (\<lambda>swap reserved_amount. saturating_add reserved_amount (si_qty_from (sd_swap_info swap)))
       (filter (reserves contract current_time) (map snd swaps)) 0"

text \<open>The parent of the link between the two assets, if they declare each other.\<close>

definition link_parent ::
  "'c \<Rightarrow> string \<Rightarrow> asset_metadata \<Rightarrow> 'c \<Rightarrow> string \<Rightarrow> asset_metadata \<Rightarrow> 'c option" where
  "link_parent asset asset_id meta linked linked_id linked_meta =
     (if am_linked_to meta = Some linked_id \<and> am_linked_from linked_meta = Some asset_id then Some asset
      else if am_linked_to linked_meta = Some asset_id \<and> am_linked_from meta = Some linked_id then Some linked
      else None)"

definition unknown_link :: rpc_error where
  "unknown_link = application_error ASSET_LINK_ERROR_UNKNOWN_LINK ''unknown_link''"

definition check_link ::
  "('c, 'st) link_ctx \<Rightarrow> authorize_params \<Rightarrow> 'c \<Rightarrow> 'c \<Rightarrow> rpc_error + unit" where
  "check_link c p asset linked =
     (case (lx_metadata c asset, lx_metadata c linked) of
        (Some meta, Some linked_meta) \<Rightarrow>
          (case link_parent asset (ap_asset_id p) meta linked (ap_linked_asset_id p) linked_meta of
             None \<Rightarrow> Inl unknown_link
           | Some parent \<Rightarrow>
               if \<not> am_is_ifa meta \<or> \<not> am_is_ifa linked_meta then Inl unknown_link
               else if lx_link_transfer c parent \<noteq> Some (Some True) then Inl unknown_link
               else Inr ())
      | _ \<Rightarrow> Inl (application_error ASSET_LINK_ERROR_UNKNOWN_ASSET ''unknown_link''))"

definition authorize_swap ::
  "('c, 'st) link_ctx \<Rightarrow> node_id \<Rightarrow> authorize_params \<Rightarrow> ('c, 'st) swap_state
     \<Rightarrow> ((rpc_error + unit) \<times> ('c, 'st) swap_state) option" where
  "authorize_swap c sender p st =
     (case validate_and_parse_payment_hash (ap_payment_hash p) of
        Inl _ \<Rightarrow> Some (Inl (invalid_params ''invalid_payment_hash''), st)
      | Inr payment_hash \<Rightarrow>
     (case cc_from_str (lx_contracts c) (ap_asset_id p) of
        None \<Rightarrow> Some (Inl (invalid_params ''invalid_asset_id''), st)
      | Some asset \<Rightarrow>
     (case cc_from_str (lx_contracts c) (ap_linked_asset_id p) of
        None \<Rightarrow> Some (Inl (invalid_params ''invalid_linked_asset_id''), st)
      | Some linked \<Rightarrow>
      if ap_amount p = 0 then Some (Inl (invalid_params ''invalid_amount''), st)
      else if ap_expiry_sec p = 0 then Some (Inl (invalid_params ''invalid_expiry_sec''), st)
      else if \<not> lx_alive c then Some (Inl (internal_error ''asset_link_state_unavailable''), st)
      else case check_link c p asset linked of
        Inl err \<Rightarrow> Some (Inl err, st)
      | Inr _ \<Rightarrow>
          (let max_balance = get_max_local_rgb_amount asset (lx_rgb_channels c)
           in if map_of (ss_taker st) payment_hash \<noteq> None then
                Some (Inl (application_error ASSET_LINK_ERROR_DUPLICATE_PAYMENT_HASH ''duplicate_payment_hash''), st)
              else if ap_amount p > saturating_sub max_balance
                   (reserved_outbound_rgb_amount (ss_taker st) asset (lx_authorization_time c)) then
                Some (Inl (application_error ASSET_LINK_ERROR_INSUFFICIENT_LIQUIDITY ''insufficient_liquidity''), st)
              else
                (let expiry_sec = min (ap_expiry_sec p) ASSET_LINK_SWAP_AUTHORIZATION_MAX_EXPIRY_SECS;
                     info = \<lparr>si_qty_from = ap_amount p, si_qty_to = ap_amount p, si_from_asset = Some asset,
                             si_to_asset = Some linked,
                             si_expiry = saturating_add (lx_authorization_time c) expiry_sec\<rparr>;
                     swap = (create_from_swap_info (lx_requested_at c) info)\<lparr>sd_authorized_peer := Some sender\<rparr>;
                     swaps = AList.update payment_hash swap (ss_taker st)
                 in case se_write (lx_env c) (ss_kv st) ([], [], TAKER_SWAPS_KEY) (se_encode (lx_env c) swaps) of
                      (Inr _, kv) \<Rightarrow> Some (Inr (), st\<lparr>ss_taker := swaps, ss_kv := kv\<rparr>)
                    | (Inl (Io k), kv) \<Rightarrow>
                        Some (Inl (internal_error (''taker_swaps_write_failed: '' @ lx_io_text c k)),
                          st\<lparr>ss_taker := AList.delete payment_hash swaps, ss_kv := kv\<rparr>)
                    | (Inl Panic, kv) \<Rightarrow> None)))))"


section \<open>The message handler\<close>

definition link_queue_value ::
  "('c, 'st) link_ctx \<Rightarrow> node_id \<Rightarrow> json \<Rightarrow> ('c, 'st) link_state \<Rightarrow> ('c, 'st) link_state" where
  "link_queue_value c peer v st = st\<lparr>al_pending := al_pending st @ [(peer, rc_to_string (lx_codec c) v)]\<rparr>"

definition link_queue_parse_error ::
  "('c, 'st) link_ctx \<Rightarrow> node_id \<Rightarrow> ('c, 'st) link_state \<Rightarrow> ('c, 'st) link_state" where
  "link_queue_parse_error c peer = link_queue_value c peer (jsonrpc_error_value JNull parse_error)"

definition link_queue_invalid_request ::
  "('c, 'st) link_ctx \<Rightarrow> node_id \<Rightarrow> ('c, 'st) link_state \<Rightarrow> ('c, 'st) link_state" where
  "link_queue_invalid_request c peer = link_queue_value c peer (jsonrpc_error_value JNull invalid_request)"

definition link_queue_error ::
  "('c, 'st) link_ctx \<Rightarrow> node_id \<Rightarrow> json \<Rightarrow> int \<Rightarrow> string \<Rightarrow> ('c, 'st) link_state \<Rightarrow> ('c, 'st) link_state" where
  "link_queue_error c peer rid code message =
     link_queue_value c peer (jsonrpc_error_value rid \<lparr>re_code = code, re_message = message\<rparr>)"

definition queue_asset_link_authorize ::
  "('c, 'st) link_ctx \<Rightarrow> node_id \<Rightarrow> json \<Rightarrow> authorize_params \<Rightarrow> ('c, 'st) link_state
     \<Rightarrow> (rpc_error + nat) \<times> ('c, 'st) link_state" where
  "queue_asset_link_authorize c host rid params st =
     (case rid of
        JStr request_id \<Rightarrow>
          (let key = (host, request_id); ch = al_channels st
           in if map_of (al_pending_responses st) key \<noteq> None then
                (Inl (internal_error ''asset_link_request_id_already_pending''), st\<lparr>al_channels := Suc ch\<rparr>)
              else
                (Inr ch,
                 link_queue_value c host
                   (JObj [(''jsonrpc'', JStr JSONRPC_VERSION), (''id'', rid),
                      (''method'', JStr ASSET_LINK_AUTHORIZE_SWAP_METHOD),
                      (''params'', authorize_params_json params)])
                   (st\<lparr>al_channels := Suc ch,
                       al_pending_responses := AList.update key ch (al_pending_responses st)\<rparr>)))
      | _ \<Rightarrow> (Inl invalid_request, st))"

definition forget_asset_link_response ::
  "node_id \<Rightarrow> string \<Rightarrow> ('c, 'st) link_state \<Rightarrow> ('c, 'st) link_state" where
  "forget_asset_link_response host request_id st =
     st\<lparr>al_pending_responses := AList.delete (host, request_id) (al_pending_responses st)\<rparr>"

definition complete_asset_link_response ::
  "('c, 'st) link_ctx \<Rightarrow> node_id \<Rightarrow> json option \<Rightarrow> json option \<Rightarrow> json option
     \<Rightarrow> ('c, 'st) link_state \<Rightarrow> ('c, 'st) link_state" where
  "complete_asset_link_response c sender rid result error st =
     (case resolve_pending_response (lx_codec c) (al_pending_responses st) ''asset_link'' sender rid result error of
        (pending, sent) \<Rightarrow>
          st\<lparr>al_pending_responses := pending,
             al_sent := al_sent st @ (case sent of None \<Rightarrow> [] | Some m \<Rightarrow> [m])\<rparr>)"

definition receive_authorize ::
  "('c, 'st) link_ctx \<Rightarrow> node_id \<Rightarrow> authorize_params \<Rightarrow> ('c, 'st) link_state
     \<Rightarrow> ((rpc_error + unit) \<times> ('c, 'st) link_state) option" where
  "receive_authorize c sender params st =
     (if ap_protocol_version params \<noteq> ASSET_LINK_PROTOCOL_VERSION then
        Some (Inl (application_error ASSET_LINK_ERROR_UNSUPPORTED_PROTOCOL_VERSION
          ''unsupported_protocol_version''), st)
      else if \<not> lx_authorizer c then
        Some (Inl (internal_error ''asset_link_authorizer_not_available''), st)
      else map_option (\<lambda>(r, swaps). (r, st\<lparr>al_swaps := swaps\<rparr>)) (authorize_swap c sender params (al_swaps st)))"

definition handle_authorize ::
  "('c, 'st) link_ctx \<Rightarrow> node_id \<Rightarrow> json \<Rightarrow> json option \<Rightarrow> ('c, 'st) link_state \<Rightarrow> ('c, 'st) link_state option" where
  "handle_authorize c sender rid params_value st =
     (case params_value of
        None \<Rightarrow> Some (link_queue_error c sender rid JSONRPC_INVALID_PARAMS ''missing params'' st)
      | Some v \<Rightarrow>
          (case lx_params c v of
             None \<Rightarrow>
               Some (link_queue_error c sender rid JSONRPC_INVALID_PARAMS ''invalid_authorize_swap_params'' st)
           | Some params \<Rightarrow>
               (case receive_authorize c sender params st of
                  None \<Rightarrow> None
                | Some (Inr _, st) \<Rightarrow>
                    Some (link_queue_value c sender
                      (jsonrpc_result_value rid (JObj [(''authorized'', JBool True)])) st)
                | Some (Inl err, st) \<Rightarrow>
                    Some (link_queue_error c sender rid (re_code err) (re_message err) st))))"

definition link_handle_custom_message ::
  "('c, 'st) link_ctx \<Rightarrow> string \<Rightarrow> node_id \<Rightarrow> ('c, 'st) link_state \<Rightarrow> ('c, 'st) link_state option" where
  "link_handle_custom_message c payload sender st =
     (if \<not> lx_allows_peer c sender then Some st
      else if 0 \<in> set (as_bytes payload) then Some (link_queue_parse_error c sender st)
      else case rc_from_str (lx_codec c) payload of
        None \<Rightarrow> Some (link_queue_parse_error c sender st)
      | Some env \<Rightarrow>
          if env_jsonrpc env \<noteq> JSONRPC_VERSION then Some (link_queue_invalid_request c sender st)
          else if is_response_like env then
            (if env_method env \<noteq> None then Some st
             else Some (complete_asset_link_response c sender (env_id env) (env_result env) (env_error env) st))
          else case (env_method env, env_id env) of
            (Some method, Some rid) \<Rightarrow>
              if method = ASSET_LINK_AUTHORIZE_SWAP_METHOD
                then handle_authorize c sender rid (env_params env) st
              else Some (link_queue_error c sender rid JSONRPC_METHOD_NOT_FOUND ''method not found'' st)
          | _ \<Rightarrow> Some (link_queue_invalid_request c sender st))"

definition link_get_and_clear_pending_msg ::
  "('c, 'st) link_state \<Rightarrow> (node_id \<times> string) list \<times> ('c, 'st) link_state" where
  "link_get_and_clear_pending_msg st = (al_pending st, st\<lparr>al_pending := []\<rparr>)"

end
