(* ===== verification/Swap_Props.thy ===== *)
theory Swap_Props
  imports Asset_Link Rln_Assoc
begin

text \<open>
  Properties of swaps: what an intercepted payment must satisfy to be forwarded, that one offer is
  forwarded once, that offers survive printing, and that authorized swaps stay within the liquidity.
\<close>

section \<open>Saving\<close>

lemma save_taker_Some:
  "save_taker_swaps e st = Some st' \<Longrightarrow> ss_taker st' = ss_taker st \<and> ss_maker st' = ss_maker st"
  by (auto simp: save_taker_swaps_def split: sum.splits prod.splits)

lemma save_maker_Some:
  "save_maker_swaps e st = Some st' \<Longrightarrow> ss_taker st' = ss_taker st \<and> ss_maker st' = ss_maker st"
  by (auto simp: save_maker_swaps_def split: sum.splits prod.splits)

lemma update_taker_status_Some:
  assumes "update_taker_swap_status e now h status st = Some st'"
  obtains sd sd' where "map_of (ss_taker st) h = Some sd" "taker_set_status now status sd = Some sd'"
    "ss_taker st' = AList.update h sd' (ss_taker st)" "sd_status sd' = status" "status \<noteq> Waiting"
proof -
  from assms obtain sd sd' where sd: "map_of (ss_taker st) h = Some sd"
      "taker_set_status now status sd = Some sd'"
    and save: "save_taker_swaps e (st\<lparr>ss_taker := AList.update h sd' (ss_taker st)\<rparr>) = Some st'"
    by (auto simp: update_taker_swap_status_def split: option.splits)
  have "sd_status sd' = status" "status \<noteq> Waiting"
    using sd(2) by (auto simp: taker_set_status_def split: swap_status.splits)
  then show thesis using that sd save_taker_Some [OF save] by simp
qed

lemma update_maker_status_taker:
  "update_maker_swap_status e now h status st = Some st' \<Longrightarrow> ss_taker st' = ss_taker st"
  by (auto simp: update_maker_swap_status_def split: option.splits dest: save_maker_Some)


section \<open>A swap that left its waiting state\<close>

text \<open>It never waits again, and if it is pending it was pending for the same payment before.\<close>

definition left_waiting_kept :: "('c, 'st) swap_state \<Rightarrow> ('c, 'st) swap_state \<Rightarrow> bool" where
  "left_waiting_kept st st' \<longleftrightarrow>
     (\<forall>h sd. map_of (ss_taker st) h = Some sd \<and> sd_status sd \<noteq> Waiting \<longrightarrow>
        (\<exists>sd'. map_of (ss_taker st') h = Some sd' \<and> sd_status sd' \<noteq> Waiting
           \<and> (sd_status sd' = Pending \<longrightarrow>
                sd_status sd = Pending \<and> sd_pending_intercept_id sd' = sd_pending_intercept_id sd)))"

lemma kept_same: "ss_taker st' = ss_taker st \<Longrightarrow> left_waiting_kept st st'"
  by (auto simp: left_waiting_kept_def)

lemma kept_refl [simp]: "left_waiting_kept st st"
  by (rule kept_same) simp

lemma kept_trans: "left_waiting_kept a b \<Longrightarrow> left_waiting_kept b c \<Longrightarrow> left_waiting_kept a c"
  unfolding left_waiting_kept_def by metis

lemma kept_fresh:
  assumes "map_of (ss_taker st) h = None" "\<And>k. k \<noteq> h \<Longrightarrow> map_of (ss_taker st') k = map_of (ss_taker st) k"
  shows "left_waiting_kept st st'"
  using assms unfolding left_waiting_kept_def by (metis option.distinct(1))

lemma kept_update:
  assumes "ss_taker st' = AList.update h sd' (ss_taker st)" "sd_status sd' \<notin> {Waiting, Pending}"
  shows "left_waiting_kept st st'"
  using assms by (auto simp: left_waiting_kept_def update_conv')

lemma kept_status:
  assumes "update_taker_swap_status e now h status st = Some st'" "status \<noteq> Pending"
  shows "left_waiting_kept st st'"
  using update_taker_status_Some [OF assms(1)] assms(2) kept_update by (metis insertE singletonD)

lemma kept_forwarded: "payment_forwarded_swap e now h st = Some st' \<Longrightarrow> left_waiting_kept st st'"
  using kept_status by (fastforce simp: payment_forwarded_swap_def split: if_splits)

lemma shown_status_not_Pending:
  "shown_status now now2 sd = Some status \<Longrightarrow> status \<noteq> sd_status sd \<Longrightarrow> status \<noteq> Pending"
  by (auto simp: shown_status_def split: if_splits option.splits)

lemma kept_map_swap:
  assumes "map_swap e cc now now2 now3 h sd is_taker st = Some (v, st')"
  shows "left_waiting_kept st st'"
proof -
  from assms obtain status where s: "shown_status now now2 sd = Some status"
    "(if status = sd_status sd then Some st
      else if is_taker then update_taker_swap_status e now3 h status st
      else update_maker_swap_status e now3 h status st) = Some st'"
    by (auto simp: map_swap_def split: option.splits)
  show ?thesis
    using s(2) kept_status [of e now3 h status st st'] shown_status_not_Pending [OF s(1)]
      update_maker_status_taker [of e now3 h status st st'] kept_same [of st' st]
    by (auto split: if_splits)
qed

lemma kept_get_swap: "get_swap e cc now now2 now3 s is_taker st = Some (Inr (v, st')) \<Longrightarrow> left_waiting_kept st st'"
  by (auto simp: get_swap_def split: sum.splits option.splits intro: kept_map_swap)

lemma kept_map_swaps:
  "map_swaps e cc clock i is_taker swaps st = Some (vs, st') \<Longrightarrow> left_waiting_kept st st'"
proof (induction e cc clock i is_taker swaps st arbitrary: vs st' rule: map_swaps.induct)
  case (2 e cc clock i is_taker ph sd swaps st)
  obtain n n2 n3 where clk: "clock i = (n, n2, n3)" by (cases "clock i")
  from "2.prems" clk obtain v st1 vs' where m: "map_swap e cc n n2 n3 ph sd is_taker st = Some (v, st1)"
    "map_swaps e cc clock (Suc i) is_taker swaps st1 = Some (vs', st')"
    by (auto split: option.splits)
  from "2.IH" [OF clk [symmetric] refl m(1) refl m(2)] kept_map_swap [OF m(1)] show ?case
    using kept_trans by blast
qed simp

lemma kept_list_swaps: "list_swaps e cc clock st = Some (vs, st') \<Longrightarrow> left_waiting_kept st st'"
  by (auto simp: list_swaps_def Let_def split: option.splits dest!: kept_map_swaps intro: kept_trans)

lemma kept_authorize:
  assumes "authorize_swap c sender p st = Some (r, st')"
  shows "left_waiting_kept st st'"
proof (cases "ss_taker st' = ss_taker st")
  case False
  then obtain h where h: "validate_and_parse_payment_hash (ap_payment_hash p) = Inr h"
    using assms by (auto simp: authorize_swap_def split: sum.splits)
  have "map_of (ss_taker st) h = None \<and> (\<forall>k. k \<noteq> h \<longrightarrow> map_of (ss_taker st') k = map_of (ss_taker st) k)"
    using assms False h by (auto simp: authorize_swap_def Let_def update_conv' delete_conv'
        split: sum.splits option.splits if_splits prod.splits failure.splits)
  then show ?thesis
    by (intro kept_fresh [of st h]) auto
qed (rule kept_same)

lemma taker_enters:
  assumes "taker e cc chans now now2 s st = Some (Inr st')" "swapstring_from_str cc s = Inr (info, h)"
  shows "\<exists>sd. map_of (ss_taker st') = (map_of (ss_taker st))(h \<mapsto> sd)"
  using assms
  by (auto simp: taker_def add_taker_swap_def update_conv' split: if_splits dest!: save_taker_Some)

lemma kept_maker_init: "maker_init e cc chans now now2 created r st = Some (Inr (x, st')) \<Longrightarrow> left_waiting_kept st st'"
  by (intro kept_same)
    (auto simp: maker_init_def add_maker_swap_def Let_def
      split: sum.splits option.splits if_splits dest!: save_maker_Some)


section \<open>Intercepted payments\<close>

datatype swap_event = Forwarded bytes bytes | Entered bytes

fun forwards :: "bytes \<Rightarrow> 'c htlc_action list \<Rightarrow> swap_event list" where
  "forwards h [] = []"
| "forwards h (ForwardIntercepted iid scid node amt rgb # acts) = Forwarded h iid # forwards h acts"
| "forwards h (FailIntercepted iid # acts) = forwards h acts"

definition in_channel :: "'c intercept_ctx \<Rightarrow> 'c intercept \<Rightarrow> channel_details option" where
  "in_channel c ev =
     find (\<lambda>d. cd_outbound_scid_alias d = Some (ie_prev_outbound_scid_alias ev)) (ic_channels_in c)"

definition out_channel :: "'c intercept_ctx \<Rightarrow> 'c intercept \<Rightarrow> channel_details option" where
  "out_channel c ev =
     find (\<lambda>d. cd_short_channel_id d = Some (ie_requested_next_hop_scid ev)
       \<or> cd_outbound_scid_alias d = Some (ie_requested_next_hop_scid ev)) (ic_channels_out c)"

text \<open>The conditions under which a payment is forwarded against an entry of the whitelist.\<close>

definition admitted ::
  "'c intercept_ctx \<Rightarrow> 'c intercept \<Rightarrow> channel_details \<Rightarrow> channel_details \<Rightarrow> 'c swap_data \<Rightarrow> bool" where
  "admitted c ev inb outb sd \<longleftrightarrow>
     ie_is_swap ev \<and> in_channel c ev = Some inb \<and> out_channel c ev = Some outb
     \<and> forwardable sd (ie_intercept_id ev)
     \<and> (sd_authorized_peer sd = None \<or> sd_authorized_peer sd = Some (cd_counterparty inb))
     \<and> ic_checked_at c \<le> si_expiry (sd_swap_info sd)
     \<and> swap_matches (sd_swap_info sd) ev (ic_rgb_contract c (cd_channel_id inb))
         (ic_rgb_contract c (cd_channel_id outb))"

definition forward_of :: "'c intercept \<Rightarrow> channel_details \<Rightarrow> 'c htlc_action" where
  "forward_of ev outb =
     ForwardIntercepted (ie_intercept_id ev) (ie_requested_next_hop_scid ev) (cd_counterparty outb)
       (ie_expected_outbound_amount_msat ev) (ie_expected_outbound_rgb_payment ev)"

lemma htlc_intercepted_split:
  assumes "htlc_intercepted e c ev st = Some (acts, st')"
  shows "acts = [FailIntercepted (ie_intercept_id ev)]
      \<and> (st' = st \<or> (\<exists>now status. status \<noteq> Pending
           \<and> update_taker_swap_status e now (ie_payment_hash ev) status st = Some st'))
    \<or> (\<exists>inb outb sd st1. map_of (ss_taker st) (ie_payment_hash ev) = Some sd \<and> admitted c ev inb outb sd
        \<and> update_taker_swap_pending_intercept e (ic_updated_at c) (ie_payment_hash ev) (ie_intercept_id ev) st = Some st1
        \<and> (if ic_forward_ok c then acts = [forward_of ev outb] \<and> st' = st1
           else acts = [forward_of ev outb, FailIntercepted (ie_intercept_id ev)]
             \<and> update_taker_swap_status e (ic_failed_at c) (ie_payment_hash ev) Failed st1 = Some st'))"
proof -
  let ?h = "ie_payment_hash ev" and ?i = "ie_intercept_id ev"
  show ?thesis
  proof (cases "\<exists>inb outb sd. map_of (ss_taker st) ?h = Some sd \<and> admitted c ev inb outb sd")
    case True
    then obtain inb outb sd where sd: "map_of (ss_taker st) ?h = Some sd" "admitted c ev inb outb sd" by blast
    then obtain st1 where "update_taker_swap_pending_intercept e (ic_updated_at c) ?h ?i st = Some st1"
      using assms by (auto simp: htlc_intercepted_def admitted_def in_channel_def out_channel_def Let_def leD
          split: option.splits)
    with sd assms have "if ic_forward_ok c then acts = [forward_of ev outb] \<and> st' = st1
       else acts = [forward_of ev outb, FailIntercepted ?i]
         \<and> update_taker_swap_status e (ic_failed_at c) ?h Failed st1 = Some st'"
      by (auto simp: htlc_intercepted_def admitted_def in_channel_def out_channel_def forward_of_def Let_def leD
          split: option.splits)
    with sd \<open>update_taker_swap_pending_intercept e _ _ _ _ = _\<close> show ?thesis by blast
  next
    case False
    have "acts = [FailIntercepted ?i]
      \<and> (st' = st \<or> update_taker_swap_status e (ic_updated_at c) ?h Expired st = Some st'
          \<or> update_taker_swap_status e (ic_updated_at c) ?h Failed st = Some st')"
    proof (cases "ie_is_swap ev \<and> in_channel c ev \<noteq> None \<and> out_channel c ev \<noteq> None
        \<and> map_of (ss_taker st) ?h \<noteq> None")
      case True
      then obtain inb outb sd where sd: "ie_is_swap ev" "in_channel c ev = Some inb"
        "out_channel c ev = Some outb" "map_of (ss_taker st) ?h = Some sd" by auto
      then have "\<not> admitted c ev inb outb sd" using False by blast
      with sd assms show ?thesis
        by (auto simp: htlc_intercepted_def admitted_def in_channel_def out_channel_def Let_def not_le
            split: if_splits)
    next
      case False
      with assms show ?thesis
        by (auto simp: htlc_intercepted_def in_channel_def out_channel_def Let_def split: option.splits if_splits)
    qed
    then show ?thesis by blast
  qed
qed

lemma pending_intercept_Some:
  assumes "update_taker_swap_pending_intercept e now h iid st = Some st'"
  obtains sd sd' where "map_of (ss_taker st) h = Some sd" "ss_taker st' = AList.update h sd' (ss_taker st)"
    "sd_status sd' = Pending" "sd_pending_intercept_id sd' = Some iid"
proof -
  from assms obtain sd where sd: "map_of (ss_taker st) h = Some sd"
    by (auto simp: update_taker_swap_pending_intercept_def split: option.splits)
  let ?sd = "sd\<lparr>sd_status := Pending, sd_initiated_at := Some now, sd_pending_intercept_id := Some iid\<rparr>"
  have "save_taker_swaps e (st\<lparr>ss_taker := AList.update h ?sd (ss_taker st)\<rparr>) = Some st'"
    using assms sd by (simp add: update_taker_swap_pending_intercept_def)
  with that [OF sd, of ?sd] save_taker_Some show thesis by fastforce
qed

text \<open>Either nothing is forwarded, or an admitted payment is, once, and its entry is now pending for
  it or failed.\<close>

lemma htlc_intercepted_cases:
  assumes "htlc_intercepted e c ev st = Some (acts, st')"
  obtains (reject) "acts = [FailIntercepted (ie_intercept_id ev)]" "left_waiting_kept st st'"
  | (forward) inb outb sd sd' where "map_of (ss_taker st) (ie_payment_hash ev) = Some sd"
      "admitted c ev inb outb sd"
      "acts = [forward_of ev outb] \<or> acts = [forward_of ev outb, FailIntercepted (ie_intercept_id ev)]"
      "map_of (ss_taker st') = (map_of (ss_taker st))(ie_payment_hash ev \<mapsto> sd')"
      "if ic_forward_ok c then sd_status sd' = Pending \<and> sd_pending_intercept_id sd' = Some (ie_intercept_id ev)
       else sd_status sd' = Failed"
proof -
  let ?h = "ie_payment_hash ev" and ?i = "ie_intercept_id ev"
  from htlc_intercepted_split [OF assms] consider
    "acts = [FailIntercepted ?i]" "left_waiting_kept st st'"
  | inb outb sd st1 where "map_of (ss_taker st) ?h = Some sd" "admitted c ev inb outb sd"
      "update_taker_swap_pending_intercept e (ic_updated_at c) ?h ?i st = Some st1"
      "if ic_forward_ok c then acts = [forward_of ev outb] \<and> st' = st1
       else acts = [forward_of ev outb, FailIntercepted ?i]
         \<and> update_taker_swap_status e (ic_failed_at c) ?h Failed st1 = Some st'"
    using kept_status kept_refl by blast
  then show thesis
  proof cases
    case 1
    then show thesis by (rule reject)
  next
    case (2 inb outb sd st1)
    from pending_intercept_Some [OF 2(3)] obtain sd1 where sd1:
      "ss_taker st1 = AList.update ?h sd1 (ss_taker st)" "sd_status sd1 = Pending"
      "sd_pending_intercept_id sd1 = Some ?i" by blast
    show thesis
    proof (cases "ic_forward_ok c")
      case True
      with 2 sd1 show thesis by (intro forward [OF 2(1,2), of sd1]) (auto simp: update_conv')
    next
      case False
      with 2(4) have "update_taker_swap_status e (ic_failed_at c) ?h Failed st1 = Some st'" by simp
      from update_taker_status_Some [OF this] obtain sd2 where
        "ss_taker st' = AList.update ?h sd2 (ss_taker st1)" "sd_status sd2 = Failed" by blast
      with False 2 sd1 show thesis by (intro forward [OF 2(1,2), of sd2]) (auto simp: update_conv')
    qed
  qed
qed


text \<open>What a step can do to the map of a taker. The log, oldest first, has the payments forwarded
  under a payment hash and the offers the taker route entered, which replaces an entry the hash
  already has.\<close>

inductive swap_step ::
  "('c, 'st) swap_env \<Rightarrow> ('c, 'st) swap_state \<times> swap_event list
     \<Rightarrow> ('c, 'st) swap_state \<times> swap_event list \<Rightarrow> bool"
  for e :: "('c, 'st) swap_env" where
  step_intercept: "htlc_intercepted e c ev st = Some (acts, st') \<Longrightarrow>
    swap_step e (st, log) (st', log @ forwards (ie_payment_hash ev) acts)"
| step_forwarded: "payment_forwarded_swap e now h st = Some st' \<Longrightarrow> swap_step e (st, log) (st', log)"
| step_get: "get_swap e cc now now2 now3 s is_taker st = Some (Inr (v, st')) \<Longrightarrow>
    swap_step e (st, log) (st', log)"
| step_list: "list_swaps e cc clock st = Some (vs, st') \<Longrightarrow> swap_step e (st, log) (st', log)"
| step_authorize: "authorize_swap c sender p st = Some (r, st') \<Longrightarrow> lx_env c = e \<Longrightarrow>
    swap_step e (st, log) (st', log)"
| step_taker: "taker e cc chans now now2 s st = Some (Inr st') \<Longrightarrow>
    swapstring_from_str cc s = Inr (info, h) \<Longrightarrow> swap_step e (st, log) (st', log @ [Entered h])"
| step_maker: "maker_init e cc chans now now2 created r st = Some (Inr (x, st')) \<Longrightarrow>
    swap_step e (st, log) (st', log)"

text \<open>The payments forwarded under a hash since its offer was last entered, and the log in which
  they are always the same one; both on the log with the newest first.\<close>

fun forwarded_since :: "bytes \<Rightarrow> swap_event list \<Rightarrow> bytes set" where
  "forwarded_since h [] = {}"
| "forwarded_since h (Entered h' # log) = (if h' = h then {} else forwarded_since h log)"
| "forwarded_since h (Forwarded h' i # log) = (if h' = h then {i} else {}) \<union> forwarded_since h log"

fun once_per_entry :: "swap_event list \<Rightarrow> bool" where
  "once_per_entry [] = True"
| "once_per_entry (Entered h # log) = once_per_entry log"
| "once_per_entry (Forwarded h i # log) = (forwarded_since h log \<subseteq> {i} \<and> once_per_entry log)"

lemma once_per_entry_pair:
  assumes "once_per_entry (c @ Forwarded h j # b @ Forwarded h i # a)" "Entered h \<notin> set b"
  shows "i = j"
proof -
  have "i \<in> forwarded_since h (b @ Forwarded h i # a)"
    using assms(2) by (induction b rule: forwarded_since.induct [of _ h, case_names Nil E F]) auto
  moreover have "once_per_entry (Forwarded h j # b @ Forwarded h i # a)"
    using assms(1) by (induction c rule: once_per_entry.induct) auto
  ultimately show ?thesis by auto
qed

definition log_ok :: "('c, 'st) swap_state \<times> swap_event list \<Rightarrow> bool" where
  "log_ok sl \<longleftrightarrow>
     once_per_entry (rev (snd sl))
     \<and> (\<forall>h i. i \<in> forwarded_since h (rev (snd sl)) \<longrightarrow>
        (\<exists>sd. map_of (ss_taker (fst sl)) h = Some sd \<and> sd_status sd \<noteq> Waiting
           \<and> (sd_status sd = Pending \<longrightarrow> sd_pending_intercept_id sd = Some i)))"

lemma log_ok_kept: "log_ok (st, log) \<Longrightarrow> left_waiting_kept st st' \<Longrightarrow> log_ok (st', log)"
  unfolding log_ok_def left_waiting_kept_def fst_conv snd_conv by metis

lemma log_ok_entered:
  "log_ok (st, log) \<Longrightarrow> \<exists>sd. map_of (ss_taker st') = (map_of (ss_taker st))(h \<mapsto> sd) \<Longrightarrow>
   log_ok (st', log @ [Entered h])"
  by (auto simp: log_ok_def)

lemma log_ok_intercept:
  assumes ok: "log_ok (st, log)" and i: "htlc_intercepted e c ev st = Some (acts, st')"
  shows "log_ok (st', log @ forwards (ie_payment_hash ev) acts)"
  using i
proof (cases rule: htlc_intercepted_cases)
  case reject
  then show ?thesis using log_ok_kept [OF ok] by simp
next
  case (forward inb outb sd sd')
  let ?h = "ie_payment_hash ev" and ?i = "ie_intercept_id ev"
  have f: "forwards ?h acts = [Forwarded ?h ?i]"
    using forward(3) by (auto simp: forward_of_def)
  have fw: "forwardable sd ?i" using forward(2) by (simp add: admitted_def)
  have same: "j = ?i" if "j \<in> forwarded_since ?h (rev log)" for j
  proof -
    from ok that forward(1) have "sd_status sd \<noteq> Waiting"
      "sd_status sd = Pending \<longrightarrow> sd_pending_intercept_id sd = Some j"
      unfolding log_ok_def fst_conv snd_conv by (metis option.inject)+
    with fw show ?thesis by (auto simp: forwardable_def split: swap_status.splits)
  qed
  have sd': "sd_status sd' \<noteq> Waiting" "sd_status sd' = Pending \<longrightarrow> sd_pending_intercept_id sd' = Some ?i"
    using forward(5) by (auto split: if_splits)
  show ?thesis
    unfolding log_ok_def fst_conv snd_conv forward(4) f
    using ok same sd' unfolding log_ok_def by (auto split: if_splits)
qed

lemma log_ok_step: "swap_step e a b \<Longrightarrow> log_ok a \<Longrightarrow> log_ok b"
proof (induction rule: swap_step.induct)
  case (step_intercept c ev st acts st' log)
  then show ?case by (rule log_ok_intercept [rotated])
next
  case (step_taker cc chans now now2 s st st' info h log)
  then show ?case using taker_enters by (intro log_ok_entered) blast+
qed (blast intro: log_ok_kept kept_forwarded kept_get_swap kept_list_swaps kept_authorize kept_maker_init)+

lemma log_ok_steps: "(swap_step e)\<^sup>*\<^sup>* a b \<Longrightarrow> log_ok a \<Longrightarrow> log_ok b"
  by (induction rule: rtranclp_induct) (auto intro: log_ok_step)


section \<open>Amounts\<close>

lemma checked_sub_Some: "checked_sub a b = Some d \<longleftrightarrow> unat a = unat b + unat d"
proof
  assume "checked_sub a b = Some d"
  then have "b \<le> a" "d = a - b" by (auto simp: checked_sub_def split: if_splits)
  then show "unat a = unat b + unat d" by (simp add: unat_sub word_le_nat_alt)
next
  assume s: "unat a = unat b + unat d"
  then have le: "b \<le> a" by (simp add: word_le_nat_alt)
  then have "unat (a - b) = unat d" using s by (simp add: unat_sub)
  then have "a - b = d" by (rule word_unat_eq_iff [THEN iffD2])
  then show "checked_sub a b = Some d" using le by (simp add: checked_sub_def)
qed

text \<open>What the exchange does to the taker: the net amounts of the two legs.\<close>

definition exchange_ok :: "'c swap_info \<Rightarrow> 'c intercept \<Rightarrow> 'c option \<Rightarrow> 'c option \<Rightarrow> bool" where
  "exchange_ok info ev inc outc =
     (let in_msat = unat (ie_inbound_amount_msat ev); out_msat = unat (ie_expected_outbound_amount_msat ev)
      in case (si_from_asset info, si_to_asset info) of
           (None, to) \<Rightarrow>
             out_msat = in_msat + unat (si_qty_from info) \<and> inc = to
             \<and> ie_inbound_rgb_amount ev = Some (si_qty_to info)
         | (Some a, None) \<Rightarrow>
             (if si_qty_to info = 0 then in_msat \<le> out_msat else in_msat = out_msat + unat (si_qty_to info))
             \<and> outc = Some a \<and> ie_expected_outbound_rgb_payment ev = Some (a, si_qty_from info)
         | (Some a, Some b) \<Rightarrow>
             in_msat = out_msat \<and> outc = Some a \<and> inc = Some b
             \<and> ie_expected_outbound_rgb_payment ev = Some (a, si_qty_from info)
             \<and> ie_inbound_rgb_amount ev = Some (si_qty_to info))"

lemma saturating_sub_eq:
  "saturating_sub a b = d \<longleftrightarrow> (if d = 0 then unat a \<le> unat b else unat a = unat b + unat d)"
proof -
  have eq: "saturating_sub a b = d \<longleftrightarrow> unat a - unat b = unat d"
    by (simp add: word_unat_eq_iff unat_saturating_sub)
  have d: "d = 0 \<longleftrightarrow> unat d = 0" by (simp add: unat_eq_0)
  show ?thesis unfolding eq unfolding d by auto
qed

lemma swap_matches_exchange: "swap_matches info ev inc outc \<longleftrightarrow> exchange_ok info ev inc outc"
  by (auto simp: swap_matches_def exchange_ok_def is_from_btc_def is_to_btc_def checked_sub_Some
      saturating_sub_eq Let_def split: option.splits)


section \<open>Offers\<close>

definition lawful_codec :: "'c contract_codec \<Rightarrow> bool" where
  "lawful_codec cc \<longleftrightarrow>
     (\<forall>c. cc_from_str cc (cc_to_string cc c) = Some c \<and> CHR ''/'' \<notin> set (cc_to_string cc c)
        \<and> cc_to_string cc c \<noteq> ''btc'')"

lemma show_u64_no_slash: "CHR ''/'' \<notin> set (show_u64 n)"
  unfolding show_u64_def by (rule show_nat_no_sep) simp

lemma hex_str_no_slash: "CHR ''/'' \<notin> set (hex_str bs)"
  by (rule hex_str_no_sep) simp

lemma asset_string_no_slash: "lawful_codec cc \<Longrightarrow> CHR ''/'' \<notin> set (asset_string cc a)"
  by (auto simp: asset_string_def lawful_codec_def split: option.splits)

lemma parse_asset_string: "lawful_codec cc \<Longrightarrow> parse_swapstring_asset cc (asset_string cc a) = Some a"
  by (auto simp: asset_string_def parse_swapstring_asset_def lawful_codec_def split: option.splits)

lemma swapstring_parts:
  assumes "lawful_codec cc"
  shows "split_on (CHR ''/'') (swapstring_fmt cc info h) =
    [show_u64 (si_qty_from info), asset_string cc (si_from_asset info), show_u64 (si_qty_to info),
     asset_string cc (si_to_asset info), show_u64 (si_expiry info), hex_str h]"
  using asset_string_no_slash [OF assms] show_u64_no_slash hex_str_no_slash
  by (simp add: swapstring_fmt_def split_on_sep)

lemma swapstring_parse:
  assumes "lawful_codec cc" "length h = 32" "\<not> same_asset info"
  shows "swapstring_from_str cc (swapstring_fmt cc info h) =
    (if si_qty_from info = 0 \<or> si_qty_to info = 0 \<or> si_expiry info = 0
     then Inl ''qty_from, qty_to and expiry should be positive'' else Inr (info, h))"
proof -
  have "parse_hash32 (hex_str h) = Some h" using assms(2) by (simp add: parse_hash32_def)
  then show ?thesis
    using assms(3)
    by (cases info) (simp add: same_asset_def swapstring_from_str_def swapstring_parts [OF assms(1)] parse_asset_string [OF assms(1)] Let_def)
qed

lemma maker_init_Inr:
  assumes "maker_init e cc chans now now2 (Some (h, secret)) r st = Some (Inr ((ph, sec, s), st'))"
  obtains info where "\<not> same_asset info" "s = swapstring_fmt cc info h"
    "map_of (ss_maker st') h = Some (create_from_swap_info now2 info)"
    "si_qty_from info = mr_qty_from r" "si_qty_to info = mr_qty_to r"
    "unat (si_expiry info) = unat now + unat (mr_timeout_sec r)"
proof -
  from assms obtain fa ta expiry where parse: "parse_asset_option cc (mr_from_asset r) = Inr fa"
      "parse_asset_option cc (mr_to_asset r) = Inr ta"
    and expiry: "checked_add now (ucast (mr_timeout_sec r)) = Some expiry"
    by (auto simp: maker_init_def split: sum.splits option.splits if_splits)
  let ?info = "\<lparr>si_qty_from = mr_qty_from r, si_qty_to = mr_qty_to r, si_from_asset = fa,
      si_to_asset = ta, si_expiry = expiry\<rparr>"
  have as: "fa \<noteq> ta" and add: "add_maker_swap e h (create_from_swap_info now2 ?info) st = Some st'"
    and s: "s = swapstring_fmt cc ?info h"
    using assms parse expiry by (auto simp: maker_init_def Let_def split: option.splits if_splits)
  have "unat (ucast (mr_timeout_sec r) :: u64) = unat (mr_timeout_sec r)"
    by (simp add: unsigned_ucast_eq unsigned_take_bit_eq take_bit_nat_eq_self_iff)
      (use unat_less_exp [of "mr_timeout_sec r"] in simp)
  then have "unat expiry = unat now + unat (mr_timeout_sec r)"
    using checked_add_Some [OF expiry] by simp
  with that [OF _ s] as add show thesis
    by (auto simp: same_asset_def add_maker_swap_def update_conv' dest!: save_maker_Some)
qed


section \<open>Liquidity\<close>

lemma reserved_append:
  assumes "map_of swaps h = None" "reserves contract now swap"
  shows "reserved_outbound_rgb_amount (AList.update h swap swaps) contract now
    = saturating_add (reserved_outbound_rgb_amount swaps contract now) (si_qty_from (sd_swap_info swap))"
  using assms by (simp add: reserved_outbound_rgb_amount_def update_fresh)

lemma saturating_add_ge: "a \<le> saturating_add a b" for a b :: u64
  using unat_less_exp [of a] by (simp add: word_le_nat_alt unat_saturating_add)

lemma htlc_admitted:
  assumes "map_of (ss_taker st) (ie_payment_hash ev) = Some sd" "admitted c ev inb outb sd"
  shows "htlc_intercepted e c ev st =
    (case update_taker_swap_pending_intercept e (ic_updated_at c) (ie_payment_hash ev) (ie_intercept_id ev) st of
       None \<Rightarrow> None
     | Some st1 \<Rightarrow>
         if ic_forward_ok c then Some ([forward_of ev outb], st1)
         else map_option (Pair [forward_of ev outb, FailIntercepted (ie_intercept_id ev)])
                (update_taker_swap_status e (ic_failed_at c) (ie_payment_hash ev) Failed st1))"
  using assms
  by (auto simp: htlc_intercepted_def admitted_def in_channel_def out_channel_def forward_of_def Let_def leD
      split: option.splits)

lemma authorize_Inr:
  assumes "authorize_swap c sender p st = Some (Inr (), st')"
  obtains h asset linked info swap where
    "validate_and_parse_payment_hash (ap_payment_hash p) = Inr h" "map_of (ss_taker st) h = None"
    "cc_from_str (lx_contracts c) (ap_asset_id p) = Some asset"
    "cc_from_str (lx_contracts c) (ap_linked_asset_id p) = Some linked"
    "check_link c p asset linked = Inr ()"
    "ap_amount p \<le> saturating_sub (get_max_local_rgb_amount asset (lx_rgb_channels c))
       (reserved_outbound_rgb_amount (ss_taker st) asset (lx_authorization_time c))"
    "info = \<lparr>si_qty_from = ap_amount p, si_qty_to = ap_amount p, si_from_asset = Some asset,
       si_to_asset = Some linked, si_expiry = saturating_add (lx_authorization_time c)
         (min (ap_expiry_sec p) ASSET_LINK_SWAP_AUTHORIZATION_MAX_EXPIRY_SECS)\<rparr>"
    "swap = (create_from_swap_info (lx_requested_at c) info)\<lparr>sd_authorized_peer := Some sender\<rparr>"
    "ss_taker st' = AList.update h swap (ss_taker st)"
proof -
  from assms obtain h asset linked where p: "validate_and_parse_payment_hash (ap_payment_hash p) = Inr h"
    "cc_from_str (lx_contracts c) (ap_asset_id p) = Some asset"
    "cc_from_str (lx_contracts c) (ap_linked_asset_id p) = Some linked"
    by (auto simp: authorize_swap_def split: sum.splits option.splits)
  from assms p show thesis
    by (intro that [OF p(1) _ p(2,3) _ _ refl refl])
      (auto simp: authorize_swap_def Let_def not_less split: sum.splits if_splits prod.splits failure.splits)
qed


section \<open>Two contracts\<close>

text \<open>A small setting, on which the witnesses run: two contracts, a store that takes every write.\<close>

definition duo_codec :: "bool contract_codec" where
  "duo_codec = \<lparr>cc_to_string = (\<lambda>c. if c then ''rgbA'' else ''rgbB''),
     cc_from_str = (\<lambda>s. if s = ''rgbA'' then Some True else if s = ''rgbB'' then Some False else None)\<rparr>"

definition duo_env :: "(bool, unit) swap_env" where
  "duo_env = \<lparr>se_write = (\<lambda>kv k v. (Inr (), kv)), se_encode = (\<lambda>m. []), se_decode = (\<lambda>b. None)\<rparr>"

definition duo_offer :: "bool swap_info" where
  "duo_offer = \<lparr>si_qty_from = 1000, si_qty_to = 7, si_from_asset = None, si_to_asset = Some True, si_expiry = 50\<rparr>"

definition duo_state :: "(bool, unit) swap_state" where
  "duo_state = \<lparr>ss_maker = [], ss_taker = [([5], create_from_swap_info 1 duo_offer)], ss_kv = ()\<rparr>"

definition duo_ctx :: "bool intercept_ctx" where
  "duo_ctx = \<lparr>ic_channels_in = [\<lparr>cd_channel_id = [1], cd_counterparty = [11], cd_short_channel_id = None,
       cd_outbound_scid_alias = Some 101\<rparr>],
     ic_channels_out = [\<lparr>cd_channel_id = [2], cd_counterparty = [12], cd_short_channel_id = Some 102,
       cd_outbound_scid_alias = None\<rparr>],
     ic_rgb_contract = (\<lambda>i. if i = [1] then Some True else None), ic_checked_at = 10, ic_updated_at = 10,
     ic_failed_at = 10, ic_forward_ok = True\<rparr>"

definition duo_event :: "bool intercept" where
  "duo_event = \<lparr>ie_is_swap = True, ie_payment_hash = [5], ie_intercept_id = [9], ie_inbound_amount_msat = 3000,
     ie_expected_outbound_amount_msat = 4000, ie_inbound_rgb_amount = Some 7,
     ie_expected_outbound_rgb_payment = None, ie_requested_next_hop_scid = 102, ie_prev_outbound_scid_alias = 101\<rparr>"

definition duo_after :: "(bool, unit) swap_state" where
  "duo_after = duo_state\<lparr>ss_taker := [([5], (create_from_swap_info 1 duo_offer)\<lparr>sd_status := Pending,
     sd_initiated_at := Some 10, sd_pending_intercept_id := Some [9]\<rparr>)]\<rparr>"

lemma duo_lawful: "lawful_codec duo_codec"
  by (simp add: lawful_codec_def duo_codec_def)

lemma duo_intercepted:
  "htlc_intercepted duo_env duo_ctx duo_event duo_state
     = Some ([ForwardIntercepted [9] 102 [12] 4000 None], duo_after)"
  by (simp add: htlc_intercepted_def duo_env_def duo_ctx_def duo_event_def duo_state_def duo_after_def
      duo_offer_def forwardable_def create_from_swap_info_def swap_matches_def is_from_btc_def
      checked_sub_def update_taker_swap_pending_intercept_def save_taker_swaps_def Let_def)

text \<open>The same payment intercepted again, as after a restart.\<close>

lemma duo_replayed:
  "htlc_intercepted duo_env duo_ctx duo_event duo_after
     = Some ([ForwardIntercepted [9] 102 [12] 4000 None], duo_after)"
  by (simp add: htlc_intercepted_def duo_env_def duo_ctx_def duo_event_def duo_state_def duo_after_def
      duo_offer_def forwardable_def create_from_swap_info_def swap_matches_def is_from_btc_def
      checked_sub_def update_taker_swap_pending_intercept_def save_taker_swaps_def Let_def)


section \<open>Properties\<close>

text \<open>C19. Only a whitelisted swap is forwarded. When an intercepted payment is handed on, the taker had an
  entry for its hash that was waiting or pending for this very payment, not expired, and open to the
  peer the payment came from, and the entry is now pending for this payment, or failed if the
  forward failed. The payment matches the offer as far as the code looks. When the taker gives
  bitcoin, the bitcoin going out exceeds the bitcoin coming in by exactly the offered quantity and
  the asset coming in is the offer's in exactly its quantity; the asset going out is not looked at.
  When it takes bitcoin, the asset going out is the offer's in exactly its quantity and the
  bitcoin coming in exceeds what goes out by exactly the offered quantity, or at most equals it when
  that quantity is zero. When it gives one asset for another, both are the offer's in exactly the
  offered quantities and the bitcoin passes through unchanged.\<close>

theorem swap_forward_checked:
  assumes "htlc_intercepted e c ev st = Some (acts, st')" "ForwardIntercepted iid scid node amt rgb \<in> set acts"
  shows "\<exists>inb outb sd sd'. map_of (ss_taker st) (ie_payment_hash ev) = Some sd
    \<and> in_channel c ev = Some inb \<and> out_channel c ev = Some outb
    \<and> iid = ie_intercept_id ev \<and> node = cd_counterparty outb
    \<and> amt = ie_expected_outbound_amount_msat ev \<and> rgb = ie_expected_outbound_rgb_payment ev
    \<and> (sd_status sd = Waiting \<or> sd_status sd = Pending \<and> sd_pending_intercept_id sd = Some iid)
    \<and> (sd_authorized_peer sd = None \<or> sd_authorized_peer sd = Some (cd_counterparty inb))
    \<and> ic_checked_at c \<le> si_expiry (sd_swap_info sd)
    \<and> exchange_ok (sd_swap_info sd) ev (ic_rgb_contract c (cd_channel_id inb)) (ic_rgb_contract c (cd_channel_id outb))
    \<and> map_of (ss_taker st') (ie_payment_hash ev) = Some sd'
    \<and> (if ic_forward_ok c then sd_status sd' = Pending \<and> sd_pending_intercept_id sd' = Some iid
       else sd_status sd' = Failed)"
  using assms(1)
proof (cases rule: htlc_intercepted_cases)
  case reject
  then show ?thesis using assms(2) by simp
next
  case (forward inb outb sd sd')
  have f: "ForwardIntercepted iid scid node amt rgb = forward_of ev outb"
    using forward(3) assms(2) by auto
  have "sd_status sd = Waiting \<or> sd_status sd = Pending \<and> sd_pending_intercept_id sd = Some (ie_intercept_id ev)"
    using forward(2) by (auto simp: admitted_def forwardable_def split: swap_status.splits)
  then show ?thesis
    using f forward(1,2,5) swap_matches_exchange unfolding forward(4)
    by (intro exI [of _ inb] exI [of _ outb] exI [of _ sd] exI [of _ sd'])
      (auto simp: forward_of_def admitted_def)
qed

theorem swap_forward_checked_witness:
  "\<exists>inb. in_channel duo_ctx duo_event = Some inb
     \<and> exchange_ok duo_offer duo_event (ic_rgb_contract duo_ctx (cd_channel_id inb)) None"
  using swap_forward_checked [OF duo_intercepted, of "[9]" 102 "[12]" 4000 None]
  by (auto simp: duo_state_def create_from_swap_info_def duo_offer_def duo_event_def duo_ctx_def out_channel_def
      split: if_splits)

text \<open>C20. An offer is forwarded for one payment only. Through every sequence of interceptions, successful
  forwards, status queries, authorizations and offers taken, two payments handed on under one payment
  hash have the same intercept id unless the taker route entered an offer for that hash between the
  two.\<close>

theorem swap_forwarded_once:
  assumes "(swap_step e)\<^sup>*\<^sup>* (st0, []) (st, a @ Forwarded h i # b @ Forwarded h j # c)"
    and "Entered h \<notin> set b"
  shows "i = j"
proof -
  have "log_ok (st0, [])" by (simp add: log_ok_def)
  from log_ok_steps [OF assms(1) this] assms(2)
    once_per_entry_pair [of "rev c" h j "rev b" i "rev a"] show ?thesis
    unfolding log_ok_def by simp
qed

theorem swap_forwarded_once_witness:
  "\<exists>i j. (swap_step duo_env)\<^sup>*\<^sup>* (duo_state, []) (duo_after, [Forwarded [5] i, Forwarded [5] j]) \<and> i = j"
proof -
  have "swap_step duo_env (duo_state, []) (duo_after, [Forwarded [5] [9]])"
    using step_intercept [OF duo_intercepted, of "[]"] by (simp add: duo_event_def)
  moreover have "swap_step duo_env (duo_after, [Forwarded [5] [9]]) (duo_after, [Forwarded [5] [9], Forwarded [5] [9]])"
    using step_intercept [OF duo_replayed, of "[Forwarded [5] [9]]"] by (simp add: duo_event_def)
  ultimately obtain i j where r:
    "(swap_step duo_env)\<^sup>*\<^sup>* (duo_state, []) (duo_after, [Forwarded [5] i, Forwarded [5] j])"
    by (meson converse_rtranclp_into_rtranclp r_into_rtranclp)
  then show ?thesis
    using swap_forwarded_once [of duo_env duo_state duo_after "[]" "[5]" i "[]" j "[]"] by auto
qed

text \<open>C35. When the taker gives bitcoin, what the payment takes out in assets is not looked at: a payment
  that is forwarded is forwarded as well with any asset amount asked of the next hop.\<close>

theorem from_btc_outbound_rgb_unchecked:
  assumes "htlc_intercepted e c ev st = Some (acts, st')"
    and "ForwardIntercepted iid scid node amt rgb \<in> set acts"
    and "map_of (ss_taker st) (ie_payment_hash ev) = Some sd" "si_from_asset (sd_swap_info sd) = None"
  shows "\<exists>acts2. htlc_intercepted e c (ev\<lparr>ie_expected_outbound_rgb_payment := rgb2\<rparr>) st = Some (acts2, st')
    \<and> ForwardIntercepted iid scid node amt rgb2 \<in> set acts2"
proof -
  let ?ev = "ev\<lparr>ie_expected_outbound_rgb_payment := rgb2\<rparr>"
  from htlc_intercepted_split [OF assms(1)] assms(2,3) obtain inb outb st1 where a: "admitted c ev inb outb sd"
    and f: "ForwardIntercepted iid scid node amt rgb = forward_of ev outb"
    and u: "update_taker_swap_pending_intercept e (ic_updated_at c) (ie_payment_hash ev) (ie_intercept_id ev) st = Some st1"
    and r: "if ic_forward_ok c then st' = st1
        else update_taker_swap_status e (ic_failed_at c) (ie_payment_hash ev) Failed st1 = Some st'"
    by (auto split: if_splits)
  have "admitted c ?ev inb outb sd"
    using a assms(4) by (simp add: admitted_def in_channel_def out_channel_def swap_matches_def is_from_btc_def)
  from htlc_admitted [OF _ this, of st e] assms(3) u r f show ?thesis
    by (auto simp: forward_of_def)
qed

theorem from_btc_outbound_rgb_unchecked_witness:
  "\<exists>acts st'. htlc_intercepted duo_env duo_ctx
       (duo_event\<lparr>ie_expected_outbound_rgb_payment := Some (False, 1000000)\<rparr>) duo_state = Some (acts, st')
     \<and> ForwardIntercepted [9] 102 [12] 4000 (Some (False, 1000000)) \<in> set acts"
  using from_btc_outbound_rgb_unchecked [OF duo_intercepted, of "[9]" 102 "[12]" 4000 None
      "create_from_swap_info 1 duo_offer" "Some (False, 1000000)"]
  by (auto simp: duo_state_def duo_event_def duo_offer_def create_from_swap_info_def)

text \<open>The offer a maker prints is the offer it stored, and a taker that parses it gets that offer
  and its payment hash, unless a quantity or the expiry is zero, which the maker takes and every
  parser refuses.\<close>

theorem maker_offer_parses:
  assumes "maker_init e cc chans now now2 (Some (h, secret)) r st = Some (Inr ((ph, sec, s), st'))"
    and "lawful_codec cc" "length h = 32"
  shows "\<exists>sd. map_of (ss_maker st') h = Some sd \<and> sd_status sd = Waiting
    \<and> swapstring_from_str cc s =
        (if mr_qty_from r = 0 \<or> mr_qty_to r = 0 \<or> unat now + unat (mr_timeout_sec r) = 0
         then Inl ''qty_from, qty_to and expiry should be positive'' else Inr (sd_swap_info sd, h))"
proof -
  from maker_init_Inr [OF assms(1)] obtain info where i: "\<not> same_asset info" "s = swapstring_fmt cc info h"
    "map_of (ss_maker st') h = Some (create_from_swap_info now2 info)"
    "si_qty_from info = mr_qty_from r" "si_qty_to info = mr_qty_to r"
    "unat (si_expiry info) = unat now + unat (mr_timeout_sec r)" by blast
  have "si_expiry info = 0 \<longleftrightarrow> unat now + unat (mr_timeout_sec r) = 0"
    using i(6) unat_eq_0 [of "si_expiry info"] by simp
  with swapstring_parse [OF assms(2,3) i(1)] i show ?thesis
    by (intro exI [of _ "create_from_swap_info now2 info"]) (simp add: create_from_swap_info_def)
qed

definition duo_request :: maker_init_request where
  "duo_request = \<lparr>mr_qty_from = 0, mr_qty_to = 7, mr_from_asset = None, mr_to_asset = Some ''rgbA'',
     mr_timeout_sec = 60\<rparr>"

theorem maker_offer_parses_witness:
  "\<exists>ph sec s st'. maker_init duo_env duo_codec [Some (True, 9)] 100 100 (Some (replicate 32 1, [2])) duo_request duo_state
       = Some (Inr ((ph, sec, s), st'))
     \<and> swapstring_from_str duo_codec s = Inl ''qty_from, qty_to and expiry should be positive''"
proof -
  have "\<exists>x. maker_init duo_env duo_codec [Some (True, 9)] 100 100 (Some (replicate 32 1, [2])) duo_request duo_state
      = Some (Inr x)"
    by (simp add: maker_init_def duo_request_def parse_asset_option_def duo_codec_def checked_add_def Let_def
        get_max_local_rgb_amount_def add_maker_swap_def save_maker_swaps_def duo_env_def)
  then obtain ph sec s st' where m: "maker_init duo_env duo_codec [Some (True, 9)] 100 100
      (Some (replicate 32 1, [2])) duo_request duo_state = Some (Inr ((ph, sec, s), st'))" by auto
  with maker_offer_parses [OF m duo_lawful] show ?thesis by (auto simp: duo_request_def)
qed

text \<open>C21. Authorizations stay within the liquidity. When the authorizer grants a payment, the new entry is
  a waiting one-to-one swap for the asking peer only, of linked assets, ending within a day; and the
  sum of all amounts then reserved in that asset, the new one included, is at most the largest local
  balance of a channel.\<close>

theorem authorization_within_liquidity:
  assumes "authorize_swap c sender p st = Some (Inr (), st')"
  shows "\<exists>h asset linked sd. validate_and_parse_payment_hash (ap_payment_hash p) = Inr h
    \<and> map_of (ss_taker st) h = None \<and> map_of (ss_taker st') h = Some sd
    \<and> check_link c p asset linked = Inr ()
    \<and> sd_status sd = Waiting \<and> sd_authorized_peer sd = Some sender
    \<and> si_from_asset (sd_swap_info sd) = Some asset \<and> si_to_asset (sd_swap_info sd) = Some linked
    \<and> si_qty_from (sd_swap_info sd) = ap_amount p \<and> si_qty_to (sd_swap_info sd) = ap_amount p
    \<and> unat (si_expiry (sd_swap_info sd)) \<le> unat (lx_authorization_time c) + 24 * 60 * 60
    \<and> unat (reserved_outbound_rgb_amount (ss_taker st') asset (lx_authorization_time c))
        = unat (reserved_outbound_rgb_amount (ss_taker st) asset (lx_authorization_time c)) + unat (ap_amount p)
    \<and> reserved_outbound_rgb_amount (ss_taker st') asset (lx_authorization_time c)
        \<le> get_max_local_rgb_amount asset (lx_rgb_channels c)"
  using assms
proof (cases rule: authorize_Inr)
  case (1 h asset linked info swap)
  let ?t = "lx_authorization_time c" and ?max = "get_max_local_rgb_amount asset (lx_rgb_channels c)"
  let ?old = "reserved_outbound_rgb_amount (ss_taker st) asset ?t"
  have swap: "sd_swap_info swap = info" "sd_status swap = Waiting" "sd_authorized_peer swap = Some sender"
    by (simp_all add: 1(8) create_from_swap_info_def)
  have res: "reserves asset ?t swap"
    using swap saturating_add_ge by (simp add: reserves_def 1(7))
  have sum: "unat ?old + unat (ap_amount p) \<le> unat ?max" if "ap_amount p \<noteq> 0"
    using 1(6) that unat_eq_0 [of "ap_amount p"] by (simp add: word_le_nat_alt unat_saturating_sub)
  have pos: "ap_amount p \<noteq> 0"
    using assms 1(1,3,4) by (auto simp: authorize_swap_def)
  have new: "reserved_outbound_rgb_amount (ss_taker st') asset ?t = saturating_add ?old (ap_amount p)"
    using reserved_append [OF 1(2) res] swap by (simp add: 1(7,9))
  have "unat (saturating_add ?old (ap_amount p)) = unat ?old + unat (ap_amount p)"
    using sum [OF pos] unat_less_exp [of ?max] by (simp add: unat_saturating_add)
  moreover have "unat (si_expiry info) \<le> unat ?t + 24 * 60 * 60"
  proof -
    have "min (ap_expiry_sec p) ASSET_LINK_SWAP_AUTHORIZATION_MAX_EXPIRY_SECS \<le> 86400"
      by (simp add: ASSET_LINK_SWAP_AUTHORIZATION_MAX_EXPIRY_SECS_def)
    then show ?thesis by (simp add: 1(7) unat_saturating_add word_le_nat_alt)
  qed
  ultimately show ?thesis
    using 1(1-6,9) swap new sum [OF pos]
    by (intro exI [of _ h] exI [of _ asset] exI [of _ linked] exI [of _ swap])
      (simp add: 1(7) update_conv' word_le_nat_alt)
qed

definition duo_link :: "(bool, unit) link_ctx" where
  "duo_link = \<lparr>lx_codec = \<lparr>rc_from_str = (\<lambda>s. None), rc_error = (\<lambda>v. Inl []), rc_to_string = (\<lambda>v. [])\<rparr>,
     lx_allows_peer = (\<lambda>p. True), lx_params = (\<lambda>v. None), lx_authorizer = True, lx_alive = True,
     lx_env = duo_env, lx_contracts = duo_codec,
     lx_metadata = (\<lambda>c. Some (if c then \<lparr>am_is_ifa = True, am_linked_to = Some ''rgbB'', am_linked_from = None\<rparr>
       else \<lparr>am_is_ifa = True, am_linked_to = None, am_linked_from = Some ''rgbA''\<rparr>)),
     lx_link_transfer = (\<lambda>c. Some (Some True)), lx_rgb_channels = [Some (True, 40), None],
     lx_authorization_time = 10, lx_requested_at = 10, lx_io_text = (\<lambda>k. [])\<rparr>"

definition duo_params :: authorize_params where
  "duo_params = \<lparr>ap_protocol_version = 1, ap_payment_hash = hex_str (replicate 32 6), ap_asset_id = ''rgbA'',
     ap_linked_asset_id = ''rgbB'', ap_amount = 30, ap_expiry_sec = 100\<rparr>"

theorem authorization_within_liquidity_witness:
  "\<exists>st'. authorize_swap duo_link [3] duo_params duo_state = Some (Inr (), st')
     \<and> (\<exists>asset. reserved_outbound_rgb_amount (ss_taker st') asset 10 \<le> get_max_local_rgb_amount asset [Some (True, 40), None])"
proof -
  have "validate_and_parse_payment_hash (ap_payment_hash duo_params) = Inr (replicate 32 6)"
    by (simp add: duo_params_def validate_hash_hex_str)
  moreover have "replicate 32 6 \<noteq> [5 :: byte]"
    using length_replicate [of 32 "6 :: byte"] by (auto dest: arg_cong [where f = length])
  ultimately have "\<exists>st'. authorize_swap duo_link [3] duo_params duo_state = Some (Inr (), st')"
    by (simp add: authorize_swap_def) (simp add: duo_link_def duo_params_def duo_codec_def duo_env_def
        check_link_def link_parent_def get_max_local_rgb_amount_def reserved_outbound_rgb_amount_def duo_state_def
        reserves_def create_from_swap_info_def duo_offer_def saturating_sub_def Let_def)
  then obtain st' where st': "authorize_swap duo_link [3] duo_params duo_state = Some (Inr (), st')" by blast
  from authorization_within_liquidity [OF this] st' show ?thesis
    by (auto simp: duo_link_def)
qed

end
