(* ===== verification/Payments.thy ===== *)
theory Payments
  imports Swap_Core "HOL-Library.List_Lexorder" "HOL-Library.Product_Lexorder"
begin

text \<open>
  The two books of payments of a node (\<open>src/ldk.rs\<close>): records, the shared index counter, every
  operation on the books, their reading and numbering at start-up; and the routes over them
  (\<open>src/routes.rs\<close>): paged listing, claiming and cancelling of held invoices. The channel manager is
  the log of what it is asked to do; key-value store and encoders are parameters; a panic is
  \<^const>\<open>None\<close>.
\<close>

section \<open>Data\<close>

datatype htlc_status = Pending | Succeeded | Failed | Claimable | Claiming | Cancelled

fun htlc_status_fmt :: "htlc_status \<Rightarrow> string" where
  "htlc_status_fmt Pending = ''Pending''"
| "htlc_status_fmt Succeeded = ''Succeeded''"
| "htlc_status_fmt Failed = ''Failed''"
| "htlc_status_fmt Claimable = ''Claimable''"
| "htlc_status_fmt Claiming = ''Claiming''"
| "htlc_status_fmt Cancelled = ''Cancelled''"

datatype invoice_type = AutoClaim | Hodl bool

record payment_info =
  pi_preimage :: "bytes option"
  pi_secret :: "bytes option"
  pi_status :: htlc_status
  pi_amt_msat :: "u64 option"
  pi_created_at :: u64
  pi_updated_at :: u64
  pi_payee_pubkey :: node_id
  pi_expires_at :: "u64 option"
  pi_claim_deadline_height :: "u32 option"
  pi_invoice_type :: "invoice_type option"
  pi_description :: "string option"
  pi_description_hash :: "bytes option"
  pi_payment_idx :: "u64 option"
  pi_async_hash_index :: "u64 option"
  pi_async_host_node_id :: "node_id option"

type_synonym payment_book = "(bytes \<times> payment_info) list"

datatype ldk_call = ClaimFunds bytes | FailHtlcBackwards bytes

record 'st pay_state =
  pb_inbound :: payment_book
  pb_outbound :: payment_book
  pb_next_idx :: u64
  pb_kv :: 'st
  pb_calls :: "ldk_call list"

text \<open>The store's operations with the encoders of the two books, the names that the lightning
  library gives its asset records, and the node's own id.\<close>

record 'st pay_env =
  pe_read :: "'st \<Rightarrow> kv_key \<Rightarrow> (failure + bytes) \<times> 'st"
  pe_write :: "'st \<Rightarrow> kv_key \<Rightarrow> bytes \<Rightarrow> (failure + unit) \<times> 'st"
  pe_remove :: "'st \<Rightarrow> kv_key \<Rightarrow> (failure + unit) \<times> 'st"
  pe_list :: "'st \<Rightarrow> string \<Rightarrow> string \<Rightarrow> (failure + string list) \<times> 'st"
  pe_encode :: "payment_book \<Rightarrow> bytes"
  pe_decode :: "bytes \<Rightarrow> payment_book option"
  pe_rgb_ns :: string
  pe_rgb_inbound_ns :: string
  pe_rgb_outbound_ns :: string
  pe_our_node_id :: node_id

definition INBOUND_PAYMENTS_KEY :: string where
  "INBOUND_PAYMENTS_KEY = ''inbound_payments''"

definition OUTBOUND_PAYMENTS_KEY :: string where
  "OUTBOUND_PAYMENTS_KEY = ''outbound_payments''"


section \<open>Operations on the books\<close>

definition save_inbound_payments :: "'st pay_env \<Rightarrow> 'st pay_state \<Rightarrow> 'st pay_state option" where
  "save_inbound_payments e st =
     (case pe_write e (pb_kv st) ([], [], INBOUND_PAYMENTS_KEY) (pe_encode e (pb_inbound st)) of
        (Inr _, kv) \<Rightarrow> Some (st\<lparr>pb_kv := kv\<rparr>)
      | (Inl _, kv) \<Rightarrow> None)"

definition save_outbound_payments :: "'st pay_env \<Rightarrow> 'st pay_state \<Rightarrow> 'st pay_state option" where
  "save_outbound_payments e st =
     (case pe_write e (pb_kv st) ([], [], OUTBOUND_PAYMENTS_KEY) (pe_encode e (pb_outbound st)) of
        (Inr _, kv) \<Rightarrow> Some (st\<lparr>pb_kv := kv\<rparr>)
      | (Inl _, kv) \<Rightarrow> None)"

text \<open>\<open>fetch_add\<close> wraps around.\<close>

definition stamp_payment_idx :: "payment_info \<Rightarrow> u64 \<Rightarrow> payment_info \<times> u64" where
  "stamp_payment_idx p n =
     (case pi_payment_idx p of
        None \<Rightarrow> (p\<lparr>pi_payment_idx := Some n\<rparr>, n + 1)
      | Some _ \<Rightarrow> (p, n))"

definition add_inbound_payment ::
  "'st pay_env \<Rightarrow> bytes \<Rightarrow> payment_info \<Rightarrow> 'st pay_state \<Rightarrow> 'st pay_state option" where
  "add_inbound_payment e payment_hash p st =
     (case stamp_payment_idx p (pb_next_idx st) of
        (p, n) \<Rightarrow>
          save_inbound_payments e
            (st\<lparr>pb_next_idx := n, pb_inbound := AList.update payment_hash p (pb_inbound st)\<rparr>))"

definition add_outbound_payment ::
  "'st pay_env \<Rightarrow> bytes \<Rightarrow> payment_info \<Rightarrow> 'st pay_state \<Rightarrow> (api_error + 'st pay_state) option" where
  "add_outbound_payment e payment_id p st =
     (let insert = (case stamp_payment_idx p (pb_next_idx st) of
        (p, n) \<Rightarrow>
          map_option Inr (save_outbound_payments e
            (st\<lparr>pb_next_idx := n, pb_outbound := AList.update payment_id p (pb_outbound st)\<rparr>)))
      in case map_of (pb_outbound st) payment_id of
           Some existing \<Rightarrow>
             if pi_status existing \<noteq> Failed
               then Some (Inl (DuplicatePayment (htlc_status_fmt (pi_status existing))))
             else insert
         | None \<Rightarrow> insert)"

definition upsert_inbound_payment ::
  "'st pay_env \<Rightarrow> u64 \<Rightarrow> bytes \<Rightarrow> htlc_status \<Rightarrow> bytes option \<Rightarrow> bytes option \<Rightarrow> u64 option \<Rightarrow> node_id
     \<Rightarrow> u32 option \<Rightarrow> invoice_type option \<Rightarrow> 'st pay_state \<Rightarrow> 'st pay_state option" where
  "upsert_inbound_payment e now payment_hash status preimage secret amt_msat payee claim_deadline_height
       invoice_type st =
     (case map_of (pb_inbound st) payment_hash of
        Some p \<Rightarrow>
          (let p = p\<lparr>pi_status := status, pi_preimage := preimage, pi_secret := secret,
                   pi_amt_msat := (if amt_msat \<noteq> None then amt_msat else pi_amt_msat p),
                   pi_updated_at := now,
                   pi_claim_deadline_height :=
                     (if claim_deadline_height \<noteq> None then claim_deadline_height
                      else pi_claim_deadline_height p)\<rparr>
           in save_inbound_payments e (st\<lparr>pb_inbound := AList.update payment_hash p (pb_inbound st)\<rparr>))
      | None \<Rightarrow>
          (case stamp_payment_idx
                  \<lparr>pi_preimage = preimage, pi_secret = secret, pi_status = status, pi_amt_msat = amt_msat,
                   pi_created_at = now, pi_updated_at = now, pi_payee_pubkey = payee, pi_expires_at = None,
                   pi_claim_deadline_height = claim_deadline_height, pi_invoice_type = invoice_type,
                   pi_description = None, pi_description_hash = None, pi_payment_idx = None,
                   pi_async_hash_index = None, pi_async_host_node_id = None\<rparr> (pb_next_idx st) of
             (p, n) \<Rightarrow>
               save_inbound_payments e
                 (st\<lparr>pb_next_idx := n, pb_inbound := AList.update payment_hash p (pb_inbound st)\<rparr>)))"

text \<open>A result that the code drops; unwinding is not dropped.\<close>

definition drop_result :: "(failure + 'a) \<times> 'st \<Rightarrow> 'st option" where
  "drop_result r = (case r of (Inl Panic, kv) \<Rightarrow> None | (_, kv) \<Rightarrow> Some kv)"

fun remove_all :: "'st pay_env \<Rightarrow> string \<Rightarrow> string list \<Rightarrow> 'st \<Rightarrow> 'st option" where
  "remove_all e ns [] kv = Some kv"
| "remove_all e ns (key # keys) kv =
     (case drop_result (pe_remove e kv (pe_rgb_ns e, ns, key)) of
        None \<Rightarrow> None
      | Some kv \<Rightarrow> remove_all e ns keys kv)"

definition ends_with :: "string \<Rightarrow> string \<Rightarrow> bool" where
  "ends_with s suffix \<longleftrightarrow> length suffix \<le> length s \<and> drop (length s - length suffix) s = suffix"

definition pending_key :: "bytes \<Rightarrow> string" where
  "pending_key payment_hash = hex_str payment_hash @ ''_pending''"

definition rgb_payment_ns :: "'st pay_env \<Rightarrow> bool \<Rightarrow> string" where
  "rgb_payment_ns e inbound = (if inbound then pe_rgb_inbound_ns e else pe_rgb_outbound_ns e)"

definition clear_rgb_payment_pending :: "'st pay_env \<Rightarrow> bytes \<Rightarrow> bool \<Rightarrow> 'st \<Rightarrow> 'st option" where
  "clear_rgb_payment_pending e payment_hash inbound kv =
     (let pk = pending_key payment_hash; ns = rgb_payment_ns e inbound
      in case drop_result (pe_remove e kv (pe_rgb_ns e, ns, pk)) of
           None \<Rightarrow> None
         | Some kv \<Rightarrow>
             (case pe_list e kv (pe_rgb_ns e) ns of
                (Inr keys, kv) \<Rightarrow>
                  remove_all e ns (filter (\<lambda>k. ends_with k pk \<and> length k > length pk) keys) kv
              | (Inl Panic, kv) \<Rightarrow> None
              | (Inl _, kv) \<Rightarrow> Some kv))"

definition fail_htlc_backwards_and_update_inbound_payment ::
  "'st pay_env \<Rightarrow> u64 \<Rightarrow> bytes \<Rightarrow> htlc_status \<Rightarrow> 'st pay_state \<Rightarrow> 'st pay_state option" where
  "fail_htlc_backwards_and_update_inbound_payment e now payment_hash status st =
     (case upsert_inbound_payment e now payment_hash status None None None (pe_our_node_id e) None None
             (st\<lparr>pb_calls := pb_calls st @ [FailHtlcBackwards payment_hash]\<rparr>) of
        None \<Rightarrow> None
      | Some st \<Rightarrow>
          map_option (\<lambda>kv. st\<lparr>pb_kv := kv\<rparr>) (clear_rgb_payment_pending e payment_hash True (pb_kv st)))"

definition fail_if_unknown :: "bytes list \<Rightarrow> (bytes \<Rightarrow> u64) \<Rightarrow> bytes \<times> payment_info \<Rightarrow> bytes \<times> payment_info" where
  "fail_if_unknown recent now x =
     (case x of (i, p) \<Rightarrow>
        if pi_status p = Pending \<and> i \<notin> set recent
          then (i, p\<lparr>pi_status := Failed, pi_updated_at := now i\<rparr>) else (i, p))"

definition fail_outbound_pending_payments ::
  "'st pay_env \<Rightarrow> (bytes \<Rightarrow> u64) \<Rightarrow> bytes list \<Rightarrow> 'st pay_state \<Rightarrow> 'st pay_state option" where
  "fail_outbound_pending_payments e now recent st =
     (if list_ex (\<lambda>(i, p). pi_status p = Pending \<and> i \<notin> set recent) (pb_outbound st)
      then save_outbound_payments e (st\<lparr>pb_outbound := map (fail_if_unknown recent now) (pb_outbound st)\<rparr>)
      else Some st)"

definition update_outbound_payment ::
  "'st pay_env \<Rightarrow> u64 \<Rightarrow> bytes \<Rightarrow> htlc_status \<Rightarrow> bytes option \<Rightarrow> 'st pay_state
     \<Rightarrow> (payment_info \<times> 'st pay_state) option" where
  "update_outbound_payment e now payment_id status preimage st =
     (case map_of (pb_outbound st) payment_id of
        None \<Rightarrow> None
      | Some p \<Rightarrow>
          (let p = p\<lparr>pi_status := status, pi_preimage := preimage, pi_updated_at := now\<rparr>
           in map_option (Pair p)
                (save_outbound_payments e (st\<lparr>pb_outbound := AList.update payment_id p (pb_outbound st)\<rparr>))))"

definition update_outbound_payment_status ::
  "'st pay_env \<Rightarrow> u64 \<Rightarrow> bytes \<Rightarrow> htlc_status \<Rightarrow> 'st pay_state \<Rightarrow> 'st pay_state option" where
  "update_outbound_payment_status e now payment_id status st =
     (case map_of (pb_outbound st) payment_id of
        None \<Rightarrow> None
      | Some p \<Rightarrow>
          save_outbound_payments e
            (st\<lparr>pb_outbound := AList.update payment_id (p\<lparr>pi_status := status, pi_updated_at := now\<rparr>) (pb_outbound st)\<rparr>))"

text \<open>The staged write of the asynchronous invoice provider: the book in memory changes only after the
  write.\<close>

definition persist_staged_inbound_payment ::
  "'st pay_env \<Rightarrow> (io_kind \<Rightarrow> string) \<Rightarrow> bytes \<Rightarrow> payment_info \<Rightarrow> 'st pay_state
     \<Rightarrow> ((rpc_error + unit) \<times> 'st pay_state) option" where
  "persist_staged_inbound_payment e io_text payment_hash p st =
     (case stamp_payment_idx p (pb_next_idx st) of
        (p, n) \<Rightarrow>
          (let staged = AList.update payment_hash p (pb_inbound st); st = st\<lparr>pb_next_idx := n\<rparr>
           in case pe_write e (pb_kv st) ([], [], INBOUND_PAYMENTS_KEY) (pe_encode e staged) of
                (Inr _, kv) \<Rightarrow> Some (Inr (), st\<lparr>pb_inbound := staged, pb_kv := kv\<rparr>)
              | (Inl (Io k), kv) \<Rightarrow>
                  Some (Inl (internal_error
                    (''async_order_request_outbound_invoice_persist_failed: '' @ io_text k)), st\<lparr>pb_kv := kv\<rparr>)
              | (Inl Panic, kv) \<Rightarrow> None))"


section \<open>Expiry\<close>

definition expire_pending :: "u64 \<Rightarrow> payment_info \<Rightarrow> bool" where
  "expire_pending now p \<longleftrightarrow>
     pi_status p = Pending \<and> (case pi_expires_at p of None \<Rightarrow> False | Some t \<Rightarrow> now > t)"

definition claimable_over :: "u64 \<Rightarrow> u32 \<Rightarrow> payment_info \<Rightarrow> bool" where
  "claimable_over now height p \<longleftrightarrow>
     pi_status p = Claimable
     \<and> ((case pi_claim_deadline_height p of None \<Rightarrow> False | Some h \<Rightarrow> height \<ge> h)
        \<or> (case pi_expires_at p of None \<Rightarrow> False | Some t \<Rightarrow> now \<ge> t))"

fun fail_claimables ::
  "'st pay_env \<Rightarrow> (bytes \<Rightarrow> u64) \<Rightarrow> bytes list \<Rightarrow> 'st pay_state \<Rightarrow> 'st pay_state option" where
  "fail_claimables e nows [] st = Some st"
| "fail_claimables e nows (h # hs) st =
     (case fail_htlc_backwards_and_update_inbound_payment e (nows h) h Failed st of
        None \<Rightarrow> None
      | Some st \<Rightarrow> fail_claimables e nows hs st)"

definition list_updated_inbound_payments ::
  "'st pay_env \<Rightarrow> u64 \<Rightarrow> u32 \<Rightarrow> (bytes \<Rightarrow> u64) \<Rightarrow> 'st pay_state \<Rightarrow> (payment_book \<times> 'st pay_state) option" where
  "list_updated_inbound_payments e now height nows st =
     (let failed = list_ex (\<lambda>(h, p). expire_pending now p) (pb_inbound st);
          inbound = map (\<lambda>(h, p). (h, if expire_pending now p
             then p\<lparr>pi_status := Failed, pi_updated_at := now\<rparr> else p)) (pb_inbound st);
          over = map fst (filter (\<lambda>(h, p). claimable_over now height p) (pb_inbound st));
          st1 = st\<lparr>pb_inbound := inbound\<rparr>
      in case (if failed then save_inbound_payments e st1 else Some st1) of
           None \<Rightarrow> None
         | Some st2 \<Rightarrow> map_option (\<lambda>st. (pb_inbound st, st)) (fail_claimables e nows over st2))"


section \<open>Start-up\<close>

definition read_payments ::
  "'st pay_env \<Rightarrow> 'st \<Rightarrow> string \<Rightarrow> payment_book option \<times> 'st" where
  "read_payments e kv key =
     (case pe_read e kv ([], [], key) of
        (Inr bs, kv) \<Rightarrow> (Some (case pe_decode e bs of Some m \<Rightarrow> m | None \<Rightarrow> []), kv)
      | (Inl err, kv) \<Rightarrow> (if err = Io NotFound then Some [] else None, kv))"

definition max_payment_idx :: "payment_book \<Rightarrow> u64" where
  "max_payment_idx book =
     fold (\<lambda>(k, p) m. case pi_payment_idx p of Some i \<Rightarrow> max m i | None \<Rightarrow> m) book 0"

definition missing_idx :: "payment_book \<Rightarrow> bool \<Rightarrow> (u64 \<times> bytes \<times> bool) list" where
  "missing_idx book inbound =
     map (\<lambda>(k, p). (pi_created_at p, k, inbound)) (filter (\<lambda>(k, p). pi_payment_idx p = None) book)"

definition set_idx :: "bytes \<Rightarrow> u64 \<Rightarrow> payment_book \<Rightarrow> payment_book option" where
  "set_idx key i book =
     map_option (\<lambda>p. AList.update key (p\<lparr>pi_payment_idx := Some i\<rparr>) book) (map_of book key)"

text \<open>The backfill; an entry that is not in its book would be a panic. The counter is a plain sum of
  a release build, which wraps.\<close>

fun backfill ::
  "(u64 \<times> bytes \<times> bool) list \<Rightarrow> u64 \<Rightarrow> payment_book \<Rightarrow> payment_book \<Rightarrow> (u64 \<times> payment_book \<times> payment_book) option" where
  "backfill [] m inb outb = Some (m, inb, outb)"
| "backfill ((t, key, is_inbound) # missing) m inb outb =
     (if is_inbound
      then (case set_idx key (m + 1) inb of None \<Rightarrow> None | Some inb \<Rightarrow> backfill missing (m + 1) inb outb)
      else (case set_idx key (m + 1) outb of None \<Rightarrow> None | Some outb \<Rightarrow> backfill missing (m + 1) inb outb))"

definition seed_payment_idx ::
  "'st pay_env \<Rightarrow> payment_book \<Rightarrow> payment_book \<Rightarrow> 'st \<Rightarrow> 'st pay_state option" where
  "seed_payment_idx e inb outb kv =
     (let missing = sort_key (\<lambda>(t, k, b). (t, k)) (missing_idx inb True @ missing_idx outb False)
      in case backfill missing (max_payment_idx (inb @ outb)) inb outb of
           None \<Rightarrow> None
         | Some (m, inb, outb) \<Rightarrow>
             (let st = \<lparr>pb_inbound = inb, pb_outbound = outb, pb_next_idx = m + 1, pb_kv = kv, pb_calls = []\<rparr>
              in if missing \<noteq> [] then
                   (case save_inbound_payments e st of None \<Rightarrow> None | Some st \<Rightarrow> save_outbound_payments e st)
                 else Some st))"

definition load_payments :: "'st pay_env \<Rightarrow> 'st \<Rightarrow> 'st pay_state option" where
  "load_payments e kv =
     (case read_payments e kv INBOUND_PAYMENTS_KEY of
        (None, kv) \<Rightarrow> None
      | (Some inb, kv) \<Rightarrow>
          (case read_payments e kv OUTBOUND_PAYMENTS_KEY of
             (None, kv) \<Rightarrow> None
           | (Some outb, kv) \<Rightarrow> seed_payment_idx e inb outb kv))"


section \<open>Paged listing\<close>

definition resolve_page_size :: "u64 option \<Rightarrow> u64 \<Rightarrow> u64" where
  "resolve_page_size m dflt = (case m of None \<Rightarrow> dflt | Some m \<Rightarrow> if m = 0 then dflt else m)"

definition in_time_range :: "u64 \<Rightarrow> u64 option \<Rightarrow> u64 option \<Rightarrow> bool" where
  "in_time_range ts after before \<longleftrightarrow>
     (case after of None \<Rightarrow> True | Some a \<Rightarrow> ts \<ge> a) \<and> (case before of None \<Rightarrow> True | Some b \<Rightarrow> ts \<le> b)"

text \<open>\<open>sort_by_key\<close> with \<open>Reverse\<close> is a stable sort by the descending key.\<close>

definition page_of :: "(u64 \<times> 'a) list \<Rightarrow> u64 \<Rightarrow> u64 \<Rightarrow> (u64 \<times> 'a) list" where
  "page_of items index_offset m =
     take (unat m) (filter (\<lambda>(i, _). index_offset = 0 \<or> i < index_offset)
       (sort_key (\<lambda>(i, _). - 1 - i) items))"

definition paginate_newest_first :: "(u64 \<times> 'a) list \<Rightarrow> u64 \<Rightarrow> u64 \<Rightarrow> 'a list \<times> u64 \<times> u64" where
  "paginate_newest_first items index_offset m =
     (let page = page_of items index_offset m
      in (map snd page, if page = [] then 0 else fst (hd page), if page = [] then 0 else fst (last page)))"

datatype payment_type = Outbound | InboundAutoClaim | InboundHodl
datatype payment_direction = InboundPayment | OutboundPayment

definition payment_direction_of :: "payment_type \<Rightarrow> payment_direction" where
  "payment_direction_of t = (case t of Outbound \<Rightarrow> OutboundPayment | _ \<Rightarrow> InboundPayment)"

definition payment_type_from_invoice :: "invoice_type option \<Rightarrow> payment_type" where
  "payment_type_from_invoice t =
     (case t of Some (Hodl _) \<Rightarrow> InboundHodl | _ \<Rightarrow> InboundAutoClaim)"

record payment_view =
  pv_amt_msat :: "u64 option"
  pv_asset_amount :: "u64 option"
  pv_asset_id :: "string option"
  pv_payment_hash :: string
  pv_payment_type :: payment_type
  pv_status :: htlc_status
  pv_created_at :: u64
  pv_updated_at :: u64
  pv_payee_pubkey :: string
  pv_preimage :: "string option"
  pv_description :: "string option"
  pv_description_hash :: "string option"

text \<open>\<open>rgb\<close> is the asset amount and id of a payment's record, \<open>None\<close> where it cannot be read. A
  public key prints as its hexadecimal digits.\<close>

definition payment_view_of ::
  "(bytes \<Rightarrow> (u64 \<times> string) option) \<Rightarrow> payment_type \<Rightarrow> bytes \<Rightarrow> payment_info \<Rightarrow> payment_view" where
  "payment_view_of rgb ptype payment_hash p =
     \<lparr>pv_amt_msat = pi_amt_msat p, pv_asset_amount = map_option fst (rgb payment_hash),
      pv_asset_id = map_option snd (rgb payment_hash), pv_payment_hash = hex_str payment_hash,
      pv_payment_type = ptype, pv_status = pi_status p, pv_created_at = pi_created_at p,
      pv_updated_at = pi_updated_at p, pv_payee_pubkey = hex_str (pi_payee_pubkey p),
      pv_preimage = map_option hex_str (pi_preimage p), pv_description = pi_description p,
      pv_description_hash = map_option hex_str (pi_description_hash p)\<rparr>"

record list_payments_request =
  lp_index_offset :: "u64 option"
  lp_max_payments :: "u64 option"
  lp_status :: "htlc_status option"
  lp_direction :: "payment_direction option"
  lp_created_after :: "u64 option"
  lp_created_before :: "u64 option"

definition all_payments ::
  "(bool \<Rightarrow> bytes \<Rightarrow> (u64 \<times> string) option) \<Rightarrow> payment_book \<Rightarrow> payment_book \<Rightarrow> (u64 \<times> payment_view) list" where
  "all_payments rgb inb outb =
     map (\<lambda>(h, p). (case pi_payment_idx p of Some i \<Rightarrow> i | None \<Rightarrow> 0,
        payment_view_of (rgb True) (payment_type_from_invoice (pi_invoice_type p)) h p)) inb
     @ map (\<lambda>(h, p). (case pi_payment_idx p of Some i \<Rightarrow> i | None \<Rightarrow> 0,
        payment_view_of (rgb False) Outbound h p)) outb"

definition wanted_payment :: "list_payments_request \<Rightarrow> payment_view \<Rightarrow> bool" where
  "wanted_payment r v \<longleftrightarrow>
     (case lp_status r of None \<Rightarrow> True | Some s \<Rightarrow> pv_status v = s)
     \<and> (case lp_direction r of None \<Rightarrow> True | Some d \<Rightarrow> payment_direction_of (pv_payment_type v) = d)
     \<and> in_time_range (pv_created_at v) (lp_created_after r) (lp_created_before r)"

definition list_payments ::
  "'st pay_env \<Rightarrow> u64 \<Rightarrow> u32 \<Rightarrow> (bytes \<Rightarrow> u64) \<Rightarrow> (bool \<Rightarrow> bytes \<Rightarrow> (u64 \<times> string) option) \<Rightarrow> u64
     \<Rightarrow> list_payments_request \<Rightarrow> 'st pay_state \<Rightarrow> ((payment_view list \<times> u64 \<times> u64) \<times> 'st pay_state) option" where
  "list_payments e now height nows rgb default_page_size r st =
     (case list_updated_inbound_payments e now height nows st of
        None \<Rightarrow> None
      | Some (inb, st) \<Rightarrow>
          Some (paginate_newest_first
            (filter (\<lambda>(i, v). wanted_payment r v) (all_payments rgb inb (pb_outbound st)))
            (case lp_index_offset r of None \<Rightarrow> 0 | Some i \<Rightarrow> i)
            (resolve_page_size (lp_max_payments r) default_page_size), st))"


section \<open>Held invoices\<close>

definition is_hodl :: "payment_info \<Rightarrow> bool" where
  "is_hodl p \<longleftrightarrow> (case pi_invoice_type p of Some (Hodl _) \<Rightarrow> True | _ \<Rightarrow> False)"

definition cancel_hodl_invoice ::
  "'st pay_env \<Rightarrow> u64 \<Rightarrow> string \<Rightarrow> 'st pay_state \<Rightarrow> (api_error + 'st pay_state) option" where
  "cancel_hodl_invoice e now payment_hash st =
     (case validate_and_parse_payment_hash payment_hash of
        Inl err \<Rightarrow> Some (Inl err)
      | Inr h \<Rightarrow>
          (case map_of (pb_inbound st) h of
             None \<Rightarrow> Some (Inl UnknownLNInvoice)
           | Some p \<Rightarrow>
               if \<not> is_hodl p then Some (Inl InvoiceNotHodl)
               else case pi_status p of
                 Succeeded \<Rightarrow> Some (Inl InvoiceAlreadyClaimed)
               | Claimable \<Rightarrow>
                   map_option Inr (fail_htlc_backwards_and_update_inbound_payment e now h Cancelled st)
               | Claiming \<Rightarrow> Some (Inl InvoiceSettlingInProgress)
               | _ \<Rightarrow> Some (Inl InvoiceNotClaimable)))"

text \<open>\<open>H\<close> is SHA-256. The answer tells whether something changed.\<close>

definition claim_hodl_invoice ::
  "(bytes \<Rightarrow> bytes) \<Rightarrow> 'st pay_env \<Rightarrow> u32 \<Rightarrow> u64 \<Rightarrow> u64 \<Rightarrow> string \<Rightarrow> string \<Rightarrow> 'st pay_state
     \<Rightarrow> ((api_error + bool) \<times> 'st pay_state) option" where
  "claim_hodl_invoice H e height now now2 payment_hash payment_preimage st =
     (case validate_and_parse_payment_hash payment_hash of
        Inl err \<Rightarrow> Some (Inl err, st)
      | Inr h \<Rightarrow>
     (case validate_and_parse_payment_preimage H payment_preimage h of
        Inl err \<Rightarrow> Some (Inl err, st)
      | Inr preimage \<Rightarrow>
     (case map_of (pb_inbound st) h of
        None \<Rightarrow> Some (Inl UnknownLNInvoice, st)
      | Some p \<Rightarrow>
      if \<not> is_hodl p then Some (Inl InvoiceNotHodl, st)
      else case pi_status p of
        Succeeded \<Rightarrow>
          if H preimage \<noteq> h then Some (Inl InvalidPaymentPreimage, st)
          else if pi_preimage p \<noteq> None \<and> pi_preimage p \<noteq> Some preimage
            then Some (Inl InvalidPaymentPreimage, st)
          else Some (Inr False, st)
      | Claiming \<Rightarrow> Some (Inl InvoiceSettlingInProgress, st)
      | Claimable \<Rightarrow>
          (let terminal_error =
             (if (case pi_claim_deadline_height p of None \<Rightarrow> False | Some d \<Rightarrow> height \<ge> d)
                then Some ClaimDeadlineExceeded
              else if (case pi_expires_at p of None \<Rightarrow> False | Some t \<Rightarrow> now \<ge> t)
                then Some InvoiceExpired
              else None)
           in case terminal_error of
                Some err \<Rightarrow>
                  map_option (Pair (Inl err))
                    (fail_htlc_backwards_and_update_inbound_payment e now2 h Failed st)
              | None \<Rightarrow>
                  map_option (\<lambda>st. (Inr True, st\<lparr>pb_calls := pb_calls st @ [ClaimFunds preimage]\<rparr>))
                    (save_inbound_payments e
                      (st\<lparr>pb_inbound := AList.update h (p\<lparr>pi_status := Claiming, pi_updated_at := now\<rparr>) (pb_inbound st)\<rparr>)))
      | _ \<Rightarrow> Some (Inl InvoiceNotClaimable, st))))"

datatype invoice_status = InvPending | InvClaimable | InvClaiming | InvSucceeded | InvCancelled | InvFailed | InvExpired

text \<open>\<open>parse\<close> is the invoice library: the payment hash of an invoice and whether it has expired, or
  the text of a parse error.\<close>

definition invoice_status_route ::
  "(string \<Rightarrow> string + (bytes \<times> bool)) \<Rightarrow> string \<Rightarrow> 'st pay_state \<Rightarrow> api_error + invoice_status" where
  "invoice_status_route parse invoice st =
     (case parse invoice of
        Inl err \<Rightarrow> Inl (InvalidInvoice err)
      | Inr (h, expired) \<Rightarrow>
          (case map_of (pb_inbound st) h of
             None \<Rightarrow> Inl UnknownLNInvoice
           | Some p \<Rightarrow> Inr (case pi_status p of
                 Pending \<Rightarrow> (if expired then InvExpired else InvPending)
               | Claimable \<Rightarrow> InvClaimable
               | Claiming \<Rightarrow> InvClaiming
               | Succeeded \<Rightarrow> InvSucceeded
               | Cancelled \<Rightarrow> InvCancelled
               | Failed \<Rightarrow> InvFailed)))"

end
