(* ===== verification/Payment_Events.thy ===== *)
theory Payment_Events
  imports Payments
begin

text \<open>
  What the node does on the payment events of the channel manager (\<open>handle_ldk_events\<close> of
  \<open>src/ldk.rs\<close>): claimable, claimed, sent, failed and forwarded payments, with the book-keeping of
  asset amounts on channels. The pending records of a payment are keys of the store; reading a
  channel's asset record, changing its amounts and decoding a payment record are the lightning
  library's, hence parameters. A panic is \<^const>\<open>None\<close>.
\<close>

section \<open>Asset amounts of channels\<close>

record rgb_payment_info =
  rp_amount :: u64
  rp_inbound :: bool
  rp_swap_payment :: bool

record 'st rgb_env =
  re_channel_info :: "'st \<Rightarrow> string \<Rightarrow> (failure + unit) \<times> 'st"
  re_update_amount :: "'st \<Rightarrow> string \<Rightarrow> u64 \<Rightarrow> u64 \<Rightarrow> 'st option"
  re_decode_info :: "bytes \<Rightarrow> rgb_payment_info option"

definition io_result :: "(failure + 'a) \<times> 'st \<Rightarrow> ((io_kind + 'a) \<times> 'st) option" where
  "io_result r =
     (case r of
        (Inl Panic, kv) \<Rightarrow> None
      | (Inl (Io k), kv) \<Rightarrow> Some (Inl k, kv)
      | (Inr a, kv) \<Rightarrow> Some (Inr a, kv))"

definition safe_update_rgb_channel_amount ::
  "'st rgb_env \<Rightarrow> string \<Rightarrow> u64 \<Rightarrow> u64 \<Rightarrow> 'st \<Rightarrow> ((io_kind + bool) \<times> 'st) option" where
  "safe_update_rgb_channel_amount r channel_id rgb_offered_htlc rgb_received_htlc kv =
     (case io_result (re_channel_info r kv channel_id) of
        None \<Rightarrow> None
      | Some (Inl k, kv) \<Rightarrow> Some (if k = NotFound then Inr False else Inl k, kv)
      | Some (Inr _, kv) \<Rightarrow>
          map_option (Pair (Inr True)) (re_update_amount r kv channel_id rgb_offered_htlc rgb_received_htlc))"

text \<open>The loop over the keys of one namespace; the result is the list of keys applied.\<close>

fun finalize_keys ::
  "'st pay_env \<Rightarrow> 'st rgb_env \<Rightarrow> string \<Rightarrow> bool \<Rightarrow> string \<Rightarrow> string list \<Rightarrow> string list \<Rightarrow> 'st
     \<Rightarrow> ((io_kind + string list) \<times> 'st) option" where
  "finalize_keys e r pending_suffix receiver ns [] applied_keys kv = Some (Inr applied_keys, kv)"
| "finalize_keys e r pending_suffix receiver ns (key # keys) applied_keys kv =
     (let channel_id_str = take (length key - length pending_suffix) key in
      if \<not> ends_with key pending_suffix \<or> length key \<le> length pending_suffix \<or> length channel_id_str \<noteq> 64
      then finalize_keys e r pending_suffix receiver ns keys applied_keys kv
      else case io_result (pe_read e kv (pe_rgb_ns e, ns, key)) of
        None \<Rightarrow> None
      | Some (Inl k, kv) \<Rightarrow>
          if k = NotFound then finalize_keys e r pending_suffix receiver ns keys applied_keys kv
          else Some (Inl k, kv)
      | Some (Inr data, kv) \<Rightarrow>
          (case re_decode_info r data of
             None \<Rightarrow> finalize_keys e r pending_suffix receiver ns keys applied_keys kv
           | Some info \<Rightarrow>
               if rp_swap_payment info \<and> receiver \<noteq> rp_inbound info
               then finalize_keys e r pending_suffix receiver ns keys applied_keys kv
               else case safe_update_rgb_channel_amount r channel_id_str
                           (if receiver then 0 else rp_amount info) (if receiver then rp_amount info else 0) kv of
                 None \<Rightarrow> None
               | Some (Inl k, kv) \<Rightarrow> Some (Inl k, kv)
               | Some (Inr applied, kv) \<Rightarrow>
                   finalize_keys e r pending_suffix receiver ns keys
                     (if applied then applied_keys @ [key] else applied_keys) kv))"

fun finalize_namespaces ::
  "'st pay_env \<Rightarrow> 'st rgb_env \<Rightarrow> string \<Rightarrow> bool \<Rightarrow> bool list \<Rightarrow> bool \<Rightarrow> 'st \<Rightarrow> ((io_kind + bool) \<times> 'st) option" where
  "finalize_namespaces e r pending_suffix receiver [] applied_any kv = Some (Inr applied_any, kv)"
| "finalize_namespaces e r pending_suffix receiver (inbound # rest) applied_any kv =
     (let ns = rgb_payment_ns e inbound in
      case io_result (pe_list e kv (pe_rgb_ns e) ns) of
        None \<Rightarrow> None
      | Some (Inl k, kv) \<Rightarrow> Some (Inl k, kv)
      | Some (Inr keys, kv) \<Rightarrow>
          (case finalize_keys e r pending_suffix receiver ns keys [] kv of
             None \<Rightarrow> None
           | Some (Inl k, kv) \<Rightarrow> Some (Inl k, kv)
           | Some (Inr applied_keys, kv) \<Rightarrow>
               (case remove_all e ns applied_keys kv of
                  None \<Rightarrow> None
                | Some kv \<Rightarrow>
                    finalize_namespaces e r pending_suffix receiver rest
                      (applied_any \<or> applied_keys \<noteq> []) kv)))"

fun drop_raw_pending :: "'st pay_env \<Rightarrow> string \<Rightarrow> string list \<Rightarrow> 'st \<Rightarrow> ((io_kind + unit) \<times> 'st) option" where
  "drop_raw_pending e pending_suffix [] kv = Some (Inr (), kv)"
| "drop_raw_pending e pending_suffix (ns # rest) kv =
     (case io_result (pe_list e kv (pe_rgb_ns e) ns) of
        None \<Rightarrow> None
      | Some (Inl k, kv) \<Rightarrow> Some (Inl k, kv)
      | Some (Inr keys, kv) \<Rightarrow>
          if list_ex (\<lambda>k. ends_with k pending_suffix \<and> length k > length pending_suffix) keys
          then drop_raw_pending e pending_suffix rest kv
          else case drop_result (pe_remove e kv (pe_rgb_ns e, ns, pending_suffix)) of
            None \<Rightarrow> None
          | Some kv \<Rightarrow> drop_raw_pending e pending_suffix rest kv)"

definition finalize_rgb_channel_payment ::
  "'st pay_env \<Rightarrow> 'st rgb_env \<Rightarrow> bytes \<Rightarrow> bool \<Rightarrow> 'st \<Rightarrow> ((io_kind + unit) \<times> 'st) option" where
  "finalize_rgb_channel_payment e r payment_hash receiver kv =
     (let pending_suffix = pending_key payment_hash in
      case finalize_namespaces e r pending_suffix receiver [True, False] False kv of
        None \<Rightarrow> None
      | Some (Inl k, kv) \<Rightarrow> Some (Inl k, kv)
      | Some (Inr applied_any, kv) \<Rightarrow>
          if applied_any
          then drop_raw_pending e pending_suffix [pe_rgb_inbound_ns e, pe_rgb_outbound_ns e] kv
          else Some (Inr (), kv))"


section \<open>Events\<close>

datatype payment_purpose =
    SpontaneousPayment bytes
  | Bolt11InvoicePayment "bytes option" bytes
  | Bolt12OfferPayment "bytes option" bytes
  | Bolt12RefundPayment "bytes option" bytes

datatype notice = ClaimableHodlInvoice bytes u64 "u32 option" | PaymentSentNotice bytes bytes

datatype event_outcome = Handled | ReplayEvent

record ('c, 'st) node_state =
  nd_pay :: "'st pay_state"
  nd_maker :: "(bytes \<times> 'c swap_data) list"
  nd_taker :: "(bytes \<times> 'c swap_data) list"
  nd_notices :: "notice list"

text \<open>The payments and the swaps share one store.\<close>

definition swaps_of :: "('c, 'st) node_state \<Rightarrow> ('c, 'st) swap_state" where
  "swaps_of nd = \<lparr>ss_maker = nd_maker nd, ss_taker = nd_taker nd, ss_kv = pb_kv (nd_pay nd)\<rparr>"

definition put_swaps :: "('c, 'st) node_state \<Rightarrow> ('c, 'st) swap_state \<Rightarrow> ('c, 'st) node_state" where
  "put_swaps nd s =
     nd\<lparr>nd_maker := ss_maker s, nd_taker := ss_taker s, nd_pay := (nd_pay nd)\<lparr>pb_kv := ss_kv s\<rparr>\<rparr>"

definition put_kv :: "('c, 'st) node_state \<Rightarrow> 'st \<Rightarrow> ('c, 'st) node_state" where
  "put_kv nd kv = nd\<lparr>nd_pay := (nd_pay nd)\<lparr>pb_kv := kv\<rparr>\<rparr>"

definition put_pay :: "('c, 'st) node_state \<Rightarrow> 'st pay_state \<Rightarrow> ('c, 'st) node_state" where
  "put_pay nd p = nd\<lparr>nd_pay := p\<rparr>"

definition claim_funds :: "bytes \<Rightarrow> ('c, 'st) node_state \<Rightarrow> ('c, 'st) node_state" where
  "claim_funds preimage nd =
     nd\<lparr>nd_pay := (nd_pay nd)\<lparr>pb_calls := pb_calls (nd_pay nd) @ [ClaimFunds preimage]\<rparr>\<rparr>"

text \<open>The external signer: whether the node runs in that mode, and the signer's answer to a request
  for a preimage (host, index, payment hash), where one is connected.\<close>

record 'st event_env =
  ev_pay :: "'st pay_env"
  ev_rgb :: "'st rgb_env"
  ev_sha256 :: "bytes \<Rightarrow> bytes"
  ev_external_signer_mode :: bool
  ev_external_signer :: "(string \<Rightarrow> u64 \<Rightarrow> string \<Rightarrow> string + string) option"

text \<open>The first scoped record of the receiving channels that can be read and copied becomes the
  record under the bare payment hash.\<close>

fun project_rgb_record :: "'st pay_env \<Rightarrow> string \<Rightarrow> bytes list \<Rightarrow> 'st \<Rightarrow> 'st option" where
  "project_rgb_record e htlc_payment_hash [] kv = Some kv"
| "project_rgb_record e htlc_payment_hash (chan_id # rest) kv =
     (case io_result (pe_read e kv (pe_rgb_ns e, pe_rgb_inbound_ns e, hex_str chan_id @ htlc_payment_hash)) of
        None \<Rightarrow> None
      | Some (Inl k, kv) \<Rightarrow> project_rgb_record e htlc_payment_hash rest kv
      | Some (Inr data, kv) \<Rightarrow>
          (case io_result (pe_write e kv (pe_rgb_ns e, pe_rgb_inbound_ns e, htlc_payment_hash) data) of
             None \<Rightarrow> None
           | Some (Inl k, kv) \<Rightarrow> project_rgb_record e htlc_payment_hash rest kv
           | Some (Inr _, kv) \<Rightarrow> Some kv))"

record claimable_event =
  ce_payment_hash :: bytes
  ce_purpose :: payment_purpose
  ce_amount_msat :: u64
  ce_claim_deadline :: "u32 option"
  ce_receiving_channel_ids :: "bytes list"

definition fail_back ::
  "'st pay_env \<Rightarrow> u64 \<Rightarrow> bytes \<Rightarrow> ('c, 'st) node_state \<Rightarrow> (event_outcome \<times> ('c, 'st) node_state) option" where
  "fail_back e now payment_hash nd =
     map_option (\<lambda>p. (Handled, put_pay nd p))
       (fail_htlc_backwards_and_update_inbound_payment e now payment_hash Failed (nd_pay nd))"

definition claim_async_recipient ::
  "'st event_env \<Rightarrow> u64 \<Rightarrow> bytes \<Rightarrow> payment_info \<Rightarrow> ('c, 'st) node_state
     \<Rightarrow> (event_outcome \<times> ('c, 'st) node_state) option" where
  "claim_async_recipient v now payment_hash invoice nd =
     (case pi_preimage invoice of
        Some preimage \<Rightarrow> Some (Handled, claim_funds preimage nd)
      | None \<Rightarrow>
          if ev_external_signer_mode v then
            (case (ev_external_signer v, pi_async_host_node_id invoice, pi_async_hash_index invoice) of
               (Some signer, Some host, Some index) \<Rightarrow>
                 (case signer (hex_str host) index (hex_str payment_hash) of
                    Inr preimage_hex \<Rightarrow>
                      (case validate_and_parse_payment_preimage (ev_sha256 v) preimage_hex payment_hash of
                         Inr preimage \<Rightarrow> Some (Handled, claim_funds preimage nd)
                       | Inl _ \<Rightarrow> fail_back (ev_pay v) now payment_hash nd)
                  | Inl _ \<Rightarrow> Some (ReplayEvent, nd))
             | _ \<Rightarrow> Some (ReplayEvent, nd))
          else Some (ReplayEvent, nd))"

definition claim_invoice_payment ::
  "'st event_env \<Rightarrow> u64 \<Rightarrow> u64 \<Rightarrow> claimable_event \<Rightarrow> bytes option \<Rightarrow> bytes \<Rightarrow> ('c, 'st) node_state
     \<Rightarrow> (event_outcome \<times> ('c, 'st) node_state) option" where
  "claim_invoice_payment v now_ts now2 ev payment_preimage payment_secret nd =
     (let h = ce_payment_hash ev; e = ev_pay v in
      case map_of (pb_inbound (nd_pay nd)) h of
        None \<Rightarrow> Some (ReplayEvent, nd)
      | Some invoice \<Rightarrow>
          if (case pi_expires_at invoice of None \<Rightarrow> False | Some t \<Rightarrow> now_ts \<ge> t) then fail_back e now2 h nd
          else if (case pi_amt_msat invoice of None \<Rightarrow> False | Some a \<Rightarrow> ce_amount_msat ev < a)
            then fail_back e now2 h nd
          else case (case pi_invoice_type invoice of None \<Rightarrow> AutoClaim | Some t \<Rightarrow> t) of
            AutoClaim \<Rightarrow>
              (case payment_preimage of
                 None \<Rightarrow> Some (ReplayEvent, nd)
               | Some preimage \<Rightarrow> Some (Handled, claim_funds preimage nd))
          | Hodl True \<Rightarrow> claim_async_recipient v now2 h invoice nd
          | Hodl False \<Rightarrow>
              map_option (\<lambda>p. (Handled, (put_pay nd p)\<lparr>nd_notices := nd_notices nd @
                  [ClaimableHodlInvoice h (ce_amount_msat ev) (ce_claim_deadline ev)]\<rparr>))
                (upsert_inbound_payment e now2 h Claimable payment_preimage (Some payment_secret)
                   (Some (ce_amount_msat ev)) (pe_our_node_id e) (ce_claim_deadline ev) None (nd_pay nd)))"

definition payment_claimable ::
  "'st event_env \<Rightarrow> u64 \<Rightarrow> u64 \<Rightarrow> claimable_event \<Rightarrow> ('c, 'st) node_state
     \<Rightarrow> (event_outcome \<times> ('c, 'st) node_state) option" where
  "payment_claimable v now_ts now2 ev nd =
     (case project_rgb_record (ev_pay v) (hex_str (ce_payment_hash ev)) (ce_receiving_channel_ids ev)
             (pb_kv (nd_pay nd)) of
        None \<Rightarrow> None
      | Some kv \<Rightarrow>
          (case ce_purpose ev of
             SpontaneousPayment preimage \<Rightarrow> Some (Handled, claim_funds preimage (put_kv nd kv))
           | Bolt11InvoicePayment preimage secret \<Rightarrow>
               claim_invoice_payment v now_ts now2 ev preimage secret (put_kv nd kv)
           | Bolt12OfferPayment preimage secret \<Rightarrow>
               claim_invoice_payment v now_ts now2 ev preimage secret (put_kv nd kv)
           | Bolt12RefundPayment preimage secret \<Rightarrow>
               claim_invoice_payment v now_ts now2 ev preimage secret (put_kv nd kv)))"

fun purpose_keys :: "payment_purpose \<Rightarrow> bytes option \<times> bytes option" where
  "purpose_keys (Bolt11InvoicePayment preimage secret) = (preimage, Some secret)"
| "purpose_keys (Bolt12OfferPayment preimage secret) = (preimage, Some secret)"
| "purpose_keys (Bolt12RefundPayment preimage secret) = (preimage, Some secret)"
| "purpose_keys (SpontaneousPayment preimage) = (Some preimage, None)"

definition already_claimed :: "bytes \<Rightarrow> ('c, 'st) node_state \<Rightarrow> bool" where
  "already_claimed h nd \<longleftrightarrow>
     (if is_maker_swap h (swaps_of nd)
      then (case map_of (nd_maker nd) h of None \<Rightarrow> False | Some sd \<Rightarrow> sd_status sd = swap_status.Succeeded)
      else (case map_of (pb_inbound (nd_pay nd)) h of None \<Rightarrow> False | Some p \<Rightarrow> pi_status p = Succeeded))"

definition payment_claimed ::
  "('c, 'st) swap_env \<Rightarrow> 'st event_env \<Rightarrow> u64 \<Rightarrow> bytes \<Rightarrow> payment_purpose \<Rightarrow> u64 \<Rightarrow> node_id option
     \<Rightarrow> ('c, 'st) node_state \<Rightarrow> (event_outcome \<times> ('c, 'st) node_state) option" where
  "payment_claimed se v now h purpose amount_msat receiver_node_id nd =
     (if already_claimed h nd then Some (Handled, nd)
      else case finalize_rgb_channel_payment (ev_pay v) (ev_rgb v) h True (pb_kv (nd_pay nd)) of
        None \<Rightarrow> None
      | Some (Inl _, kv) \<Rightarrow> Some (ReplayEvent, put_kv nd kv)
      | Some (Inr _, kv) \<Rightarrow>
          if is_maker_swap h (swaps_of nd)
          then map_option (\<lambda>s. (Handled, put_swaps nd s))
                 (update_maker_swap_status se now h swap_status.Succeeded (swaps_of (put_kv nd kv)))
          else case receiver_node_id of
            None \<Rightarrow> None
          | Some payee \<Rightarrow>
              map_option (\<lambda>p. (Handled, put_pay nd p))
                (upsert_inbound_payment (ev_pay v) now h Succeeded (fst (purpose_keys purpose))
                   (snd (purpose_keys purpose)) (Some amount_msat) payee None None (nd_pay (put_kv nd kv))))"

definition payment_sent ::
  "('c, 'st) swap_env \<Rightarrow> 'st event_env \<Rightarrow> u64 \<Rightarrow> bytes \<Rightarrow> bytes \<Rightarrow> bytes option \<Rightarrow> ('c, 'st) node_state
     \<Rightarrow> (event_outcome \<times> ('c, 'st) node_state) option" where
  "payment_sent se v now h payment_preimage payment_id nd =
     (case finalize_rgb_channel_payment (ev_pay v) (ev_rgb v) h False (pb_kv (nd_pay nd)) of
        None \<Rightarrow> None
      | Some (Inl _, kv) \<Rightarrow> Some (ReplayEvent, put_kv nd kv)
      | Some (Inr _, kv) \<Rightarrow>
          if is_maker_swap h (swaps_of nd)
          then map_option (\<lambda>s. (Handled, put_swaps nd s))
                 (update_maker_swap_status se now h swap_status.Succeeded (swaps_of (put_kv nd kv)))
          else case payment_id of
            None \<Rightarrow> None
          | Some i \<Rightarrow>
              map_option (\<lambda>(p, s). (Handled, (put_pay nd s)\<lparr>nd_notices := nd_notices nd @
                  [PaymentSentNotice h payment_preimage]\<rparr>))
                (update_outbound_payment (ev_pay v) now i Succeeded (Some payment_preimage) (nd_pay (put_kv nd kv))))"

definition payment_failed ::
  "('c, 'st) swap_env \<Rightarrow> 'st event_env \<Rightarrow> u64 \<Rightarrow> bytes option \<Rightarrow> bytes \<Rightarrow> ('c, 'st) node_state
     \<Rightarrow> ('c, 'st) node_state option" where
  "payment_failed se v now payment_hash payment_id nd =
     (case payment_hash of
        None \<Rightarrow>
          map_option (put_pay nd) (update_outbound_payment_status (ev_pay v) now payment_id Failed (nd_pay nd))
      | Some h \<Rightarrow>
          (case clear_rgb_payment_pending (ev_pay v) h False (pb_kv (nd_pay nd)) of
             None \<Rightarrow> None
           | Some kv \<Rightarrow>
               if is_maker_swap h (swaps_of nd)
               then map_option (put_swaps nd)
                      (update_maker_swap_status se now h swap_status.Failed (swaps_of (put_kv nd kv)))
               else map_option (put_pay nd)
                      (update_outbound_payment_status (ev_pay v) now payment_id Failed (nd_pay (put_kv nd kv)))))"

text \<open>One side of a forwarded payment: nothing to do without an asset amount.\<close>

definition update_forwarded ::
  "'st rgb_env \<Rightarrow> string \<Rightarrow> u64 option \<Rightarrow> bool \<Rightarrow> 'st \<Rightarrow> ((io_kind + unit) \<times> 'st) option" where
  "update_forwarded r channel amount outbound kv =
     (case amount of
        None \<Rightarrow> Some (Inr (), kv)
      | Some a \<Rightarrow>
          (case safe_update_rgb_channel_amount r channel (if outbound then a else 0) (if outbound then 0 else a) kv of
             None \<Rightarrow> None
           | Some (Inl k, kv) \<Rightarrow> Some (Inl k, kv)
           | Some (Inr _, kv) \<Rightarrow> Some (Inr (), kv)))"

definition payment_forwarded ::
  "('c, 'st) swap_env \<Rightarrow> 'st event_env \<Rightarrow> u64 \<Rightarrow> bytes \<Rightarrow> bytes option \<Rightarrow> bytes option \<Rightarrow> u64 option \<Rightarrow> u64 option
     \<Rightarrow> ('c, 'st) node_state \<Rightarrow> (event_outcome \<times> ('c, 'st) node_state) option" where
  "payment_forwarded se v now h prev_channel_id next_channel_id outbound_rgb inbound_rgb nd =
     (case clear_rgb_payment_pending (ev_pay v) h True (pb_kv (nd_pay nd)) of
        None \<Rightarrow> None
      | Some kv \<Rightarrow>
     (case clear_rgb_payment_pending (ev_pay v) h False kv of
        None \<Rightarrow> None
      | Some kv \<Rightarrow>
     (case (prev_channel_id, next_channel_id) of
        (Some prev, Some nxt) \<Rightarrow>
          (case update_forwarded (ev_rgb v) (hex_str nxt) outbound_rgb True kv of
             None \<Rightarrow> None
           | Some (Inl _, kv) \<Rightarrow> Some (ReplayEvent, put_kv nd kv)
           | Some (Inr _, kv) \<Rightarrow>
          (case update_forwarded (ev_rgb v) (hex_str prev) inbound_rgb False kv of
             None \<Rightarrow> None
           | Some (Inl _, kv) \<Rightarrow> Some (ReplayEvent, put_kv nd kv)
           | Some (Inr _, kv) \<Rightarrow>
               map_option (\<lambda>s. (Handled, put_swaps nd s)) (payment_forwarded_swap se now h (swaps_of (put_kv nd kv)))))
      | _ \<Rightarrow> None)))"

end
