(* ===== verification/Payment_Props.thy ===== *)
theory Payment_Props
  imports Payment_Events "HOL-Library.Multiset"
begin

text \<open>
  Properties of the payment books: every payment carries an index of its own, pages of the listing
  enumerate the payments, a held invoice is settled once.
\<close>

section \<open>Indexes\<close>

text \<open>The typing of a book: one entry per key, indexes between zero and the counter, none twice;
  a complete book has an index in every entry; two books have no index in common.\<close>

definition book_part :: "u64 \<Rightarrow> payment_book \<Rightarrow> bool" where
  "book_part n book \<longleftrightarrow>
     distinct (map fst book)
     \<and> (\<forall>k p i. map_of book k = Some p \<longrightarrow> pi_payment_idx p = Some i \<longrightarrow> 0 < i \<and> i < n)
     \<and> (\<forall>k p k' p' i. map_of book k = Some p \<longrightarrow> map_of book k' = Some p'
          \<longrightarrow> pi_payment_idx p = Some i \<longrightarrow> pi_payment_idx p' = Some i \<longrightarrow> k = k')"

definition unindexed :: "payment_book \<Rightarrow> bytes set" where
  "unindexed book = {k. \<exists>p. map_of book k = Some p \<and> pi_payment_idx p = None}"

definition books_apart :: "payment_book \<Rightarrow> payment_book \<Rightarrow> bool" where
  "books_apart inb outb \<longleftrightarrow>
     (\<forall>k p k' p' i. map_of inb k = Some p \<longrightarrow> map_of outb k' = Some p'
        \<longrightarrow> pi_payment_idx p = Some i \<longrightarrow> pi_payment_idx p' \<noteq> Some i)"

definition books_part :: "u64 \<Rightarrow> payment_book \<Rightarrow> payment_book \<Rightarrow> bool" where
  "books_part n inb outb \<longleftrightarrow> 0 < n \<and> book_part n inb \<and> book_part n outb \<and> books_apart inb outb"

definition books_ok :: "'st pay_state \<Rightarrow> bool" where
  "books_ok st \<longleftrightarrow>
     books_part (pb_next_idx st) (pb_inbound st) (pb_outbound st)
     \<and> unindexed (pb_inbound st) = {} \<and> unindexed (pb_outbound st) = {}"

lemma books_part_sym: "books_part n inb outb = books_part n outb inb"
  unfolding books_part_def books_apart_def by blast

text \<open>An entry may keep its index, or take the counter's value.\<close>

lemma book_part_same_idx:
  assumes "book_part n b" and "map_of b k = Some p" and "pi_payment_idx q = pi_payment_idx p"
  shows "book_part n (AList.update k q b)"
  using assms unfolding book_part_def by (auto simp: update_conv' distinct_update)

lemma books_part_same_idx:
  assumes "books_part n b c" and "map_of b k = Some p" and "pi_payment_idx q = pi_payment_idx p"
  shows "books_part n (AList.update k q b) c"
  using assms book_part_same_idx [of n b k p q]
  unfolding books_part_def books_apart_def by (auto simp: update_conv')

lemma unindexed_same_idx:
  assumes "map_of b k = Some p" and "pi_payment_idx q = pi_payment_idx p"
  shows "unindexed (AList.update k q b) = unindexed b"
  using assms by (auto simp: unindexed_def update_conv')

lemma book_part_mono: "book_part n b \<Longrightarrow> n \<le> m \<Longrightarrow> book_part m b"
  unfolding book_part_def by (meson order_less_le_trans)

lemma book_part_old: "book_part n b \<Longrightarrow> map_of b k = Some p \<Longrightarrow> pi_payment_idx p \<noteq> Some n"
  unfolding book_part_def by (meson less_irrefl)

lemma book_part_fresh:
  assumes ok: "book_part n b" and q: "pi_payment_idx q = Some n" and n: "0 < n" "n < m"
  shows "book_part m (AList.update k q b)"
proof -
  have old: "pi_payment_idx p \<noteq> Some n" if "map_of b k' = Some p" for k' p
    using ok that by (rule book_part_old)
  have up: "0 < i \<and> i < m" if "map_of b k' = Some p" and "pi_payment_idx p = Some i" for k' p i
    using ok that n unfolding book_part_def by (meson less_trans)
  show ?thesis
    using ok q n up old unfolding book_part_def by (auto simp: update_conv' distinct_update)
qed

lemma books_part_fresh:
  assumes "books_part n b c" and "pi_payment_idx q = Some n" and "n < m"
  shows "books_part m (AList.update k q b) c"
proof -
  have old: "pi_payment_idx p \<noteq> Some n" if "map_of c k' = Some p" for k' p
    using assms(1) that unfolding books_part_def by (blast dest: book_part_old)
  show ?thesis
    using assms book_part_fresh [of n b q m k] book_part_mono [of n c m] old
    unfolding books_part_def books_apart_def by (auto simp: update_conv')
qed

lemma unindexed_fresh:
  assumes "pi_payment_idx q = Some n"
  shows "unindexed (AList.update k q b) = unindexed b - {k}"
  using assms by (auto simp: unindexed_def update_conv')

lemma map_of_map_entries:
  "map_of (map (\<lambda>(k, p). (k, g k p)) b) k = map_option (g k) (map_of b k)"
  by (induction b) auto

lemma books_part_map:
  assumes "books_part n b c" and "\<And>k p. pi_payment_idx (g k p) = pi_payment_idx p"
  shows "books_part n (map (\<lambda>(k, p). (k, g k p)) b) c"
  using assms unfolding books_part_def book_part_def books_apart_def
  by (auto simp: map_of_map_entries comp_def case_prod_beta)

lemma unindexed_map:
  assumes "\<And>k p. pi_payment_idx (g k p) = pi_payment_idx p"
  shows "unindexed (map (\<lambda>(k, p). (k, g k p)) b) = unindexed b"
  using assms by (auto simp: unindexed_def map_of_map_entries)

lemma unat_next: "n \<noteq> - 1 \<Longrightarrow> unat (n + 1) = Suc (unat (n :: u64))"
proof -
  assume "n \<noteq> - 1"
  then have "unat n \<noteq> 18446744073709551615"
    by (simp add: word_unat_eq_iff)
  then have "unat n + 1 < 2 ^ 64"
    using unsigned_less [of n, where 'a = nat] by simp
  then show ?thesis
    by (simp add: unat_word_ariths)
qed

lemma word_next: "n \<noteq> - 1 \<Longrightarrow> n < n + (1 :: u64)"
  by (simp add: word_less_nat_alt unat_next)

text \<open>How an operation moves the counter.\<close>

definition moves :: "'st pay_state \<Rightarrow> 'st pay_state \<Rightarrow> bool" where
  "moves st st' \<longleftrightarrow>
     books_ok st' \<and> (pb_next_idx st' = pb_next_idx st \<or> pb_next_idx st' = pb_next_idx st + 1)"

definition keeps :: "'st pay_state \<Rightarrow> 'st pay_state \<Rightarrow> bool" where
  "keeps st st' \<longleftrightarrow>
     books_ok st' \<and> pb_next_idx st' = pb_next_idx st
     \<and> dom (map_of (pb_inbound st')) = dom (map_of (pb_inbound st))"

lemma keeps_moves: "keeps st st' \<Longrightarrow> moves st st'"
  by (simp add: keeps_def moves_def)

lemma keeps_refl: "books_ok st \<Longrightarrow> keeps st st"
  by (simp add: keeps_def)

lemma keeps_trans: "keeps a b \<Longrightarrow> keeps b c \<Longrightarrow> keeps a c"
  by (simp add: keeps_def)

lemma books_ok_irrelevant [simp]:
  "books_ok (st\<lparr>pb_kv := kv\<rparr>) = books_ok st" "books_ok (st\<lparr>pb_calls := cs\<rparr>) = books_ok st"
  by (simp_all add: books_ok_def)

lemma keeps_irrelevant [simp]:
  "keeps st (st'\<lparr>pb_kv := kv\<rparr>) = keeps st st'" "keeps st (st'\<lparr>pb_calls := cs\<rparr>) = keeps st st'"
  "keeps (st\<lparr>pb_calls := cs\<rparr>) st' = keeps st st'"
  by (simp_all add: keeps_def)

lemma moves_irrelevant [simp]:
  "moves st (st'\<lparr>pb_kv := kv\<rparr>) = moves st st'" "moves st (st'\<lparr>pb_calls := cs\<rparr>) = moves st st'"
  "moves (st\<lparr>pb_calls := cs\<rparr>) st' = moves st st'"
  by (simp_all add: moves_def)

lemma save_inbound_Some:
  "save_inbound_payments e st = Some st' \<Longrightarrow> \<exists>kv. st' = st\<lparr>pb_kv := kv\<rparr>"
  by (auto simp: save_inbound_payments_def split: prod.splits sum.splits)

lemma save_outbound_Some:
  "save_outbound_payments e st = Some st' \<Longrightarrow> \<exists>kv. st' = st\<lparr>pb_kv := kv\<rparr>"
  by (auto simp: save_outbound_payments_def split: prod.splits sum.splits)

lemma inbound_entry_keeps:
  assumes "books_ok st" and "map_of (pb_inbound st) h = Some p" and "pi_payment_idx q = pi_payment_idx p"
  shows "keeps st (st\<lparr>pb_inbound := AList.update h q (pb_inbound st)\<rparr>)"
  using assms books_part_same_idx [OF _ assms(2,3)] unindexed_same_idx [OF assms(2,3)]
  by (auto simp: keeps_def books_ok_def update_conv')

lemma outbound_entry_keeps:
  assumes "books_ok st" and "map_of (pb_outbound st) i = Some p" and "pi_payment_idx q = pi_payment_idx p"
  shows "keeps st (st\<lparr>pb_outbound := AList.update i q (pb_outbound st)\<rparr>)"
  using assms books_part_same_idx [OF _ assms(2,3)] unindexed_same_idx [OF assms(2,3)]
  by (auto simp: keeps_def books_ok_def books_part_sym [of _ "pb_inbound st"])

lemma inbound_fresh_moves:
  assumes "books_ok st" and "pb_next_idx st \<noteq> - 1" and "pi_payment_idx q = Some (pb_next_idx st)"
  shows "moves st (st\<lparr>pb_next_idx := pb_next_idx st + 1, pb_inbound := AList.update h q (pb_inbound st)\<rparr>)"
  using assms(1) books_part_fresh [OF _ assms(3) word_next [OF assms(2)]] unindexed_fresh [OF assms(3)]
  by (auto simp: moves_def books_ok_def)

lemma outbound_fresh_moves:
  assumes "books_ok st" and "pb_next_idx st \<noteq> - 1" and "pi_payment_idx q = Some (pb_next_idx st)"
  shows "moves st (st\<lparr>pb_next_idx := pb_next_idx st + 1, pb_outbound := AList.update h q (pb_outbound st)\<rparr>)"
  using assms(1) books_part_fresh [OF _ assms(3) word_next [OF assms(2)]] unindexed_fresh [OF assms(3)]
  by (auto simp: moves_def books_ok_def books_part_sym [of _ "pb_inbound st"])

lemma inbound_map_keeps:
  assumes "books_ok st" and "\<And>k p. pi_payment_idx (g k p) = pi_payment_idx p"
  shows "keeps st (st\<lparr>pb_inbound := map (\<lambda>(k, p). (k, g k p)) (pb_inbound st)\<rparr>)"
  using assms(1) books_part_map [OF _ assms(2)] unindexed_map [OF assms(2)]
  by (auto simp: keeps_def books_ok_def map_of_map_entries dom_def)

lemma outbound_map_keeps:
  assumes "books_ok st" and "\<And>k p. pi_payment_idx (g k p) = pi_payment_idx p"
  shows "keeps st (st\<lparr>pb_outbound := map (\<lambda>(k, p). (k, g k p)) (pb_outbound st)\<rparr>)"
  using assms(1) books_part_map [OF _ assms(2)] unindexed_map [OF assms(2)]
  by (auto simp: keeps_def books_ok_def books_part_sym [of _ "pb_inbound st"])

section \<open>The operations keep the indexes\<close>

text \<open>Saving a changed or a new entry.\<close>

lemma saved_inbound_keeps:
  assumes "save_inbound_payments e (st\<lparr>pb_inbound := AList.update h q (pb_inbound st)\<rparr>) = Some st'"
    and "books_ok st" and "map_of (pb_inbound st) h = Some p" and "pi_payment_idx q = pi_payment_idx p"
  shows "keeps st st'"
  using inbound_entry_keeps [OF assms(2-4)] save_inbound_Some [OF assms(1)] by auto

lemma saved_outbound_keeps:
  assumes "save_outbound_payments e (st\<lparr>pb_outbound := AList.update h q (pb_outbound st)\<rparr>) = Some st'"
    and "books_ok st" and "map_of (pb_outbound st) h = Some p" and "pi_payment_idx q = pi_payment_idx p"
  shows "keeps st st'"
  using outbound_entry_keeps [OF assms(2-4)] save_outbound_Some [OF assms(1)] by auto

lemma saved_inbound_moves:
  assumes "save_inbound_payments e (st\<lparr>pb_next_idx := pb_next_idx st + 1,
             pb_inbound := AList.update h q (pb_inbound st)\<rparr>) = Some st'"
    and "books_ok st" and "pb_next_idx st \<noteq> - 1" and "pi_payment_idx q = Some (pb_next_idx st)"
  shows "moves st st'"
  using inbound_fresh_moves [OF assms(2-4)] save_inbound_Some [OF assms(1)] by auto

lemma saved_outbound_moves:
  assumes "save_outbound_payments e (st\<lparr>pb_next_idx := pb_next_idx st + 1,
             pb_outbound := AList.update h q (pb_outbound st)\<rparr>) = Some st'"
    and "books_ok st" and "pb_next_idx st \<noteq> - 1" and "pi_payment_idx q = Some (pb_next_idx st)"
  shows "moves st st'"
  using outbound_fresh_moves [OF assms(2-4)] save_outbound_Some [OF assms(1)] by auto

lemma upsert_present_keeps:
  assumes "upsert_inbound_payment e now h status pre sec amt payee deadline ty st = Some st'"
    and "books_ok st" and "map_of (pb_inbound st) h \<noteq> None"
  shows "keeps st st'"
  using assms by (auto simp: upsert_inbound_payment_def Let_def elim!: saved_inbound_keeps)

lemma upsert_moves:
  assumes "upsert_inbound_payment e now h status pre sec amt payee deadline ty st = Some st'"
    and "books_ok st" and "pb_next_idx st \<noteq> - 1"
  shows "moves st st'"
proof (cases "map_of (pb_inbound st) h")
  case None
  then show ?thesis
    using assms by (auto simp: upsert_inbound_payment_def stamp_payment_idx_def elim!: saved_inbound_moves)
next
  case (Some p)
  then show ?thesis
    using upsert_present_keeps [OF assms(1,2)] by (simp add: keeps_moves)
qed

lemma fail_back_Some:
  assumes "fail_htlc_backwards_and_update_inbound_payment e now h status st = Some st'"
  obtains st1 kv where
    "upsert_inbound_payment e now h status None None None (pe_our_node_id e) None None
       (st\<lparr>pb_calls := pb_calls st @ [FailHtlcBackwards h]\<rparr>) = Some st1"
    and "st' = st1\<lparr>pb_kv := kv\<rparr>"
  using assms that
  by (auto simp: fail_htlc_backwards_and_update_inbound_payment_def split: option.splits)

lemma fail_back_present_keeps:
  assumes "fail_htlc_backwards_and_update_inbound_payment e now h status st = Some st'"
    and "books_ok st" and "map_of (pb_inbound st) h \<noteq> None"
  shows "keeps st st'"
  using assms(2,3) by (auto intro: fail_back_Some [OF assms(1)] dest!: upsert_present_keeps)

lemma fail_back_moves:
  assumes "fail_htlc_backwards_and_update_inbound_payment e now h status st = Some st'"
    and "books_ok st" and "pb_next_idx st \<noteq> - 1"
  shows "moves st st'"
  using assms(2,3) by (auto intro: fail_back_Some [OF assms(1)] dest!: upsert_moves)

lemma fail_claimables_keeps:
  assumes "fail_claimables e nows hs st = Some st'" and "books_ok st"
    and "\<forall>h \<in> set hs. map_of (pb_inbound st) h \<noteq> None"
  shows "keeps st st'"
  using assms
proof (induction hs arbitrary: st)
  case Nil
  then show ?case by (simp add: keeps_refl)
next
  case (Cons h hs)
  then obtain st1 where st1: "fail_htlc_backwards_and_update_inbound_payment e (nows h) h Failed st = Some st1"
    and rest: "fail_claimables e nows hs st1 = Some st'"
    by (auto split: option.splits)
  have k: "keeps st st1"
    using fail_back_present_keeps [OF st1] Cons.prems by simp
  then have "books_ok st1" and "\<forall>h \<in> set hs. map_of (pb_inbound st1) h \<noteq> None"
    using Cons.prems(3) by (auto simp: keeps_def dom_def set_eq_iff)
  then show ?case
    using Cons.IH [OF rest] k by (blast intro: keeps_trans)
qed

lemma list_updated_keeps:
  assumes "list_updated_inbound_payments e now height nows st = Some (b, st')" and "books_ok st"
  shows "keeps st st'"
proof -
  let ?g = "\<lambda>h p. if expire_pending now p then p\<lparr>pi_status := Failed, pi_updated_at := now\<rparr> else p"
  let ?st1 = "st\<lparr>pb_inbound := map (\<lambda>(h, p). (h, ?g h p)) (pb_inbound st)\<rparr>"
  let ?over = "map fst (filter (\<lambda>(h, p). claimable_over now height p) (pb_inbound st))"
  obtain st2 where st2: "st2 = ?st1 \<or> save_inbound_payments e ?st1 = Some st2"
    and rest: "fail_claimables e nows ?over st2 = Some st'"
    using assms(1) by (auto simp: list_updated_inbound_payments_def Let_def split: option.splits if_splits)
  have "keeps st ?st1"
    by (rule inbound_map_keeps [OF assms(2)]) simp
  then have k: "keeps st st2"
    using st2 by (auto dest: save_inbound_Some)
  have "map_of (pb_inbound st2) h \<noteq> None" if "h \<in> set ?over" for h
  proof -
    have "h \<in> dom (map_of (pb_inbound st))"
      using that unfolding dom_map_of_conv_image_fst by (auto intro: rev_image_eqI)
    then show ?thesis
      using k by (auto simp: keeps_def)
  qed
  then show ?thesis
    using fail_claimables_keeps [OF rest] k by (auto simp: keeps_def)
qed

lemma fail_outbound_keeps:
  assumes "fail_outbound_pending_payments e now recent st = Some st'" and "books_ok st"
  shows "keeps st st'"
proof -
  let ?g = "\<lambda>i p. if pi_status p = Pending \<and> i \<notin> set recent then p\<lparr>pi_status := Failed, pi_updated_at := now i\<rparr> else p"
  have eq: "fail_if_unknown recent now = (\<lambda>(i, p). (i, ?g i p))"
    by (auto simp: fail_if_unknown_def)
  have "keeps st (st\<lparr>pb_outbound := map (\<lambda>(i, p). (i, ?g i p)) (pb_outbound st)\<rparr>)"
    by (rule outbound_map_keeps [OF assms(2)]) simp
  then show ?thesis
    using assms unfolding fail_outbound_pending_payments_def eq
    by (auto simp: keeps_refl dest: save_outbound_Some split: if_splits)
qed

lemma add_inbound_moves:
  assumes "add_inbound_payment e h p st = Some st'" and "pi_payment_idx p = None"
    and "books_ok st" and "pb_next_idx st \<noteq> - 1"
  shows "moves st st'"
  using assms by (auto simp: add_inbound_payment_def stamp_payment_idx_def elim!: saved_inbound_moves)

lemma add_outbound_moves:
  assumes "add_outbound_payment e i p st = Some (Inr st')" and "pi_payment_idx p = None"
    and "books_ok st" and "pb_next_idx st \<noteq> - 1"
  shows "moves st st'"
  using assms
  by (auto simp: add_outbound_payment_def stamp_payment_idx_def Let_def elim!: saved_outbound_moves
      split: option.splits if_splits)

lemma skipped_idx_moves:
  assumes "books_ok st" and "pb_next_idx st \<noteq> - 1"
  shows "moves st (st\<lparr>pb_next_idx := pb_next_idx st + 1\<rparr>)"
  using assms word_next [OF assms(2)]
  by (auto simp: moves_def books_ok_def books_part_def intro: book_part_mono less_imp_le less_trans)

lemma staged_moves:
  assumes "persist_staged_inbound_payment e txt h p st = Some (r, st')" and "pi_payment_idx p = None"
    and "books_ok st" and "pb_next_idx st \<noteq> - 1"
  shows "moves st st'"
  using assms skipped_idx_moves [OF assms(3,4)]
    inbound_fresh_moves [OF assms(3,4), of "p\<lparr>pi_payment_idx := Some (pb_next_idx st)\<rparr>" h]
  by (auto simp: persist_staged_inbound_payment_def stamp_payment_idx_def Let_def
      split: prod.splits sum.splits failure.splits)

lemma update_outbound_keeps:
  "update_outbound_payment e now i status pre st = Some (p, st') \<Longrightarrow> books_ok st \<Longrightarrow> keeps st st'"
  "update_outbound_payment_status e now i status st = Some st' \<Longrightarrow> books_ok st \<Longrightarrow> keeps st st'"
  by (auto simp: update_outbound_payment_def update_outbound_payment_status_def Let_def
      elim!: saved_outbound_keeps split: option.splits)

lemma cancel_hodl_keeps:
  assumes "cancel_hodl_invoice e now s st = Some (Inr st')" and "books_ok st"
  shows "keeps st st'"
  using assms
  by (auto simp: cancel_hodl_invoice_def intro: fail_back_present_keeps
      split: sum.splits option.splits if_splits htlc_status.splits)

lemma claim_hodl_keeps:
  assumes "claim_hodl_invoice H e height now now2 s x st = Some (r, st')" and "books_ok st"
  shows "keeps st st'"
  using assms
  by (auto simp: claim_hodl_invoice_def Let_def keeps_refl intro: fail_back_present_keeps elim!: saved_inbound_keeps
      split: sum.splits option.splits if_splits htlc_status.splits)

section \<open>Steps of the node\<close>

text \<open>Every operation that changes the books. New payments come without an index, as every caller
  passes them.\<close>

inductive pay_step :: "(bytes \<Rightarrow> bytes) \<Rightarrow> 'st pay_env \<Rightarrow> 'st pay_state \<Rightarrow> 'st pay_state \<Rightarrow> bool"
  for H :: "bytes \<Rightarrow> bytes" and e :: "'st pay_env" where
  add_inbound: "add_inbound_payment e h p st = Some st' \<Longrightarrow> pi_payment_idx p = None \<Longrightarrow> pay_step H e st st'"
| add_outbound: "add_outbound_payment e i p st = Some (Inr st') \<Longrightarrow> pi_payment_idx p = None \<Longrightarrow> pay_step H e st st'"
| staged: "persist_staged_inbound_payment e txt h p st = Some (r, st') \<Longrightarrow> pi_payment_idx p = None \<Longrightarrow> pay_step H e st st'"
| fail_pending: "fail_outbound_pending_payments e nows recent st = Some st' \<Longrightarrow> pay_step H e st st'"
| list_updated: "list_updated_inbound_payments e now height nows st = Some (b, st') \<Longrightarrow> pay_step H e st st'"
| set_status: "update_outbound_payment_status e now i status st = Some st' \<Longrightarrow> pay_step H e st st'"
| cancel: "cancel_hodl_invoice e now s st = Some (Inr st') \<Longrightarrow> pay_step H e st st'"
| claim: "claim_hodl_invoice H e height now now2 s x st = Some (r, st') \<Longrightarrow> pay_step H e st st'"

inductive node_step ::
  "('c, 'st) swap_env \<Rightarrow> 'st event_env \<Rightarrow> ('c, 'st) node_state \<Rightarrow> ('c, 'st) node_state \<Rightarrow> bool"
  for se :: "('c, 'st) swap_env" and v :: "'st event_env" where
  pay: "pay_step (ev_sha256 v) (ev_pay v) (nd_pay nd) p \<Longrightarrow> node_step se v nd (put_pay nd p)"
| claimable: "payment_claimable v now now2 ev nd = Some (r, nd') \<Longrightarrow> node_step se v nd nd'"
| claimed: "payment_claimed se v now h purpose amt rid nd = Some (r, nd') \<Longrightarrow> node_step se v nd nd'"
| sent: "payment_sent se v now h pre i nd = Some (r, nd') \<Longrightarrow> node_step se v nd nd'"
| failed: "payment_failed se v now oh i nd = Some nd' \<Longrightarrow> node_step se v nd nd'"
| forwarded: "payment_forwarded se v now h prev nxt orgb irgb nd = Some (r, nd') \<Longrightarrow> node_step se v nd nd'"

inductive node_run ::
  "('c, 'st) swap_env \<Rightarrow> 'st event_env \<Rightarrow> nat \<Rightarrow> ('c, 'st) node_state \<Rightarrow> ('c, 'st) node_state \<Rightarrow> bool"
  for se :: "('c, 'st) swap_env" and v :: "'st event_env" where
  start: "node_run se v 0 nd nd"
| more: "node_run se v n nd nd1 \<Longrightarrow> node_step se v nd1 nd2 \<Longrightarrow> node_run se v (Suc n) nd nd2"

lemma pay_step_moves:
  assumes "pay_step H e st st'" and "books_ok st" and "pb_next_idx st \<noteq> - 1"
  shows "moves st st'"
  using assms
  by (induction rule: pay_step.induct)
    (auto intro: add_inbound_moves add_outbound_moves staged_moves keeps_moves fail_outbound_keeps
      list_updated_keeps update_outbound_keeps cancel_hodl_keeps claim_hodl_keeps)

lemma nd_pay_simps [simp]:
  "nd_pay (put_pay nd p) = p" "nd_pay (put_kv nd kv) = (nd_pay nd)\<lparr>pb_kv := kv\<rparr>"
  "nd_pay (put_swaps nd s) = (nd_pay nd)\<lparr>pb_kv := ss_kv s\<rparr>"
  "nd_pay (claim_funds x nd) = (nd_pay nd)\<lparr>pb_calls := pb_calls (nd_pay nd) @ [ClaimFunds x]\<rparr>"
  by (simp_all add: put_pay_def put_kv_def put_swaps_def claim_funds_def)

lemma moves_refl: "books_ok st \<Longrightarrow> moves st st"
  by (simp add: moves_def)

lemma moves_kv [simp]: "moves (st\<lparr>pb_kv := kv\<rparr>) st' = moves st st'"
  by (simp add: moves_def)

lemma event_fail_back_moves:
  assumes "fail_back e now h nd = Some (r, nd')" and "books_ok (nd_pay nd)" and "pb_next_idx (nd_pay nd) \<noteq> - 1"
  shows "moves (nd_pay nd) (nd_pay nd')"
  using assms by (auto simp: fail_back_def dest: fail_back_moves)

lemma claim_async_moves:
  assumes "claim_async_recipient v now h invoice nd = Some (r, nd')"
    and "books_ok (nd_pay nd)" and "pb_next_idx (nd_pay nd) \<noteq> - 1"
  shows "moves (nd_pay nd) (nd_pay nd')"
  using assms
  by (auto simp: claim_async_recipient_def moves_refl dest: event_fail_back_moves
      split: option.splits if_splits sum.splits)

lemma claim_invoice_moves:
  assumes "claim_invoice_payment v now_ts now2 ev pre sec nd = Some (r, nd')"
    and "books_ok (nd_pay nd)" and "pb_next_idx (nd_pay nd) \<noteq> - 1"
  shows "moves (nd_pay nd) (nd_pay nd')"
  using assms
  by (auto simp: claim_invoice_payment_def Let_def moves_refl
      dest: event_fail_back_moves claim_async_moves upsert_moves
      split: option.splits if_splits invoice_type.splits bool.splits)

lemma payment_claimable_moves:
  assumes "payment_claimable v now_ts now2 ev nd = Some (r, nd')"
    and "books_ok (nd_pay nd)" and "pb_next_idx (nd_pay nd) \<noteq> - 1"
  shows "moves (nd_pay nd) (nd_pay nd')"
  using assms
  by (auto simp: payment_claimable_def moves_refl dest!: claim_invoice_moves
      split: option.splits payment_purpose.splits)

lemma payment_claimed_moves:
  assumes "payment_claimed se v now h purpose amt rid nd = Some (r, nd')"
    and "books_ok (nd_pay nd)" and "pb_next_idx (nd_pay nd) \<noteq> - 1"
  shows "moves (nd_pay nd) (nd_pay nd')"
  using assms
  by (auto simp: payment_claimed_def moves_refl dest!: upsert_moves
      split: option.splits sum.splits if_splits)

lemma payment_sent_moves:
  assumes "payment_sent se v now h pre i nd = Some (r, nd')" and "books_ok (nd_pay nd)"
  shows "moves (nd_pay nd) (nd_pay nd')"
  using assms
  by (auto simp: payment_sent_def moves_refl dest!: update_outbound_keeps(1) keeps_moves
      split: option.splits sum.splits if_splits)

lemma payment_failed_moves:
  assumes "payment_failed se v now oh i nd = Some nd'" and "books_ok (nd_pay nd)"
  shows "moves (nd_pay nd) (nd_pay nd')"
  using assms
  by (auto simp: payment_failed_def moves_refl dest!: update_outbound_keeps(2) keeps_moves
      split: option.splits if_splits)

lemma payment_forwarded_moves:
  assumes "payment_forwarded se v now h prev nxt orgb irgb nd = Some (r, nd')" and "books_ok (nd_pay nd)"
  shows "moves (nd_pay nd) (nd_pay nd')"
  using assms
  by (auto simp: payment_forwarded_def moves_refl split: option.splits sum.splits)

lemma node_step_moves:
  assumes "node_step se v nd nd'" and "books_ok (nd_pay nd)" and "pb_next_idx (nd_pay nd) \<noteq> - 1"
  shows "moves (nd_pay nd) (nd_pay nd')"
  using assms
  by (induction rule: node_step.induct)
    (simp_all add: pay_step_moves payment_claimable_moves payment_claimed_moves payment_sent_moves
      payment_failed_moves payment_forwarded_moves)

lemma node_run_ok:
  assumes "node_run se v n nd nd'" and "books_ok (nd_pay nd)" and "unat (pb_next_idx (nd_pay nd)) + n < 2 ^ 64"
  shows "books_ok (nd_pay nd') \<and> unat (pb_next_idx (nd_pay nd')) \<le> unat (pb_next_idx (nd_pay nd)) + n"
  using assms
proof (induction rule: node_run.induct)
  case (start nd)
  then show ?case by simp
next
  case (more n nd nd1 nd2)
  then have ok: "books_ok (nd_pay nd1)" and le: "unat (pb_next_idx (nd_pay nd1)) \<le> unat (pb_next_idx (nd_pay nd)) + n"
    by simp_all
  then have "unat (pb_next_idx (nd_pay nd1)) \<noteq> 18446744073709551615"
    using more.prems by simp
  then have n: "pb_next_idx (nd_pay nd1) \<noteq> - 1"
    by (auto simp: word_unat_eq_iff)
  have "moves (nd_pay nd1) (nd_pay nd2)"
    using node_step_moves [OF more.hyps(2) ok n] .
  then show ?case
    using le by (auto simp: moves_def unat_next [OF n])
qed


section \<open>Numbering at start-up\<close>

text \<open>What the store may hold: books of earlier releases lack indexes, but repeat none.\<close>

definition stored_ok :: "payment_book \<Rightarrow> payment_book \<Rightarrow> bool" where
  "stored_ok inb outb \<longleftrightarrow> books_part (max_payment_idx (inb @ outb) + 1) inb outb"

definition missing_keys :: "(u64 \<times> bytes \<times> bool) list \<Rightarrow> bool \<Rightarrow> bytes set" where
  "missing_keys missing inbound = {k. (\<exists>t. (t, k, inbound) \<in> set missing)}"

lemma backfill_ok:
  assumes "backfill missing m inb outb = Some (m', inb', outb')"
    and "books_part (m + 1) inb outb" and "unat m + length missing + 1 < 2 ^ 64"
    and "distinct (map snd missing)"
    and "unindexed inb = missing_keys missing True" and "unindexed outb = missing_keys missing False"
  shows "books_part (m' + 1) inb' outb' \<and> unindexed inb' = {} \<and> unindexed outb' = {}
    \<and> unat m' = unat m + length missing"
  using assms
proof (induction missing arbitrary: m inb outb)
  case Nil
  then show ?case by (simp add: missing_keys_def)
next
  case (Cons x missing)
  obtain t k b where x: "x = (t, k, b)"
    by (cases x)
  have "unat m \<noteq> 18446744073709551615" and "unat m + 1 \<noteq> 18446744073709551615"
    using Cons.prems(3) by simp_all
  then have m: "m \<noteq> - 1" and um: "unat (m + 1) = unat m + 1" and m1: "m + 1 \<noteq> - 1"
    using unat_next [of m] by (auto simp: word_unat_eq_iff [of m] word_unat_eq_iff [of "m + 1"])
  have lt: "m + 1 < m + 1 + 1"
    by (rule word_next [OF m1])
  have keys: "missing_keys (x # missing) c - (if c = b then {k} else {}) = missing_keys missing c" for c
    using Cons.prems(4) x by (force simp: missing_keys_def image_iff)
  show ?case
  proof (cases b)
    case True
    then obtain p where "map_of inb k = Some p"
      and rest: "backfill missing (m + 1) (AList.update k (p\<lparr>pi_payment_idx := Some (m + 1)\<rparr>) inb) outb = Some (m', inb', outb')"
      using Cons.prems(1) x by (auto simp: set_idx_def split: option.splits)
    have "books_part (m + 1 + 1) (AList.update k (p\<lparr>pi_payment_idx := Some (m + 1)\<rparr>) inb) outb"
      using books_part_fresh [OF Cons.prems(2) _ lt] by simp
    then show ?thesis
      using Cons.IH [OF rest] Cons.prems keys [of True] keys [of False] True um
      by (simp add: unindexed_fresh)
  next
    case False
    then obtain p where "map_of outb k = Some p"
      and rest: "backfill missing (m + 1) inb (AList.update k (p\<lparr>pi_payment_idx := Some (m + 1)\<rparr>) outb) = Some (m', inb', outb')"
      using Cons.prems(1) x by (auto simp: set_idx_def split: option.splits)
    have "books_part (m + 1 + 1) inb (AList.update k (p\<lparr>pi_payment_idx := Some (m + 1)\<rparr>) outb)"
      using books_part_fresh [OF _ _ lt, of outb inb] Cons.prems(2) by (simp add: books_part_sym [of _ inb])
    then show ?thesis
      using Cons.IH [OF rest] Cons.prems keys [of True] keys [of False] False um
      by (simp add: unindexed_fresh)
  qed
qed

lemma distinct_missing:
  assumes "distinct (map fst inb)" and "distinct (map fst outb)"
  shows "distinct (map snd (missing_idx inb True @ missing_idx outb False))"
proof -
  have one: "distinct (map snd (missing_idx b c))" if "distinct (map fst b)" for b c
    using that by (induction b) (auto simp: missing_idx_def image_iff)
  show ?thesis
    using one [OF assms(1)] one [OF assms(2)] by (auto simp: missing_idx_def)
qed

lemma distinct_map_sort: "distinct (map f (sort_key g xs)) = distinct (map f xs)"
  by (simp add: distinct_map)

lemma missing_keys_idx:
  assumes "distinct (map fst b)"
  shows "unindexed b = {k. \<exists>t. (t, k, c) \<in> set (missing_idx b c)}"
  using assms by (force simp: unindexed_def missing_idx_def)

lemma seed_payment_idx_ok:
  assumes seed: "seed_payment_idx e inb outb kv = Some st" and ok: "stored_ok inb outb"
    and bound: "unat (max_payment_idx (inb @ outb)) + length (missing_idx inb True) + length (missing_idx outb False) + 1 < 2 ^ 64"
  shows "books_ok st \<and> unat (pb_next_idx st) =
    unat (max_payment_idx (inb @ outb)) + length (missing_idx inb True) + length (missing_idx outb False) + 1"
proof -
  let ?all = "missing_idx inb True @ missing_idx outb False" and ?m = "max_payment_idx (inb @ outb)"
  let ?missing = "sort_key (\<lambda>(t, k, b). (t, k)) ?all"
  obtain m inb' outb' where bf: "backfill ?missing ?m inb outb = Some (m, inb', outb')"
    and st: "pb_inbound st = inb'" "pb_outbound st = outb'" "pb_next_idx st = m + 1"
    using seed by (auto simp: seed_payment_idx_def Let_def split: option.splits if_splits
        dest!: save_inbound_Some save_outbound_Some)
  have d: "distinct (map fst inb)" "distinct (map fst outb)"
    using ok by (simp_all add: stored_ok_def books_part_def book_part_def)
  have ds: "distinct (map snd ?missing)"
    using distinct_missing [OF d] by (simp only: distinct_map_sort)
  have keys: "missing_keys ?missing True = unindexed inb" "missing_keys ?missing False = unindexed outb"
    using missing_keys_idx [OF d(1), of True] missing_keys_idx [OF d(2), of False]
    by (auto simp: missing_keys_def missing_idx_def)
  have "books_part (m + 1) inb' outb' \<and> unindexed inb' = {} \<and> unindexed outb' = {} \<and> unat m = unat ?m + length ?missing"
    using backfill_ok [OF bf] ok ds keys bound by (simp add: stored_ok_def)
  moreover from this have "unat m \<noteq> 18446744073709551615"
    using bound by simp
  then have "m \<noteq> - 1"
    by (auto simp: word_unat_eq_iff)
  ultimately show ?thesis
    using st unat_next [of m] by (simp add: books_ok_def)
qed

text \<open>However the node is restarted on its stored books and whatever sequence of routes and
  payment events then runs, every payment of the two books has an index, the indexes are positive and
  below the counter, and no two payments share one, as long as the counter does not run over 64 bits.\<close>

theorem payment_indexes_unique:
  assumes "stored_ok inb outb" and "seed_payment_idx (ev_pay v) inb outb kv = Some (nd_pay nd0)"
    and "node_run se v n nd0 nd"
    and "unat (max_payment_idx (inb @ outb)) + length (missing_idx inb True) + length (missing_idx outb False) + 1 + n < 2 ^ 64"
  shows "books_ok (nd_pay nd)"
proof -
  have "books_ok (nd_pay nd0) \<and> unat (pb_next_idx (nd_pay nd0)) =
      unat (max_payment_idx (inb @ outb)) + length (missing_idx inb True) + length (missing_idx outb False) + 1"
    using seed_payment_idx_ok [OF assms(2,1)] assms(4) by simp
  then show ?thesis
    using node_run_ok [OF assms(3)] assms(4) by simp
qed


section \<open>Pages\<close>

text \<open>A caller that asks for page after page, passing the last index of one as the offset of the
  next, until a page is empty.\<close>

fun walk_pages :: "(u64 \<times> 'a) list \<Rightarrow> u64 \<Rightarrow> nat \<Rightarrow> u64 \<Rightarrow> 'a list" where
  "walk_pages items m 0 offset = []"
| "walk_pages items m (Suc fuel) offset =
     (case paginate_newest_first items offset m of
        (page, first, last_idx) \<Rightarrow> if page = [] then [] else page @ walk_pages items m fuel last_idx)"

definition newest_first :: "(u64 \<times> 'a) list \<Rightarrow> (u64 \<times> 'a) list" where
  "newest_first items = sort_key (\<lambda>(i, _). - 1 - i) items"

lemma minus_one_diff_less: "- 1 - a < - 1 - (b :: u64) \<longleftrightarrow> b < a"
  and minus_one_diff_le: "- 1 - a \<le> - 1 - (b :: u64) \<longleftrightarrow> b \<le> a"
proof -
  have u: "unat (- 1 - x) = 18446744073709551615 - unat x" for x :: u64
    using unsigned_less [of x, where 'a = nat] by (simp add: unat_sub word_le_nat_alt)
  show "- 1 - a < - 1 - b \<longleftrightarrow> b < a"
    using unsigned_less [of a, where 'a = nat] unsigned_less [of b, where 'a = nat]
    by (auto simp: word_less_nat_alt u)
  show "- 1 - a \<le> - 1 - b \<longleftrightarrow> b \<le> a"
    using unsigned_less [of a, where 'a = nat] unsigned_less [of b, where 'a = nat]
    by (auto simp: word_le_nat_alt u)
qed

lemma newest_first_sorted:
  assumes "distinct (map fst items)"
  shows "sorted_wrt (\<lambda>x y. fst y < fst x) (newest_first items)"
proof -
  have "sorted_wrt (\<lambda>x y. fst y \<le> fst x) (newest_first items)"
    using sorted_sort_key [of "\<lambda>(i, _). - 1 - i" items]
    by (simp add: newest_first_def sorted_map case_prod_beta minus_one_diff_le)
  moreover have "distinct (map fst (newest_first items))"
    using assms by (simp add: newest_first_def distinct_map_sort)
  then have "sorted_wrt (\<lambda>x y. fst x \<noteq> fst y) (newest_first items)"
    by (auto simp: sorted_wrt_iff_nth_less distinct_conv_nth)
  ultimately show ?thesis
    by (simp add: sorted_wrt_iff_nth_less) (metis order_le_imp_less_or_eq)
qed

lemma filter_before:
  assumes "sorted_wrt (\<lambda>x y. fst y < fst x) (pre @ rest)" and "pre \<noteq> []"
  shows "filter (\<lambda>x. fst x < (fst (last pre) :: u64)) (pre @ rest) = rest"
proof -
  have l: "last pre \<in> set pre"
    using assms(2) by simp
  have "\<not> fst x < fst (last pre)" if "x \<in> set pre" for x
  proof -
    have "sorted_wrt (\<lambda>x y. fst y < fst x) (butlast pre @ [last pre])"
      using assms by (simp add: sorted_wrt_append)
    moreover have "x \<in> set (butlast pre) \<or> x = last pre"
      using that assms(2) by (metis in_set_butlast_appendI append_butlast_last_id rotate1.simps(2) set_ConsD set_rotate1)
    ultimately show ?thesis
      by (auto simp: sorted_wrt_append)
  qed
  then have "filter (\<lambda>x. fst x < fst (last pre)) pre = []"
    by (simp add: filter_empty_conv)
  moreover have "filter (\<lambda>x. fst x < fst (last pre)) rest = rest"
    using assms(1) l by (auto simp: sorted_wrt_append filter_id_conv)
  ultimately show ?thesis
    by simp
qed

lemma walk_from:
  assumes sorted: "sorted_wrt (\<lambda>x y. fst y < fst x) (pre @ rest)" and ys: "newest_first items = pre @ rest"
    and pos: "\<forall>x \<in> set (pre @ rest). fst x \<noteq> 0" and m: "m \<noteq> 0" and fuel: "length rest < fuel"
    and off: "offset = (if pre = [] then 0 else fst (last pre))"
  shows "walk_pages items m fuel offset = map snd rest"
  using sorted ys pos fuel off
proof (induction fuel arbitrary: pre rest offset)
  case 0
  then show ?case by simp
next
  case (Suc fuel)
  let ?k = "unat m"
  have k: "0 < ?k"
    using m by (simp add: word_neq_0_conv unat_gt_0)
  have "filter (\<lambda>(i, _). offset = 0 \<or> i < offset) (pre @ rest) = rest"
  proof (cases "pre = []")
    case False
    then have "offset \<noteq> 0" and "offset = fst (last pre)"
      using Suc.prems(3,5) last_in_set [OF False] by auto
    then show ?thesis
      using filter_before [OF Suc.prems(1) False] by (simp add: case_prod_unfold)
  qed (use Suc.prems(5) in simp)
  then have page: "page_of items offset m = take ?k rest"
    using Suc.prems(2) by (simp add: page_of_def newest_first_def)
  show ?case
  proof (cases "rest = []")
    case True
    then show ?thesis
      by (simp add: paginate_newest_first_def page)
  next
    case False
    then have ne: "take ?k rest \<noteq> []"
      using k by simp
    have split: "(pre @ take ?k rest) @ drop ?k rest = pre @ rest"
      by simp
    have "length rest - ?k < fuel"
      using Suc.prems(4) False k by (cases rest) auto
    then have "walk_pages items m fuel (fst (last (take ?k rest))) = map snd (drop ?k rest)"
      using Suc.IH [of "pre @ take ?k rest" "drop ?k rest"] Suc.prems False k ne
      unfolding split by simp
    then show ?thesis
      using ne by (simp add: paginate_newest_first_def page Let_def flip: map_append)
  qed
qed

lemma pages_enumerate:
  assumes "distinct (map fst items)" and "\<forall>x \<in> set items. fst x \<noteq> 0" and "m \<noteq> 0" and "length items < fuel"
  shows "walk_pages items m fuel 0 = map snd (newest_first items)"
  using walk_from [of "[]" "newest_first items" items m fuel 0] assms newest_first_sorted [OF assms(1)]
  by (simp add: newest_first_def)

text \<open>The indexes of the listing are those of the books.\<close>

lemma distinct_book_indexes:
  assumes "book_part n b" and "unindexed b = {}"
  shows "distinct (map (\<lambda>(h, p). the (pi_payment_idx p)) b)"
proof -
  have d: "distinct (map fst b)"
    using assms(1) by (simp add: book_part_def)
  have "x = y" if "x \<in> set b" "y \<in> set b" "the (pi_payment_idx (snd x)) = the (pi_payment_idx (snd y))" for x y
  proof -
    have m: "map_of b (fst x) = Some (snd x)" "map_of b (fst y) = Some (snd y)"
      using d that by simp_all
    then obtain i j where ij: "pi_payment_idx (snd x) = Some i" "pi_payment_idx (snd y) = Some j"
      using assms(2) by (fastforce simp: unindexed_def)
    then have "fst x = fst y"
      using assms(1) m that(3) unfolding book_part_def by (metis option.sel)
    then show ?thesis
      using m by (simp add: prod_eq_iff)
  qed
  then show ?thesis
    using d by (auto simp: distinct_map inj_on_def case_prod_unfold)
qed

lemma book_index_pos:
  assumes "book_part n b" and "unindexed b = {}" and "x \<in> set b"
  shows "the (pi_payment_idx (snd x)) \<noteq> 0" and "\<exists>i. pi_payment_idx (snd x) = Some i"
proof -
  have m: "map_of b (fst x) = Some (snd x)"
    using assms(1,3) by (simp add: book_part_def)
  then show some: "\<exists>i. pi_payment_idx (snd x) = Some i"
    using assms(2) by (fastforce simp: unindexed_def)
  then obtain i where "pi_payment_idx (snd x) = Some i"
    by blast
  then have "0 < i"
    using assms(1) m unfolding book_part_def by blast
  then show "the (pi_payment_idx (snd x)) \<noteq> 0"
    using \<open>pi_payment_idx (snd x) = Some i\<close> by simp
qed

lemma listing_indexes:
  assumes "books_ok st"
  shows "map fst (all_payments rgb (pb_inbound st) (pb_outbound st)) =
    map (\<lambda>(h, p). the (pi_payment_idx p)) (pb_inbound st @ pb_outbound st)"
proof -
  have "(case pi_payment_idx (snd x) of None \<Rightarrow> 0 | Some i \<Rightarrow> i) = the (pi_payment_idx (snd x))"
    if "x \<in> set (pb_inbound st @ pb_outbound st)" for x
    using that assms book_index_pos(2) [of "pb_next_idx st" "pb_inbound st" x]
      book_index_pos(2) [of "pb_next_idx st" "pb_outbound st" x]
    by (auto simp: books_ok_def books_part_def)
  then show ?thesis
    by (simp add: all_payments_def comp_def case_prod_unfold)
qed

lemma listing_distinct:
  assumes "books_ok st"
  shows "distinct (map fst (all_payments rgb (pb_inbound st) (pb_outbound st)))"
    and "\<forall>x \<in> set (all_payments rgb (pb_inbound st) (pb_outbound st)). fst x \<noteq> 0"
proof -
  have parts: "book_part (pb_next_idx st) (pb_inbound st)" "unindexed (pb_inbound st) = {}"
    "book_part (pb_next_idx st) (pb_outbound st)" "unindexed (pb_outbound st) = {}"
    "books_apart (pb_inbound st) (pb_outbound st)"
    using assms by (simp_all add: books_ok_def books_part_def)
  have "the (pi_payment_idx (snd x)) \<noteq> the (pi_payment_idx (snd y))"
    if xy: "x \<in> set (pb_inbound st)" "y \<in> set (pb_outbound st)" for x y
  proof -
    have m: "map_of (pb_inbound st) (fst x) = Some (snd x)" "map_of (pb_outbound st) (fst y) = Some (snd y)"
      using parts(1,3) xy by (simp_all add: book_part_def)
    obtain i j where "pi_payment_idx (snd x) = Some i" "pi_payment_idx (snd y) = Some j"
      using book_index_pos(2) [OF parts(1,2) xy(1)] book_index_pos(2) [OF parts(3,4) xy(2)] by blast
    then show ?thesis
      using parts(5) m unfolding books_apart_def by auto
  qed
  then show "distinct (map fst (all_payments rgb (pb_inbound st) (pb_outbound st)))"
    unfolding listing_indexes [OF assms]
    using distinct_book_indexes [OF parts(1,2)] distinct_book_indexes [OF parts(3,4)]
    by (auto simp: case_prod_unfold)
  have "fst x \<in> set (map (\<lambda>(h, p). the (pi_payment_idx p)) (pb_inbound st @ pb_outbound st))"
    if "x \<in> set (all_payments rgb (pb_inbound st) (pb_outbound st))" for x
    using that unfolding listing_indexes [OF assms, of rgb, symmetric] by simp
  then show "\<forall>x \<in> set (all_payments rgb (pb_inbound st) (pb_outbound st)). fst x \<noteq> 0"
    using book_index_pos(1) [OF parts(1,2)] book_index_pos(1) [OF parts(3,4)]
    by (fastforce simp: case_prod_unfold)
qed

text \<open>C22. On books with well-formed indexes, asking for page after page of the payments, of any size
  but zero and under any filter, returns exactly the selected payments, newest first, each once.\<close>

theorem pages_list_payments:
  assumes "books_ok st" and "m \<noteq> 0"
    and "wanted = filter (\<lambda>(i, v). wanted_payment r v) (all_payments rgb (pb_inbound st) (pb_outbound st))"
    and "length wanted < fuel"
  shows "walk_pages wanted m fuel 0 = map snd (newest_first wanted)
    \<and> mset (walk_pages wanted m fuel 0) = mset (map snd wanted)
    \<and> sorted_wrt (\<lambda>x y. fst y < fst x) (newest_first wanted)"
proof -
  have d: "distinct (map fst wanted)" and pos: "\<forall>x \<in> set wanted. fst x \<noteq> 0"
    using listing_distinct [OF assms(1), of rgb] assms(3) by (auto simp: distinct_map_filter)
  have "walk_pages wanted m fuel 0 = map snd (newest_first wanted)"
    by (rule pages_enumerate [OF d pos assms(2,4)])
  then show ?thesis
    using newest_first_sorted [OF d] by (simp add: newest_first_def mset_map)
qed

section \<open>Held invoices\<close>

definition claims :: "'st pay_state \<Rightarrow> 'st pay_state \<Rightarrow> bytes \<Rightarrow> bool" where
  "claims st st' preimage \<longleftrightarrow> pb_calls st' = pb_calls st @ [ClaimFunds preimage]"

lemma saved_calls: "save_inbound_payments e st = Some st' \<Longrightarrow> pb_calls st' = pb_calls st \<and> pb_inbound st' = pb_inbound st"
  by (auto dest: save_inbound_Some)

lemma upsert_calls:
  "upsert_inbound_payment e now h status pre sec amt payee deadline ty st = Some st' \<Longrightarrow> pb_calls st' = pb_calls st"
  by (auto simp: upsert_inbound_payment_def Let_def dest!: saved_calls split: option.splits prod.splits)

lemma fail_back_calls:
  "fail_htlc_backwards_and_update_inbound_payment e now h status st = Some st'
     \<Longrightarrow> pb_calls st' = pb_calls st @ [FailHtlcBackwards h]"
  by (erule fail_back_Some) (auto dest!: upsert_calls)

text \<open>C23. The claim route asks the channel manager for the funds only with a preimage of the payment
  hash, for an invoice of the book that is held, claimable, before its claim deadline and not expired;
  it then answers that something changed, and every later claim or cancellation of that invoice is
  refused while it is being settled.\<close>

theorem hodl_claimed_once:
  assumes "claim_hodl_invoice H e height now now2 s x st = Some (r, st')"
    and "\<exists>pre. ClaimFunds pre \<in> set (drop (length (pb_calls st)) (pb_calls st'))"
  shows "\<exists>h p pre. validate_and_parse_payment_hash s = Inr h \<and> map_of (pb_inbound st) h = Some p
    \<and> H pre = h \<and> claims st st' pre \<and> r = Inr True
    \<and> is_hodl p \<and> pi_status p = Claimable
    \<and> (\<forall>d. pi_claim_deadline_height p = Some d \<longrightarrow> height < d) \<and> (\<forall>t. pi_expires_at p = Some t \<longrightarrow> now < t)
    \<and> (\<exists>q. map_of (pb_inbound st') h = Some q \<and> pi_status q = Claiming)
    \<and> (\<forall>now3. cancel_hodl_invoice e now3 s st' = Some (Inl InvoiceSettlingInProgress))
    \<and> (\<forall>height2 now3 now4. claim_hodl_invoice H e height2 now3 now4 s x st' = Some (Inl InvoiceSettlingInProgress, st'))"
proof -
  obtain h where h: "validate_and_parse_payment_hash s = Inr h"
    using assms by (auto simp: claim_hodl_invoice_def split: sum.splits)
  obtain pre where pre: "validate_and_parse_payment_preimage H x h = Inr pre"
    using assms h by (auto simp: claim_hodl_invoice_def split: sum.splits)
  obtain p where p: "map_of (pb_inbound st) h = Some p"
    using assms h pre by (auto simp: claim_hodl_invoice_def split: option.splits)
  have held: "is_hodl p" "pi_status p = Claimable"
    using assms h pre p by (auto simp: claim_hodl_invoice_def split: if_splits htlc_status.splits)
  let ?q = "p\<lparr>pi_status := Claiming, pi_updated_at := now\<rparr>"
  let ?st1 = "st\<lparr>pb_inbound := AList.update h ?q (pb_inbound st)\<rparr>"
  have open_p: "(\<forall>d. pi_claim_deadline_height p = Some d \<longrightarrow> height < d) \<and> (\<forall>t. pi_expires_at p = Some t \<longrightarrow> now < t)"
    using assms h pre p held
    by (auto simp: claim_hodl_invoice_def Let_def not_le dest!: fail_back_calls split: if_splits option.splits)
  then obtain st1 where st1: "save_inbound_payments e ?st1 = Some st1" "r = Inr True"
      "st' = st1\<lparr>pb_calls := pb_calls st1 @ [ClaimFunds pre]\<rparr>"
    using assms(1) h pre p held
    by (auto simp: claim_hodl_invoice_def Let_def not_le[symmetric] split: if_splits option.splits)
  have q: "map_of (pb_inbound st') h = Some ?q" and c: "claims st st' pre"
    using saved_calls [OF st1(1)] st1(3) by (simp_all add: update_conv' claims_def)
  moreover have "is_hodl ?q"
    using held by (simp add: is_hodl_def)
  moreover have "H pre = h"
    using pre by (auto simp: validate_and_parse_payment_preimage_def split: option.splits if_splits)
  ultimately show ?thesis
    using h pre p held open_p st1(2)
    by (auto simp: cancel_hodl_invoice_def claim_hodl_invoice_def)
qed

section \<open>Instances\<close>

definition unit_pay_env :: "unit pay_env" where
  "unit_pay_env =
     \<lparr>pe_read = (\<lambda>st k. (Inl (Io NotFound), st)), pe_write = (\<lambda>st k v. (Inr (), st)),
      pe_remove = (\<lambda>st k. (Inr (), st)), pe_list = (\<lambda>st p s. (Inr [], st)),
      pe_encode = (\<lambda>b. []), pe_decode = (\<lambda>b. None), pe_rgb_ns = ''rgb'', pe_rgb_inbound_ns = ''in'',
      pe_rgb_outbound_ns = ''out'', pe_our_node_id = [2]\<rparr>"

definition unit_event_env :: "unit event_env" where
  "unit_event_env =
     \<lparr>ev_pay = unit_pay_env,
      ev_rgb = \<lparr>re_channel_info = (\<lambda>st c. (Inr (), st)), re_update_amount = (\<lambda>st c a b. Some st),
                re_decode_info = (\<lambda>b. None)\<rparr>,
      ev_sha256 = (\<lambda>b. b), ev_external_signer_mode = False, ev_external_signer = None\<rparr>"

definition demo_payment :: "u64 \<Rightarrow> u64 option \<Rightarrow> payment_info" where
  "demo_payment created i =
     \<lparr>pi_preimage = None, pi_secret = None, pi_status = Claimable, pi_amt_msat = Some 1000, pi_created_at = created,
      pi_updated_at = created, pi_payee_pubkey = [2], pi_expires_at = Some 100, pi_claim_deadline_height = Some 90,
      pi_invoice_type = Some (Hodl False), pi_description = None, pi_description_hash = None,
      pi_payment_idx = i, pi_async_hash_index = None, pi_async_host_node_id = None\<rparr>"

definition demo_books :: "payment_book \<Rightarrow> payment_book \<Rightarrow> u64 \<Rightarrow> unit pay_state" where
  "demo_books inb outb n = \<lparr>pb_inbound = inb, pb_outbound = outb, pb_next_idx = n, pb_kv = (), pb_calls = []\<rparr>"

definition demo_start :: "(nat, unit) node_state" where
  "demo_start = \<lparr>nd_pay = demo_books [([1], demo_payment 5 (Some 2))] [([2], demo_payment 3 (Some 1))] 3,
     nd_maker = [], nd_taker = [], nd_notices = []\<rparr>"

lemma demo_stored_ok: "stored_ok [([1], demo_payment 5 None)] [([2], demo_payment 3 None)]"
  by (auto simp: stored_ok_def books_part_def book_part_def books_apart_def max_payment_idx_def demo_payment_def
      split: if_splits)

lemma demo_seed:
  "seed_payment_idx unit_pay_env [([1], demo_payment 5 None)] [([2], demo_payment 3 None)] () = Some (nd_pay demo_start)"
  by (simp add: seed_payment_idx_def missing_idx_def max_payment_idx_def demo_payment_def set_idx_def demo_start_def
      demo_books_def save_inbound_payments_def save_outbound_payments_def unit_pay_env_def less_eq_prod_def)

theorem payment_indexes_unique_witness:
  "books_ok (demo_books [([1], demo_payment 5 (Some 2)), ([4], demo_payment 6 (Some 3))]
     [([2], demo_payment 3 (Some 1))] 4)"
proof -
  let ?p = "demo_books [([1], demo_payment 5 (Some 2)), ([4], demo_payment 6 (Some 3))] [([2], demo_payment 3 (Some 1))] 4"
  have "add_inbound_payment unit_pay_env [4] (demo_payment 6 None) (nd_pay demo_start) = Some ?p"
    by (simp add: add_inbound_payment_def stamp_payment_idx_def demo_payment_def demo_start_def demo_books_def
        save_inbound_payments_def unit_pay_env_def)
  moreover have "pi_payment_idx (demo_payment 6 None) = None"
    by (simp add: demo_payment_def)
  ultimately have "pay_step (ev_sha256 unit_event_env) unit_pay_env (nd_pay demo_start) ?p"
    by (rule pay_step.add_inbound)
  then have "pay_step (ev_sha256 unit_event_env) (ev_pay unit_event_env) (nd_pay demo_start) ?p"
    by (simp add: unit_event_env_def)
  then have run: "node_run undefined unit_event_env (Suc 0) demo_start (put_pay demo_start ?p)"
    by (intro node_run.more [OF node_run.start] node_step.pay)
  have seed: "seed_payment_idx (ev_pay unit_event_env) [([1], demo_payment 5 None)] [([2], demo_payment 3 None)] ()
      = Some (nd_pay demo_start)"
    using demo_seed by (simp add: unit_event_env_def)
  have "books_ok (nd_pay (put_pay demo_start ?p))"
    by (rule payment_indexes_unique [OF demo_stored_ok seed run])
      (simp add: max_payment_idx_def missing_idx_def demo_payment_def)
  then show ?thesis
    by simp
qed

definition every_payment :: list_payments_request where
  "every_payment = \<lparr>lp_index_offset = None, lp_max_payments = None, lp_status = None, lp_direction = None,
     lp_created_after = None, lp_created_before = None\<rparr>"

theorem pages_list_payments_witness:
  "let wanted = filter (\<lambda>(i, v). wanted_payment every_payment v)
      (all_payments (\<lambda>b h. None) [([1], demo_payment 5 (Some 2))] [([2], demo_payment 3 (Some 1))])
   in map pv_created_at (walk_pages wanted 1 5 0) = [5, 3]"
proof -
  let ?w = "filter (\<lambda>(i, v). wanted_payment every_payment v)
      (all_payments (\<lambda>b h. None) [([1], demo_payment 5 (Some 2))] [([2], demo_payment 3 (Some 1))])"
  have ok: "books_ok (nd_pay demo_start)"
    using seed_payment_idx_ok [OF demo_seed demo_stored_ok]
    by (simp add: max_payment_idx_def missing_idx_def demo_payment_def)
  have w: "?w = filter (\<lambda>(i, v). wanted_payment every_payment v)
      (all_payments (\<lambda>b h. None) (pb_inbound (nd_pay demo_start)) (pb_outbound (nd_pay demo_start)))"
    by (simp add: demo_start_def demo_books_def)
  have l: "length ?w < 5"
    by (simp add: all_payments_def)
  have "walk_pages ?w 1 5 0 = map snd (newest_first ?w)"
    using pages_list_payments [OF ok _ w l, of 1] by simp
  moreover have "map pv_created_at (map snd (newest_first ?w)) = [5, 3]"
    by (simp add: newest_first_def all_payments_def wanted_payment_def every_payment_def in_time_range_def
        demo_payment_def payment_view_of_def)
  ultimately show ?thesis
    by simp
qed

definition demo_hash :: bytes where
  "demo_hash = replicate 32 7"

theorem hodl_claimed_once_witness:
  "\<exists>st'. claim_hodl_invoice (\<lambda>b. b) unit_pay_env 50 60 61 (hex_str demo_hash) (hex_str demo_hash)
      (demo_books [(demo_hash, demo_payment 5 (Some 1))] [] 2) = Some (Inr True, st')
    \<and> claim_hodl_invoice (\<lambda>b. b) unit_pay_env 50 60 61 (hex_str demo_hash) (hex_str demo_hash) st'
        = Some (Inl InvoiceSettlingInProgress, st')"
proof -
  let ?st = "demo_books [(demo_hash, demo_payment 5 (Some 1))] [] 2"
  have h: "validate_and_parse_payment_hash (hex_str demo_hash) = Inr demo_hash"
    "validate_and_parse_payment_preimage (\<lambda>b. b) (hex_str demo_hash) demo_hash = Inr demo_hash"
    by (simp_all add: validate_hash_hex_str demo_hash_def validate_and_parse_payment_preimage_def)
  have open_p: "is_hodl (demo_payment 5 (Some 1))" "pi_status (demo_payment 5 (Some 1)) = Claimable"
    "pi_claim_deadline_height (demo_payment 5 (Some 1)) = Some 90" "pi_expires_at (demo_payment 5 (Some 1)) = Some 100"
    by (simp_all add: is_hodl_def demo_payment_def)
  obtain st' where st': "claim_hodl_invoice (\<lambda>b. b) unit_pay_env 50 60 61 (hex_str demo_hash) (hex_str demo_hash) ?st
      = Some (Inr True, st')" "pb_calls st' = [ClaimFunds demo_hash]"
    by (simp add: claim_hodl_invoice_def h open_p demo_books_def save_inbound_payments_def unit_pay_env_def)
  have "\<exists>pre. ClaimFunds pre \<in> set (drop (length (pb_calls ?st)) (pb_calls st'))"
    using st'(2) by (auto simp: demo_books_def)
  then show ?thesis
    using hodl_claimed_once [OF st'(1)] st'(1) by blast
qed

end
