(* ===== verification/Payment_Ledger.thy ===== *)
theory Payment_Ledger
  imports Payment_Props Local_Kv
begin

text \<open>
  The payment events over the local database: which asset amounts they book on channels, and what they
  ask of the channel manager. The lightning library's update of a channel's amounts is a log of the
  amounts booked, and a channel is known to it or not.
\<close>

section \<open>A store that logs the amounts booked\<close>

type_synonym booking = "string \<times> u64 \<times> u64"
type_synonym ledger = "local_kv \<times> booking list"

definition on_db :: "(local_kv \<Rightarrow> 'a \<times> local_kv) \<Rightarrow> ledger \<Rightarrow> 'a \<times> ledger" where
  "on_db f st = (case f (fst st) of (r, db) \<Rightarrow> (r, (db, snd st)))"

definition ledger_pay_env ::
  "(payment_book \<Rightarrow> bytes) \<Rightarrow> (bytes \<Rightarrow> payment_book option) \<Rightarrow> string \<Rightarrow> string \<Rightarrow> string \<Rightarrow> node_id \<Rightarrow> ledger pay_env" where
  "ledger_pay_env enc dec ns ns_in ns_out us =
     \<lparr>pe_read = \<lambda>st k. on_db (\<lambda>db. local_read db k) st,
      pe_write = \<lambda>st k v. on_db (\<lambda>db. local_write db k v) st,
      pe_remove = \<lambda>st k. on_db (\<lambda>db. local_remove db k) st,
      pe_list = \<lambda>st p s. on_db (\<lambda>db. local_list db p s) st,
      pe_encode = enc, pe_decode = dec, pe_rgb_ns = ns, pe_rgb_inbound_ns = ns_in,
      pe_rgb_outbound_ns = ns_out, pe_our_node_id = us\<rparr>"

definition ledger_rgb_env ::
  "(string \<Rightarrow> bool) \<Rightarrow> (bytes \<Rightarrow> rgb_payment_info option) \<Rightarrow> ledger rgb_env" where
  "ledger_rgb_env known decode =
     \<lparr>re_channel_info = \<lambda>st c. (if known c then Inr () else Inl (Io NotFound), st),
      re_update_amount = \<lambda>st c offered received. Some (fst st, snd st @ [(c, offered, received)]),
      re_decode_info = decode\<rparr>"

text \<open>The bookings that the pending records of a payment in one namespace call for.\<close>

definition pending_channel :: "bytes \<Rightarrow> string \<Rightarrow> string option" where
  "pending_channel h key =
     (let suffix = pending_key h; c = take (length key - length suffix) key
      in if ends_with key suffix \<and> length key > length suffix \<and> length c = 64 then Some c else None)"

definition booking_of ::
  "(string \<Rightarrow> bool) \<Rightarrow> (bytes \<Rightarrow> rgb_payment_info option) \<Rightarrow> bytes \<Rightarrow> bool \<Rightarrow> string \<Rightarrow> bytes \<Rightarrow> booking option" where
  "booking_of known decode h receiver key data =
     (case (pending_channel h key, decode data) of
        (Some c, Some info) \<Rightarrow>
          if rp_swap_payment info \<and> receiver \<noteq> rp_inbound info then None
          else if \<not> known c then None
          else if receiver then Some (c, 0, rp_amount info) else Some (c, rp_amount info, 0)
      | _ \<Rightarrow> None)"

definition rows_in :: "string \<Rightarrow> string \<Rightarrow> kv_rows \<Rightarrow> kv_rows" where
  "rows_in p s rows = filter (\<lambda>((p', s', k), v). p' = p \<and> s' = s) rows"

definition row_due :: "(string \<Rightarrow> bytes \<Rightarrow> booking option) \<Rightarrow> string \<Rightarrow> string \<Rightarrow> kv_key \<times> bytes \<Rightarrow> booking option" where
  "row_due f p s row =
     (if fst (fst row) = p \<and> fst (snd (fst row)) = s then f (snd (snd (fst row))) (snd row) else None)"

definition due :: "(string \<Rightarrow> bytes \<Rightarrow> booking option) \<Rightarrow> string \<Rightarrow> string \<Rightarrow> kv_rows \<Rightarrow> booking list" where
  "due f p s rows = List.map_filter (row_due f p s) rows"


section \<open>Finalizing a payment on a healthy database\<close>

lemma healthy_read:
  "lk_faults db = [] \<Longrightarrow>
   local_read db k = (case map_of (lk_rows db) k of None \<Rightarrow> Inl (Io NotFound) | Some v \<Rightarrow> Inr v, db)"
  by (simp add: local_read_def split: option.splits)

lemma healthy_list:
  "lk_faults db = [] \<Longrightarrow> local_list db p s = (Inr (map (\<lambda>((p, s, k), v). k) (rows_in p s (lk_rows db))), db)"
  by (simp add: local_list_def rows_in_def)

lemma healthy_remove:
  "lk_faults db = [] \<Longrightarrow>
   local_remove db k = (Inr (), db\<lparr>lk_rows := filter (\<lambda>(k', v). k' \<noteq> k) (lk_rows db)\<rparr>)"
  by (simp add: local_remove_def local_exec_healthy exec_stmt.simps)

lemma ledger_fields [simp]:
  "pe_read (ledger_pay_env enc dec ns ns_in ns_out us) st k = on_db (\<lambda>db. local_read db k) st"
  "pe_remove (ledger_pay_env enc dec ns ns_in ns_out us) st k = on_db (\<lambda>db. local_remove db k) st"
  "pe_list (ledger_pay_env enc dec ns ns_in ns_out us) st p s = on_db (\<lambda>db. local_list db p s) st"
  "pe_rgb_ns (ledger_pay_env enc dec ns ns_in ns_out us) = ns"
  "pe_rgb_inbound_ns (ledger_pay_env enc dec ns ns_in ns_out us) = ns_in"
  "pe_rgb_outbound_ns (ledger_pay_env enc dec ns ns_in ns_out us) = ns_out"
  "re_channel_info (ledger_rgb_env known decode) st c = (if known c then Inr () else Inl (Io NotFound), st)"
  "re_update_amount (ledger_rgb_env known decode) st c off recv = Some (fst st, snd st @ [(c, off, recv)])"
  "re_decode_info (ledger_rgb_env known decode) = decode"
  by (simp_all add: ledger_pay_env_def ledger_rgb_env_def)

definition row_booking :: "(string \<Rightarrow> bytes \<Rightarrow> booking option) \<Rightarrow> string \<Rightarrow> string \<Rightarrow> kv_rows \<Rightarrow> string \<Rightarrow> booking option" where
  "row_booking f p s rows key = (case map_of rows (p, s, key) of None \<Rightarrow> None | Some v \<Rightarrow> f key v)"

lemma finalize_keys_step:
  assumes "lk_faults db = []"
  shows "finalize_keys (ledger_pay_env enc dec p ns_in ns_out us) (ledger_rgb_env known decode)
      (pending_key h) receiver s (key # keys) acc (db, log)
    = (case row_booking (booking_of known decode h receiver) p s (lk_rows db) key of
         None \<Rightarrow> finalize_keys (ledger_pay_env enc dec p ns_in ns_out us) (ledger_rgb_env known decode)
           (pending_key h) receiver s keys acc (db, log)
       | Some b \<Rightarrow> finalize_keys (ledger_pay_env enc dec p ns_in ns_out us) (ledger_rgb_env known decode)
           (pending_key h) receiver s keys (acc @ [key]) (db, log @ [b]))"
proof (cases "pending_channel h key")
  case None
  then have "\<not> ends_with key (pending_key h) \<or> length key \<le> length (pending_key h)
      \<or> length (take (length key - length (pending_key h)) key) \<noteq> 64"
    unfolding pending_channel_def Let_def by (metis not_le option.distinct(1))
  then have "finalize_keys (ledger_pay_env enc dec p ns_in ns_out us) (ledger_rgb_env known decode)
      (pending_key h) receiver s (key # keys) acc (db, log) = finalize_keys (ledger_pay_env enc dec p ns_in ns_out us)
        (ledger_rgb_env known decode) (pending_key h) receiver s keys acc (db, log)"
    unfolding finalize_keys.simps Let_def by (rule if_P)
  then show ?thesis
    by (simp add: row_booking_def booking_of_def None del: finalize_keys.simps split: option.split)
next
  case (Some c)
  then have c: "\<not> (\<not> ends_with key (pending_key h) \<or> length key \<le> length (pending_key h) \<or> length c \<noteq> 64)"
    "take (length key - length (pending_key h)) key = c"
    by (auto simp: pending_channel_def Let_def split: if_splits)
  show ?thesis
  proof (cases "map_of (lk_rows db) (p, s, key)")
    case None
    then show ?thesis
      unfolding finalize_keys.simps Let_def c(2) if_not_P [OF c(1)]
      using assms by (simp add: on_db_def healthy_read io_result_def row_booking_def)
  next
    case data: (Some data)
    then show ?thesis
      unfolding finalize_keys.simps Let_def c(2) if_not_P [OF c(1)]
      using assms
      by (cases "decode data")
        (simp_all add: on_db_def healthy_read io_result_def row_booking_def booking_of_def Some
          safe_update_rgb_channel_amount_def)
  qed
qed

lemma finalize_keys_healthy:
  assumes "lk_faults db = []"
  shows "finalize_keys (ledger_pay_env enc dec p ns_in ns_out us) (ledger_rgb_env known decode)
      (pending_key h) receiver s keys acc (db, log)
    = Some (Inr (acc @ filter (\<lambda>k. row_booking (booking_of known decode h receiver) p s (lk_rows db) k \<noteq> None) keys),
        (db, log @ List.map_filter (row_booking (booking_of known decode h receiver) p s (lk_rows db)) keys))"
proof (induction keys arbitrary: acc log)
  case Nil
  then show ?case by (simp add: map_filter_simps)
next
  case (Cons key keys)
  show ?case
    unfolding finalize_keys_step [OF assms]
    by (cases "row_booking (booking_of known decode h receiver) p s (lk_rows db) key")
      (simp_all add: Cons.IH map_filter_simps del: not_None_eq)
qed

definition cleared :: "(string \<Rightarrow> bytes \<Rightarrow> booking option) \<Rightarrow> string \<Rightarrow> string \<Rightarrow> kv_rows \<Rightarrow> kv_rows" where
  "cleared f p s rows = filter (\<lambda>row. row_due f p s row = None) rows"

lemma remove_all_healthy:
  assumes "lk_faults db = []"
  shows "remove_all (ledger_pay_env enc dec p ns_in ns_out us) s keys (db, log)
    = Some (db\<lparr>lk_rows := filter (\<lambda>row. fst row \<notin> (\<lambda>k. (p, s, k)) ` set keys) (lk_rows db)\<rparr>, log)"
  using assms
proof (induction keys arbitrary: db)
  case Nil
  then show ?case by simp
next
  case (Cons key keys)
  have "filter (\<lambda>row. fst row \<notin> (\<lambda>k. (p, s, k)) ` set keys) (filter (\<lambda>(k', v). k' \<noteq> (p, s, key)) (lk_rows db))
      = filter (\<lambda>row. fst row \<notin> (\<lambda>k. (p, s, k)) ` set (key # keys)) (lk_rows db)"
    by (rule trans [OF filter_filter filter_cong]) auto
  then show ?case
    using Cons.IH [of "db\<lparr>lk_rows := filter (\<lambda>(k', v). k' \<noteq> (p, s, key)) (lk_rows db)\<rparr>"] Cons.prems
    by (simp add: on_db_def healthy_remove drop_result_def)
qed

lemma row_booking_rows:
  assumes "distinct (map fst rows)" and "((p, s, k), v) \<in> set rows"
  shows "row_booking f p s rows k = f k v"
  using assms by (simp add: row_booking_def)

lemma listed_due:
  assumes "distinct (map fst rows)"
  shows "List.map_filter (row_booking f p s rows) (map (\<lambda>((p, s, k), v). k) (rows_in p s rows)) = due f p s rows"
proof -
  have "List.map_filter (row_booking f p s rows) (map (\<lambda>((p, s, k), v). k) (rows_in p s xs)) = due f p s xs"
    if "set xs \<subseteq> set rows" for xs
    using that
    by (induction xs)
      (auto simp: map_filter_simps rows_in_def due_def row_due_def row_booking_rows [OF assms] split: option.split)
  then show ?thesis
    by simp
qed

lemma cleared_listed:
  assumes "distinct (map fst rows)"
  shows "filter (\<lambda>row. fst row \<notin> (\<lambda>k. (p, s, k)) ` set (filter (\<lambda>k. row_booking f p s rows k \<noteq> None)
      (map (\<lambda>((p, s, k), v). k) (rows_in p s rows)))) rows = cleared f p s rows"
proof -
  have listed: "k \<in> set (map (\<lambda>((p, s, k), v). k) (rows_in p s rows))" if "((p, s, k), v) \<in> set rows" for k v
    using that by (force simp: rows_in_def image_iff)
  show ?thesis
    unfolding cleared_def
  proof (rule filter_cong [OF refl])
    fix row assume row: "row \<in> set rows"
    obtain p' s' k v where rw: "row = ((p', s', k), v)"
      by (metis surj_pair)
    show "(fst row \<notin> (\<lambda>k. (p, s, k)) ` set (filter (\<lambda>k. row_booking f p s rows k \<noteq> None)
      (map (\<lambda>((p, s, k), v). k) (rows_in p s rows)))) = (row_due f p s row = None)"
      using listed [of k v] row_booking_rows [OF assms, of p s k v f] row
      unfolding set_filter rw row_due_def by (auto simp del: not_None_eq set_map)
  qed
qed

lemma row_due_one: "row_due f p s row = Some x \<Longrightarrow> s \<noteq> s' \<Longrightarrow> row_due f p s' row = None"
  by (auto simp: row_due_def split: if_splits)

lemma due_cleared:
  "due f p s (cleared f p s rows) = []"
  "s \<noteq> s' \<Longrightarrow> due f p s (cleared f p s' rows) = due f p s rows"
proof -
  show "due f p s (cleared f p s rows) = []"
    by (induction rows) (auto simp: due_def cleared_def map_filter_simps)
  show "s \<noteq> s' \<Longrightarrow> due f p s (cleared f p s' rows) = due f p s rows"
  proof (induction rows)
    case (Cons row rows)
    then show ?case
      by (cases "row_due f p s row")
        (auto simp: due_def cleared_def map_filter_simps dest: row_due_one [of f p s row _ s'])
  qed (simp add: cleared_def)
qed

lemma distinct_cleared: "distinct (map fst rows) \<Longrightarrow> distinct (map fst (cleared f p s rows))"
  by (simp add: cleared_def distinct_map_filter)

lemma map_filter_Nil_iff: "List.map_filter g xs = [] \<longleftrightarrow> filter (\<lambda>k. g k \<noteq> None) xs = []"
  by (induction xs) (auto simp: map_filter_simps split: option.split)

lemma finalize_namespace_healthy:
  assumes "lk_faults db = []" and "distinct (map fst (lk_rows db))"
    and "e = ledger_pay_env enc dec p ns_in ns_out us" and "r = ledger_rgb_env known decode"
    and "f = booking_of known decode h receiver" and "s = rgb_payment_ns e inbound"
  shows "finalize_namespaces e r (pending_key h) receiver (inbound # rest) applied (db, log)
    = finalize_namespaces e r (pending_key h) receiver rest (applied \<or> due f p s (lk_rows db) \<noteq> [])
        (db\<lparr>lk_rows := cleared f p s (lk_rows db)\<rparr>, log @ due f p s (lk_rows db))"
proof -
  let ?keys = "map (\<lambda>((p, s, k), v). k) (rows_in p s (lk_rows db))"
  have l: "pe_list e (db, log) p s = (Inr ?keys, (db, log))"
    using assms(1) by (simp add: assms(3) on_db_def healthy_list)
  have k: "finalize_keys e r (pending_key h) receiver s ?keys [] (db, log)
      = Some (Inr (filter (\<lambda>k. row_booking f p s (lk_rows db) k \<noteq> None) ?keys), (db, log @ due f p s (lk_rows db)))"
    using finalize_keys_healthy [OF assms(1)] listed_due [OF assms(2)] unfolding assms(3-5) by simp
  have rm: "remove_all e s (filter (\<lambda>k. row_booking f p s (lk_rows db) k \<noteq> None) ?keys) (db, lg)
      = Some (db\<lparr>lk_rows := cleared f p s (lk_rows db)\<rparr>, lg)" for lg
    unfolding assms(3) remove_all_healthy [OF assms(1)] cleared_listed [OF assms(2)] ..
  have ne: "filter (\<lambda>k. row_booking f p s (lk_rows db) k \<noteq> None) ?keys \<noteq> [] \<longleftrightarrow> due f p s (lk_rows db) \<noteq> []"
    unfolding listed_due [OF assms(2), symmetric] map_filter_Nil_iff ..
  have p: "pe_rgb_ns e = p"
    by (simp add: assms(3))
  show ?thesis
    unfolding finalize_namespaces.simps Let_def assms(6) [symmetric] p l io_result_def prod.case sum.case
      option.case k rm ne ..
qed

lemma map_filter_skip:
  "(\<And>x. \<not> P x \<Longrightarrow> g x = None) \<Longrightarrow> List.map_filter g (filter P xs) = List.map_filter g xs"
  by (induction xs) (auto simp: map_filter_simps split: option.split)

lemma due_remove:
  assumes "\<And>v. f k v = None"
  shows "due f p s (filter (\<lambda>(k', v). k' \<noteq> (p, s', k)) rows) = due f p s rows"
  unfolding due_def by (rule map_filter_skip) (auto simp: row_due_def assms)

lemma cleared_nothing_due: "due f p s rows = [] \<Longrightarrow> cleared f p s rows = rows"
  by (induction rows) (auto simp: due_def cleared_def map_filter_simps split: option.splits)

lemma raw_pending_not_due: "booking_of known decode h receiver (pending_key h) v = None"
  by (simp add: booking_of_def pending_channel_def)

lemma drop_raw_pending_healthy:
  assumes "lk_faults db = []" and "e = ledger_pay_env enc dec p ns_in ns_out us"
    and "f = booking_of known decode h receiver" and "distinct (map fst (lk_rows db))"
  shows "\<exists>db'. drop_raw_pending e (pending_key h) nss (db, log) = Some (Inr (), (db', log))
    \<and> lk_faults db' = [] \<and> distinct (map fst (lk_rows db')) \<and> (\<forall>s. due f p s (lk_rows db') = due f p s (lk_rows db))"
  using assms(1,4)
proof (induction nss arbitrary: db)
  case Nil
  then show ?case by simp
next
  case (Cons ns nss)
  let ?keys = "map (\<lambda>((p, s, k), v). k) (rows_in p ns (lk_rows db))"
  let ?db = "db\<lparr>lk_rows := filter (\<lambda>(k', v). k' \<noteq> (p, ns, pending_key h)) (lk_rows db)\<rparr>"
  have l: "pe_list e (db, log) (pe_rgb_ns e) ns = (Inr ?keys, (db, log))"
    and rm: "pe_remove e (db, log) (pe_rgb_ns e, ns, pending_key h) = (Inr (), (?db, log))"
    using Cons.prems by (simp_all add: assms(2) on_db_def healthy_list healthy_remove)
  have d: "due f p s (lk_rows ?db) = due f p s (lk_rows db)" for s
    using due_remove [of f "pending_key h"] raw_pending_not_due by (simp add: assms(3))
  show ?case
    using Cons.IH [OF Cons.prems] Cons.IH [of ?db] Cons.prems d
    by (simp add: l rm io_result_def drop_result_def distinct_map_filter)
qed

lemma finalize_both_healthy:
  assumes "lk_faults db = []" and "distinct (map fst (lk_rows db))" and "ns_in \<noteq> ns_out"
    and "e = ledger_pay_env enc dec p ns_in ns_out us" and "r = ledger_rgb_env known decode"
    and "f = booking_of known decode h receiver"
  shows "finalize_namespaces e r (pending_key h) receiver [True, False] False (db, log)
    = Some (Inr (due f p ns_in (lk_rows db) \<noteq> [] \<or> due f p ns_out (lk_rows db) \<noteq> []),
        (db\<lparr>lk_rows := cleared f p ns_out (cleared f p ns_in (lk_rows db))\<rparr>,
         log @ due f p ns_in (lk_rows db) @ due f p ns_out (lk_rows db)))"
proof -
  have ns: "ns_in = rgb_payment_ns e True" "ns_out = rgb_payment_ns e False"
    by (simp_all add: rgb_payment_ns_def assms(4))
  let ?db1 = "db\<lparr>lk_rows := cleared f p ns_in (lk_rows db)\<rparr>"
  note one = finalize_namespace_healthy [OF assms(1,2,4-6) ns(1)]
  have "lk_faults ?db1 = []" "distinct (map fst (lk_rows ?db1))"
    using assms(1,2) by (simp_all add: distinct_cleared)
  note two = finalize_namespace_healthy [OF this assms(4-6) ns(2)]
  show ?thesis
    unfolding one two using assms(3) by (simp add: due_cleared)
qed

lemma finalize_healthy:
  assumes "lk_faults db = []" and "distinct (map fst (lk_rows db))" and "ns_in \<noteq> ns_out"
    and "e = ledger_pay_env enc dec p ns_in ns_out us" and "r = ledger_rgb_env known decode"
    and "f = booking_of known decode h receiver"
  shows "\<exists>db'. finalize_rgb_channel_payment e r h receiver (db, log)
      = Some (Inr (), (db', log @ due f p ns_in (lk_rows db) @ due f p ns_out (lk_rows db)))
    \<and> lk_faults db' = []
    \<and> (\<forall>log'. finalize_rgb_channel_payment e r h receiver (db', log') = Some (Inr (), (db', log')))"
proof -
  note run = finalize_both_healthy [OF _ _ assms(3-6)]
  define db1 where "db1 = db\<lparr>lk_rows := cleared f p ns_out (cleared f p ns_in (lk_rows db))\<rparr>"
  have db1: "lk_faults db1 = []" "distinct (map fst (lk_rows db1))"
    "due f p ns_in (lk_rows db1) = []" "due f p ns_out (lk_rows db1) = []"
    using assms(1-3) by (simp_all add: db1_def distinct_cleared due_cleared)
  let ?any = "due f p ns_in (lk_rows db) \<noteq> [] \<or> due f p ns_out (lk_rows db) \<noteq> []"
  let ?log = "log @ due f p ns_in (lk_rows db) @ due f p ns_out (lk_rows db)"
  have e: "pe_rgb_inbound_ns e = ns_in" "pe_rgb_outbound_ns e = ns_out"
    by (simp_all add: assms(4))
  obtain db2 where db2: "drop_raw_pending e (pending_key h) [ns_in, ns_out] (db1, ?log) = Some (Inr (), (db2, ?log))"
    "lk_faults db2 = []" "distinct (map fst (lk_rows db2))" "\<forall>s. due f p s (lk_rows db2) = due f p s (lk_rows db1)"
    using drop_raw_pending_healthy [OF db1(1) assms(4,6) db1(2)] by blast
  let ?db' = "if ?any then db2 else db1"
  have first: "finalize_rgb_channel_payment e r h receiver (db, log) = Some (Inr (), (?db', ?log))"
    unfolding finalize_rgb_channel_payment_def Let_def run [OF assms(1,2)] db1_def [symmetric] e
    using db2(1) by simp
  have ok: "lk_faults ?db' = []" "distinct (map fst (lk_rows ?db'))"
    and none: "due f p ns_in (lk_rows ?db') = []" "due f p ns_out (lk_rows ?db') = []"
    using db1 db2 by simp_all
  have "finalize_rgb_channel_payment e r h receiver (?db', log') = Some (Inr (), (?db', log'))" for log'
    unfolding finalize_rgb_channel_payment_def Let_def run [OF ok]
    using none by (simp add: cleared_nothing_due)
  with first ok(1) show ?thesis
    by blast
qed

text \<open>C24. On a working database, finalizing a payment books on every known channel exactly what the
  payment's pending records call for, and takes those records away: finalizing it again books
  nothing.\<close>

theorem finalize_books_once:
  assumes "lk_faults db = []" and "distinct (map fst (lk_rows db))" and "ns_in \<noteq> ns_out"
    and "e = ledger_pay_env enc dec p ns_in ns_out us" and "r = ledger_rgb_env known decode"
    and "f = booking_of known decode h receiver"
  shows "\<exists>db'. finalize_rgb_channel_payment e r h receiver (db, log)
      = Some (Inr (), (db', log @ due f p ns_in (lk_rows db) @ due f p ns_out (lk_rows db)))
    \<and> (\<forall>log'. finalize_rgb_channel_payment e r h receiver (db', log') = Some (Inr (), (db', log')))"
  using finalize_healthy [OF assms] by blast

lemma pending_channel_append: "length c = 64 \<Longrightarrow> pending_channel h (c @ pending_key h) = Some c"
  by (simp add: pending_channel_def ends_with_def)

definition demo_info :: "bytes \<Rightarrow> rgb_payment_info option" where
  "demo_info d = (if d = [] then None else Some \<lparr>rp_amount = ucast (hd d), rp_inbound = True, rp_swap_payment = False\<rparr>)"

theorem finalize_books_once_witness:
  "\<exists>db'. finalize_rgb_channel_payment (ledger_pay_env (\<lambda>b. []) (\<lambda>b. None) ''rgb'' ''in'' ''out'' [])
      (ledger_rgb_env (\<lambda>c. True) demo_info) [7] True
      (\<lparr>lk_rows = [((''rgb'', ''in'', replicate 64 CHR ''a'' @ pending_key [7]), [5])], lk_faults = []\<rparr>, [])
    = Some (Inr (), (db', [(replicate 64 CHR ''a'', 0, 5)]))"
proof -
  let ?f = "booking_of (\<lambda>c. True) demo_info [7] True"
  have f: "?f (replicate 64 CHR ''a'' @ pending_key [7]) [5] = Some (replicate 64 CHR ''a'', 0, 5)"
    by (simp add: booking_of_def pending_channel_append demo_info_def)
  show ?thesis
    using finalize_books_once [of "\<lparr>lk_rows = [((''rgb'', ''in'', replicate 64 CHR ''a'' @ pending_key [7]), [5])], lk_faults = []\<rparr>"
      "''in''" "''out''" _ "\<lambda>b. []" "\<lambda>b. None" "''rgb''" "[]" _ "\<lambda>c. True" demo_info ?f "[7]" True "[]"] f
    by (fastforce simp: due_def row_due_def map_filter_simps)
qed


section \<open>Replayed events\<close>

text \<open>A database that answers the listing and the first record, and fails on the second.\<close>

lemma finalize_interrupted:
  assumes rows: "lk_rows db = [((p, ns_in, c1 @ pending_key h), d1), ((p, ns_in, c2 @ pending_key h), d2)]"
    and faults: "lk_faults db = [False, False, True]"
    and c: "length c1 = 64" "length c2 = 64" "c1 \<noteq> c2" and known: "known c1"
    and d1: "decode d1 = Some info" "\<not> rp_swap_payment info"
  shows "finalize_rgb_channel_payment (ledger_pay_env enc dec p ns_in ns_out us) (ledger_rgb_env known decode) h True (db, log)
    = Some (Inl Other, (db\<lparr>lk_faults := []\<rparr>, log @ [(c1, 0, rp_amount info)]))"
proof -
  have key: "ends_with (x @ pending_key h) (pending_key h)" "x @ pending_key h \<noteq> y @ pending_key h \<longleftrightarrow> x \<noteq> y" for x y
    by (simp_all add: ends_with_def)
  show ?thesis
    using c known d1
    by (simp add: finalize_rgb_channel_payment_def rgb_payment_ns_def on_db_def local_list_def local_read_def
        db_step_def rows faults io_result_def key safe_update_rgb_channel_amount_def Let_def)
qed

text \<open>C36. When reading one of a payment's pending records fails after another was booked, the claimed
  event is to be replayed, the record already booked is still pending, and the replay books it a second
  time.\<close>

theorem interrupted_claim_books_twice:
  assumes "lk_rows db = [((p, ns_in, c1 @ pending_key h), d1), ((p, ns_in, c2 @ pending_key h), d2)]"
    and "lk_faults db = [False, False, True]"
    and "length c1 = 64" "length c2 = 64" "c1 \<noteq> c2" and "known c1" "known c2"
    and "decode d1 = Some i1" "\<not> rp_swap_payment i1" "decode d2 = Some i2" "\<not> rp_swap_payment i2"
    and "ns_in \<noteq> ns_out" and "ev_pay v = ledger_pay_env enc dec p ns_in ns_out us"
    and "ev_rgb v = ledger_rgb_env known decode"
    and "pb_kv (nd_pay nd) = (db, log)" and "map_of (nd_maker nd) h = None" and "\<not> already_claimed h nd"
  shows "\<exists>nd1 nd2. payment_claimed se v now h purpose amt (Some payee) nd = Some (ReplayEvent, nd1)
    \<and> payment_claimed se v now2 h purpose amt (Some payee) nd1 = Some (Handled, nd2)
    \<and> snd (pb_kv (nd_pay nd2)) =
        log @ [(c1, 0, rp_amount i1), (c1, 0, rp_amount i1), (c2, 0, rp_amount i2)]"
proof -
  let ?db1 = "db\<lparr>lk_faults := []\<rparr>" and ?log1 = "log @ [(c1, 0, rp_amount i1)]"
  let ?nd1 = "put_kv nd (?db1, ?log1)" and ?f = "booking_of known decode h True"
  have first: "payment_claimed se v now h purpose amt (Some payee) nd = Some (ReplayEvent, ?nd1)"
    using finalize_interrupted [of db p ns_in c1 h d1 c2 d2 known decode i1, OF assms(1-6,8,9)] assms(13-15,17) by (simp add: payment_claimed_def)
  have due: "due ?f p ns_in (lk_rows ?db1) = [(c1, 0, rp_amount i1), (c2, 0, rp_amount i2)]"
    "due ?f p ns_out (lk_rows ?db1) = []"
    using assms(1,3,4,6-12)
    by (simp_all add: due_def row_due_def map_filter_simps booking_of_def pending_channel_append)
  obtain db2 where fin: "finalize_rgb_channel_payment (ev_pay v) (ev_rgb v) h True (?db1, ?log1)
      = Some (Inr (), (db2, ?log1 @ [(c1, 0, rp_amount i1), (c2, 0, rp_amount i2)]))" and db2: "lk_faults db2 = []"
    using finalize_healthy [of ?db1 ns_in ns_out, OF _ _ assms(12,13,14) refl, of h True ?log1] due assms(1,5)
    by auto
  have w: "pe_write (ev_pay v) (db2, lg) k b = (Inr (), (db2\<lparr>lk_rows := exec_stmt (Upsert k b) (lk_rows db2)\<rparr>, lg))" for lg k b
    using db2 assms(13) by (simp add: ledger_pay_env_def on_db_def local_write_def local_exec_healthy)
  have na: "\<not> already_claimed h ?nd1" and nm: "\<not> is_maker_swap h (swaps_of ?nd1)"
    using assms(16,17) by (auto simp: already_claimed_def is_maker_swap_def swaps_of_def put_kv_def)
  have "\<exists>nd2. payment_claimed se v now2 h purpose amt (Some payee) ?nd1 = Some (Handled, nd2)
      \<and> snd (pb_kv (nd_pay nd2)) = ?log1 @ [(c1, 0, rp_amount i1), (c2, 0, rp_amount i2)]"
    using na nm fin
    by (auto simp: payment_claimed_def upsert_inbound_payment_def save_inbound_payments_def w Let_def
        split: option.split prod.split)
  then show ?thesis
    using first by auto
qed

definition demo_event_env :: "ledger event_env" where
  "demo_event_env =
     \<lparr>ev_pay = ledger_pay_env (\<lambda>b. []) (\<lambda>b. None) ''rgb'' ''in'' ''out'' [],
      ev_rgb = ledger_rgb_env (\<lambda>c. True) demo_info, ev_sha256 = (\<lambda>b. b),
      ev_external_signer_mode = False, ev_external_signer = None\<rparr>"

definition demo_node :: "local_kv \<Rightarrow> payment_book \<Rightarrow> (nat, ledger) node_state" where
  "demo_node db inb =
     \<lparr>nd_pay = \<lparr>pb_inbound = inb, pb_outbound = [], pb_next_idx = 1, pb_kv = (db, []), pb_calls = []\<rparr>,
      nd_maker = [], nd_taker = [], nd_notices = []\<rparr>"

definition demo_channel :: "char \<Rightarrow> string" where
  "demo_channel c = replicate 64 c"

definition demo_db :: "bool list \<Rightarrow> local_kv" where
  "demo_db faults =
     \<lparr>lk_rows = [((''rgb'', ''in'', demo_channel CHR ''a'' @ pending_key [7]), [5]),
        ((''rgb'', ''in'', demo_channel CHR ''b'' @ pending_key [7]), [6])], lk_faults = faults\<rparr>"

lemma demo_channel_simps: "length (demo_channel c) = 64" "demo_channel c = demo_channel d \<longleftrightarrow> c = d"
  by (simp_all add: demo_channel_def)

theorem interrupted_claim_books_twice_witness:
  "\<exists>nd1 nd2. payment_claimed \<lparr>se_write = (\<lambda>st k v. (Inr (), st)), se_encode = (\<lambda>m. []), se_decode = (\<lambda>b. None)\<rparr>
      demo_event_env 3 [7] (SpontaneousPayment [9]) 1000 (Some [2]) (demo_node (demo_db [False, False, True]) [])
      = Some (ReplayEvent, nd1)
    \<and> payment_claimed \<lparr>se_write = (\<lambda>st k v. (Inr (), st)), se_encode = (\<lambda>m. []), se_decode = (\<lambda>b. None)\<rparr>
      demo_event_env 4 [7] (SpontaneousPayment [9]) 1000 (Some [2]) nd1 = Some (Handled, nd2)
    \<and> snd (pb_kv (nd_pay nd2)) =
        [(demo_channel CHR ''a'', 0, 5), (demo_channel CHR ''a'', 0, 5), (demo_channel CHR ''b'', 0, 6)]"
  using interrupted_claim_books_twice [of "demo_db [False, False, True]"
      "''rgb''" "''in''" "demo_channel CHR ''a''" "[7]" "[5]" "demo_channel CHR ''b''" "[6]" "\<lambda>c. True" demo_info
      "\<lparr>rp_amount = 5, rp_inbound = True, rp_swap_payment = False\<rparr>"
      "\<lparr>rp_amount = 6, rp_inbound = True, rp_swap_payment = False\<rparr>" "''out''" demo_event_env "\<lambda>b. []" "\<lambda>b. None" "[]"
      "demo_node (demo_db [False, False, True]) []" "[]"]
  by (simp add: demo_db_def demo_info_def demo_event_env_def demo_node_def already_claimed_def is_maker_swap_def
      swaps_of_def demo_channel_simps)

lemma event_fail_back_calls:
  "fail_back e now h nd = Some (r, nd') \<Longrightarrow> pb_calls (nd_pay nd') = pb_calls (nd_pay nd) @ [FailHtlcBackwards h]"
  by (auto simp: fail_back_def dest: fail_back_calls)

lemma claim_async_handled:
  assumes "claim_async_recipient v now h p nd = Some (r, nd')"
    and "ClaimFunds pre \<in> set (drop (length (pb_calls (nd_pay nd))) (pb_calls (nd_pay nd')))"
  shows "r = Handled"
  using assms
  by (auto simp: claim_async_recipient_def dest!: event_fail_back_calls split: option.splits if_splits sum.splits)

lemma claim_invoice_due_only:
  assumes "claim_invoice_payment v now now2 ev x secret nd = Some (r, nd')"
    and "ClaimFunds pre \<in> set (drop (length (pb_calls (nd_pay nd))) (pb_calls (nd_pay nd')))"
  shows "r = Handled \<and> (\<exists>p. map_of (pb_inbound (nd_pay nd)) (ce_payment_hash ev) = Some p
        \<and> (\<forall>t. pi_expires_at p = Some t \<longrightarrow> now < t) \<and> (\<forall>a. pi_amt_msat p = Some a \<longrightarrow> a \<le> ce_amount_msat ev)
        \<and> pi_invoice_type p \<noteq> Some (Hodl False))"
  using assms
  by (auto simp: claim_invoice_payment_def Let_def not_le not_less dest!: event_fail_back_calls upsert_calls
      dest: claim_async_handled
      split: option.splits if_splits invoice_type.splits bool.splits)

text \<open>On a claimable payment the node claims only a spontaneous payment with its own preimage, or
  the payment of an invoice it has on its book, not expired, paid in full and not held for a decision
  of the user.\<close>

theorem claimable_claims_due_only:
  assumes "payment_claimable v now now2 ev nd = Some (r, nd')"
    and "ClaimFunds pre \<in> set (drop (length (pb_calls (nd_pay nd))) (pb_calls (nd_pay nd')))"
  shows "r = Handled \<and> (ce_purpose ev = SpontaneousPayment pre
    \<or> (\<exists>p. map_of (pb_inbound (nd_pay nd)) (ce_payment_hash ev) = Some p
        \<and> (\<forall>t. pi_expires_at p = Some t \<longrightarrow> now < t) \<and> (\<forall>a. pi_amt_msat p = Some a \<longrightarrow> a \<le> ce_amount_msat ev)
        \<and> pi_invoice_type p \<noteq> Some (Hodl False)))"
proof -
  obtain kv where kv: "project_rgb_record (ev_pay v) (hex_str (ce_payment_hash ev)) (ce_receiving_channel_ids ev)
      (pb_kv (nd_pay nd)) = Some kv"
    using assms(1) by (auto simp: payment_claimable_def split: option.splits)
  have inv: "?thesis" if "claim_invoice_payment v now now2 ev x secret (put_kv nd kv) = Some (r, nd')" for x secret
    using claim_invoice_due_only [OF that] assms(2) by simp
  show ?thesis
  proof (cases "ce_purpose ev")
    case (SpontaneousPayment x)
    then show ?thesis
      using assms kv by (auto simp: payment_claimable_def)
  qed (use assms(1) kv inv in \<open>simp_all add: payment_claimable_def\<close>)
qed

definition demo_invoice :: payment_info where
  "demo_invoice =
     \<lparr>pi_preimage = None, pi_secret = None, pi_status = Pending, pi_amt_msat = Some 1000, pi_created_at = 1,
      pi_updated_at = 1, pi_payee_pubkey = [2], pi_expires_at = Some 100, pi_claim_deadline_height = None,
      pi_invoice_type = Some AutoClaim, pi_description = None, pi_description_hash = None,
      pi_payment_idx = None, pi_async_hash_index = None, pi_async_host_node_id = None\<rparr>"

definition demo_claimable :: claimable_event where
  "demo_claimable =
     \<lparr>ce_payment_hash = [7], ce_purpose = Bolt11InvoicePayment (Some [9]) [3], ce_amount_msat = 1200,
      ce_claim_deadline = None, ce_receiving_channel_ids = []\<rparr>"

theorem claimable_claims_due_only_witness:
  "\<exists>r nd'. payment_claimable demo_event_env 50 51 demo_claimable (demo_node (demo_db []) [([7], demo_invoice)]) = Some (r, nd')
    \<and> pb_calls (nd_pay nd') = [ClaimFunds [9]] \<and> r = Handled"
proof -
  let ?nd = "demo_node (demo_db []) [([7], demo_invoice)]"
  let ?nd' = "claim_funds [9] (put_kv ?nd (pb_kv (nd_pay ?nd)))"
  have step: "payment_claimable demo_event_env 50 51 demo_claimable ?nd = Some (Handled, ?nd')"
    by (simp add: payment_claimable_def demo_claimable_def claim_invoice_payment_def demo_node_def demo_invoice_def put_kv_def)
  have calls: "pb_calls (nd_pay ?nd') = [ClaimFunds [9]]" "pb_calls (nd_pay ?nd) = []"
    by (simp_all add: demo_node_def)
  show ?thesis
    using claimable_claims_due_only [OF step, of "[9]"] step calls by auto
qed

end
