(* ===== verification/Invoice_Provider.thy ===== *)
theory Invoice_Provider
  imports Async_Client Payment_Ledger
begin

text \<open>
  The invoice provider of an asynchronous-payment recipient (\<open>AsyncOrderRecipientInvoiceProvider\<close> of
  \<open>src/ldk.rs\<close>), which answers the host's request for an invoice on one of the recipient's hashes, and
  its composition with the claimable event: the invoice settles. The invoice library, the channel list,
  contract ids, the clock and the external signer are parameters.
\<close>

definition ASYNC_ERROR_INVOICE_HASH_MISMATCH :: int where
  "ASYNC_ERROR_INVOICE_HASH_MISMATCH = 1104"

datatype invoice_description = DirectDescription string | HashDescription bytes

record bolt11_invoice =
  bi_text :: string
  bi_payment_secret :: bytes
  bi_description :: invoice_description

definition description_from_invoice :: "bolt11_invoice \<Rightarrow> string option" where
  "description_from_invoice i =
     (case bi_description i of
        DirectDescription d \<Rightarrow> if d = [] then None else Some d
      | _ \<Rightarrow> None)"

definition description_hash_from_invoice :: "bolt11_invoice \<Rightarrow> bytes option" where
  "description_hash_from_invoice i = (case bi_description i of HashDescription h \<Rightarrow> Some h | _ \<Rightarrow> None)"

record bolt11_params =
  bp_amount_msats :: u64
  bp_description_hash :: bytes
  bp_invoice_expiry_delta_secs :: u32
  bp_min_final_cltv_expiry_delta :: u16
  bp_payment_hash :: bytes
  bp_contract_id :: "string option"
  bp_asset_amount :: "u64 option"

text \<open>The peers of virtual channels, the two minima of the configuration, the parsers, the library's
  invoice constructor, the signer in external mode (host, first index, count) and three readings of the
  clock; SHA-256 with the derivation of preimages as in \<^const>\<open>derive_hash_material\<close>.\<close>

record 'x provider_ctx =
  pc_virtual_peers :: "node_id list"
  pc_virtual_htlc_min_msat :: u64
  pc_htlc_min_msat :: u64
  pc_contract_from_str :: "string \<Rightarrow> string option"
  pc_sha256_from_str :: "string \<Rightarrow> bytes option"
  pc_create_bolt11_invoice :: "bolt11_params \<Rightarrow> string + bolt11_invoice"
  pc_external_signer_mode :: bool
  pc_external_signer :: "(string \<Rightarrow> u64 \<Rightarrow> nat \<Rightarrow> string + string list) option"
  pc_sha256 :: "bytes \<Rightarrow> bytes"
  pc_bip32 :: "'x bip32"
  pc_account_xprv :: 'x
  pc_checked_at :: u64
  pc_created_at :: u64
  pc_io_text :: "io_kind \<Rightarrow> string"

definition hash_mismatch :: rpc_error where
  "hash_mismatch = application_error ASYNC_ERROR_INVOICE_HASH_MISMATCH ''invoice_hash_mismatch''"

definition stale_flow_error :: rpc_error where
  "stale_flow_error = application_error ASYNC_ERROR_STALE_FLOW ''stale_flow''"

definition requested_asset ::
  "'x provider_ctx \<Rightarrow> request_invoice_params \<Rightarrow> rpc_error + (string option \<times> u64 option)" where
  "requested_asset c p =
     (case (ri_asset_id p, ri_asset_amount p) of
        (Some asset_id, Some amount) \<Rightarrow>
          (case pc_contract_from_str c asset_id of
             None \<Rightarrow> Inl (invalid_params ''invalid_asset_id'')
           | Some contract \<Rightarrow> Inr (Some contract, Some amount))
      | (None, None) \<Rightarrow> Inr (None, None)
      | _ \<Rightarrow> Inl (invalid_params ''incomplete_rgb_info''))"

text \<open>The preimage to store: none in external mode, where the signer derives the hash again.\<close>

definition invoice_preimage ::
  "'x provider_ctx \<Rightarrow> node_id \<Rightarrow> u64 \<Rightarrow> bytes \<Rightarrow> rpc_error + bytes option" where
  "invoice_preimage c sender hash_index requested =
     (if pc_external_signer_mode c then
        (case pc_external_signer c of
           None \<Rightarrow> Inl (internal_error ''async_order_external_signer_unavailable'')
         | Some signer \<Rightarrow>
             (case signer (hex_str sender) hash_index 1 of
                Inl err \<Rightarrow> Inl (internal_error (''async_order_signer_derive_failed: '' @ err))
              | Inr derived \<Rightarrow>
                  (case (case derived of [] \<Rightarrow> Inl InvalidPaymentPreimage | x # _ \<Rightarrow> validate_and_parse_payment_hash x) of
                     Inl _ \<Rightarrow> Inl (internal_error ''async_order_external_signer_derived_hash_error'')
                   | Inr h \<Rightarrow> if h \<noteq> requested then Inl hash_mismatch else Inr None)))
      else case derive_hash_material (pc_sha256 c) (pc_bip32 c) (pc_account_xprv c) hash_index of
        Inl err \<Rightarrow> Inl err
      | Inr material \<Rightarrow>
          if hm_payment_hash material \<noteq> requested then Inl hash_mismatch
          else Inr (Some (hm_payment_preimage material)))"

definition reusable :: "u64 \<Rightarrow> payment_info \<Rightarrow> bool" where
  "reusable now p \<longleftrightarrow>
     pi_status p = Failed \<or> pi_status p = Cancelled
     \<or> (pi_status p = Pending \<and> (case pi_expires_at p of None \<Rightarrow> False | Some t \<Rightarrow> now \<ge> t))"

definition invoice_entry ::
  "'x provider_ctx \<Rightarrow> node_id \<Rightarrow> node_id \<Rightarrow> u64 \<Rightarrow> request_invoice_params \<Rightarrow> bytes option \<Rightarrow> bolt11_invoice
     \<Rightarrow> payment_info" where
  "invoice_entry c us sender hash_index p preimage invoice =
     \<lparr>pi_preimage = preimage, pi_secret = Some (bi_payment_secret invoice), pi_status = Pending,
      pi_amt_msat = Some (ri_amount_msat p), pi_created_at = pc_created_at c, pi_updated_at = pc_created_at c,
      pi_payee_pubkey = us, pi_expires_at = Some (pc_created_at c + ucast (ri_invoice_expiry_sec p)),
      pi_claim_deadline_height = None, pi_invoice_type = Some (Hodl True),
      pi_description = description_from_invoice invoice,
      pi_description_hash = description_hash_from_invoice invoice, pi_payment_idx = None,
      pi_async_hash_index = (if pc_external_signer_mode c then Some hash_index else None),
      pi_async_host_node_id = (if pc_external_signer_mode c then Some sender else None)\<rparr>"

text \<open>The part under the lock of the inbound book.\<close>

definition issue_invoice ::
  "'x provider_ctx \<Rightarrow> 'st pay_env \<Rightarrow> node_id \<Rightarrow> u64 \<Rightarrow> request_invoice_params \<Rightarrow> bytes \<Rightarrow> string option \<times> u64 option
     \<Rightarrow> bytes option \<Rightarrow> 'st pay_state \<Rightarrow> ((rpc_error + invoice_result_wire) \<times> 'st pay_state) option" where
  "issue_invoice c e sender hash_index p h asset preimage st =
     (if (case map_of (pb_inbound st) h of None \<Rightarrow> False | Some x \<Rightarrow> \<not> reusable (pc_checked_at c) x)
        then Some (Inl stale_flow_error, st)
      else case pc_sha256_from_str c (str_trim (ri_description_hash p)) of
        None \<Rightarrow> Some (Inl (invalid_params ''invalid_description_hash''), st)
      | Some dh \<Rightarrow>
          (case pc_create_bolt11_invoice c
                  \<lparr>bp_amount_msats = ri_amount_msat p, bp_description_hash = dh,
                   bp_invoice_expiry_delta_secs = ri_invoice_expiry_sec p,
                   bp_min_final_cltv_expiry_delta = ri_min_final_cltv_expiry_delta p, bp_payment_hash = h,
                   bp_contract_id = fst asset, bp_asset_amount = snd asset\<rparr> of
             Inl err \<Rightarrow> Some (Inl (internal_error (''async_order_request_outbound_invoice_failed: '' @ err)), st)
           | Inr invoice \<Rightarrow>
               (case persist_staged_inbound_payment e (pc_io_text c) h
                       (invoice_entry c (pe_our_node_id e) sender hash_index p preimage invoice) st of
                  None \<Rightarrow> None
                | Some (Inl err, st) \<Rightarrow> Some (Inl err, st)
                | Some (Inr _, st) \<Rightarrow> Some (Inr \<lparr>ir_payment_hash = hex_str h, ir_bolt11 = bi_text invoice\<rparr>, st))))"

definition request_outbound_invoice ::
  "'x provider_ctx \<Rightarrow> 'st pay_env \<Rightarrow> node_id \<Rightarrow> request_invoice_params \<Rightarrow> 'st pay_state
     \<Rightarrow> ((rpc_error + invoice_result_wire) \<times> 'st pay_state) option" where
  "request_outbound_invoice c e sender p st =
     (case parse_u64 (ri_hash_index p) of
        None \<Rightarrow> Some (Inl (invalid_params ''invalid_hash_index''), st)
      | Some hash_index \<Rightarrow>
          (let htlc_min_msat = (if sender \<in> set (pc_virtual_peers c) then pc_virtual_htlc_min_msat c
                                else pc_htlc_min_msat c)
           in if ri_amount_msat p < htlc_min_msat
                then Some (Inl (invalid_params (''amt_msat cannot be less than '' @ show_u64 htlc_min_msat)), st)
              else if ri_asset_amount p = Some 0 then Some (Inl (invalid_params ''invalid_asset_amount''), st)
              else if str_trim (ri_description_hash p) = []
                then Some (Inl (invalid_params ''invalid_description_hash''), st)
              else case requested_asset c p of
                Inl err \<Rightarrow> Some (Inl err, st)
              | Inr asset \<Rightarrow>
                  (case validate_and_parse_payment_hash (ri_payment_hash p) of
                     Inl _ \<Rightarrow> Some (Inl (invalid_params ''async_order_invalid_payment_hash''), st)
                   | Inr h \<Rightarrow>
                       (case invoice_preimage c sender hash_index h of
                          Inl err \<Rightarrow> Some (Inl err, st)
                        | Inr preimage \<Rightarrow> issue_invoice c e sender hash_index p h asset preimage st))))"


section \<open>What an answered request leaves behind\<close>

lemma staged_Inr:
  assumes "persist_staged_inbound_payment e txt h p st = Some (Inr u, st')" and "pi_payment_idx p = None"
  shows "\<exists>n. pb_inbound st' = AList.update h (p\<lparr>pi_payment_idx := n\<rparr>) (pb_inbound st) \<and> pb_calls st' = pb_calls st"
  using assms
  by (auto simp: persist_staged_inbound_payment_def stamp_payment_idx_def Let_def
      split: prod.splits sum.splits failure.splits option.splits)

lemma derived_preimage:
  assumes "invoice_preimage c sender i h = Inr (Some pre)"
  shows "pc_sha256 c pre = h"
  using assms
  by (auto simp: invoice_preimage_def derive_hash_material_def Let_def
      split: if_splits option.splits sum.splits list.splits)

lemma local_preimage:
  assumes "invoice_preimage c sender i h = Inr r" and "\<not> pc_external_signer_mode c"
  shows "\<exists>pre. r = Some pre"
  using assms by (auto simp: invoice_preimage_def split: if_splits sum.splits)

lemma invoice_entry_fields [simp]:
  "pi_payment_idx (invoice_entry c us sender i p preimage invoice) = None"
  "pi_preimage (invoice_entry c us sender i p preimage invoice) = preimage"
  "pi_amt_msat (invoice_entry c us sender i p preimage invoice) = Some (ri_amount_msat p)"
  "pi_expires_at (invoice_entry c us sender i p preimage invoice) =
     Some (pc_created_at c + ucast (ri_invoice_expiry_sec p))"
  "pi_invoice_type (invoice_entry c us sender i p preimage invoice) = Some (Hodl True)"
  by (simp_all add: invoice_entry_def)

lemma issue_invoice_Inr:
  assumes "issue_invoice c e sender i p h asset preimage st = Some (Inr answer, st')"
  shows "(\<forall>old. map_of (pb_inbound st) h = Some old \<longrightarrow> reusable (pc_checked_at c) old)
    \<and> ir_payment_hash answer = hex_str h
    \<and> (\<exists>invoice n. pb_inbound st' = AList.update h
          ((invoice_entry c (pe_our_node_id e) sender i p preimage invoice)\<lparr>pi_payment_idx := n\<rparr>) (pb_inbound st))"
  using assms
  by (auto simp: issue_invoice_def split: if_splits option.splits sum.splits dest!: staged_Inr) blast+

lemma request_invoice_Inr:
  assumes "request_outbound_invoice c e sender p st = Some (Inr answer, st')"
  obtains i h asset preimage where "parse_u64 (ri_hash_index p) = Some i"
    "validate_and_parse_payment_hash (ri_payment_hash p) = Inr h"
    "invoice_preimage c sender i h = Inr preimage"
    "issue_invoice c e sender i p h asset preimage st = Some (Inr answer, st')"
  using assms that
  by (auto simp: request_outbound_invoice_def Let_def split: option.splits if_splits sum.splits)

lemma external_preimage:
  "invoice_preimage c sender i h = Inr r \<Longrightarrow> pc_external_signer_mode c \<Longrightarrow> r = None"
  by (auto simp: invoice_preimage_def split: option.splits sum.splits if_splits)

lemma external_entry:
  "pc_external_signer_mode c \<Longrightarrow>
   pi_async_hash_index (invoice_entry c us sender i p preimage invoice) = Some i
   \<and> pi_async_host_node_id (invoice_entry c us sender i p preimage invoice) = Some sender"
  by (simp add: invoice_entry_def)

text \<open>A payment in time and of the amount reaches the claim of the recipient.\<close>

lemma claimable_reaches_recipient:
  assumes "map_of (pb_inbound (nd_pay nd)) (ce_payment_hash ev) =
      Some ((invoice_entry c us sender i p preimage invoice)\<lparr>pi_payment_idx := n\<rparr>)"
    and "ce_purpose ev = Bolt11InvoicePayment x secret" and "ri_amount_msat p \<le> ce_amount_msat ev"
    and "now < pc_created_at c + ucast (ri_invoice_expiry_sec p)"
    and "project_rgb_record (ev_pay v) (hex_str (ce_payment_hash ev)) (ce_receiving_channel_ids ev)
           (pb_kv (nd_pay nd)) = Some kv"
  shows "payment_claimable v now now2 ev nd = claim_async_recipient v now2 (ce_payment_hash ev)
    ((invoice_entry c us sender i p preimage invoice)\<lparr>pi_payment_idx := n\<rparr>) (put_kv nd kv)"
proof -
  have "\<not> pc_created_at c + ucast (ri_invoice_expiry_sec p) \<le> now" "\<not> ce_amount_msat ev < ri_amount_msat p"
    using assms(3,4) by (simp_all add: not_le not_less)
  then show ?thesis
    using assms(1,2,5) by (simp add: payment_claimable_def claim_invoice_payment_def Let_def)
qed

lemma validated_preimage:
  "validate_and_parse_payment_preimage H x h = Inr pre \<Longrightarrow> H pre = h"
  by (auto simp: validate_and_parse_payment_preimage_def split: option.splits if_splits)

text \<open>C25. What becomes of an invoice the recipient hands out. The request was answered over no
  invoice still in use. Take a payment of at least the amount that arrives before the expiry. A node that holds its own keys claims it with a preimage of that
  hash, without any further action. A node with an external signer asks the signer: it claims with
  the preimage it is given, keeps the payment for a later attempt when the signer does not answer,
  and fails the payment back when the answer does not open the hash.\<close>

theorem async_invoice_settles:
  assumes "request_outbound_invoice c e sender p st = Some (Inr answer, st')"
    and "ev_external_signer_mode v = pc_external_signer_mode c"
    and "pb_inbound (nd_pay nd) = pb_inbound st'"
    and "hex_str (ce_payment_hash ev) = ir_payment_hash answer"
    and "ce_purpose ev = Bolt11InvoicePayment x secret" and "ri_amount_msat p \<le> ce_amount_msat ev"
    and "now < pc_created_at c + ucast (ri_invoice_expiry_sec p)"
    and "project_rgb_record (ev_pay v) (hex_str (ce_payment_hash ev)) (ce_receiving_channel_ids ev)
           (pb_kv (nd_pay nd)) = Some kv"
    and "settles = (\<lambda>H pre. H pre = ce_payment_hash ev \<and>
           (\<exists>nd'. payment_claimable v now now2 ev nd = Some (Handled, nd') \<and> claims (nd_pay nd) (nd_pay nd') pre))"
  shows "(\<forall>old. map_of (pb_inbound st) (ce_payment_hash ev) = Some old \<longrightarrow> reusable (pc_checked_at c) old)
    \<and> (\<exists>i. parse_u64 (ri_hash_index p) = Some i
       \<and> (if \<not> pc_external_signer_mode c then \<exists>pre. settles (pc_sha256 c) pre
          else case ev_external_signer v of
            None \<Rightarrow> payment_claimable v now now2 ev nd = Some (ReplayEvent, put_kv nd kv)
          | Some signer \<Rightarrow>
              (case signer (hex_str sender) i (hex_str (ce_payment_hash ev)) of
                 Inl _ \<Rightarrow> payment_claimable v now now2 ev nd = Some (ReplayEvent, put_kv nd kv)
               | Inr preimage_hex \<Rightarrow>
                   (case validate_and_parse_payment_preimage (ev_sha256 v) preimage_hex (ce_payment_hash ev) of
                      Inr pre \<Rightarrow> settles (ev_sha256 v) pre
                    | Inl _ \<Rightarrow> payment_claimable v now now2 ev nd =
                        fail_back (ev_pay v) now2 (ce_payment_hash ev) (put_kv nd kv)))))"
proof -
  obtain i h asset preimage where i: "parse_u64 (ri_hash_index p) = Some i"
    and pre: "invoice_preimage c sender i h = Inr preimage"
    and issue: "issue_invoice c e sender i p h asset preimage st = Some (Inr answer, st')"
    using request_invoice_Inr [OF assms(1)] by metis
  note ii = issue_invoice_Inr [OF issue]
  have h: "h = ce_payment_hash ev" using ii assms(4) by simp
  obtain invoice n where "pb_inbound (nd_pay nd) = AList.update h
      ((invoice_entry c (pe_our_node_id e) sender i p preimage invoice)\<lparr>pi_payment_idx := n\<rparr>) (pb_inbound st)"
    using ii assms(3) by auto
  then have "map_of (pb_inbound (nd_pay nd)) (ce_payment_hash ev) =
      Some ((invoice_entry c (pe_our_node_id e) sender i p preimage invoice)\<lparr>pi_payment_idx := n\<rparr>)"
    by (simp add: update_conv' h)
  note reach = claimable_reaches_recipient [OF this assms(5-8), of now2]
  have cl: "claims (nd_pay nd) (nd_pay (claim_funds y (put_kv nd kv))) y" for y
    by (simp add: claims_def)
  show ?thesis
  proof (cases "pc_external_signer_mode c")
    case False
    obtain y where y: "preimage = Some y" using local_preimage [OF pre False] by blast
    have "pc_sha256 c y = ce_payment_hash ev" using derived_preimage pre y h by blast
    then show ?thesis
      using False ii h i cl reach y unfolding assms(9) by (auto simp: claim_async_recipient_def)
  next
    case True
    note n = external_preimage [OF pre True]
    show ?thesis
      using True ii h i cl reach n assms(2) validated_preimage
      unfolding assms(9) by (auto simp: claim_async_recipient_def external_entry split: option.splits sum.splits)
  qed
qed

definition demo_provider :: "nat provider_ctx" where
  "demo_provider = \<lparr>pc_virtual_peers = [], pc_virtual_htlc_min_msat = 1, pc_htlc_min_msat = 3,
     pc_contract_from_str = (\<lambda>s. None), pc_sha256_from_str = (\<lambda>s. Some [1]),
     pc_create_bolt11_invoice = (\<lambda>b. Inr \<lparr>bi_text = ''lnbc'', bi_payment_secret = [4], bi_description = HashDescription [1]\<rparr>),
     pc_external_signer_mode = False, pc_external_signer = None, pc_sha256 = (\<lambda>b. demo_hash),
     pc_bip32 = \<lparr>bk_new_master = (\<lambda>n s. Inr 0), bk_into_extended_key = (\<lambda>m. Inl []), bk_derive_priv = (\<lambda>k i. Inr k),
       bk_secret_bytes = (\<lambda>k. [1, 2])\<rparr>,
     pc_account_xprv = 0, pc_checked_at = 10, pc_created_at = 10, pc_io_text = (\<lambda>k. [])\<rparr>"

definition demo_request :: request_invoice_params where
  "demo_request = \<lparr>ri_hash_index = show_u64 1, ri_payment_hash = hex_str demo_hash, ri_amount_msat = 1000, ri_asset_id = None,
     ri_asset_amount = None, ri_description_hash = ''ab'', ri_invoice_expiry_sec = 60, ri_min_final_cltv_expiry_delta = 18\<rparr>"

definition demo_arrival :: claimable_event where
  "demo_arrival = \<lparr>ce_payment_hash = demo_hash, ce_purpose = Bolt11InvoicePayment None [4], ce_amount_msat = 1000,
     ce_claim_deadline = None, ce_receiving_channel_ids = []\<rparr>"

definition node_of :: "unit pay_state \<Rightarrow> (nat, unit) node_state" where
  "node_of p = \<lparr>nd_pay = p, nd_maker = [], nd_taker = [], nd_notices = []\<rparr>"

lemma demo_hash_32: "length demo_hash = 32"
  by (simp add: demo_hash_def)

lemma demo_request_answered:
  "\<exists>st'. request_outbound_invoice demo_provider unit_pay_env [2] demo_request (demo_books [] [] 1)
     = Some (Inr \<lparr>ir_payment_hash = hex_str demo_hash, ir_bolt11 = ''lnbc''\<rparr>, st')"
proof -
  have "derive_hash_material (pc_sha256 demo_provider) (pc_bip32 demo_provider) 0 1
      = Inr \<lparr>hm_hash_index = 1, hm_payment_preimage = demo_hash, hm_payment_hash = demo_hash\<rparr>"
    by (simp add: derive_hash_material_def derive_hardened_child_def demo_provider_def ASYNC_ORDER_FIRST_HASH_INDEX_def
        ASYNC_PAYMENTS_BIP32_MAX_CHILD_INDEX_def Let_def)
  moreover have "str_trim ''ab'' \<noteq> []"
    by (subst str_trim_plain) (auto simp: as_bytes_def)
  ultimately show ?thesis
    by (simp add: request_outbound_invoice_def demo_request_def demo_provider_def requested_asset_def
        validate_hash_hex_str demo_hash_32 invoice_preimage_def issue_invoice_def demo_books_def
        persist_staged_inbound_payment_def stamp_payment_idx_def unit_pay_env_def Let_def)
qed

theorem async_invoice_settles_witness:
  "\<exists>st' pre nd'. request_outbound_invoice demo_provider unit_pay_env [2] demo_request (demo_books [] [] 1)
      = Some (Inr \<lparr>ir_payment_hash = hex_str demo_hash, ir_bolt11 = ''lnbc''\<rparr>, st')
    \<and> payment_claimable unit_event_env 20 21 demo_arrival (node_of st') = Some (Handled, nd')
    \<and> claims st' (nd_pay nd') pre \<and> pc_sha256 demo_provider pre = demo_hash"
proof -
  obtain st' where st': "request_outbound_invoice demo_provider unit_pay_env [2] demo_request (demo_books [] [] 1)
      = Some (Inr \<lparr>ir_payment_hash = hex_str demo_hash, ir_bolt11 = ''lnbc''\<rparr>, st')"
    using demo_request_answered by blast
  show ?thesis
    using async_invoice_settles [OF st' _ _ _ _ _ _ _ refl, of unit_event_env "node_of st'" demo_arrival None "[4]" 20 "pb_kv st'" 21] st'
    by (auto simp: demo_provider_def demo_arrival_def demo_request_def node_of_def unit_event_env_def)
qed

end
