(* ===== verification/Virtual_Channels.thy ===== *)
theory Virtual_Channels
  imports Payment_Events
begin

text \<open>
  Virtual channels (\<open>src/ldk.rs\<close>): drafts reserved by an opening, sessions registered when the
  synthetic funding is accepted, the map of channel ids, the check that a counterparty has nothing at
  stake, the events that end a draft; and the route that closes a channel (\<open>close_channel\<close> of
  \<open>src/routes.rs\<close>). The channel manager, the asset records of the lightning library and the random
  source are parameters; a panic is \<^const>\<open>None\<close>.
\<close>

section \<open>Data\<close>

type_synonym channel_id = bytes
type_synonym outpoint = "bytes \<times> nat"

record virtual_channel_draft =
  vd_created_at :: u64
  vd_peer_id :: node_id
  vd_temporary_channel_id :: channel_id

datatype session_status = Active | AbandonPending | Abandoned

record virtual_channel_session =
  vs_channel_id :: channel_id
  vs_created_at :: u64
  vs_former_temporary_channel_id :: channel_id
  vs_peer_id :: node_id
  vs_status :: session_status
  vs_virtual_funding_txo :: outpoint
  vs_updated_at :: u64

type_synonym draft_store = "(channel_id \<times> virtual_channel_draft) list"
type_synonym session_store = "(channel_id \<times> virtual_channel_session) list"
type_synonym channel_ids_map = "(channel_id \<times> channel_id) list"

record 'st vc_state =
  vc_drafts :: draft_store
  vc_sessions :: session_store
  vc_channel_ids :: channel_ids_map
  vc_kv :: 'st

text \<open>The asset record of a channel.\<close>

datatype asset_schema = Nia | Uda | Cfa | Ifa | Bfa

record rgb_info =
  ri_contract_id :: string
  ri_schema :: asset_schema
  ri_local_rgb_amount :: u64
  ri_remote_rgb_amount :: u64

record 'st vc_env =
  ve_write :: "'st \<Rightarrow> kv_key \<Rightarrow> bytes \<Rightarrow> (failure + unit) \<times> 'st"
  ve_remove :: "'st \<Rightarrow> kv_key \<Rightarrow> (failure + unit) \<times> 'st"
  ve_list :: "'st \<Rightarrow> string \<Rightarrow> string \<Rightarrow> (failure + string list) \<times> 'st"
  ve_encode_drafts :: "draft_store \<Rightarrow> bytes"
  ve_encode_sessions :: "session_store \<Rightarrow> bytes"
  ve_encode_channel_ids :: "channel_ids_map \<Rightarrow> bytes"
  ve_rgb_ns :: string
  ve_rgb_inbound_ns :: string
  ve_rgb_outbound_ns :: string
  ve_read_rgb :: "'st \<Rightarrow> string \<Rightarrow> bool \<Rightarrow> rgb_info option"
  ve_write_rgb :: "'st \<Rightarrow> string \<Rightarrow> rgb_info \<Rightarrow> bool \<Rightarrow> 'st option"
  ve_remove_rgb :: "'st \<Rightarrow> string \<Rightarrow> bool \<Rightarrow> 'st option"

definition CHANNEL_IDS_KEY :: string where
  "CHANNEL_IDS_KEY = ''channel_ids''"

definition VIRTUAL_CHANNEL_DRAFTS_KEY :: string where
  "VIRTUAL_CHANNEL_DRAFTS_KEY = ''virtual_channel_drafts''"

definition VIRTUAL_CHANNEL_SESSIONS_KEY :: string where
  "VIRTUAL_CHANNEL_SESSIONS_KEY = ''virtual_channel_sessions''"

definition contains_virtual_funding_txo :: "outpoint \<Rightarrow> session_store \<Rightarrow> bool" where
  "contains_virtual_funding_txo txo sessions \<longleftrightarrow> list_ex (\<lambda>(c, s). vs_virtual_funding_txo s = txo) sessions"


section \<open>The three stores\<close>

definition vc_save :: "'st vc_env \<Rightarrow> string \<Rightarrow> bytes \<Rightarrow> 'st vc_state \<Rightarrow> 'st vc_state option" where
  "vc_save e key bs st =
     (case ve_write e (vc_kv st) ([], [], key) bs of
        (Inr _, kv) \<Rightarrow> Some (st\<lparr>vc_kv := kv\<rparr>)
      | (Inl _, kv) \<Rightarrow> None)"

definition virtual_channel_draft_store_save :: "'st vc_env \<Rightarrow> 'st vc_state \<Rightarrow> 'st vc_state option" where
  "virtual_channel_draft_store_save e st = vc_save e VIRTUAL_CHANNEL_DRAFTS_KEY (ve_encode_drafts e (vc_drafts st)) st"

definition virtual_channel_session_store_save :: "'st vc_env \<Rightarrow> 'st vc_state \<Rightarrow> 'st vc_state option" where
  "virtual_channel_session_store_save e st =
     vc_save e VIRTUAL_CHANNEL_SESSIONS_KEY (ve_encode_sessions e (vc_sessions st)) st"

definition save_channel_ids_map :: "'st vc_env \<Rightarrow> 'st vc_state \<Rightarrow> 'st vc_state option" where
  "save_channel_ids_map e st = vc_save e CHANNEL_IDS_KEY (ve_encode_channel_ids e (vc_channel_ids st)) st"

definition add_channel_id ::
  "'st vc_env \<Rightarrow> channel_id \<Rightarrow> channel_id \<Rightarrow> 'st vc_state \<Rightarrow> 'st vc_state option" where
  "add_channel_id e former channel st =
     save_channel_ids_map e (st\<lparr>vc_channel_ids := AList.update former channel (vc_channel_ids st)\<rparr>)"

text \<open>The entry removed is the first one the iteration of the map meets.\<close>

definition delete_channel_id ::
  "'st vc_env \<Rightarrow> channel_id \<Rightarrow> 'st vc_state \<Rightarrow> (channel_id option \<times> 'st vc_state) option" where
  "delete_channel_id e channel st =
     (case find (\<lambda>(tmp, c). c = channel) (vc_channel_ids st) of
        Some (tmp, _) \<Rightarrow>
          map_option (Pair (Some tmp))
            (save_channel_ids_map e (st\<lparr>vc_channel_ids := AList.delete tmp (vc_channel_ids st)\<rparr>))
      | None \<Rightarrow> Some (None, st))"

definition id_used :: "channel_ids_map \<Rightarrow> draft_store \<Rightarrow> channel_id \<Rightarrow> bool" where
  "id_used ids drafts c \<longleftrightarrow> map_of ids c \<noteq> None \<or> map_of drafts c \<noteq> None"

text \<open>The loop over random candidates ends only if one is free.\<close>

partial_function (option) pick_temporary_id ::
  "(nat \<Rightarrow> channel_id) \<Rightarrow> channel_ids_map \<Rightarrow> draft_store \<Rightarrow> nat \<Rightarrow> channel_id option" where
  "pick_temporary_id random ids drafts n =
     (if \<not> id_used ids drafts (random n) then Some (random n)
      else pick_temporary_id random ids drafts (Suc n))"

definition virtual_channel_add_intent ::
  "'st vc_env \<Rightarrow> u64 \<Rightarrow> (nat \<Rightarrow> channel_id) \<Rightarrow> node_id \<Rightarrow> channel_id option \<Rightarrow> 'st vc_state
     \<Rightarrow> (api_error + (channel_id \<times> 'st vc_state)) option" where
  "virtual_channel_add_intent e now random peer temporary_channel_id st =
     (let reserve = (\<lambda>tmp. map_option (\<lambda>st. Inr (tmp, st))
            (virtual_channel_draft_store_save e (st\<lparr>vc_drafts := AList.update tmp
               \<lparr>vd_created_at = now, vd_peer_id = peer, vd_temporary_channel_id = tmp\<rparr> (vc_drafts st)\<rparr>)))
      in if list_ex (\<lambda>(c, d). vd_peer_id d = peer) (vc_drafts st)
           then Some (Inl (InvalidRequest ''virtual channel draft already exists for this peer pair''))
         else if list_ex (\<lambda>(c, s). vs_peer_id s = peer) (vc_sessions st)
           then Some (Inl (InvalidRequest ''virtual channel session already exists for this peer pair''))
         else case temporary_channel_id of
           Some tmp \<Rightarrow>
             if id_used (vc_channel_ids st) (vc_drafts st) tmp then Some (Inl TemporaryChannelIdAlreadyUsed)
             else reserve tmp
         | None \<Rightarrow>
             (case pick_temporary_id random (vc_channel_ids st) (vc_drafts st) 0 of
                None \<Rightarrow> None
              | Some tmp \<Rightarrow> reserve tmp))"

definition virtual_channel_draft_delete :: "'st vc_env \<Rightarrow> channel_id \<Rightarrow> 'st vc_state \<Rightarrow> 'st vc_state option" where
  "virtual_channel_draft_delete e tmp st =
     virtual_channel_draft_store_save e (st\<lparr>vc_drafts := AList.delete tmp (vc_drafts st)\<rparr>)"

text \<open>Adding and updating a session are the same insertion.\<close>

definition virtual_channel_session_update ::
  "'st vc_env \<Rightarrow> virtual_channel_session \<Rightarrow> 'st vc_state \<Rightarrow> 'st vc_state option" where
  "virtual_channel_session_update e s st =
     virtual_channel_session_store_save e (st\<lparr>vc_sessions := AList.update (vs_channel_id s) s (vc_sessions st)\<rparr>)"

definition virtual_channel_session_add ::
  "'st vc_env \<Rightarrow> virtual_channel_session \<Rightarrow> 'st vc_state \<Rightarrow> 'st vc_state option" where
  "virtual_channel_session_add e s st =
     virtual_channel_session_store_save e (st\<lparr>vc_sessions := AList.update (vs_channel_id s) s (vc_sessions st)\<rparr>)"

definition virtual_channel_session_update_status ::
  "'st vc_env \<Rightarrow> u64 \<Rightarrow> virtual_channel_session \<Rightarrow> session_status \<Rightarrow> 'st vc_state \<Rightarrow> 'st vc_state option" where
  "virtual_channel_session_update_status e now s status st =
     virtual_channel_session_update e (s\<lparr>vs_status := status, vs_updated_at := now\<rparr>) st"


section \<open>Nothing at stake for the counterparty\<close>

record channel_view =
  cv_channel_id :: channel_id
  cv_trusted_no_broadcast :: bool
  cv_has_inflight_htlcs :: bool
  cv_counterparty_balance_sats_floor :: "u64 option"
  cv_not_shutting_down :: bool

definition starts_with :: "string \<Rightarrow> string \<Rightarrow> bool" where
  "starts_with s prefix \<longleftrightarrow> take (length prefix) s = prefix"

text \<open>A pending payment record of the channel in one of the namespaces.\<close>

fun check_no_artifacts ::
  "'st vc_env \<Rightarrow> string \<Rightarrow> string list \<Rightarrow> 'st \<Rightarrow> ((string + unit) \<times> 'st) option" where
  "check_no_artifacts e channel_id_hex [] kv = Some (Inr (), kv)"
| "check_no_artifacts e channel_id_hex (ns # nss) kv =
     (case io_result (ve_list e kv (ve_rgb_ns e) ns) of
        None \<Rightarrow> None
      | Some (Inl _, kv) \<Rightarrow> Some (Inl ''virtual cleanup could not inspect RGB temp artifacts'', kv)
      | Some (Inr keys, kv) \<Rightarrow>
          if list_ex (\<lambda>key. starts_with key channel_id_hex \<and> length key > length channel_id_hex
                            \<and> ends_with key ''_pending'') keys
          then Some (Inl ''virtual cleanup is blocked while RGB payment temp artifacts remain'', kv)
          else check_no_artifacts e channel_id_hex nss kv)"

definition same_rgb_state :: "rgb_info \<Rightarrow> rgb_info \<Rightarrow> bool" where
  "same_rgb_state a b \<longleftrightarrow>
     ri_contract_id a = ri_contract_id b \<and> ri_schema a = ri_schema b
     \<and> ri_local_rgb_amount a = ri_local_rgb_amount b \<and> ri_remote_rgb_amount a = ri_remote_rgb_amount b"

definition judge_rgb_state :: "rgb_info option \<Rightarrow> rgb_info option \<Rightarrow> string + unit" where
  "judge_rgb_state final pending =
     (case (final, pending) of
        (None, None) \<Rightarrow> Inr ()
      | (Some f, Some p) \<Rightarrow>
          if \<not> same_rgb_state f p
            then Inl ''virtual cleanup is blocked while RGB channel state is still diverged''
          else if ri_remote_rgb_amount f \<noteq> 0
            then Inl (''virtual cleanup is blocked while counterparty RGB balance is '' @ show_u64 (ri_remote_rgb_amount f))
          else Inr ()
      | _ \<Rightarrow> Inl ''virtual cleanup requires both final and pending RGB channel state'')"

definition virtual_channel_ensure_no_client_value ::
  "'st vc_env \<Rightarrow> channel_view \<Rightarrow> 'st \<Rightarrow> ((string + unit) \<times> 'st) option" where
  "virtual_channel_ensure_no_client_value e chan kv =
     (let hex = hex_str (cv_channel_id chan) in
      if cv_has_inflight_htlcs chan
        then Some (Inl ''virtual cleanup is blocked while HTLCs are still in flight'', kv)
      else case check_no_artifacts e hex [ve_rgb_inbound_ns e, ve_rgb_outbound_ns e] kv of
        None \<Rightarrow> None
      | Some (Inl err, kv) \<Rightarrow> Some (Inl err, kv)
      | Some (Inr _, kv) \<Rightarrow>
          (case cv_counterparty_balance_sats_floor chan of
             None \<Rightarrow> Some (Inl ''virtual cleanup requires an exact counterparty BTC balance floor proof'', kv)
           | Some floor_sat \<Rightarrow>
               if floor_sat \<noteq> 0
                 then Some (Inl (''virtual cleanup is blocked while counterparty BTC balance floor is ''
                              @ show_u64 floor_sat @ '' sat''), kv)
               else case (case ve_read_rgb e kv hex False of
                            None \<Rightarrow> Some kv
                          | Some info \<Rightarrow> ve_write_rgb e kv hex info True) of
                 None \<Rightarrow> None
               | Some kv \<Rightarrow> Some (judge_rgb_state (ve_read_rgb e kv hex False) (ve_read_rgb e kv hex True), kv)))"

section \<open>Events\<close>

definition virtual_marker :: "channel_id \<Rightarrow> kv_key" where
  "virtual_marker c = ([], [], ''virtual_channel_'' @ hex_str c)"

definition remove_marker :: "'st vc_env \<Rightarrow> channel_id \<Rightarrow> 'st vc_state \<Rightarrow> 'st vc_state option" where
  "remove_marker e c st =
     map_option (\<lambda>kv. st\<lparr>vc_kv := kv\<rparr>) (drop_result (ve_remove e (vc_kv st) (virtual_marker c)))"

definition reject_virtual_open :: "'st vc_env \<Rightarrow> channel_id \<Rightarrow> 'st vc_state \<Rightarrow> 'st vc_state option" where
  "reject_virtual_open e tmp st =
     (case remove_marker e tmp st of
        None \<Rightarrow> None
      | Some st \<Rightarrow> virtual_channel_draft_delete e tmp st)"

text \<open>The records of the temporary id move to the final one, unless it has its own.\<close>

fun finalize_virtual_rgb_channel_info ::
  "'st vc_env \<Rightarrow> string \<Rightarrow> string \<Rightarrow> bool list \<Rightarrow> 'st \<Rightarrow> 'st option" where
  "finalize_virtual_rgb_channel_info e tmp_id final_id [] kv = Some kv"
| "finalize_virtual_rgb_channel_info e tmp_id final_id (pending # rest) kv =
     (case ve_read_rgb e kv tmp_id pending of
        None \<Rightarrow> finalize_virtual_rgb_channel_info e tmp_id final_id rest kv
      | Some info \<Rightarrow>
          (case (if ve_read_rgb e kv final_id pending = None then ve_write_rgb e kv final_id info pending
                 else Some kv) of
             None \<Rightarrow> None
           | Some kv \<Rightarrow>
               (case ve_remove_rgb e kv tmp_id pending of
                  None \<Rightarrow> None
                | Some kv \<Rightarrow> finalize_virtual_rgb_channel_info e tmp_id final_id rest kv)))"

text \<open>What follows the channel manager's answer to the synthetic funding.\<close>

definition register_virtual_funding ::
  "'st vc_env \<Rightarrow> u64 \<Rightarrow> virtual_channel_draft \<Rightarrow> channel_id \<Rightarrow> channel_id \<Rightarrow> outpoint \<Rightarrow> bool \<Rightarrow> 'st vc_state
     \<Rightarrow> 'st vc_state option" where
  "register_virtual_funding e now draft tmp channel txo accepted st =
     (if accepted then
        (case finalize_virtual_rgb_channel_info e (hex_str tmp) (hex_str channel) [False, True] (vc_kv st) of
           None \<Rightarrow> None
         | Some kv \<Rightarrow>
             (case ve_write e kv (virtual_marker channel) [] of
                (Inl _, kv) \<Rightarrow> None
              | (Inr _, kv) \<Rightarrow>
                  (case virtual_channel_session_add e
                          \<lparr>vs_channel_id = channel, vs_created_at = vd_created_at draft,
                           vs_former_temporary_channel_id = tmp, vs_peer_id = vd_peer_id draft,
                           vs_status = Active, vs_virtual_funding_txo = txo, vs_updated_at = now\<rparr>
                          (st\<lparr>vc_kv := kv\<rparr>) of
                     None \<Rightarrow> None
                   | Some st \<Rightarrow> virtual_channel_draft_delete e tmp st)))
      else reject_virtual_open e tmp st)"

text \<open>The funding of a channel without an asset that has a draft: the synthetic outpoint may serve
  one session only. The answer tells whether the channel was a virtual one.\<close>

definition virtual_funding_generation ::
  "'st vc_env \<Rightarrow> u64 \<Rightarrow> outpoint \<Rightarrow> (outpoint \<Rightarrow> channel_id) \<Rightarrow> bool \<Rightarrow> channel_id \<Rightarrow> 'st vc_state
     \<Rightarrow> (bool \<times> 'st vc_state) option" where
  "virtual_funding_generation e now synthetic channel_of accepted tmp st =
     (case map_of (vc_drafts st) tmp of
        None \<Rightarrow> Some (False, st)
      | Some draft \<Rightarrow>
          map_option (Pair True)
            (if contains_virtual_funding_txo synthetic (vc_sessions st) then reject_virtual_open e tmp st
             else register_virtual_funding e now draft tmp (channel_of synthetic) synthetic accepted st))"

definition channel_pending_ids ::
  "'st vc_env \<Rightarrow> channel_id option \<Rightarrow> channel_id \<Rightarrow> 'st vc_state \<Rightarrow> (bool \<times> 'st vc_state) option" where
  "channel_pending_ids e former channel st =
     (case former of
        None \<Rightarrow> None
      | Some tmp \<Rightarrow> map_option (\<lambda>st. (map_of (vc_sessions st) channel \<noteq> None, st)) (add_channel_id e tmp channel st))"

definition channel_closed_ids :: "'st vc_env \<Rightarrow> channel_id \<Rightarrow> 'st vc_state \<Rightarrow> 'st vc_state option" where
  "channel_closed_ids e channel st =
     (case delete_channel_id e channel st of
        None \<Rightarrow> None
      | Some (former, st) \<Rightarrow>
          (case (if map_of (vc_drafts st) channel \<noteq> None then Some channel
                 else case former of
                   None \<Rightarrow> None
                 | Some tmp \<Rightarrow> if map_of (vc_drafts st) tmp \<noteq> None then Some tmp else None) of
             None \<Rightarrow> Some st
           | Some tmp \<Rightarrow>
               (case virtual_channel_draft_delete e tmp st of
                  None \<Rightarrow> None
                | Some st \<Rightarrow>
                    (case remove_marker e tmp st of
                       None \<Rightarrow> None
                     | Some st \<Rightarrow> remove_marker e channel st))))"

definition discard_funding_ids :: "'st vc_env \<Rightarrow> channel_id \<Rightarrow> 'st vc_state \<Rightarrow> 'st vc_state option" where
  "discard_funding_ids e channel st =
     (case delete_channel_id e channel st of
        None \<Rightarrow> None
      | Some (_, st) \<Rightarrow> remove_marker e channel st)"


section \<open>Closing a channel\<close>

datatype ldk_api_error = APIMisuseError string | OtherApiError string

datatype manager_call =
    AbandonVirtualChannel channel_id node_id
  | ForceCloseBroadcasting channel_id node_id
  | CloseChannel channel_id node_id

text \<open>What the library answers: parsed public keys, the live channels before and after, the results
  of the three calls; the text of an error of another kind stands in its constructor.\<close>

record close_ctx =
  cc_pubkey_from_slice :: "bytes \<Rightarrow> node_id option"
  cc_channels :: "channel_view list"
  cc_enable_virtual_channels_v0 :: bool
  cc_abandon :: "ldk_api_error + unit"
  cc_channels_after :: "channel_view list"
  cc_force_close :: "ldk_api_error + unit"
  cc_close :: "ldk_api_error + unit"
  cc_pending_at :: u64
  cc_settled_at :: u64

record close_request =
  cr_channel_id :: string
  cr_peer_pubkey :: string
  cr_force :: bool

definition close_answer :: "ldk_api_error + unit \<Rightarrow> api_error + unit" where
  "close_answer r =
     (case r of
        Inr _ \<Rightarrow> Inr ()
      | Inl (APIMisuseError err) \<Rightarrow> Inl (FailedClosingChannel err)
      | Inl (OtherApiError err) \<Rightarrow> Inl (CannotCloseChannel err))"

definition ldk_error_text :: "ldk_api_error \<Rightarrow> string" where
  "ldk_error_text e = (case e of APIMisuseError err \<Rightarrow> err | OtherApiError err \<Rightarrow> err)"

type_synonym 'st close_result = "((api_error + unit) \<times> manager_call list \<times> 'st vc_state) option"

text \<open>The live channel is virtual: checks, then the abandonment.\<close>

definition close_virtual ::
  "'st vc_env \<Rightarrow> close_ctx \<Rightarrow> bool \<Rightarrow> node_id \<Rightarrow> channel_view \<Rightarrow> virtual_channel_session option \<Rightarrow> 'st vc_state
     \<Rightarrow> 'st close_result" where
  "close_virtual e c force_it peer chan session st =
     (let cid = cv_channel_id chan in
      if \<not> cc_enable_virtual_channels_v0 c
        then Some (Inl (CannotCloseChannel ''trusted virtual channels v0 are disabled''), [], st)
      else case session of
        None \<Rightarrow> Some (Inl (CannotCloseChannel ''virtual cleanup is host-only and requires a host-side session''), [], st)
      | Some s \<Rightarrow>
          if force_it
            then Some (Inl (CannotCloseChannel ''force=true is not supported for trusted virtual channels''), [], st)
          else case virtual_channel_ensure_no_client_value e chan (vc_kv st) of
            None \<Rightarrow> None
          | Some (Inl err, kv) \<Rightarrow> Some (Inl (CannotCloseChannel err), [], st\<lparr>vc_kv := kv\<rparr>)
          | Some (Inr _, kv) \<Rightarrow>
              (case virtual_channel_session_update_status e (cc_pending_at c) s AbandonPending (st\<lparr>vc_kv := kv\<rparr>) of
                 None \<Rightarrow> None
               | Some st \<Rightarrow>
                   (let settle = (\<lambda>status r. map_option (\<lambda>st. (r, [AbandonVirtualChannel cid peer], st))
                          (virtual_channel_session_update_status e (cc_settled_at c) s status st))
                    in case cc_abandon c of
                         Inr _ \<Rightarrow> settle Abandoned (Inr ())
                       | Inl err \<Rightarrow>
                           if list_ex (\<lambda>x. cv_channel_id x = cid \<and> cv_trusted_no_broadcast x) (cc_channels_after c)
                             then settle Active (Inl (CannotCloseChannel (ldk_error_text err)))
                           else settle Abandoned (Inr ()))))"

definition close_live ::
  "'st vc_env \<Rightarrow> close_ctx \<Rightarrow> bool \<Rightarrow> node_id \<Rightarrow> channel_view \<Rightarrow> virtual_channel_session option \<Rightarrow> 'st vc_state
     \<Rightarrow> 'st close_result" where
  "close_live e c force_it peer chan session st =
     (let cid = cv_channel_id chan in
      if cv_trusted_no_broadcast chan \<and> (case session of None \<Rightarrow> False | Some s \<Rightarrow> vs_status s = AbandonPending)
        then Some (Inl (CannotCloseChannel ''virtual cleanup is already in progress''), [], st)
      else if session \<noteq> None \<and> \<not> cv_trusted_no_broadcast chan
        then Some (Inl (Unexpected (''virtual channel session exists for '' @ hex_str cid
                    @ '', but live channel is not trusted_no_broadcast'')), [], st)
      else if \<not> cv_not_shutting_down chan
        then Some (Inl (CannotCloseChannel ''Channel is already being closed''), [], st)
      else if cv_trusted_no_broadcast chan then close_virtual e c force_it peer chan session st
      else if force_it then Some (close_answer (cc_force_close c), [ForceCloseBroadcasting cid peer], st)
      else Some (close_answer (cc_close c), [CloseChannel cid peer], st))"

definition close_channel ::
  "'st vc_env \<Rightarrow> close_ctx \<Rightarrow> close_request \<Rightarrow> 'st vc_state \<Rightarrow> 'st close_result" where
  "close_channel e c req st =
     (case hex_str_to_vec (cr_channel_id req) of
        None \<Rightarrow> Some (Inl InvalidChannelID, [], st)
      | Some cid \<Rightarrow>
      if length cid \<noteq> 32 then Some (Inl InvalidChannelID, [], st)
      else case Option.bind (hex_str_to_vec (cr_peer_pubkey req)) (cc_pubkey_from_slice c) of
        None \<Rightarrow> Some (Inl InvalidPubkey, [], st)
      | Some peer \<Rightarrow>
          (let session = map_of (vc_sessions st) cid in
           if (case session of None \<Rightarrow> False | Some s \<Rightarrow> vs_peer_id s \<noteq> peer)
             then Some (Inl (CannotCloseChannel ''peer pubkey does not match trusted virtual channel session''), [], st)
           else case find (\<lambda>x. cv_channel_id x = cid) (cc_channels c) of
             Some chan \<Rightarrow> close_live e c (cr_force req) peer chan session st
           | None \<Rightarrow>
               (case session of
                  None \<Rightarrow> Some (Inl UnknownChannelId, [], st)
                | Some s \<Rightarrow>
                    if vs_status s \<noteq> Abandoned
                      then map_option (\<lambda>st. (Inr (), [], st))
                             (virtual_channel_session_update_status e (cc_pending_at c) s Abandoned st)
                    else Some (Inr (), [], st))))"

end
