(* ===== verification/Virtual_Channel_Props.thy ===== *)
theory Virtual_Channel_Props
  imports Virtual_Channels
begin

text \<open>
  Properties of virtual channels: one per peer through every sequence of operations, and what must hold
  before one is abandoned.
\<close>

section \<open>One virtual channel per peer\<close>

definition vc_ok :: "'st vc_state \<Rightarrow> bool" where
  "vc_ok st \<longleftrightarrow>
     distinct (map fst (vc_drafts st)) \<and> distinct (map fst (vc_sessions st))
     \<and> (\<forall>k d. map_of (vc_drafts st) k = Some d \<longrightarrow> vd_temporary_channel_id d = k)
     \<and> (\<forall>k s. map_of (vc_sessions st) k = Some s \<longrightarrow> vs_channel_id s = k)
     \<and> (\<forall>k k' d d'. map_of (vc_drafts st) k = Some d \<longrightarrow> map_of (vc_drafts st) k' = Some d'
          \<longrightarrow> vd_peer_id d = vd_peer_id d' \<longrightarrow> k = k')
     \<and> (\<forall>k k' s s'. map_of (vc_sessions st) k = Some s \<longrightarrow> map_of (vc_sessions st) k' = Some s'
          \<longrightarrow> vs_peer_id s = vs_peer_id s' \<longrightarrow> k = k')
     \<and> (\<forall>k k' d s. map_of (vc_drafts st) k = Some d \<longrightarrow> map_of (vc_sessions st) k' = Some s
          \<longrightarrow> vd_peer_id d \<noteq> vs_peer_id s)"

lemma vc_ok_kv [simp]: "vc_ok (st\<lparr>vc_kv := kv\<rparr>) = vc_ok st" "vc_ok (st\<lparr>vc_channel_ids := ids\<rparr>) = vc_ok st"
  by (simp_all add: vc_ok_def)

lemma vc_save_Some: "vc_save e key bs st = Some st' \<Longrightarrow> \<exists>kv. st' = st\<lparr>vc_kv := kv\<rparr>"
  by (auto simp: vc_save_def split: prod.splits sum.splits)

lemma saved_ok:
  "virtual_channel_draft_store_save e st = Some st' \<Longrightarrow> \<exists>kv. st' = st\<lparr>vc_kv := kv\<rparr>"
  "virtual_channel_session_store_save e st = Some st' \<Longrightarrow> \<exists>kv. st' = st\<lparr>vc_kv := kv\<rparr>"
  "save_channel_ids_map e st = Some st' \<Longrightarrow> \<exists>kv. st' = st\<lparr>vc_kv := kv\<rparr>"
  by (auto simp: virtual_channel_draft_store_save_def virtual_channel_session_store_save_def
      save_channel_ids_map_def dest: vc_save_Some)

lemma marker_ok: "remove_marker e c st = Some st' \<Longrightarrow> \<exists>kv. st' = st\<lparr>vc_kv := kv\<rparr>"
  by (auto simp: remove_marker_def)

lemma no_peer_in:
  "\<not> list_ex (\<lambda>(c, x). f x = peer) xs \<Longrightarrow> map_of xs k = Some y \<Longrightarrow> f y \<noteq> peer"
  by (auto simp: list_ex_iff dest: map_of_SomeD)

lemma add_intent_ok:
  assumes "virtual_channel_add_intent e now random peer tmp st = Some (Inr (c, st'))" and "vc_ok st"
  shows "vc_ok st'"
proof -
  let ?d = "\<lparr>vd_created_at = now, vd_peer_id = peer, vd_temporary_channel_id = c\<rparr>"
  have free: "\<not> list_ex (\<lambda>(c, d). vd_peer_id d = peer) (vc_drafts st)"
    "\<not> list_ex (\<lambda>(c, s). vs_peer_id s = peer) (vc_sessions st)"
    and save: "virtual_channel_draft_store_save e (st\<lparr>vc_drafts := AList.update c ?d (vc_drafts st)\<rparr>) = Some st'"
    using assms(1) by (auto simp: virtual_channel_add_intent_def Let_def split: if_splits option.splits)
  have "vc_ok (st\<lparr>vc_drafts := AList.update c ?d (vc_drafts st)\<rparr>)"
    using assms(2) no_peer_in [OF free(1)] no_peer_in [OF free(2)]
    unfolding vc_ok_def by (auto simp: update_conv' distinct_update)
  then show ?thesis
    using saved_ok(1) [OF save] by auto
qed

lemma draft_delete_ok:
  assumes "virtual_channel_draft_delete e tmp st = Some st'" and "vc_ok st"
  shows "vc_ok st'"
proof -
  have "vc_ok (st\<lparr>vc_drafts := AList.delete tmp (vc_drafts st)\<rparr>)"
    using assms(2) unfolding vc_ok_def by (auto simp: delete_conv' distinct_delete)
  then show ?thesis
    using assms(1) by (auto simp: virtual_channel_draft_delete_def dest!: saved_ok(1))
qed

lemma update_status_ok:
  assumes "virtual_channel_session_update_status e now s status st = Some st'" and "vc_ok st"
    and "map_of (vc_sessions st) c = Some s'" and "vs_channel_id s = c" and "vs_peer_id s = vs_peer_id s'"
  shows "vc_ok st' \<and> map_of (vc_sessions st') c = Some (s\<lparr>vs_status := status, vs_updated_at := now\<rparr>)"
proof -
  let ?s = "s\<lparr>vs_status := status, vs_updated_at := now\<rparr>"
  have "vc_ok (st\<lparr>vc_sessions := AList.update c ?s (vc_sessions st)\<rparr>)"
    using assms(2-5) unfolding vc_ok_def by (auto simp: update_conv' distinct_update)
  then show ?thesis
    using assms(1,4)
    by (auto simp: virtual_channel_session_update_status_def virtual_channel_session_update_def update_conv'
        dest!: saved_ok(2))
qed

text \<open>A draft becomes a session.\<close>

lemma register_ok:
  assumes "register_virtual_funding e now d tmp channel txo accepted st = Some st'" and "vc_ok st"
    and "map_of (vc_drafts st) tmp = Some d"
  shows "vc_ok st'"
proof (cases accepted)
  case True
  let ?s = "\<lparr>vs_channel_id = channel, vs_created_at = vd_created_at d, vs_former_temporary_channel_id = tmp,
      vs_peer_id = vd_peer_id d, vs_status = Active, vs_virtual_funding_txo = txo, vs_updated_at = now\<rparr>"
  have own: "vs_peer_id s \<noteq> vd_peer_id d" if "map_of (vc_sessions st) k = Some s" for k s
    using assms(2,3) that unfolding vc_ok_def by metis
  have other: "vd_peer_id d' \<noteq> vd_peer_id d" if "map_of (vc_drafts st) k = Some d'" "k \<noteq> tmp" for k d'
    using assms(2,3) that unfolding vc_ok_def by metis
  have "vc_ok (st\<lparr>vc_sessions := AList.update channel ?s (vc_sessions st), vc_drafts := AList.delete tmp (vc_drafts st)\<rparr>)"
    using assms(2) own own [THEN not_sym] other unfolding vc_ok_def
    by (auto simp: update_conv' delete_conv' distinct_update distinct_delete split: if_splits)
  then show ?thesis
    using assms(1) True
    by (auto simp: register_virtual_funding_def virtual_channel_session_add_def virtual_channel_draft_delete_def
        dest!: saved_ok split: option.splits prod.splits sum.splits)
next
  case False
  then show ?thesis
    using assms
    by (auto simp: register_virtual_funding_def reject_virtual_open_def dest!: marker_ok intro: draft_delete_ok
        split: option.splits)
qed

lemma virtual_funding_ok:
  assumes "virtual_funding_generation e now txo channel_of accepted tmp st = Some (r, st')" and "vc_ok st"
  shows "vc_ok st'"
  using assms
  by (auto simp: virtual_funding_generation_def reject_virtual_open_def
      dest!: marker_ok intro: draft_delete_ok register_ok split: option.splits if_splits)

lemma delete_channel_id_ok:
  assumes "delete_channel_id e c st = Some (r, st')" and "vc_ok st"
  shows "vc_ok st'"
  using assms by (auto simp: delete_channel_id_def dest!: saved_ok(3) split: option.splits)

lemma channel_events_ok:
  "channel_pending_ids e former c st = Some (b, st') \<Longrightarrow> vc_ok st \<Longrightarrow> vc_ok st'"
  "channel_closed_ids e c st = Some st' \<Longrightarrow> vc_ok st \<Longrightarrow> vc_ok st'"
  "discard_funding_ids e c st = Some st' \<Longrightarrow> vc_ok st \<Longrightarrow> vc_ok st'"
proof -
  show "channel_pending_ids e former c st = Some (b, st') \<Longrightarrow> vc_ok st \<Longrightarrow> vc_ok st'"
    by (auto simp: channel_pending_ids_def add_channel_id_def dest!: saved_ok(3) split: option.splits)
  show "discard_funding_ids e c st = Some st' \<Longrightarrow> vc_ok st \<Longrightarrow> vc_ok st'"
    by (auto simp: discard_funding_ids_def dest!: marker_ok dest: delete_channel_id_ok split: option.splits)
  show "vc_ok st'" if closed: "channel_closed_ids e c st = Some st'" and before: "vc_ok st"
  proof -
    obtain former st1 where d: "delete_channel_id e c st = Some (former, st1)"
      using closed by (auto simp: channel_closed_ids_def split: option.splits)
    have ok: "vc_ok st1"
      by (rule delete_channel_id_ok [OF d before])
    show ?thesis
      using closed ok draft_delete_ok [OF _ ok]
      by (auto simp: channel_closed_ids_def d dest!: marker_ok split: option.splits if_splits)
  qed
qed

lemma close_virtual_cases:
  assumes "close_virtual e c f peer chan session st = Some (r, calls, st')"
  obtains (refused) kv where "calls = []" "st' = st\<lparr>vc_kv := kv\<rparr>"
  | (abandoned) s kv st1 status where "session = Some s" "\<not> f" "cc_enable_virtual_channels_v0 c"
      "virtual_channel_ensure_no_client_value e chan (vc_kv st) = Some (Inr (), kv)"
      "virtual_channel_session_update_status e (cc_pending_at c) s AbandonPending (st\<lparr>vc_kv := kv\<rparr>) = Some st1"
      "virtual_channel_session_update_status e (cc_settled_at c) s status st1 = Some st'"
      "calls = [AbandonVirtualChannel (cv_channel_id chan) peer]"
proof (cases "cc_enable_virtual_channels_v0 c \<and> session \<noteq> None \<and> \<not> f")
  case False
  then have "calls = []" "st' = st\<lparr>vc_kv := vc_kv st\<rparr>"
    using assms by (auto simp: close_virtual_def Let_def split: if_splits option.splits)
  then show ?thesis by (rule refused)
next
  case True
  then obtain s where s: "session = Some s" by blast
  show ?thesis
  proof (cases "\<exists>kv. virtual_channel_ensure_no_client_value e chan (vc_kv st) = Some (Inr (), kv)")
    case False
    then have "calls = [] \<and> (\<exists>kv. st' = st\<lparr>vc_kv := kv\<rparr>)"
      using assms True s by (auto simp: close_virtual_def Let_def split: option.splits sum.splits)
    then show ?thesis using refused by blast
  next
    case kv: True
    then obtain kv where kv: "virtual_channel_ensure_no_client_value e chan (vc_kv st) = Some (Inr (), kv)" by blast
    then obtain st1 where st1:
      "virtual_channel_session_update_status e (cc_pending_at c) s AbandonPending (st\<lparr>vc_kv := kv\<rparr>) = Some st1"
      using assms True s by (auto simp: close_virtual_def Let_def split: option.splits)
    then have "calls = [AbandonVirtualChannel (cv_channel_id chan) peer]
        \<and> (\<exists>status. virtual_channel_session_update_status e (cc_settled_at c) s status st1 = Some st')"
      using assms True s kv by (auto simp: close_virtual_def Let_def split: sum.splits if_splits)
    then show ?thesis
      using abandoned s True kv st1 by blast
  qed
qed

lemma close_virtual_ok:
  assumes "close_virtual e c f peer chan (Some s) st = Some (r, calls, st')" and "vc_ok st"
    and "map_of (vc_sessions st) k = Some s"
  shows "vc_ok st'"
  using assms(1)
proof (cases rule: close_virtual_cases)
  case (refused kv)
  then show ?thesis using assms(2) by simp
next
  case (abandoned s' kv st1 status)
  have k: "vs_channel_id s = k"
    using assms(2,3) by (simp add: vc_ok_def)
  have "vc_ok st1 \<and> map_of (vc_sessions st1) k = Some (s\<lparr>vs_status := AbandonPending, vs_updated_at := cc_pending_at c\<rparr>)"
    using update_status_ok [OF abandoned(5), of k s] abandoned(1) assms(2,3) k by simp
  then show ?thesis
    using update_status_ok [OF abandoned(6), of k "s\<lparr>vs_status := AbandonPending, vs_updated_at := cc_pending_at c\<rparr>"]
      abandoned(1) k by simp
qed

text \<open>The closing route: nothing happens, a channel that is gone is written off, or a live one is
  closed.\<close>

lemma close_channel_cases:
  assumes "close_channel e c req st = Some (r, calls, st')"
  obtains (idle) "calls = []" "st' = st"
  | (gone) k s where "calls = []" "map_of (vc_sessions st) k = Some s"
      "virtual_channel_session_update_status e (cc_pending_at c) s Abandoned st = Some st'"
  | (live) chan peer where "chan \<in> set (cc_channels c)"
      "close_live e c (cr_force req) peer chan (map_of (vc_sessions st) (cv_channel_id chan)) st = Some (r, calls, st')"
      "\<forall>s. map_of (vc_sessions st) (cv_channel_id chan) = Some s \<longrightarrow> vs_peer_id s = peer"
proof (cases "hex_str_to_vec (cr_channel_id req)")
  case None
  then have "calls = [] \<and> st' = st"
    using assms by (simp add: close_channel_def)
  then show ?thesis
    using idle by blast
next
  case k: (Some k)
  let ?peer = "Option.bind (hex_str_to_vec (cr_peer_pubkey req)) (cc_pubkey_from_slice c)"
  show ?thesis
  proof (cases "length k = 32 \<and> ?peer \<noteq> None")
    case False
    then have "calls = [] \<and> st' = st"
      using assms by (cases "length k = 32") (simp_all add: close_channel_def k)
    then show ?thesis
      using idle by blast
  next
    case True
    then obtain peer where len: "length k = 32" and peer: "?peer = Some peer"
      by blast
    let ?foreign = "case map_of (vc_sessions st) k of None \<Rightarrow> False | Some s \<Rightarrow> vs_peer_id s \<noteq> peer"
    show ?thesis
    proof (cases ?foreign)
      case True
      then have "calls = [] \<and> st' = st"
        using assms by (simp add: close_channel_def k len peer Let_def)
      then show ?thesis
        using idle by blast
    next
      case own: False
      show ?thesis
      proof (cases "find (\<lambda>x. cv_channel_id x = k) (cc_channels c)")
        case None
        show ?thesis
        proof (cases "map_of (vc_sessions st) k")
          case None': None
          then have "calls = [] \<and> st' = st"
            using assms None by (simp add: close_channel_def k len peer Let_def)
          then show ?thesis
            using idle by blast
        next
          case s: (Some s)
          then have "calls = [] \<and> (st' = st \<or> virtual_channel_session_update_status e (cc_pending_at c) s Abandoned st = Some st')"
            using assms None own
            by (cases "vs_status s = Abandoned") (auto simp add: close_channel_def k len peer Let_def)
          then show ?thesis
            using idle gone [OF _ s] by blast
        qed
      next
        case (Some chan)
        then have "chan \<in> set (cc_channels c)" "cv_channel_id chan = k"
          by (auto simp: find_Some_iff)
        moreover have "close_live e c (cr_force req) peer chan (map_of (vc_sessions st) k) st = Some (r, calls, st')"
          using assms own Some by (simp add: close_channel_def k len peer Let_def)
        moreover have "\<forall>s. map_of (vc_sessions st) k = Some s \<longrightarrow> vs_peer_id s = peer"
          using own by (simp split: option.splits)
        ultimately show ?thesis
          using live [of chan peer] by simp
      qed
    qed
  qed
qed

lemma close_live_ok:
  assumes "close_live e c f peer chan (map_of (vc_sessions st) k) st = Some (r, calls, st')" and "vc_ok st"
  shows "vc_ok st'"
proof (cases "st' = st")
  case False
  then have v: "close_virtual e c f peer chan (map_of (vc_sessions st) k) st = Some (r, calls, st')"
    using assms(1) by (simp add: close_live_def Let_def split: if_splits)
  show ?thesis
  proof (cases "map_of (vc_sessions st) k")
    case None
    then show ?thesis
      using v assms(2) by (auto simp: close_virtual_def Let_def split: if_splits)
  next
    case (Some s)
    then show ?thesis
      using v assms(2) by (auto intro: close_virtual_ok)
  qed
qed (use assms(2) in simp)

lemma close_channel_ok:
  assumes "close_channel e c req st = Some (r, calls, st')" and "vc_ok st"
  shows "vc_ok st'"
  using assms(1)
proof (cases rule: close_channel_cases)
  case (gone k s)
  have "vs_channel_id s = k"
    using assms(2) gone(2) by (simp add: vc_ok_def)
  then show ?thesis
    using update_status_ok [OF gone(3) assms(2) gone(2)] by simp
next
  case idle
  then show ?thesis using assms(2) by simp
next
  case (live chan peer)
  show ?thesis by (rule close_live_ok [OF live(2) assms(2)])
qed

text \<open>The operations in any order.\<close>

inductive vc_step :: "'st vc_env \<Rightarrow> 'st vc_state \<Rightarrow> 'st vc_state \<Rightarrow> bool" for e where
  "virtual_channel_add_intent e now random peer tmp st = Some (Inr (c, st')) \<Longrightarrow> vc_step e st st'"
| "virtual_channel_draft_delete e tmp st = Some st' \<Longrightarrow> vc_step e st st'"
| "virtual_funding_generation e now txo channel_of accepted tmp st = Some (r, st') \<Longrightarrow> vc_step e st st'"
| "channel_pending_ids e former c st = Some (b, st') \<Longrightarrow> vc_step e st st'"
| "channel_closed_ids e c st = Some st' \<Longrightarrow> vc_step e st st'"
| "discard_funding_ids e c st = Some st' \<Longrightarrow> vc_step e st st'"
| "close_channel e ctx req st = Some (a, calls, st') \<Longrightarrow> vc_step e st st'"

lemma vc_step_ok: "vc_step e st st' \<Longrightarrow> vc_ok st \<Longrightarrow> vc_ok st'"
  by (induction rule: vc_step.induct)
    (auto intro: add_intent_ok draft_delete_ok virtual_funding_ok channel_events_ok close_channel_ok)

text \<open>C26. Through every sequence of openings, fundings, channel events and closings, no peer has two
  virtual channels: neither two drafts, nor two sessions, nor a draft and a session.\<close>

theorem one_virtual_channel_per_peer:
  assumes "(vc_step e)\<^sup>*\<^sup>* st st'" and "vc_ok st"
  shows "vc_ok st'"
  using assms by (induction rule: rtranclp_induct) (auto intro: vc_step_ok)

text \<open>C27. The closing route abandons a virtual channel only when it is live and known to the host with
  that peer, the request is not a forced one, no payment is in flight, the counterparty's bitcoin is
  exactly zero, and its asset balance, where the channel has one, is zero.\<close>

theorem abandon_only_without_client_value:
  assumes "close_channel e c req st = Some (r, calls, st')" and "AbandonVirtualChannel cid peer \<in> set calls"
  shows "\<exists>chan s kv. chan \<in> set (cc_channels c) \<and> cv_channel_id chan = cid \<and> cv_trusted_no_broadcast chan
    \<and> map_of (vc_sessions st) cid = Some s \<and> vs_peer_id s = peer \<and> vs_status s \<noteq> AbandonPending
    \<and> \<not> cr_force req \<and> \<not> cv_has_inflight_htlcs chan \<and> cv_counterparty_balance_sats_floor chan = Some 0
    \<and> virtual_channel_ensure_no_client_value e chan (vc_kv st) = Some (Inr (), kv)
    \<and> (\<forall>f. ve_read_rgb e kv (hex_str cid) False = Some f \<longrightarrow> ri_remote_rgb_amount f = 0)"
proof -
  have ne: "calls \<noteq> []"
    using assms(2) by auto
  obtain chan peer' where chan: "chan \<in> set (cc_channels c)"
    and live: "close_live e c (cr_force req) peer' chan (map_of (vc_sessions st) (cv_channel_id chan)) st = Some (r, calls, st')"
    and peer': "\<forall>s. map_of (vc_sessions st) (cv_channel_id chan) = Some s \<longrightarrow> vs_peer_id s = peer'"
    using assms(1) by (cases rule: close_channel_cases) (use ne in simp_all)
  have virt: "close_virtual e c (cr_force req) peer' chan (map_of (vc_sessions st) (cv_channel_id chan)) st = Some (r, calls, st')"
    and trusted: "cv_trusted_no_broadcast chan"
    and status: "\<forall>s. map_of (vc_sessions st) (cv_channel_id chan) = Some s \<longrightarrow> vs_status s \<noteq> AbandonPending"
    using live assms(2) by (auto simp: close_live_def Let_def split: if_splits option.splits)
  from virt show ?thesis
  proof (cases rule: close_virtual_cases)
    case (refused kv)
    then show ?thesis using assms(2) by simp
  next
    case (abandoned s kv st1 status')
    have "\<not> cv_has_inflight_htlcs chan" "cv_counterparty_balance_sats_floor chan = Some 0"
      "judge_rgb_state (ve_read_rgb e kv (hex_str (cv_channel_id chan)) False)
         (ve_read_rgb e kv (hex_str (cv_channel_id chan)) True) = Inr ()"
      using abandoned(4)
      by (auto simp: virtual_channel_ensure_no_client_value_def Let_def split: if_splits option.splits sum.splits)
    moreover from this(3) have "\<forall>f. ve_read_rgb e kv (hex_str (cv_channel_id chan)) False = Some f \<longrightarrow> ri_remote_rgb_amount f = 0"
      by (auto simp: judge_rgb_state_def split: option.splits if_splits)
    ultimately show ?thesis
      using abandoned assms(2) trusted status peer' chan by auto
  qed
qed

text \<open>C37. The check copies the final asset record of the channel over the pending one before it compares
  the two: where the library's records are read back as written, a channel whose pending record still
  gives the counterparty assets passes as soon as the final record gives it none, and the pending record
  is lost.\<close>

theorem pending_rgb_state_overwritten:
  assumes laws: "\<And>kv i info kv'. ve_write_rgb e kv i info True = Some kv' \<Longrightarrow>
      ve_read_rgb e kv' i True = Some info \<and> ve_read_rgb e kv' i False = ve_read_rgb e kv i False"
    and "\<not> cv_has_inflight_htlcs chan" "cv_counterparty_balance_sats_floor chan = Some 0"
    and "check_no_artifacts e (hex_str (cv_channel_id chan)) [ve_rgb_inbound_ns e, ve_rgb_outbound_ns e] kv = Some (Inr (), kv)"
    and final: "ve_read_rgb e kv (hex_str (cv_channel_id chan)) False = Some f" "ri_remote_rgb_amount f = 0"
    and pending: "ve_read_rgb e kv (hex_str (cv_channel_id chan)) True = Some p" "ri_remote_rgb_amount p \<noteq> 0"
    and "ve_write_rgb e kv (hex_str (cv_channel_id chan)) f True = Some kv'"
  shows "virtual_channel_ensure_no_client_value e chan kv = Some (Inr (), kv')
    \<and> ve_read_rgb e kv' (hex_str (cv_channel_id chan)) True = Some f \<and> f \<noteq> p"
  using assms(2-6,8,9) laws [OF assms(9)]
  by (auto simp: virtual_channel_ensure_no_client_value_def judge_rgb_state_def same_rgb_state_def)


section \<open>Instances\<close>

definition map_vc_env :: "(string \<times> bool \<Rightarrow> rgb_info option) vc_env" where
  "map_vc_env =
     \<lparr>ve_write = (\<lambda>kv k b. (Inr (), kv)), ve_remove = (\<lambda>kv k. (Inr (), kv)), ve_list = (\<lambda>kv p s. (Inr [], kv)),
      ve_encode_drafts = (\<lambda>d. []), ve_encode_sessions = (\<lambda>s. []), ve_encode_channel_ids = (\<lambda>m. []),
      ve_rgb_ns = ''rgb'', ve_rgb_inbound_ns = ''in'', ve_rgb_outbound_ns = ''out'',
      ve_read_rgb = (\<lambda>kv i b. kv (i, b)), ve_write_rgb = (\<lambda>kv i info b. Some (kv((i, b) := Some info))),
      ve_remove_rgb = (\<lambda>kv i b. Some (kv((i, b) := None)))\<rparr>"

definition demo_cid :: channel_id where
  "demo_cid = replicate 32 1"

definition demo_chan :: channel_view where
  "demo_chan = \<lparr>cv_channel_id = demo_cid, cv_trusted_no_broadcast = True, cv_has_inflight_htlcs = False,
     cv_counterparty_balance_sats_floor = Some 0, cv_not_shutting_down = True\<rparr>"

definition demo_rgb :: "u64 \<Rightarrow> rgb_info" where
  "demo_rgb remote = \<lparr>ri_contract_id = ''c'', ri_schema = Nia, ri_local_rgb_amount = 10, ri_remote_rgb_amount = remote\<rparr>"

definition demo_vc :: "session_store \<Rightarrow> (string \<times> bool \<Rightarrow> rgb_info option) vc_state" where
  "demo_vc sessions = \<lparr>vc_drafts = [], vc_sessions = sessions, vc_channel_ids = [], vc_kv = (\<lambda>_. None)\<rparr>"

definition demo_session :: virtual_channel_session where
  "demo_session = \<lparr>vs_channel_id = demo_cid, vs_created_at = 1, vs_former_temporary_channel_id = [9], vs_peer_id = [2],
     vs_status = Active, vs_virtual_funding_txo = ([5], 0), vs_updated_at = 1\<rparr>"

theorem pending_rgb_state_overwritten_witness:
  "\<exists>kv'. virtual_channel_ensure_no_client_value map_vc_env demo_chan
      (\<lambda>(i, b). if i = hex_str demo_cid then Some (demo_rgb (if b then 7 else 0)) else None) = Some (Inr (), kv')"
  using pending_rgb_state_overwritten [of map_vc_env demo_chan
      "\<lambda>(i, b). if i = hex_str demo_cid then Some (demo_rgb (if b then 7 else 0)) else None" "demo_rgb 0" "demo_rgb 7"]
  by (auto simp: map_vc_env_def demo_chan_def demo_rgb_def io_result_def)

theorem one_virtual_channel_per_peer_witness:
  "vc_ok (\<lparr>vc_drafts = [([4], \<lparr>vd_created_at = 3, vd_peer_id = [8], vd_temporary_channel_id = [4]\<rparr>)],
     vc_sessions = [(demo_cid, demo_session)], vc_channel_ids = [], vc_kv = (\<lambda>_. None)\<rparr>
     :: (string \<times> bool \<Rightarrow> rgb_info option) vc_state)"
proof -
  let ?st' = "\<lparr>vc_drafts = [([4], \<lparr>vd_created_at = 3, vd_peer_id = [8], vd_temporary_channel_id = [4]\<rparr>)],
     vc_sessions = [(demo_cid, demo_session)], vc_channel_ids = [], vc_kv = (\<lambda>_. None)\<rparr>"
  have "virtual_channel_add_intent map_vc_env 3 (\<lambda>n. []) [8] (Some [4]) (demo_vc [(demo_cid, demo_session)])
      = Some (Inr ([4], ?st'))"
    by (simp add: virtual_channel_add_intent_def id_used_def demo_vc_def demo_session_def
        virtual_channel_draft_store_save_def vc_save_def map_vc_env_def)
  then have "vc_step map_vc_env (demo_vc [(demo_cid, demo_session)]) ?st'"
    by (rule vc_step.intros(1))
  moreover have "vc_ok (demo_vc [(demo_cid, demo_session)])"
    by (auto simp: vc_ok_def demo_vc_def demo_session_def split: if_splits)
  ultimately show ?thesis
    using one_virtual_channel_per_peer [OF r_into_rtranclp] by blast
qed

definition demo_close :: close_ctx where
  "demo_close = \<lparr>cc_pubkey_from_slice = Some, cc_channels = [demo_chan], cc_enable_virtual_channels_v0 = True,
     cc_abandon = Inr (), cc_channels_after = [], cc_force_close = Inr (), cc_close = Inr (),
     cc_pending_at = 5, cc_settled_at = 6\<rparr>"

theorem abandon_only_without_client_value_witness:
  "\<exists>r st'. close_channel map_vc_env demo_close
      \<lparr>cr_channel_id = hex_str demo_cid, cr_peer_pubkey = hex_str [2], cr_force = False\<rparr>
      (demo_vc [(demo_cid, demo_session)]) = Some (r, [AbandonVirtualChannel demo_cid [2]], st')
    \<and> cv_counterparty_balance_sats_floor demo_chan = Some 0"
proof -
  have "length demo_cid = 32"
    by (simp add: demo_cid_def)
  then obtain r st' where step: "close_channel map_vc_env demo_close
      \<lparr>cr_channel_id = hex_str demo_cid, cr_peer_pubkey = hex_str [2], cr_force = False\<rparr>
      (demo_vc [(demo_cid, demo_session)]) = Some (r, [AbandonVirtualChannel demo_cid [2]], st')"
    by (simp add: close_channel_def close_live_def close_virtual_def demo_close_def demo_chan_def demo_session_def
        demo_vc_def virtual_channel_ensure_no_client_value_def judge_rgb_state_def map_vc_env_def io_result_def
        virtual_channel_session_update_status_def virtual_channel_session_update_def
        virtual_channel_session_store_save_def vc_save_def Let_def del: hex_str.simps)
  then show ?thesis
    using abandon_only_without_client_value [OF step, of demo_cid "[2]"] by (auto simp: demo_close_def)
qed

end
