(* ===== verification/Rln_Wire.thy ===== *)
theory Rln_Wire
  imports Rln_Prelude
begin

text \<open>
  Reading from a byte stream: \<open>read_exact\<close> of \<open>std::io::Read\<close> and the big-endian integers that
  \<open>lightning\<close>'s \<open>Readable\<close>, \<open>u32::from_be_bytes\<close> and \<open>AsyncReadExt::read_u32\<close> read with it. A
  stream is the list of the bytes still to come; a reader returns what it read and the rest.
  Shared by the file transfer messages and by the frames of the remote signer.
\<close>

datatype wire_error = ShortRead | InvalidValue

definition read_exact :: "nat \<Rightarrow> bytes \<Rightarrow> wire_error + (bytes \<times> bytes)" where
  "read_exact n bs = (if n \<le> length bs then Inr (take n bs, drop n bs) else Inl ShortRead)"

definition read_be :: "nat \<Rightarrow> bytes \<Rightarrow> wire_error + (nat \<times> bytes)" where
  "read_be n bs =
     (case read_exact n bs of Inl e \<Rightarrow> Inl e | Inr (v, rest) \<Rightarrow> Inr (be_val v, rest))"

lemma read_exact_append [simp]: "length v = n \<Longrightarrow> read_exact n (v @ rest) = Inr (v, rest)"
  by (simp add: read_exact_def)

lemma read_be_append [simp]: "read_be n (be_bytes n x @ rest) = Inr (x mod 256 ^ n, rest)"
  by (simp add: read_be_def be_val_be_bytes)

lemma read_exact_Inr:
  "read_exact n bs = Inr (v, rest) \<longleftrightarrow> length v = n \<and> bs = v @ rest"
  by (auto simp: read_exact_def)

lemma be_bytes_be_val [simp]: "be_bytes (length v) (be_val v) = v"
proof (induction v rule: rev_induct)
  case Nil
  then show ?case by simp
next
  case (snoc b v)
  have "be_val (v @ [b]) = be_val v * 256 + unat b" "unat b < 256"
    using unat_less_exp [of b] by (simp_all add: be_val_def)
  moreover have "word_of_nat (be_val v * 256 + unat b) = b"
    unfolding word_unat_eq_iff unat_word_of_nat_byte using \<open>unat b < 256\<close> by simp
  ultimately show ?case
    by (simp add: snoc)
qed

lemma read_be_Inr:
  "read_be n bs = Inr (x, rest) \<longleftrightarrow> x < 256 ^ n \<and> bs = be_bytes n x @ rest"
proof
  assume "read_be n bs = Inr (x, rest)"
  then obtain v where "length v = n" "bs = v @ rest" "x = be_val v"
    by (auto simp: read_be_def read_exact_Inr split: sum.splits prod.splits)
  then show "x < 256 ^ n \<and> bs = be_bytes n x @ rest"
    using be_val_bound [of v] by auto
qed (auto simp: read_be_append)

end
