(* ===== verification/File_Transfer.thy ===== *)
theory File_Transfer
  imports Rln_Wire Rln_Hex Custom_Msg
begin

text \<open>
  RGB files over the peer connection, \<open>src/rgb_file_transfer.rs\<close>: the chunk message and its wire
  form, the sender that splits a file, the receiver that puts it together, and the files it stages
  in the data directory until the channel is funded. What the channel manager answers
  (\<open>PeerChannelGate\<close>) is an argument, as are SHA-256, the name of the media staging directory
  (\<open>get_media_staging_dir\<close> of the \<open>lightning\<close> fork) and the outcome of every file system call.
  Instants are numbers of nanoseconds; a \<open>Duration\<close> since a later instant is zero.
\<close>

section \<open>Constants and the message\<close>

definition RGB_FILE_TRANSFER_TYPE :: u16 where
  "RGB_FILE_TRANSFER_TYPE = 33333"

definition WIRE_VERSION :: nat where
  "WIRE_VERSION = 1"

definition FILE_KIND_CONSIGNMENT :: byte where
  "FILE_KIND_CONSIGNMENT = 0"

definition FILE_KIND_MEDIA :: byte where
  "FILE_KIND_MEDIA = 1"

definition CHUNK_SIZE :: nat where
  "CHUNK_SIZE = 60000"

definition REASSEMBLY_TTL :: nat where
  "REASSEMBLY_TTL = 600 * 10 ^ 9"

definition CONSIGNMENT_TTL :: nat where
  "CONSIGNMENT_TTL = 600 * 10 ^ 9"

definition MAX_CONSIGNMENT_SIZE :: nat where
  "MAX_CONSIGNMENT_SIZE = 16 * 1024 * 1024"

text \<open>\<open>u16::try_from(len.div_ceil(CHUNK_SIZE))\<close>.\<close>

definition chunk_count :: "nat \<Rightarrow> u16 option" where
  "chunk_count len =
     (let n = len div CHUNK_SIZE + (if len mod CHUNK_SIZE = 0 then 0 else 1)
      in if n < 2 ^ 16 then Some (word_of_nat n) else None)"

definition is_ascii_hexdigit :: "char \<Rightarrow> bool" where
  "is_ascii_hexdigit c = (c \<in> set ''0123456789abcdefABCDEF'')"

definition is_hash_hex :: "string \<Rightarrow> bool" where
  "is_hash_hex s = (length s = 64 \<and> list_all is_ascii_hexdigit s)"

record rgb_file_message =
  fm_file_kind :: byte
  fm_funding_txid :: string
  fm_file_id :: string
  fm_chunk_index :: u16
  fm_total_chunks :: u16
  fm_data :: bytes

definition write_rgb_file :: "rgb_file_message \<Rightarrow> bytes" where
  "write_rgb_file m =
     be_bytes 1 WIRE_VERSION @ be_bytes 1 (unat (fm_file_kind m))
     @ be_bytes 2 (length (as_bytes (fm_funding_txid m))) @ as_bytes (fm_funding_txid m)
     @ be_bytes 2 (length (as_bytes (fm_file_id m))) @ as_bytes (fm_file_id m)
     @ be_bytes 2 (unat (fm_chunk_index m)) @ be_bytes 2 (unat (fm_total_chunks m))
     @ be_bytes 4 (length (fm_data m)) @ fm_data m"

text \<open>A length-prefixed \<open>String\<close>: the length, that many bytes, and \<open>String::from_utf8\<close>.\<close>

definition read_wire_string :: "bytes \<Rightarrow> wire_error + (string \<times> bytes)" where
  "read_wire_string buf =
     (case read_be 2 buf of
        Inl e \<Rightarrow> Inl e
      | Inr (n, buf) \<Rightarrow>
          (case read_exact n buf of
             Inl e \<Rightarrow> Inl e
           | Inr (v, buf) \<Rightarrow> if utf8_valid v then Inr (from_bytes v, buf) else Inl InvalidValue))"

definition file_id_ok :: "byte \<Rightarrow> string \<Rightarrow> bool" where
  "file_id_ok kind file_id =
     (if kind = FILE_KIND_CONSIGNMENT then file_id = []
      else if kind = FILE_KIND_MEDIA then is_hash_hex file_id else False)"

definition read_chunk_tail ::
  "byte \<Rightarrow> string \<Rightarrow> string \<Rightarrow> bytes \<Rightarrow> wire_error + (rgb_file_message \<times> bytes)" where
  "read_chunk_tail kind txid file_id buf =
     (case read_be 2 buf of
        Inl e \<Rightarrow> Inl e
      | Inr (index, buf) \<Rightarrow>
     (case read_be 2 buf of
        Inl e \<Rightarrow> Inl e
      | Inr (tot, buf) \<Rightarrow>
     (case read_be 4 buf of
        Inl e \<Rightarrow> Inl e
      | Inr (data_len, buf) \<Rightarrow>
          if data_len > 65535 then Inl InvalidValue
          else case read_exact data_len buf of
                 Inl e \<Rightarrow> Inl e
               | Inr (data, buf) \<Rightarrow>
                   Inr (\<lparr>fm_file_kind = kind, fm_funding_txid = txid, fm_file_id = file_id,
                         fm_chunk_index = word_of_nat index, fm_total_chunks = word_of_nat tot,
                         fm_data = data\<rparr>, buf))))"

definition read_rgb_file :: "bytes \<Rightarrow> wire_error + (rgb_file_message \<times> bytes)" where
  "read_rgb_file buf =
     (case read_be 1 buf of
        Inl e \<Rightarrow> Inl e
      | Inr (version, buf) \<Rightarrow>
     if version \<noteq> WIRE_VERSION then Inl InvalidValue
     else case read_be 1 buf of
        Inl e \<Rightarrow> Inl e
      | Inr (k, buf) \<Rightarrow>
     (let kind = word_of_nat k
      in if kind \<notin> {FILE_KIND_CONSIGNMENT, FILE_KIND_MEDIA} then Inl InvalidValue
     else case read_wire_string buf of
        Inl e \<Rightarrow> Inl e
      | Inr (txid, buf) \<Rightarrow>
     if \<not> is_hash_hex txid then Inl InvalidValue
     else case read_wire_string buf of
        Inl e \<Rightarrow> Inl e
      | Inr (file_id, buf) \<Rightarrow>
     if \<not> file_id_ok kind file_id then Inl InvalidValue
     else read_chunk_tail kind txid file_id buf))"

definition ft_read :: "u16 \<Rightarrow> bytes \<Rightarrow> wire_error + (rgb_file_message \<times> bytes) option" where
  "ft_read message_type buf =
     (if message_type \<noteq> RGB_FILE_TRANSFER_TYPE then Inr None
      else case read_rgb_file buf of Inl e \<Rightarrow> Inl e | Inr r \<Rightarrow> Inr (Some r))"


section \<open>The data directory\<close>

text \<open>Entries of \<open>ldk_data_dir\<close> by name: plain files, and directories of plain files. A failed
  \<open>fs::write\<close> may leave the file as it was or with some other content; a failed
  \<open>fs::remove_dir_all\<close> may have removed some of the files.\<close>

datatype dir_entry = FileEntry bytes | DirEntry "(string \<times> bytes) list"

type_synonym data_dir = "(string \<times> dir_entry) list"

datatype write_outcome = Wrote | WriteFailed "bytes option"

datatype remove_outcome = Removed | RemoveFailed "string list"

definition fs_write :: "write_outcome \<Rightarrow> string \<Rightarrow> bytes \<Rightarrow> data_dir \<Rightarrow> bool \<times> data_dir" where
  "fs_write w name bs d =
     (case map_of d name of
        Some (DirEntry _) \<Rightarrow> (False, d)
      | _ \<Rightarrow>
          (case w of
             Wrote \<Rightarrow> (True, AList.update name (FileEntry bs) d)
           | WriteFailed None \<Rightarrow> (False, d)
           | WriteFailed (Some junk) \<Rightarrow> (False, AList.update name (FileEntry junk) d)))"

definition fs_write_in ::
  "write_outcome \<Rightarrow> string \<Rightarrow> string \<Rightarrow> bytes \<Rightarrow> data_dir \<Rightarrow> bool \<times> data_dir" where
  "fs_write_in w dir name bs d =
     (case map_of d dir of
        Some (DirEntry fs) \<Rightarrow>
          (case w of
             Wrote \<Rightarrow> (True, AList.update dir (DirEntry (AList.update name bs fs)) d)
           | WriteFailed None \<Rightarrow> (False, d)
           | WriteFailed (Some junk) \<Rightarrow>
               (False, AList.update dir (DirEntry (AList.update name junk fs)) d))
      | _ \<Rightarrow> (False, d))"

definition fs_exists_in :: "string \<Rightarrow> string \<Rightarrow> data_dir \<Rightarrow> bool" where
  "fs_exists_in dir name d =
     (case map_of d dir of Some (DirEntry fs) \<Rightarrow> map_of fs name \<noteq> None | _ \<Rightarrow> False)"

definition fs_create_dir_all :: "bool \<Rightarrow> string \<Rightarrow> data_dir \<Rightarrow> bool \<times> data_dir" where
  "fs_create_dir_all ok dir d =
     (case map_of d dir of
        Some (DirEntry _) \<Rightarrow> (ok, d)
      | Some (FileEntry _) \<Rightarrow> (False, d)
      | None \<Rightarrow> if ok then (True, AList.update dir (DirEntry []) d) else (False, d))"

definition fs_remove_file :: "bool \<Rightarrow> string \<Rightarrow> data_dir \<Rightarrow> data_dir" where
  "fs_remove_file ok name d =
     (case map_of d name of
        Some (FileEntry _) \<Rightarrow> if ok then AList.delete name d else d
      | _ \<Rightarrow> d)"

definition fs_remove_dir_all :: "remove_outcome \<Rightarrow> string \<Rightarrow> data_dir \<Rightarrow> data_dir" where
  "fs_remove_dir_all r dir d =
     (case map_of d dir of
        Some (DirEntry fs) \<Rightarrow>
          (case r of
             Removed \<Rightarrow> AList.delete dir d
           | RemoveFailed gone \<Rightarrow>
               AList.update dir (DirEntry (filter (\<lambda>(name, _). name \<notin> set gone) fs)) d)
      | _ \<Rightarrow> d)"


section \<open>State\<close>

record reassembly_key =
  rk_peer :: node_id
  rk_file_kind :: byte
  rk_funding_txid :: string
  rk_file_id :: string

record staging_key =
  sk_peer :: node_id
  sk_funding_txid :: string

record staging_record =
  sr_written_at :: nat
  sr_staged_media_bytes :: nat
  sr_staged_media_count :: nat

record reassembly_state =
  rs_total_chunks :: u16
  rs_chunks :: "(u16 \<times> bytes) list"
  rs_buffered :: nat
  rs_last_progress :: nat

definition reassembly_state_new :: "nat \<Rightarrow> reassembly_state" where
  "reassembly_state_new now =
     \<lparr>rs_total_chunks = 0, rs_chunks = [], rs_buffered = 0, rs_last_progress = now\<rparr>"

record channel_gate =
  channel_count_with :: "node_id \<Rightarrow> nat"
  has_channel_funded_by :: "string \<Rightarrow> bool"

text \<open>The limits the handler is built with, and the library functions it calls.\<close>

record ft_config =
  fc_max_pending_fundings :: nat
  fc_max_media_bytes :: nat
  fc_max_media_files :: nat
  fc_sha256 :: "bytes \<Rightarrow> bytes"
  fc_media_staging_dir :: "string \<Rightarrow> string"

record file_transfer =
  ft_reassembly :: "(reassembly_key \<times> reassembly_state) list"
  ft_staged_fundings :: "(staging_key \<times> staging_record) list"
  ft_outbound :: "(node_id \<times> rgb_file_message) list"
  ft_data_dir :: data_dir

definition file_transfer_new :: "data_dir \<Rightarrow> file_transfer" where
  "file_transfer_new d =
     \<lparr>ft_reassembly = [], ft_staged_fundings = [], ft_outbound = [], ft_data_dir = d\<rparr>"

text \<open>The outcomes of the file system calls of one \<open>persist_file\<close>.\<close>

record persist_faults =
  pf_create_dir :: bool
  pf_write :: write_outcome


section \<open>Sending\<close>

text \<open>\<open>slice::chunks(CHUNK_SIZE)\<close>.\<close>

function slice_chunks :: "bytes \<Rightarrow> bytes list" where
  "slice_chunks bs =
     (if bs = [] then [] else take CHUNK_SIZE bs # slice_chunks (drop CHUNK_SIZE bs))"
  by pat_completeness auto
termination
  by (relation "measure length") (auto simp: CHUNK_SIZE_def)

declare slice_chunks.simps [simp del]

definition queue_file ::
  "node_id \<Rightarrow> byte \<Rightarrow> string \<Rightarrow> string \<Rightarrow> bytes \<Rightarrow> file_transfer \<Rightarrow> (unit + unit) \<times> file_transfer" where
  "queue_file peer kind txid file_id bs s =
     (if bs = [] then (Inl (), s)
      else case chunk_count (length bs) of
             None \<Rightarrow> (Inl (), s)
           | Some tot \<Rightarrow>
               (Inr (), s\<lparr>ft_outbound := ft_outbound s @
                  map (\<lambda>(idx, chunk).
                         (peer, \<lparr>fm_file_kind = kind, fm_funding_txid = txid, fm_file_id = file_id,
                                 fm_chunk_index = word_of_nat idx, fm_total_chunks = tot,
                                 fm_data = chunk\<rparr>))
                    (enumerate 0 (slice_chunks bs))\<rparr>))"

definition queue_consignment ::
  "node_id \<Rightarrow> string \<Rightarrow> bytes \<Rightarrow> file_transfer \<Rightarrow> (unit + unit) \<times> file_transfer" where
  "queue_consignment peer txid bs = queue_file peer FILE_KIND_CONSIGNMENT txid [] bs"

definition queue_media ::
  "node_id \<Rightarrow> string \<Rightarrow> string \<Rightarrow> bytes \<Rightarrow> file_transfer \<Rightarrow> (unit + unit) \<times> file_transfer" where
  "queue_media peer txid digest bs = queue_file peer FILE_KIND_MEDIA txid digest bs"

definition ft_get_and_clear_pending_msg ::
  "file_transfer \<Rightarrow> (node_id \<times> rgb_file_message) list \<times> file_transfer" where
  "ft_get_and_clear_pending_msg s = (ft_outbound s, s\<lparr>ft_outbound := []\<rparr>)"



section \<open>Staged files\<close>

definition consignment_path :: "string \<Rightarrow> string" where
  "consignment_path txid = ''consignment_'' @ txid"

text \<open>The funding txid in the name of a staged file or directory.\<close>

definition orphan_txid :: "string \<Rightarrow> string option" where
  "orphan_txid name =
     (case (case strip_prefix ''consignment_'' name of
              Some t \<Rightarrow> Some t | None \<Rightarrow> strip_prefix ''media_staging_'' name) of
        Some t \<Rightarrow> if is_hash_hex t then Some t else None
      | None \<Rightarrow> None)"

text \<open>One entry of the scan at start-up. \<open>modified\<close> gives the modification time of an entry, None
  where it cannot be read; \<open>faults\<close> the outcome of removing it.\<close>

definition cleanup_entry ::
  "channel_gate \<Rightarrow> (string \<Rightarrow> nat option) \<Rightarrow> (string \<Rightarrow> remove_outcome) \<Rightarrow> nat
     \<Rightarrow> string \<Rightarrow> data_dir \<Rightarrow> data_dir" where
  "cleanup_entry gate modified faults at name d =
     (if \<not> utf8_valid (as_bytes name) then d
      else case orphan_txid name of
        None \<Rightarrow> d
      | Some txid \<Rightarrow>
          (case modified name of
             None \<Rightarrow> d
           | Some t \<Rightarrow>
               if at < t then d
               else if at - t < CONSIGNMENT_TTL \<or> has_channel_funded_by gate txid then d
               else case map_of d name of
                      Some (DirEntry _) \<Rightarrow> fs_remove_dir_all (faults name) name d
                    | _ \<Rightarrow> fs_remove_file (faults name = Removed) name d))"

definition cleanup_orphans_at ::
  "channel_gate \<Rightarrow> (string \<Rightarrow> nat option) \<Rightarrow> (string \<Rightarrow> remove_outcome) \<Rightarrow> nat
     \<Rightarrow> file_transfer \<Rightarrow> file_transfer" where
  "cleanup_orphans_at gate modified faults at s =
     s\<lparr>ft_data_dir := fold (cleanup_entry gate modified faults at)
         (map fst (ft_data_dir s)) (ft_data_dir s)\<rparr>"

definition forget_staged_funding :: "bool \<Rightarrow> string \<Rightarrow> file_transfer \<Rightarrow> file_transfer" where
  "forget_staged_funding ok txid s =
     s\<lparr>ft_staged_fundings := filter (\<lambda>(k, _). sk_funding_txid k \<noteq> txid) (ft_staged_fundings s),
       ft_data_dir := fs_remove_file ok (consignment_path txid) (ft_data_dir s)\<rparr>"

text \<open>The closure that \<open>retain\<close> runs on each staged funding: whether it is kept, and the data
  directory it leaves.\<close>

definition sweep_staging ::
  "ft_config \<Rightarrow> channel_gate \<Rightarrow> (staging_key \<Rightarrow> remove_outcome \<times> bool) \<Rightarrow> nat
     \<Rightarrow> staging_key \<times> staging_record \<Rightarrow> data_dir \<Rightarrow> bool \<times> data_dir" where
  "sweep_staging cfg gate faults now kr d =
     (let txid = sk_funding_txid (fst kr)
      in if has_channel_funded_by gate txid then (False, d)
         else if now - sr_written_at (snd kr) < CONSIGNMENT_TTL then (True, d)
         else (False, fs_remove_file (snd (faults (fst kr))) (consignment_path txid)
                 (fs_remove_dir_all (fst (faults (fst kr))) (fc_media_staging_dir cfg txid) d)))"

fun retain_staging ::
  "(staging_key \<times> staging_record \<Rightarrow> data_dir \<Rightarrow> bool \<times> data_dir)
     \<Rightarrow> (staging_key \<times> staging_record) list \<Rightarrow> data_dir
     \<Rightarrow> (staging_key \<times> staging_record) list \<times> data_dir" where
  "retain_staging f [] d = ([], d)"
| "retain_staging f (kr # krs) d =
     (case f kr d of
        (keep, d) \<Rightarrow>
          (case retain_staging f krs d of
             (krs', d) \<Rightarrow> (if keep then kr # krs' else krs', d)))"

definition sweep_unfunded_stagings_at ::
  "ft_config \<Rightarrow> channel_gate \<Rightarrow> (staging_key \<Rightarrow> remove_outcome \<times> bool) \<Rightarrow> nat
     \<Rightarrow> file_transfer \<Rightarrow> file_transfer" where
  "sweep_unfunded_stagings_at cfg gate faults now s =
     (case retain_staging (sweep_staging cfg gate faults now) (ft_staged_fundings s) (ft_data_dir s) of
        (krs, d) \<Rightarrow> s\<lparr>ft_staged_fundings := krs, ft_data_dir := d\<rparr>)"

definition sweep_stale_transfers_at :: "nat \<Rightarrow> file_transfer \<Rightarrow> file_transfer" where
  "sweep_stale_transfers_at now s =
     s\<lparr>ft_reassembly :=
         filter (\<lambda>(_, st). \<not> REASSEMBLY_TTL \<le> now - rs_last_progress st) (ft_reassembly s)\<rparr>"

definition sweep_stale_state ::
  "ft_config \<Rightarrow> channel_gate \<Rightarrow> (staging_key \<Rightarrow> remove_outcome \<times> bool) \<Rightarrow> nat
     \<Rightarrow> file_transfer \<Rightarrow> file_transfer" where
  "sweep_stale_state cfg gate faults now s =
     sweep_unfunded_stagings_at cfg gate faults now (sweep_stale_transfers_at now s)"

definition persist_consignment ::
  "ft_config \<Rightarrow> persist_faults \<Rightarrow> reassembly_key \<Rightarrow> bytes \<Rightarrow> nat \<Rightarrow> file_transfer \<Rightarrow> file_transfer" where
  "persist_consignment cfg fx key bs now s =
     (let sk = \<lparr>sk_peer = rk_peer key, sk_funding_txid = rk_funding_txid key\<rparr>
      in if map_of (ft_staged_fundings s) sk \<noteq> None then s
         else if fc_max_pending_fundings cfg \<le> length (ft_staged_fundings s) then s
         else case fs_write (pf_write fx) (consignment_path (rk_funding_txid key)) bs (ft_data_dir s) of
                (False, d) \<Rightarrow> s\<lparr>ft_data_dir := d\<rparr>
              | (True, d) \<Rightarrow>
                  s\<lparr>ft_staged_fundings := AList.update sk
                      \<lparr>sr_written_at = now, sr_staged_media_bytes = 0, sr_staged_media_count = 0\<rparr>
                      (ft_staged_fundings s),
                    ft_data_dir := d\<rparr>)"

definition persist_media ::
  "ft_config \<Rightarrow> persist_faults \<Rightarrow> reassembly_key \<Rightarrow> bytes \<Rightarrow> file_transfer \<Rightarrow> file_transfer" where
  "persist_media cfg fx key bs s =
     (let digest = hex_str (fc_sha256 cfg bs);
          sk = \<lparr>sk_peer = rk_peer key, sk_funding_txid = rk_funding_txid key\<rparr>;
          dir = fc_media_staging_dir cfg (rk_funding_txid key)
      in if digest \<noteq> rk_file_id key then s
         else case map_of (ft_staged_fundings s) sk of
           None \<Rightarrow> s
         | Some r \<Rightarrow>
             if fs_exists_in dir digest (ft_data_dir s) then s
             else if fc_max_media_bytes cfg < sr_staged_media_bytes r + length bs then s
             else if fc_max_media_files cfg \<le> sr_staged_media_count r then s
             else case fs_create_dir_all (pf_create_dir fx) dir (ft_data_dir s) of
                    (False, d) \<Rightarrow> s\<lparr>ft_data_dir := d\<rparr>
                  | (True, d) \<Rightarrow>
                      (case fs_write_in (pf_write fx) dir digest bs d of
                         (False, d) \<Rightarrow> s\<lparr>ft_data_dir := d\<rparr>
                       | (True, d) \<Rightarrow>
                           s\<lparr>ft_staged_fundings := AList.update sk
                               (r\<lparr>sr_staged_media_bytes := sr_staged_media_bytes r + length bs,
                                  sr_staged_media_count := sr_staged_media_count r + 1\<rparr>)
                               (ft_staged_fundings s),
                             ft_data_dir := d\<rparr>))"

text \<open>None is the panic of \<open>unreachable!\<close>.\<close>

definition persist_file ::
  "ft_config \<Rightarrow> persist_faults \<Rightarrow> reassembly_key \<Rightarrow> bytes \<Rightarrow> nat \<Rightarrow> file_transfer \<Rightarrow> file_transfer option" where
  "persist_file cfg fx key bs now s =
     (if rk_file_kind key = FILE_KIND_CONSIGNMENT then Some (persist_consignment cfg fx key bs now s)
      else if rk_file_kind key = FILE_KIND_MEDIA then Some (persist_media cfg fx key bs s)
      else None)"



section \<open>Receiving\<close>

definition chunk_key :: "rgb_file_message \<Rightarrow> node_id \<Rightarrow> reassembly_key" where
  "chunk_key m sender =
     \<lparr>rk_peer = sender, rk_file_kind = fm_file_kind m, rk_funding_txid = fm_funding_txid m,
      rk_file_id = fm_file_id m\<rparr>"

definition valid_len :: "rgb_file_message \<Rightarrow> bool" where
  "valid_len m =
     (if fm_chunk_index m = fm_total_chunks m - 1
      then 1 \<le> length (fm_data m) \<and> length (fm_data m) \<le> CHUNK_SIZE
      else length (fm_data m) = CHUNK_SIZE)"

text \<open>The funding txids that are in flight or staged, and the node-wide cap on them.\<close>

definition pending_fundings :: "file_transfer \<Rightarrow> string list" where
  "pending_fundings s =
     map (rk_funding_txid \<circ> fst) (ft_reassembly s) @ map (sk_funding_txid \<circ> fst) (ft_staged_fundings s)"

definition fundings_full :: "ft_config \<Rightarrow> file_transfer \<Rightarrow> string \<Rightarrow> bool" where
  "fundings_full cfg s txid =
     (txid \<notin> set (pending_fundings s)
      \<and> fc_max_pending_fundings cfg \<le> length (remdups (pending_fundings s)))"

definition media_in_flight ::
  "file_transfer \<Rightarrow> string \<Rightarrow> (reassembly_key \<times> reassembly_state) list" where
  "media_in_flight s txid =
     filter (\<lambda>(k, _). rk_file_kind k = FILE_KIND_MEDIA \<and> rk_funding_txid k = txid) (ft_reassembly s)"

definition media_refused :: "ft_config \<Rightarrow> file_transfer \<Rightarrow> reassembly_key \<Rightarrow> nat \<Rightarrow> bool" where
  "media_refused cfg s key prospective =
     (let txid = rk_funding_txid key;
          rec = map_of (ft_staged_fundings s) \<lparr>sk_peer = rk_peer key, sk_funding_txid = txid\<rparr>;
          other = sum_list (map (rs_buffered \<circ> snd)
                    (filter (\<lambda>(k, _). k \<noteq> key) (media_in_flight s txid)));
          staged = (case rec of None \<Rightarrow> 0 | Some r \<Rightarrow> sr_staged_media_bytes r);
          staged_files = (case rec of None \<Rightarrow> 0 | Some r \<Rightarrow> sr_staged_media_count r)
      in fc_max_media_bytes cfg < other + prospective + staged
         \<or> (map_of (ft_reassembly s) key = None
            \<and> fc_max_media_files cfg \<le> length (media_in_flight s txid) + staged_files))"

definition chunk_indices :: "u16 \<Rightarrow> u16 list" where
  "chunk_indices tot = map word_of_nat [0..<unat tot]"

definition transfer_complete :: "reassembly_state \<Rightarrow> bool" where
  "transfer_complete st = list_all (\<lambda>i. map_of (rs_chunks st) i \<noteq> None) (chunk_indices (rs_total_chunks st))"

definition assembled :: "reassembly_state \<Rightarrow> bytes" where
  "assembled st = concat (map (\<lambda>i. the (map_of (rs_chunks st) i)) (chunk_indices (rs_total_chunks st)))"

definition accept_chunk ::
  "ft_config \<Rightarrow> persist_faults \<Rightarrow> rgb_file_message \<Rightarrow> reassembly_key \<Rightarrow> nat \<Rightarrow> file_transfer
     \<Rightarrow> file_transfer option" where
  "accept_chunk cfg fx m key now s =
     (let st = (case map_of (ft_reassembly s) key of Some st \<Rightarrow> st | None \<Rightarrow> reassembly_state_new now);
          st = st\<lparr>rs_total_chunks :=
                    (if rs_total_chunks st = 0 then fm_total_chunks m else rs_total_chunks st),
                  rs_chunks := AList.update (fm_chunk_index m) (fm_data m) (rs_chunks st),
                  rs_buffered := rs_buffered st + length (fm_data m),
                  rs_last_progress := now\<rparr>
      in if transfer_complete st
         then persist_file cfg fx key (assembled st) now
                (s\<lparr>ft_reassembly := AList.delete key (ft_reassembly s)\<rparr>)
         else Some (s\<lparr>ft_reassembly := AList.update key st (ft_reassembly s)\<rparr>))"

definition drop_transfer :: "reassembly_key \<Rightarrow> file_transfer \<Rightarrow> file_transfer" where
  "drop_transfer key s = s\<lparr>ft_reassembly := AList.delete key (ft_reassembly s)\<rparr>"

definition handle_chunk ::
  "ft_config \<Rightarrow> channel_gate \<Rightarrow> persist_faults \<Rightarrow> rgb_file_message \<Rightarrow> node_id \<Rightarrow> nat
     \<Rightarrow> file_transfer \<Rightarrow> file_transfer option" where
  "handle_chunk cfg gate fx m sender now s =
     (if channel_count_with gate sender = 0 then Some s
      else if has_channel_funded_by gate (fm_funding_txid m) then Some s
      else
        let key = chunk_key m sender; entry = map_of (ft_reassembly s) key
        in if fm_total_chunks m = 0 \<or> fm_total_chunks m \<le> fm_chunk_index m
           then Some (drop_transfer key s)
           else if \<not> valid_len m then Some (drop_transfer key s)
           else if (case entry of None \<Rightarrow> False
                    | Some st \<Rightarrow> map_of (rs_chunks st) (fm_chunk_index m) \<noteq> None)
           then Some (drop_transfer key s)
           else if (case entry of None \<Rightarrow> False
                    | Some st \<Rightarrow> rs_total_chunks st \<noteq> fm_total_chunks m)
           then Some (drop_transfer key s)
           else
             let prospective =
                   (case entry of None \<Rightarrow> 0 | Some st \<Rightarrow> rs_buffered st) + length (fm_data m)
             in if fundings_full cfg s (rk_funding_txid key) then Some s
                else if rk_file_kind key = FILE_KIND_MEDIA
                     \<and> media_refused cfg s key prospective then Some s
                else if rk_file_kind key \<noteq> FILE_KIND_MEDIA
                     \<and> MAX_CONSIGNMENT_SIZE < prospective then Some s
                else accept_chunk cfg fx m key now s)"

definition ft_peer_disconnected :: "node_id \<Rightarrow> file_transfer \<Rightarrow> file_transfer" where
  "ft_peer_disconnected peer s =
     s\<lparr>ft_reassembly := filter (\<lambda>(k, _). rk_peer k \<noteq> peer) (ft_reassembly s)\<rparr>"

end
