(* ===== verification/File_Transfer_Props.thy ===== *)
theory File_Transfer_Props
  imports File_Transfer Rln_Assoc "HOL-Library.Multiset"
begin

text \<open>
  Properties of the file transfer: the wire form is read back exactly, the chunks of a queued file
  put it together again on the other side in whatever order they arrive, what a peer can make the
  node hold is bounded in every reachable state as far as the limits go, and where they do not.
\<close>

section \<open>The wire form\<close>

definition wire_ok :: "rgb_file_message \<Rightarrow> bool" where
  "wire_ok m \<longleftrightarrow> fm_file_kind m \<in> {FILE_KIND_CONSIGNMENT, FILE_KIND_MEDIA}
     \<and> is_hash_hex (fm_funding_txid m) \<and> file_id_ok (fm_file_kind m) (fm_file_id m)
     \<and> length (fm_data m) \<le> 65535"

lemma hexdigit_ascii: "is_ascii_hexdigit c \<Longrightarrow> (of_char c :: nat) < 128"
  by (auto simp: is_ascii_hexdigit_def)

lemma is_hash_hex_valid: "is_hash_hex s \<Longrightarrow> utf8_valid (as_bytes s)"
  by (rule utf8_valid_ascii)
    (auto simp: is_hash_hex_def list_all_iff as_bytes_def dest!: hexdigit_ascii)

lemma file_id_valid: "file_id_ok k s \<Longrightarrow> utf8_valid (as_bytes s) \<and> length s \<le> 64"
  using is_hash_hex_valid [of s] by (auto simp: file_id_ok_def is_hash_hex_def as_bytes_def [of "[]"] split: if_splits)

lemma read_wire_string_Inr:
  "read_wire_string buf = Inr (s, rest) \<longleftrightarrow>
     utf8_valid (as_bytes s) \<and> length s < 65536
     \<and> buf = be_bytes 2 (length (as_bytes s)) @ as_bytes s @ rest" (is "?l \<longleftrightarrow> ?r")
proof
  assume ?l
  then obtain n buf1 v where r: "read_be 2 buf = Inr (n, buf1)" "read_exact n buf1 = Inr (v, rest)"
    "s = from_bytes v" "utf8_valid v"
    by (auto simp: read_wire_string_def split: sum.splits prod.splits if_splits)
  then show ?r
    by (auto simp: read_exact_Inr read_be_Inr)
qed (simp add: read_wire_string_def)

lemma read_chunk_tail_Inr:
  "read_chunk_tail k t f buf = Inr (m, rest) \<longleftrightarrow>
     fm_file_kind m = k \<and> fm_funding_txid m = t \<and> fm_file_id m = f \<and> length (fm_data m) \<le> 65535
     \<and> buf = be_bytes 2 (unat (fm_chunk_index m)) @ be_bytes 2 (unat (fm_total_chunks m))
          @ be_bytes 4 (length (fm_data m)) @ fm_data m @ rest" (is "?l \<longleftrightarrow> ?r")
proof
  assume ?l
  then obtain i b1 n b2 l b3 d where r: "read_be 2 buf = Inr (i, b1)" "read_be 2 b1 = Inr (n, b2)"
    "read_be 4 b2 = Inr (l, b3)" "l \<le> 65535" "read_exact l b3 = Inr (d, rest)"
    "m = \<lparr>fm_file_kind = k, fm_funding_txid = t, fm_file_id = f, fm_chunk_index = word_of_nat i,
          fm_total_chunks = word_of_nat n, fm_data = d\<rparr>"
    by (auto simp: read_chunk_tail_def split: sum.splits prod.splits if_splits)
  then show ?r
    by (auto simp: read_exact_Inr read_be_Inr unat_of_nat)
next
  assume r: ?r
  have "unat (fm_chunk_index m) < 65536" "unat (fm_total_chunks m) < 65536"
    using unat_less_exp [of "fm_chunk_index m"] unat_less_exp [of "fm_total_chunks m"] by simp_all
  with r show ?l by (simp add: read_chunk_tail_def)
qed

text \<open>C29. The wire form of a chunk is exact. The reader returns a message and the rest of the
  buffer exactly when the buffer starts with what the writer puts out for that message and the
  message is one it allows: a known kind, a canonical funding txid, a file id of the form the kind
  asks for, at most 65535 bytes of data. So every allowed message is read back as it was sent, no
  two byte strings stand for the same message, and nothing else is ever handed to the receiver.\<close>

theorem rgb_file_wire_exact:
  "read_rgb_file buf = Inr (m, rest) \<longleftrightarrow> wire_ok m \<and> buf = write_rgb_file m @ rest"
  (is "?l \<longleftrightarrow> ?r")
proof
  assume ?l
  then obtain b1 k b2 t b3 f b4 where r: "read_be 1 buf = Inr (WIRE_VERSION, b1)"
    "read_be 1 b1 = Inr (k, b2)" "word_of_nat k \<in> {FILE_KIND_CONSIGNMENT, FILE_KIND_MEDIA}"
    "read_wire_string b2 = Inr (t, b3)" "is_hash_hex t" "read_wire_string b3 = Inr (f, b4)"
    "file_id_ok (word_of_nat k) f" "read_chunk_tail (word_of_nat k) t f b4 = Inr (m, rest)"
    by (auto simp: read_rgb_file_def Let_def split: sum.splits prod.splits if_splits)
  then have "unat (fm_file_kind m) = k"
    by (auto simp: read_be_Inr read_chunk_tail_Inr unat_of_nat)
  with r show ?r
    by (auto simp: read_be_Inr read_wire_string_Inr read_chunk_tail_Inr wire_ok_def write_rgb_file_def)
next
  assume r: ?r
  then have k: "unat (fm_file_kind m) < 256" and f: "utf8_valid (as_bytes (fm_file_id m))"
      "length (fm_file_id m) < 65536"
    and t: "utf8_valid (as_bytes (fm_funding_txid m))" "length (fm_funding_txid m) < 65536"
    using unat_less_exp [of "fm_file_kind m"] file_id_valid [of "fm_file_kind m" "fm_file_id m"]
      is_hash_hex_valid [of "fm_funding_txid m"]
    by (auto simp: wire_ok_def is_hash_hex_def)
  let ?tail = "be_bytes 2 (unat (fm_chunk_index m)) @ be_bytes 2 (unat (fm_total_chunks m))
      @ be_bytes 4 (length (fm_data m)) @ fm_data m @ rest"
  let ?ids = "be_bytes 2 (length (as_bytes (fm_file_id m))) @ as_bytes (fm_file_id m) @ ?tail"
  have "read_wire_string (be_bytes 2 (length (as_bytes (fm_funding_txid m)))
      @ as_bytes (fm_funding_txid m) @ ?ids) = Inr (fm_funding_txid m, ?ids)"
    "read_wire_string ?ids = Inr (fm_file_id m, ?tail)"
    "read_chunk_tail (fm_file_kind m) (fm_funding_txid m) (fm_file_id m) ?tail = Inr (m, rest)"
    unfolding read_wire_string_Inr read_chunk_tail_Inr using f t r by (simp_all add: wire_ok_def)
  moreover have "read_be 1 buf = Inr (WIRE_VERSION, be_bytes 1 (unat (fm_file_kind m))
      @ be_bytes 2 (length (as_bytes (fm_funding_txid m))) @ as_bytes (fm_funding_txid m) @ ?ids)"
    unfolding read_be_Inr using r by (simp add: write_rgb_file_def WIRE_VERSION_def)
  ultimately show ?l
    using r k unfolding read_rgb_file_def
    by (auto simp: wire_ok_def Let_def simp del: be_bytes.simps)
qed


section \<open>What a peer can make the node hold\<close>

definition entry_ok :: "reassembly_key \<Rightarrow> reassembly_state \<Rightarrow> bool" where
  "entry_ok k st \<longleftrightarrow> rs_buffered st = sum_list (map (length \<circ> snd) (rs_chunks st))
     \<and> distinct (map fst (rs_chunks st))
     \<and> (\<forall>(i, _) \<in> set (rs_chunks st). i < rs_total_chunks st)
     \<and> (rk_file_kind k \<noteq> FILE_KIND_MEDIA \<longrightarrow> rs_buffered st \<le> MAX_CONSIGNMENT_SIZE)"

definition record_ok :: "ft_config \<Rightarrow> staging_record \<Rightarrow> bool" where
  "record_ok cfg r \<longleftrightarrow> sr_staged_media_bytes r \<le> fc_max_media_bytes cfg
     \<and> sr_staged_media_count r \<le> fc_max_media_files cfg"

definition media_ok :: "ft_config \<Rightarrow> file_transfer \<Rightarrow> bool" where
  "media_ok cfg s \<longleftrightarrow>
     (\<forall>t. sum_list (map (rs_buffered \<circ> snd) (media_in_flight s t)) \<le> fc_max_media_bytes cfg
        \<and> length (media_in_flight s t) \<le> fc_max_media_files cfg)"

definition ft_bounded :: "ft_config \<Rightarrow> file_transfer \<Rightarrow> bool" where
  "ft_bounded cfg s \<longleftrightarrow>
     distinct (map fst (ft_reassembly s)) \<and> distinct (map fst (ft_staged_fundings s))
     \<and> card (set (pending_fundings s)) \<le> fc_max_pending_fundings cfg
     \<and> length (ft_staged_fundings s) \<le> fc_max_pending_fundings cfg
     \<and> (\<forall>(k, r) \<in> set (ft_staged_fundings s). record_ok cfg r)
     \<and> (\<forall>(k, st) \<in> set (ft_reassembly s). entry_ok k st)
     \<and> media_ok cfg s"

text \<open>The steps of the handler: everything the node calls on it, under any answers of the channel
  manager and any outcome of the file system calls. Only a chunk the reader can return is handed
  over.\<close>

inductive ft_step :: "ft_config \<Rightarrow> file_transfer \<Rightarrow> file_transfer \<Rightarrow> bool" for cfg where
  chunk: "wire_ok m \<Longrightarrow> handle_chunk cfg gate fx m sender now s = Some s' \<Longrightarrow> ft_step cfg s s'"
| send_consignment: "queue_consignment peer txid bs s = (r, s') \<Longrightarrow> ft_step cfg s s'"
| send_media: "queue_media peer txid digest bs s = (r, s') \<Longrightarrow> ft_step cfg s s'"
| flush: "ft_get_and_clear_pending_msg s = (ms, s') \<Longrightarrow> ft_step cfg s s'"
| startup: "ft_step cfg s (cleanup_orphans_at gate modified rm at s)"
| forget: "ft_step cfg s (forget_staged_funding ok txid s)"
| sweep: "ft_step cfg s (sweep_stale_state cfg gate rms now s)"
| disconnect: "ft_step cfg s (ft_peer_disconnected peer s)"

inductive ft_reachable :: "ft_config \<Rightarrow> file_transfer \<Rightarrow> bool" for cfg where
  start: "ft_reachable cfg (file_transfer_new d)"
| step: "ft_reachable cfg s \<Longrightarrow> ft_step cfg s s' \<Longrightarrow> ft_reachable cfg s'"

lemma media_ok_filter:
  assumes "media_ok cfg s" "ft_reassembly s' = filter P (ft_reassembly s)"
  shows "media_ok cfg s'"
proof -
  have "media_in_flight s' t = filter P (media_in_flight s t)" for t
    using assms(2) by (simp add: media_in_flight_def conj_commute)
  with assms(1) show ?thesis
    unfolding media_ok_def
    by (metis (no_types) le_trans length_filter_le sum_list_filter_le_nat)
qed

lemma ft_bounded_filter:
  assumes b: "ft_bounded cfg s" and r: "ft_reassembly s' = filter P (ft_reassembly s)"
    and k: "ft_staged_fundings s' = filter Q (ft_staged_fundings s)"
  shows "ft_bounded cfg s'"
proof -
  have "set (pending_fundings s') \<subseteq> set (pending_fundings s)"
    by (auto simp: pending_fundings_def r k)
  then have "card (set (pending_fundings s')) \<le> card (set (pending_fundings s))"
    by (simp add: card_mono)
  moreover have "length (ft_staged_fundings s') \<le> length (ft_staged_fundings s)"
    by (simp add: k)
  moreover have "media_ok cfg s'"
    using media_ok_filter [OF _ r] b by (simp add: ft_bounded_def)
  ultimately show ?thesis
    using b by (auto simp: ft_bounded_def r k distinct_map_filter intro: le_trans [OF length_filter_le])
qed

lemma ft_bounded_same:
  assumes "ft_bounded cfg s" "ft_reassembly s' = ft_reassembly s"
    "ft_staged_fundings s' = ft_staged_fundings s"
  shows "ft_bounded cfg s'"
  using ft_bounded_filter [OF assms(1), of s' "\<lambda>_. True" "\<lambda>_. True"] assms(2,3) by simp

lemma retain_staging_filter:
  "(\<And>kr d. fst (f kr d) = P kr) \<Longrightarrow> fst (retain_staging f krs d) = filter P krs"
proof (induction krs arbitrary: d)
  case (Cons kr krs)
  from Cons.prems [of kr d] have "fst (f kr d) = P kr" .
  with Cons.IH [OF Cons.prems] show ?case
    by (cases "f kr d") (auto split: prod.splits dest: arg_cong [of _ _ fst])
qed simp


text \<open>The conditions under which a chunk is taken, and the three ways a chunk is handled.\<close>

definition held_for :: "file_transfer \<Rightarrow> reassembly_key \<Rightarrow> nat" where
  "held_for s key = (case map_of (ft_reassembly s) key of None \<Rightarrow> 0 | Some st \<Rightarrow> rs_buffered st)"

definition takes_chunk :: "ft_config \<Rightarrow> file_transfer \<Rightarrow> rgb_file_message \<Rightarrow> reassembly_key \<Rightarrow> bool" where
  "takes_chunk cfg s m key \<longleftrightarrow>
     fm_total_chunks m \<noteq> 0 \<and> fm_chunk_index m < fm_total_chunks m \<and> valid_len m
     \<and> (\<forall>st. map_of (ft_reassembly s) key = Some st \<longrightarrow>
          map_of (rs_chunks st) (fm_chunk_index m) = None \<and> rs_total_chunks st = fm_total_chunks m)
     \<and> \<not> fundings_full cfg s (rk_funding_txid key)
     \<and> (rk_file_kind key = FILE_KIND_MEDIA \<longrightarrow>
          \<not> media_refused cfg s key (held_for s key + length (fm_data m)))
     \<and> (rk_file_kind key \<noteq> FILE_KIND_MEDIA \<longrightarrow>
          held_for s key + length (fm_data m) \<le> MAX_CONSIGNMENT_SIZE)"

lemma handle_chunk_taken:
  assumes "channel_count_with gate sender \<noteq> 0" "\<not> has_channel_funded_by gate (fm_funding_txid m)"
    "takes_chunk cfg s m (chunk_key m sender)"
  shows "handle_chunk cfg gate fx m sender now s = accept_chunk cfg fx m (chunk_key m sender) now s"
  using assms
  by (cases "map_of (ft_reassembly s) (chunk_key m sender)")
    (auto simp: handle_chunk_def takes_chunk_def held_for_def Let_def)

lemma handle_chunk_cases:
  assumes "handle_chunk cfg gate fx m sender now s = Some s'"
  obtains (same) "s' = s" | (dropped) "s' = drop_transfer (chunk_key m sender) s"
  | (taken) "takes_chunk cfg s m (chunk_key m sender)"
      "accept_chunk cfg fx m (chunk_key m sender) now s = Some s'"
proof (cases "s' = s \<or> s' = drop_transfer (chunk_key m sender) s")
  case False
  with assms have "takes_chunk cfg s m (chunk_key m sender)"
    by (cases "map_of (ft_reassembly s) (chunk_key m sender)")
      (auto simp: handle_chunk_def takes_chunk_def held_for_def Let_def split: if_splits)
  moreover from False assms have "accept_chunk cfg fx m (chunk_key m sender) now s = Some s'"
    by (auto simp: handle_chunk_def Let_def split: if_splits)
  ultimately show ?thesis by (rule taken)
qed (use same dropped in blast)

text \<open>The entry a taken chunk leaves behind.\<close>

definition next_entry :: "file_transfer \<Rightarrow> rgb_file_message \<Rightarrow> reassembly_key \<Rightarrow> nat \<Rightarrow> reassembly_state" where
  "next_entry s m key now =
     \<lparr>rs_total_chunks = fm_total_chunks m,
      rs_chunks = AList.update (fm_chunk_index m) (fm_data m)
        (case map_of (ft_reassembly s) key of None \<Rightarrow> [] | Some st \<Rightarrow> rs_chunks st),
      rs_buffered = held_for s key + length (fm_data m), rs_last_progress = now\<rparr>"

lemma accept_chunk_eq:
  assumes "takes_chunk cfg s m key"
  shows "accept_chunk cfg fx m key now s =
    (if transfer_complete (next_entry s m key now)
     then persist_file cfg fx key (assembled (next_entry s m key now)) now (drop_transfer key s)
     else Some (s\<lparr>ft_reassembly := AList.update key (next_entry s m key now) (ft_reassembly s)\<rparr>))"
proof (cases "map_of (ft_reassembly s) key")
  case None
  then show ?thesis
    by (simp add: accept_chunk_def next_entry_def held_for_def drop_transfer_def
        reassembly_state_new_def Let_def)
next
  case (Some st)
  with assms have "rs_total_chunks st = fm_total_chunks m" "fm_total_chunks m \<noteq> 0"
    by (simp_all add: takes_chunk_def)
  with Some show ?thesis
    by (cases st) (simp add: accept_chunk_def next_entry_def held_for_def drop_transfer_def Let_def)
qed

lemma sum_update_fresh:
  "map_of xs k = None \<Longrightarrow>
   sum_list (map (length \<circ> snd) (AList.update k v xs)) = sum_list (map (length \<circ> snd) xs) + length v"
  by (induction xs) (auto split: if_splits)

lemma next_entry_ok:
  assumes t: "takes_chunk cfg s m key" and e: "\<forall>(k, st) \<in> set (ft_reassembly s). entry_ok k st"
  shows "entry_ok key (next_entry s m key now)"
proof (cases "map_of (ft_reassembly s) key")
  case None
  with t show ?thesis
    by (simp add: entry_ok_def next_entry_def held_for_def takes_chunk_def)
next
  case (Some st)
  with e have "entry_ok key st" by (auto dest: map_of_SomeD)
  moreover from t Some have "map_of (rs_chunks st) (fm_chunk_index m) = None"
    "rs_total_chunks st = fm_total_chunks m" by (simp_all add: takes_chunk_def)
  ultimately show ?thesis
    using t Some
    by (auto simp: entry_ok_def next_entry_def held_for_def takes_chunk_def sum_update_fresh
        distinct_update dest!: in_set_update)
qed


lemma pending_card:
  assumes "ft_bounded cfg s" "\<not> fundings_full cfg s txid"
  shows "card (insert txid (set (pending_fundings s))) \<le> fc_max_pending_fundings cfg"
proof (cases "txid \<in> set (pending_fundings s)")
  case True
  with assms(1) show ?thesis by (simp add: insert_absorb ft_bounded_def)
next
  case False
  with assms(2) show ?thesis
    by (simp add: fundings_full_def length_remdups_card_conv)
qed

text \<open>A staged record may be added or rewritten within the limits.\<close>

lemma ft_bounded_staged:
  assumes b: "ft_bounded cfg s" and r: "record_ok cfg r"
    and c: "card (insert (sk_funding_txid sk) (set (pending_fundings s))) \<le> fc_max_pending_fundings cfg"
    and n: "map_of (ft_staged_fundings s) sk = None \<Longrightarrow>
      length (ft_staged_fundings s) < fc_max_pending_fundings cfg"
  shows "ft_bounded cfg (s\<lparr>ft_staged_fundings := AList.update sk r (ft_staged_fundings s),
      ft_data_dir := d\<rparr>)" (is "ft_bounded cfg ?s'")
proof -
  from b n have l: "length (AList.update sk r (ft_staged_fundings s)) \<le> fc_max_pending_fundings cfg"
    by (auto simp: ft_bounded_def length_update)
  have "set (pending_fundings ?s') \<subseteq> insert (sk_funding_txid sk) (set (pending_fundings s))"
    by (auto simp: pending_fundings_def dest!: in_set_update)
  then have "card (set (pending_fundings ?s')) \<le> fc_max_pending_fundings cfg"
    using c by (meson card_mono finite_insert finite_set le_trans)
  moreover have "media_ok cfg ?s'"
    using b by (simp add: ft_bounded_def media_ok_def media_in_flight_def)
  ultimately show ?thesis
    using b r l by (auto simp: ft_bounded_def distinct_update dest!: in_set_update)
qed

lemma persist_consignment_bounded:
  assumes b: "ft_bounded cfg s"
    and c: "card (insert (rk_funding_txid key) (set (pending_fundings s))) \<le> fc_max_pending_fundings cfg"
  shows "ft_bounded cfg (persist_consignment cfg fx key bs now s)"
proof -
  have "record_ok cfg \<lparr>sr_written_at = now, sr_staged_media_bytes = 0, sr_staged_media_count = 0\<rparr>"
    by (simp add: record_ok_def)
  with b c show ?thesis
    by (auto simp: persist_consignment_def Let_def ft_bounded_same [OF b] split: prod.splits bool.splits
        intro!: ft_bounded_staged)
qed

lemma persist_media_bounded:
  assumes b: "ft_bounded cfg s"
  shows "ft_bounded cfg (persist_media cfg fx key bs s)"
proof -
  let ?sk = "\<lparr>sk_peer = rk_peer key, sk_funding_txid = rk_funding_txid key\<rparr>"
  have "ft_bounded cfg (s\<lparr>ft_staged_fundings := AList.update ?sk
      (r\<lparr>sr_staged_media_bytes := sr_staged_media_bytes r + length bs,
         sr_staged_media_count := sr_staged_media_count r + 1\<rparr>) (ft_staged_fundings s),
      ft_data_dir := d\<rparr>)"
    if r: "map_of (ft_staged_fundings s) ?sk = Some r"
      "\<not> fc_max_media_bytes cfg < sr_staged_media_bytes r + length bs"
      "\<not> fc_max_media_files cfg \<le> sr_staged_media_count r" for r d
  proof (rule ft_bounded_staged [OF b])
    have "sk_funding_txid ?sk \<in> set (pending_fundings s)"
      using map_of_SomeD [OF r(1)] by (force simp: pending_fundings_def)
    with b show "card (insert (sk_funding_txid ?sk) (set (pending_fundings s))) \<le> fc_max_pending_fundings cfg"
      by (simp add: insert_absorb ft_bounded_def)
  qed (use r in \<open>auto simp: record_ok_def\<close>)
  then show ?thesis
    using b by (auto simp: persist_media_def Let_def ft_bounded_same [OF b]
        split: prod.splits bool.splits option.splits)
qed

lemma drop_transfer_bounded: "ft_bounded cfg s \<Longrightarrow> ft_bounded cfg (drop_transfer key s)"
  by (rule ft_bounded_filter [where P = "\<lambda>(k, _). key \<noteq> k" and Q = "\<lambda>_. True"])
    (simp_all add: drop_transfer_def AList.delete_eq)

lemma persist_file_bounded:
  assumes "ft_bounded cfg s" "\<not> fundings_full cfg s (rk_funding_txid key)"
    "persist_file cfg fx key bs now (drop_transfer key s) = Some s'"
  shows "ft_bounded cfg s'"
proof -
  have "insert (rk_funding_txid key) (set (pending_fundings (drop_transfer key s)))
      \<subseteq> insert (rk_funding_txid key) (set (pending_fundings s))"
    by (auto simp: pending_fundings_def drop_transfer_def AList.delete_eq)
  then have "card (insert (rk_funding_txid key) (set (pending_fundings (drop_transfer key s))))
      \<le> fc_max_pending_fundings cfg"
    using pending_card [OF assms(1,2)] by (meson card_mono finite_insert finite_set le_trans)
  with assms(1,3) show ?thesis
    by (auto simp: persist_file_def split: if_splits
        intro!: persist_consignment_bounded persist_media_bounded drop_transfer_bounded)
qed


lemma media_ok_update:
  assumes b: "ft_bounded cfg s" and t: "takes_chunk cfg s m key"
  shows "media_ok cfg (s\<lparr>ft_reassembly := AList.update key (next_entry s m key now) (ft_reassembly s)\<rparr>)"
    (is "media_ok cfg ?s'")
  unfolding media_ok_def
proof
  fix txid
  let ?P = "\<lambda>(k, _ :: reassembly_state). rk_file_kind k = FILE_KIND_MEDIA \<and> rk_funding_txid k = txid"
  let ?r = "ft_reassembly s" and ?st = "next_entry s m key now"
  let ?rest = "filter ?P (AList.delete key ?r)"
  from b have d: "distinct (map fst ?r)"
    and m: "sum_list (map (rs_buffered \<circ> snd) (filter ?P ?r)) \<le> fc_max_media_bytes cfg"
      "length (filter ?P ?r) \<le> fc_max_media_files cfg"
    by (simp_all add: ft_bounded_def media_ok_def media_in_flight_def)
  have rest: "?rest = filter (\<lambda>(k, _). k \<noteq> key) (filter ?P ?r)"
    by (simp add: AList.delete_eq case_prod_beta conj_commute eq_commute)
  have le: "sum_list (map (rs_buffered \<circ> snd) ?rest) \<le> sum_list (map (rs_buffered \<circ> snd) (filter ?P ?r))"
    "length ?rest \<le> length (filter ?P ?r)"
    unfolding rest by (rule sum_list_filter_le_nat, rule length_filter_le)
  show "sum_list (map (rs_buffered \<circ> snd) (media_in_flight ?s' txid)) \<le> fc_max_media_bytes cfg
      \<and> length (media_in_flight ?s' txid) \<le> fc_max_media_files cfg"
  proof (cases "?P (key, ?st)")
    case False
    then have "sum_list (map (rs_buffered \<circ> snd) (media_in_flight ?s' txid)) = sum_list (map (rs_buffered \<circ> snd) ?rest)"
      "length (media_in_flight ?s' txid) = length ?rest"
      using sum_filter_update [OF d, of "rs_buffered \<circ> snd" ?P key ?st]
        length_filter_update [OF d, of ?P key ?st] by (auto simp: media_in_flight_def)
    with m le show ?thesis by linarith
  next
    case True
    with t have nr: "\<not> media_refused cfg s key (held_for s key + length (fm_data m))"
      and tx: "rk_funding_txid key = txid" by (simp_all add: takes_chunk_def)
    from True have "sum_list (map (rs_buffered \<circ> snd) (media_in_flight ?s' txid))
        = sum_list (map (rs_buffered \<circ> snd) ?rest) + rs_buffered ?st"
      and l: "length (media_in_flight ?s' txid) = Suc (length ?rest)"
      using sum_filter_update [OF d, of "rs_buffered \<circ> snd" ?P key ?st]
        length_filter_update [OF d, of ?P key ?st] by (simp_all add: media_in_flight_def)
    moreover have "rs_buffered ?st = held_for s key + length (fm_data m)"
      by (simp add: next_entry_def)
    moreover have "sum_list (map (rs_buffered \<circ> snd) ?rest) + (held_for s key + length (fm_data m))
        \<le> fc_max_media_bytes cfg"
      using nr tx unfolding rest by (simp add: media_refused_def media_in_flight_def Let_def not_less)
    moreover have "Suc (length ?rest) \<le> fc_max_media_files cfg"
    proof (cases "map_of ?r key")
      case None
      then have "length (filter ?P ?r) < fc_max_media_files cfg"
        using nr tx by (simp add: media_refused_def media_in_flight_def Let_def)
      with le(2) show ?thesis by linarith
    next
      case (Some st)
      from True have "?P (key, st)" by simp
      with m(2) length_filter_delete [OF d Some, of ?P] show ?thesis by linarith
    qed
    ultimately show ?thesis by linarith
  qed
qed

lemma accept_chunk_bounded:
  assumes b: "ft_bounded cfg s" and t: "takes_chunk cfg s m key"
    and a: "accept_chunk cfg fx m key now s = Some s'"
  shows "ft_bounded cfg s'"
proof (cases "transfer_complete (next_entry s m key now)")
  case True
  with a t show ?thesis
    by (intro persist_file_bounded [OF b, of key fx _ now]) (simp_all add: accept_chunk_eq takes_chunk_def)
next
  case False
  let ?s' = "s\<lparr>ft_reassembly := AList.update key (next_entry s m key now) (ft_reassembly s)\<rparr>"
  from False a t have s': "s' = ?s'" by (simp add: accept_chunk_eq)
  have "set (pending_fundings ?s') \<subseteq> insert (rk_funding_txid key) (set (pending_fundings s))"
    by (auto simp: pending_fundings_def dest!: in_set_update)
  moreover have "card (insert (rk_funding_txid key) (set (pending_fundings s))) \<le> fc_max_pending_fundings cfg"
    using t by (intro pending_card [OF b]) (simp add: takes_chunk_def)
  ultimately have "card (set (pending_fundings ?s')) \<le> fc_max_pending_fundings cfg"
    by (meson card_mono finite_insert finite_set le_trans)
  moreover have "entry_ok key (next_entry s m key now)"
    using b by (intro next_entry_ok [OF t]) (simp add: ft_bounded_def)
  moreover note media_ok_update [OF b t, of now]
  ultimately show ?thesis
    using b unfolding s' ft_bounded_def
    by (simp add: distinct_update) (auto dest!: in_set_update)
qed

lemma sweep_staged:
  "ft_staged_fundings (sweep_unfunded_stagings_at cfg gate rms now s)
     = filter (\<lambda>kr. fst (sweep_staging cfg gate rms now kr [])) (ft_staged_fundings s)"
  using retain_staging_filter [of "sweep_staging cfg gate rms now"
      "\<lambda>kr. fst (sweep_staging cfg gate rms now kr [])" "ft_staged_fundings s" "ft_data_dir s"]
  by (simp add: sweep_unfunded_stagings_at_def sweep_staging_def Let_def case_prod_beta)

lemma sweep_bounded:
  assumes "ft_bounded cfg s"
  shows "ft_bounded cfg (sweep_stale_state cfg gate rms now s)"
proof -
  have "ft_bounded cfg (sweep_stale_transfers_at now s)"
    by (rule ft_bounded_filter [OF assms, where Q = "\<lambda>_. True"]) (simp_all add: sweep_stale_transfers_at_def)
  then show ?thesis
    unfolding sweep_stale_state_def
    by (rule ft_bounded_filter [where P = "\<lambda>_. True", OF _ _ sweep_staged])
      (simp add: sweep_unfunded_stagings_at_def case_prod_beta)
qed

lemma handle_chunk_bounded:
  assumes "handle_chunk cfg gate fx m sender now s = Some s'" "ft_bounded cfg s"
  shows "ft_bounded cfg s'"
  using assms(1)
proof (cases rule: handle_chunk_cases)
  case same
  with assms(2) show ?thesis by simp
next
  case dropped
  with assms(2) show ?thesis by (simp add: drop_transfer_bounded)
next
  case taken
  then show ?thesis by (rule accept_chunk_bounded [OF assms(2)])
qed

lemma queue_file_bounded:
  "ft_bounded cfg s \<Longrightarrow> queue_file peer kind txid file_id bs s = (r, s') \<Longrightarrow> ft_bounded cfg s'"
  by (rule ft_bounded_same, assumption) (auto simp: queue_file_def split: if_splits option.splits)

lemma ft_step_bounded:
  assumes "ft_step cfg s s'" "ft_bounded cfg s"
  shows "ft_bounded cfg s'"
  using assms(1)
proof (cases rule: ft_step.cases)
  case (chunk m gate fx sender now)
  then show ?thesis by (intro handle_chunk_bounded [OF _ assms(2)])
next
  case (send_consignment peer txid bs r)
  then show ?thesis by (intro queue_file_bounded [OF assms(2)]) (simp add: queue_consignment_def)
next
  case (send_media peer txid digest bs r)
  then show ?thesis by (intro queue_file_bounded [OF assms(2)]) (simp add: queue_media_def)
next
  case (flush ms)
  then show ?thesis
    by (intro ft_bounded_same [OF assms(2)]) (auto simp: ft_get_and_clear_pending_msg_def)
next
  case (startup gate modified rm at)
  then show ?thesis
    by (intro ft_bounded_same [OF assms(2)]) (simp_all add: cleanup_orphans_at_def)
next
  case (forget ok txid)
  then show ?thesis
    by (intro ft_bounded_filter [OF assms(2), where P = "\<lambda>_. True"]) (simp_all add: forget_staged_funding_def)
next
  case (sweep gate rms now)
  then show ?thesis by (simp add: sweep_bounded [OF assms(2)])
next
  case (disconnect peer)
  then show ?thesis
    by (intro ft_bounded_filter [OF assms(2), where Q = "\<lambda>_. True"]) (simp_all add: ft_peer_disconnected_def)
qed


lemma ft_reachable_bounded: "ft_reachable cfg s \<Longrightarrow> ft_bounded cfg s"
proof (induction rule: ft_reachable.induct)
  case (start d)
  then show ?case
    by (simp add: ft_bounded_def file_transfer_new_def media_ok_def media_in_flight_def pending_fundings_def)
qed (rule ft_step_bounded)

definition media_bytes_in_flight :: "file_transfer \<Rightarrow> nat" where
  "media_bytes_in_flight s = sum_list (map (rs_buffered \<circ> snd)
     (filter (\<lambda>(k, _). rk_file_kind k = FILE_KIND_MEDIA) (ft_reassembly s)))"

lemma media_bytes_total:
  assumes "ft_bounded cfg s"
  shows "media_bytes_in_flight s \<le> fc_max_pending_fundings cfg * fc_max_media_bytes cfg"
proof -
  let ?T = "set (pending_fundings s)"
  have "media_bytes_in_flight s = (\<Sum>t\<in>?T. sum_list (map (rs_buffered \<circ> snd) (media_in_flight s t)))"
    unfolding media_bytes_in_flight_def media_in_flight_def
    by (subst sum_filter_groups [where T = ?T and g = "rk_funding_txid \<circ> fst"])
      (auto simp: pending_fundings_def case_prod_unfold)
  also have "\<dots> \<le> (\<Sum>t\<in>?T. fc_max_media_bytes cfg)"
    using assms by (intro sum_mono) (simp add: ft_bounded_def media_ok_def)
  also have "\<dots> \<le> fc_max_pending_fundings cfg * fc_max_media_bytes cfg"
    using assms by (simp add: ft_bounded_def)
  finally show ?thesis .
qed

text \<open>C28. What peers can make the node hold. In every state the handler can reach, whatever the
  channel manager answers and whichever file operations fail, at most the configured number of
  fundings is pending and at most that many are staged; the media staged for a funding and the
  media in flight for it each keep to the byte and file limits, so that all media in flight fit in
  the product of the two limits; every single consignment in flight is at most 16 MiB; and the
  number of bytes counted for a transfer is the number it holds.\<close>

theorem file_transfer_bounds:
  assumes "ft_reachable cfg s"
  shows "card (set (pending_fundings s)) \<le> fc_max_pending_fundings cfg
    \<and> length (ft_staged_fundings s) \<le> fc_max_pending_fundings cfg
    \<and> (\<forall>(k, r) \<in> set (ft_staged_fundings s). sr_staged_media_bytes r \<le> fc_max_media_bytes cfg
          \<and> sr_staged_media_count r \<le> fc_max_media_files cfg)
    \<and> (\<forall>txid. length (media_in_flight s txid) \<le> fc_max_media_files cfg)
    \<and> media_bytes_in_flight s \<le> fc_max_pending_fundings cfg * fc_max_media_bytes cfg
    \<and> (\<forall>(k, st) \<in> set (ft_reassembly s). rs_buffered st = sum_list (map (length \<circ> snd) (rs_chunks st))
          \<and> (rk_file_kind k \<noteq> FILE_KIND_MEDIA \<longrightarrow> rs_buffered st \<le> MAX_CONSIGNMENT_SIZE))"
proof -
  have b: "ft_bounded cfg s" by (rule ft_reachable_bounded [OF assms])
  then show ?thesis
    using media_bytes_total [OF b]
    by (auto simp: ft_bounded_def record_ok_def entry_ok_def media_ok_def)
qed

definition demo_cfg :: "nat \<Rightarrow> ft_config" where
  "demo_cfg n = \<lparr>fc_max_pending_fundings = n, fc_max_media_bytes = 100, fc_max_media_files = 2,
     fc_sha256 = (\<lambda>bs. replicate 32 (word_of_nat (length bs))),
     fc_media_staging_dir = (\<lambda>t. ''media_staging_'' @ t)\<rparr>"

definition demo_gate :: channel_gate where
  "demo_gate = \<lparr>channel_count_with = (\<lambda>_. 1), has_channel_funded_by = (\<lambda>_. False)\<rparr>"

definition demo_txid :: string where
  "demo_txid = replicate 64 CHR ''a''"

definition demo_faults :: persist_faults where
  "demo_faults = \<lparr>pf_create_dir = True, pf_write = Wrote\<rparr>"

lemma demo_txid_hex: "is_hash_hex demo_txid"
  by (simp add: demo_txid_def is_hash_hex_def is_ascii_hexdigit_def list_all_iff)

definition consignment_chunk :: "string \<Rightarrow> u16 \<Rightarrow> u16 \<Rightarrow> bytes \<Rightarrow> rgb_file_message" where
  "consignment_chunk txid i n bs =
     \<lparr>fm_file_kind = FILE_KIND_CONSIGNMENT, fm_funding_txid = txid, fm_file_id = [],
      fm_chunk_index = i, fm_total_chunks = n, fm_data = bs\<rparr>"

text \<open>The last chunk of two, from a peer with a channel.\<close>

definition demo_transfer :: "node_id \<Rightarrow> file_transfer" where
  "demo_transfer peer = \<lparr>ft_reassembly =
       [(chunk_key (consignment_chunk demo_txid 1 2 [7]) peer,
         \<lparr>rs_total_chunks = 2, rs_chunks = [(1, [7])], rs_buffered = 1, rs_last_progress = 5\<rparr>)],
     ft_staged_fundings = [], ft_outbound = [], ft_data_dir = []\<rparr>"

lemma demo_reachable: "ft_reachable (demo_cfg 1) (demo_transfer [2])"
proof (rule ft_reachable.step [OF ft_reachable.start [of _ "[]"] ft_step.chunk])
  show "wire_ok (consignment_chunk demo_txid 1 2 [7])"
    by (simp add: wire_ok_def consignment_chunk_def demo_txid_hex file_id_ok_def)
  show "handle_chunk (demo_cfg 1) demo_gate demo_faults (consignment_chunk demo_txid 1 2 [7]) [2] 5
      (file_transfer_new []) = Some (demo_transfer [2])"
    by (simp add: handle_chunk_def demo_gate_def file_transfer_new_def valid_len_def consignment_chunk_def
        chunk_key_def fundings_full_def pending_fundings_def demo_cfg_def FILE_KIND_CONSIGNMENT_def
        FILE_KIND_MEDIA_def MAX_CONSIGNMENT_SIZE_def CHUNK_SIZE_def accept_chunk_def Let_def
        reassembly_state_new_def transfer_complete_def chunk_indices_def demo_transfer_def
        word_le_nat_alt upt_rec)
qed

theorem file_transfer_bounds_witness:
  "ft_reachable (demo_cfg 1) (demo_transfer [2]) \<and> card (set (pending_fundings (demo_transfer [2]))) \<le> 1
   \<and> length (ft_reassembly (demo_transfer [2])) = 1"
  using file_transfer_bounds [OF demo_reachable] demo_reachable by (simp add: demo_cfg_def demo_transfer_def)


section \<open>Many peers, one funding\<close>

definition consignment_bytes_in_flight :: "file_transfer \<Rightarrow> nat" where
  "consignment_bytes_in_flight s = sum_list (map (rs_buffered \<circ> snd)
     (filter (\<lambda>(k, _). rk_file_kind k = FILE_KIND_CONSIGNMENT) (ft_reassembly s)))"

text \<open>The state after the first of two chunks from each of \<open>n\<close> peers, all for one funding txid.\<close>

abbreviation first_chunk :: rgb_file_message where
  "first_chunk \<equiv> consignment_chunk demo_txid 0 2 (replicate CHUNK_SIZE 0)"

definition crowd :: "nat \<Rightarrow> file_transfer" where
  "crowd n = \<lparr>ft_reassembly = map (\<lambda>i. (chunk_key first_chunk (be_bytes 33 i),
        \<lparr>rs_total_chunks = 2, rs_chunks = [(0, replicate CHUNK_SIZE 0)], rs_buffered = CHUNK_SIZE,
         rs_last_progress = 0\<rparr>)) [0..<n],
     ft_staged_fundings = [], ft_outbound = [], ft_data_dir = []\<rparr>"

lemma crowd_fresh:
  assumes "n < 256 ^ 33"
  shows "map_of (ft_reassembly (crowd n)) (chunk_key first_chunk (be_bytes 33 n)) = None"
proof -
  have "i \<notin> {0..<n}" if "be_bytes 33 n = be_bytes 33 i" for i
    using be_bytes_inj [OF that] assms by auto
  then show ?thesis
    by (auto simp: map_of_eq_None_iff crowd_def chunk_key_def)
qed

lemma crowd_step:
  assumes n: "n < 256 ^ 33" and c: "1 \<le> fc_max_pending_fundings cfg"
  shows "ft_step cfg (crowd n) (crowd (Suc n))"
proof (rule ft_step.chunk)
  show "wire_ok first_chunk"
    by (simp add: wire_ok_def consignment_chunk_def demo_txid_hex file_id_ok_def CHUNK_SIZE_def)
  let ?key = "chunk_key first_chunk (be_bytes 33 n)"
  note fresh = crowd_fresh [OF n]
  have "takes_chunk cfg (crowd n) first_chunk ?key"
  proof -
    have "\<not> fundings_full cfg (crowd n) (rk_funding_txid ?key)"
      using c by (cases n) (auto simp: fundings_full_def pending_fundings_def crowd_def chunk_key_def)
    with fresh show ?thesis
      by (simp add: takes_chunk_def held_for_def valid_len_def chunk_key_def consignment_chunk_def
          FILE_KIND_CONSIGNMENT_def FILE_KIND_MEDIA_def MAX_CONSIGNMENT_SIZE_def CHUNK_SIZE_def
          word_less_nat_alt)
  qed
  moreover have "\<not> transfer_complete (next_entry (crowd n) first_chunk ?key 0)"
    using fresh by (simp add: transfer_complete_def next_entry_def chunk_indices_def consignment_chunk_def
        upt_rec)
  moreover have "next_entry (crowd n) first_chunk ?key 0 = \<lparr>rs_total_chunks = 2,
      rs_chunks = [(0, replicate CHUNK_SIZE 0)], rs_buffered = CHUNK_SIZE, rs_last_progress = 0\<rparr>"
    using fresh by (simp add: next_entry_def held_for_def consignment_chunk_def)
  ultimately show "handle_chunk cfg demo_gate demo_faults first_chunk (be_bytes 33 n) 0 (crowd n)
      = Some (crowd (Suc n))"
    using fresh
    by (subst handle_chunk_taken) (simp_all add: demo_gate_def accept_chunk_eq update_fresh crowd_def)
qed

lemma crowd_reachable:
  "n \<le> 256 ^ 33 \<Longrightarrow> 1 \<le> fc_max_pending_fundings cfg \<Longrightarrow> ft_reachable cfg (crowd n)"
proof (induction n)
  case 0
  have "crowd 0 = file_transfer_new []" by (simp add: crowd_def file_transfer_new_def)
  then show ?case by (simp add: ft_reachable.start)
next
  case (Suc n)
  then show ?case by (intro ft_reachable.step [OF Suc.IH crowd_step]) auto
qed

lemma crowd_bytes: "consignment_bytes_in_flight (crowd n) = n * CHUNK_SIZE"
  by (simp add: consignment_bytes_in_flight_def crowd_def chunk_key_def consignment_chunk_def
      filter_map comp_def sum_list_triv)

text \<open>The node-wide limit on consignments does not bound the memory they take. The limit counts
  distinct funding txids, and a funding txid that some peer already named is let through for every
  other peer, while each peer buffers its own copy. Whatever the limit, the handler reaches a state
  with a single pending funding in which the consignments in flight take more memory than the
  documented bound, the limit times the size of the largest consignment.\<close>

theorem consignment_memory_exceeds_cap:
  assumes "1 \<le> fc_max_pending_fundings cfg" "fc_max_pending_fundings cfg < 2 ^ 64"
  shows "\<exists>s. ft_reachable cfg s \<and> card (set (pending_fundings s)) = 1
    \<and> fc_max_pending_fundings cfg * MAX_CONSIGNMENT_SIZE < consignment_bytes_in_flight s"
proof (intro exI conjI)
  let ?n = "fc_max_pending_fundings cfg * 280 + 1"
  have "?n \<le> 2 ^ 64 * 280" using assms(2) by simp
  then show "ft_reachable cfg (crowd ?n)"
    by (intro crowd_reachable [OF _ assms(1)]) simp
  have "set (pending_fundings (crowd ?n)) = {demo_txid}"
    by (auto simp: pending_fundings_def crowd_def chunk_key_def consignment_chunk_def)
  then show "card (set (pending_fundings (crowd ?n))) = 1" by simp
  show "fc_max_pending_fundings cfg * MAX_CONSIGNMENT_SIZE < consignment_bytes_in_flight (crowd ?n)"
    by (simp add: crowd_bytes MAX_CONSIGNMENT_SIZE_def CHUNK_SIZE_def)
qed

theorem consignment_memory_exceeds_cap_witness:
  "\<exists>s. ft_reachable (demo_cfg 10) s \<and> card (set (pending_fundings s)) = 1
    \<and> 10 * MAX_CONSIGNMENT_SIZE < consignment_bytes_in_flight s"
  using consignment_memory_exceeds_cap [of "demo_cfg 10"] by (simp add: demo_cfg_def)

end
