(* ===== verification/File_Transfer_Delivery.thy ===== *)
theory File_Transfer_Delivery
  imports File_Transfer_Props
begin

text \<open>
  From the sender's queue to the receiver's disk: the chunks that \<open>queue_file\<close> puts out, handled by
  \<open>handle_chunk\<close> in any order, hand exactly the file to \<open>persist_file\<close> and leave the receiver
  otherwise as it was.
\<close>

section \<open>The chunks of a file\<close>

lemma CHUNK_SIZE_pos [simp]: "0 < CHUNK_SIZE"
  by (simp add: CHUNK_SIZE_def)

lemma slice_chunks_Nil [simp]: "slice_chunks [] = []"
  by (simp add: slice_chunks.simps)

lemma slice_chunks_step:
  "bs \<noteq> [] \<Longrightarrow> slice_chunks bs = take CHUNK_SIZE bs # slice_chunks (drop CHUNK_SIZE bs)"
  by (simp add: slice_chunks.simps)

lemma concat_slice_chunks: "concat (slice_chunks bs) = bs"
proof (induction bs rule: slice_chunks.induct)
  case (1 bs)
  then show ?case by (cases "bs = []") (simp_all add: slice_chunks_step)
qed

lemma slice_chunks_eq_Nil [simp]: "slice_chunks bs = [] \<longleftrightarrow> bs = []"
  by (cases "bs = []") (simp_all add: slice_chunks_step)

lemma length_slice_chunks:
  "length (slice_chunks bs) = length bs div CHUNK_SIZE + (if length bs mod CHUNK_SIZE = 0 then 0 else 1)"
proof (induction bs rule: slice_chunks.induct)
  case (1 bs)
  show ?case
  proof (cases "length bs < CHUNK_SIZE")
    case True
    then show ?thesis by (cases "bs = []") (simp_all add: slice_chunks_step)
  next
    case False
    then have "bs \<noteq> []" using CHUNK_SIZE_pos by auto
    with 1 False show ?thesis
      by (simp add: slice_chunks_step le_div_geq le_mod_geq)
  qed
qed

lemma chunk_count_slices:
  "chunk_count (length bs) =
     (if length (slice_chunks bs) < 2 ^ 16 then Some (word_of_nat (length (slice_chunks bs))) else None)"
  by (simp add: chunk_count_def length_slice_chunks Let_def)

text \<open>Every slice but the last is full, and the last is not empty.\<close>

lemma slice_length:
  "i < length (slice_chunks bs) \<Longrightarrow>
   (if i = length (slice_chunks bs) - 1
    then 1 \<le> length (slice_chunks bs ! i) \<and> length (slice_chunks bs ! i) \<le> CHUNK_SIZE
    else length (slice_chunks bs ! i) = CHUNK_SIZE)"
proof (induction bs arbitrary: i rule: slice_chunks.induct)
  case (1 bs)
  from 1(2) have ne: "bs \<noteq> []" by auto
  show ?case
  proof (cases i)
    case 0
    show ?thesis
    proof (cases "drop CHUNK_SIZE bs = []")
      case True
      with ne 0 show ?thesis by (simp add: slice_chunks_step Suc_le_eq)
    next
      case False
      with ne 0 show ?thesis by (simp add: slice_chunks_step)
    qed
  next
    case (Suc j)
    with 1(2) ne have j: "j < length (slice_chunks (drop CHUNK_SIZE bs))"
      by (simp add: slice_chunks_step)
    then have "Suc j = length (slice_chunks (drop CHUNK_SIZE bs))
        \<longleftrightarrow> j = length (slice_chunks (drop CHUNK_SIZE bs)) - 1" by linarith
    with 1(1) [OF ne j] ne Suc show ?thesis
      by (simp add: slice_chunks_step split: if_split_asm)
  qed
qed

section \<open>Receiving them\<close>

fun receive_all ::
  "ft_config \<Rightarrow> channel_gate \<Rightarrow> persist_faults \<Rightarrow> node_id \<Rightarrow> (nat \<times> rgb_file_message) list
     \<Rightarrow> file_transfer \<Rightarrow> file_transfer option" where
  "receive_all cfg gate fx sender [] s = Some s"
| "receive_all cfg gate fx sender ((now, m) # ms) s =
     (case handle_chunk cfg gate fx m sender now s of
        None \<Rightarrow> None
      | Some s \<Rightarrow> receive_all cfg gate fx sender ms s)"

definition file_chunk :: "byte \<Rightarrow> string \<Rightarrow> string \<Rightarrow> bytes \<Rightarrow> nat \<Rightarrow> rgb_file_message" where
  "file_chunk kind txid file_id bs i =
     \<lparr>fm_file_kind = kind, fm_funding_txid = txid, fm_file_id = file_id, fm_chunk_index = word_of_nat i,
      fm_total_chunks = word_of_nat (length (slice_chunks bs)), fm_data = slice_chunks bs ! i\<rparr>"

lemma queued_chunks:
  assumes "bs \<noteq> []" "length (slice_chunks bs) < 2 ^ 16"
  shows "queue_file peer kind txid file_id bs s = (Inr (), s\<lparr>ft_outbound := ft_outbound s @
    map (\<lambda>i. (peer, file_chunk kind txid file_id bs i)) [0..<length (slice_chunks bs)]\<rparr>)"
proof -
  have "enumerate 0 (slice_chunks bs) = map (\<lambda>i. (i, slice_chunks bs ! i)) [0..<length (slice_chunks bs)]"
    by (rule nth_equalityI) (simp_all add: nth_enumerate_eq)
  with assms show ?thesis
    by (simp add: queue_file_def chunk_count_slices file_chunk_def)
qed

text \<open>The entry after the chunks with the indices in \<open>I\<close>.\<close>

definition holds :: "bytes \<Rightarrow> nat set \<Rightarrow> reassembly_state \<Rightarrow> bool" where
  "holds bs I st \<longleftrightarrow> rs_total_chunks st = word_of_nat (length (slice_chunks bs))
     \<and> (\<forall>i < length (slice_chunks bs).
          map_of (rs_chunks st) (word_of_nat i) = (if i \<in> I then Some (slice_chunks bs ! i) else None))
     \<and> rs_buffered st = (\<Sum>i\<in>I. length (slice_chunks bs ! i))"

definition partway :: "bytes \<Rightarrow> reassembly_key \<Rightarrow> file_transfer \<Rightarrow> nat set \<Rightarrow> file_transfer \<Rightarrow> bool" where
  "partway bs key s I s' \<longleftrightarrow>
     (if I = {} then s' = s
      else \<exists>st. holds bs I st \<and> s' = s\<lparr>ft_reassembly := AList.update key st (ft_reassembly s)\<rparr>)"


lemma u16_of_nat_eq: "i < 2 ^ 16 \<Longrightarrow> j < 2 ^ 16 \<Longrightarrow> (word_of_nat i :: u16) = word_of_nat j \<longleftrightarrow> i = j"
  by (auto simp: word_unat_eq_iff unat_of_nat)

lemma unat_u16: "i < 2 ^ 16 \<Longrightarrow> unat (word_of_nat i :: u16) = i"
  by (simp add: unat_of_nat)

lemma file_chunk_valid:
  assumes n: "length (slice_chunks bs) < 2 ^ 16" and i: "i < length (slice_chunks bs)"
  shows "fm_total_chunks (file_chunk kind txid file_id bs i) \<noteq> 0
    \<and> fm_chunk_index (file_chunk kind txid file_id bs i) < fm_total_chunks (file_chunk kind txid file_id bs i)
    \<and> valid_len (file_chunk kind txid file_id bs i)"
proof -
  let ?n = "length (slice_chunks bs)"
  from n i have w: "unat (word_of_nat ?n :: u16) = ?n" "unat (word_of_nat i :: u16) = i"
    by (auto simp: unat_u16)
  have "word_of_nat ?n - 1 = (word_of_nat (?n - 1) :: u16)"
    using i by (simp add: of_nat_diff)
  then have "(word_of_nat i :: u16) = word_of_nat ?n - 1 \<longleftrightarrow> i = ?n - 1"
    using n i by (simp only: u16_of_nat_eq)
  with slice_length [OF i] show ?thesis
    using w i by (auto simp: file_chunk_def valid_len_def word_less_nat_alt word_unat_eq_iff)
qed

lemma slices_total: "(\<Sum>i = 0..<length (slice_chunks bs). length (slice_chunks bs ! i)) = length bs"
  using arg_cong [OF concat_slice_chunks [of bs], of length]
  by (simp add: length_concat sum_list_sum_nth)

lemma slices_part:
  assumes "I \<subseteq> {0..<length (slice_chunks bs)}"
  shows "(\<Sum>i\<in>I. length (slice_chunks bs ! i)) \<le> length bs"
  using sum_mono2 [OF _ assms, of "\<lambda>i. length (slice_chunks bs ! i)"] by (simp add: slices_total)

text \<open>More bytes are refused whenever fewer are, and a transfer under way is only measured in bytes.\<close>

lemma media_refused_mono: "media_refused cfg s key p \<Longrightarrow> p \<le> q \<Longrightarrow> media_refused cfg s key q"
  unfolding media_refused_def Let_def by linarith

lemma media_refused_update:
  assumes f: "map_of (ft_reassembly s) key = None"
    and r: "media_refused cfg (s\<lparr>ft_reassembly := AList.update key st (ft_reassembly s)\<rparr>) key p"
  shows "media_refused cfg s key p"
proof -
  let ?s' = "s\<lparr>ft_reassembly := AList.update key st (ft_reassembly s)\<rparr>" and ?t = "rk_funding_txid key"
  have "filter (\<lambda>(k, _). k \<noteq> key) (media_in_flight ?s' ?t) = filter (\<lambda>(k, _). k \<noteq> key) (media_in_flight s ?t)"
    using f by (simp add: media_in_flight_def update_fresh)
  moreover have "map_of (ft_reassembly ?s') key = Some st" by (simp add: update_conv')
  ultimately show ?thesis using r by (simp add: media_refused_def Let_def)
qed

lemma fundings_full_update:
  "\<not> fundings_full cfg (s\<lparr>ft_reassembly := AList.update key st (ft_reassembly s)\<rparr>) (rk_funding_txid key)"
proof -
  have "key \<in> fst ` set (AList.update key st (ft_reassembly s))" by (simp add: dom_update)
  then show ?thesis by (auto simp: fundings_full_def pending_fundings_def)
qed

text \<open>A receiver that has room for a file, from a peer that may send it.\<close>

definition file_key :: "node_id \<Rightarrow> byte \<Rightarrow> string \<Rightarrow> string \<Rightarrow> reassembly_key" where
  "file_key sender kind txid file_id =
     \<lparr>rk_peer = sender, rk_file_kind = kind, rk_funding_txid = txid, rk_file_id = file_id\<rparr>"

definition deliverable ::
  "ft_config \<Rightarrow> channel_gate \<Rightarrow> node_id \<Rightarrow> byte \<Rightarrow> string \<Rightarrow> string \<Rightarrow> bytes \<Rightarrow> file_transfer \<Rightarrow> bool" where
  "deliverable cfg gate sender kind txid file_id bs s \<longleftrightarrow>
     bs \<noteq> [] \<and> length (slice_chunks bs) < 2 ^ 16
     \<and> channel_count_with gate sender \<noteq> 0 \<and> \<not> has_channel_funded_by gate txid
     \<and> map_of (ft_reassembly s) (file_key sender kind txid file_id) = None
     \<and> \<not> fundings_full cfg s txid
     \<and> (kind = FILE_KIND_MEDIA \<longrightarrow> \<not> media_refused cfg s (file_key sender kind txid file_id) (length bs))
     \<and> (kind \<noteq> FILE_KIND_MEDIA \<longrightarrow> length bs \<le> MAX_CONSIGNMENT_SIZE)"

lemma chunk_key_file_chunk [simp]:
  "chunk_key (file_chunk kind txid file_id bs i) sender = file_key sender kind txid file_id"
  by (simp add: chunk_key_def file_chunk_def file_key_def)

lemma partway_held:
  assumes "deliverable cfg gate sender kind txid file_id bs s"
    "partway bs (file_key sender kind txid file_id) s I s'"
  shows "held_for s' (file_key sender kind txid file_id) = (\<Sum>i\<in>I. length (slice_chunks bs ! i))"
  using assms
  by (auto simp: partway_def held_for_def deliverable_def holds_def update_conv' split: if_splits)

lemma partway_takes:
  fixes i kind txid file_id bs sender
  defines "key \<equiv> file_key sender kind txid file_id" and "m \<equiv> file_chunk kind txid file_id bs i"
  assumes d: "deliverable cfg gate sender kind txid file_id bs s"
    and p: "partway bs key s I s'"
    and I: "insert i I \<subseteq> {0..<length (slice_chunks bs)}" "i \<notin> I"
  shows "takes_chunk cfg s' m key"
proof -
  have fin: "finite I" using I(1) finite_subset by auto
  have "held_for s' key + length (fm_data m) = (\<Sum>j\<in>insert i I. length (slice_chunks bs ! j))"
    using partway_held [OF d, folded key_def, OF p] I(2) fin by (simp add: m_def file_chunk_def)
  also have "\<dots> \<le> length bs" by (rule slices_part [OF I(1)])
  finally have le: "held_for s' key + length (fm_data m) \<le> length bs" .
  have v: "fm_total_chunks m \<noteq> 0 \<and> fm_chunk_index m < fm_total_chunks m \<and> valid_len m"
    using d I(1) unfolding m_def by (intro file_chunk_valid) (simp_all add: deliverable_def)
  have t: "rk_funding_txid key = txid" "rk_file_kind key = kind" by (simp_all add: key_def file_key_def)
  have fresh: "map_of (ft_reassembly s) key = None" using d by (simp add: deliverable_def key_def)
  have room: "\<not> media_refused cfg s key (held_for s' key + length (fm_data m))" if "kind = FILE_KIND_MEDIA"
    using media_refused_mono [of cfg s key, OF _ le] d that by (auto simp: deliverable_def key_def)
  show ?thesis
  proof (cases "I = {}")
    case True
    with p have "s' = s" by (simp add: partway_def)
    with d v le fresh room show ?thesis
      by (auto simp: takes_chunk_def deliverable_def t)
  next
    case False
    with p obtain st where st: "holds bs I st"
      "s' = s\<lparr>ft_reassembly := AList.update key st (ft_reassembly s)\<rparr>" by (auto simp: partway_def)
    have "\<not> media_refused cfg s' key (held_for s' key + length (fm_data m))" if "kind = FILE_KIND_MEDIA"
      using media_refused_update [OF fresh] room [OF that] by (auto simp: st(2))
    moreover have "map_of (rs_chunks st) (fm_chunk_index m) = None" "rs_total_chunks st = fm_total_chunks m"
      using st(1) I by (auto simp: holds_def m_def file_chunk_def)
    ultimately show ?thesis
      using v le d fundings_full_update [of cfg key st s]
      by (auto simp: takes_chunk_def st(2) update_conv' deliverable_def t)
  qed
qed


lemma partway_next:
  fixes i kind txid file_id bs sender
  defines "key \<equiv> file_key sender kind txid file_id" and "m \<equiv> file_chunk kind txid file_id bs i"
  assumes d: "deliverable cfg gate sender kind txid file_id bs s"
    and p: "partway bs key s I s'"
    and I: "insert i I \<subseteq> {0..<length (slice_chunks bs)}" "i \<notin> I"
  shows "holds bs (insert i I) (next_entry s' m key now)"
proof -
  have fin: "finite I" using I(1) finite_subset by auto
  have n: "length (slice_chunks bs) < 2 ^ 16" using d by (simp add: deliverable_def)
  have ch: "map_of (case map_of (ft_reassembly s') key of None \<Rightarrow> [] | Some st \<Rightarrow> rs_chunks st) (word_of_nat j)
      = (if j \<in> I then Some (slice_chunks bs ! j) else None)" if "j < length (slice_chunks bs)" for j
    using p d that by (auto simp: partway_def deliverable_def key_def holds_def update_conv' split: if_splits)
  have "held_for s' key = (\<Sum>j\<in>I. length (slice_chunks bs ! j))"
    using partway_held [OF d, folded key_def, OF p] .
  with ch n I fin show ?thesis
    by (auto simp: holds_def next_entry_def m_def file_chunk_def update_conv' u16_of_nat_eq)
qed

lemma holds_complete:
  assumes n: "length (slice_chunks bs) < 2 ^ 16" and h: "holds bs I st"
    and I: "I \<subseteq> {0..<length (slice_chunks bs)}"
  shows "transfer_complete st \<longleftrightarrow> I = {0..<length (slice_chunks bs)}"
    and "I = {0..<length (slice_chunks bs)} \<Longrightarrow> assembled st = bs"
proof -
  let ?n = "length (slice_chunks bs)"
  have u: "unat (rs_total_chunks st) = ?n" using h n by (simp add: holds_def unat_u16)
  have m: "\<forall>i<?n. map_of (rs_chunks st) (word_of_nat i) = (if i \<in> I then Some (slice_chunks bs ! i) else None)"
    using h by (simp add: holds_def)
  then have "transfer_complete st \<longleftrightarrow> (\<forall>i<?n. i \<in> I)"
    by (auto simp: transfer_complete_def chunk_indices_def u list_all_iff)
  with I show "transfer_complete st \<longleftrightarrow> I = {0..<?n}" by auto
  assume "I = {0..<?n}"
  with m have "map (\<lambda>i. the (map_of (rs_chunks st) i)) (chunk_indices (rs_total_chunks st))
      = map (\<lambda>i. slice_chunks bs ! i) [0..<?n]"
    by (simp add: chunk_indices_def u)
  then show "assembled st = bs"
    by (simp add: assembled_def map_nth concat_slice_chunks)
qed

lemma partway_drop:
  assumes "map_of (ft_reassembly s) key = None" "partway bs key s I s'"
  shows "drop_transfer key s' = s"
proof -
  have "AList.delete key (ft_reassembly s) = ft_reassembly s"
    using assms(1) by (simp add: delete_id map_of_eq_None_iff)
  with assms(2) show ?thesis
    by (auto simp: partway_def drop_transfer_def delete_update_same split: if_splits)
qed

text \<open>One more chunk: either the file is complete and handed over, or the receiver is one further.\<close>

lemma partway_step:
  fixes i kind txid file_id bs sender
  defines "key \<equiv> file_key sender kind txid file_id" and "m \<equiv> file_chunk kind txid file_id bs i"
  assumes d: "deliverable cfg gate sender kind txid file_id bs s"
    and p: "partway bs key s I s'"
    and I: "insert i I \<subseteq> {0..<length (slice_chunks bs)}" "i \<notin> I"
  shows "if insert i I = {0..<length (slice_chunks bs)}
    then handle_chunk cfg gate fx m sender now s' = persist_file cfg fx key bs now s
    else \<exists>s2. handle_chunk cfg gate fx m sender now s' = Some s2 \<and> partway bs key s (insert i I) s2"
proof -
  note tk = partway_takes [OF d p [unfolded key_def] I, folded key_def m_def]
  note nx = partway_next [OF d p [unfolded key_def] I, folded key_def m_def, of now]
  have n: "length (slice_chunks bs) < 2 ^ 16" and fresh: "map_of (ft_reassembly s) key = None"
    using d by (simp_all add: deliverable_def key_def)
  have "handle_chunk cfg gate fx m sender now s' = accept_chunk cfg fx m key now s'"
    using handle_chunk_taken [of gate sender m cfg s' fx now] d tk
    by (simp add: deliverable_def m_def key_def) (simp add: file_chunk_def)
  also have "\<dots> = (if insert i I = {0..<length (slice_chunks bs)} then persist_file cfg fx key bs now s
      else Some (s'\<lparr>ft_reassembly := AList.update key (next_entry s' m key now) (ft_reassembly s')\<rparr>))"
    using holds_complete [OF n nx I(1)]
    by (simp add: accept_chunk_eq [OF tk] partway_drop [OF fresh p])
  finally show ?thesis
    using p nx by (auto simp: partway_def split: if_splits)
qed


lemma receive_rest:
  assumes d: "deliverable cfg gate sender kind txid file_id bs s"
  shows "partway bs (file_key sender kind txid file_id) s I s' \<Longrightarrow>
    I \<union> snd ` set tis = {0..<length (slice_chunks bs)} \<Longrightarrow> distinct (map snd tis) \<Longrightarrow>
    I \<inter> snd ` set tis = {} \<Longrightarrow> tis \<noteq> [] \<Longrightarrow>
    receive_all cfg gate fx sender (map (\<lambda>(t, i). (t, file_chunk kind txid file_id bs i)) tis) s'
      = persist_file cfg fx (file_key sender kind txid file_id) bs (fst (last tis)) s"
proof (induction tis arbitrary: I s')
  case (Cons ti tis)
  obtain t i where ti: "ti = (t, i)" by (cases ti)
  let ?n = "length (slice_chunks bs)"
  from Cons.prems(2,4) ti have I: "insert i I \<subseteq> {0..<?n}" "i \<notin> I" by auto
  note st = partway_step [OF d Cons.prems(1) I, of fx t]
  show ?case
  proof (cases "tis = []")
    case True
    with Cons.prems(2) ti have "insert i I = {0..<?n}" by auto
    with st True ti show ?thesis by (simp split: option.splits)
  next
    case False
    from Cons.prems(3) ti have "i \<notin> snd ` set tis" by auto
    moreover obtain j where j: "j \<in> snd ` set tis" using False by (cases tis) auto
    ultimately have "j \<notin> insert i I" using Cons.prems(4) ti by auto
    moreover have "j \<in> {0..<?n}" unfolding Cons.prems(2) [symmetric] using j by auto
    ultimately have "insert i I \<noteq> {0..<?n}" by blast
    with st obtain s2 where s2:
      "handle_chunk cfg gate fx (file_chunk kind txid file_id bs i) sender t s' = Some s2"
      "partway bs (file_key sender kind txid file_id) s (insert i I) s2" by auto
    have "receive_all cfg gate fx sender (map (\<lambda>(t, i). (t, file_chunk kind txid file_id bs i)) tis) s2
      = persist_file cfg fx (file_key sender kind txid file_id) bs (fst (last tis)) s"
      using Cons.prems False ti by (intro Cons.IH [OF s2(2)]) auto
    with s2(1) ti False show ?thesis by simp
  qed
qed simp

lemma fm_chunk_index_file_chunk [simp]:
  "fm_chunk_index (file_chunk kind txid file_id bs i) = word_of_nat i"
  by (simp add: file_chunk_def)

text \<open>The chunks in any order of arrival.\<close>

lemma file_delivered:
  assumes d: "deliverable cfg gate sender kind txid file_id bs s"
    and a: "mset (map snd arr) = mset (map (file_chunk kind txid file_id bs) [0..<length (slice_chunks bs)])"
  shows "receive_all cfg gate fx sender arr s
      = persist_file cfg fx (file_key sender kind txid file_id) bs (fst (last arr)) s"
proof -
  let ?n = "length (slice_chunks bs)" and ?msg = "file_chunk kind txid file_id bs"
  let ?idx = "\<lambda>m. unat (fm_chunk_index m)" and ?tis = "map (\<lambda>(t, m). (t, unat (fm_chunk_index m))) arr"
  have n: "?n < 2 ^ 16" "bs \<noteq> []" using d by (simp_all add: deliverable_def)
  have inv: "?idx (?msg i) = i" if "i < ?n" for i using that n by (simp add: unat_u16)
  have set: "snd ` set arr = ?msg ` {0..<?n}"
    using arg_cong [OF a, of set_mset] by simp
  have arr: "arr = map (\<lambda>(t, i). (t, ?msg i)) ?tis"
  proof (rule nth_equalityI)
    fix k assume "k < length arr"
    then have "snd (arr ! k) \<in> ?msg ` {0..<?n}" using set nth_mem by fastforce
    then obtain i where "i < ?n" "snd (arr ! k) = ?msg i" by auto
    then have "snd (arr ! k) = ?msg (?idx (snd (arr ! k)))" using inv by simp
    then show "arr ! k = map (\<lambda>(t, i). (t, ?msg i)) ?tis ! k"
      using \<open>k < length arr\<close> by (cases "arr ! k") simp
  qed simp
  have "mset (map snd ?tis) = image_mset ?idx (mset (map snd arr))"
    by (simp add: multiset.map_comp comp_def case_prod_unfold)
  also have "\<dots> = mset (map (?idx \<circ> ?msg) [0..<?n])" unfolding a by (simp add: multiset.map_comp)
  also have "map (?idx \<circ> ?msg) [0..<?n] = [0..<?n]" by (rule map_idI) (simp add: inv del: fm_chunk_index_file_chunk)
  finally have m: "mset (map snd ?tis) = mset [0..<?n]" .
  then have "distinct (map snd ?tis)"
    using mset_eq_imp_distinct_iff [OF m] by simp
  moreover have "set (map snd ?tis) = set [0..<?n]" by (rule mset_eq_setD [OF m])
  then have "snd ` set ?tis = {0..<?n}" by (metis set_map set_upt)
  moreover have "arr \<noteq> []" using set n(2) by auto
  moreover from this have "fst (last ?tis) = fst (last arr)" by (simp add: last_map case_prod_unfold)
  moreover have "partway bs (file_key sender kind txid file_id) s {} s" by (simp add: partway_def)
  ultimately show ?thesis
    by (subst arr) (subst receive_rest [OF d], auto)
qed



section \<open>The files of a funding\<close>

lemma queue_file_out:
  assumes "queue_file to kind txid file_id bs a = (Inr (), a')"
  shows "bs \<noteq> []" "length (slice_chunks bs) < 2 ^ 16"
    "ft_outbound a' = ft_outbound a
       @ map (\<lambda>i. (to, file_chunk kind txid file_id bs i)) [0..<length (slice_chunks bs)]"
proof -
  from assms show 1: "bs \<noteq> []" "length (slice_chunks bs) < 2 ^ 16"
    by (auto simp: queue_file_def chunk_count_slices split: if_splits)
  from queued_chunks [OF 1] assms show "ft_outbound a' = ft_outbound a
       @ map (\<lambda>i. (to, file_chunk kind txid file_id bs i)) [0..<length (slice_chunks bs)]"
    by auto
qed

lemma receive_all_append:
  "receive_all cfg gate fx sender (xs @ ys) s =
     (case receive_all cfg gate fx sender xs s of None \<Rightarrow> None | Some s \<Rightarrow> receive_all cfg gate fx sender ys s)"
  by (induction xs arbitrary: s) (auto split: option.splits)

definition no_faults :: persist_faults where
  "no_faults = \<lparr>pf_create_dir = True, pf_write = Wrote\<rparr>"

lemma persist_consignment_fresh:
  assumes "map_of (ft_staged_fundings s) \<lparr>sk_peer = rk_peer key, sk_funding_txid = rk_funding_txid key\<rparr> = None"
    "length (ft_staged_fundings s) < fc_max_pending_fundings cfg"
    "map_of (ft_data_dir s) (consignment_path (rk_funding_txid key)) = None"
  shows "persist_consignment cfg no_faults key bs now s =
    s\<lparr>ft_staged_fundings := AList.update \<lparr>sk_peer = rk_peer key, sk_funding_txid = rk_funding_txid key\<rparr>
        \<lparr>sr_written_at = now, sr_staged_media_bytes = 0, sr_staged_media_count = 0\<rparr> (ft_staged_fundings s),
      ft_data_dir := AList.update (consignment_path (rk_funding_txid key)) (FileEntry bs) (ft_data_dir s)\<rparr>"
  using assms by (simp add: persist_consignment_def fs_write_def no_faults_def Let_def)

lemma persist_media_fresh:
  assumes "rk_file_id key = hex_str (fc_sha256 cfg bs)"
    "map_of (ft_staged_fundings s) \<lparr>sk_peer = rk_peer key, sk_funding_txid = rk_funding_txid key\<rparr> = Some r"
    "sr_staged_media_bytes r + length bs \<le> fc_max_media_bytes cfg"
    "sr_staged_media_count r < fc_max_media_files cfg"
    "map_of (ft_data_dir s) (fc_media_staging_dir cfg (rk_funding_txid key)) = None"
  shows "persist_media cfg no_faults key bs s =
    s\<lparr>ft_staged_fundings := AList.update \<lparr>sk_peer = rk_peer key, sk_funding_txid = rk_funding_txid key\<rparr>
        (r\<lparr>sr_staged_media_bytes := sr_staged_media_bytes r + length bs,
           sr_staged_media_count := sr_staged_media_count r + 1\<rparr>) (ft_staged_fundings s),
      ft_data_dir := AList.update (fc_media_staging_dir cfg (rk_funding_txid key))
        (DirEntry [(rk_file_id key, bs)]) (ft_data_dir s)\<rparr>"
  using assms
  by (simp add: persist_media_def fs_exists_in_def fs_create_dir_all_def fs_write_in_def no_faults_def
      Let_def update_conv' not_less)

text \<open>The receiver knows nothing of the funding yet and has room for it.\<close>

definition ready_for :: "ft_config \<Rightarrow> channel_gate \<Rightarrow> node_id \<Rightarrow> string \<Rightarrow> file_transfer \<Rightarrow> bool" where
  "ready_for cfg gate sender txid s \<longleftrightarrow>
     channel_count_with gate sender \<noteq> 0 \<and> \<not> has_channel_funded_by gate txid
     \<and> txid \<notin> set (pending_fundings s) \<and> card (set (pending_fundings s)) < fc_max_pending_fundings cfg
     \<and> length (ft_staged_fundings s) < fc_max_pending_fundings cfg
     \<and> map_of (ft_data_dir s) (consignment_path txid) = None
     \<and> map_of (ft_data_dir s) (fc_media_staging_dir cfg txid) = None
     \<and> fc_media_staging_dir cfg txid \<noteq> consignment_path txid"

lemma not_pending:
  assumes "txid \<notin> set (pending_fundings s)"
  shows "rk_funding_txid k = txid \<Longrightarrow> map_of (ft_reassembly s) k = None"
    "sk_funding_txid q = txid \<Longrightarrow> map_of (ft_staged_fundings s) q = None" "media_in_flight s txid = []"
  using assms
  by (force simp: pending_fundings_def map_of_eq_None_iff media_in_flight_def filter_empty_conv)+


lemma consignment_arrives:
  assumes r: "ready_for cfg gate sender txid s" and q: "queue_consignment to txid cs a = (Inr (), a1)"
    and o: "ft_outbound a = []" and l: "length cs \<le> MAX_CONSIGNMENT_SIZE"
    and arr: "mset (map snd arr) = mset (map snd (ft_outbound a1))"
  shows "receive_all cfg gate no_faults sender arr s =
    Some (s\<lparr>ft_staged_fundings := AList.update \<lparr>sk_peer = sender, sk_funding_txid = txid\<rparr>
        \<lparr>sr_written_at = fst (last arr), sr_staged_media_bytes = 0, sr_staged_media_count = 0\<rparr> (ft_staged_fundings s),
      ft_data_dir := AList.update (consignment_path txid) (FileEntry cs) (ft_data_dir s)\<rparr>)"
proof -
  let ?key = "file_key sender FILE_KIND_CONSIGNMENT txid []"
  have k: "rk_funding_txid ?key = txid" "rk_peer ?key = sender" "rk_file_kind ?key = FILE_KIND_CONSIGNMENT"
    by (simp_all add: file_key_def)
  note out = queue_file_out [OF q [unfolded queue_consignment_def]]
  have np: "txid \<notin> set (pending_fundings s)" using r by (simp add: ready_for_def)
  have d: "deliverable cfg gate sender FILE_KIND_CONSIGNMENT txid [] cs s"
    using r l out(1,2) not_pending(1) [OF np, of ?key]
    by (auto simp: deliverable_def ready_for_def fundings_full_def length_remdups_card_conv file_key_def
        FILE_KIND_CONSIGNMENT_def FILE_KIND_MEDIA_def)
  have "receive_all cfg gate no_faults sender arr s = persist_file cfg no_faults ?key cs (fst (last arr)) s"
    using arr o out(3) by (intro file_delivered [OF d]) (simp add: comp_def)
  also have "\<dots> = Some (persist_consignment cfg no_faults ?key cs (fst (last arr)) s)"
    by (simp add: persist_file_def k)
  finally show ?thesis
    using r not_pending(2) [OF np, of "\<lparr>sk_peer = sender, sk_funding_txid = txid\<rparr>"]
    by (simp add: persist_consignment_fresh k ready_for_def)
qed

lemma media_arrives:
  assumes g: "channel_count_with gate sender \<noteq> 0" "\<not> has_channel_funded_by gate txid"
    and q: "queue_media to txid digest ms a = (Inr (), a1)" and dg: "digest = hex_str (fc_sha256 cfg ms)"
    and m: "media_in_flight s txid = []"
    and f: "map_of (ft_reassembly s) (file_key sender FILE_KIND_MEDIA txid digest) = None"
    and sk: "map_of (ft_staged_fundings s) \<lparr>sk_peer = sender, sk_funding_txid = txid\<rparr> = Some rec"
      "sr_staged_media_bytes rec + length ms \<le> fc_max_media_bytes cfg"
      "sr_staged_media_count rec < fc_max_media_files cfg"
    and dir: "map_of (ft_data_dir s) (fc_media_staging_dir cfg txid) = None"
    and arr: "mset (map snd arr) = mset (map snd (drop (length (ft_outbound a)) (ft_outbound a1)))"
  shows "receive_all cfg gate no_faults sender arr s =
    Some (s\<lparr>ft_staged_fundings := AList.update \<lparr>sk_peer = sender, sk_funding_txid = txid\<rparr>
        (rec\<lparr>sr_staged_media_bytes := sr_staged_media_bytes rec + length ms,
           sr_staged_media_count := sr_staged_media_count rec + 1\<rparr>) (ft_staged_fundings s),
      ft_data_dir := AList.update (fc_media_staging_dir cfg txid) (DirEntry [(digest, ms)]) (ft_data_dir s)\<rparr>)"
proof -
  let ?key = "file_key sender FILE_KIND_MEDIA txid digest"
  have k: "rk_funding_txid ?key = txid" "rk_peer ?key = sender" "rk_file_kind ?key = FILE_KIND_MEDIA"
    "rk_file_id ?key = digest" by (simp_all add: file_key_def)
  note out = queue_file_out [OF q [unfolded queue_media_def]]
  have "\<lparr>sk_peer = sender, sk_funding_txid = txid\<rparr> \<in> fst ` set (ft_staged_fundings s)"
    using sk(1) by (metis domI dom_map_of_conv_image_fst)
  then have "\<not> fundings_full cfg s txid"
    by (force simp: fundings_full_def pending_fundings_def)
  moreover have "\<not> media_refused cfg s ?key (length ms)"
    using sk m by (simp add: media_refused_def k Let_def not_less)
  ultimately have d: "deliverable cfg gate sender FILE_KIND_MEDIA txid digest ms s"
    using g f out(1,2) by (simp add: deliverable_def)
  have "receive_all cfg gate no_faults sender arr s = persist_file cfg no_faults ?key ms (fst (last arr)) s"
    using arr out(3) by (intro file_delivered [OF d]) (simp add: comp_def)
  also have "\<dots> = Some (persist_media cfg no_faults ?key ms s)"
    unfolding persist_file_def k by (simp add: FILE_KIND_CONSIGNMENT_def FILE_KIND_MEDIA_def)
  finally show ?thesis
    using persist_media_fresh [of ?key cfg ms s rec, unfolded k, OF dg sk dir] by simp
qed

text \<open>C9. The files of a funding arrive. A consignment and a media file are split and queued by one
  node; the other has a channel with it, knows nothing of the funding yet and has room. Whatever the
  order in which the chunks of each file arrive, and whenever they do, the receiver ends up with
  exactly the two files on its disk, the media under its digest, with a record of the funding that
  counts them, and with no other transfer touched.\<close>

theorem funding_files_delivered:
  assumes "ready_for cfg gate sender txid s" "ft_outbound a = []"
    and "queue_consignment to txid cs a = (Inr (), a1)" "length cs \<le> MAX_CONSIGNMENT_SIZE"
    and "queue_media to txid (hex_str (fc_sha256 cfg ms)) ms a1 = (Inr (), a2)"
    and "length ms \<le> fc_max_media_bytes cfg" "0 < fc_max_media_files cfg"
    and "mset (map snd arr1) = mset (map snd (ft_outbound a1))"
    and "mset (map snd arr2) = mset (map snd (drop (length (ft_outbound a1)) (ft_outbound a2)))"
  shows "\<exists>s'. receive_all cfg gate no_faults sender (arr1 @ arr2) s = Some s'
    \<and> map_of (ft_data_dir s') (consignment_path txid) = Some (FileEntry cs)
    \<and> map_of (ft_data_dir s') (fc_media_staging_dir cfg txid)
        = Some (DirEntry [(hex_str (fc_sha256 cfg ms), ms)])
    \<and> map_of (ft_staged_fundings s') \<lparr>sk_peer = sender, sk_funding_txid = txid\<rparr>
        = Some \<lparr>sr_written_at = fst (last arr1), sr_staged_media_bytes = length ms, sr_staged_media_count = 1\<rparr>
    \<and> ft_reassembly s' = ft_reassembly s"
proof -
  let ?sk = "\<lparr>sk_peer = sender, sk_funding_txid = txid\<rparr>"
  let ?rec = "\<lparr>sr_written_at = fst (last arr1), sr_staged_media_bytes = 0, sr_staged_media_count = 0\<rparr>"
  let ?s1 = "s\<lparr>ft_staged_fundings := AList.update ?sk ?rec (ft_staged_fundings s),
      ft_data_dir := AList.update (consignment_path txid) (FileEntry cs) (ft_data_dir s)\<rparr>"
  have np: "txid \<notin> set (pending_fundings s)" using assms(1) by (simp add: ready_for_def)
  have 1: "receive_all cfg gate no_faults sender arr1 s = Some ?s1"
    by (rule consignment_arrives [OF assms(1,3,2,4,8)])
  have "media_in_flight ?s1 txid = []" "map_of (ft_reassembly ?s1) (file_key sender FILE_KIND_MEDIA txid
      (hex_str (fc_sha256 cfg ms))) = None"
    using not_pending [OF np] by (simp_all add: media_in_flight_def file_key_def)
  with assms(1,6,7) have "receive_all cfg gate no_faults sender arr2 ?s1 =
    Some (?s1\<lparr>ft_staged_fundings := AList.update ?sk
        (?rec\<lparr>sr_staged_media_bytes := sr_staged_media_bytes ?rec + length ms,
           sr_staged_media_count := sr_staged_media_count ?rec + 1\<rparr>) (ft_staged_fundings ?s1),
      ft_data_dir := AList.update (fc_media_staging_dir cfg txid)
        (DirEntry [(hex_str (fc_sha256 cfg ms), ms)]) (ft_data_dir ?s1)\<rparr>)"
    by (intro media_arrives [OF _ _ assms(5) refl _ _ _ _ _ _ assms(9)])
      (simp_all add: ready_for_def update_conv')
  moreover have "consignment_path txid \<noteq> fc_media_staging_dir cfg txid"
    using assms(1) by (auto simp: ready_for_def)
  ultimately show ?thesis
    using 1 by (simp add: receive_all_append update_conv')
qed

theorem funding_files_delivered_witness:
  "let a = file_transfer_new []; cs = [1, 2, 3]; ms = [9];
       a1 = snd (queue_consignment [2] demo_txid cs a);
       a2 = snd (queue_media [2] demo_txid (hex_str (fc_sha256 (demo_cfg 1) ms)) ms a1)
   in \<exists>s'. receive_all (demo_cfg 1) demo_gate no_faults [3]
        (map (\<lambda>m. (7, snd m)) (ft_outbound a1)
         @ map (\<lambda>m. (8, snd m)) (drop (length (ft_outbound a1)) (ft_outbound a2)))
        (file_transfer_new []) = Some s'
      \<and> map_of (ft_data_dir s') (consignment_path demo_txid) = Some (FileEntry cs)"
proof -
  let ?a = "file_transfer_new []" and ?dg = "hex_str (fc_sha256 (demo_cfg 1) [9])"
  have q: "queue_file to k t f bs b = (Inr (), snd (queue_file to k t f bs b))"
    if "bs \<noteq> []" "length bs < CHUNK_SIZE" for to k t f bs b
    using that by (simp add: queue_file_def chunk_count_def)
  have r: "ready_for (demo_cfg 1) demo_gate [3] demo_txid ?a"
    by (simp add: ready_for_def demo_gate_def demo_cfg_def file_transfer_new_def pending_fundings_def
        consignment_path_def)
  have e: "map snd (map (\<lambda>m. (t, snd m)) xs) = map snd xs" for t :: nat and xs :: "(node_id \<times> rgb_file_message) list"
    by simp
  have o: "ft_outbound ?a = []" by (simp add: file_transfer_new_def)
  have q1: "queue_consignment [2] demo_txid [1, 2, 3] ?a = (Inr (), snd (queue_consignment [2] demo_txid [1, 2, 3] ?a))"
    unfolding queue_consignment_def by (rule q) (simp_all add: CHUNK_SIZE_def)
  have q2: "queue_media [2] demo_txid ?dg [9] b = (Inr (), snd (queue_media [2] demo_txid ?dg [9] b))" for b
    unfolding queue_media_def by (rule q) (simp_all add: CHUNK_SIZE_def)
  show ?thesis
    unfolding Let_def
    using funding_files_delivered [OF r o q1 _ q2 _ _ arg_cong [OF e, of mset] arg_cong [OF e, of mset], of 7 8]
    by (fastforce simp: MAX_CONSIGNMENT_SIZE_def demo_cfg_def)
qed

end
