(* ===== verification/File_Transfer_Staging.thy ===== *)
theory File_Transfer_Staging
  imports File_Transfer_Delivery
begin

text \<open>
  The files that wait in the data directory: which of them the periodic sweep and the scan at
  start-up remove, and what a second peer that names the same funding does to them.
\<close>

section \<open>Removing abandoned files\<close>

lemma consignment_path_inj [simp]: "consignment_path t = consignment_path u \<longleftrightarrow> t = u"
  by (simp add: consignment_path_def)

lemma fs_remove_file_file:
  "map_of d name = Some (FileEntry bs) \<Longrightarrow>
   map_of (fs_remove_file ok other d) name
     = (if other = name \<and> ok then None else Some (FileEntry bs))"
  by (auto simp: fs_remove_file_def delete_conv' split: option.splits dir_entry.splits)

lemma fs_remove_dir_all_file:
  "map_of d name = Some (FileEntry bs) \<Longrightarrow> map_of (fs_remove_dir_all r dir d) name = Some (FileEntry bs)"
  by (auto simp: fs_remove_dir_all_def delete_conv' update_conv'
      split: option.splits dir_entry.splits remove_outcome.splits)

lemma fs_remove_file_absent: "map_of d name = None \<Longrightarrow> map_of (fs_remove_file ok other d) name = None"
  by (auto simp: fs_remove_file_def delete_conv' split: option.splits dir_entry.splits)

lemma fs_remove_dir_all_absent: "map_of d name = None \<Longrightarrow> map_of (fs_remove_dir_all r dir d) name = None"
  by (auto simp: fs_remove_dir_all_def delete_conv' update_conv'
      split: option.splits dir_entry.splits remove_outcome.splits)

text \<open>Whether the sweep finds a staged funding abandoned.\<close>

definition abandoned :: "channel_gate \<Rightarrow> nat \<Rightarrow> staging_key \<times> staging_record \<Rightarrow> bool" where
  "abandoned gate now kr \<longleftrightarrow> \<not> has_channel_funded_by gate (sk_funding_txid (fst kr))
     \<and> CONSIGNMENT_TTL \<le> now - sr_written_at (snd kr)"

lemma sweep_staging_file:
  assumes "map_of d (consignment_path txid) = Some (FileEntry bs)"
  shows "map_of (snd (sweep_staging cfg gate rms now kr d)) (consignment_path txid)
    = (if sk_funding_txid (fst kr) = txid \<and> abandoned gate now kr \<and> snd (rms (fst kr))
       then None else Some (FileEntry bs))"
  using fs_remove_file_file [OF fs_remove_dir_all_file [OF assms]] assms
  by (auto simp: sweep_staging_def abandoned_def Let_def)

lemma sweep_staging_absent:
  "map_of d (consignment_path txid) = None \<Longrightarrow>
   map_of (snd (sweep_staging cfg gate rms now kr d)) (consignment_path txid) = None"
  by (auto simp: sweep_staging_def Let_def intro!: fs_remove_file_absent fs_remove_dir_all_absent)

lemma retain_staging_absent:
  "map_of d (consignment_path txid) = None \<Longrightarrow>
   map_of (snd (retain_staging (sweep_staging cfg gate rms now) krs d)) (consignment_path txid) = None"
proof (induction krs arbitrary: d)
  case (Cons kr krs)
  from Cons.IH [OF sweep_staging_absent [OF Cons.prems]] show ?case by (simp add: case_prod_unfold)
qed simp

lemma retain_staging_file:
  "map_of d (consignment_path txid) = Some (FileEntry bs) \<Longrightarrow>
   map_of (snd (retain_staging (sweep_staging cfg gate rms now) krs d)) (consignment_path txid)
     = (if \<exists>kr \<in> set krs. sk_funding_txid (fst kr) = txid \<and> abandoned gate now kr \<and> snd (rms (fst kr))
        then None else Some (FileEntry bs))"
proof (induction krs arbitrary: d)
  case (Cons kr krs)
  let ?hit = "sk_funding_txid (fst kr) = txid \<and> abandoned gate now kr \<and> snd (rms (fst kr))"
  let ?d = "snd (sweep_staging cfg gate rms now kr d)"
  show ?case
  proof (cases ?hit)
    case True
    then have "map_of ?d (consignment_path txid) = None"
      using sweep_staging_file [OF Cons.prems] by simp
    with True retain_staging_absent [of ?d txid cfg gate rms now krs] show ?thesis
      by (auto simp: case_prod_unfold)
  next
    case False
    then have "map_of ?d (consignment_path txid) = Some (FileEntry bs)"
      using sweep_staging_file [OF Cons.prems] by auto
    from Cons.IH [OF this] False show ?thesis by (auto simp: case_prod_unfold)
  qed
qed simp

definition spared :: "channel_gate \<Rightarrow> (string \<Rightarrow> nat option) \<Rightarrow> nat \<Rightarrow> string \<Rightarrow> bool" where
  "spared gate modified at txid \<longleftrightarrow> has_channel_funded_by gate txid
     \<or> (\<forall>t. modified (consignment_path txid) = Some t \<longrightarrow> at < t + CONSIGNMENT_TTL)"

lemma cleanup_entry_keeps:
  assumes "map_of d (consignment_path txid) = Some (FileEntry bs)" "spared gate modified at txid"
  shows "map_of (cleanup_entry gate modified rm at name d) (consignment_path txid) = Some (FileEntry bs)"
proof (cases "name = consignment_path txid")
  case False
  then show ?thesis
    using assms(1) by (auto simp: cleanup_entry_def fs_remove_file_file fs_remove_dir_all_file
        split: option.splits dir_entry.splits)
next
  case True
  have "orphan_txid (consignment_path txid) = (if is_hash_hex txid then Some txid else None)"
    by (simp add: orphan_txid_def consignment_path_def)
  with True assms show ?thesis
    by (auto simp: cleanup_entry_def spared_def split: option.splits)
qed

lemma fold_cleanup_keeps:
  assumes "spared gate modified at txid"
  shows "map_of d (consignment_path txid) = Some (FileEntry bs) \<Longrightarrow>
    map_of (fold (cleanup_entry gate modified rm at) names d) (consignment_path txid) = Some (FileEntry bs)"
  by (induction names arbitrary: d) (simp_all add: cleanup_entry_keeps [OF _ assms])

text \<open>C30. When a sweep takes a staged consignment off the disk. The periodic sweep removes the
  consignment of a funding exactly when no channel is funded by it, some peer's record of that
  funding is older than the time allowed and the removal succeeds; otherwise the file stays as it
  is. One old record is enough: the file goes even if another peer wrote it a moment ago and its own
  record is young. The scan at start-up keeps the consignment of every funded channel and every
  consignment younger than the time allowed, or of unknown age.\<close>

theorem staged_consignment_swept_iff:
  assumes "map_of (ft_data_dir s) (consignment_path txid) = Some (FileEntry bs)"
  shows "map_of (ft_data_dir (sweep_stale_state cfg gate rms now s)) (consignment_path txid)
      = (if \<not> has_channel_funded_by gate txid
            \<and> (\<exists>(k, r) \<in> set (ft_staged_fundings s). sk_funding_txid k = txid
                 \<and> CONSIGNMENT_TTL \<le> now - sr_written_at r \<and> snd (rms k))
         then None else Some (FileEntry bs))
    \<and> (has_channel_funded_by gate txid
         \<or> (\<forall>t. modified (consignment_path txid) = Some t \<longrightarrow> at < t + CONSIGNMENT_TTL) \<longrightarrow>
       map_of (ft_data_dir (cleanup_orphans_at gate modified rm at s)) (consignment_path txid)
         = Some (FileEntry bs))"
proof (intro conjI impI)
  have d: "ft_data_dir (sweep_stale_transfers_at now s) = ft_data_dir s"
    "ft_staged_fundings (sweep_stale_transfers_at now s) = ft_staged_fundings s"
    by (simp_all add: sweep_stale_transfers_at_def)
  show "map_of (ft_data_dir (sweep_stale_state cfg gate rms now s)) (consignment_path txid)
      = (if \<not> has_channel_funded_by gate txid
            \<and> (\<exists>(k, r) \<in> set (ft_staged_fundings s). sk_funding_txid k = txid
                 \<and> CONSIGNMENT_TTL \<le> now - sr_written_at r \<and> snd (rms k))
         then None else Some (FileEntry bs))"
    using retain_staging_file [OF assms, of cfg gate rms now "ft_staged_fundings s"]
    by (auto simp: sweep_stale_state_def sweep_unfunded_stagings_at_def d case_prod_unfold abandoned_def)
next
  assume "has_channel_funded_by gate txid
      \<or> (\<forall>t. modified (consignment_path txid) = Some t \<longrightarrow> at < t + CONSIGNMENT_TTL)"
  then have "spared gate modified at txid" by (simp add: spared_def)
  from fold_cleanup_keeps [OF this assms] show
    "map_of (ft_data_dir (cleanup_orphans_at gate modified rm at s)) (consignment_path txid)
       = Some (FileEntry bs)"
    by (simp add: cleanup_orphans_at_def)
qed

definition demo_staged :: "nat \<Rightarrow> file_transfer" where
  "demo_staged t = \<lparr>ft_reassembly = [],
     ft_staged_fundings = [(\<lparr>sk_peer = [2], sk_funding_txid = demo_txid\<rparr>,
       \<lparr>sr_written_at = t, sr_staged_media_bytes = 0, sr_staged_media_count = 0\<rparr>)],
     ft_outbound = [], ft_data_dir = [(consignment_path demo_txid, FileEntry [1])]\<rparr>"

definition demo_shared :: file_transfer where
  "demo_shared = (demo_staged 0)\<lparr>ft_staged_fundings := ft_staged_fundings (demo_staged 0) @
     [(\<lparr>sk_peer = [3], sk_funding_txid = demo_txid\<rparr>,
       \<lparr>sr_written_at = CONSIGNMENT_TTL, sr_staged_media_bytes = 0, sr_staged_media_count = 0\<rparr>)]\<rparr>"

text \<open>An old record, a young one, and an old record of one peer beside a young one of another.\<close>

theorem staged_consignment_swept_iff_witness:
  "map_of (ft_data_dir (sweep_stale_state (demo_cfg 1) demo_gate (\<lambda>_. (Removed, True)) CONSIGNMENT_TTL (demo_staged 0)))
     (consignment_path demo_txid) = None
   \<and> map_of (ft_data_dir (sweep_stale_state (demo_cfg 1) demo_gate (\<lambda>_. (Removed, True)) CONSIGNMENT_TTL (demo_staged 1)))
     (consignment_path demo_txid) = Some (FileEntry [1])
   \<and> map_of (ft_data_dir (sweep_stale_state (demo_cfg 2) demo_gate (\<lambda>_. (Removed, True)) CONSIGNMENT_TTL demo_shared))
     (consignment_path demo_txid) = None"
proof -
  have m2: "map_of (ft_data_dir demo_shared) (consignment_path demo_txid) = Some (FileEntry [1])"
    by (simp add: demo_shared_def demo_staged_def)
  have m: "map_of (ft_data_dir (demo_staged t)) (consignment_path demo_txid) = Some (FileEntry [1])" for t
    by (simp add: demo_staged_def)
  show ?thesis
    using staged_consignment_swept_iff [OF m [of 0], of "demo_cfg 1" demo_gate "\<lambda>_. (Removed, True)" CONSIGNMENT_TTL]
      staged_consignment_swept_iff [OF m [of 1], of "demo_cfg 1" demo_gate "\<lambda>_. (Removed, True)" CONSIGNMENT_TTL]
      staged_consignment_swept_iff [OF m2, of "demo_cfg 2" demo_gate "\<lambda>_. (Removed, True)" CONSIGNMENT_TTL]
    by (simp add: demo_gate_def demo_shared_def demo_staged_def CONSIGNMENT_TTL_def)
qed



section \<open>Two peers, one funding\<close>

text \<open>A second peer replaces the consignment of the first. The name of the staged file has the
  funding txid in it and not the peer. When one peer has staged its consignment and another peer
  with a channel sends one under the same funding txid, in any order of its chunks, the file of the
  first peer is overwritten while its record stays, so that the first peer's own resending of it
  is ignored.\<close>

theorem second_peer_replaces_consignment:
  assumes "map_of (ft_staged_fundings s) \<lparr>sk_peer = first, sk_funding_txid = txid\<rparr> = Some r"
    and "map_of (ft_data_dir s) (consignment_path txid) = Some (FileEntry bs)"
    and "first \<noteq> other" "map_of (ft_staged_fundings s) \<lparr>sk_peer = other, sk_funding_txid = txid\<rparr> = None"
    and "channel_count_with gate other \<noteq> 0" "\<not> has_channel_funded_by gate txid"
    and "length (ft_staged_fundings s) < fc_max_pending_fundings cfg"
    and "map_of (ft_reassembly s) (file_key other FILE_KIND_CONSIGNMENT txid []) = None"
    and "queue_consignment to txid junk a = (Inr (), a1)" "ft_outbound a = []"
    and "length junk \<le> MAX_CONSIGNMENT_SIZE"
    and "mset (map snd arr) = mset (map snd (ft_outbound a1))"
  shows "\<exists>s'. receive_all cfg gate no_faults other arr s = Some s'
    \<and> map_of (ft_data_dir s') (consignment_path txid) = Some (FileEntry junk)
    \<and> map_of (ft_staged_fundings s') \<lparr>sk_peer = first, sk_funding_txid = txid\<rparr> = Some r
    \<and> persist_consignment cfg no_faults (file_key first FILE_KIND_CONSIGNMENT txid []) bs now s' = s'"
proof -
  let ?key = "file_key other FILE_KIND_CONSIGNMENT txid []"
  have k: "rk_funding_txid (file_key p c txid []) = txid" "rk_peer (file_key p c txid []) = p"
    "rk_file_kind (file_key p c txid []) = c" for p c
    by (simp_all add: file_key_def)
  note out = queue_file_out [OF assms(9) [unfolded queue_consignment_def]]
  have "\<not> fundings_full cfg s txid"
    using map_of_SomeD [OF assms(1)] by (force simp: fundings_full_def pending_fundings_def)
  then have d: "deliverable cfg gate other FILE_KIND_CONSIGNMENT txid [] junk s"
    using assms(5,6,8,11) out(1,2)
    by (simp add: deliverable_def FILE_KIND_CONSIGNMENT_def FILE_KIND_MEDIA_def)
  have "receive_all cfg gate no_faults other arr s = persist_file cfg no_faults ?key junk (fst (last arr)) s"
    using assms(10,12) out(3) by (intro file_delivered [OF d]) (simp add: comp_def)
  also have "\<dots> = Some (persist_consignment cfg no_faults ?key junk (fst (last arr)) s)"
    by (simp add: persist_file_def k)
  also have "\<dots> = Some (s\<lparr>ft_staged_fundings := AList.update \<lparr>sk_peer = other, sk_funding_txid = txid\<rparr>
        \<lparr>sr_written_at = fst (last arr), sr_staged_media_bytes = 0, sr_staged_media_count = 0\<rparr> (ft_staged_fundings s),
      ft_data_dir := AList.update (consignment_path txid) (FileEntry junk) (ft_data_dir s)\<rparr>)"
    using assms(2,4,7) by (simp add: persist_consignment_def fs_write_def no_faults_def k Let_def)
  finally show ?thesis
    using assms(1,3) by (simp add: update_conv' persist_consignment_def k Let_def)
qed

theorem second_peer_replaces_consignment_witness:
  "let s = demo_staged 0; a1 = snd (queue_consignment [2] demo_txid [6, 6] (file_transfer_new []))
   in \<exists>s'. receive_all (demo_cfg 2) demo_gate no_faults [3] (map (\<lambda>m. (7, snd m)) (ft_outbound a1)) s = Some s'
      \<and> map_of (ft_data_dir s) (consignment_path demo_txid) = Some (FileEntry [1])
      \<and> map_of (ft_data_dir s') (consignment_path demo_txid) = Some (FileEntry [6, 6])"
proof -
  let ?r = "\<lparr>sr_written_at = 0, sr_staged_media_bytes = 0, sr_staged_media_count = 0\<rparr>"
  let ?q = "queue_consignment [2] demo_txid [6, 6] (file_transfer_new [])"
  have q: "?q = (Inr (), snd ?q)"
    by (simp add: queue_consignment_def queue_file_def chunk_count_def CHUNK_SIZE_def)
  have s: "map_of (ft_staged_fundings (demo_staged 0)) \<lparr>sk_peer = [2], sk_funding_txid = demo_txid\<rparr> = Some ?r"
    "map_of (ft_data_dir (demo_staged 0)) (consignment_path demo_txid) = Some (FileEntry [1])"
    by (simp_all add: demo_staged_def)
  show ?thesis
    using second_peer_replaces_consignment [OF s, of "[3]" demo_gate "demo_cfg 2" "[2]" "[6, 6]"
        "file_transfer_new []" "snd ?q" "map (\<lambda>m. (7, snd m)) (ft_outbound (snd ?q))" 0] q s(2)
    by (auto simp: Let_def demo_staged_def demo_gate_def demo_cfg_def file_transfer_new_def
        MAX_CONSIGNMENT_SIZE_def comp_def)
qed

end
