(* ===== verification/Remote_Signer.thy ===== *)
theory Remote_Signer
  imports Rln_Wire Rln_Utf8
begin

unbundle bit_operations_syntax

text \<open>
  The remote signer, \<open>src/signer/remote/\<close>: the frames on the link (\<open>framing.rs\<close>), the shared token
  (\<open>auth.rs\<close>), the daemon's side of a connection (\<open>daemon.rs\<close>) and the node's transport with its
  reconnection (\<open>mod.rs\<close>). The signer behind the daemon is a function from its state and a request
  to a reply; the network is an argument of the node's side (\<open>net\<close>): whether a connection comes up,
  and which bytes arrive after a write until the read completes, the peer closes or the timeout
  passes. TLS only wraps the stream and is not modelled.
\<close>

section \<open>Frames\<close>

definition MAX_FRAME_LEN :: nat where
  "MAX_FRAME_LEN = 8 * 1024 * 1024"

datatype frame_error = FrameIo | Oversize nat

text \<open>How a write ended: all bytes went out, or only so many before it failed.\<close>

datatype send_outcome = Sent | Broke nat

definition send_bytes :: "send_outcome \<Rightarrow> bytes \<Rightarrow> bool \<times> bytes" where
  "send_bytes oc bs = (case oc of Sent \<Rightarrow> (True, bs) | Broke n \<Rightarrow> (False, take n bs))"

definition frame_len :: "bytes \<Rightarrow> frame_error + nat" where
  "frame_len payload =
     (if length payload < 2 ^ 32 \<and> length payload \<le> MAX_FRAME_LEN then Inr (length payload)
      else Inl (Oversize (min (length payload) (2 ^ 32 - 1))))"

definition write_frame :: "send_outcome \<Rightarrow> bytes \<Rightarrow> (frame_error + unit) \<times> bytes" where
  "write_frame oc payload =
     (case frame_len payload of
        Inl e \<Rightarrow> (Inl e, [])
      | Inr len \<Rightarrow>
          (case send_bytes oc (be_bytes 4 len @ payload) of
             (ok, out) \<Rightarrow> (if ok then Inr () else Inl FrameIo, out)))"

definition read_frame :: "bytes \<Rightarrow> frame_error + (bytes option \<times> bytes)" where
  "read_frame stream =
     (case read_be 4 stream of
        Inl _ \<Rightarrow> Inl FrameIo
      | Inr (len, stream) \<Rightarrow>
          if len = 0 then Inr (None, stream)
          else if MAX_FRAME_LEN < len then Inl (Oversize len)
          else case read_exact len stream of
                 Inl _ \<Rightarrow> Inl FrameIo
               | Inr (buf, stream) \<Rightarrow> Inr (Some buf, stream))"

text \<open>None is a connection closed at a frame boundary.\<close>

definition read_frame_async :: "bytes \<Rightarrow> frame_error + (bytes \<times> bytes) option" where
  "read_frame_async stream =
     (case read_be 4 stream of
        Inl _ \<Rightarrow> Inr None
      | Inr (len, stream) \<Rightarrow>
          if MAX_FRAME_LEN < len then Inl (Oversize len)
          else case read_exact len stream of
                 Inl _ \<Rightarrow> Inl FrameIo
               | Inr (buf, stream) \<Rightarrow> Inr (Some (buf, stream)))"

text \<open>The asynchronous writer sends the prefix and the payload in two writes; the bytes that go out
  are a prefix of the same frame.\<close>

definition write_frame_async :: "send_outcome \<Rightarrow> bytes \<Rightarrow> (frame_error + unit) \<times> bytes" where
  "write_frame_async oc payload =
     (case frame_len payload of
        Inl e \<Rightarrow> (Inl e, [])
      | Inr len \<Rightarrow>
          (case send_bytes oc (be_bytes 4 len @ payload) of
             (ok, out) \<Rightarrow> (if ok then Inr () else Inl FrameIo, out)))"


section \<open>The token\<close>

definition TOKEN_LEN :: nat where
  "TOKEN_LEN = 32"

definition HANDSHAKE_TAG :: bytes where
  "HANDSHAKE_TAG = as_bytes ''RLNSIGNERAUTH1''"

definition HANDSHAKE_ACK :: bytes where
  "HANDSHAKE_ACK = as_bytes ''RLNSIGNERAUTHOK''"

definition constant_time_eq :: "bytes \<Rightarrow> bytes \<Rightarrow> bool" where
  "constant_time_eq a b =
     (if length a \<noteq> length b then False
      else fold (\<lambda>(x, y) diff. diff OR (x XOR y)) (zip a b) 0 = 0)"

definition handshake_frame :: "bytes \<Rightarrow> bytes" where
  "handshake_frame token = HANDSHAKE_TAG @ token"

definition matches_handshake :: "bytes \<Rightarrow> bytes \<Rightarrow> bool" where
  "matches_handshake token frame =
     (case strip_prefix HANDSHAKE_TAG frame of
        None \<Rightarrow> False
      | Some presented \<Rightarrow> constant_time_eq presented token)"

definition is_ack :: "bytes \<Rightarrow> bool" where
  "is_ack frame = (frame = HANDSHAKE_ACK)"

text \<open>A file as \<open>fs::metadata\<close> and \<open>fs::read_to_string\<close> show it. The hexadecimal codec of the
  \<open>bitcoin\<close> crate is an argument.\<close>

record meta_file =
  mf_is_file :: bool
  mf_uid :: nat
  mf_mode :: u32
  mf_contents :: bytes

datatype token_error = Unsafe | Unreadable | NotHex | WrongLength | NotWritten

definition check_restricted_file :: "nat \<Rightarrow> meta_file \<Rightarrow> bool" where
  "check_restricted_file euid f = (mf_is_file f \<and> mf_uid f = euid \<and> mf_mode f AND 63 = 0)"

definition token_load ::
  "(string \<Rightarrow> bytes option) \<Rightarrow> nat \<Rightarrow> meta_file option \<Rightarrow> token_error + bytes" where
  "token_load from_hex euid file =
     (case file of
        None \<Rightarrow> Inl Unsafe
      | Some f \<Rightarrow>
          if \<not> check_restricted_file euid f then Inl Unsafe
          else if \<not> utf8_valid (mf_contents f) then Inl Unreadable
          else case from_hex (str_trim (from_bytes (mf_contents f))) of
                 None \<Rightarrow> Inl NotHex
               | Some token \<Rightarrow> if length token = TOKEN_LEN then Inr token else Inl WrongLength)"

text \<open>The permission bits are those of \<open>0o600\<close> (384), tested with \<open>0o077\<close> (63). \<open>fresh\<close> is the
  output of the operating system's generator; a failed write of the new file may leave some
  content behind.\<close>

definition restricted_file :: "nat \<Rightarrow> bytes \<Rightarrow> meta_file" where
  "restricted_file euid contents =
     \<lparr>mf_is_file = True, mf_uid = euid, mf_mode = 384, mf_contents = contents\<rparr>"

definition load_or_generate ::
  "(string \<Rightarrow> bytes option) \<Rightarrow> (bytes \<Rightarrow> string) \<Rightarrow> nat \<Rightarrow> bytes \<Rightarrow> bytes option + unit \<Rightarrow> meta_file option
     \<Rightarrow> (token_error + bytes) \<times> meta_file option" where
  "load_or_generate from_hex to_hex euid fresh written file =
     (case file of
        Some f \<Rightarrow> (token_load from_hex euid file, file)
      | None \<Rightarrow>
          (case written of
             Inr _ \<Rightarrow> (Inr fresh, Some (restricted_file euid (as_bytes (to_hex fresh))))
           | Inl left \<Rightarrow> (Inl NotWritten, map_option (restricted_file euid) left)))"


section \<open>The daemon's side of a connection\<close>

text \<open>What the signer makes of one envelope: a reply, an error, or a panic of the worker, which ends
  the connection.\<close>

datatype handled = Reply bytes | HandlerError | Crashed

type_synonym 'st handler = "'st \<Rightarrow> bytes \<Rightarrow> handled \<times> 'st"

fun outcome_hd :: "send_outcome list \<Rightarrow> send_outcome" where
  "outcome_hd [] = Sent"
| "outcome_hd (oc # _) = oc"

text \<open>The result, the bytes written, and what is left of the input and of the schedule of writes.\<close>

definition daemon_authenticate ::
  "bytes \<Rightarrow> bytes \<Rightarrow> send_outcome list \<Rightarrow> bool \<times> bytes \<times> bytes \<times> send_outcome list" where
  "daemon_authenticate token inp ws =
     (case read_frame_async inp of
        Inl _ \<Rightarrow> (False, [], inp, ws)
      | Inr None \<Rightarrow> (False, [], inp, ws)
      | Inr (Some (frame, rest)) \<Rightarrow>
          if \<not> matches_handshake token frame
          then (False, snd (write_frame_async (outcome_hd ws) []), rest, tl ws)
          else case write_frame_async (outcome_hd ws) HANDSHAKE_ACK of
                 (Inl _, out) \<Rightarrow> (False, out, rest, tl ws)
               | (Inr _, out) \<Rightarrow> (True, out, rest, tl ws))"

lemma read_frame_async_shrinks:
  "read_frame_async inp = Inr (Some (buf, rest)) \<Longrightarrow> length rest < length inp"
  by (auto simp: read_frame_async_def read_be_Inr read_exact_Inr split: sum.splits prod.splits if_splits)

function serve_requests ::
  "'st handler \<Rightarrow> bytes \<Rightarrow> send_outcome list \<Rightarrow> 'st \<Rightarrow> bool \<times> bytes \<times> 'st" where
  "serve_requests h inp ws st =
     (case read_frame_async inp of
        Inl _ \<Rightarrow> (False, [], st)
      | Inr None \<Rightarrow> (True, [], st)
      | Inr (Some (buf, rest)) \<Rightarrow>
          (case h st buf of
             (Crashed, st) \<Rightarrow> (False, [], st)
           | (r, st) \<Rightarrow>
               (case write_frame_async (outcome_hd ws) (case r of Reply b \<Rightarrow> b | _ \<Rightarrow> []) of
                  (Inl _, out) \<Rightarrow> (False, out, st)
                | (Inr _, out) \<Rightarrow>
                    (case serve_requests h rest (tl ws) st of
                       (ended, out', st) \<Rightarrow> (ended, out @ out', st)))))"
  by pat_completeness auto
termination
  by (relation "measure (\<lambda>(h, inp, ws, st). length inp)") (auto simp: read_frame_async_shrinks)

declare serve_requests.simps [simp del]

definition serve_connection ::
  "bytes \<Rightarrow> 'st handler \<Rightarrow> bytes \<Rightarrow> send_outcome list \<Rightarrow> 'st \<Rightarrow> bool \<times> bytes \<times> 'st" where
  "serve_connection token h inp ws st =
     (case daemon_authenticate token inp ws of
        (False, out, _, _) \<Rightarrow> (False, out, st)
      | (True, out, rest, ws) \<Rightarrow>
          (case serve_requests h rest ws st of (ended, out', st) \<Rightarrow> (ended, out @ out', st)))"

definition check_listener_exposure :: "bool \<Rightarrow> bool \<Rightarrow> bool \<Rightarrow> bool" where
  "check_listener_exposure is_loopback mtls_configured allow_unauthenticated_remote =
     (is_loopback \<or> mtls_configured \<or> allow_unauthenticated_remote)"


section \<open>The node's transport\<close>

record 'w net =
  nt_connect :: "'w \<Rightarrow> nat option \<times> 'w"
  nt_send :: "nat \<Rightarrow> bytes \<Rightarrow> 'w \<Rightarrow> bool \<times> bytes \<times> 'w"

record stream =
  sm_conn :: nat
  sm_unread :: bytes

text \<open>The reasons of \<open>RlnSignerError::Transport\<close>.\<close>

datatype transport_error =
    ConnectFailed | AuthNotSent | TokenRejected | AuthUnexpected | AuthIo
  | BootstrapRejected | BootstrapIo | RequestTooLong | HandlerReported | LinkIo | Unavailable

record client =
  cl_stream :: "stream option"
  cl_connected :: bool
  cl_signals :: nat

definition mark_reconnected :: "client \<Rightarrow> client" where
  "mark_reconnected c = c\<lparr>cl_connected := True, cl_signals := cl_signals c + 1\<rparr>"

definition mark_disconnected :: "client \<Rightarrow> client" where
  "mark_disconnected c =
     (if cl_connected c then c\<lparr>cl_connected := False, cl_signals := cl_signals c + 1\<rparr> else c)"

definition framed_call ::
  "'w net \<Rightarrow> stream \<Rightarrow> bytes \<Rightarrow> 'w \<Rightarrow> (frame_error + bytes option) \<times> stream \<times> 'w" where
  "framed_call net s request w =
     (case frame_len request of
        Inl e \<Rightarrow> (Inl e, s, w)
      | Inr len \<Rightarrow>
          (case nt_send net (sm_conn s) (be_bytes 4 len @ request) w of
             (sent, arrived, w) \<Rightarrow>
               if \<not> sent then (Inl FrameIo, s, w)
               else case read_frame (sm_unread s @ arrived) of
                      Inl e \<Rightarrow> (Inl e, s, w)
                    | Inr (reply, rest) \<Rightarrow> (Inr reply, s\<lparr>sm_unread := rest\<rparr>, w)))"

definition client_authenticate ::
  "'w net \<Rightarrow> bytes \<Rightarrow> stream \<Rightarrow> 'w \<Rightarrow> (transport_error + stream) \<times> 'w" where
  "client_authenticate net token s w =
     (case nt_send net (sm_conn s) (snd (write_frame Sent (handshake_frame token))) w of
        (sent, arrived, w) \<Rightarrow>
          if \<not> sent then (Inl AuthNotSent, w)
          else case read_frame (sm_unread s @ arrived) of
                 Inr (Some ack, rest) \<Rightarrow>
                   (if is_ack ack then Inr (s\<lparr>sm_unread := rest\<rparr>) else Inl AuthUnexpected, w)
               | Inr (None, rest) \<Rightarrow> (Inl TokenRejected, w)
               | Inl _ \<Rightarrow> (Inl AuthIo, w))"

definition new_stream :: "'w net \<Rightarrow> bytes option \<Rightarrow> 'w \<Rightarrow> (transport_error + stream) \<times> 'w" where
  "new_stream net auth_token w =
     (case nt_connect net w of
        (None, w) \<Rightarrow> (Inl ConnectFailed, w)
      | (Some conn, w) \<Rightarrow>
          (let s = \<lparr>sm_conn = conn, sm_unread = []\<rparr>
           in case auth_token of
                None \<Rightarrow> (Inr s, w)
              | Some token \<Rightarrow> client_authenticate net token s w))"

definition client_connect ::
  "'w net \<Rightarrow> bytes option \<Rightarrow> 'w \<Rightarrow> (transport_error + client) \<times> 'w" where
  "client_connect net auth_token w =
     (case new_stream net auth_token w of
        (Inl e, w) \<Rightarrow> (Inl e, w)
      | (Inr s, w) \<Rightarrow> (Inr \<lparr>cl_stream = Some s, cl_connected = True, cl_signals = 0\<rparr>, w))"

definition reconnect ::
  "'w net \<Rightarrow> bytes option \<Rightarrow> bytes \<Rightarrow> 'w \<Rightarrow> (transport_error + stream) \<times> 'w" where
  "reconnect net auth_token bootstrap_request w =
     (case new_stream net auth_token w of
        (Inl e, w) \<Rightarrow> (Inl e, w)
      | (Inr s, w) \<Rightarrow>
          (case framed_call net s bootstrap_request w of
             (Inr (Some _), s, w) \<Rightarrow> (Inr s, w)
           | (Inr None, s, w) \<Rightarrow> (Inl BootstrapRejected, w)
           | (Inl _, s, w) \<Rightarrow> (Inl BootstrapIo, w)))"

text \<open>A stream to attempt the call on: the live one, or a new one.\<close>

definition ensure_stream ::
  "'w net \<Rightarrow> bytes option \<Rightarrow> bytes \<Rightarrow> client \<Rightarrow> 'w \<Rightarrow> (transport_error + stream) \<times> client \<times> 'w" where
  "ensure_stream net auth_token bootstrap_request c w =
     (case cl_stream c of
        Some s \<Rightarrow> (Inr s, c, w)
      | None \<Rightarrow>
          (case reconnect net auth_token bootstrap_request w of
             (Inl e, w) \<Rightarrow> (Inl e, c, w)
           | (Inr s, w) \<Rightarrow> (Inr s, mark_reconnected (c\<lparr>cl_stream := Some s\<rparr>), w)))"

fun call_attempts ::
  "'w net \<Rightarrow> bytes option \<Rightarrow> bytes \<Rightarrow> bytes \<Rightarrow> nat \<Rightarrow> transport_error \<Rightarrow> client \<Rightarrow> 'w
     \<Rightarrow> (transport_error + bytes) \<times> client \<times> 'w" where
  "call_attempts net auth_token boot request 0 last_err c w = (Inl last_err, c, w)"
| "call_attempts net auth_token boot request (Suc n) last_err c w =
     (case ensure_stream net auth_token boot c w of
        (Inl e, c, w) \<Rightarrow> (Inl e, c, w)
      | (Inr s, c, w) \<Rightarrow>
          (case framed_call net s request w of
             (Inr (Some reply), s, w) \<Rightarrow> (Inr reply, c\<lparr>cl_stream := Some s\<rparr>, w)
           | (Inr None, s, w) \<Rightarrow> (Inl HandlerReported, c\<lparr>cl_stream := Some s\<rparr>, w)
           | (Inl _, s, w) \<Rightarrow>
               call_attempts net auth_token boot request n LinkIo
                 (mark_disconnected (c\<lparr>cl_stream := None\<rparr>)) w))"

definition call_blocking ::
  "'w net \<Rightarrow> bytes option \<Rightarrow> bytes \<Rightarrow> bytes \<Rightarrow> client \<Rightarrow> 'w
     \<Rightarrow> (transport_error + bytes) \<times> client \<times> 'w" where
  "call_blocking net auth_token boot request c w =
     (if MAX_FRAME_LEN < length request then (Inl RequestTooLong, c, w)
      else call_attempts net auth_token boot request 2 Unavailable c w)"

end
