(* ===== verification/Signer_Messages.thy ===== *)
theory Signer_Messages
  imports Rln_Prelude
begin

text \<open>
  What the node and an external signer say to each other: the requests and responses of the signer
  contract, as the conversions of \<open>src/src/signer/proto.rs\<close> take them apart, and the protobuf
  messages of that file. Fields stand in the source's order. A message without fields is
  \<open>EmptyV1\<close>, a \<open>oneof\<close> is a type of its own (\<open>..._kind\<close>) that its message holds optionally, and
  an \<open>i32\<close> is its bit pattern.
\<close>

type_synonym u128 = "128 word"


section \<open>The contract\<close>

datatype signer_identity =
  SignerIdentity (si_node_id: string) (si_account_xpub_vanilla: string)
    (si_account_xpub_colored: string) (si_master_fingerprint: string)

datatype bootstrap_data =
  BootstrapData (bd_identity: signer_identity) (bd_protocol_version: string) (bd_api_level: u32)

datatype wallet_input_metadata = WalletInputMetadata u32 u64 string bool

datatype derived_address_match = DerivedAddressMatch u32 string string string

datatype async_payments_hash_entry = AsyncPaymentsHashEntry u64 string

datatype channel_public_keys = ChannelPublicKeys string string string string string

datatype channel_htlc = ChannelHtlc byte u64 string u32

datatype wallet_derivation_match = WalletDerivationMatch string u32 string

datatype spendable_descriptor_kind = StaticOutput | StaticPaymentOutput | DelayedPaymentOutput

datatype spendable_output_sign_input =
  SpendableOutputSignInput spendable_descriptor_kind string u32 u64 string "string option"
    "wallet_derivation_match option" "string option" "string option" "string option" "u16 option"

datatype node_request =
    NodeRequest_GetNodeId string
  | NodeRequest_GetDestinationScript string
  | NodeRequest_GetShutdownScriptpubkey
  | NodeRequest_GetSecureRandomBytes
  | NodeRequest_EncryptPeerStoragePayload string string
  | NodeRequest_DecryptPeerStoragePayload string
  | NodeRequest_EncryptBlindedMessagePayload string string
  | NodeRequest_DecryptBlindedMessagePayload string string
  | NodeRequest_GetHmacForOfferKey
  | NodeRequest_CryptForOffer string string
  | NodeRequest_PrepareAsyncPaymentsHashes string u64 u32
  | NodeRequest_CreateInboundPayment "u64 option" u32 string u64 "u16 option"
  | NodeRequest_CreateInboundPaymentForHash string "u64 option" u32 u64 "u16 option"
  | NodeRequest_CreateSpontaneousPaymentSecret "u64 option" u32 u64 "u16 option"
  | NodeRequest_VerifyInboundPayment string string u64 u64
  | NodeRequest_GetPaymentPreimage string string
  | NodeRequest_GetAsyncPaymentPreimage string u64 string
  | NodeRequest_Ecdh string string "string option"
  | NodeRequest_SignInvoice string string
  | NodeRequest_SignBolt12Invoice string
  | NodeRequest_SignGossipMessage string
  | NodeRequest_SignMessage string
  | NodeRequest_SignMessageRaw string

datatype node_response =
    NodeResponse_NodeId string
  | NodeResponse_Script string
  | NodeResponse_RandomBytes string
  | NodeResponse_PeerStoragePayload string
  | NodeResponse_DecryptedPeerStoragePayload string
  | NodeResponse_BlindedMessagePayload string
  | NodeResponse_DecryptedBlindedMessagePayload string bool
  | NodeResponse_HmacForOfferKey string
  | NodeResponse_CryptForOffer string
  | NodeResponse_AsyncPaymentsHashes "async_payments_hash_entry list"
  | NodeResponse_PaymentHashAndSecret string string
  | NodeResponse_PaymentSecret string
  | NodeResponse_VerifyInboundPayment "string option" "u16 option"
  | NodeResponse_PaymentPreimage string
  | NodeResponse_Ecdh string
  | NodeResponse_RecoverableSignature string byte
  | NodeResponse_Signature string

datatype channel_op =
    ChannelOp_SetupChannel bool u64 u64 string u16 u16 channel_public_keys u16 byte
  | ChannelOp_GetPerCommitmentPoint u64
  | ChannelOp_ReleaseCommitmentSecret u64
  | ChannelOp_ValidateHolderCommitment u64 u32 u64 u64 "channel_htlc list" string "string list"
      "string option" "string list option"
  | ChannelOp_SignHolderCommitment string u64
  | ChannelOp_SignCounterpartyCommitment string string u64 u32 u64 u64 "channel_htlc list" "string list"
      "string list option"
  | ChannelOp_SignClosingTransaction string
  | ChannelOp_SignJusticeRevokedOutput string u32 u64 string
  | ChannelOp_SignJusticeRevokedHtlc string u32 u64 string string
  | ChannelOp_SignHolderHtlcTransaction string u32 string
  | ChannelOp_SignCounterpartyHtlcTransaction string u32 u64 string string
  | ChannelOp_SignDynamicP2wshInput string u32 string
  | ChannelOp_SignCounterpartyPaymentInput string u32 string
  | ChannelOp_SignSplicingFundingInput string u32 string
  | ChannelOp_SignHolderAnchorInput string u32 string
  | ChannelOp_SignChannelAnnouncementWithFundingKey string

datatype channel_request =
    ChannelRequest_GenerateChannelKeysId bool u64 u128
  | ChannelRequest_DeriveChannelSigner u64 string
  | ChannelRequest_ReadChannelSigner string
  | ChannelRequest_Op string channel_op

datatype channel_response =
    ChannelResponse_GeneratedChannelKeysId string
  | ChannelResponse_SetupComplete
  | ChannelResponse_ValidationComplete
  | ChannelResponse_ChannelSignerData string channel_public_keys
  | ChannelResponse_PerCommitmentPoint string
  | ChannelResponse_CommitmentSecret string
  | ChannelResponse_Signature string
  | ChannelResponse_SignatureWithHtlcs string "string list"

datatype signer_request =
    SignerRequest_Bootstrap
  | SignerRequest_Node node_request
  | SignerRequest_Channel channel_request
  | SignerRequest_SignSpendableOutputsPsbt "spendable_output_sign_input list" string
  | SignerRequest_SignRgbPsbt "string list" string
  | SignerRequest_GetWalletInputMetadata string u32 "string option" "u64 option"
  | SignerRequest_FindDerivationMatches string u32

datatype signer_response =
    SignerResponse_Bootstrap bootstrap_data
  | SignerResponse_Node node_response
  | SignerResponse_Channel channel_response
  | SignerResponse_SignedPsbt string
  | SignerResponse_WalletInputMetadata "wallet_input_metadata option"
  | SignerResponse_FindDerivationMatches "derived_address_match list"


section \<open>The protobuf messages\<close>

datatype empty_v1 = EmptyV1

datatype signer_identity_v1 = SignerIdentityV1 string string string string

datatype bootstrap_data_v1 = BootstrapDataV1 "signer_identity_v1 option" string u32

datatype wallet_input_metadata_v1 = WalletInputMetadataV1 u32 u64 string bool

datatype derived_address_match_v1 = DerivedAddressMatchV1 u32 string string string

datatype get_node_id_v1 = GetNodeIdV1 string

datatype get_destination_script_v1 = GetDestinationScriptV1 string

datatype ecdh_v1 = EcdhV1 string string "string option"

datatype crypt_for_offer_v1 = CryptForOfferV1 string string

datatype blinded_message_payload_v1 = BlindedMessagePayloadV1 string string

datatype peer_storage_payload_v1 = PeerStoragePayloadV1 string "string option"

datatype create_inbound_payment_v1 = CreateInboundPaymentV1 "u64 option" u32 string u64 "u32 option"

datatype create_inbound_payment_for_hash_v1 = CreateInboundPaymentForHashV1 string "u64 option" u32 u64
  "u32 option"

datatype create_spontaneous_payment_secret_v1 = CreateSpontaneousPaymentSecretV1 "u64 option" u32 u64
  "u32 option"

datatype verify_inbound_payment_v1 = VerifyInboundPaymentV1 string string u64 u64

datatype get_payment_preimage_v1 = GetPaymentPreimageV1 string string

datatype prepare_async_payments_hashes_v1 = PrepareAsyncPaymentsHashesV1 string u64 u32

datatype async_payments_hash_entry_v1 = AsyncPaymentsHashEntryV1 u64 string

datatype get_async_payment_preimage_v1 = GetAsyncPaymentPreimageV1 string u64 string

datatype sign_invoice_v1 = SignInvoiceV1 string string

datatype sign_bolt12_invoice_v1 = SignBolt12InvoiceV1 string

datatype sign_gossip_message_v1 = SignGossipMessageV1 string

datatype sign_message_v1 = SignMessageV1 string

datatype sign_message_raw_v1 = SignMessageRawV1 string

datatype node_request_v1_kind =
    NodeRequestV1_GetNodeId get_node_id_v1
  | NodeRequestV1_GetDestinationScript get_destination_script_v1
  | NodeRequestV1_GetShutdownScriptpubkey empty_v1
  | NodeRequestV1_GetSecureRandomBytes empty_v1
  | NodeRequestV1_EncryptPeerStoragePayload peer_storage_payload_v1
  | NodeRequestV1_DecryptPeerStoragePayload peer_storage_payload_v1
  | NodeRequestV1_EncryptBlindedMessagePayload blinded_message_payload_v1
  | NodeRequestV1_DecryptBlindedMessagePayload blinded_message_payload_v1
  | NodeRequestV1_GetHmacForOfferKey empty_v1
  | NodeRequestV1_CryptForOffer crypt_for_offer_v1
  | NodeRequestV1_PrepareAsyncPaymentsHashes prepare_async_payments_hashes_v1
  | NodeRequestV1_CreateInboundPayment create_inbound_payment_v1
  | NodeRequestV1_CreateInboundPaymentForHash create_inbound_payment_for_hash_v1
  | NodeRequestV1_CreateSpontaneousPaymentSecret create_spontaneous_payment_secret_v1
  | NodeRequestV1_VerifyInboundPayment verify_inbound_payment_v1
  | NodeRequestV1_GetPaymentPreimage get_payment_preimage_v1
  | NodeRequestV1_GetAsyncPaymentPreimage get_async_payment_preimage_v1
  | NodeRequestV1_Ecdh ecdh_v1
  | NodeRequestV1_SignInvoice sign_invoice_v1
  | NodeRequestV1_SignBolt12Invoice sign_bolt12_invoice_v1
  | NodeRequestV1_SignGossipMessage sign_gossip_message_v1
  | NodeRequestV1_SignMessage sign_message_v1
  | NodeRequestV1_SignMessageRaw sign_message_raw_v1

datatype node_request_v1 = NodeRequestV1 "node_request_v1_kind option"

datatype node_id_v1 = NodeIdV1 string

datatype script_v1 = ScriptV1 string

datatype random_bytes_v1 = RandomBytesV1 string

datatype hmac_for_offer_key_v1 = HmacForOfferKeyV1 string

datatype crypt_for_offer_response_v1 = CryptForOfferResponseV1 string

datatype decrypted_blinded_message_payload_response_v1 = DecryptedBlindedMessagePayloadResponseV1 string
  bool

datatype ecdh_response_v1 = EcdhResponseV1 string

datatype recoverable_signature_v1 = RecoverableSignatureV1 string u32

datatype signature_v1 = SignatureV1 string

datatype async_payments_hashes_v1 = AsyncPaymentsHashesV1 "async_payments_hash_entry_v1 list"

datatype payment_hash_and_secret_v1 = PaymentHashAndSecretV1 string string

datatype payment_secret_v1 = PaymentSecretV1 string

datatype verify_inbound_payment_response_v1 = VerifyInboundPaymentResponseV1 "string option" "u32
  option"

datatype payment_preimage_v1 = PaymentPreimageV1 string

datatype node_response_v1_kind =
    NodeResponseV1_NodeId node_id_v1
  | NodeResponseV1_Script script_v1
  | NodeResponseV1_RandomBytes random_bytes_v1
  | NodeResponseV1_PeerStoragePayload random_bytes_v1
  | NodeResponseV1_DecryptedPeerStoragePayload random_bytes_v1
  | NodeResponseV1_BlindedMessagePayload random_bytes_v1
  | NodeResponseV1_DecryptedBlindedMessagePayload decrypted_blinded_message_payload_response_v1
  | NodeResponseV1_HmacForOfferKey hmac_for_offer_key_v1
  | NodeResponseV1_CryptForOffer crypt_for_offer_response_v1
  | NodeResponseV1_AsyncPaymentsHashes async_payments_hashes_v1
  | NodeResponseV1_PaymentHashAndSecret payment_hash_and_secret_v1
  | NodeResponseV1_PaymentSecret payment_secret_v1
  | NodeResponseV1_VerifyInboundPayment verify_inbound_payment_response_v1
  | NodeResponseV1_PaymentPreimage payment_preimage_v1
  | NodeResponseV1_Ecdh ecdh_response_v1
  | NodeResponseV1_RecoverableSignature recoverable_signature_v1
  | NodeResponseV1_Signature signature_v1

datatype node_response_v1 = NodeResponseV1 "node_response_v1_kind option"

datatype channel_public_keys_v1 = ChannelPublicKeysV1 string string string string string

datatype channel_htlc_v1 = ChannelHtlcV1 u32 u64 string u32

datatype generate_channel_keys_id_v1 = GenerateChannelKeysIdV1 bool u64 bytes

datatype derive_channel_signer_v1 = DeriveChannelSignerV1 u64 string

datatype read_channel_signer_v1 = ReadChannelSignerV1 string

datatype setup_channel_v1 = SetupChannelV1 bool u64 u64 string u32 u32 "channel_public_keys_v1 option"
  u32 u32

datatype channel_index_v1 = ChannelIndexV1 u64

datatype validate_holder_commitment_v1 = ValidateHolderCommitmentV1 u64 u32 u64 u64 "channel_htlc_v1
  list" string "string list" string "string list"

datatype sign_holder_commitment_v1 = SignHolderCommitmentV1 string u64

datatype sign_counterparty_commitment_v1 = SignCounterpartyCommitmentV1 string string u64 u32 u64 u64
  "channel_htlc_v1 list" "string list" "string list"

datatype sign_closing_transaction_v1 = SignClosingTransactionV1 string

datatype sign_justice_revoked_output_v1 = SignJusticeRevokedOutputV1 string u32 u64 string

datatype sign_justice_revoked_htlc_v1 = SignJusticeRevokedHtlcV1 string u32 u64 string string

datatype sign_holder_htlc_transaction_v1 = SignHolderHtlcTransactionV1 string u32 string

datatype sign_counterparty_htlc_transaction_v1 = SignCounterpartyHtlcTransactionV1 string u32 u64 string
  string

datatype sign_dynamic_p2wsh_input_v1 = SignDynamicP2wshInputV1 string u32 string

datatype sign_counterparty_payment_input_v1 = SignCounterpartyPaymentInputV1 string u32 string

datatype sign_splicing_funding_input_v1 = SignSplicingFundingInputV1 string u32 string

datatype sign_holder_anchor_input_v1 = SignHolderAnchorInputV1 string u32 string

datatype sign_channel_announcement_with_funding_key_v1 = SignChannelAnnouncementWithFundingKeyV1 string

datatype channel_op_v1_kind =
    ChannelOpV1_SetupChannel setup_channel_v1
  | ChannelOpV1_GetPerCommitmentPoint channel_index_v1
  | ChannelOpV1_ReleaseCommitmentSecret channel_index_v1
  | ChannelOpV1_ValidateHolderCommitment validate_holder_commitment_v1
  | ChannelOpV1_SignHolderCommitment sign_holder_commitment_v1
  | ChannelOpV1_SignCounterpartyCommitment sign_counterparty_commitment_v1
  | ChannelOpV1_SignClosingTransaction sign_closing_transaction_v1
  | ChannelOpV1_SignJusticeRevokedOutput sign_justice_revoked_output_v1
  | ChannelOpV1_SignJusticeRevokedHtlc sign_justice_revoked_htlc_v1
  | ChannelOpV1_SignHolderHtlcTransaction sign_holder_htlc_transaction_v1
  | ChannelOpV1_SignCounterpartyHtlcTransaction sign_counterparty_htlc_transaction_v1
  | ChannelOpV1_SignDynamicP2wshInput sign_dynamic_p2wsh_input_v1
  | ChannelOpV1_SignCounterpartyPaymentInput sign_counterparty_payment_input_v1
  | ChannelOpV1_SignSplicingFundingInput sign_splicing_funding_input_v1
  | ChannelOpV1_SignHolderAnchorInput sign_holder_anchor_input_v1
  | ChannelOpV1_SignChannelAnnouncementWithFundingKey sign_channel_announcement_with_funding_key_v1

datatype channel_op_v1 = ChannelOpV1 "channel_op_v1_kind option"

datatype channel_op_request_v1 = ChannelOpRequestV1 string "channel_op_v1 option"

datatype channel_request_v1_kind =
    ChannelRequestV1_GenerateChannelKeysId generate_channel_keys_id_v1
  | ChannelRequestV1_DeriveChannelSigner derive_channel_signer_v1
  | ChannelRequestV1_ReadChannelSigner read_channel_signer_v1
  | ChannelRequestV1_Op channel_op_request_v1

datatype channel_request_v1 = ChannelRequestV1 "channel_request_v1_kind option"

datatype generated_channel_keys_id_v1 = GeneratedChannelKeysIdV1 string

datatype channel_signer_data_v1 = ChannelSignerDataV1 string "channel_public_keys_v1 option"

datatype per_commitment_point_v1 = PerCommitmentPointV1 string

datatype commitment_secret_v1 = CommitmentSecretV1 string

datatype signature_with_htlcs_v1 = SignatureWithHtlcsV1 string "string list"

datatype channel_response_v1_kind =
    ChannelResponseV1_GeneratedChannelKeysId generated_channel_keys_id_v1
  | ChannelResponseV1_SetupComplete empty_v1
  | ChannelResponseV1_ValidationComplete empty_v1
  | ChannelResponseV1_ChannelSignerData channel_signer_data_v1
  | ChannelResponseV1_PerCommitmentPoint per_commitment_point_v1
  | ChannelResponseV1_CommitmentSecret commitment_secret_v1
  | ChannelResponseV1_Signature signature_v1
  | ChannelResponseV1_SignatureWithHtlcs signature_with_htlcs_v1

datatype channel_response_v1 = ChannelResponseV1 "channel_response_v1_kind option"

datatype wallet_derivation_match_v1 = WalletDerivationMatchV1 string u32 string

datatype spendable_output_sign_input_v1 = SpendableOutputSignInputV1 u32 string u32 u64 string "string
  option" "wallet_derivation_match_v1 option" "string option" "string option" "string option" "u32
  option"

datatype sign_spendable_outputs_psbt_request_v1 = SignSpendableOutputsPsbtRequestV1
  "spendable_output_sign_input_v1 list" string

datatype sign_psbt_request_v1 = SignPsbtRequestV1 "string list" string

datatype signed_psbt_v1 = SignedPsbtV1 string

datatype get_wallet_input_metadata_request_v1 = GetWalletInputMetadataRequestV1 string u32 "string
  option" "u64 option"

datatype wallet_input_metadata_response_v1 = WalletInputMetadataResponseV1 "wallet_input_metadata_v1
  option"

datatype find_derivation_matches_request_v1 = FindDerivationMatchesRequestV1 string u32

datatype find_derivation_matches_response_v1 = FindDerivationMatchesResponseV1 "derived_address_match_v1
  list"

datatype signer_request_v1_kind =
    SignerRequestV1_Bootstrap empty_v1
  | SignerRequestV1_Node node_request_v1
  | SignerRequestV1_Channel channel_request_v1
  | SignerRequestV1_SignSpendableOutputsPsbt sign_spendable_outputs_psbt_request_v1
  | SignerRequestV1_SignRgbPsbt sign_psbt_request_v1
  | SignerRequestV1_GetWalletInputMetadata get_wallet_input_metadata_request_v1
  | SignerRequestV1_FindDerivationMatches find_derivation_matches_request_v1

datatype signer_request_v1 = SignerRequestV1 "signer_request_v1_kind option"

datatype signer_response_v1_kind =
    SignerResponseV1_Bootstrap bootstrap_data_v1
  | SignerResponseV1_Node node_response_v1
  | SignerResponseV1_Channel channel_response_v1
  | SignerResponseV1_SignedPsbt signed_psbt_v1
  | SignerResponseV1_WalletInputMetadata wallet_input_metadata_response_v1
  | SignerResponseV1_FindDerivationMatches find_derivation_matches_response_v1

datatype signer_response_v1 = SignerResponseV1 "signer_response_v1_kind option"

end
