(* ===== verification/Signer_Proto.thy ===== *)
theory Signer_Proto
  imports Remote_Signer Signer_Messages
begin

text \<open>
  The protobuf form of the signer protocol (\<open>src/src/signer/proto.rs\<close>): how the requests and
  responses of the contract become messages and back, and the envelope with its version around
  them. The encoding of a message to bytes is that of the \<open>prost\<close> crate and an argument.
\<close>

datatype signer_error = Transport transport_error | Protocol string | Unsupported string

definition proto_err :: "string \<Rightarrow> string \<Rightarrow> signer_error" where
  "proto_err ctx msg = Protocol (ctx @ '': '' @ msg)"

fun collect :: "('e + 'a) list \<Rightarrow> 'e + 'a list" where
  "collect [] = Inr []"
| "collect (Inl e # _) = Inl e"
| "collect (Inr x # xs) = (case collect xs of Inl e \<Rightarrow> Inl e | Inr ys \<Rightarrow> Inr (x # ys))"

text \<open>\<open>Option::unwrap_or_default\<close> on lists and the test for emptiness that undoes it.\<close>

definition unwrap_or_default :: "'a list option \<Rightarrow> 'a list" where
  "unwrap_or_default x = (case x of None \<Rightarrow> [] | Some xs \<Rightarrow> xs)"

definition none_if_empty :: "'a list \<Rightarrow> 'a list option" where
  "none_if_empty xs = (if xs = [] then None else Some xs)"

definition encode_u128_be :: "u128 \<Rightarrow> bytes" where
  "encode_u128_be x = be_bytes 16 (unat x)"

definition decode_u128_be :: "bytes \<Rightarrow> signer_error + u128" where
  "decode_u128_be bs =
     (if length bs = 16 then Inr (word_of_nat (be_val bs))
      else Inl (proto_err ''invalid u128 field'' ''expected 16 bytes''))"


section \<open>The parts of the messages\<close>

fun wallet_derivation_match_v1_from :: "wallet_derivation_match \<Rightarrow> wallet_derivation_match_v1" where
  "wallet_derivation_match_v1_from (WalletDerivationMatch account_name keyindex derivation_path) =
     WalletDerivationMatchV1 account_name keyindex derivation_path"

fun wallet_derivation_match_from :: "wallet_derivation_match_v1 \<Rightarrow> wallet_derivation_match" where
  "wallet_derivation_match_from (WalletDerivationMatchV1 account_name keyindex derivation_path) =
     WalletDerivationMatch account_name keyindex derivation_path"

fun spendable_output_sign_input_v1_from ::
  "spendable_output_sign_input \<Rightarrow> spendable_output_sign_input_v1" where
  "spendable_output_sign_input_v1_from (SpendableOutputSignInput descriptor_kind txid_hex vout
     amount_sat script_pubkey_hex channel_keys_id_hex wallet_derivation_match witness_script_hex
     redeem_script_hex per_commitment_point_hex to_self_delay) =
     SpendableOutputSignInputV1
       (case descriptor_kind of StaticOutput \<Rightarrow> 0 | StaticPaymentOutput \<Rightarrow> 1 | DelayedPaymentOutput \<Rightarrow> 2)
       txid_hex vout amount_sat script_pubkey_hex channel_keys_id_hex
       (map_option wallet_derivation_match_v1_from wallet_derivation_match) witness_script_hex
       redeem_script_hex per_commitment_point_hex (map_option ucast to_self_delay)"

definition show_i32 :: "u32 \<Rightarrow> string" where
  "show_i32 x =
     (if 0 \<le> sint x then show_nat (nat (sint x)) else ''-'' @ show_nat (nat (- sint x)))"

definition descriptor_kind_from :: "u32 \<Rightarrow> signer_error + spendable_descriptor_kind" where
  "descriptor_kind_from k =
     (if k = 0 then Inr StaticOutput
      else if k = 1 then Inr StaticPaymentOutput
      else if k = 2 then Inr DelayedPaymentOutput
      else Inl (Protocol (''invalid spendable descriptor kind: '' @ show_i32 k)))"

fun spendable_output_sign_input_try_from ::
  "spendable_output_sign_input_v1 \<Rightarrow> signer_error + spendable_output_sign_input" where
  "spendable_output_sign_input_try_from (SpendableOutputSignInputV1 descriptor_kind txid_hex vout
     amount_sat script_pubkey_hex channel_keys_id_hex wallet_derivation_match witness_script_hex
     redeem_script_hex per_commitment_point_hex to_self_delay) =
     (case descriptor_kind_from descriptor_kind of
        Inl e \<Rightarrow> Inl e
      | Inr descriptor_kind \<Rightarrow>
          Inr (SpendableOutputSignInput descriptor_kind txid_hex vout amount_sat script_pubkey_hex
            channel_keys_id_hex (map_option wallet_derivation_match_from wallet_derivation_match)
            witness_script_hex redeem_script_hex per_commitment_point_hex
            (map_option ucast to_self_delay)))"

fun signer_identity_v1_from :: "signer_identity \<Rightarrow> signer_identity_v1" where
  "signer_identity_v1_from (SignerIdentity node_id account_xpub_vanilla account_xpub_colored
     master_fingerprint) =
     SignerIdentityV1 node_id account_xpub_vanilla account_xpub_colored master_fingerprint"

fun signer_identity_from :: "signer_identity_v1 \<Rightarrow> signer_identity" where
  "signer_identity_from (SignerIdentityV1 node_id account_xpub_vanilla account_xpub_colored
     master_fingerprint) =
     SignerIdentity node_id account_xpub_vanilla account_xpub_colored master_fingerprint"

fun bootstrap_data_v1_from :: "bootstrap_data \<Rightarrow> bootstrap_data_v1" where
  "bootstrap_data_v1_from (BootstrapData identity protocol_version api_level) =
     BootstrapDataV1 (Some (signer_identity_v1_from identity)) protocol_version api_level"

definition SUPPORTED_SIGNER_API_LEVEL :: u32 where
  "SUPPORTED_SIGNER_API_LEVEL = 1"

fun bootstrap_data_try_from :: "bootstrap_data_v1 \<Rightarrow> signer_error + bootstrap_data" where
  "bootstrap_data_try_from (BootstrapDataV1 identity protocol_version api_level) =
     (let api_level = (if api_level = 0 then SUPPORTED_SIGNER_API_LEVEL else api_level)
      in case identity of
           None \<Rightarrow> Inl (proto_err ''bootstrap'' ''missing identity'')
         | Some identity \<Rightarrow>
             Inr (BootstrapData (signer_identity_from identity) protocol_version api_level))"

fun async_payments_hash_entry_v1_from :: "async_payments_hash_entry \<Rightarrow> async_payments_hash_entry_v1" where
  "async_payments_hash_entry_v1_from (AsyncPaymentsHashEntry hash_index payment_hash_hex) =
     AsyncPaymentsHashEntryV1 hash_index payment_hash_hex"

fun async_payments_hash_entry_from :: "async_payments_hash_entry_v1 \<Rightarrow> async_payments_hash_entry" where
  "async_payments_hash_entry_from (AsyncPaymentsHashEntryV1 hash_index payment_hash_hex) =
     AsyncPaymentsHashEntry hash_index payment_hash_hex"

fun wallet_input_metadata_v1_from :: "wallet_input_metadata \<Rightarrow> wallet_input_metadata_v1" where
  "wallet_input_metadata_v1_from (WalletInputMetadata keyindex amount_sat script_pubkey_hex is_p2sh) =
     WalletInputMetadataV1 keyindex amount_sat script_pubkey_hex is_p2sh"

fun wallet_input_metadata_from :: "wallet_input_metadata_v1 \<Rightarrow> wallet_input_metadata" where
  "wallet_input_metadata_from (WalletInputMetadataV1 keyindex amount_sat script_pubkey_hex is_p2sh) =
     WalletInputMetadata keyindex amount_sat script_pubkey_hex is_p2sh"

fun derived_address_match_v1_from :: "derived_address_match \<Rightarrow> derived_address_match_v1" where
  "derived_address_match_v1_from (DerivedAddressMatch keyindex address derivation_path account_name) =
     DerivedAddressMatchV1 keyindex address derivation_path account_name"

fun derived_address_match_from :: "derived_address_match_v1 \<Rightarrow> derived_address_match" where
  "derived_address_match_from (DerivedAddressMatchV1 keyindex address derivation account) =
     DerivedAddressMatch keyindex address derivation account"

fun channel_public_keys_v1_from :: "channel_public_keys \<Rightarrow> channel_public_keys_v1" where
  "channel_public_keys_v1_from (ChannelPublicKeys funding revocation payment delayed_payment htlc) =
     ChannelPublicKeysV1 funding revocation payment delayed_payment htlc"

fun channel_public_keys_from :: "channel_public_keys_v1 \<Rightarrow> channel_public_keys" where
  "channel_public_keys_from (ChannelPublicKeysV1 funding revocation payment delayed_payment htlc) =
     ChannelPublicKeys funding revocation payment delayed_payment htlc"

fun channel_htlc_v1_from :: "channel_htlc \<Rightarrow> channel_htlc_v1" where
  "channel_htlc_v1_from (ChannelHtlc side amount_msat payment_hash_hex cltv_expiry) =
     ChannelHtlcV1 (ucast side) amount_msat payment_hash_hex cltv_expiry"

fun channel_htlc_from :: "channel_htlc_v1 \<Rightarrow> channel_htlc" where
  "channel_htlc_from (ChannelHtlcV1 side amount_msat payment_hash_hex cltv_expiry) =
     ChannelHtlc (ucast side) amount_msat payment_hash_hex cltv_expiry"


section \<open>Node requests and responses\<close>

fun node_request_kind :: "node_request \<Rightarrow> node_request_v1_kind" where
  "node_request_kind (NodeRequest_GetNodeId recipient) =
     NodeRequestV1_GetNodeId (GetNodeIdV1 recipient)"
| "node_request_kind (NodeRequest_GetDestinationScript channel_keys_id_hex) =
     NodeRequestV1_GetDestinationScript (GetDestinationScriptV1 channel_keys_id_hex)"
| "node_request_kind NodeRequest_GetShutdownScriptpubkey =
     NodeRequestV1_GetShutdownScriptpubkey EmptyV1"
| "node_request_kind NodeRequest_GetSecureRandomBytes = NodeRequestV1_GetSecureRandomBytes EmptyV1"
| "node_request_kind (NodeRequest_EncryptPeerStoragePayload plaintext_hex random_bytes_hex) =
     NodeRequestV1_EncryptPeerStoragePayload (PeerStoragePayloadV1 plaintext_hex (Some
       random_bytes_hex))"
| "node_request_kind (NodeRequest_DecryptPeerStoragePayload ciphertext_hex) =
     NodeRequestV1_DecryptPeerStoragePayload (PeerStoragePayloadV1 ciphertext_hex None)"
| "node_request_kind (NodeRequest_EncryptBlindedMessagePayload plaintext_hex rho_hex) =
     NodeRequestV1_EncryptBlindedMessagePayload (BlindedMessagePayloadV1 plaintext_hex rho_hex)"
| "node_request_kind (NodeRequest_DecryptBlindedMessagePayload ciphertext_hex rho_hex) =
     NodeRequestV1_DecryptBlindedMessagePayload (BlindedMessagePayloadV1 ciphertext_hex rho_hex)"
| "node_request_kind NodeRequest_GetHmacForOfferKey = NodeRequestV1_GetHmacForOfferKey EmptyV1"
| "node_request_kind (NodeRequest_CryptForOffer bytes_hex nonce_hex) =
     NodeRequestV1_CryptForOffer (CryptForOfferV1 bytes_hex nonce_hex)"
| "node_request_kind (NodeRequest_PrepareAsyncPaymentsHashes host_node_id_hex start_index
     batch_size) =
     NodeRequestV1_PrepareAsyncPaymentsHashes (PrepareAsyncPaymentsHashesV1 host_node_id_hex
       start_index batch_size)"
| "node_request_kind (NodeRequest_CreateInboundPayment min_value_msat invoice_expiry_delta_secs
     random_bytes_hex current_time min_final_cltv_expiry_delta) =
     NodeRequestV1_CreateInboundPayment (CreateInboundPaymentV1 min_value_msat
       invoice_expiry_delta_secs random_bytes_hex current_time (map_option ucast
       min_final_cltv_expiry_delta))"
| "node_request_kind (NodeRequest_CreateInboundPaymentForHash payment_hash_hex min_value_msat
     invoice_expiry_delta_secs current_time min_final_cltv_expiry_delta) =
     NodeRequestV1_CreateInboundPaymentForHash (CreateInboundPaymentForHashV1 payment_hash_hex
       min_value_msat invoice_expiry_delta_secs current_time (map_option ucast
       min_final_cltv_expiry_delta))"
| "node_request_kind (NodeRequest_CreateSpontaneousPaymentSecret min_value_msat
     invoice_expiry_delta_secs current_time min_final_cltv_expiry_delta) =
     NodeRequestV1_CreateSpontaneousPaymentSecret (CreateSpontaneousPaymentSecretV1 min_value_msat
       invoice_expiry_delta_secs current_time (map_option ucast min_final_cltv_expiry_delta))"
| "node_request_kind (NodeRequest_VerifyInboundPayment payment_hash_hex payment_secret_hex
     total_msat highest_seen_timestamp) =
     NodeRequestV1_VerifyInboundPayment (VerifyInboundPaymentV1 payment_hash_hex
       payment_secret_hex total_msat highest_seen_timestamp)"
| "node_request_kind (NodeRequest_GetPaymentPreimage payment_hash_hex payment_secret_hex) =
     NodeRequestV1_GetPaymentPreimage (GetPaymentPreimageV1 payment_hash_hex payment_secret_hex)"
| "node_request_kind (NodeRequest_GetAsyncPaymentPreimage host_node_id_hex hash_index
     payment_hash_hex) =
     NodeRequestV1_GetAsyncPaymentPreimage (GetAsyncPaymentPreimageV1 host_node_id_hex hash_index
       payment_hash_hex)"
| "node_request_kind (NodeRequest_Ecdh recipient other_key tweak) =
     NodeRequestV1_Ecdh (EcdhV1 recipient other_key tweak)"
| "node_request_kind (NodeRequest_SignInvoice hrp u5bytes_hex) =
     NodeRequestV1_SignInvoice (SignInvoiceV1 hrp u5bytes_hex)"
| "node_request_kind (NodeRequest_SignBolt12Invoice invoice) =
     NodeRequestV1_SignBolt12Invoice (SignBolt12InvoiceV1 invoice)"
| "node_request_kind (NodeRequest_SignGossipMessage message_hex) =
     NodeRequestV1_SignGossipMessage (SignGossipMessageV1 message_hex)"
| "node_request_kind (NodeRequest_SignMessage message) =
     NodeRequestV1_SignMessage (SignMessageV1 message)"
| "node_request_kind (NodeRequest_SignMessageRaw message_hex) =
     NodeRequestV1_SignMessageRaw (SignMessageRawV1 message_hex)"

definition node_request_v1_from :: "node_request \<Rightarrow> node_request_v1" where
  "node_request_v1_from v = NodeRequestV1 (Some (node_request_kind v))"

fun node_request_of_kind :: "node_request_v1_kind \<Rightarrow> signer_error + node_request" where
  "node_request_of_kind (NodeRequestV1_GetNodeId (GetNodeIdV1 recipient)) =
     Inr (NodeRequest_GetNodeId recipient)"
| "node_request_of_kind (NodeRequestV1_GetDestinationScript (GetDestinationScriptV1
     channel_keys_id_hex)) =
     Inr (NodeRequest_GetDestinationScript channel_keys_id_hex)"
| "node_request_of_kind (NodeRequestV1_GetShutdownScriptpubkey _) =
     Inr NodeRequest_GetShutdownScriptpubkey"
| "node_request_of_kind (NodeRequestV1_GetSecureRandomBytes _) =
     Inr NodeRequest_GetSecureRandomBytes"
| "node_request_of_kind (NodeRequestV1_EncryptPeerStoragePayload (PeerStoragePayloadV1 bytes_hex
     random_bytes_hex)) =
     (case random_bytes_hex of
        None \<Rightarrow> Inl (proto_err ''node request'' ''missing random_bytes_hex for EncryptPeerStoragePayload'')
      | Some random_bytes_hex \<Rightarrow> Inr (NodeRequest_EncryptPeerStoragePayload bytes_hex random_bytes_hex))"
| "node_request_of_kind (NodeRequestV1_DecryptPeerStoragePayload (PeerStoragePayloadV1 bytes_hex _))
     =
     Inr (NodeRequest_DecryptPeerStoragePayload bytes_hex)"
| "node_request_of_kind (NodeRequestV1_EncryptBlindedMessagePayload (BlindedMessagePayloadV1
     bytes_hex rho_hex)) =
     Inr (NodeRequest_EncryptBlindedMessagePayload bytes_hex rho_hex)"
| "node_request_of_kind (NodeRequestV1_DecryptBlindedMessagePayload (BlindedMessagePayloadV1
     bytes_hex rho_hex)) =
     Inr (NodeRequest_DecryptBlindedMessagePayload bytes_hex rho_hex)"
| "node_request_of_kind (NodeRequestV1_GetHmacForOfferKey _) = Inr NodeRequest_GetHmacForOfferKey"
| "node_request_of_kind (NodeRequestV1_CryptForOffer (CryptForOfferV1 bytes_hex nonce_hex)) =
     Inr (NodeRequest_CryptForOffer bytes_hex nonce_hex)"
| "node_request_of_kind (NodeRequestV1_PrepareAsyncPaymentsHashes (PrepareAsyncPaymentsHashesV1
     host_node_id_hex start_index batch_size)) =
     Inr (NodeRequest_PrepareAsyncPaymentsHashes host_node_id_hex start_index batch_size)"
| "node_request_of_kind (NodeRequestV1_CreateInboundPayment (CreateInboundPaymentV1 min_value_msat
     invoice_expiry_delta_secs random_bytes_hex current_time min_final_cltv_expiry_delta)) =
     Inr (NodeRequest_CreateInboundPayment min_value_msat invoice_expiry_delta_secs
       random_bytes_hex current_time (map_option ucast min_final_cltv_expiry_delta))"
| "node_request_of_kind (NodeRequestV1_CreateInboundPaymentForHash (CreateInboundPaymentForHashV1
     payment_hash_hex min_value_msat invoice_expiry_delta_secs current_time
     min_final_cltv_expiry_delta)) =
     Inr (NodeRequest_CreateInboundPaymentForHash payment_hash_hex min_value_msat
       invoice_expiry_delta_secs current_time (map_option ucast min_final_cltv_expiry_delta))"
| "node_request_of_kind (NodeRequestV1_CreateSpontaneousPaymentSecret
     (CreateSpontaneousPaymentSecretV1 min_value_msat invoice_expiry_delta_secs current_time
     min_final_cltv_expiry_delta)) =
     Inr (NodeRequest_CreateSpontaneousPaymentSecret min_value_msat invoice_expiry_delta_secs
       current_time (map_option ucast min_final_cltv_expiry_delta))"
| "node_request_of_kind (NodeRequestV1_VerifyInboundPayment (VerifyInboundPaymentV1 payment_hash_hex
     payment_secret_hex total_msat highest_seen_timestamp)) =
     Inr (NodeRequest_VerifyInboundPayment payment_hash_hex payment_secret_hex total_msat
       highest_seen_timestamp)"
| "node_request_of_kind (NodeRequestV1_GetPaymentPreimage (GetPaymentPreimageV1 payment_hash_hex
     payment_secret_hex)) =
     Inr (NodeRequest_GetPaymentPreimage payment_hash_hex payment_secret_hex)"
| "node_request_of_kind (NodeRequestV1_GetAsyncPaymentPreimage (GetAsyncPaymentPreimageV1
     host_node_id_hex hash_index payment_hash_hex)) =
     Inr (NodeRequest_GetAsyncPaymentPreimage host_node_id_hex hash_index payment_hash_hex)"
| "node_request_of_kind (NodeRequestV1_Ecdh (EcdhV1 recipient other_key tweak)) =
     Inr (NodeRequest_Ecdh recipient other_key tweak)"
| "node_request_of_kind (NodeRequestV1_SignInvoice (SignInvoiceV1 hrp u5bytes_hex)) =
     Inr (NodeRequest_SignInvoice hrp u5bytes_hex)"
| "node_request_of_kind (NodeRequestV1_SignBolt12Invoice (SignBolt12InvoiceV1 invoice)) =
     Inr (NodeRequest_SignBolt12Invoice invoice)"
| "node_request_of_kind (NodeRequestV1_SignGossipMessage (SignGossipMessageV1 message_hex)) =
     Inr (NodeRequest_SignGossipMessage message_hex)"
| "node_request_of_kind (NodeRequestV1_SignMessage (SignMessageV1 message)) =
     Inr (NodeRequest_SignMessage message)"
| "node_request_of_kind (NodeRequestV1_SignMessageRaw (SignMessageRawV1 message_hex)) =
     Inr (NodeRequest_SignMessageRaw message_hex)"

fun node_request_try_from :: "node_request_v1 \<Rightarrow> signer_error + node_request" where
  "node_request_try_from (NodeRequestV1 None) = Inl (proto_err ''node request'' ''missing kind'')"
| "node_request_try_from (NodeRequestV1 (Some kind)) = node_request_of_kind kind"

fun node_response_kind :: "node_response \<Rightarrow> node_response_v1_kind" where
  "node_response_kind (NodeResponse_NodeId node_id_hex) =
     NodeResponseV1_NodeId (NodeIdV1 node_id_hex)"
| "node_response_kind (NodeResponse_Script script_hex) =
     NodeResponseV1_Script (ScriptV1 script_hex)"
| "node_response_kind (NodeResponse_RandomBytes bytes_hex) =
     NodeResponseV1_RandomBytes (RandomBytesV1 bytes_hex)"
| "node_response_kind (NodeResponse_PeerStoragePayload bytes_hex) =
     NodeResponseV1_PeerStoragePayload (RandomBytesV1 bytes_hex)"
| "node_response_kind (NodeResponse_DecryptedPeerStoragePayload bytes_hex) =
     NodeResponseV1_DecryptedPeerStoragePayload (RandomBytesV1 bytes_hex)"
| "node_response_kind (NodeResponse_BlindedMessagePayload bytes_hex) =
     NodeResponseV1_BlindedMessagePayload (RandomBytesV1 bytes_hex)"
| "node_response_kind (NodeResponse_DecryptedBlindedMessagePayload bytes_hex used_aad) =
     NodeResponseV1_DecryptedBlindedMessagePayload (DecryptedBlindedMessagePayloadResponseV1
       bytes_hex used_aad)"
| "node_response_kind (NodeResponse_HmacForOfferKey key_hex) =
     NodeResponseV1_HmacForOfferKey (HmacForOfferKeyV1 key_hex)"
| "node_response_kind (NodeResponse_CryptForOffer bytes_hex) =
     NodeResponseV1_CryptForOffer (CryptForOfferResponseV1 bytes_hex)"
| "node_response_kind (NodeResponse_AsyncPaymentsHashes hashes) =
     NodeResponseV1_AsyncPaymentsHashes (AsyncPaymentsHashesV1 (map
       async_payments_hash_entry_v1_from hashes))"
| "node_response_kind (NodeResponse_PaymentHashAndSecret payment_hash_hex payment_secret_hex) =
     NodeResponseV1_PaymentHashAndSecret (PaymentHashAndSecretV1 payment_hash_hex
       payment_secret_hex)"
| "node_response_kind (NodeResponse_PaymentSecret payment_secret_hex) =
     NodeResponseV1_PaymentSecret (PaymentSecretV1 payment_secret_hex)"
| "node_response_kind (NodeResponse_VerifyInboundPayment payment_preimage_hex
     min_final_cltv_expiry_delta) =
     NodeResponseV1_VerifyInboundPayment (VerifyInboundPaymentResponseV1 payment_preimage_hex
       (map_option ucast min_final_cltv_expiry_delta))"
| "node_response_kind (NodeResponse_PaymentPreimage payment_preimage_hex) =
     NodeResponseV1_PaymentPreimage (PaymentPreimageV1 payment_preimage_hex)"
| "node_response_kind (NodeResponse_Ecdh shared_secret_hex) =
     NodeResponseV1_Ecdh (EcdhResponseV1 shared_secret_hex)"
| "node_response_kind (NodeResponse_RecoverableSignature signature_hex recovery_id) =
     NodeResponseV1_RecoverableSignature (RecoverableSignatureV1 signature_hex (ucast
       recovery_id))"
| "node_response_kind (NodeResponse_Signature signature_hex) =
     NodeResponseV1_Signature (SignatureV1 signature_hex)"

definition node_response_v1_from :: "node_response \<Rightarrow> node_response_v1" where
  "node_response_v1_from v = NodeResponseV1 (Some (node_response_kind v))"

fun node_response_of_kind :: "node_response_v1_kind \<Rightarrow> signer_error + node_response" where
  "node_response_of_kind (NodeResponseV1_NodeId (NodeIdV1 node_id_hex)) =
     Inr (NodeResponse_NodeId node_id_hex)"
| "node_response_of_kind (NodeResponseV1_Script (ScriptV1 script_hex)) =
     Inr (NodeResponse_Script script_hex)"
| "node_response_of_kind (NodeResponseV1_RandomBytes (RandomBytesV1 bytes_hex)) =
     Inr (NodeResponse_RandomBytes bytes_hex)"
| "node_response_of_kind (NodeResponseV1_PeerStoragePayload (RandomBytesV1 bytes_hex)) =
     Inr (NodeResponse_PeerStoragePayload bytes_hex)"
| "node_response_of_kind (NodeResponseV1_DecryptedPeerStoragePayload (RandomBytesV1 bytes_hex)) =
     Inr (NodeResponse_DecryptedPeerStoragePayload bytes_hex)"
| "node_response_of_kind (NodeResponseV1_BlindedMessagePayload (RandomBytesV1 bytes_hex)) =
     Inr (NodeResponse_BlindedMessagePayload bytes_hex)"
| "node_response_of_kind (NodeResponseV1_DecryptedBlindedMessagePayload
     (DecryptedBlindedMessagePayloadResponseV1 bytes_hex used_aad)) =
     Inr (NodeResponse_DecryptedBlindedMessagePayload bytes_hex used_aad)"
| "node_response_of_kind (NodeResponseV1_HmacForOfferKey (HmacForOfferKeyV1 key_hex)) =
     Inr (NodeResponse_HmacForOfferKey key_hex)"
| "node_response_of_kind (NodeResponseV1_CryptForOffer (CryptForOfferResponseV1 bytes_hex)) =
     Inr (NodeResponse_CryptForOffer bytes_hex)"
| "node_response_of_kind (NodeResponseV1_AsyncPaymentsHashes (AsyncPaymentsHashesV1 hashes)) =
     Inr (NodeResponse_AsyncPaymentsHashes (map async_payments_hash_entry_from hashes))"
| "node_response_of_kind (NodeResponseV1_PaymentHashAndSecret (PaymentHashAndSecretV1
     payment_hash_hex payment_secret_hex)) =
     Inr (NodeResponse_PaymentHashAndSecret payment_hash_hex payment_secret_hex)"
| "node_response_of_kind (NodeResponseV1_PaymentSecret (PaymentSecretV1 payment_secret_hex)) =
     Inr (NodeResponse_PaymentSecret payment_secret_hex)"
| "node_response_of_kind (NodeResponseV1_VerifyInboundPayment (VerifyInboundPaymentResponseV1
     payment_preimage_hex min_final_cltv_expiry_delta)) =
     Inr (NodeResponse_VerifyInboundPayment payment_preimage_hex (map_option ucast
       min_final_cltv_expiry_delta))"
| "node_response_of_kind (NodeResponseV1_PaymentPreimage (PaymentPreimageV1 payment_preimage_hex)) =
     Inr (NodeResponse_PaymentPreimage payment_preimage_hex)"
| "node_response_of_kind (NodeResponseV1_Ecdh (EcdhResponseV1 shared_secret_hex)) =
     Inr (NodeResponse_Ecdh shared_secret_hex)"
| "node_response_of_kind (NodeResponseV1_RecoverableSignature (RecoverableSignatureV1 signature_hex
     recovery_id)) =
     Inr (NodeResponse_RecoverableSignature signature_hex (ucast recovery_id))"
| "node_response_of_kind (NodeResponseV1_Signature (SignatureV1 signature_hex)) =
     Inr (NodeResponse_Signature signature_hex)"

fun node_response_try_from :: "node_response_v1 \<Rightarrow> signer_error + node_response" where
  "node_response_try_from (NodeResponseV1 None) = Inl (proto_err ''node response'' ''missing kind'')"
| "node_response_try_from (NodeResponseV1 (Some kind)) = node_response_of_kind kind"


section \<open>Channel operations, requests and responses\<close>

fun channel_op_kind :: "channel_op \<Rightarrow> channel_op_v1_kind" where
  "channel_op_kind (ChannelOp_SetupChannel is_outbound channel_value_satoshis push_value_msat
     funding_txid_hex funding_vout holder_selected_contest_delay counterparty_pubkeys
     counterparty_selected_contest_delay channel_type_kind) =
     ChannelOpV1_SetupChannel (SetupChannelV1 is_outbound channel_value_satoshis push_value_msat
       funding_txid_hex (ucast funding_vout) (ucast holder_selected_contest_delay) (Some
       (channel_public_keys_v1_from counterparty_pubkeys)) (ucast
       counterparty_selected_contest_delay) (ucast channel_type_kind))"
| "channel_op_kind (ChannelOp_GetPerCommitmentPoint idx) =
     ChannelOpV1_GetPerCommitmentPoint (ChannelIndexV1 idx)"
| "channel_op_kind (ChannelOp_ReleaseCommitmentSecret idx) =
     ChannelOpV1_ReleaseCommitmentSecret (ChannelIndexV1 idx)"
| "channel_op_kind (ChannelOp_ValidateHolderCommitment commitment_number feerate_sat_per_kw
     to_local_value_sat to_remote_value_sat htlcs counterparty_signature_hex
     counterparty_htlc_signatures_hex commitment_unsigned_tx_hex
     commitment_psbt_output_witness_scripts_hex) =
     ChannelOpV1_ValidateHolderCommitment (ValidateHolderCommitmentV1 commitment_number
       feerate_sat_per_kw to_local_value_sat to_remote_value_sat (map channel_htlc_v1_from htlcs)
       counterparty_signature_hex counterparty_htlc_signatures_hex (unwrap_or_default
       commitment_unsigned_tx_hex) (unwrap_or_default commitment_psbt_output_witness_scripts_hex))"
| "channel_op_kind (ChannelOp_SignHolderCommitment tx_hex commitment_number) =
     ChannelOpV1_SignHolderCommitment (SignHolderCommitmentV1 tx_hex commitment_number)"
| "channel_op_kind (ChannelOp_SignCounterpartyCommitment tx_hex remote_per_commitment_point_hex
     commitment_number feerate_sat_per_kw to_local_value_sat to_remote_value_sat htlcs
     preimages_hex commitment_psbt_output_witness_scripts_hex) =
     ChannelOpV1_SignCounterpartyCommitment (SignCounterpartyCommitmentV1 tx_hex
       remote_per_commitment_point_hex commitment_number feerate_sat_per_kw to_local_value_sat
       to_remote_value_sat (map channel_htlc_v1_from htlcs) preimages_hex (unwrap_or_default
       commitment_psbt_output_witness_scripts_hex))"
| "channel_op_kind (ChannelOp_SignClosingTransaction tx_hex) =
     ChannelOpV1_SignClosingTransaction (SignClosingTransactionV1 tx_hex)"
| "channel_op_kind (ChannelOp_SignJusticeRevokedOutput tx_hex inp amount_sat per_commitment_key_hex)
     =
     ChannelOpV1_SignJusticeRevokedOutput (SignJusticeRevokedOutputV1 tx_hex inp amount_sat
       per_commitment_key_hex)"
| "channel_op_kind (ChannelOp_SignJusticeRevokedHtlc tx_hex inp amount_sat per_commitment_key_hex
     htlc_hex) =
     ChannelOpV1_SignJusticeRevokedHtlc (SignJusticeRevokedHtlcV1 tx_hex inp amount_sat
       per_commitment_key_hex htlc_hex)"
| "channel_op_kind (ChannelOp_SignHolderHtlcTransaction tx_hex inp htlc_descriptor_hex) =
     ChannelOpV1_SignHolderHtlcTransaction (SignHolderHtlcTransactionV1 tx_hex inp
       htlc_descriptor_hex)"
| "channel_op_kind (ChannelOp_SignCounterpartyHtlcTransaction tx_hex inp amount_sat
     per_commitment_point_hex htlc_descriptor_hex) =
     ChannelOpV1_SignCounterpartyHtlcTransaction (SignCounterpartyHtlcTransactionV1 tx_hex inp
       amount_sat per_commitment_point_hex htlc_descriptor_hex)"
| "channel_op_kind (ChannelOp_SignDynamicP2wshInput tx_hex inp descriptor_hex) =
     ChannelOpV1_SignDynamicP2wshInput (SignDynamicP2wshInputV1 tx_hex inp descriptor_hex)"
| "channel_op_kind (ChannelOp_SignCounterpartyPaymentInput tx_hex inp descriptor_hex) =
     ChannelOpV1_SignCounterpartyPaymentInput (SignCounterpartyPaymentInputV1 tx_hex inp
       descriptor_hex)"
| "channel_op_kind (ChannelOp_SignSplicingFundingInput tx_hex inp txin_descriptor_hex) =
     ChannelOpV1_SignSplicingFundingInput (SignSplicingFundingInputV1 tx_hex inp
       txin_descriptor_hex)"
| "channel_op_kind (ChannelOp_SignHolderAnchorInput tx_hex inp descriptor_hex) =
     ChannelOpV1_SignHolderAnchorInput (SignHolderAnchorInputV1 tx_hex inp descriptor_hex)"
| "channel_op_kind (ChannelOp_SignChannelAnnouncementWithFundingKey msg_hex) =
     ChannelOpV1_SignChannelAnnouncementWithFundingKey (SignChannelAnnouncementWithFundingKeyV1
       msg_hex)"

definition channel_op_v1_from :: "channel_op \<Rightarrow> channel_op_v1" where
  "channel_op_v1_from v = ChannelOpV1 (Some (channel_op_kind v))"

fun channel_op_of_kind :: "channel_op_v1_kind \<Rightarrow> signer_error + channel_op" where
  "channel_op_of_kind (ChannelOpV1_SetupChannel (SetupChannelV1 is_outbound channel_value_satoshis
     push_value_msat funding_txid_hex funding_vout holder_selected_contest_delay
     counterparty_pubkeys counterparty_selected_contest_delay channel_type_kind)) =
     (case counterparty_pubkeys of
        None \<Rightarrow> Inl (proto_err ''setup_channel'' ''missing counterparty_pubkeys'')
      | Some counterparty_pubkeys \<Rightarrow>
          Inr (ChannelOp_SetupChannel is_outbound channel_value_satoshis push_value_msat funding_txid_hex
            (ucast funding_vout) (ucast holder_selected_contest_delay)
            (channel_public_keys_from counterparty_pubkeys) (ucast counterparty_selected_contest_delay)
            (ucast channel_type_kind)))"
| "channel_op_of_kind (ChannelOpV1_GetPerCommitmentPoint (ChannelIndexV1 idx)) =
     Inr (ChannelOp_GetPerCommitmentPoint idx)"
| "channel_op_of_kind (ChannelOpV1_ReleaseCommitmentSecret (ChannelIndexV1 idx)) =
     Inr (ChannelOp_ReleaseCommitmentSecret idx)"
| "channel_op_of_kind (ChannelOpV1_ValidateHolderCommitment (ValidateHolderCommitmentV1
     commitment_number feerate_sat_per_kw to_local_value_sat to_remote_value_sat htlcs
     counterparty_signature_hex counterparty_htlc_signatures_hex commitment_unsigned_tx_hex
     commitment_psbt_output_witness_scripts_hex)) =
     Inr (ChannelOp_ValidateHolderCommitment commitment_number feerate_sat_per_kw to_local_value_sat
       to_remote_value_sat (map channel_htlc_from htlcs) counterparty_signature_hex
       counterparty_htlc_signatures_hex (none_if_empty commitment_unsigned_tx_hex)
       (none_if_empty commitment_psbt_output_witness_scripts_hex))"
| "channel_op_of_kind (ChannelOpV1_SignHolderCommitment (SignHolderCommitmentV1 tx_hex
     commitment_number)) =
     Inr (ChannelOp_SignHolderCommitment tx_hex commitment_number)"
| "channel_op_of_kind (ChannelOpV1_SignCounterpartyCommitment (SignCounterpartyCommitmentV1 tx_hex
     remote_per_commitment_point_hex commitment_number feerate_sat_per_kw to_local_value_sat
     to_remote_value_sat htlcs preimages_hex commitment_psbt_output_witness_scripts_hex)) =
     Inr (ChannelOp_SignCounterpartyCommitment tx_hex remote_per_commitment_point_hex
       commitment_number feerate_sat_per_kw to_local_value_sat to_remote_value_sat
       (map channel_htlc_from htlcs) preimages_hex
       (none_if_empty commitment_psbt_output_witness_scripts_hex))"
| "channel_op_of_kind (ChannelOpV1_SignClosingTransaction (SignClosingTransactionV1 tx_hex)) =
     Inr (ChannelOp_SignClosingTransaction tx_hex)"
| "channel_op_of_kind (ChannelOpV1_SignJusticeRevokedOutput (SignJusticeRevokedOutputV1 tx_hex inp
     amount_sat per_commitment_key_hex)) =
     Inr (ChannelOp_SignJusticeRevokedOutput tx_hex inp amount_sat per_commitment_key_hex)"
| "channel_op_of_kind (ChannelOpV1_SignJusticeRevokedHtlc (SignJusticeRevokedHtlcV1 tx_hex inp
     amount_sat per_commitment_key_hex htlc_hex)) =
     Inr (ChannelOp_SignJusticeRevokedHtlc tx_hex inp amount_sat per_commitment_key_hex htlc_hex)"
| "channel_op_of_kind (ChannelOpV1_SignHolderHtlcTransaction (SignHolderHtlcTransactionV1 tx_hex inp
     htlc_descriptor_hex)) =
     Inr (ChannelOp_SignHolderHtlcTransaction tx_hex inp htlc_descriptor_hex)"
| "channel_op_of_kind (ChannelOpV1_SignCounterpartyHtlcTransaction
     (SignCounterpartyHtlcTransactionV1 tx_hex inp amount_sat per_commitment_point_hex
     htlc_descriptor_hex)) =
     Inr (ChannelOp_SignCounterpartyHtlcTransaction tx_hex inp amount_sat per_commitment_point_hex
       htlc_descriptor_hex)"
| "channel_op_of_kind (ChannelOpV1_SignDynamicP2wshInput (SignDynamicP2wshInputV1 tx_hex inp
     descriptor_hex)) =
     Inr (ChannelOp_SignDynamicP2wshInput tx_hex inp descriptor_hex)"
| "channel_op_of_kind (ChannelOpV1_SignCounterpartyPaymentInput (SignCounterpartyPaymentInputV1
     tx_hex inp descriptor_hex)) =
     Inr (ChannelOp_SignCounterpartyPaymentInput tx_hex inp descriptor_hex)"
| "channel_op_of_kind (ChannelOpV1_SignSplicingFundingInput (SignSplicingFundingInputV1 tx_hex inp
     txin_descriptor_hex)) =
     Inr (ChannelOp_SignSplicingFundingInput tx_hex inp txin_descriptor_hex)"
| "channel_op_of_kind (ChannelOpV1_SignHolderAnchorInput (SignHolderAnchorInputV1 tx_hex inp
     descriptor_hex)) =
     Inr (ChannelOp_SignHolderAnchorInput tx_hex inp descriptor_hex)"
| "channel_op_of_kind (ChannelOpV1_SignChannelAnnouncementWithFundingKey
     (SignChannelAnnouncementWithFundingKeyV1 msg_hex)) =
     Inr (ChannelOp_SignChannelAnnouncementWithFundingKey msg_hex)"

fun channel_op_try_from :: "channel_op_v1 \<Rightarrow> signer_error + channel_op" where
  "channel_op_try_from (ChannelOpV1 None) = Inl (proto_err ''channel op'' ''missing kind'')"
| "channel_op_try_from (ChannelOpV1 (Some kind)) = channel_op_of_kind kind"

fun channel_request_kind :: "channel_request \<Rightarrow> channel_request_v1_kind" where
  "channel_request_kind (ChannelRequest_GenerateChannelKeysId inbound channel_value_satoshis
     user_channel_id) =
     ChannelRequestV1_GenerateChannelKeysId (GenerateChannelKeysIdV1 inbound
       channel_value_satoshis (encode_u128_be user_channel_id))"
| "channel_request_kind (ChannelRequest_DeriveChannelSigner channel_value_satoshis
     channel_keys_id_hex) =
     ChannelRequestV1_DeriveChannelSigner (DeriveChannelSignerV1 channel_value_satoshis
       channel_keys_id_hex)"
| "channel_request_kind (ChannelRequest_ReadChannelSigner channel_signer_state_hex) =
     ChannelRequestV1_ReadChannelSigner (ReadChannelSignerV1 channel_signer_state_hex)"
| "channel_request_kind (ChannelRequest_Op channel_keys_id_hex opn) =
     ChannelRequestV1_Op (ChannelOpRequestV1 channel_keys_id_hex (Some (channel_op_v1_from opn)))"

definition channel_request_v1_from :: "channel_request \<Rightarrow> channel_request_v1" where
  "channel_request_v1_from v = ChannelRequestV1 (Some (channel_request_kind v))"

fun channel_request_of_kind :: "channel_request_v1_kind \<Rightarrow> signer_error + channel_request" where
  "channel_request_of_kind (ChannelRequestV1_GenerateChannelKeysId (GenerateChannelKeysIdV1 inbound
     channel_value_satoshis user_channel_id_be)) =
     (case decode_u128_be user_channel_id_be of
        Inl e \<Rightarrow> Inl e
      | Inr user_channel_id \<Rightarrow>
          Inr (ChannelRequest_GenerateChannelKeysId inbound channel_value_satoshis user_channel_id))"
| "channel_request_of_kind (ChannelRequestV1_DeriveChannelSigner (DeriveChannelSignerV1
     channel_value_satoshis channel_keys_id_hex)) =
     Inr (ChannelRequest_DeriveChannelSigner channel_value_satoshis channel_keys_id_hex)"
| "channel_request_of_kind (ChannelRequestV1_ReadChannelSigner (ReadChannelSignerV1
     channel_signer_state_hex)) =
     Inr (ChannelRequest_ReadChannelSigner channel_signer_state_hex)"
| "channel_request_of_kind (ChannelRequestV1_Op (ChannelOpRequestV1 channel_keys_id_hex opn)) =
     (case opn of
        None \<Rightarrow> Inl (proto_err ''channel op request'' ''missing op'')
      | Some opn \<Rightarrow>
          (case channel_op_try_from opn of
             Inl e \<Rightarrow> Inl e
           | Inr opn \<Rightarrow> Inr (ChannelRequest_Op channel_keys_id_hex opn)))"

fun channel_request_try_from :: "channel_request_v1 \<Rightarrow> signer_error + channel_request" where
  "channel_request_try_from (ChannelRequestV1 None) = Inl (proto_err ''channel request'' ''missing kind'')"
| "channel_request_try_from (ChannelRequestV1 (Some kind)) = channel_request_of_kind kind"

fun channel_response_kind :: "channel_response \<Rightarrow> channel_response_v1_kind" where
  "channel_response_kind (ChannelResponse_GeneratedChannelKeysId channel_keys_id_hex) =
     ChannelResponseV1_GeneratedChannelKeysId (GeneratedChannelKeysIdV1 channel_keys_id_hex)"
| "channel_response_kind ChannelResponse_SetupComplete = ChannelResponseV1_SetupComplete EmptyV1"
| "channel_response_kind ChannelResponse_ValidationComplete =
     ChannelResponseV1_ValidationComplete EmptyV1"
| "channel_response_kind (ChannelResponse_ChannelSignerData channel_signer_state_hex
     channel_pubkeys) =
     ChannelResponseV1_ChannelSignerData (ChannelSignerDataV1 channel_signer_state_hex (Some
       (channel_public_keys_v1_from channel_pubkeys)))"
| "channel_response_kind (ChannelResponse_PerCommitmentPoint point_hex) =
     ChannelResponseV1_PerCommitmentPoint (PerCommitmentPointV1 point_hex)"
| "channel_response_kind (ChannelResponse_CommitmentSecret secret_hex) =
     ChannelResponseV1_CommitmentSecret (CommitmentSecretV1 secret_hex)"
| "channel_response_kind (ChannelResponse_Signature signature_hex) =
     ChannelResponseV1_Signature (SignatureV1 signature_hex)"
| "channel_response_kind (ChannelResponse_SignatureWithHtlcs signature_hex htlc_signatures_hex) =
     ChannelResponseV1_SignatureWithHtlcs (SignatureWithHtlcsV1 signature_hex htlc_signatures_hex)"

definition channel_response_v1_from :: "channel_response \<Rightarrow> channel_response_v1" where
  "channel_response_v1_from v = ChannelResponseV1 (Some (channel_response_kind v))"

fun channel_response_of_kind :: "channel_response_v1_kind \<Rightarrow> signer_error + channel_response" where
  "channel_response_of_kind (ChannelResponseV1_GeneratedChannelKeysId (GeneratedChannelKeysIdV1
     channel_keys_id_hex)) =
     Inr (ChannelResponse_GeneratedChannelKeysId channel_keys_id_hex)"
| "channel_response_of_kind (ChannelResponseV1_SetupComplete _) = Inr ChannelResponse_SetupComplete"
| "channel_response_of_kind (ChannelResponseV1_ValidationComplete _) =
     Inr ChannelResponse_ValidationComplete"
| "channel_response_of_kind (ChannelResponseV1_ChannelSignerData (ChannelSignerDataV1
     channel_signer_state_hex channel_pubkeys)) =
     (case channel_pubkeys of
        None \<Rightarrow> Inl (proto_err ''channel signer data'' ''missing channel_pubkeys'')
      | Some channel_pubkeys \<Rightarrow>
          Inr (ChannelResponse_ChannelSignerData channel_signer_state_hex
            (channel_public_keys_from channel_pubkeys)))"
| "channel_response_of_kind (ChannelResponseV1_PerCommitmentPoint (PerCommitmentPointV1 point_hex))
     =
     Inr (ChannelResponse_PerCommitmentPoint point_hex)"
| "channel_response_of_kind (ChannelResponseV1_CommitmentSecret (CommitmentSecretV1 secret_hex)) =
     Inr (ChannelResponse_CommitmentSecret secret_hex)"
| "channel_response_of_kind (ChannelResponseV1_Signature (SignatureV1 signature_hex)) =
     Inr (ChannelResponse_Signature signature_hex)"
| "channel_response_of_kind (ChannelResponseV1_SignatureWithHtlcs (SignatureWithHtlcsV1
     signature_hex htlc_signatures_hex)) =
     Inr (ChannelResponse_SignatureWithHtlcs signature_hex htlc_signatures_hex)"

fun channel_response_try_from :: "channel_response_v1 \<Rightarrow> signer_error + channel_response" where
  "channel_response_try_from (ChannelResponseV1 None) = Inl (proto_err ''channel response'' ''missing kind'')"
| "channel_response_try_from (ChannelResponseV1 (Some kind)) = channel_response_of_kind kind"


section \<open>Requests, responses and the envelope\<close>

fun signer_request_kind :: "signer_request \<Rightarrow> signer_request_v1_kind" where
  "signer_request_kind SignerRequest_Bootstrap = SignerRequestV1_Bootstrap EmptyV1"
| "signer_request_kind (SignerRequest_Node v) = SignerRequestV1_Node (node_request_v1_from v)"
| "signer_request_kind (SignerRequest_Channel v) =
     SignerRequestV1_Channel (channel_request_v1_from v)"
| "signer_request_kind (SignerRequest_SignSpendableOutputsPsbt inputs psbt) =
     SignerRequestV1_SignSpendableOutputsPsbt (SignSpendableOutputsPsbtRequestV1 (map
       spendable_output_sign_input_v1_from inputs) psbt)"
| "signer_request_kind (SignerRequest_SignRgbPsbt descriptors psbt) =
     SignerRequestV1_SignRgbPsbt (SignPsbtRequestV1 descriptors psbt)"
| "signer_request_kind (SignerRequest_GetWalletInputMetadata txid_hex vout script_pubkey_hex
     amount_sat) =
     SignerRequestV1_GetWalletInputMetadata (GetWalletInputMetadataRequestV1 txid_hex vout
       script_pubkey_hex amount_sat)"
| "signer_request_kind (SignerRequest_FindDerivationMatches script_pubkey_hex max_index) =
     SignerRequestV1_FindDerivationMatches (FindDerivationMatchesRequestV1 script_pubkey_hex
       max_index)"

definition signer_request_v1_from :: "signer_request \<Rightarrow> signer_request_v1" where
  "signer_request_v1_from v = SignerRequestV1 (Some (signer_request_kind v))"

fun signer_request_of_kind :: "signer_request_v1_kind \<Rightarrow> signer_error + signer_request" where
  "signer_request_of_kind (SignerRequestV1_Bootstrap _) = Inr SignerRequest_Bootstrap"
| "signer_request_of_kind (SignerRequestV1_Node v) =
     (case node_request_try_from v of Inl e \<Rightarrow> Inl e | Inr v \<Rightarrow> Inr
       (SignerRequest_Node v))"
| "signer_request_of_kind (SignerRequestV1_Channel v) =
     (case channel_request_try_from v of Inl e \<Rightarrow> Inl e | Inr v \<Rightarrow> Inr
       (SignerRequest_Channel v))"
| "signer_request_of_kind (SignerRequestV1_SignSpendableOutputsPsbt
     (SignSpendableOutputsPsbtRequestV1 inputs psbt)) =
     (case collect (map spendable_output_sign_input_try_from inputs) of
        Inl e \<Rightarrow> Inl e
      | Inr inputs \<Rightarrow> Inr (SignerRequest_SignSpendableOutputsPsbt inputs psbt))"
| "signer_request_of_kind (SignerRequestV1_SignRgbPsbt (SignPsbtRequestV1 descriptors psbt)) =
     Inr (SignerRequest_SignRgbPsbt descriptors psbt)"
| "signer_request_of_kind (SignerRequestV1_GetWalletInputMetadata (GetWalletInputMetadataRequestV1
     txid_hex vout script_pubkey_hex amount_sat)) =
     Inr (SignerRequest_GetWalletInputMetadata txid_hex vout script_pubkey_hex amount_sat)"
| "signer_request_of_kind (SignerRequestV1_FindDerivationMatches (FindDerivationMatchesRequestV1
     script_pubkey_hex max_index)) =
     Inr (SignerRequest_FindDerivationMatches script_pubkey_hex max_index)"

fun signer_request_try_from :: "signer_request_v1 \<Rightarrow> signer_error + signer_request" where
  "signer_request_try_from (SignerRequestV1 None) = Inl (proto_err ''signer request'' ''missing kind'')"
| "signer_request_try_from (SignerRequestV1 (Some kind)) = signer_request_of_kind kind"

fun signer_response_kind :: "signer_response \<Rightarrow> signer_response_v1_kind" where
  "signer_response_kind (SignerResponse_Bootstrap v) =
     SignerResponseV1_Bootstrap (bootstrap_data_v1_from v)"
| "signer_response_kind (SignerResponse_Node v) = SignerResponseV1_Node (node_response_v1_from v)"
| "signer_response_kind (SignerResponse_Channel v) =
     SignerResponseV1_Channel (channel_response_v1_from v)"
| "signer_response_kind (SignerResponse_SignedPsbt psbt) =
     SignerResponseV1_SignedPsbt (SignedPsbtV1 psbt)"
| "signer_response_kind (SignerResponse_WalletInputMetadata metadata) =
     SignerResponseV1_WalletInputMetadata (WalletInputMetadataResponseV1 (map_option
       wallet_input_metadata_v1_from metadata))"
| "signer_response_kind (SignerResponse_FindDerivationMatches matches) =
     SignerResponseV1_FindDerivationMatches (FindDerivationMatchesResponseV1 (map
       derived_address_match_v1_from matches))"

definition signer_response_v1_from :: "signer_response \<Rightarrow> signer_response_v1" where
  "signer_response_v1_from v = SignerResponseV1 (Some (signer_response_kind v))"

fun signer_response_of_kind :: "signer_response_v1_kind \<Rightarrow> signer_error + signer_response" where
  "signer_response_of_kind (SignerResponseV1_Bootstrap v) =
     (case bootstrap_data_try_from v of Inl e \<Rightarrow> Inl e | Inr v \<Rightarrow> Inr
       (SignerResponse_Bootstrap v))"
| "signer_response_of_kind (SignerResponseV1_Node v) =
     (case node_response_try_from v of Inl e \<Rightarrow> Inl e | Inr v \<Rightarrow> Inr
       (SignerResponse_Node v))"
| "signer_response_of_kind (SignerResponseV1_Channel v) =
     (case channel_response_try_from v of Inl e \<Rightarrow> Inl e | Inr v \<Rightarrow> Inr
       (SignerResponse_Channel v))"
| "signer_response_of_kind (SignerResponseV1_SignedPsbt (SignedPsbtV1 psbt)) =
     Inr (SignerResponse_SignedPsbt psbt)"
| "signer_response_of_kind (SignerResponseV1_WalletInputMetadata (WalletInputMetadataResponseV1
     metadata)) =
     Inr (SignerResponse_WalletInputMetadata (map_option wallet_input_metadata_from metadata))"
| "signer_response_of_kind (SignerResponseV1_FindDerivationMatches (FindDerivationMatchesResponseV1
     matches)) =
     Inr (SignerResponse_FindDerivationMatches (map derived_address_match_from matches))"

fun signer_response_try_from :: "signer_response_v1 \<Rightarrow> signer_error + signer_response" where
  "signer_response_try_from (SignerResponseV1 None) = Inl (proto_err ''signer response'' ''missing kind'')"
| "signer_response_try_from (SignerResponseV1 (Some kind)) = signer_response_of_kind kind"

record signer_envelope =
  se_version :: u32
  se_payload_encoding :: u32
  se_payload :: bytes

definition ENVELOPE_VERSION_V1 :: u32 where
  "ENVELOPE_VERSION_V1 = 1"

definition ENCODING_PROTOBUF_V1 :: u32 where
  "ENCODING_PROTOBUF_V1 = 2"

text \<open>An encoder and a decoder of \<open>prost\<close>, each with the text of its error.\<close>

type_synonym 'm codec = "('m \<Rightarrow> string + bytes) \<times> (bytes \<Rightarrow> string + 'm)"

definition encode_envelope :: "signer_envelope codec \<Rightarrow> 'm codec \<Rightarrow> 'm \<Rightarrow> signer_error + bytes" where
  "encode_envelope ec mc payload =
     (case fst mc payload of
        Inl e \<Rightarrow> Inl (Protocol (''encode protobuf payload failed: '' @ e))
      | Inr inner \<Rightarrow>
          (case fst ec \<lparr>se_version = ENVELOPE_VERSION_V1, se_payload_encoding = ENCODING_PROTOBUF_V1,
                        se_payload = inner\<rparr> of
             Inl e \<Rightarrow> Inl (Protocol (''encode protobuf envelope failed: '' @ e))
           | Inr out \<Rightarrow> Inr out))"

definition decode_envelope :: "signer_envelope codec \<Rightarrow> 'm codec \<Rightarrow> bytes \<Rightarrow> signer_error + 'm" where
  "decode_envelope ec mc wire_payload =
     (case snd ec wire_payload of
        Inl e \<Rightarrow> Inl (Protocol (''decode protobuf envelope failed: '' @ e))
      | Inr envelope \<Rightarrow>
          if se_version envelope \<noteq> ENVELOPE_VERSION_V1 then
            Inl (Protocol (''unsupported signer envelope version: '' @ show_nat (unat (se_version envelope))))
          else if se_payload_encoding envelope \<noteq> ENCODING_PROTOBUF_V1 then
            Inl (Protocol (''unsupported signer payload encoding: ''
              @ show_nat (unat (se_payload_encoding envelope))))
          else case snd mc (se_payload envelope) of
                 Inl e \<Rightarrow> Inl (Protocol (''decode protobuf payload failed: '' @ e))
               | Inr m \<Rightarrow> Inr m)"

text \<open>The three codecs the protocol uses.\<close>

record prost =
  pr_envelope :: "signer_envelope codec"
  pr_request :: "signer_request_v1 codec"
  pr_response :: "signer_response_v1 codec"

definition encode_signer_request :: "prost \<Rightarrow> signer_request \<Rightarrow> signer_error + bytes" where
  "encode_signer_request p request =
     encode_envelope (pr_envelope p) (pr_request p) (signer_request_v1_from request)"

definition decode_signer_request :: "prost \<Rightarrow> bytes \<Rightarrow> signer_error + signer_request" where
  "decode_signer_request p wire_payload =
     (case decode_envelope (pr_envelope p) (pr_request p) wire_payload of
        Inl e \<Rightarrow> Inl e
      | Inr payload \<Rightarrow> signer_request_try_from payload)"

definition encode_signer_response :: "prost \<Rightarrow> signer_response \<Rightarrow> signer_error + bytes" where
  "encode_signer_response p response =
     encode_envelope (pr_envelope p) (pr_response p) (signer_response_v1_from response)"

definition decode_signer_response :: "prost \<Rightarrow> bytes \<Rightarrow> signer_error + signer_response" where
  "decode_signer_response p wire_payload =
     (case decode_envelope (pr_envelope p) (pr_response p) wire_payload of
        Inl e \<Rightarrow> Inl e
      | Inr payload \<Rightarrow> signer_response_try_from payload)"

end
