(* ===== verification/Signer_Adapter.thy ===== *)
theory Signer_Adapter
  imports Signer_Proto
begin

text \<open>
  The node's side of the signer protocol: \<open>VlsSignerAdapter\<close> of \<open>src/src/signer/vls_adapter.rs\<close>,
  which turns each operation into one request over a transport and takes the one response that fits.
  A transport is a function of the request bytes on its own state; the \<open>Debug\<close> form of an unexpected
  response is an argument.
\<close>

type_synonym ('s, 'a) signing = "'s \<Rightarrow> (signer_error + 'a) \<times> 's"

type_synonym 's transport = "bytes \<Rightarrow> ('s, bytes) signing"

type_synonym 's backend = "signer_request \<Rightarrow> ('s, signer_response) signing"

record 's adapter =
  ad_prost :: prost
  ad_transport :: "'s transport"
  ad_debug :: "signer_response \<Rightarrow> string"

definition adapter_call :: "'s adapter \<Rightarrow> 's backend" where
  "adapter_call a request s =
     (case encode_signer_request (ad_prost a) request of
        Inl e \<Rightarrow> (Inl e, s)
      | Inr wire_payload \<Rightarrow>
          (case ad_transport a wire_payload s of
             (Inl e, s) \<Rightarrow> (Inl e, s)
           | (Inr reply, s) \<Rightarrow> (decode_signer_response (ad_prost a) reply, s)))"

text \<open>The shape all operations share: call, take the response that fits, or report another one.\<close>

definition expecting ::
  "'s adapter \<Rightarrow> string \<Rightarrow> (signer_response \<Rightarrow> 'a option) \<Rightarrow> signer_request \<Rightarrow> ('s, 'a) signing" where
  "expecting a what pick request s =
     (case adapter_call a request s of
        (Inl e, s) \<Rightarrow> (Inl e, s)
      | (Inr response, s) \<Rightarrow>
          (case pick response of
             Some x \<Rightarrow> (Inr x, s)
           | None \<Rightarrow>
               (Inl (Protocol (''unexpected response for '' @ what @ '': '' @ ad_debug a response)), s)))"

definition adapter_bootstrap :: "'s adapter \<Rightarrow> ('s, bootstrap_data) signing" where
  "adapter_bootstrap a =
     expecting a ''bootstrap''
       (\<lambda>r. case r of
            SignerResponse_Bootstrap data \<Rightarrow> Some data
          | _ \<Rightarrow> None)
       SignerRequest_Bootstrap"

definition adapter_node_get_node_id :: "'s adapter \<Rightarrow> string \<Rightarrow> ('s, string) signing" where
  "adapter_node_get_node_id a recipient =
     expecting a ''get_node_id''
       (\<lambda>r. case r of
            SignerResponse_Node (NodeResponse_NodeId node_id_hex) \<Rightarrow> Some node_id_hex
          | _ \<Rightarrow> None)
       (SignerRequest_Node (NodeRequest_GetNodeId recipient))"

definition adapter_node_get_destination_script ::
  "'s adapter \<Rightarrow> string \<Rightarrow> ('s, string) signing" where
  "adapter_node_get_destination_script a channel_keys_id_hex =
     expecting a ''get_destination_script''
       (\<lambda>r. case r of
            SignerResponse_Node (NodeResponse_Script script_hex) \<Rightarrow> Some script_hex
          | _ \<Rightarrow> None)
       (SignerRequest_Node (NodeRequest_GetDestinationScript channel_keys_id_hex))"

definition adapter_node_get_shutdown_scriptpubkey :: "'s adapter \<Rightarrow> ('s, string) signing" where
  "adapter_node_get_shutdown_scriptpubkey a =
     expecting a ''get_shutdown_scriptpubkey''
       (\<lambda>r. case r of
            SignerResponse_Node (NodeResponse_Script script_hex) \<Rightarrow> Some script_hex
          | _ \<Rightarrow> None)
       (SignerRequest_Node NodeRequest_GetShutdownScriptpubkey)"

definition adapter_node_encrypt_peer_storage_payload ::
  "'s adapter \<Rightarrow> string \<Rightarrow> string \<Rightarrow> ('s, string) signing" where
  "adapter_node_encrypt_peer_storage_payload a plaintext_hex random_bytes_hex =
     expecting a ''encrypt_peer_storage_payload''
       (\<lambda>r. case r of
            SignerResponse_Node (NodeResponse_PeerStoragePayload bytes_hex) \<Rightarrow> Some bytes_hex
          | _ \<Rightarrow> None)
       (SignerRequest_Node (NodeRequest_EncryptPeerStoragePayload plaintext_hex random_bytes_hex))"

definition adapter_node_decrypt_peer_storage_payload ::
  "'s adapter \<Rightarrow> string \<Rightarrow> ('s, string) signing" where
  "adapter_node_decrypt_peer_storage_payload a ciphertext_hex =
     expecting a ''decrypt_peer_storage_payload''
       (\<lambda>r. case r of
            SignerResponse_Node (NodeResponse_DecryptedPeerStoragePayload bytes_hex) \<Rightarrow> Some bytes_hex
          | _ \<Rightarrow> None)
       (SignerRequest_Node (NodeRequest_DecryptPeerStoragePayload ciphertext_hex))"

definition adapter_node_encrypt_blinded_message_payload ::
  "'s adapter \<Rightarrow> string \<Rightarrow> string \<Rightarrow> ('s, string) signing" where
  "adapter_node_encrypt_blinded_message_payload a plaintext_hex rho_hex =
     expecting a ''encrypt_blinded_message_payload''
       (\<lambda>r. case r of
            SignerResponse_Node (NodeResponse_BlindedMessagePayload bytes_hex) \<Rightarrow> Some bytes_hex
          | _ \<Rightarrow> None)
       (SignerRequest_Node (NodeRequest_EncryptBlindedMessagePayload plaintext_hex rho_hex))"

definition adapter_node_decrypt_blinded_message_payload ::
  "'s adapter \<Rightarrow> string \<Rightarrow> string \<Rightarrow> ('s, (string \<times> bool)) signing" where
  "adapter_node_decrypt_blinded_message_payload a ciphertext_hex rho_hex =
     expecting a ''decrypt_blinded_message_payload''
       (\<lambda>r. case r of
            SignerResponse_Node (NodeResponse_DecryptedBlindedMessagePayload bytes_hex used_aad) \<Rightarrow>
              Some (bytes_hex, used_aad)
          | _ \<Rightarrow> None)
       (SignerRequest_Node (NodeRequest_DecryptBlindedMessagePayload ciphertext_hex rho_hex))"

definition adapter_node_get_hmac_for_offer_key :: "'s adapter \<Rightarrow> ('s, string) signing" where
  "adapter_node_get_hmac_for_offer_key a =
     expecting a ''get_hmac_for_offer_key''
       (\<lambda>r. case r of
            SignerResponse_Node (NodeResponse_HmacForOfferKey key_hex) \<Rightarrow> Some key_hex
          | _ \<Rightarrow> None)
       (SignerRequest_Node NodeRequest_GetHmacForOfferKey)"

definition adapter_node_crypt_for_offer ::
  "'s adapter \<Rightarrow> string \<Rightarrow> string \<Rightarrow> ('s, string) signing" where
  "adapter_node_crypt_for_offer a bytes_hex nonce_hex =
     expecting a ''crypt_for_offer''
       (\<lambda>r. case r of
            SignerResponse_Node (NodeResponse_CryptForOffer bytes_hex) \<Rightarrow> Some bytes_hex
          | _ \<Rightarrow> None)
       (SignerRequest_Node (NodeRequest_CryptForOffer bytes_hex nonce_hex))"

definition adapter_node_create_inbound_payment ::
  "'s adapter \<Rightarrow> u64 option \<Rightarrow> u32 \<Rightarrow> string \<Rightarrow> u64 \<Rightarrow> u16 option \<Rightarrow> ('s, (string \<times> string)) signing" where
  "adapter_node_create_inbound_payment a min_value_msat invoice_expiry_delta_secs
     random_bytes_hex current_time min_final_cltv_expiry_delta =
     expecting a ''create_inbound_payment''
       (\<lambda>r. case r of
            SignerResponse_Node (NodeResponse_PaymentHashAndSecret payment_hash_hex payment_secret_hex) \<Rightarrow>
              Some (payment_hash_hex, payment_secret_hex)
          | _ \<Rightarrow> None)
       (SignerRequest_Node (NodeRequest_CreateInboundPayment min_value_msat invoice_expiry_delta_secs
         random_bytes_hex current_time min_final_cltv_expiry_delta))"

definition adapter_node_create_inbound_payment_for_hash ::
  "'s adapter \<Rightarrow> string \<Rightarrow> u64 option \<Rightarrow> u32 \<Rightarrow> u64 \<Rightarrow> u16 option \<Rightarrow> ('s, string) signing" where
  "adapter_node_create_inbound_payment_for_hash a payment_hash_hex min_value_msat
     invoice_expiry_delta_secs current_time min_final_cltv_expiry_delta =
     expecting a ''create_inbound_payment_for_hash''
       (\<lambda>r. case r of
            SignerResponse_Node (NodeResponse_PaymentSecret payment_secret_hex) \<Rightarrow> Some payment_secret_hex
          | _ \<Rightarrow> None)
       (SignerRequest_Node (NodeRequest_CreateInboundPaymentForHash payment_hash_hex min_value_msat
         invoice_expiry_delta_secs current_time min_final_cltv_expiry_delta))"

definition adapter_node_create_spontaneous_payment_secret ::
  "'s adapter \<Rightarrow> u64 option \<Rightarrow> u32 \<Rightarrow> u64 \<Rightarrow> u16 option \<Rightarrow> ('s, string) signing" where
  "adapter_node_create_spontaneous_payment_secret a min_value_msat invoice_expiry_delta_secs
     current_time min_final_cltv_expiry_delta =
     expecting a ''create_spontaneous_payment_secret''
       (\<lambda>r. case r of
            SignerResponse_Node (NodeResponse_PaymentSecret payment_secret_hex) \<Rightarrow> Some payment_secret_hex
          | _ \<Rightarrow> None)
       (SignerRequest_Node (NodeRequest_CreateSpontaneousPaymentSecret min_value_msat
         invoice_expiry_delta_secs current_time min_final_cltv_expiry_delta))"

definition adapter_node_verify_inbound_payment ::
  "'s adapter \<Rightarrow> string \<Rightarrow> string \<Rightarrow> u64 \<Rightarrow> u64 \<Rightarrow> ('s, (string option \<times> u16 option)) signing" where
  "adapter_node_verify_inbound_payment a payment_hash_hex payment_secret_hex total_msat
     highest_seen_timestamp =
     expecting a ''verify_inbound_payment''
       (\<lambda>r. case r of
            SignerResponse_Node (NodeResponse_VerifyInboundPayment payment_preimage_hex cltv_expiry_delta) \<Rightarrow>
              Some (payment_preimage_hex, cltv_expiry_delta)
          | _ \<Rightarrow> None)
       (SignerRequest_Node (NodeRequest_VerifyInboundPayment payment_hash_hex payment_secret_hex
         total_msat highest_seen_timestamp))"

definition adapter_node_get_payment_preimage ::
  "'s adapter \<Rightarrow> string \<Rightarrow> string \<Rightarrow> ('s, string) signing" where
  "adapter_node_get_payment_preimage a payment_hash_hex payment_secret_hex =
     expecting a ''get_payment_preimage''
       (\<lambda>r. case r of
            SignerResponse_Node (NodeResponse_PaymentPreimage payment_preimage_hex) \<Rightarrow>
              Some payment_preimage_hex
          | _ \<Rightarrow> None)
       (SignerRequest_Node (NodeRequest_GetPaymentPreimage payment_hash_hex payment_secret_hex))"

definition adapter_prepare_async_payments_hashes ::
  "'s adapter \<Rightarrow> string \<Rightarrow> u64 \<Rightarrow> u32 \<Rightarrow> ('s, async_payments_hash_entry list) signing" where
  "adapter_prepare_async_payments_hashes a host_node_id_hex start_index batch_size =
     expecting a ''prepare_async_payments_hashes''
       (\<lambda>r. case r of
            SignerResponse_Node (NodeResponse_AsyncPaymentsHashes hashes) \<Rightarrow> Some hashes
          | _ \<Rightarrow> None)
       (SignerRequest_Node (NodeRequest_PrepareAsyncPaymentsHashes host_node_id_hex start_index batch_size))"

definition adapter_node_get_async_payment_preimage ::
  "'s adapter \<Rightarrow> string \<Rightarrow> u64 \<Rightarrow> string \<Rightarrow> ('s, string) signing" where
  "adapter_node_get_async_payment_preimage a host_node_id_hex hash_index payment_hash_hex =
     expecting a ''node_get_async_payment_preimage''
       (\<lambda>r. case r of
            SignerResponse_Node (NodeResponse_PaymentPreimage payment_preimage_hex) \<Rightarrow>
              Some payment_preimage_hex
          | _ \<Rightarrow> None)
       (SignerRequest_Node (NodeRequest_GetAsyncPaymentPreimage host_node_id_hex hash_index payment_hash_hex))"

definition adapter_generate_channel_keys_id ::
  "'s adapter \<Rightarrow> bool \<Rightarrow> u64 \<Rightarrow> u128 \<Rightarrow> ('s, string) signing" where
  "adapter_generate_channel_keys_id a inbound channel_value_satoshis user_channel_id =
     expecting a ''generate_channel_keys_id''
       (\<lambda>r. case r of
            SignerResponse_Channel (ChannelResponse_GeneratedChannelKeysId channel_keys_id_hex) \<Rightarrow>
              Some channel_keys_id_hex
          | _ \<Rightarrow> None)
       (SignerRequest_Channel (ChannelRequest_GenerateChannelKeysId inbound channel_value_satoshis
         user_channel_id))"

definition adapter_derive_channel_signer ::
  "'s adapter \<Rightarrow> u64 \<Rightarrow> string \<Rightarrow> ('s, (string \<times> channel_public_keys)) signing" where
  "adapter_derive_channel_signer a channel_value_satoshis channel_keys_id_hex =
     expecting a ''derive_channel_signer''
       (\<lambda>r. case r of
            SignerResponse_Channel (ChannelResponse_ChannelSignerData state_hex channel_pubkeys) \<Rightarrow>
              Some (state_hex, channel_pubkeys)
          | _ \<Rightarrow> None)
       (SignerRequest_Channel (ChannelRequest_DeriveChannelSigner channel_value_satoshis channel_keys_id_hex))"

definition adapter_sign_rgb_psbt ::
  "'s adapter \<Rightarrow> string list \<Rightarrow> string \<Rightarrow> ('s, string) signing" where
  "adapter_sign_rgb_psbt a descriptors psbt =
     expecting a ''sign_rgb_psbt''
       (\<lambda>r. case r of
            SignerResponse_SignedPsbt psbt \<Rightarrow> Some psbt
          | _ \<Rightarrow> None)
       (SignerRequest_SignRgbPsbt descriptors psbt)"

definition adapter_sign_spendable_outputs_psbt ::
  "'s adapter \<Rightarrow> spendable_output_sign_input list \<Rightarrow> string \<Rightarrow> ('s, string) signing" where
  "adapter_sign_spendable_outputs_psbt a inputs psbt =
     expecting a ''sign_spendable_outputs_psbt''
       (\<lambda>r. case r of
            SignerResponse_SignedPsbt psbt \<Rightarrow> Some psbt
          | _ \<Rightarrow> None)
       (SignerRequest_SignSpendableOutputsPsbt inputs psbt)"

definition adapter_get_wallet_input_metadata ::
  "'s adapter \<Rightarrow> string \<Rightarrow> u32 \<Rightarrow> string option \<Rightarrow> u64 option \<Rightarrow> ('s, wallet_input_metadata option) signing" where
  "adapter_get_wallet_input_metadata a txid_hex vout script_pubkey_hex amount_sat =
     expecting a ''get_wallet_input_metadata''
       (\<lambda>r. case r of
            SignerResponse_WalletInputMetadata metadata \<Rightarrow> Some metadata
          | _ \<Rightarrow> None)
       (SignerRequest_GetWalletInputMetadata txid_hex vout script_pubkey_hex amount_sat)"

definition adapter_find_derivation_matches_for_script ::
  "'s adapter \<Rightarrow> string \<Rightarrow> u32 \<Rightarrow> ('s, derived_address_match list) signing" where
  "adapter_find_derivation_matches_for_script a script_pubkey_hex max_index =
     expecting a ''find_derivation_matches_for_script''
       (\<lambda>r. case r of
            SignerResponse_FindDerivationMatches matches \<Rightarrow> Some matches
          | _ \<Rightarrow> None)
       (SignerRequest_FindDerivationMatches script_pubkey_hex max_index)"
end
