(* ===== verification/Vls_Signer.thy ===== *)
theory Vls_Signer
  imports Signer_Proto Rln_Wire "HOL-Library.AList"
begin

text \<open>
  The signer behind the protocol (\<open>src/src/signer/in_process_vls.rs\<close>): the pipeline that takes an
  envelope apart, asks the signing backend and answers with an envelope, and the transport that
  drives the handlers of the VLS crates. Those crates (the backend, the handlers with the node they
  share, the channel store) are arguments.
\<close>

section \<open>The envelope pipeline\<close>

text \<open>What the backend makes of a request, on its own state.\<close>

datatype backend_outcome = Answered signer_response | Failed | Panicked

record 'st vls =
  vl_backend :: "signer_request \<Rightarrow> 'st \<Rightarrow> backend_outcome \<times> 'st"
  vl_stub_point :: "'st \<Rightarrow> u64 \<Rightarrow> u64 \<Rightarrow> string option"
  vl_from_hex :: "string \<Rightarrow> bytes option"

definition dbid_from_channel_keys_id_hex :: "(string \<Rightarrow> bytes option) \<Rightarrow> string \<Rightarrow> u64 option" where
  "dbid_from_channel_keys_id_hex from_hex channel_keys_id_hex =
     (case from_hex channel_keys_id_hex of
        None \<Rightarrow> None
      | Some bytes \<Rightarrow>
          if length bytes \<noteq> 32 then None else Some (word_of_nat (be_val (take 8 bytes))))"

definition per_commitment_point_fallback :: "'st vls \<Rightarrow> 'st \<Rightarrow> string \<Rightarrow> u64 \<Rightarrow> signer_response option" where
  "per_commitment_point_fallback v st channel_keys_id_hex idx =
     (case dbid_from_channel_keys_id_hex (vl_from_hex v) channel_keys_id_hex of
        None \<Rightarrow> None
      | Some dbid \<Rightarrow>
          (case vl_stub_point v st dbid idx of
             None \<Rightarrow> None
           | Some point_hex \<Rightarrow>
               Some (SignerResponse_Channel (ChannelResponse_PerCommitmentPoint point_hex))))"

fun fallback_params :: "signer_request \<Rightarrow> (string \<times> u64) option" where
  "fallback_params (SignerRequest_Channel (ChannelRequest_Op channel_keys_id_hex
     (ChannelOp_GetPerCommitmentPoint idx))) = Some (channel_keys_id_hex, idx)"
| "fallback_params _ = None"

text \<open>The part between decoding and encoding.\<close>

definition vls_respond :: "'st vls \<Rightarrow> signer_request \<Rightarrow> 'st \<Rightarrow> backend_outcome \<times> 'st" where
  "vls_respond v signer_request st =
     (case vl_backend v signer_request st of
        (Failed, st) \<Rightarrow>
          (case fallback_params signer_request of
             None \<Rightarrow> (Failed, st)
           | Some (channel_keys_id_hex, idx) \<Rightarrow>
               (case per_commitment_point_fallback v st channel_keys_id_hex idx of
                  None \<Rightarrow> (Failed, st)
                | Some response \<Rightarrow> (Answered response, st)))
      | r \<Rightarrow> r)"

definition handle_envelope :: "prost \<Rightarrow> 'st vls \<Rightarrow> 'st handler" where
  "handle_envelope p v st request =
     (case decode_signer_request p request of
        Inl _ \<Rightarrow> (HandlerError, st)
      | Inr signer_request \<Rightarrow>
          (case vls_respond v signer_request st of
             (Panicked, st) \<Rightarrow> (Crashed, st)
           | (Failed, st) \<Rightarrow> (HandlerError, st)
           | (Answered signer_response, st) \<Rightarrow>
               (case encode_signer_response p signer_response of
                  Inl _ \<Rightarrow> (HandlerError, st)
                | Inr reply \<Rightarrow> (Reply reply, st))))"


section \<open>The transport over the VLS handlers\<close>

text \<open>The messages \<open>node_call\<close> and \<open>call\<close> tell apart.\<close>

datatype 'x vls_message =
    Ping 'x | HsmdInit 'x | HsmdInit2 'x | NewChannel 'x | GetChannelBasepoints 'x | OtherMessage 'x

record ('i, 'r, 'c) vls_state =
  vs_init_handler :: "'i option"
  vs_root_handler :: "'r option"
  vs_channel_handlers :: "((u64 \<times> bytes) \<times> 'c) list"
  vs_cached_hsmd_init2_reply :: "bytes option"
  vs_poisoned :: bool

text \<open>The handlers; all work on the node they share. A handler may panic (\<open>None\<close>).\<close>

record ('x, 'i, 'r, 'c, 'n) vls_handlers =
  vh_from_vec :: "bytes \<Rightarrow> 'x vls_message option"
  vh_init_handle :: "'i \<Rightarrow> 'x vls_message \<Rightarrow> 'n \<Rightarrow> (unit + bool \<times> bytes option) option \<times> 'i \<times> 'n"
  vh_into_root :: "'i \<Rightarrow> 'r"
  vh_root_handle :: "'r \<Rightarrow> 'x vls_message \<Rightarrow> 'n \<Rightarrow> (unit + bytes) option \<times> 'n"
  vh_for_new_client :: "'r \<Rightarrow> bytes \<Rightarrow> u64 \<Rightarrow> 'c"
  vh_channel_handle :: "'c \<Rightarrow> 'x vls_message \<Rightarrow> 'n \<Rightarrow> (unit + bytes) option \<times> 'c \<times> 'n"

datatype vls_error = ProtocolError | TransportError | HandlerPanic

fun is_hsmd_init2 :: "'x vls_message \<Rightarrow> bool" where
  "is_hsmd_init2 (HsmdInit2 _) = True"
| "is_hsmd_init2 _ = False"

fun is_init_message :: "'x vls_message \<Rightarrow> bool" where
  "is_init_message (Ping _) = True"
| "is_init_message (HsmdInit _) = True"
| "is_init_message (HsmdInit2 _) = True"
| "is_init_message _ = False"

fun is_new_channel_message :: "'x vls_message \<Rightarrow> bool" where
  "is_new_channel_message (NewChannel _) = True"
| "is_new_channel_message (GetChannelBasepoints _) = True"
| "is_new_channel_message _ = False"

text \<open>A message while the node is not initialised; the lock is held throughout.\<close>

definition init_call ::
  "('x, 'i, 'r, 'c, 'n) vls_handlers \<Rightarrow> 'x vls_message \<Rightarrow> ('i, 'r, 'c) vls_state \<Rightarrow> 'n
     \<Rightarrow> (vls_error + bytes) \<times> ('i, 'r, 'c) vls_state \<times> 'n" where
  "init_call vh msg s n =
     (if \<not> is_init_message msg then (Inl TransportError, s, n)
      else case vs_init_handler s of
             None \<Rightarrow> (Inl TransportError, s, n)
           | Some init \<Rightarrow>
               (case vh_init_handle vh init msg n of
                  (None, init, n) \<Rightarrow> (Inl HandlerPanic, s\<lparr>vs_init_handler := Some init, vs_poisoned := True\<rparr>, n)
                | (Some (Inl _), init, n) \<Rightarrow> (Inl TransportError, s\<lparr>vs_init_handler := Some init\<rparr>, n)
                | (Some (Inr (finished, None)), init, n) \<Rightarrow>
                    (Inl TransportError, s\<lparr>vs_init_handler := Some init\<rparr>, n)
                | (Some (Inr (finished, Some reply)), init, n) \<Rightarrow>
                    (let s = s\<lparr>vs_init_handler := Some init\<rparr>;
                         s = (if is_hsmd_init2 msg then s\<lparr>vs_cached_hsmd_init2_reply := Some reply\<rparr> else s);
                         s = (if finished
                              then s\<lparr>vs_init_handler := None, vs_root_handler := Some (vh_into_root vh init)\<rparr>
                              else s)
                     in (Inr reply, s, n))))"

definition node_call ::
  "('x, 'i, 'r, 'c, 'n) vls_handlers \<Rightarrow> bytes \<Rightarrow> ('i, 'r, 'c) vls_state \<Rightarrow> 'n
     \<Rightarrow> (vls_error + bytes) \<times> ('i, 'r, 'c) vls_state \<times> 'n" where
  "node_call vh message s n =
     (case vh_from_vec vh message of
        None \<Rightarrow> (Inl ProtocolError, s, n)
      | Some msg \<Rightarrow>
          if vs_poisoned s then (Inl TransportError, s, n)
          else case vs_root_handler s of
                 None \<Rightarrow> init_call vh msg s n
               | Some root \<Rightarrow>
                   if is_hsmd_init2 msg then
                     (case vs_cached_hsmd_init2_reply s of
                        None \<Rightarrow> (Inl TransportError, s, n)
                      | Some reply \<Rightarrow> (Inr reply, s, n))
                   else case vh_root_handle vh root msg n of
                          (None, n) \<Rightarrow> (Inl HandlerPanic, s, n)
                        | (Some (Inl _), n) \<Rightarrow> (Inl TransportError, s, n)
                        | (Some (Inr reply), n) \<Rightarrow> (Inr reply, s, n))"

definition vls_call ::
  "('x, 'i, 'r, 'c, 'n) vls_handlers \<Rightarrow> u64 \<Rightarrow> bytes \<Rightarrow> bytes \<Rightarrow> ('i, 'r, 'c) vls_state \<Rightarrow> 'n
     \<Rightarrow> (vls_error + bytes) \<times> ('i, 'r, 'c) vls_state \<times> 'n" where
  "vls_call vh dbid peer_id message s n =
     (case vh_from_vec vh message of
        None \<Rightarrow> (Inl ProtocolError, s, n)
      | Some msg \<Rightarrow>
          if vs_poisoned s then (Inl TransportError, s, n)
          else case vs_root_handler s of
                 None \<Rightarrow> (Inl TransportError, s, n)
               | Some root \<Rightarrow>
                   if is_new_channel_message msg then
                     (case vh_root_handle vh root msg n of
                        (None, n) \<Rightarrow> (Inl HandlerPanic, s, n)
                      | (Some (Inl _), n) \<Rightarrow> (Inl TransportError, s, n)
                      | (Some (Inr reply), n) \<Rightarrow> (Inr reply, s, n))
                   else
                     (let key = (dbid, peer_id);
                          handler = (case map_of (vs_channel_handlers s) key of
                                       Some h \<Rightarrow> h
                                     | None \<Rightarrow> vh_for_new_client vh root peer_id dbid)
                      in case vh_channel_handle vh handler msg n of
                           (r, handler, n) \<Rightarrow>
                             (let s = s\<lparr>vs_channel_handlers := AList.update key handler (vs_channel_handlers s)\<rparr>
                              in case r of
                                   None \<Rightarrow> (Inl HandlerPanic, s\<lparr>vs_poisoned := True\<rparr>, n)
                                 | Some (Inl _) \<Rightarrow> (Inl TransportError, s, n)
                                 | Some (Inr reply) \<Rightarrow> (Inr reply, s, n))))"

text \<open>The state a process starts with, and the first channel number it may give out: one past the
  highest one of the stored channels (\<open>None\<close> where that addition overflows).\<close>

definition vls_new :: "'i \<Rightarrow> ('i, 'r, 'c) vls_state" where
  "vls_new init =
     \<lparr>vs_init_handler = Some init, vs_root_handler = None, vs_channel_handlers = [],
      vs_cached_hsmd_init2_reply = None, vs_poisoned = False\<rparr>"

definition initial_next_dbid :: "u64 list \<Rightarrow> u64 option" where
  "initial_next_dbid oids =
     (if oids = [] then Some 1
      else let m = Max (set oids) in if m = - 1 then None else Some (m + 1))"

end
