(* ===== verification/Signer_Proto_Props.thy ===== *)
theory Signer_Proto_Props
  imports Signer_Proto
begin

text \<open>
  What the protobuf form of the signer protocol keeps: everything but an optional list that is present
  and empty, which arrives as an absent one, and an api level of zero, which arrives as the supported
  one. The assumption on \<open>prost\<close> is that it decodes what it encoded.
\<close>

lemma ucast_ucast_16 [simp]: "ucast (ucast (x :: u16) :: u32) = x"
  by (rule bit_word_eqI) (simp add: bit_simps)

lemma ucast_ucast_8 [simp]: "ucast (ucast (x :: byte) :: u32) = x"
  by (rule bit_word_eqI) (simp add: bit_simps)

lemmas part_maps = option.map_comp comp_def option.map_ident list.map_ident

lemma decode_encode_u128_be [simp]: "decode_u128_be (encode_u128_be x) = Inr x"
proof -
  have "unat x < 256 ^ 16" using unat_less_exp [of x] by simp
  then show ?thesis by (simp add: decode_u128_be_def encode_u128_be_def be_val_be_bytes)
qed

lemma collect_map_Inr: "(\<And>x. x \<in> set xs \<Longrightarrow> f x = Inr (g x)) \<Longrightarrow> collect (map f xs) = Inr (map g xs)"
  by (induction xs) auto


section \<open>The parts\<close>

lemma part_round_trips [simp]:
  "wallet_derivation_match_from (wallet_derivation_match_v1_from wm) = wm"
  "signer_identity_from (signer_identity_v1_from si) = si"
  "async_payments_hash_entry_from (async_payments_hash_entry_v1_from he) = he"
  "wallet_input_metadata_from (wallet_input_metadata_v1_from im) = im"
  "derived_address_match_from (derived_address_match_v1_from am) = am"
  "channel_public_keys_from (channel_public_keys_v1_from pk) = pk"
  "channel_htlc_from (channel_htlc_v1_from ch) = ch"
  by (cases wm, simp, cases si, simp, cases he, simp, cases im, simp, cases am, simp, cases pk, simp,
      cases ch, simp)

lemma sign_input_round_trip [simp]:
  "spendable_output_sign_input_try_from (spendable_output_sign_input_v1_from i) = Inr i"
proof (cases i)
  case (SpendableOutputSignInput k)
  then show ?thesis
    by (cases k) (simp_all add: descriptor_kind_from_def part_maps)
qed


section \<open>Canonical forms\<close>

definition drop_empty :: "'a list option \<Rightarrow> 'a list option" where
  "drop_empty x = (if x = Some [] then None else x)"

lemma none_if_empty_unwrap [simp]: "none_if_empty (unwrap_or_default x) = drop_empty x"
  by (auto simp: none_if_empty_def unwrap_or_default_def drop_empty_def split: option.splits)

lemma drop_empty_idem [simp]:
  "drop_empty (drop_empty x) = drop_empty x" "drop_empty (none_if_empty xs) = none_if_empty xs"
  by (simp_all add: drop_empty_def none_if_empty_def)

fun canonical_op :: "channel_op \<Rightarrow> channel_op" where
  "canonical_op (ChannelOp_ValidateHolderCommitment n fee to_local to_remote htlcs sig htlc_sigs tx scripts) =
     ChannelOp_ValidateHolderCommitment n fee to_local to_remote htlcs sig htlc_sigs
       (drop_empty tx) (drop_empty scripts)"
| "canonical_op (ChannelOp_SignCounterpartyCommitment tx point n fee to_local to_remote htlcs pre scripts) =
     ChannelOp_SignCounterpartyCommitment tx point n fee to_local to_remote htlcs pre (drop_empty scripts)"
| "canonical_op opn = opn"

fun canonical_request :: "signer_request \<Rightarrow> signer_request" where
  "canonical_request (SignerRequest_Channel (ChannelRequest_Op keys_id opn)) =
     SignerRequest_Channel (ChannelRequest_Op keys_id (canonical_op opn))"
| "canonical_request r = r"

fun canonical_response :: "signer_response \<Rightarrow> signer_response" where
  "canonical_response (SignerResponse_Bootstrap (BootstrapData identity version level)) =
     SignerResponse_Bootstrap (BootstrapData identity version
       (if level = 0 then SUPPORTED_SIGNER_API_LEVEL else level))"
| "canonical_response r = r"


section \<open>Requests and responses\<close>

lemma node_request_round_trip [simp]: "node_request_try_from (node_request_v1_from r) = Inr r"
  by (cases r) (simp_all add: node_request_v1_from_def part_maps)

lemma node_response_round_trip [simp]: "node_response_try_from (node_response_v1_from r) = Inr r"
  by (cases r) (simp_all add: node_response_v1_from_def part_maps)

lemma channel_op_round_trip [simp]: "channel_op_try_from (channel_op_v1_from r) = Inr (canonical_op r)"
  by (cases r) (simp_all add: channel_op_v1_from_def part_maps)

lemma channel_response_round_trip [simp]: "channel_response_try_from (channel_response_v1_from r) = Inr r"
  by (cases r) (simp_all add: channel_response_v1_from_def)

lemma bootstrap_round_trip [simp]:
  "bootstrap_data_try_from (bootstrap_data_v1_from b)
     = Inr (BootstrapData (bd_identity b) (bd_protocol_version b)
         (if bd_api_level b = 0 then SUPPORTED_SIGNER_API_LEVEL else bd_api_level b))"
  by (cases b) (simp add: Let_def)

lemma signer_request_round_trip:
  "signer_request_try_from (signer_request_v1_from r) = Inr (canonical_request r)"
proof (cases r)
  case (SignerRequest_Channel c)
  then show ?thesis
    by (cases c) (simp_all add: signer_request_v1_from_def channel_request_v1_from_def)
qed (simp_all add: signer_request_v1_from_def collect_map_Inr [where g = id] part_maps)

lemma signer_response_round_trip:
  "signer_response_try_from (signer_response_v1_from r) = Inr (canonical_response r)"
proof (cases r)
  case (SignerResponse_Bootstrap b)
  then show ?thesis by (cases b) (simp add: signer_response_v1_from_def)
qed (simp_all add: signer_response_v1_from_def part_maps)

text \<open>What comes out of the decoder is in canonical form.\<close>

lemma channel_op_canonical: "channel_op_try_from m = Inr opn \<Longrightarrow> canonical_op opn = opn"
  by (cases m rule: channel_op_try_from.cases; simp)
    (erule channel_op_of_kind.elims; auto split: option.splits)

lemma channel_request_canonical:
  "channel_request_try_from m = Inr r \<Longrightarrow> canonical_request (SignerRequest_Channel r) = SignerRequest_Channel r"
  by (cases m rule: channel_request_try_from.cases; simp)
    (erule channel_request_of_kind.elims; auto split: option.splits sum.splits dest: channel_op_canonical)

lemma signer_request_canonical: "signer_request_try_from m = Inr r \<Longrightarrow> canonical_request r = r"
  by (cases m rule: signer_request_try_from.cases; simp)
    (erule signer_request_of_kind.elims; auto split: sum.splits dest: channel_request_canonical)

lemma bootstrap_canonical:
  "bootstrap_data_try_from m = Inr b \<Longrightarrow> canonical_response (SignerResponse_Bootstrap b) = SignerResponse_Bootstrap b"
  by (cases m) (auto simp: Let_def SUPPORTED_SIGNER_API_LEVEL_def split: option.splits)

lemma signer_response_canonical: "signer_response_try_from m = Inr r \<Longrightarrow> canonical_response r = r"
  by (cases m rule: signer_response_try_from.cases; simp)
    (erule signer_response_of_kind.elims; auto split: sum.splits dest: bootstrap_canonical)


section \<open>On the wire\<close>

text \<open>What the protocol relies on of \<open>prost\<close>: a message is encoded, and decoded as itself.\<close>

definition carries :: "'m codec \<Rightarrow> 'm \<Rightarrow> bool" where
  "carries c m = (\<exists>b. fst c m = Inr b \<and> snd c b = Inr m)"

lemma decode_encode_envelope:
  assumes "\<And>e. carries ec e" "carries mc m"
  shows "\<exists>w. encode_envelope ec mc m = Inr w \<and> decode_envelope ec mc w = Inr m"
proof -
  from assms(2) obtain b where b: "fst mc m = Inr b" "snd mc b = Inr m"
    by (auto simp: carries_def)
  let ?e = "\<lparr>se_version = ENVELOPE_VERSION_V1, se_payload_encoding = ENCODING_PROTOBUF_V1, se_payload = b\<rparr>"
  from assms(1) [of ?e] obtain w where "fst ec ?e = Inr w" "snd ec w = Inr ?e"
    by (auto simp: carries_def)
  with b show ?thesis by (simp add: encode_envelope_def decode_envelope_def)
qed

definition carries_envelopes :: "prost \<Rightarrow> bool" where
  "carries_envelopes p = (\<forall>e. carries (pr_envelope p) e)"

lemma request_on_wire:
  assumes "carries_envelopes p" "carries (pr_request p) (signer_request_v1_from r)"
  shows "\<exists>w. encode_signer_request p r = Inr w \<and> decode_signer_request p w = Inr (canonical_request r)"
  using decode_encode_envelope [of "pr_envelope p" "pr_request p", OF _ assms(2)] assms(1)
  by (auto simp: carries_envelopes_def encode_signer_request_def decode_signer_request_def
      signer_request_round_trip)

lemma response_on_wire:
  assumes "carries_envelopes p" "carries (pr_response p) (signer_response_v1_from r)"
  shows "\<exists>w. encode_signer_response p r = Inr w \<and> decode_signer_response p w = Inr (canonical_response r)"
  using decode_encode_envelope [of "pr_envelope p" "pr_response p", OF _ assms(2)] assms(1)
  by (auto simp: carries_envelopes_def encode_signer_response_def decode_signer_response_def
      signer_response_round_trip)

lemma decoded_request_canonical: "decode_signer_request p w = Inr r \<Longrightarrow> canonical_request r = r"
  by (auto simp: decode_signer_request_def signer_request_canonical split: sum.splits)

lemma decoded_response_canonical: "decode_signer_response p w = Inr r \<Longrightarrow> canonical_response r = r"
  by (auto simp: decode_signer_response_def signer_response_canonical split: sum.splits)

text \<open>C31. The signer protocol on the wire. Where \<open>prost\<close> decodes what it encoded, a request that is
  encoded in an envelope is decoded as its canonical form: as itself, except that a transaction or a
  list of witness scripts that is present and empty becomes absent. A response is decoded as itself,
  except that an api level of zero becomes the supported one. Nothing that is not in canonical form
  is ever decoded.\<close>

theorem signer_protocol_round_trip:
  assumes "carries_envelopes p" "carries (pr_request p) (signer_request_v1_from r)"
    and "carries (pr_response p) (signer_response_v1_from s)"
  shows "(\<exists>w. encode_signer_request p r = Inr w \<and> decode_signer_request p w = Inr (canonical_request r))
    \<and> (\<exists>w. encode_signer_response p s = Inr w \<and> decode_signer_response p w = Inr (canonical_response s))
    \<and> (\<forall>w r. decode_signer_request p w = Inr r \<longrightarrow> canonical_request r = r)
    \<and> (\<forall>w s. decode_signer_response p w = Inr s \<longrightarrow> canonical_response s = s)"
  using request_on_wire [OF assms(1,2)] response_on_wire [OF assms(1,3)]
    decoded_request_canonical decoded_response_canonical by blast

text \<open>A codec that numbers the messages of a list, and one for envelopes.\<close>

fun index_of :: "'a list \<Rightarrow> 'a \<Rightarrow> nat option" where
  "index_of [] x = None"
| "index_of (y # ys) x = (if x = y then Some 0 else map_option Suc (index_of ys x))"

definition codebook :: "'m list \<Rightarrow> 'm codec" where
  "codebook ms =
     (\<lambda>m. case index_of ms m of Some n \<Rightarrow> Inr [word_of_nat n] | None \<Rightarrow> Inl ''unknown message'',
      \<lambda>b. case b of [n] \<Rightarrow> if unat n < length ms then Inr (ms ! unat n) else Inl ''unknown number''
                | _ \<Rightarrow> Inl ''not a number'')"

lemma index_of_Some: "m \<in> set ms \<Longrightarrow> \<exists>n < length ms. index_of ms m = Some n \<and> ms ! n = m"
  by (induction ms) force+

lemma codebook_carries:
  assumes "m \<in> set ms" "length ms \<le> 256"
  shows "carries (codebook ms) m"
proof -
  from index_of_Some [OF assms(1)] obtain n where "n < length ms" "index_of ms m = Some n" "ms ! n = m"
    by auto
  with assms(2) show ?thesis
    by (auto simp: carries_def codebook_def unat_word_of_nat_byte)
qed

definition plain_envelope :: "signer_envelope codec" where
  "plain_envelope =
     (\<lambda>e. Inr (be_bytes 4 (unat (se_version e)) @ be_bytes 4 (unat (se_payload_encoding e)) @ se_payload e),
      \<lambda>b. Inr \<lparr>se_version = word_of_nat (be_val (take 4 b)),
              se_payload_encoding = word_of_nat (be_val (take 4 (drop 4 b))), se_payload = drop 8 b\<rparr>)"

lemma plain_envelope_carries: "carries plain_envelope e"
proof -
  have "be_val (be_bytes 4 (unat x)) = unat x" for x :: u32
    using unat_less_exp [of x] by (simp add: be_val_be_bytes)
  then show ?thesis by (simp add: carries_def plain_envelope_def)
qed

definition sample_request :: signer_request where
  "sample_request = SignerRequest_Channel (ChannelRequest_Op ''11''
     (ChannelOp_ValidateHolderCommitment 42 253 100000 200000 [ChannelHtlc 1 5000 ''aa'' 700] ''ab'' []
        (Some []) (Some [''51''])))"

definition demo_response :: signer_response where
  "demo_response = SignerResponse_Bootstrap
     (BootstrapData (SignerIdentity ''02'' ''xv'' ''xc'' ''deadbeef'') ''1'' 0)"

definition demo_prost :: prost where
  "demo_prost = \<lparr>pr_envelope = plain_envelope,
     pr_request = codebook (map signer_request_v1_from [SignerRequest_Bootstrap, sample_request]),
     pr_response = codebook (map signer_response_v1_from [demo_response, SignerResponse_SignedPsbt ''70''])\<rparr>"

lemma demo_prost_carries:
  "carries_envelopes demo_prost"
  "carries (pr_request demo_prost) (signer_request_v1_from SignerRequest_Bootstrap)"
  "carries (pr_request demo_prost) (signer_request_v1_from sample_request)"
  "carries (pr_response demo_prost) (signer_response_v1_from demo_response)"
  "carries (pr_response demo_prost) (signer_response_v1_from (SignerResponse_SignedPsbt ''70''))"
  by (simp_all add: carries_envelopes_def demo_prost_def plain_envelope_carries codebook_carries)

theorem signer_protocol_round_trip_witness:
  "(\<exists>w. encode_signer_request demo_prost sample_request = Inr w \<and> decode_signer_request demo_prost w
      = Inr (SignerRequest_Channel (ChannelRequest_Op ''11''
         (ChannelOp_ValidateHolderCommitment 42 253 100000 200000 [ChannelHtlc 1 5000 ''aa'' 700] ''ab'' []
            None (Some [''51''])))))
   \<and> (\<exists>w. encode_signer_response demo_prost demo_response = Inr w \<and> decode_signer_response demo_prost w
      = Inr (SignerResponse_Bootstrap (BootstrapData (SignerIdentity ''02'' ''xv'' ''xc'' ''deadbeef'') ''1'' 1)))"
proof -
  have "canonical_request sample_request = SignerRequest_Channel (ChannelRequest_Op ''11''
      (ChannelOp_ValidateHolderCommitment 42 253 100000 200000 [ChannelHtlc 1 5000 ''aa'' 700] ''ab'' []
         None (Some [''51''])))"
    "canonical_response demo_response
      = SignerResponse_Bootstrap (BootstrapData (SignerIdentity ''02'' ''xv'' ''xc'' ''deadbeef'') ''1'' 1)"
    by (simp_all add: sample_request_def demo_response_def drop_empty_def SUPPORTED_SIGNER_API_LEVEL_def)
  with signer_protocol_round_trip [OF demo_prost_carries(1,3,4)] show ?thesis by simp
qed

end
