(* ===== verification/Remote_Signer_Props.thy ===== *)
theory Remote_Signer_Props
  imports Remote_Signer
begin

unbundle bit_operations_syntax

text \<open>
  Properties of the remote signer link: the daemon serves exactly the callers that present its token,
  and a call of the node's transport over a network that may break is answered with the reply of the
  signer, which handles the request once or, when a reply was lost, twice.
\<close>

section \<open>Frames and token\<close>

lemma fold_diff_zero:
  fixes d :: byte
  shows "length a = length b \<Longrightarrow>
    fold (\<lambda>(x, y) diff. diff OR (x XOR y)) (zip a b) d = 0 \<longleftrightarrow> d = 0 \<and> a = b"
proof (induction a b arbitrary: d rule: list_induct2)
  case (Cons x a y b)
  have "d OR (x XOR y) = 0 \<longleftrightarrow> d = 0 \<and> x = y"
    by (auto simp: bit_eq_iff bit_simps)
  with Cons.IH [of "d OR (x XOR y)"] show ?case by auto
qed simp

lemma constant_time_eq_iff [simp]: "constant_time_eq a b \<longleftrightarrow> a = b"
  using fold_diff_zero [of a b 0] by (auto simp: constant_time_eq_def)

lemma matches_handshake_iff: "matches_handshake token frame \<longleftrightarrow> frame = handshake_frame token"
  by (auto simp: matches_handshake_def handshake_frame_def strip_prefix_Some split: option.splits)

text \<open>A generated token is read back by its owner, and by nobody else, from the file it was written
  to.\<close>

lemma token_file_reload:
  assumes "length fresh = TOKEN_LEN"
    and "\<And>t. utf8_valid (as_bytes (to_hex t)) \<and> from_hex (str_trim (to_hex t)) = Some t"
    and "load_or_generate from_hex to_hex euid fresh (Inr ()) None = (r, f)"
  shows "r = Inr fresh \<and> token_load from_hex euid f = Inr fresh
    \<and> (other \<noteq> euid \<longrightarrow> token_load from_hex other f = Inl Unsafe)"
proof -
  from assms(3) have "r = Inr fresh" and f: "f = Some (restricted_file euid (as_bytes (to_hex fresh)))"
    by (simp_all add: load_or_generate_def)
  then show ?thesis
    using assms(1) assms(2) [of fresh]
    by (simp add: token_load_def restricted_file_def check_restricted_file_def)
qed

definition frame_of :: "bytes \<Rightarrow> bytes" where
  "frame_of p = be_bytes 4 (length p) @ p"

lemma frame_len_ok: "length p \<le> MAX_FRAME_LEN \<Longrightarrow> frame_len p = Inr (length p)"
  by (simp add: frame_len_def MAX_FRAME_LEN_def)

lemma read_frame_async_frame:
  "length p \<le> MAX_FRAME_LEN \<Longrightarrow> read_frame_async (frame_of p @ rest) = Inr (Some (p, rest))"
  by (simp add: read_frame_async_def frame_of_def MAX_FRAME_LEN_def)

lemma read_frame_frame:
  "length p \<le> MAX_FRAME_LEN \<Longrightarrow> read_frame (frame_of p @ rest) = Inr (if p = [] then None else Some p, rest)"
  by (simp add: read_frame_def frame_of_def MAX_FRAME_LEN_def)

lemma read_frame_async_Some:
  "read_frame_async inp = Inr (Some (p, rest)) \<longleftrightarrow> length p \<le> MAX_FRAME_LEN \<and> inp = frame_of p @ rest"
proof
  assume "read_frame_async inp = Inr (Some (p, rest))"
  then show "length p \<le> MAX_FRAME_LEN \<and> inp = frame_of p @ rest"
    by (auto simp: read_frame_async_def frame_of_def read_be_Inr read_exact_Inr
        split: sum.splits prod.splits if_splits)
qed (simp add: read_frame_async_frame)

lemma write_frame_async_sent:
  "length p \<le> MAX_FRAME_LEN \<Longrightarrow> write_frame_async Sent p = (Inr (), frame_of p)"
  by (simp add: write_frame_async_def frame_len_ok send_bytes_def frame_of_def)

lemma write_frame_async_prefix:
  "length p \<le> MAX_FRAME_LEN \<Longrightarrow> \<exists>n. snd (write_frame_async oc p) = take n (frame_of p)"
  by (auto simp: write_frame_async_def frame_len_ok send_bytes_def frame_of_def split: send_outcome.splits
      intro: exI [of _ "4 + length p"])

lemma handshake_short: "length token = TOKEN_LEN \<Longrightarrow> length (handshake_frame token) \<le> MAX_FRAME_LEN"
  by (simp add: handshake_frame_def TOKEN_LEN_def HANDSHAKE_TAG_def MAX_FRAME_LEN_def)

lemma ack_short: "length HANDSHAKE_ACK \<le> MAX_FRAME_LEN"
  by (simp add: HANDSHAKE_ACK_def MAX_FRAME_LEN_def)

lemma no_token_refused:
  assumes n: "\<forall>rest. inp \<noteq> frame_of (handshake_frame token) @ rest"
  shows "\<exists>n. serve_connection token h inp ws st = (False, take n (be_bytes 4 0), st)"
proof (cases "\<exists>p rest. read_frame_async inp = Inr (Some (p, rest))")
  case True
  then obtain p rest where p: "read_frame_async inp = Inr (Some (p, rest))" by auto
  with n have "p \<noteq> handshake_frame token" by (auto simp: read_frame_async_Some)
  moreover obtain n where "snd (write_frame_async (outcome_hd ws) []) = take n (be_bytes 4 0)"
    using write_frame_async_prefix [of "[]" "outcome_hd ws"] by (auto simp: frame_of_def)
  ultimately show ?thesis
    using p by (auto simp: serve_connection_def daemon_authenticate_def matches_handshake_iff)
next
  case False
  then show ?thesis
    by (auto simp: serve_connection_def daemon_authenticate_def split: sum.splits option.splits
        intro: exI [of _ 0])
qed

text \<open>C7. Only callers that hold the token are served. A connection whose first frame is not the
  handshake with the daemon's token leaves the signer untouched, whatever else it sends and however
  the writes to it end, and receives nothing but the empty frame of a refusal or a part of it. A
  connection that starts with that handshake, and to which the acknowledgement can be written, is
  served with everything that follows.\<close>

theorem served_iff_token:
  assumes "length token = TOKEN_LEN"
  shows "((\<forall>rest. inp \<noteq> frame_of (handshake_frame token) @ rest) \<longrightarrow>
      (\<exists>n. serve_connection token h inp ws st = (False, take n (be_bytes 4 0), st)))
    \<and> serve_connection token h (frame_of (handshake_frame token) @ rest) (Sent # ws) st
      = (case serve_requests h rest ws st of
           (ended, out, st') \<Rightarrow> (ended, frame_of HANDSHAKE_ACK @ out, st'))"
  using no_token_refused [of inp token h ws st] handshake_short [OF assms] ack_short
  by (auto simp: serve_connection_def [of _ _ "frame_of _ @ _"] daemon_authenticate_def read_frame_async_frame
      matches_handshake_iff write_frame_async_sent)

definition demo_token :: bytes where
  "demo_token = replicate 32 7"

text \<open>A signer that counts its requests and answers with the request and the count.\<close>

definition counting :: "nat handler" where
  "counting n request = (Reply (word_of_nat n # request), Suc n)"

theorem served_iff_token_witness:
  "(\<exists>k. serve_connection demo_token counting (frame_of [1, 2]) [] 5 = (False, take k (be_bytes 4 0), 5))
   \<and> serve_connection demo_token counting (frame_of (handshake_frame demo_token) @ []) [Sent] 5
      = (True, frame_of HANDSHAKE_ACK, 5)"
proof -
  have t: "length demo_token = TOKEN_LEN" by (simp add: demo_token_def TOKEN_LEN_def)
  have "frame_of [1, 2] \<noteq> frame_of (handshake_frame demo_token) @ rest" for rest
  proof
    assume "frame_of [1, 2] = frame_of (handshake_frame demo_token) @ rest"
    then have "read_frame_async (frame_of [1, 2] @ []) = Inr (Some (handshake_frame demo_token, rest))"
      using handshake_short [OF t] by (simp add: read_frame_async_frame)
    moreover have "read_frame_async (frame_of [1, 2] @ []) = Inr (Some ([1, 2], []))"
      by (rule read_frame_async_frame) (simp add: MAX_FRAME_LEN_def)
    ultimately show False
      by (simp add: handshake_frame_def HANDSHAKE_TAG_def as_bytes_def)
  qed
  with served_iff_token [OF t, of "frame_of [1, 2]" counting "[]" 5 "[]"]
  show ?thesis
    by (auto simp: serve_requests.simps [of _ "[]"] read_frame_async_def read_be_def read_exact_def)
qed


section \<open>The transport over a network\<close>

text \<open>A network to one daemon. Each connecting and each write takes the next item of the schedule:
  it goes well, it breaks before it reaches the daemon, or it reaches the daemon and the answer is
  lost. A connection that broke is gone. An exhausted schedule means that all goes well.\<close>

datatype hazard = Fine | LostRequest | LostReply

record 'st world =
  wd_signer :: 'st
  wd_conns :: "nat \<Rightarrow> bool option"
  wd_next :: nat
  wd_hazards :: "hazard list"

fun hazard_hd :: "hazard list \<Rightarrow> hazard" where
  "hazard_hd [] = Fine"
| "hazard_hd (z # _) = z"

definition daemon_connect :: "'st world \<Rightarrow> nat option \<times> 'st world" where
  "daemon_connect w =
     (let w' = w\<lparr>wd_hazards := tl (wd_hazards w)\<rparr>
      in if hazard_hd (wd_hazards w) = Fine
         then (Some (wd_next w), w'\<lparr>wd_conns := (wd_conns w)(wd_next w \<mapsto> False), wd_next := Suc (wd_next w)\<rparr>)
         else (None, w'))"

text \<open>The daemon's task of the connection goes on with the bytes of one write: the handshake first,
  then requests.\<close>

definition daemon_turn ::
  "bytes \<Rightarrow> 'st handler \<Rightarrow> nat \<Rightarrow> bytes \<Rightarrow> 'st world \<Rightarrow> bytes \<times> 'st world" where
  "daemon_turn token h conn bs w =
     (case wd_conns w conn of
        None \<Rightarrow> ([], w)
      | Some False \<Rightarrow>
          (case daemon_authenticate token bs [] of
             (ok, out, _, _) \<Rightarrow> (out, w\<lparr>wd_conns := (wd_conns w)(conn := if ok then Some True else None)\<rparr>))
      | Some True \<Rightarrow>
          (case serve_requests h bs [] (wd_signer w) of
             (ok, out, st) \<Rightarrow>
               (out, w\<lparr>wd_signer := st, wd_conns := (wd_conns w)(conn := if ok then Some True else None)\<rparr>)))"

definition daemon_send ::
  "bytes \<Rightarrow> 'st handler \<Rightarrow> nat \<Rightarrow> bytes \<Rightarrow> 'st world \<Rightarrow> bool \<times> bytes \<times> 'st world" where
  "daemon_send token h conn bs w =
     (let w' = w\<lparr>wd_hazards := tl (wd_hazards w)\<rparr>
      in case hazard_hd (wd_hazards w) of
           LostRequest \<Rightarrow> (True, [], w'\<lparr>wd_conns := (wd_conns w)(conn := None)\<rparr>)
         | Fine \<Rightarrow> (case daemon_turn token h conn bs w' of (out, w2) \<Rightarrow> (True, out, w2))
         | LostReply \<Rightarrow>
             (case daemon_turn token h conn bs w' of
                (out, w2) \<Rightarrow> (True, [], w2\<lparr>wd_conns := (wd_conns w2)(conn := None)\<rparr>)))"

definition daemon_net :: "bytes \<Rightarrow> 'st handler \<Rightarrow> 'st world net" where
  "daemon_net token h = \<lparr>nt_connect = daemon_connect, nt_send = daemon_send token h\<rparr>"


text \<open>The replies and the final state of a signer that answers every request of a list.\<close>

fun answers :: "'st handler \<Rightarrow> 'st \<Rightarrow> bytes list \<Rightarrow> (bytes list \<times> 'st) option" where
  "answers h st [] = Some ([], st)"
| "answers h st (r # rs) =
     (case h st r of
        (Reply b, st) \<Rightarrow>
          if b = [] \<or> MAX_FRAME_LEN < length b then None
          else map_option (\<lambda>(bs, st). (b # bs, st)) (answers h st rs)
      | _ \<Rightarrow> None)"

lemma answers_Cons:
  assumes "answers h st (r # rs) = Some (bs, st')"
  obtains b st1 bs' where "h st r = (Reply b, st1)" "b \<noteq> []" "length b \<le> MAX_FRAME_LEN"
    "bs = b # bs'" "answers h st1 rs = Some (bs', st')"
proof -
  obtain hd st1 where "h st r = (hd, st1)" by (cases "h st r")
  with assms that show ?thesis by (cases hd) (auto split: if_splits)
qed

lemma serve_one:
  assumes "length r \<le> MAX_FRAME_LEN" "h st r = (Reply b, st')" "length b \<le> MAX_FRAME_LEN"
  shows "serve_requests h (frame_of r) [] st = (True, frame_of b, st')"
proof -
  have "read_frame_async (frame_of r) = Inr (Some (r, []))"
    using read_frame_async_frame [OF assms(1), of "[]"] by simp
  moreover have "serve_requests h [] [] st' = (True, [], st')"
    by (simp add: serve_requests.simps [of _ "[]"] read_frame_async_def read_be_def read_exact_def)
  ultimately show ?thesis
    using assms by (simp add: serve_requests.simps [of _ "frame_of r"] write_frame_async_sent)
qed

lemma read_frame_empty [simp]: "read_frame [] = Inl FrameIo"
  by (simp add: read_frame_def read_be_def read_exact_def)

lemma framed_call_result:
  fixes w :: "'st world"
  assumes r: "length r \<le> MAX_FRAME_LEN" and s: "sm_unread s = []" "wd_conns w (sm_conn s) = Some True"
    and b: "h (wd_signer w) r = (Reply b, st)" "b \<noteq> []" "length b \<le> MAX_FRAME_LEN"
  shows "framed_call (daemon_net token h) s r w =
    (case hazard_hd (wd_hazards w) of
       Fine \<Rightarrow> (Inr (Some b), s, w\<lparr>wd_signer := st, wd_hazards := tl (wd_hazards w)\<rparr>)
     | LostRequest \<Rightarrow> (Inl FrameIo, s,
         w\<lparr>wd_conns := (wd_conns w)(sm_conn s := None), wd_hazards := tl (wd_hazards w)\<rparr>)
     | LostReply \<Rightarrow> (Inl FrameIo, s,
         w\<lparr>wd_signer := st, wd_conns := (wd_conns w)(sm_conn s := None), wd_hazards := tl (wd_hazards w)\<rparr>))"
proof -
  have f: "be_bytes 4 (length r) @ r = frame_of r" by (simp add: frame_of_def)
  have d: "daemon_turn token h (sm_conn s) (frame_of r) (w\<lparr>wd_hazards := z\<rparr>)
      = (frame_of b, w\<lparr>wd_signer := st, wd_hazards := z\<rparr>)" for z
    using s(2) by (simp add: daemon_turn_def serve_one [of r h "wd_signer w" b st, OF r b(1,3)] fun_upd_idem)
  have "read_frame (frame_of b) = Inr (Some b, [])"
    using read_frame_frame [OF b(3), of "[]"] b(2) by simp
  moreover have "s\<lparr>sm_unread := []\<rparr> = s" using s(1) by (cases s) simp
  ultimately show ?thesis
    using s(1) by (simp add: framed_call_def frame_len_ok [OF r] f daemon_net_def daemon_send_def d Let_def
        split: hazard.splits)
qed

lemma new_stream_fine:
  fixes w :: "'st world"
  assumes t: "length token = TOKEN_LEN" and z: "wd_hazards w = []"
  shows "new_stream (daemon_net token h) (Some token) w =
    (Inr \<lparr>sm_conn = wd_next w, sm_unread = []\<rparr>,
     w\<lparr>wd_conns := (wd_conns w)(wd_next w \<mapsto> True), wd_next := Suc (wd_next w)\<rparr>)"
proof -
  note hs = handshake_short [OF t]
  have w: "snd (write_frame Sent (handshake_frame token)) = frame_of (handshake_frame token)"
    by (simp add: write_frame_def frame_len_ok [OF hs] send_bytes_def frame_of_def)
  have "daemon_authenticate token (frame_of (handshake_frame token)) [] = (True, frame_of HANDSHAKE_ACK, [], [])"
    using read_frame_async_frame [OF hs, of "[]"]
    by (simp add: daemon_authenticate_def matches_handshake_iff write_frame_async_sent ack_short)
  moreover have "read_frame (frame_of HANDSHAKE_ACK) = Inr (Some HANDSHAKE_ACK, [])"
    using read_frame_frame [OF ack_short, of "[]"] by (simp add: HANDSHAKE_ACK_def as_bytes_def)
  ultimately show ?thesis
    using z by (simp add: new_stream_def daemon_net_def daemon_connect_def client_authenticate_def w
        daemon_send_def daemon_turn_def is_ack_def Let_def)
qed

lemma reconnect_fine:
  fixes w :: "'st world"
  assumes t: "length token = TOKEN_LEN" and z: "wd_hazards w = []" and l: "length boot \<le> MAX_FRAME_LEN"
    and b: "h (wd_signer w) boot = (Reply b, st)" "b \<noteq> []" "length b \<le> MAX_FRAME_LEN"
  shows "reconnect (daemon_net token h) (Some token) boot w =
    (Inr \<lparr>sm_conn = wd_next w, sm_unread = []\<rparr>,
     w\<lparr>wd_signer := st, wd_conns := (wd_conns w)(wd_next w \<mapsto> True), wd_next := Suc (wd_next w)\<rparr>)"
  using framed_call_result [OF l, of "\<lparr>sm_conn = wd_next w, sm_unread = []\<rparr>"
      "w\<lparr>wd_conns := (wd_conns w)(wd_next w \<mapsto> True), wd_next := Suc (wd_next w)\<rparr>" h b st token] b z
  by (simp add: reconnect_def new_stream_fine [OF t z])


definition link_up :: "client \<Rightarrow> 'st world \<Rightarrow> bool" where
  "link_up c w \<longleftrightarrow> (\<exists>n. cl_stream c = Some \<lparr>sm_conn = n, sm_unread = []\<rparr> \<and> wd_conns w n = Some True)"

text \<open>What the signer handles for one call: over a live connection the request, after a break before
  the request arrived the replayed bootstrap and the request, and after a lost reply the request twice.\<close>

definition handled_requests :: "client \<Rightarrow> 'st world \<Rightarrow> bytes \<Rightarrow> bytes \<Rightarrow> bytes list" where
  "handled_requests c w boot r =
     (if cl_stream c = None then [boot, r]
      else case hazard_hd (wd_hazards w) of
             Fine \<Rightarrow> [r] | LostRequest \<Rightarrow> [boot, r] | LostReply \<Rightarrow> [r, boot, r])"

lemma call_reconnects:
  fixes w :: "'st world"
  assumes t: "length token = TOKEN_LEN" and l: "length boot \<le> MAX_FRAME_LEN" "length r \<le> MAX_FRAME_LEN"
    and c: "cl_stream c = None" and z: "wd_hazards w = []"
    and a: "answers h (wd_signer w) [boot, r] = Some (bs, st)"
  shows "\<exists>c' w'. call_attempts (daemon_net token h) (Some token) boot r (Suc n) e c w = (Inr (last bs), c', w')
    \<and> wd_signer w' = st \<and> link_up c' w' \<and> cl_connected c' \<and> wd_hazards w' = []"
proof -
  from a obtain b1 st1 bs1 where 1: "h (wd_signer w) boot = (Reply b1, st1)" "b1 \<noteq> []"
    "length b1 \<le> MAX_FRAME_LEN" "bs = b1 # bs1" "answers h st1 [r] = Some (bs1, st)"
    by (rule answers_Cons)
  from 1(5) obtain b2 st2 bs2 where 2: "h st1 r = (Reply b2, st2)" "b2 \<noteq> []"
    "length b2 \<le> MAX_FRAME_LEN" "bs1 = b2 # bs2" "answers h st2 [] = Some (bs2, st)"
    by (rule answers_Cons)
  let ?s = "\<lparr>sm_conn = wd_next w, sm_unread = []\<rparr>"
  let ?w = "w\<lparr>wd_signer := st1, wd_conns := (wd_conns w)(wd_next w \<mapsto> True), wd_next := Suc (wd_next w)\<rparr>"
  have "framed_call (daemon_net token h) ?s r ?w = (Inr (Some b2), ?s, ?w\<lparr>wd_signer := st2\<rparr>)"
    using framed_call_result [OF l(2), of ?s ?w h b2 st2 token] 2 z by simp
  moreover have "reconnect (daemon_net token h) (Some token) boot w = (Inr ?s, ?w)"
    by (rule reconnect_fine [of token w boot h b1 st1, OF t z l(1) 1(1-3)])
  ultimately show ?thesis
    using 1(4) 2(4,5) c z
    by (auto simp: ensure_stream_def mark_reconnected_def link_up_def)
qed

text \<open>A call is answered, through one outage. Let the transport be connected or not, and let at
  most the first thing it does on the network fail, before the request reached the daemon or after.
  When the signer answers what it is asked, the call returns the signer's last reply, the link is up
  afterwards, and the signer has handled exactly this: the request; after a broken connection the
  bootstrap request and the request; and when only the reply was lost the request, the bootstrap
  request and the request again.\<close>

lemma call_replies:
  fixes w :: "'st world"
  assumes "length token = TOKEN_LEN" "length boot \<le> MAX_FRAME_LEN" "length r \<le> MAX_FRAME_LEN"
    and "cl_stream c = None \<and> wd_hazards w = [] \<or> link_up c w \<and> cl_connected c \<and> length (wd_hazards w) \<le> 1"
    and "answers h (wd_signer w) (handled_requests c w boot r) = Some (bs, st)"
  shows "\<exists>c' w'. call_blocking (daemon_net token h) (Some token) boot r c w = (Inr (last bs), c', w')
    \<and> wd_signer w' = st \<and> link_up c' w' \<and> cl_connected c' \<and> wd_hazards w' = []"
proof (cases "cl_stream c")
  case None
  with assms(4) have "wd_hazards w = []" by (auto simp: link_up_def)
  from call_reconnects [OF assms(1-3) None this, of h bs st 1 Unavailable] assms(3,5) None
  show ?thesis
    by (simp add: call_blocking_def handled_requests_def eval_nat_numeral del: call_attempts.simps)
next
  case (Some s)
  with assms(4) have up: "sm_unread s = []" "wd_conns w (sm_conn s) = Some True" "cl_connected c"
    and z: "tl (wd_hazards w) = []"
    by (cases "wd_hazards w", auto simp: link_up_def)+
  show ?thesis
  proof (cases "hazard_hd (wd_hazards w) = LostRequest")
    case True
    with Some assms(5) have a: "answers h (wd_signer w) [boot, r] = Some (bs, st)"
      by (simp add: handled_requests_def)
    let ?w = "w\<lparr>wd_conns := (wd_conns w)(sm_conn s := None), wd_hazards := []\<rparr>"
    have "framed_call (daemon_net token h) s r w = (Inl FrameIo, s, ?w)"
      using True up z by (simp add: framed_call_def frame_len_ok [OF assms(3)] daemon_net_def daemon_send_def Let_def)
    with call_reconnects [OF assms(1-3), of "mark_disconnected (c\<lparr>cl_stream := None\<rparr>)" ?w h bs st 0 LinkIo] a
      Some assms(3) up
    show ?thesis
      by (simp add: call_blocking_def ensure_stream_def mark_disconnected_def eval_nat_numeral)
  next
    case False
    with Some assms(5) obtain rs where "answers h (wd_signer w) (r # rs) = Some (bs, st)"
      and rs: "rs = (if hazard_hd (wd_hazards w) = Fine then [] else [boot, r])"
      by (cases "hazard_hd (wd_hazards w)") (auto simp: handled_requests_def)
    from this(1) obtain b1 st1 bs1 where 1: "h (wd_signer w) r = (Reply b1, st1)" "b1 \<noteq> []"
      "length b1 \<le> MAX_FRAME_LEN" "bs = b1 # bs1" "answers h st1 rs = Some (bs1, st)"
      by (rule answers_Cons)
    note fr = framed_call_result [of r s w h b1 st1 token, OF assms(3) up(1,2) 1(1-3)]
    show ?thesis
    proof (cases "hazard_hd (wd_hazards w) = Fine")
      case True
      with fr 1(4,5) rs Some assms(3) up z show ?thesis
        by (cases s) (auto simp: call_blocking_def ensure_stream_def eval_nat_numeral link_up_def)
    next
      case f: False
      let ?w = "w\<lparr>wd_signer := st1, wd_conns := (wd_conns w)(sm_conn s := None), wd_hazards := []\<rparr>"
      from f False have "hazard_hd (wd_hazards w) = LostReply" by (cases "hazard_hd (wd_hazards w)") auto
      with fr z have "framed_call (daemon_net token h) s r w = (Inl FrameIo, s, ?w)" by simp
      moreover have "bs1 \<noteq> []"
        by (rule answers_Cons [of h st1 boot "[r]" bs1 st]) (use 1(5) rs f in simp_all)
      then have "last bs = last bs1" using 1(4) by simp
      ultimately show ?thesis
        using call_reconnects [OF assms(1-3), of "mark_disconnected (c\<lparr>cl_stream := None\<rparr>)" ?w h bs1 st 0 LinkIo]
          1(5) rs f Some assms(3) up
        by (simp add: call_blocking_def ensure_stream_def mark_disconnected_def eval_nat_numeral)
    qed
  qed
qed


definition demo_world :: "hazard list \<Rightarrow> nat world" where
  "demo_world zs = \<lparr>wd_signer = 5, wd_conns = [0 \<mapsto> True], wd_next = 1, wd_hazards = zs\<rparr>"

definition demo_client :: client where
  "demo_client = \<lparr>cl_stream = Some \<lparr>sm_conn = 0, sm_unread = []\<rparr>, cl_connected = True, cl_signals = 0\<rparr>"

end
