(* ===== verification/Signer_Stack.thy ===== *)
theory Signer_Stack
  imports Signer_Adapter Vls_Signer Signer_Proto_Props Remote_Signer_Props
begin

text \<open>
  The signer protocol from end to end: an operation of the node's adapter goes as an envelope over the
  authenticated link to the daemon, is answered there by the signing backend, and comes back. Also
  what the daemon's transport keeps of the VLS handlers.
\<close>

section \<open>A call over the remote link\<close>

definition remote_transport ::
  "bytes \<Rightarrow> bytes \<Rightarrow> 'st handler \<Rightarrow> (client \<times> 'st world) transport" where
  "remote_transport token boot h request s =
     (case call_blocking (daemon_net token h) (Some token) boot request (fst s) (snd s) of
        (r, c, w) \<Rightarrow> (map_sum Transport id r, (c, w)))"

text \<open>The requests of the contract that one call makes the daemon handle, in order, each in the form in
  which it arrives.\<close>

definition arriving_requests :: "client \<Rightarrow> 'st world \<Rightarrow> signer_request \<Rightarrow> signer_request list" where
  "arriving_requests c w r =
     map canonical_request
       (if cl_stream c = None then [SignerRequest_Bootstrap, r]
        else case hazard_hd (wd_hazards w) of
               Fine \<Rightarrow> [r]
             | LostRequest \<Rightarrow> [SignerRequest_Bootstrap, r]
             | LostReply \<Rightarrow> [r, SignerRequest_Bootstrap, r])"

text \<open>The responses and the final state of a backend that answers every request of a list.\<close>

fun responses :: "'st vls \<Rightarrow> 'st \<Rightarrow> signer_request list \<Rightarrow> (signer_response list \<times> 'st) option" where
  "responses v st [] = Some ([], st)"
| "responses v st (r # rs) =
     (case vls_respond v r st of
        (Answered s, st) \<Rightarrow> map_option (\<lambda>(ss, st). (s # ss, st)) (responses v st rs)
      | _ \<Rightarrow> None)"

lemma responses_Cons:
  assumes "responses v st (r # rs) = Some (ss, st')"
  obtains s st1 ss' where "vls_respond v r st = (Answered s, st1)" "ss = s # ss'"
    "responses v st1 rs = Some (ss', st')"
proof -
  obtain out st1 where "vls_respond v r st = (out, st1)" by (cases "vls_respond v r st")
  with assms that show ?thesis by (cases out) auto
qed

lemma responses_length: "responses v st rs = Some (ss, st') \<Longrightarrow> length ss = length rs"
  by (induction rs arbitrary: st ss) (auto split: prod.splits backend_outcome.splits)

text \<open>A response that fits into one frame: it is encoded to something, and to no more than a frame
  takes.\<close>

definition fits_frame :: "prost \<Rightarrow> signer_response \<Rightarrow> bool" where
  "fits_frame p s =
     (case encode_signer_response p s of Inl _ \<Rightarrow> False | Inr b \<Rightarrow> b \<noteq> [] \<and> length b \<le> MAX_FRAME_LEN)"

text \<open>The daemon's handler answers envelopes as the backend answers requests.\<close>

lemma handler_answers:
  assumes "responses v st (map canonical_request rs) = Some (ss, st')"
    and "\<And>r. r \<in> set rs \<Longrightarrow> encode_signer_request p r = Inr (wire r)
           \<and> decode_signer_request p (wire r) = Inr (canonical_request r)"
    and "\<And>s. s \<in> set ss \<Longrightarrow> fits_frame p s"
  shows "\<exists>bs. answers (handle_envelope p v) st (map wire rs) = Some (bs, st')
    \<and> map (encode_signer_response p) ss = map Inr bs"
  using assms
proof (induction rs arbitrary: st ss)
  case (Cons r rs)
  obtain s st1 ss' where 1: "vls_respond v (canonical_request r) st = (Answered s, st1)"
    "ss = s # ss'" "responses v st1 (map canonical_request rs) = Some (ss', st')"
    by (rule responses_Cons [OF Cons.prems(1) [unfolded list.map]])
  from Cons.prems(3) [of s] 1(2) obtain b where b: "encode_signer_response p s = Inr b" "b \<noteq> []"
    "length b \<le> MAX_FRAME_LEN"
    by (auto simp: fits_frame_def split: sum.splits)
  from Cons.IH [OF 1(3)] Cons.prems(2,3) 1(2) obtain bs where
    "answers (handle_envelope p v) st1 (map wire rs) = Some (bs, st')"
    "map (encode_signer_response p) ss' = map Inr bs"
    by auto
  moreover have "handle_envelope p v st (wire r) = (Reply b, st1)"
    using b(1) 1(1) Cons.prems(2) [of r] by (simp add: handle_envelope_def)
  ultimately show ?case
    using b 1(2) by (intro exI [of _ "b # bs"]) simp
qed simp

text \<open>C8. A signer operation over the remote link returns the backend's own answer. Let \<open>prost\<close> decode
  what it encodes of the messages in play, and let the link be up or down with at most one failure
  ahead of it. When the backend behind the daemon answers the requests that arrive there, each with
  a response that fits into a frame, the node's call returns the answer to the last of them in its
  canonical form; afterwards the backend is in the state it was left in, and the link is up.\<close>

theorem remote_call_answers:
  fixes w :: "'st world"
  assumes "carries_envelopes p"
    and "\<forall>q \<in> {SignerRequest_Bootstrap, r}. carries (pr_request p) (signer_request_v1_from q)
           \<and> (\<forall>b. encode_signer_request p q = Inr b \<longrightarrow> length b \<le> MAX_FRAME_LEN)"
    and "length token = TOKEN_LEN"
    and "encode_signer_request p SignerRequest_Bootstrap = Inr boot"
    and "cl_stream c = None \<and> wd_hazards w = [] \<or> link_up c w \<and> cl_connected c \<and> length (wd_hazards w) \<le> 1"
    and "responses v (wd_signer w) (arriving_requests c w r) = Some (ss, st)"
    and "\<forall>s \<in> set ss. fits_frame p s \<and> carries (pr_response p) (signer_response_v1_from s)"
    and "ad_prost a = p" "ad_transport a = remote_transport token boot (handle_envelope p v)"
  shows "\<exists>c' w'. adapter_call a r (c, w) = (Inr (canonical_response (last ss)), (c', w'))
    \<and> wd_signer w' = st \<and> link_up c' w' \<and> cl_connected c' \<and> wd_hazards w' = []"
proof -
  define wire where "wire q = projr (encode_signer_request p q)" for q
  have w: "encode_signer_request p q = Inr (wire q)
      \<and> decode_signer_request p (wire q) = Inr (canonical_request q) \<and> length (wire q) \<le> MAX_FRAME_LEN"
    if "q = SignerRequest_Bootstrap \<or> q = r" for q
    using request_on_wire [OF assms(1), of q] assms(2) that by (auto simp: wire_def)
  have boot: "boot = wire SignerRequest_Bootstrap" using assms(4) by (simp add: wire_def)
  define rs where "rs = (if cl_stream c = None then [SignerRequest_Bootstrap, r]
     else case hazard_hd (wd_hazards w) of Fine \<Rightarrow> [r] | LostRequest \<Rightarrow> [SignerRequest_Bootstrap, r]
        | LostReply \<Rightarrow> [r, SignerRequest_Bootstrap, r])"
  have rs: "arriving_requests c w r = map canonical_request rs"
    "handled_requests c w boot (wire r) = map wire rs" "set rs \<subseteq> {SignerRequest_Bootstrap, r}" "rs \<noteq> []"
    by (auto simp: arriving_requests_def handled_requests_def rs_def boot split: hazard.splits)
  have resp: "responses v (wd_signer w) (map canonical_request rs) = Some (ss, st)"
    using assms(6) rs(1) by simp
  have "\<exists>bs. answers (handle_envelope p v) (wd_signer w) (map wire rs) = Some (bs, st)
      \<and> map (encode_signer_response p) ss = map Inr bs"
  proof (rule handler_answers [OF resp])
    fix q assume "q \<in> set rs"
    with rs(3) have "q = SignerRequest_Bootstrap \<or> q = r" by auto
    from w [OF this] show "encode_signer_request p q = Inr (wire q)
        \<and> decode_signer_request p (wire q) = Inr (canonical_request q)" by simp
  qed (use assms(7) in simp)
  then obtain bs where bs: "answers (handle_envelope p v) (wd_signer w) (map wire rs) = Some (bs, st)"
    "map (encode_signer_response p) ss = map Inr bs" by auto
  have "length ss = length bs" using arg_cong [OF bs(2), of length] by simp
  moreover have ne: "ss \<noteq> []"
    using responses_length [OF resp] rs(4) by auto
  ultimately have l: "encode_signer_response p (last ss) = Inr (last bs)"
    using arg_cong [OF bs(2), of last] using \<open>length ss = length bs\<close> by (cases "bs = []") (auto simp: last_map)
  have "decode_signer_response p (last bs) = Inr (canonical_response (last ss))"
    using response_on_wire [OF assms(1), of "last ss"] assms(7) last_in_set [OF ne] l by auto
  moreover obtain c' w' where
    "call_blocking (daemon_net token (handle_envelope p v)) (Some token) boot (wire r) c w = (Inr (last bs), c', w')"
    "wd_signer w' = st" "link_up c' w'" "cl_connected c'" "wd_hazards w' = []"
    using call_replies [OF assms(3) _ _ assms(5), of boot "wire r" "handle_envelope p v" bs st]
      w boot bs(1) rs(2) by auto
  ultimately show ?thesis
    using w [of r] assms(8,9) by (auto simp: adapter_call_def remote_transport_def)
qed

text \<open>A signer that signs the same way every time and counts its requests.\<close>

definition demo_vls :: "nat vls" where
  "demo_vls =
     \<lparr>vl_backend = \<lambda>r n. (Answered (if r = SignerRequest_Bootstrap then demo_response
                              else SignerResponse_SignedPsbt ''70''), Suc n),
      vl_stub_point = \<lambda>_ _ _. None, vl_from_hex = \<lambda>_. None\<rparr>"

definition demo_boot :: bytes where
  "demo_boot = be_bytes 4 1 @ be_bytes 4 2 @ [0]"

definition demo_adapter :: "(client \<times> nat world) adapter" where
  "demo_adapter =
     \<lparr>ad_prost = demo_prost,
      ad_transport = remote_transport demo_token demo_boot (handle_envelope demo_prost demo_vls),
      ad_debug = \<lambda>_. []\<rparr>"

lemma demo_index:
  "index_of (map signer_request_v1_from [SignerRequest_Bootstrap, sample_request])
     (signer_request_v1_from SignerRequest_Bootstrap) = Some 0"
  "index_of (map signer_request_v1_from [SignerRequest_Bootstrap, sample_request])
     (signer_request_v1_from sample_request) = Some 1"
  "index_of (map signer_response_v1_from [demo_response, SignerResponse_SignedPsbt ''70''])
     (signer_response_v1_from demo_response) = Some 0"
  "index_of (map signer_response_v1_from [demo_response, SignerResponse_SignedPsbt ''70''])
     (signer_response_v1_from (SignerResponse_SignedPsbt ''70'')) = Some 1"
  by (simp_all add: signer_request_v1_from_def signer_response_v1_from_def sample_request_def demo_response_def)

lemma demo_wire:
  "encode_signer_request demo_prost SignerRequest_Bootstrap = Inr demo_boot"
  "encode_signer_request demo_prost sample_request = Inr (be_bytes 4 1 @ be_bytes 4 2 @ [1])"
  "encode_signer_response demo_prost demo_response = Inr (be_bytes 4 1 @ be_bytes 4 2 @ [0])"
  "encode_signer_response demo_prost (SignerResponse_SignedPsbt ''70'') = Inr (be_bytes 4 1 @ be_bytes 4 2 @ [1])"
  unfolding encode_signer_request_def encode_signer_response_def encode_envelope_def demo_prost_def
    codebook_def prost.simps fst_conv demo_index
  by (simp_all add: plain_envelope_def demo_boot_def ENVELOPE_VERSION_V1_def ENCODING_PROTOBUF_V1_def)

theorem remote_call_answers_witness:
  "\<exists>c' w'. adapter_call demo_adapter sample_request (demo_client, demo_world [LostReply])
     = (Inr (SignerResponse_SignedPsbt ''70''), (c', w')) \<and> wd_signer w' = 8 \<and> link_up c' w'"
proof -
  let ?ss = "[SignerResponse_SignedPsbt ''70'', demo_response, SignerResponse_SignedPsbt ''70'']"
  have 1: "\<forall>q \<in> {SignerRequest_Bootstrap, sample_request}.
      carries (pr_request demo_prost) (signer_request_v1_from q)
      \<and> (\<forall>b. encode_signer_request demo_prost q = Inr b \<longrightarrow> length b \<le> MAX_FRAME_LEN)"
    using demo_prost_carries demo_wire by (auto simp: MAX_FRAME_LEN_def demo_boot_def)
  have 2: "length demo_token = TOKEN_LEN" by (simp add: demo_token_def TOKEN_LEN_def)
  have 3: "link_up demo_client (demo_world [LostReply])" "cl_connected demo_client"
    "length (wd_hazards (demo_world [LostReply])) \<le> 1"
    by (simp_all add: link_up_def demo_client_def demo_world_def)
  have 4: "responses demo_vls (wd_signer (demo_world [LostReply]))
      (arriving_requests demo_client (demo_world [LostReply]) sample_request) = Some (?ss, 8)"
    by (simp add: arriving_requests_def demo_client_def demo_world_def vls_respond_def demo_vls_def sample_request_def)
  have 5: "\<forall>s \<in> set ?ss. fits_frame demo_prost s \<and> carries (pr_response demo_prost) (signer_response_v1_from s)"
    using demo_prost_carries demo_wire by (auto simp: fits_frame_def MAX_FRAME_LEN_def)
  show ?thesis
    using remote_call_answers [where a = demo_adapter, OF demo_prost_carries(1) 1 2 demo_wire(1) _ 4 5] 3
    by (auto simp: demo_adapter_def)
qed


section \<open>The VLS handlers behind the transport\<close>

text \<open>What the transport relies on: the handler of the initialisation does not panic on the messages
  of that phase and ends it with \<open>HsmdInit2\<close> only, and channel handlers do not panic.\<close>

definition handlers_behave :: "('x, 'i, 'r, 'c, 'n) vls_handlers \<Rightarrow> bool" where
  "handlers_behave vh \<longleftrightarrow>
     (\<forall>i m n i' n'. is_init_message m \<longrightarrow> vh_init_handle vh i m n \<noteq> (None, i', n'))
   \<and> (\<forall>i m n reply i' n'. vh_init_handle vh i m n = (Some (Inr (True, reply)), i', n') \<longrightarrow> is_hsmd_init2 m)
   \<and> (\<forall>c m n c' n'. vh_channel_handle vh c m n \<noteq> (None, c', n'))"

inductive vls_reachable ::
  "('x, 'i, 'r, 'c, 'n) vls_handlers \<Rightarrow> 'i \<Rightarrow> ('i, 'r, 'c) vls_state \<Rightarrow> 'n \<Rightarrow> bool" for vh init where
  start: "vls_reachable vh init (vls_new init) n"
| node: "vls_reachable vh init s n \<Longrightarrow> node_call vh msg s n = (r, s', n') \<Longrightarrow> vls_reachable vh init s' n'"
| channel: "vls_reachable vh init s n \<Longrightarrow> vls_call vh dbid peer msg s n = (r, s', n') \<Longrightarrow> vls_reachable vh init s' n'"

definition vls_ok :: "('i, 'r, 'c) vls_state \<Rightarrow> bool" where
  "vls_ok s \<longleftrightarrow> \<not> vs_poisoned s \<and> (vs_init_handler s = None \<longleftrightarrow> vs_root_handler s \<noteq> None)
     \<and> (vs_root_handler s \<noteq> None \<longrightarrow> vs_cached_hsmd_init2_reply s \<noteq> None)"

lemma init_call_ok:
  assumes "handlers_behave vh" "vls_ok s" "vs_root_handler s = None" "init_call vh msg s n = (r, s', n')"
  shows "vls_ok s'"
proof (cases "is_init_message msg")
  case True
  from assms(2,3) obtain i where i: "vs_init_handler s = Some i" by (auto simp: vls_ok_def)
  obtain out i' n1 where h: "vh_init_handle vh i msg n = (out, i', n1)"
    by (metis prod_cases3)
  with assms(1) True obtain x where out: "out = Some x"
    by (cases out) (auto simp: handlers_behave_def)
  show ?thesis
  proof (cases x)
    case (Inl _)
    with assms(2,4) True i h out show ?thesis by (auto simp: init_call_def vls_ok_def)
  next
    case (Inr y)
    obtain finished reply where y: "y = (finished, reply)" by (cases y)
    have "is_hsmd_init2 msg" if finished
    proof -
      from h out Inr y that have "vh_init_handle vh i msg n = (Some (Inr (True, reply)), i', n1)" by simp
      with assms(1) show ?thesis unfolding handlers_behave_def by blast
    qed
    with assms(2-4) True i h out Inr y show ?thesis
      by (cases reply) (auto simp: init_call_def vls_ok_def Let_def split: if_splits)
  qed
qed (use assms in \<open>auto simp: init_call_def\<close>)

lemma vls_reachable_ok: "vls_reachable vh init s n \<Longrightarrow> handlers_behave vh \<Longrightarrow> vls_ok s"
proof (induction rule: vls_reachable.induct)
  case (node s n msg r s' n')
  then show ?case
    by (auto simp: node_call_def elim: init_call_ok
        split: option.splits if_splits prod.splits sum.splits)
next
  case (channel s n dbid peer msg r s' n')
  then show ?case
    by (auto simp: vls_call_def vls_ok_def Let_def handlers_behave_def
        split: option.splits if_splits prod.splits sum.splits)
qed (simp add: vls_new_def vls_ok_def)

text \<open>The initialisation of the signer can be replayed and nothing gets around it. In every state
  that calls can lead to from a fresh process the lock is not poisoned. As long as the node is not
  initialised, any message but those of the initialisation is refused without reaching a handler.
  Once it is, \<open>HsmdInit2\<close> is answered with the reply it had, and changes nothing.\<close>

theorem init_replay:
  assumes "handlers_behave vh" "vls_reachable vh init s n" "vh_from_vec vh message = Some msg"
  shows "\<not> vs_poisoned s
    \<and> (vs_root_handler s = None \<and> \<not> is_init_message msg \<longrightarrow>
        node_call vh message s n = (Inl TransportError, s, n))
    \<and> (vs_root_handler s \<noteq> None \<and> is_hsmd_init2 msg \<longrightarrow>
        (\<exists>reply. vs_cached_hsmd_init2_reply s = Some reply \<and> node_call vh message s n = (Inr reply, s, n)))"
  using vls_reachable_ok [OF assms(2,1)] assms(3)
  by (auto simp: vls_ok_def node_call_def init_call_def)

text \<open>Handlers whose messages are their first byte, and which count.\<close>

definition demo_handlers :: "(unit, unit, unit, unit, nat) vls_handlers" where
  "demo_handlers =
     \<lparr>vh_from_vec = \<lambda>b. case b of [] \<Rightarrow> None
        | x # _ \<Rightarrow> Some (if x = 2 then HsmdInit2 () else if x = 1 then Ping () else OtherMessage ()),
      vh_init_handle = \<lambda>i m n. (Some (Inr (is_hsmd_init2 m, Some [word_of_nat n])), i, Suc n),
      vh_into_root = \<lambda>i. i,
      vh_root_handle = \<lambda>r m n. (Some (Inr [word_of_nat n]), Suc n),
      vh_for_new_client = \<lambda>r peer dbid. (),
      vh_channel_handle = \<lambda>c m n. (Some (Inr [word_of_nat n]), c, Suc n)\<rparr>"

lemma demo_init_reachable:
  "vls_reachable demo_handlers ()
     \<lparr>vs_init_handler = None, vs_root_handler = Some (), vs_channel_handlers = [],
      vs_cached_hsmd_init2_reply = Some [7], vs_poisoned = False\<rparr> 8"
proof -
  have "node_call demo_handlers [2] (vls_new ()) 7 =
     (Inr [7], \<lparr>vs_init_handler = None, vs_root_handler = Some (), vs_channel_handlers = [],
       vs_cached_hsmd_init2_reply = Some [7], vs_poisoned = False\<rparr>, 8)"
    by (simp add: node_call_def init_call_def demo_handlers_def vls_new_def)
  from vls_reachable.node [OF vls_reachable.start this] show ?thesis .
qed

theorem init_replay_witness:
  "node_call demo_handlers [2]
     \<lparr>vs_init_handler = None, vs_root_handler = Some (), vs_channel_handlers = [],
      vs_cached_hsmd_init2_reply = Some [7], vs_poisoned = False\<rparr> 8
   = (Inr [7], \<lparr>vs_init_handler = None, vs_root_handler = Some (), vs_channel_handlers = [],
      vs_cached_hsmd_init2_reply = Some [7], vs_poisoned = False\<rparr>, 8)"
proof -
  have "handlers_behave demo_handlers"
    by (auto simp: handlers_behave_def demo_handlers_def)
  from init_replay [OF this demo_init_reachable, of "[2]" "HsmdInit2 ()"] show ?thesis
    by (simp add: demo_handlers_def)
qed

end
