(* ===== verification/Channel_Signer.thy ===== *)
theory Channel_Signer
  imports Signer_Adapter
begin

text \<open>
  The channel signer of external signer mode (\<open>src/src/signer/channel_signer.rs\<close>): the operations LDK
  asks of the signer of one channel, each a request to the signing backend, with the deferral of the
  first validation until the signer knows the channel. What is read of LDK's commitment transactions
  and channel parameters is a record; keys and signatures are their bytes, with the parsers of the
  \<open>secp256k1\<close> crate and the hexadecimal codec as arguments.
\<close>

definition INITIAL_COMMITMENT_NUMBER :: u64 where
  "INITIAL_COMMITMENT_NUMBER = 2 ^ 48 - 1"

definition checked_mul :: "u64 \<Rightarrow> u64 \<Rightarrow> u64 option" where
  "checked_mul x y = (if unat x * unat y < 2 ^ 64 then Some (x * y) else None)"

record htlc_output =
  ho_offered :: bool
  ho_amount_msat :: u64
  ho_payment_hash :: bytes
  ho_cltv_expiry :: u32

record pubkeys =
  pk_funding :: bytes
  pk_revocation :: bytes
  pk_payment :: bytes
  pk_delayed_payment :: bytes
  pk_htlc :: bytes

record channel_parameters =
  cp_is_outbound :: bool
  cp_channel_value_satoshis :: u64
  cp_counterparty :: "(pubkeys \<times> u16) option"
  cp_funding_outpoint :: "(string \<times> u16) option"
  cp_holder_selected_contest_delay :: u16
  cp_anchors_zero_fee_htlc :: bool
  cp_anchors_nonzero_fee_htlc :: bool

text \<open>A commitment transaction: its backwards-counting number, the balances and HTLCs, the built
  transaction as hexadecimal text and whether it is coloured, the per-commitment point, and the witness
  scripts of its outputs where they can be derived. The holder's has the counterparty's signatures too.\<close>

record commitment_tx =
  ct_number :: u64
  ct_to_broadcaster_sat :: u64
  ct_to_countersignatory_sat :: u64
  ct_feerate_per_kw :: u32
  ct_nondust_htlcs :: "htlc_output list"
  ct_tx_hex :: string
  ct_colored :: bool
  ct_point :: bytes
  ct_witness_scripts :: "bytes list option"
  ct_counterparty_sig :: bytes
  ct_counterparty_htlc_sigs :: "bytes list"

record deferred_validation =
  dv_commitment_number :: u64
  dv_to_broadcaster_value_sat :: u64
  dv_to_countersignatory_value_sat :: u64
  dv_feerate_per_kw :: u32
  dv_nondust_htlcs :: "htlc_output list"
  dv_counterparty_sig :: bytes
  dv_counterparty_htlc_sigs :: "bytes list"
  dv_tx_hex :: "string option"
  dv_witness_scripts_hex :: "string list option"

text \<open>What a channel signer is made of, and its state: the two cells all its clones share, the
  thread's slot of witness scripts for the next validation, and the state of the backend.\<close>

record 's channel_signer =
  cg_call :: "'s backend"
  cg_debug :: "signer_response \<Rightarrow> string"
  cg_keys_id_hex :: string
  cg_pubkeys :: channel_public_keys
  cg_to_hex :: "bytes \<Rightarrow> string"
  cg_from_hex :: "string \<Rightarrow> bytes option"
  cg_sig_from_der :: "bytes \<Rightarrow> bytes option"
  cg_sig_from_compact :: "bytes \<Rightarrow> bytes option"
  cg_key_from_slice :: "bytes \<Rightarrow> bytes option"

record 's signer_cells =
  cs_setup_complete :: bool
  cs_deferred :: "deferred_validation option"
  cs_scripts_slot :: "string list option"
  cs_backend :: 's

type_synonym ('s, 'a) cell_op = "'s signer_cells \<Rightarrow> (signer_error + 'a) \<times> 's signer_cells"

definition channel_signer_new :: "'s \<Rightarrow> 's signer_cells" where
  "channel_signer_new b =
     \<lparr>cs_setup_complete = False, cs_deferred = None, cs_scripts_slot = None, cs_backend = b\<rparr>"

text \<open>One operation of the channel, sent to the backend.\<close>

definition send_channel_op :: "'s channel_signer \<Rightarrow> channel_op \<Rightarrow> ('s, signer_response) cell_op" where
  "send_channel_op g opn s =
     (case cg_call g (SignerRequest_Channel (ChannelRequest_Op (cg_keys_id_hex g) opn)) (cs_backend s) of
        (r, b) \<Rightarrow> (r, s\<lparr>cs_backend := b\<rparr>))"


section \<open>Setting up the channel\<close>

definition derive_initial_push_value_msat :: "channel_parameters \<Rightarrow> 's signer_cells \<Rightarrow> u64 option" where
  "derive_initial_push_value_msat cp s =
     (case cs_deferred s of
        None \<Rightarrow> None
      | Some pending \<Rightarrow>
          if dv_commitment_number pending \<noteq> 0 \<or> dv_nondust_htlcs pending \<noteq> [] then None
          else checked_mul
                 (if cp_is_outbound cp then dv_to_countersignatory_value_sat pending
                  else dv_to_broadcaster_value_sat pending) 1000)"

definition channel_type_kind :: "channel_parameters \<Rightarrow> byte" where
  "channel_type_kind cp =
     (if cp_anchors_zero_fee_htlc cp then 2 else if cp_anchors_nonzero_fee_htlc cp then 1 else 0)"

definition to_external_channel_pubkeys :: "(bytes \<Rightarrow> string) \<Rightarrow> pubkeys \<Rightarrow> channel_public_keys" where
  "to_external_channel_pubkeys to_hex k =
     ChannelPublicKeys (to_hex (pk_funding k)) (to_hex (pk_revocation k)) (to_hex (pk_payment k))
       (to_hex (pk_delayed_payment k)) (to_hex (pk_htlc k))"

definition setup_channel :: "'s channel_signer \<Rightarrow> channel_parameters \<Rightarrow> ('s, unit) cell_op" where
  "setup_channel g cp s =
     (case cp_counterparty cp of
        None \<Rightarrow>
          (Inl (Protocol ''missing counterparty channel parameters for external signer setup''), s)
      | Some (counterparty, counterparty_delay) \<Rightarrow>
          (case cp_funding_outpoint cp of
             None \<Rightarrow> (Inl (Protocol ''missing funding outpoint for external signer setup''), s)
           | Some (funding_txid, funding_vout) \<Rightarrow>
               (let push_value_msat =
                      (case derive_initial_push_value_msat cp s of None \<Rightarrow> 0 | Some v \<Rightarrow> v)
                in case send_channel_op g
                          (ChannelOp_SetupChannel (cp_is_outbound cp) (cp_channel_value_satoshis cp)
                             push_value_msat funding_txid funding_vout (cp_holder_selected_contest_delay cp)
                             (to_external_channel_pubkeys (cg_to_hex g) counterparty) counterparty_delay
                             (channel_type_kind cp)) s of
                     (Inl e, s) \<Rightarrow> (Inl e, s)
                   | (Inr (SignerResponse_Channel ChannelResponse_SetupComplete), s) \<Rightarrow>
                       (Inr (), s\<lparr>cs_setup_complete := True\<rparr>)
                   | (Inr other, s) \<Rightarrow>
                       (Inl (Protocol (''unexpected response for setup_channel: '' @ cg_debug g other)), s))))"

definition to_external_htlcs :: "(bytes \<Rightarrow> string) \<Rightarrow> htlc_output list \<Rightarrow> bool \<Rightarrow> channel_htlc list" where
  "to_external_htlcs to_hex htlcs is_remote =
     map (\<lambda>h. ChannelHtlc (if ho_offered h \<noteq> is_remote then 0 else 1) (ho_amount_msat h)
              (to_hex (ho_payment_hash h)) (ho_cltv_expiry h)) htlcs"


section \<open>Validating the holder's commitments\<close>

text \<open>The errors from here on are LDK's \<open>()\<close>.\<close>

type_synonym ('s, 'a) ldk_op = "'s signer_cells \<Rightarrow> 'a option \<times> 's signer_cells"

definition deferred_op :: "'s channel_signer \<Rightarrow> deferred_validation \<Rightarrow> channel_op" where
  "deferred_op g pending =
     ChannelOp_ValidateHolderCommitment
       (saturating_sub INITIAL_COMMITMENT_NUMBER (dv_commitment_number pending))
       (dv_feerate_per_kw pending) (dv_to_broadcaster_value_sat pending)
       (dv_to_countersignatory_value_sat pending)
       (to_external_htlcs (cg_to_hex g) (dv_nondust_htlcs pending) False)
       (cg_to_hex g (dv_counterparty_sig pending))
       (map (cg_to_hex g) (dv_counterparty_htlc_sigs pending))
       (dv_tx_hex pending) (dv_witness_scripts_hex pending)"

definition replay_deferred_initial_holder_validation :: "'s channel_signer \<Rightarrow> ('s, unit) ldk_op" where
  "replay_deferred_initial_holder_validation g s =
     (case cs_deferred s of
        None \<Rightarrow> (Some (), s)
      | Some pending \<Rightarrow>
          (case send_channel_op g (deferred_op g pending) s of
             (Inr (SignerResponse_Channel ChannelResponse_ValidationComplete), s) \<Rightarrow>
               (Some (), s\<lparr>cs_deferred := None\<rparr>)
           | (_, s) \<Rightarrow> (None, s)))"

text \<open>The slot of witness scripts is emptied as it is read.\<close>

definition take_witness_scripts :: "commitment_tx \<Rightarrow> 's signer_cells \<Rightarrow> (string option \<times> string list option) \<times> 's signer_cells" where
  "take_witness_scripts tx s =
     (let scripts = cs_scripts_slot s;
          needs_wire_validation = (ct_colored tx \<or> scripts \<noteq> None)
      in ((if needs_wire_validation then Some (ct_tx_hex tx) else None, scripts), s\<lparr>cs_scripts_slot := None\<rparr>))"

definition validate_holder_commitment_with_backend :: "'s channel_signer \<Rightarrow> commitment_tx \<Rightarrow> ('s, unit) ldk_op" where
  "validate_holder_commitment_with_backend g tx s =
     (case take_witness_scripts tx s of
        ((tx_hex, scripts), s) \<Rightarrow>
          (case send_channel_op g
                  (ChannelOp_ValidateHolderCommitment
                     (saturating_sub INITIAL_COMMITMENT_NUMBER (ct_number tx))
                     (ct_feerate_per_kw tx) (ct_to_broadcaster_sat tx) (ct_to_countersignatory_sat tx)
                     (to_external_htlcs (cg_to_hex g) (ct_nondust_htlcs tx) False)
                     (cg_to_hex g (ct_counterparty_sig tx))
                     (map (cg_to_hex g) (ct_counterparty_htlc_sigs tx)) tx_hex scripts) s of
             (Inr (SignerResponse_Channel ChannelResponse_ValidationComplete), s) \<Rightarrow> (Some (), s)
           | (_, s) \<Rightarrow> (None, s)))"

definition validate_holder_commitment :: "'s channel_signer \<Rightarrow> commitment_tx \<Rightarrow> ('s, unit) ldk_op" where
  "validate_holder_commitment g tx s =
     (if \<not> cs_setup_complete s then
        (case take_witness_scripts tx s of
           ((tx_hex, scripts), s) \<Rightarrow>
             (Some (), s\<lparr>cs_deferred := Some
                \<lparr>dv_commitment_number = ct_number tx,
                 dv_to_broadcaster_value_sat = ct_to_broadcaster_sat tx,
                 dv_to_countersignatory_value_sat = ct_to_countersignatory_sat tx,
                 dv_feerate_per_kw = ct_feerate_per_kw tx,
                 dv_nondust_htlcs = ct_nondust_htlcs tx,
                 dv_counterparty_sig = ct_counterparty_sig tx,
                 dv_counterparty_htlc_sigs = ct_counterparty_htlc_sigs tx,
                 dv_tx_hex = tx_hex,
                 dv_witness_scripts_hex = scripts\<rparr>\<rparr>))
      else validate_holder_commitment_with_backend g tx s)"

definition validate_counterparty_revocation :: "('s, unit) ldk_op" where
  "validate_counterparty_revocation s = (Some (), s)"


section \<open>Points, secrets and keys\<close>

definition signer_per_commitment_point :: "'s channel_signer \<Rightarrow> u64 \<Rightarrow> ('s, string) cell_op" where
  "signer_per_commitment_point g idx s =
     (case send_channel_op g (ChannelOp_GetPerCommitmentPoint idx) s of
        (Inr (SignerResponse_Channel (ChannelResponse_PerCommitmentPoint point_hex)), s) \<Rightarrow> (Inr point_hex, s)
      | (Inr other, s) \<Rightarrow>
          (Inl (Protocol (''unexpected response for get_per_commitment_point: '' @ cg_debug g other)), s)
      | (Inl err, s) \<Rightarrow>
          if \<not> cs_setup_complete s \<and> idx < INITIAL_COMMITMENT_NUMBER then
            (case send_channel_op g (ChannelOp_GetPerCommitmentPoint (saturating_add idx 1)) s of
               (Inl e, s) \<Rightarrow> (Inl e, s)
             | (Inr (SignerResponse_Channel (ChannelResponse_PerCommitmentPoint point_hex)), s) \<Rightarrow>
                 (Inr point_hex, s)
             | (Inr other, s) \<Rightarrow>
                 (Inl (Protocol (''unexpected fallback response for get_per_commitment_point: ''
                    @ cg_debug g other)), s))
          else (Inl err, s))"

definition signer_release_commitment_secret :: "'s channel_signer \<Rightarrow> u64 \<Rightarrow> ('s, string) cell_op" where
  "signer_release_commitment_secret g idx s =
     (case send_channel_op g (ChannelOp_ReleaseCommitmentSecret idx) s of
        (Inl e, s) \<Rightarrow> (Inl e, s)
      | (Inr (SignerResponse_Channel (ChannelResponse_CommitmentSecret secret_hex)), s) \<Rightarrow> (Inr secret_hex, s)
      | (Inr other, s) \<Rightarrow>
          (Inl (Protocol (''unexpected response for release_commitment_secret: '' @ cg_debug g other)), s))"

definition parse_signature :: "'s channel_signer \<Rightarrow> string \<Rightarrow> bytes option" where
  "parse_signature g signature_hex =
     (case cg_from_hex g signature_hex of
        None \<Rightarrow> None
      | Some bytes \<Rightarrow>
          (case cg_sig_from_der g bytes of Some sig \<Rightarrow> Some sig | None \<Rightarrow> cg_sig_from_compact g bytes))"

definition parse_key :: "'s channel_signer \<Rightarrow> string \<Rightarrow> bytes option" where
  "parse_key g key_hex = Option.bind (cg_from_hex g key_hex) (cg_key_from_slice g)"

fun ldk_pubkeys_of :: "'s channel_signer \<Rightarrow> channel_public_keys \<Rightarrow> pubkeys option" where
  "ldk_pubkeys_of g (ChannelPublicKeys funding_hex revocation_hex payment_hex delayed_hex htlc_hex) =
     Option.bind (parse_key g funding_hex) (\<lambda>funding.
     Option.bind (parse_key g revocation_hex) (\<lambda>revocation.
     Option.bind (parse_key g payment_hex) (\<lambda>payment.
     Option.bind (parse_key g delayed_hex) (\<lambda>delayed.
     Option.bind (parse_key g htlc_hex) (\<lambda>htlc.
       Some \<lparr>pk_funding = funding, pk_revocation = revocation, pk_payment = payment,
             pk_delayed_payment = delayed, pk_htlc = htlc\<rparr>)))))"

definition ldk_pubkeys :: "'s channel_signer \<Rightarrow> pubkeys option" where
  "ldk_pubkeys g = ldk_pubkeys_of g (cg_pubkeys g)"

definition channel_pubkeys :: "'s channel_signer \<Rightarrow> pubkeys" where
  "channel_pubkeys g =
     (case ldk_pubkeys g of
        Some k \<Rightarrow> k
      | None \<Rightarrow>
          (let fallback = replicate 33 2
           in \<lparr>pk_funding = fallback, pk_revocation = fallback, pk_payment = fallback,
               pk_delayed_payment = fallback, pk_htlc = fallback\<rparr>))"

definition new_funding_pubkey :: "'s channel_signer \<Rightarrow> bytes" where
  "new_funding_pubkey g = pk_funding (channel_pubkeys g)"

definition channel_keys_id :: "'s channel_signer \<Rightarrow> bytes" where
  "channel_keys_id g =
     (let bytes = (case cg_from_hex g (cg_keys_id_hex g) of Some b \<Rightarrow> b | None \<Rightarrow> replicate 32 0)
      in if 32 \<le> length bytes then take 32 bytes else replicate 32 0)"

definition get_per_commitment_point :: "'s channel_signer \<Rightarrow> u64 \<Rightarrow> ('s, bytes) ldk_op" where
  "get_per_commitment_point g idx s =
     (case signer_per_commitment_point g idx s of
        (Inl _, s) \<Rightarrow> (None, s)
      | (Inr point_hex, s) \<Rightarrow> (parse_key g point_hex, s))"

definition release_commitment_secret :: "'s channel_signer \<Rightarrow> u64 \<Rightarrow> ('s, bytes) ldk_op" where
  "release_commitment_secret g idx s =
     (case signer_release_commitment_secret g idx s of
        (Inl _, s) \<Rightarrow> (None, s)
      | (Inr secret_hex, s) \<Rightarrow>
          (case cg_from_hex g secret_hex of
             None \<Rightarrow> (None, s)
           | Some secret \<Rightarrow> (if length secret = 32 then Some secret else None, s)))"

section \<open>Signing\<close>

text \<open>All of a list's values, if none is missing.\<close>

fun all_some :: "'a option list \<Rightarrow> 'a list option" where
  "all_some [] = Some []"
| "all_some (x # xs) =
     (case x of None \<Rightarrow> None | Some y \<Rightarrow> map_option ((#) y) (all_some xs))"

text \<open>The request, with the balances and the sides of the HTLCs seen from the holder.\<close>

definition counterparty_op ::
  "'s channel_signer \<Rightarrow> commitment_tx \<Rightarrow> bytes list \<Rightarrow> bytes list \<Rightarrow> channel_op" where
  "counterparty_op g tx inbound_preimages outbound_preimages =
     ChannelOp_SignCounterpartyCommitment (ct_tx_hex tx) (cg_to_hex g (ct_point tx))
       (saturating_sub INITIAL_COMMITMENT_NUMBER (ct_number tx)) (ct_feerate_per_kw tx)
       (ct_to_countersignatory_sat tx) (ct_to_broadcaster_sat tx)
       (to_external_htlcs (cg_to_hex g) (ct_nondust_htlcs tx) True)
       (map (cg_to_hex g) inbound_preimages @ map (cg_to_hex g) outbound_preimages)
       (if ct_colored tx then map_option (map (cg_to_hex g)) (ct_witness_scripts tx) else None)"

definition sign_counterparty_commitment ::
  "'s channel_signer \<Rightarrow> channel_parameters \<Rightarrow> commitment_tx \<Rightarrow> bytes list \<Rightarrow> bytes list
     \<Rightarrow> ('s, bytes \<times> bytes list) ldk_op" where
  "sign_counterparty_commitment g cp tx inbound_preimages outbound_preimages s =
     (case setup_channel g cp s of
        (Inl _, s) \<Rightarrow> (None, s)
      | (Inr _, s) \<Rightarrow>
          (case replay_deferred_initial_holder_validation g s of
             (None, s) \<Rightarrow> (None, s)
           | (Some _, s) \<Rightarrow>
               if ct_colored tx \<and> ct_witness_scripts tx = None then (None, s)
               else case send_channel_op g (counterparty_op g tx inbound_preimages outbound_preimages) s of
                      (Inr (SignerResponse_Channel
                              (ChannelResponse_SignatureWithHtlcs signature_hex htlc_signatures_hex)), s) \<Rightarrow>
                        (case parse_signature g signature_hex of
                           None \<Rightarrow> (None, s)
                         | Some sig \<Rightarrow>
                             (case all_some (map (parse_signature g) htlc_signatures_hex) of
                                None \<Rightarrow> (None, s)
                              | Some htlc_sigs \<Rightarrow> (Some (sig, htlc_sigs), s)))
                    | (_, s) \<Rightarrow> (None, s)))"

text \<open>A request that is answered with one signature.\<close>

definition request_signature :: "'s channel_signer \<Rightarrow> channel_op \<Rightarrow> ('s, bytes) ldk_op" where
  "request_signature g opn s =
     (case send_channel_op g opn s of
        (Inr (SignerResponse_Channel (ChannelResponse_Signature signature_hex)), s) \<Rightarrow>
          (parse_signature g signature_hex, s)
      | (_, s) \<Rightarrow> (None, s))"

definition sign_holder_commitment ::
  "'s channel_signer \<Rightarrow> channel_parameters \<Rightarrow> commitment_tx \<Rightarrow> ('s, bytes) ldk_op" where
  "sign_holder_commitment g cp tx s =
     (case setup_channel g cp s of
        (Inl _, s) \<Rightarrow> (None, s)
      | (Inr _, s) \<Rightarrow>
          (let s = (case ct_witness_scripts tx of
                      Some scripts \<Rightarrow>
                        if ct_colored tx then s\<lparr>cs_scripts_slot := Some (map (cg_to_hex g) scripts)\<rparr> else s
                    | None \<Rightarrow> s)
           in case validate_holder_commitment_with_backend g tx s of
                (None, s) \<Rightarrow> (None, s)
              | (Some _, s) \<Rightarrow>
                  request_signature g
                    (ChannelOp_SignHolderCommitment (ct_tx_hex tx)
                       (saturating_sub INITIAL_COMMITMENT_NUMBER (ct_number tx))) s))"

text \<open>The index of an input is cut to 32 bits.\<close>

definition sign_justice_revoked_output ::
  "'s channel_signer \<Rightarrow> string \<Rightarrow> u64 \<Rightarrow> u64 \<Rightarrow> bytes \<Rightarrow> ('s, bytes) ldk_op" where
  "sign_justice_revoked_output g tx_hex inp amount per_commitment_key =
     request_signature g
       (ChannelOp_SignJusticeRevokedOutput tx_hex (ucast inp) amount (cg_to_hex g per_commitment_key))"

definition sign_justice_revoked_htlc ::
  "'s channel_signer \<Rightarrow> string \<Rightarrow> u64 \<Rightarrow> u64 \<Rightarrow> bytes \<Rightarrow> ('s, bytes) ldk_op" where
  "sign_justice_revoked_htlc g tx_hex inp amount per_commitment_key =
     request_signature g
       (ChannelOp_SignJusticeRevokedHtlc tx_hex (ucast inp) amount (cg_to_hex g per_commitment_key) [])"

definition sign_holder_htlc_transaction :: "'s channel_signer \<Rightarrow> string \<Rightarrow> u64 \<Rightarrow> ('s, bytes) ldk_op" where
  "sign_holder_htlc_transaction g tx_hex inp =
     request_signature g (ChannelOp_SignHolderHtlcTransaction tx_hex (ucast inp) [])"

definition sign_counterparty_htlc_transaction ::
  "'s channel_signer \<Rightarrow> string \<Rightarrow> u64 \<Rightarrow> u64 \<Rightarrow> bytes \<Rightarrow> ('s, bytes) ldk_op" where
  "sign_counterparty_htlc_transaction g tx_hex inp amount per_commitment_point =
     request_signature g
       (ChannelOp_SignCounterpartyHtlcTransaction tx_hex (ucast inp) amount
          (cg_to_hex g per_commitment_point) [])"

definition sign_closing_transaction :: "'s channel_signer \<Rightarrow> string \<Rightarrow> ('s, bytes) ldk_op" where
  "sign_closing_transaction g tx_hex = request_signature g (ChannelOp_SignClosingTransaction tx_hex)"

definition sign_holder_keyed_anchor_input :: "'s channel_signer \<Rightarrow> string \<Rightarrow> u64 \<Rightarrow> ('s, bytes) ldk_op" where
  "sign_holder_keyed_anchor_input g tx_hex inp =
     request_signature g (ChannelOp_SignHolderAnchorInput tx_hex (ucast inp) [])"

definition sign_channel_announcement_with_funding_key ::
  "'s channel_signer \<Rightarrow> bytes \<Rightarrow> ('s, bytes) ldk_op" where
  "sign_channel_announcement_with_funding_key g msg =
     request_signature g (ChannelOp_SignChannelAnnouncementWithFundingKey (cg_to_hex g msg))"

text \<open>Where the signer gives no signature, this one returns the compact signature of 64 ones
  (\<open>None\<close> where that does not parse, which panics).\<close>

definition sign_splice_shared_input :: "'s channel_signer \<Rightarrow> string \<Rightarrow> u64 \<Rightarrow> ('s, bytes) ldk_op" where
  "sign_splice_shared_input g tx_hex inp s =
     (case request_signature g (ChannelOp_SignSplicingFundingInput tx_hex (ucast inp) []) s of
        (Some sig, s) \<Rightarrow> (Some sig, s)
      | (None, s) \<Rightarrow> (cg_sig_from_compact g (replicate 64 1), s))"

end
