(* ===== verification/Channel_Signer_Props.thy ===== *)
theory Channel_Signer_Props
  imports Channel_Signer
begin

text \<open>
  What the channel signer makes of the protocol with the signer: a counterparty commitment is signed
  only after the channel was set up and the first commitment of the holder was validated, whichever
  way LDK calls it; and two things it gets wrong before the set-up, the pushed value and the
  per-commitment point.
\<close>

text \<open>A backend that keeps a log of what it was asked and what it answered, in order.\<close>

type_synonym log_entry = "signer_request \<times> (signer_error + signer_response)"

definition logging :: "'s backend \<Rightarrow> ('s \<times> log_entry list) backend" where
  "logging call r s = (case call r (fst s) of (x, b) \<Rightarrow> (x, (b, snd s @ [(r, x)])))"

abbreviation signer_log :: "('s \<times> log_entry list) signer_cells \<Rightarrow> log_entry list" where
  "signer_log s \<equiv> snd (cs_backend s)"

definition op_entry :: "'s channel_signer \<Rightarrow> channel_op \<Rightarrow> channel_response \<Rightarrow> log_entry" where
  "op_entry g opn r =
     (SignerRequest_Channel (ChannelRequest_Op (cg_keys_id_hex g) opn), Inr (SignerResponse_Channel r))"

lemma send_channel_op_cells:
  assumes "send_channel_op g opn s = (r, s')"
  shows "cs_setup_complete s' = cs_setup_complete s" "cs_deferred s' = cs_deferred s"
  using assms by (auto simp: send_channel_op_def split: prod.splits)

lemma send_channel_op_log:
  assumes "cg_call g = logging call" "send_channel_op g opn s = (r, s')"
  shows "signer_log s'
    = signer_log s @ [(SignerRequest_Channel (ChannelRequest_Op (cg_keys_id_hex g) opn), r)]"
  using assms by (auto simp: send_channel_op_def logging_def split: prod.splits)


section \<open>The set-up and the replayed validation\<close>

fun is_setup_op :: "channel_op \<Rightarrow> bool" where
  "is_setup_op (ChannelOp_SetupChannel _ _ _ _ _ _ _ _ _) = True"
| "is_setup_op _ = False"

lemma setup_channel_Inr:
  assumes "setup_channel g cp s = (Inr u, s')"
  obtains opn s1 where "send_channel_op g opn s = (Inr (SignerResponse_Channel ChannelResponse_SetupComplete), s1)"
    "is_setup_op opn" "s' = s1\<lparr>cs_setup_complete := True\<rparr>"
  using assms
  by (auto simp: setup_channel_def Let_def
      split: option.splits prod.splits sum.splits signer_response.splits channel_response.splits)

lemma replay_Some:
  assumes "replay_deferred_initial_holder_validation g s = (Some u, s')"
  obtains "cs_deferred s = None" "s' = s"
  | d s1 where "cs_deferred s = Some d" "s' = s1\<lparr>cs_deferred := None\<rparr>"
      "send_channel_op g (deferred_op g d) s = (Inr (SignerResponse_Channel ChannelResponse_ValidationComplete), s1)"
  using assms
  by (auto simp: replay_deferred_initial_holder_validation_def
      split: option.splits prod.splits sum.splits signer_response.splits channel_response.splits)

lemma sign_counterparty_Some:
  assumes "sign_counterparty_commitment g cp tx ip op s = (Some sigs, s')"
  obtains u s1 v s2 hex htlc_hex where "setup_channel g cp s = (Inr u, s1)"
    "replay_deferred_initial_holder_validation g s1 = (Some v, s2)"
    "send_channel_op g (counterparty_op g tx ip op) s2
       = (Inr (SignerResponse_Channel (ChannelResponse_SignatureWithHtlcs hex htlc_hex)), s')"
  using assms
  by (auto simp: sign_counterparty_commitment_def
      split: option.splits prod.splits sum.splits if_splits signer_response.splits channel_response.splits)

section \<open>Runs of a channel signer\<close>

text \<open>Everything LDK can call, in any order.\<close>

inductive signer_run :: "'s channel_signer \<Rightarrow> 's signer_cells \<Rightarrow> 's signer_cells \<Rightarrow> bool" for g where
  refl: "signer_run g s s"
| validate: "signer_run g s s1 \<Longrightarrow> validate_holder_commitment g tx s1 = (r1, s') \<Longrightarrow> signer_run g s s'"
| revoke: "signer_run g s s1 \<Longrightarrow> validate_counterparty_revocation s1 = (r1, s') \<Longrightarrow> signer_run g s s'"
| point: "signer_run g s s1 \<Longrightarrow> get_per_commitment_point g idx s1 = (r2, s') \<Longrightarrow> signer_run g s s'"
| secret: "signer_run g s s1 \<Longrightarrow> release_commitment_secret g idx s1 = (r2, s') \<Longrightarrow> signer_run g s s'"
| sign_cp: "signer_run g s s1 \<Longrightarrow> sign_counterparty_commitment g cp tx ip op s1 = (r3, s') \<Longrightarrow> signer_run g s s'"
| sign_holder: "signer_run g s s1 \<Longrightarrow> sign_holder_commitment g cp tx s1 = (r2, s') \<Longrightarrow> signer_run g s s'"
| justice_output: "signer_run g s s1 \<Longrightarrow> sign_justice_revoked_output g t i amt key s1 = (r2, s') \<Longrightarrow> signer_run g s s'"
| justice_htlc: "signer_run g s s1 \<Longrightarrow> sign_justice_revoked_htlc g t i amt key s1 = (r2, s') \<Longrightarrow> signer_run g s s'"
| holder_htlc: "signer_run g s s1 \<Longrightarrow> sign_holder_htlc_transaction g t i s1 = (r2, s') \<Longrightarrow> signer_run g s s'"
| cp_htlc: "signer_run g s s1 \<Longrightarrow> sign_counterparty_htlc_transaction g t i amt pt s1 = (r2, s') \<Longrightarrow> signer_run g s s'"
| closing: "signer_run g s s1 \<Longrightarrow> sign_closing_transaction g t s1 = (r2, s') \<Longrightarrow> signer_run g s s'"
| anchor: "signer_run g s s1 \<Longrightarrow> sign_holder_keyed_anchor_input g t i s1 = (r2, s') \<Longrightarrow> signer_run g s s'"
| announce: "signer_run g s s1 \<Longrightarrow> sign_channel_announcement_with_funding_key g m s1 = (r2, s') \<Longrightarrow> signer_run g s s'"
| splice: "signer_run g s s1 \<Longrightarrow> sign_splice_shared_input g t i s1 = (r2, s') \<Longrightarrow> signer_run g s s'"

definition settled :: "'s signer_cells \<Rightarrow> bool" where
  "settled s = (cs_setup_complete s \<and> cs_deferred s = None)"

lemma settled_simps [simp]:
  "settled (s\<lparr>cs_backend := b\<rparr>) = settled s"
  "settled (s\<lparr>cs_scripts_slot := x\<rparr>) = settled s"
  "settled s \<Longrightarrow> settled (s\<lparr>cs_setup_complete := True\<rparr>)"
  "settled s \<Longrightarrow> settled (s\<lparr>cs_deferred := None\<rparr>)"
  by (simp_all add: settled_def)

lemma send_channel_op_settled: "send_channel_op g opn s = (r, s') \<Longrightarrow> settled s \<Longrightarrow> settled s'"
  by (auto simp: send_channel_op_def split: prod.splits)

lemma request_signature_settled: "request_signature g opn s = (r, s') \<Longrightarrow> settled s \<Longrightarrow> settled s'"
  by (auto simp: request_signature_def dest: send_channel_op_settled
      split: prod.splits sum.splits signer_response.splits channel_response.splits)

lemma setup_channel_settled: "setup_channel g cp s = (r, s') \<Longrightarrow> settled s \<Longrightarrow> settled s'"
  by (auto simp: setup_channel_def Let_def dest: send_channel_op_settled
      split: option.splits prod.splits sum.splits signer_response.splits channel_response.splits)

lemma replay_settled: "replay_deferred_initial_holder_validation g s = (r, s') \<Longrightarrow> settled s \<Longrightarrow> settled s'"
  by (auto simp: replay_deferred_initial_holder_validation_def settled_def split: option.splits)

lemma validate_backend_settled:
  "validate_holder_commitment_with_backend g tx s = (r, s') \<Longrightarrow> settled s \<Longrightarrow> settled s'"
  by (auto simp: validate_holder_commitment_with_backend_def take_witness_scripts_def Let_def
      dest!: send_channel_op_settled
      split: prod.splits sum.splits signer_response.splits channel_response.splits)

lemma validate_settled: "validate_holder_commitment g tx s = (r, s') \<Longrightarrow> settled s \<Longrightarrow> settled s'"
  using validate_backend_settled [of g tx s r s']
  by (simp add: validate_holder_commitment_def settled_def)

lemma point_settled: "get_per_commitment_point g idx s = (r, s') \<Longrightarrow> settled s \<Longrightarrow> settled s'"
  by (auto simp: get_per_commitment_point_def signer_per_commitment_point_def settled_def
      dest: send_channel_op_cells
      split: prod.splits sum.splits signer_response.splits channel_response.splits if_splits)

lemma secret_settled: "release_commitment_secret g idx s = (r, s') \<Longrightarrow> settled s \<Longrightarrow> settled s'"
  by (auto simp: release_commitment_secret_def signer_release_commitment_secret_def
      dest: send_channel_op_settled
      split: option.splits prod.splits sum.splits signer_response.splits channel_response.splits)

lemma sign_cp_settled:
  assumes "sign_counterparty_commitment g cp tx ip op s = (r, s')" "settled s"
  shows "settled s'"
proof -
  obtain r1 s1 where 1: "setup_channel g cp s = (r1, s1)" by (cases "setup_channel g cp s")
  obtain r2 s2 where 2: "replay_deferred_initial_holder_validation g s1 = (r2, s2)"
    by (cases "replay_deferred_initial_holder_validation g s1")
  obtain r3 s3 where 3: "send_channel_op g (counterparty_op g tx ip op) s2 = (r3, s3)"
    by (cases "send_channel_op g (counterparty_op g tx ip op) s2")
  from 1 2 3 assms(2) have "settled s1" "settled s2" "settled s3"
    by (auto dest: setup_channel_settled replay_settled send_channel_op_settled)
  with 1 2 3 assms(1) show ?thesis
    by (auto simp: sign_counterparty_commitment_def
        split: option.splits sum.splits if_splits signer_response.splits channel_response.splits)
qed

lemma sign_holder_settled:
  assumes "sign_holder_commitment g cp tx s = (r, s')" "settled s"
  shows "settled s'"
proof -
  obtain r1 s1 where 1: "setup_channel g cp s = (r1, s1)" by (cases "setup_channel g cp s")
  from setup_channel_settled [OF 1 assms(2)] have s1: "settled s1" .
  show ?thesis
  proof (cases r1)
    case (Inr u)
    define s2 where "s2 = (case ct_witness_scripts tx of
        Some scripts \<Rightarrow> if ct_colored tx then s1\<lparr>cs_scripts_slot := Some (map (cg_to_hex g) scripts)\<rparr> else s1
      | None \<Rightarrow> s1)"
    have s2: "settled s2" using s1 by (simp add: s2_def split: option.splits)
    obtain r3 s3 where 3: "validate_holder_commitment_with_backend g tx s2 = (r3, s3)"
      by (cases "validate_holder_commitment_with_backend g tx s2")
    from validate_backend_settled [OF 3 s2] have "settled s3" .
    with 1 3 Inr assms(1) show ?thesis
      by (auto simp: sign_holder_commitment_def s2_def [symmetric] Let_def
          dest: request_signature_settled split: option.splits)
  qed (use assms(1) 1 s1 in \<open>simp add: sign_holder_commitment_def\<close>)
qed

lemma splice_settled: "sign_splice_shared_input g t i s = (r, s') \<Longrightarrow> settled s \<Longrightarrow> settled s'"
  by (auto simp: sign_splice_shared_input_def dest: request_signature_settled
      split: prod.splits option.splits)

lemmas single_signatures = sign_justice_revoked_output_def sign_justice_revoked_htlc_def
  sign_holder_htlc_transaction_def sign_counterparty_htlc_transaction_def sign_closing_transaction_def
  sign_holder_keyed_anchor_input_def sign_channel_announcement_with_funding_key_def

lemma signer_run_settled: "signer_run g s s' \<Longrightarrow> settled s \<Longrightarrow> settled s'"
  by (induction rule: signer_run.induct)
    (auto simp: single_signatures validate_counterparty_revocation_def
      dest: validate_settled point_settled secret_settled sign_cp_settled sign_holder_settled
        request_signature_settled splice_settled)

definition validation_log :: "'s channel_signer \<Rightarrow> deferred_validation option \<Rightarrow> log_entry list" where
  "validation_log g d =
     (case d of None \<Rightarrow> [] | Some d \<Rightarrow> [op_entry g (deferred_op g d) ChannelResponse_ValidationComplete])"

text \<open>C5. No counterparty commitment is signed around a validation. When a call for the signature of
  a counterparty commitment returns one, the signer was asked in this call for the set-up of the
  channel and confirmed it, then for the validation of the holder's first commitment if that had
  been put off and confirmed it, and then for the signature. From then on, whatever LDK calls, the
  channel counts as set up and no validation is ever put off again.\<close>

theorem counterparty_signed_after_validation:
  assumes "cg_call g = logging call"
    and "sign_counterparty_commitment g cp tx inbound outbound s = (Some sigs, s1)"
    and "signer_run g s1 s2"
  shows "(\<exists>setup hex htlc_hex. is_setup_op setup \<and>
      signer_log s1 = signer_log s @ [op_entry g setup ChannelResponse_SetupComplete]
        @ validation_log g (cs_deferred s)
        @ [op_entry g (counterparty_op g tx inbound outbound) (ChannelResponse_SignatureWithHtlcs hex htlc_hex)])
    \<and> cs_setup_complete s2 \<and> cs_deferred s2 = None"
proof -
  from assms(2) obtain u sa v sb hex htlc_hex where
    1: "setup_channel g cp s = (Inr u, sa)"
    and 2: "replay_deferred_initial_holder_validation g sa = (Some v, sb)"
    and 3: "send_channel_op g (counterparty_op g tx inbound outbound) sb
       = (Inr (SignerResponse_Channel (ChannelResponse_SignatureWithHtlcs hex htlc_hex)), s1)"
    by (rule sign_counterparty_Some)
  from 1 obtain opn sc where c: "send_channel_op g opn s = (Inr (SignerResponse_Channel ChannelResponse_SetupComplete), sc)"
    "is_setup_op opn" "sa = sc\<lparr>cs_setup_complete := True\<rparr>"
    by (rule setup_channel_Inr)
  have la: "signer_log sa = signer_log s @ [op_entry g opn ChannelResponse_SetupComplete]"
    "cs_setup_complete sa" "cs_deferred sa = cs_deferred s"
    using send_channel_op_log [OF assms(1) c(1)] send_channel_op_cells [OF c(1)] c(3)
    by (simp_all add: op_entry_def)
  have lb: "signer_log sb = signer_log sa @ validation_log g (cs_deferred s) \<and> settled sb"
    using 2
  proof (cases rule: replay_Some)
    case (2 d sd)
    then show ?thesis
      using send_channel_op_log [OF assms(1) 2(3)] send_channel_op_cells [OF 2(3)] la
      by (simp add: validation_log_def op_entry_def settled_def)
  qed (use la in \<open>simp add: validation_log_def settled_def\<close>)
  have "settled s2"
    using signer_run_settled [OF assms(3)] send_channel_op_settled [OF 3] lb by simp
  moreover have "signer_log s1 = signer_log s @ [op_entry g opn ChannelResponse_SetupComplete]
      @ validation_log g (cs_deferred s)
      @ [op_entry g (counterparty_op g tx inbound outbound) (ChannelResponse_SignatureWithHtlcs hex htlc_hex)]"
    using send_channel_op_log [OF assms(1) 3] la(1) lb by (simp add: op_entry_def)
  ultimately show ?thesis
    using c(2) by (auto simp: settled_def)
qed

text \<open>A signer that sets up, validates and signs, and one channel of it.\<close>

definition demo_call :: "unit backend" where
  "demo_call r s =
     (case r of
        SignerRequest_Channel (ChannelRequest_Op _ (ChannelOp_SetupChannel _ _ _ _ _ _ _ _ _)) \<Rightarrow>
          (Inr (SignerResponse_Channel ChannelResponse_SetupComplete), s)
      | SignerRequest_Channel (ChannelRequest_Op _ (ChannelOp_ValidateHolderCommitment _ _ _ _ _ _ _ _ _)) \<Rightarrow>
          (Inr (SignerResponse_Channel ChannelResponse_ValidationComplete), s)
      | SignerRequest_Channel (ChannelRequest_Op _ (ChannelOp_SignCounterpartyCommitment _ _ _ _ _ _ _ _ _)) \<Rightarrow>
          (Inr (SignerResponse_Channel (ChannelResponse_SignatureWithHtlcs ''ab'' [''cd''])), s)
      | _ \<Rightarrow> (Inl (Unsupported ''not signed''), s))"

definition demo_signer :: "(unit \<times> log_entry list) channel_signer" where
  "demo_signer =
     \<lparr>cg_call = logging demo_call, cg_debug = \<lambda>_. [], cg_keys_id_hex = ''07'',
      cg_pubkeys = ChannelPublicKeys ''02'' ''03'' ''04'' ''05'' ''06'', cg_to_hex = \<lambda>_. ''00'',
      cg_from_hex = Some \<circ> as_bytes, cg_sig_from_der = \<lambda>b. None, cg_sig_from_compact = Some,
      cg_key_from_slice = Some\<rparr>"

definition demo_parameters :: channel_parameters where
  "demo_parameters =
     \<lparr>cp_is_outbound = True, cp_channel_value_satoshis = 100000,
      cp_counterparty = Some (\<lparr>pk_funding = [2], pk_revocation = [3], pk_payment = [2],
        pk_delayed_payment = [3], pk_htlc = [2]\<rparr>, 144),
      cp_funding_outpoint = Some (''f0'', 1), cp_holder_selected_contest_delay = 144,
      cp_anchors_zero_fee_htlc = True, cp_anchors_nonzero_fee_htlc = False\<rparr>"

definition demo_commitment :: commitment_tx where
  "demo_commitment =
     \<lparr>ct_number = INITIAL_COMMITMENT_NUMBER, ct_to_broadcaster_sat = 60000, ct_to_countersignatory_sat = 40000,
      ct_feerate_per_kw = 253, ct_nondust_htlcs = [], ct_tx_hex = ''01'', ct_colored = False, ct_point = [2],
      ct_witness_scripts = None, ct_counterparty_sig = [9], ct_counterparty_htlc_sigs = []\<rparr>"

definition demo_cells :: "(unit \<times> log_entry list) signer_cells" where
  "demo_cells = snd (validate_holder_commitment demo_signer demo_commitment (channel_signer_new ((), [])))"

lemma demo_signed:
  "fst (sign_counterparty_commitment demo_signer demo_parameters demo_commitment [] [] demo_cells)
     = Some (as_bytes ''ab'', [as_bytes ''cd''])"
  by (simp add: sign_counterparty_commitment_def setup_channel_def demo_cells_def validate_holder_commitment_def
      channel_signer_new_def take_witness_scripts_def send_channel_op_def logging_def demo_signer_def
      demo_parameters_def demo_commitment_def demo_call_def replay_deferred_initial_holder_validation_def
      deferred_op_def counterparty_op_def parse_signature_def Let_def)

theorem counterparty_signed_after_validation_witness:
  "\<exists>setup r sign. signer_log (snd (sign_counterparty_commitment demo_signer demo_parameters demo_commitment [] [] demo_cells))
     = [op_entry demo_signer setup ChannelResponse_SetupComplete,
        op_entry demo_signer (deferred_op demo_signer (the (cs_deferred demo_cells))) ChannelResponse_ValidationComplete,
        op_entry demo_signer sign r]"
proof -
  let ?r = "sign_counterparty_commitment demo_signer demo_parameters demo_commitment [] [] demo_cells"
  have "?r = (Some (as_bytes ''ab'', [as_bytes ''cd'']), snd ?r)"
    using demo_signed by (metis prod.collapse)
  moreover have "cg_call demo_signer = logging demo_call" by (simp add: demo_signer_def)
  moreover have "signer_log demo_cells = []" "\<exists>d. cs_deferred demo_cells = Some d"
    by (simp_all add: demo_cells_def validate_holder_commitment_def channel_signer_new_def take_witness_scripts_def Let_def)
  ultimately show ?thesis
    using counterparty_signed_after_validation [OF _ _ signer_run.refl, of demo_signer demo_call
        demo_parameters demo_commitment "[]" "[]" demo_cells _ "snd ?r"]
    by (fastforce simp: validation_log_def)
qed


section \<open>Before the set-up\<close>

text \<open>C38. The value pushed at the opening is lost. LDK numbers commitments backwards from
  \<open>INITIAL_COMMITMENT_NUMBER\<close>, which is also how the numbers sent to the signer are made. When the
  first commitment of the holder, without HTLCs, is put off for validation, the value it gives the
  counterparty is known; but the set-up request that follows says that nothing was pushed.\<close>

theorem pushed_value_lost:
  assumes "cg_call g = logging call"
    and "ct_number tx = INITIAL_COMMITMENT_NUMBER" "ct_nondust_htlcs tx = []"
    and "\<not> cs_setup_complete s" "validate_holder_commitment g tx s = (r, s1)"
    and "cp_counterparty cp = Some (k, cdelay)" "cp_funding_outpoint cp = Some (txid, vout)"
    and "setup_channel g cp s1 = (q, s2)"
  shows "r = Some () \<and> map_option dv_to_countersignatory_value_sat (cs_deferred s1) = Some (ct_to_countersignatory_sat tx)
    \<and> (\<exists>a. signer_log s2 = signer_log s1
        @ [(SignerRequest_Channel (ChannelRequest_Op (cg_keys_id_hex g)
             (ChannelOp_SetupChannel (cp_is_outbound cp) (cp_channel_value_satoshis cp) 0 txid vout
                (cp_holder_selected_contest_delay cp) (to_external_channel_pubkeys (cg_to_hex g) k) cdelay
                (channel_type_kind cp))), a)])"
proof -
  have r: "r = Some ()" "map_option dv_to_countersignatory_value_sat (cs_deferred s1) = Some (ct_to_countersignatory_sat tx)"
    and n: "map_option dv_commitment_number (cs_deferred s1) = Some INITIAL_COMMITMENT_NUMBER"
    using assms(2,4,5) by (auto simp: validate_holder_commitment_def take_witness_scripts_def Let_def)
  have "INITIAL_COMMITMENT_NUMBER \<noteq> 0" by (simp add: INITIAL_COMMITMENT_NUMBER_def)
  with n have d: "derive_initial_push_value_msat cp s1 = None"
    by (auto simp: derive_initial_push_value_msat_def)
  let ?op = "ChannelOp_SetupChannel (cp_is_outbound cp) (cp_channel_value_satoshis cp) 0 txid vout
    (cp_holder_selected_contest_delay cp) (to_external_channel_pubkeys (cg_to_hex g) k) cdelay (channel_type_kind cp)"
  obtain a s3 where a: "send_channel_op g ?op s1 = (a, s3)" by (cases "send_channel_op g ?op s1")
  have "cs_backend s2 = cs_backend s3"
    using assms(6-8) a d
    by (auto simp: setup_channel_def Let_def
        split: sum.splits signer_response.splits channel_response.splits)
  with send_channel_op_log [OF assms(1) a] r show ?thesis by auto
qed

theorem pushed_value_lost_witness:
  "\<exists>a. signer_log (snd (setup_channel demo_signer demo_parameters demo_cells))
     = signer_log demo_cells @ [(SignerRequest_Channel (ChannelRequest_Op ''07''
          (ChannelOp_SetupChannel True 100000 0 ''f0'' 1 144 (ChannelPublicKeys ''00'' ''00'' ''00'' ''00'' ''00'') 144 2)), a)]
   \<and> map_option dv_to_countersignatory_value_sat (cs_deferred demo_cells) = Some 40000"
proof -
  have v: "validate_holder_commitment demo_signer demo_commitment (channel_signer_new ((), [])) = (Some (), demo_cells)"
    by (simp add: demo_cells_def validate_holder_commitment_def channel_signer_new_def take_witness_scripts_def Let_def)
  have s: "setup_channel demo_signer demo_parameters demo_cells
      = (fst (setup_channel demo_signer demo_parameters demo_cells),
         snd (setup_channel demo_signer demo_parameters demo_cells))" by simp
  show ?thesis
    using pushed_value_lost [OF _ _ _ _ v _ _ s]
    by (auto simp: demo_signer_def demo_commitment_def channel_signer_new_def demo_parameters_def
        to_external_channel_pubkeys_def channel_type_kind_def)
qed

text \<open>C39. A broken link before the set-up yields the point of another commitment. When the request for
  the point of a commitment fails for whatever reason and the next one succeeds, the point returned
  is that of the commitment before (numbers count down), the same that this commitment itself has.\<close>

theorem fallback_point_of_other_commitment:
  fixes idx :: u64
  assumes "\<not> cs_setup_complete s" "idx < INITIAL_COMMITMENT_NUMBER"
    and "send_channel_op g (ChannelOp_GetPerCommitmentPoint idx) s = (Inl e, s1)"
    and "send_channel_op g (ChannelOp_GetPerCommitmentPoint (idx + 1)) s1
       = (Inr (SignerResponse_Channel (ChannelResponse_PerCommitmentPoint q)), s2)"
  shows "signer_per_commitment_point g idx s = (Inr q, s2)
    \<and> signer_per_commitment_point g (idx + 1) s1 = (Inr q, s2)"
proof -
  have "unat idx < 2 ^ 48"
    using assms(2) by (simp add: INITIAL_COMMITMENT_NUMBER_def word_less_nat_alt)
  then have "saturating_add idx 1 = idx + 1" by (simp add: saturating_add_def)
  moreover have "\<not> cs_setup_complete s1" using send_channel_op_cells [OF assms(3)] assms(1) by simp
  ultimately show ?thesis
    using assms by (simp add: signer_per_commitment_point_def)
qed

text \<open>A link that breaks once, to a signer whose points are named by their number.\<close>

definition flaky_call :: "bool backend" where
  "flaky_call r broken =
     (if broken then (Inl (Transport LinkIo), False)
      else case r of
             SignerRequest_Channel (ChannelRequest_Op _ (ChannelOp_GetPerCommitmentPoint idx)) \<Rightarrow>
               (Inr (SignerResponse_Channel (ChannelResponse_PerCommitmentPoint (show_nat (unat idx)))), False)
           | _ \<Rightarrow> (Inl (Unsupported []), False))"

definition flaky_signer :: "bool channel_signer" where
  "flaky_signer =
     \<lparr>cg_call = flaky_call, cg_debug = \<lambda>_. [], cg_keys_id_hex = ''07'',
      cg_pubkeys = ChannelPublicKeys ''02'' ''03'' ''04'' ''05'' ''06'', cg_to_hex = \<lambda>_. ''00'',
      cg_from_hex = Some \<circ> as_bytes, cg_sig_from_der = \<lambda>b. None, cg_sig_from_compact = Some,
      cg_key_from_slice = Some\<rparr>"

theorem fallback_point_of_other_commitment_witness:
  "signer_per_commitment_point flaky_signer 4 (channel_signer_new True) = (Inr ''5'', channel_signer_new False)"
proof -
  have "show_nat 5 = ''5''" by code_simp
  then have "send_channel_op flaky_signer (ChannelOp_GetPerCommitmentPoint 4) (channel_signer_new True)
      = (Inl (Transport LinkIo), channel_signer_new False)"
    "send_channel_op flaky_signer (ChannelOp_GetPerCommitmentPoint (4 + 1)) (channel_signer_new False)
      = (Inr (SignerResponse_Channel (ChannelResponse_PerCommitmentPoint ''5'')), channel_signer_new False)"
    by (simp_all add: send_channel_op_def flaky_signer_def flaky_call_def channel_signer_new_def)
  from fallback_point_of_other_commitment [OF _ _ this] show ?thesis
    by (simp add: channel_signer_new_def INITIAL_COMMITMENT_NUMBER_def)
qed

text \<open>The side of an HTLC is 0 exactly when this node offered it, in the commitment of either party.\<close>

lemma htlc_sides:
  "to_external_htlcs to_hex [h] False = [ChannelHtlc sd amt ph exp] \<Longrightarrow> sd = 0 \<longleftrightarrow> ho_offered h"
  "to_external_htlcs to_hex [h] True = [ChannelHtlc sd amt ph exp] \<Longrightarrow> sd = 0 \<longleftrightarrow> \<not> ho_offered h"
  by (auto simp: to_external_htlcs_def split: if_splits)

end
