(* ===== verification/Zbase32.thy ===== *)
theory Zbase32
  imports Rln_Prelude
begin

text \<open>
  The z-base-32 text of signed messages (\<open>zbase32_encode\<close> of \<open>src/src/signer/external.rs\<close>): the loop
  over a 16-bit buffer, and that it writes the bits of the data in groups of five.
\<close>

unbundle bit_operations_syntax

definition ZBASE32_ALPHABET :: string where
  "ZBASE32_ALPHABET = ''ybndrfg8ejkmcpqxot1uwisza345h769''"

text \<open>The inner loop: characters for as long as five bits are pending.\<close>

fun zbase32_drain :: "u16 \<Rightarrow> nat \<Rightarrow> string \<times> nat" where
  "zbase32_drain bit_buffer pending_bits =
     (if 5 \<le> pending_bits then
        (let pending_bits = pending_bits - 5;
             alphabet_index = unat (drop_bit pending_bits bit_buffer AND 31)
         in case zbase32_drain bit_buffer pending_bits of
              (out, pending_bits) \<Rightarrow> (ZBASE32_ALPHABET ! alphabet_index # out, pending_bits))
      else ([], pending_bits))"

declare zbase32_drain.simps [simp del]

fun zbase32_loop :: "bytes \<Rightarrow> u16 \<Rightarrow> nat \<Rightarrow> string" where
  "zbase32_loop [] bit_buffer pending_bits =
     (if 0 < pending_bits
      then [ZBASE32_ALPHABET ! unat (push_bit (5 - pending_bits) bit_buffer AND 31)]
      else [])"
| "zbase32_loop (b # data) bit_buffer pending_bits =
     (let bit_buffer = push_bit 8 bit_buffer OR ucast b
      in case zbase32_drain bit_buffer (pending_bits + 8) of
           (out, pending_bits) \<Rightarrow> out @ zbase32_loop data bit_buffer pending_bits)"

definition zbase32_encode :: "bytes \<Rightarrow> string" where
  "zbase32_encode data = zbase32_loop data 0 0"


section \<open>Groups of five bits\<close>

definition bits_val :: "bool list \<Rightarrow> nat" where
  "bits_val = foldl (\<lambda>v b. 2 * v + of_bool b) 0"

fun bits_be :: "nat \<Rightarrow> nat \<Rightarrow> bool list" where
  "bits_be 0 v = []"
| "bits_be (Suc n) v = bits_be n (v div 2) @ [odd v]"

fun groups5 :: "bool list \<Rightarrow> bool list list" where
  "groups5 bs = (if bs = [] then [] else take 5 bs # groups5 (drop 5 bs))"

declare groups5.simps [simp del]

definition pad5 :: "bool list \<Rightarrow> bool list" where
  "pad5 bs = bs @ replicate (5 - length bs) False"

definition data_bits :: "bytes \<Rightarrow> bool list" where
  "data_bits data = concat (map (\<lambda>b. bits_be 8 (unat b)) data)"

definition zbase32_spec :: "bool list \<Rightarrow> string" where
  "zbase32_spec bs = map (\<lambda>g. ZBASE32_ALPHABET ! bits_val (pad5 g)) (groups5 bs)"

lemma length_bits_be [simp]: "length (bits_be n v) = n"
  by (induction n arbitrary: v) auto

lemma bits_val_snoc [simp]: "bits_val (bs @ [b]) = 2 * bits_val bs + of_bool b"
  by (simp add: bits_val_def)

lemma bits_val_Nil [simp]: "bits_val [] = 0"
  by (simp add: bits_val_def)

lemma bits_val_append: "bits_val (xs @ ys) = bits_val xs * 2 ^ length ys + bits_val ys"
proof (induction ys rule: rev_induct)
  case (snoc y ys)
  have "bits_val (xs @ ys @ [y]) = 2 * bits_val (xs @ ys) + of_bool y"
    using bits_val_snoc [of "xs @ ys" y] by simp
  with snoc show ?case by (simp add: algebra_simps)
qed simp

lemma bits_val_bound: "bits_val bs < 2 ^ length bs"
  by (induction bs rule: rev_induct) auto

lemma bits_val_bits_be: "bits_val (bits_be n v) = v mod 2 ^ n"
  by (induction n arbitrary: v) (auto simp: mod_mult2_eq odd_iff_mod_2_eq_one of_bool_odd_eq_mod_2)

lemma bits_val_inj: "length xs = length ys \<Longrightarrow> bits_val xs = bits_val ys \<Longrightarrow> xs = ys"
proof (induction xs arbitrary: ys rule: rev_induct)
  case (snoc x xs)
  then obtain y zs where y: "ys = zs @ [y]" "length zs = length xs"
    by (cases ys rule: rev_cases) auto
  with snoc.prems have "2 * bits_val xs + of_bool x = 2 * bits_val zs + of_bool y" by simp
  then have "x = y" "bits_val xs = bits_val zs"
    by (cases x; cases y; simp; presburger)+
  with snoc.IH [of zs] y show ?case by simp
qed simp

lemma bits_val_take_drop:
  assumes "n \<le> length bs"
  shows "bits_val (take n bs) = bits_val bs div 2 ^ (length bs - n)"
    "bits_val (drop n bs) = bits_val bs mod 2 ^ (length bs - n)"
proof -
  have b: "bits_val bs = bits_val (take n bs) * 2 ^ (length bs - n) + bits_val (drop n bs)"
    using bits_val_append [of "take n bs" "drop n bs"] by simp
  have "bits_val (drop n bs) < 2 ^ (length bs - n)" using bits_val_bound [of "drop n bs"] by simp
  then show "bits_val (take n bs) = bits_val bs div 2 ^ (length bs - n)"
    "bits_val (drop n bs) = bits_val bs mod 2 ^ (length bs - n)"
    by (simp_all add: b)
qed

lemma groups5_take: "5 \<le> length bs \<Longrightarrow> groups5 bs = take 5 bs # groups5 (drop 5 bs)"
  by (subst groups5.simps) auto

lemma groups5_short: "length bs < 5 \<Longrightarrow> groups5 bs = (if bs = [] then [] else [bs])"
  by (subst groups5.simps) (auto simp: groups5.simps [of "[]"])


section \<open>The loop writes the groups\<close>

lemma unat_push_bit_16: "unat (push_bit k (x :: u16)) = (unat x * 2 ^ k) mod 65536"
  unfolding unsigned_push_bit_eq by (simp add: take_bit_eq_mod push_bit_eq_mult)

lemma unat_drop_bit_16: "unat (drop_bit k (x :: u16)) = unat x div 2 ^ k"
  unfolding drop_bit_eq_div by (simp add: unat_drop_bit_eq [symmetric] drop_bit_eq_div [symmetric])

lemma unat_and_31: "unat (x AND 31 :: u16) = unat x mod 32"
proof -
  have "x AND 31 = take_bit 5 x" by (simp add: take_bit_eq_mask mask_eq_exp_minus_1)
  then show ?thesis by (simp add: take_bit_eq_mod unat_mod_distrib)
qed

text \<open>The buffer buffer_holds the pending bits in its low bits.\<close>

definition buffer_holds :: "u16 \<Rightarrow> bool list \<Rightarrow> bool" where
  "buffer_holds buf bs = (unat buf mod 2 ^ length bs = bits_val bs)"

lemma shifted_mod:
  fixes x y m :: nat
  assumes "y < 256" "m dvd 256"
  shows "((x * 256) mod 65536 + y) mod (m * 256) = (x mod m) * 256 + y"
proof -
  define q r where "q = x div m" and "r = x mod m"
  have x: "x = q * m + r" by (simp add: q_def r_def)
  have "0 < m" using assms(2) by (auto intro: Nat.gr0I)
  then have "r < m" by (simp add: r_def)
  have "m * 256 dvd 256 * 256" using assms(2) by (rule mult_dvd_mono) simp
  then have dv: "m * 256 dvd 65536" by simp
  have "((x * 256) mod 65536 + y) mod (m * 256) = ((x * 256) mod 65536 mod (m * 256) + y) mod (m * 256)"
    by (rule mod_add_left_eq [symmetric])
  also have "\<dots> = ((x * 256) mod (m * 256) + y) mod (m * 256)"
    by (simp only: mod_mod_cancel [OF dv])
  also have "\<dots> = (r * 256 + y) mod (m * 256)"
    by (simp only: mod_mult_mult2 r_def)
  also have "\<dots> = r * 256 + y"
  proof (rule mod_less)
    have "(r + 1) * 256 \<le> m * 256" using \<open>r < m\<close> by (intro mult_le_mono1) simp
    with assms(1) show "r * 256 + y < m * 256" by simp
  qed
  finally show ?thesis by (simp only: r_def)
qed

lemma unat_shift_in: "unat (push_bit 8 buf OR ucast (b :: byte) :: u16) = (unat buf * 256) mod 65536 + unat b"
proof -
  have ub: "unat b < 256" using unat_less_exp [of b] by simp
  have "push_bit 8 buf AND (ucast b :: u16) = 0"
    by (rule bit_word_eqI) (auto simp: bit_simps dest: bit_imp_le_length)
  then have "push_bit 8 buf OR (ucast b :: u16) = push_bit 8 buf + ucast b"
    using disjunctive_add_eq_or by metis
  moreover have "unat (push_bit 8 buf) = (unat buf * 256) mod 65536"
    by (simp only: unat_push_bit_16) simp
  moreover have "unat (ucast b :: u16) = unat b"
    using ub by (simp add: unsigned_ucast_eq take_bit_eq_mod)
  moreover have "(unat buf * 256) mod 65536 + unat b < 65536"
  proof -
    have "(unat buf * 256) mod (256 * 256) = (unat buf mod 256) * 256"
      by (rule mod_mult_mult2)
    moreover have "(unat buf mod 256) * 256 \<le> 255 * 256"
      by (rule mult_le_mono1) (use pos_mod_bound [of 256 "int (unat buf)"] in \<open>simp add: less_Suc_eq_le [symmetric]\<close>)
    ultimately have "(unat buf * 256) mod 65536 \<le> 65280" by (simp only: numeral_times_numeral) simp
    with ub show ?thesis by linarith
  qed
  ultimately show ?thesis
    by (simp only: unat_word_ariths(1)) (simp del: unsigned_push_bit_eq)
qed

lemma holds_shift:
  assumes "buffer_holds buf bs" "length bs \<le> 8"
  shows "buffer_holds (push_bit 8 buf OR ucast (b :: byte)) (bs @ bits_be 8 (unat b))"
proof -
  have ub: "unat b < 256" using unat_less_exp [of b] by simp
  have "(2::nat) ^ length bs dvd 2 ^ 8" using assms(2) by (rule le_imp_power_dvd)
  then have "(2::nat) ^ length bs dvd 256" by simp
  from shifted_mod [OF ub this, of "unat buf"]
  have "unat (push_bit 8 buf OR ucast b :: u16) mod (2 ^ length bs * 256) = bits_val bs * 256 + unat b"
    using assms(1) by (simp only: unat_shift_in buffer_holds_def)
  then show ?thesis
    using ub by (simp only: buffer_holds_def bits_val_append bits_val_bits_be length_append length_bits_be power_add) simp
qed

lemma drain_groups:
  assumes "buffer_holds buf bs" "length bs \<le> 16"
  shows "\<exists>out. zbase32_drain buf (length bs) = (out, length bs mod 5)
    \<and> out @ zbase32_spec (drop (5 * (length bs div 5)) bs @ rest) = zbase32_spec (bs @ rest)
    \<and> buffer_holds buf (drop (5 * (length bs div 5)) bs)"
  using assms
proof (induction "length bs" arbitrary: bs rule: less_induct)
  case less
  show ?case
  proof (cases "5 \<le> length bs")
    case True
    define cs where "cs = drop 5 bs"
    have l: "length cs = length bs - 5" "length cs < length bs" using True by (auto simp: cs_def)
    have h: "unat buf mod 2 ^ length bs = bits_val bs" using less.prems(1) by (simp add: buffer_holds_def)
    have p: "(2::nat) ^ length bs = 2 ^ (length bs - 5) * 32"
    proof -
      have "(2::nat) ^ length bs = 2 ^ (length bs - 5 + 5)" using True by simp
      then show ?thesis by (simp only: power_add) simp
    qed
    have v: "unat (drop_bit (length bs - 5) buf AND 31) = bits_val (take 5 bs)"
    proof -
      have "unat (drop_bit (length bs - 5) buf AND 31) = unat buf div 2 ^ (length bs - 5) mod 32"
        by (simp only: unat_and_31 unat_drop_bit_16)
      also have "\<dots> = unat buf mod 2 ^ length bs div 2 ^ (length bs - 5)"
        unfolding p by (simp add: mod_mult2_eq)
      also have "\<dots> = bits_val (take 5 bs)"
        using bits_val_take_drop(1) [OF True] h by simp
      finally show ?thesis .
    qed
    have hc: "buffer_holds buf cs"
    proof -
      have "unat buf mod 2 ^ (length bs - 5) = bits_val bs mod 2 ^ (length bs - 5)"
        using h p by (metis dvd_triv_left mod_mod_cancel)
      then show ?thesis using bits_val_take_drop(2) [OF True] l by (simp add: buffer_holds_def cs_def)
    qed
    from less.hyps [OF l(2) hc] less.prems(2) l obtain out where
      o: "zbase32_drain buf (length cs) = (out, length cs mod 5)"
      "out @ zbase32_spec (drop (5 * (length cs div 5)) cs @ rest) = zbase32_spec (cs @ rest)"
      "buffer_holds buf (drop (5 * (length cs div 5)) cs)" by auto
    have e: "5 * (length bs div 5) = 5 + 5 * (length cs div 5)" "length bs mod 5 = length cs mod 5"
      using True l(1) le_div_geq [of 5 "length bs"] by (simp_all add: le_mod_geq)
    have d: "drop (5 * (length bs div 5)) bs = drop (5 * (length cs div 5)) cs"
      by (simp add: e(1) cs_def add.commute)
    have "zbase32_spec (bs @ rest) = ZBASE32_ALPHABET ! bits_val (take 5 bs) # zbase32_spec (cs @ rest)"
      using True by (simp add: zbase32_spec_def groups5_take pad5_def cs_def)
    with o e(2) d v l True show ?thesis
      by (simp add: zbase32_drain.simps [of buf "length bs"])
  qed (use less.prems in \<open>simp add: zbase32_drain.simps [of buf "length bs"]\<close>)
qed

lemma loop_groups:
  "buffer_holds buf bs \<Longrightarrow> length bs < 5 \<Longrightarrow> zbase32_loop data buf (length bs) = zbase32_spec (bs @ data_bits data)"
proof (induction data arbitrary: buf bs)
  case Nil
  show ?case
  proof (cases "bs = []")
    case False
    let ?k = "5 - length bs"
    have "unat (push_bit ?k buf AND 31) = bits_val (pad5 bs)"
    proof -
      have "unat (push_bit ?k buf AND 31) = (unat buf * 2 ^ ?k) mod 65536 mod 32"
        by (simp only: unat_and_31 unat_push_bit_16)
      also have "\<dots> = (unat buf * 2 ^ ?k) mod 32" by (simp add: mod_mod_cancel)
      also have "\<dots> = (unat buf * 2 ^ ?k) mod (2 ^ length bs * 2 ^ ?k)"
        using Nil.prems(2) by (simp flip: power_add)
      also have "\<dots> = (unat buf mod 2 ^ length bs) * 2 ^ ?k"
        by (simp add: mod_mult_mult2)
      also have "\<dots> = bits_val (pad5 bs)"
      proof -
        have "bits_val (replicate n False) = 0" for n
          by (induction n) (simp_all add: replicate_append_same [symmetric] del: replicate_append_same)
        then show ?thesis
          using Nil.prems(1) by (simp add: buffer_holds_def pad5_def bits_val_append)
      qed
      finally show ?thesis .
    qed
    then show ?thesis
      using Nil.prems(2) False by (simp add: zbase32_spec_def groups5_short data_bits_def)
  qed (simp add: zbase32_spec_def groups5_short data_bits_def)
next
  case (Cons b data)
  let ?buf = "push_bit 8 buf OR ucast b" and ?bs = "bs @ bits_be 8 (unat b)"
  have "buffer_holds ?buf ?bs" using holds_shift [OF Cons.prems(1)] Cons.prems(2) by simp
  from drain_groups [OF this, of "data_bits data"] Cons.prems(2) obtain out where
    o: "zbase32_drain ?buf (length bs + 8) = (out, (length bs + 8) mod 5)"
    "out @ zbase32_spec (drop (5 * ((length bs + 8) div 5)) ?bs @ data_bits data) = zbase32_spec (?bs @ data_bits data)"
    "buffer_holds ?buf (drop (5 * ((length bs + 8) div 5)) ?bs)" by auto
  have l: "length (drop (5 * ((length bs + 8) div 5)) ?bs) = (length bs + 8) mod 5"
    using minus_mult_div_eq_mod [of "length bs + 8" 5] by (simp add: add.commute)
  have "zbase32_loop data ?buf ((length bs + 8) mod 5)
      = zbase32_spec (drop (5 * ((length bs + 8) div 5)) ?bs @ data_bits data)"
    using Cons.IH [OF o(3)] l by simp
  with o show ?case by (simp add: data_bits_def Let_def)
qed

lemma zbase32_encode_spec: "zbase32_encode data = zbase32_spec (data_bits data)"
  using loop_groups [of 0 "[]" data] by (simp add: zbase32_encode_def buffer_holds_def)


section \<open>The text determines the data\<close>

lemma alphabet_inj: "i < 32 \<Longrightarrow> j < 32 \<Longrightarrow> ZBASE32_ALPHABET ! i = ZBASE32_ALPHABET ! j \<Longrightarrow> i = j"
proof -
  have "distinct ZBASE32_ALPHABET" "length ZBASE32_ALPHABET = 32"
    by (simp_all add: ZBASE32_ALPHABET_def)
  then show "i < 32 \<Longrightarrow> j < 32 \<Longrightarrow> ZBASE32_ALPHABET ! i = ZBASE32_ALPHABET ! j \<Longrightarrow> i = j"
    by (simp add: nth_eq_iff_index_eq)
qed

lemma zbase32_spec_inj: "length xs = length ys \<Longrightarrow> zbase32_spec xs = zbase32_spec ys \<Longrightarrow> xs = ys"
proof (induction xs arbitrary: ys rule: groups5.induct)
  case (1 xs)
  show ?case
  proof (cases "xs = []")
    case False
    with 1(2) have ys: "ys \<noteq> []" by auto
    let ?g = "\<lambda>g. ZBASE32_ALPHABET ! bits_val (pad5 g)"
    have e: "?g (take 5 xs) = ?g (take 5 ys)" "zbase32_spec (drop 5 xs) = zbase32_spec (drop 5 ys)"
      using 1(3) False ys by (simp_all add: zbase32_spec_def groups5.simps [of xs] groups5.simps [of ys])
    have "bits_val (pad5 (take 5 zs)) < 32" for zs
      using bits_val_bound [of "pad5 (take 5 zs)"] by (simp add: pad5_def)
    with alphabet_inj e(1) have "bits_val (pad5 (take 5 xs)) = bits_val (pad5 (take 5 ys))" by blast
    then have "pad5 (take 5 xs) = pad5 (take 5 ys)"
      using 1(2) by (intro bits_val_inj) (simp_all add: pad5_def)
    then have "take 5 xs = take 5 ys" using 1(2) by (simp add: pad5_def)
    moreover have "drop 5 xs = drop 5 ys"
      using 1(1) [OF False _ e(2)] 1(2) by simp
    ultimately show ?thesis by (metis append_take_drop_id)
  qed (use 1(2) in simp)
qed

lemma data_bits_inj: "length xs = length ys \<Longrightarrow> data_bits xs = data_bits ys \<Longrightarrow> xs = ys"
proof (induction xs ys rule: list_induct2)
  case (Cons x xs y ys)
  then have "bits_be 8 (unat x) = bits_be 8 (unat y)" "data_bits xs = data_bits ys"
    by (simp_all add: data_bits_def)
  moreover from this have "unat x mod 256 = unat y mod 256"
    using bits_val_bits_be [of 8 "unat x"] bits_val_bits_be [of 8 "unat y"] by simp
  then have "x = y"
    using unat_less_exp [of x] unat_less_exp [of y] by (simp add: word_unat_eq_iff)
  ultimately show ?case using Cons.IH by simp
qed simp

lemma length_data_bits [simp]: "length (data_bits data) = 8 * length data"
  by (induction data) (simp_all add: data_bits_def)

lemma zbase32_encode_inj: "length xs = length ys \<Longrightarrow> zbase32_encode xs = zbase32_encode ys \<Longrightarrow> xs = ys"
  unfolding zbase32_encode_spec by (rule data_bits_inj) (auto intro: zbase32_spec_inj)

end
