(* ===== verification/External_Signer.thy ===== *)
theory External_Signer
  imports Channel_Signer Zbase32
begin

text \<open>
  The signer LDK sees in external signer mode (\<open>ExternalSigner\<close> of \<open>src/src/signer/external.rs\<close>): each
  operation asks the adapter and takes the hexadecimal answer apart. An operation returns, reports
  an error, or panics. Keys, signatures, scripts and transactions are bytes or text, with the parsers
  of the \<open>bitcoin\<close> crates as arguments.
\<close>

datatype 'a outcome = Returns 'a | Errs | Panics

type_synonym ('s, 'a) signer_op = "'s \<Rightarrow> 'a outcome \<times> 's"

record 's external_signer =
  es_adapter :: "'s adapter"
  es_to_hex :: "bytes \<Rightarrow> string"
  es_from_hex :: "string \<Rightarrow> bytes option"
  es_sig_from_der :: "bytes \<Rightarrow> bytes option"
  es_sig_from_compact :: "bytes \<Rightarrow> bytes option"
  es_key_from_slice :: "bytes \<Rightarrow> bytes option"
  es_schnorr_from_slice :: "bytes \<Rightarrow> bytes option"
  es_recoverable_from_compact :: "bytes \<Rightarrow> nat \<Rightarrow> bytes option"
  es_shutdown_script :: "bytes \<Rightarrow> bytes option"
  es_psbt_from_str :: "string \<Rightarrow> string option"

text \<open>\<open>RecoveryId::from_i32\<close> takes 0 to 3.\<close>

definition recovery_id_ok :: "byte \<Rightarrow> bool" where
  "recovery_id_ok r = (unat r \<le> 3)"

definition ln_signed_message_from_compact ::
  "(string \<Rightarrow> bytes option) \<Rightarrow> string \<Rightarrow> byte \<Rightarrow> string option" where
  "ln_signed_message_from_compact from_hex signature_hex recovery_id =
     (if \<not> recovery_id_ok recovery_id then None
      else case from_hex signature_hex of
             None \<Rightarrow> None
           | Some compact_signature \<Rightarrow>
               if length compact_signature \<noteq> 64 then None
               else Some (zbase32_encode ((31 + recovery_id) # compact_signature)))"

text \<open>The answer of the adapter, taken further where it is one; a failure is an error or a panic.\<close>

definition or_err :: "('s, 'a) signing \<Rightarrow> ('a \<Rightarrow> 'b outcome) \<Rightarrow> ('s, 'b) signer_op" where
  "or_err act f s = (case act s of (Inl _, s) \<Rightarrow> (Errs, s) | (Inr x, s) \<Rightarrow> (f x, s))"

definition or_panic :: "('s, 'a) signing \<Rightarrow> ('a \<Rightarrow> 'b outcome) \<Rightarrow> ('s, 'b) signer_op" where
  "or_panic act f s = (case act s of (Inl _, s) \<Rightarrow> (Panics, s) | (Inr x, s) \<Rightarrow> (f x, s))"

definition some_or_err :: "'a option \<Rightarrow> ('a \<Rightarrow> 'b outcome) \<Rightarrow> 'b outcome" where
  "some_or_err x f = (case x of None \<Rightarrow> Errs | Some y \<Rightarrow> f y)"

definition some_or_panic :: "'a option \<Rightarrow> ('a \<Rightarrow> 'b outcome) \<Rightarrow> 'b outcome" where
  "some_or_panic x f = (case x of None \<Rightarrow> Panics | Some y \<Rightarrow> f y)"

definition of_length :: "nat \<Rightarrow> bytes \<Rightarrow> bytes option" where
  "of_length n b = (if length b = n then Some b else None)"

datatype recipient = RecipientNode | PhantomNode

definition recipient_label :: "recipient \<Rightarrow> string" where
  "recipient_label r = (case r of RecipientNode \<Rightarrow> ''node'' | PhantomNode \<Rightarrow> ''phantom'')"


section \<open>Offers, payments and storage\<close>

definition es_get_expanded_key :: "('s, bytes) signer_op" where
  "es_get_expanded_key s = (Panics, s)"

definition es_get_peer_storage_key :: "('s, bytes) signer_op" where
  "es_get_peer_storage_key s = (Panics, s)"

definition es_get_receive_auth_key :: "('s, bytes) signer_op" where
  "es_get_receive_auth_key s = (Panics, s)"

definition es_crypt_for_offer :: "'s external_signer \<Rightarrow> bytes \<Rightarrow> bytes \<Rightarrow> ('s, bytes) signer_op" where
  "es_crypt_for_offer x payment_id nonce =
     or_panic (adapter_node_crypt_for_offer (es_adapter x) (es_to_hex x payment_id) (es_to_hex x nonce))
       (\<lambda>bytes_hex. some_or_panic (es_from_hex x bytes_hex) (\<lambda>b. some_or_panic (of_length 32 b) Returns))"

text \<open>The key of the HMAC engine.\<close>

definition es_hmac_for_offer :: "'s external_signer \<Rightarrow> ('s, bytes) signer_op" where
  "es_hmac_for_offer x =
     or_panic (adapter_node_get_hmac_for_offer_key (es_adapter x))
       (\<lambda>key_hex. some_or_panic (es_from_hex x key_hex) Returns)"

definition es_create_inbound_payment ::
  "'s external_signer \<Rightarrow> u64 option \<Rightarrow> u32 \<Rightarrow> bytes \<Rightarrow> u64 \<Rightarrow> u16 option \<Rightarrow> ('s, bytes \<times> bytes) signer_op" where
  "es_create_inbound_payment x min_value expiry random_bytes current_time min_final_cltv =
     or_err (adapter_node_create_inbound_payment (es_adapter x) min_value expiry (es_to_hex x random_bytes)
               current_time min_final_cltv)
       (\<lambda>(payment_hash_hex, payment_secret_hex).
          some_or_err (es_from_hex x payment_hash_hex) (\<lambda>payment_hash.
          some_or_err (es_from_hex x payment_secret_hex) (\<lambda>payment_secret.
          some_or_err (of_length 32 payment_hash) (\<lambda>payment_hash.
          some_or_err (of_length 32 payment_secret) (\<lambda>payment_secret.
            Returns (payment_hash, payment_secret))))))"

definition es_create_inbound_payment_for_hash ::
  "'s external_signer \<Rightarrow> bytes \<Rightarrow> u64 option \<Rightarrow> u32 \<Rightarrow> u64 \<Rightarrow> u16 option \<Rightarrow> ('s, bytes) signer_op" where
  "es_create_inbound_payment_for_hash x payment_hash min_value expiry current_time min_final_cltv =
     or_err (adapter_node_create_inbound_payment_for_hash (es_adapter x) (es_to_hex x payment_hash)
               min_value expiry current_time min_final_cltv)
       (\<lambda>secret_hex. some_or_err (es_from_hex x secret_hex) (\<lambda>b. some_or_err (of_length 32 b) Returns))"

definition es_create_spontaneous_payment_secret ::
  "'s external_signer \<Rightarrow> u64 option \<Rightarrow> u32 \<Rightarrow> u64 \<Rightarrow> u16 option \<Rightarrow> ('s, bytes) signer_op" where
  "es_create_spontaneous_payment_secret x min_value expiry current_time min_final_cltv =
     or_err (adapter_node_create_spontaneous_payment_secret (es_adapter x) min_value expiry current_time
               min_final_cltv)
       (\<lambda>secret_hex. some_or_err (es_from_hex x secret_hex) (\<lambda>b. some_or_err (of_length 32 b) Returns))"

definition es_verify_inbound_payment ::
  "'s external_signer \<Rightarrow> bytes \<Rightarrow> bytes \<Rightarrow> u64 \<Rightarrow> u64 \<Rightarrow> ('s, bytes option \<times> u16 option) signer_op" where
  "es_verify_inbound_payment x payment_hash payment_secret total_msat highest_seen_timestamp =
     or_err (adapter_node_verify_inbound_payment (es_adapter x) (es_to_hex x payment_hash)
               (es_to_hex x payment_secret) total_msat highest_seen_timestamp)
       (\<lambda>(preimage_hex, min_final_cltv).
          case preimage_hex of
            Some hex \<Rightarrow>
              some_or_err (es_from_hex x hex) (\<lambda>b.
              some_or_err (of_length 32 b) (\<lambda>preimage. Returns (Some preimage, min_final_cltv)))
          | None \<Rightarrow> Returns (None, min_final_cltv))"

definition es_get_payment_preimage :: "'s external_signer \<Rightarrow> bytes \<Rightarrow> bytes \<Rightarrow> ('s, bytes) signer_op" where
  "es_get_payment_preimage x payment_hash payment_secret =
     or_err (adapter_node_get_payment_preimage (es_adapter x) (es_to_hex x payment_hash) (es_to_hex x payment_secret))
       (\<lambda>preimage_hex. some_or_err (es_from_hex x preimage_hex) (\<lambda>b. some_or_err (of_length 32 b) Returns))"

definition es_encrypt_peer_storage_payload ::
  "'s external_signer \<Rightarrow> bytes \<Rightarrow> bytes \<Rightarrow> ('s, bytes) signer_op" where
  "es_encrypt_peer_storage_payload x plaintext random_bytes =
     or_panic (adapter_node_encrypt_peer_storage_payload (es_adapter x) (es_to_hex x plaintext)
                 (es_to_hex x random_bytes))
       (\<lambda>bytes_hex. some_or_panic (es_from_hex x bytes_hex) Returns)"

definition es_decrypt_peer_storage_payload :: "'s external_signer \<Rightarrow> bytes \<Rightarrow> ('s, bytes) signer_op" where
  "es_decrypt_peer_storage_payload x ciphertext =
     or_err (adapter_node_decrypt_peer_storage_payload (es_adapter x) (es_to_hex x ciphertext))
       (\<lambda>bytes_hex. some_or_err (es_from_hex x bytes_hex) Returns)"

definition es_encrypt_blinded_message_payload ::
  "'s external_signer \<Rightarrow> bytes \<Rightarrow> bytes \<Rightarrow> ('s, bytes) signer_op" where
  "es_encrypt_blinded_message_payload x plaintext rho =
     or_panic (adapter_node_encrypt_blinded_message_payload (es_adapter x) (es_to_hex x plaintext) (es_to_hex x rho))
       (\<lambda>bytes_hex. some_or_panic (es_from_hex x bytes_hex) Returns)"

definition es_decrypt_blinded_message_payload ::
  "'s external_signer \<Rightarrow> bytes \<Rightarrow> bytes \<Rightarrow> ('s, bytes \<times> bool) signer_op" where
  "es_decrypt_blinded_message_payload x ciphertext rho =
     or_err (adapter_node_decrypt_blinded_message_payload (es_adapter x) (es_to_hex x ciphertext) (es_to_hex x rho))
       (\<lambda>(bytes_hex, used_aad). some_or_err (es_from_hex x bytes_hex) (\<lambda>b. Returns (b, used_aad)))"


section \<open>Node keys and signatures\<close>

definition es_get_node_id :: "'s external_signer \<Rightarrow> recipient \<Rightarrow> ('s, bytes) signer_op" where
  "es_get_node_id x r =
     or_err (adapter_node_get_node_id (es_adapter x) (recipient_label r))
       (\<lambda>node_id_hex. some_or_err (es_from_hex x node_id_hex) (\<lambda>b. some_or_err (es_key_from_slice x b) Returns))"

definition es_ecdh :: "'s external_signer \<Rightarrow> recipient \<Rightarrow> bytes \<Rightarrow> bytes option \<Rightarrow> ('s, bytes) signer_op" where
  "es_ecdh x r other_key tweak =
     or_err (adapter_call (es_adapter x) (SignerRequest_Node
               (NodeRequest_Ecdh (recipient_label r) (es_to_hex x other_key) (map_option (es_to_hex x) tweak))))
       (\<lambda>response. case response of
            SignerResponse_Node (NodeResponse_Ecdh shared_secret_hex) \<Rightarrow>
              some_or_err (es_from_hex x shared_secret_hex) (\<lambda>b. some_or_err (of_length 32 b) Returns)
          | _ \<Rightarrow> Errs)"

text \<open>An invoice is given by its human-readable part and its data in groups of five bits.\<close>

definition es_sign_invoice :: "'s external_signer \<Rightarrow> string \<Rightarrow> bytes \<Rightarrow> ('s, bytes) signer_op" where
  "es_sign_invoice x hrp u5bytes =
     or_err (adapter_call (es_adapter x) (SignerRequest_Node (NodeRequest_SignInvoice hrp (es_to_hex x u5bytes))))
       (\<lambda>response. case response of
            SignerResponse_Node (NodeResponse_RecoverableSignature signature_hex recovery_id) \<Rightarrow>
              some_or_err (es_from_hex x signature_hex) (\<lambda>b.
              some_or_err (of_length 64 b) (\<lambda>sig.
                if recovery_id_ok recovery_id
                then some_or_err (es_recoverable_from_compact x sig (unat recovery_id)) Returns
                else Errs))
          | _ \<Rightarrow> Errs)"

definition es_sign_bolt12_invoice :: "'s external_signer \<Rightarrow> bytes \<Rightarrow> ('s, bytes) signer_op" where
  "es_sign_bolt12_invoice x invoice =
     or_err (adapter_call (es_adapter x) (SignerRequest_Node (NodeRequest_SignBolt12Invoice (es_to_hex x invoice))))
       (\<lambda>response. case response of
            SignerResponse_Node (NodeResponse_Signature signature_hex) \<Rightarrow>
              some_or_err (es_from_hex x signature_hex) (\<lambda>b. some_or_err (es_schnorr_from_slice x b) Returns)
          | _ \<Rightarrow> Errs)"

definition es_parse_signature :: "'s external_signer \<Rightarrow> string \<Rightarrow> bytes option" where
  "es_parse_signature x signature_hex =
     (case es_from_hex x signature_hex of
        None \<Rightarrow> None
      | Some bytes \<Rightarrow>
          (case es_sig_from_der x bytes of Some sig \<Rightarrow> Some sig | None \<Rightarrow> es_sig_from_compact x bytes))"

definition es_sign_gossip_message :: "'s external_signer \<Rightarrow> bytes \<Rightarrow> ('s, bytes) signer_op" where
  "es_sign_gossip_message x msg =
     or_err (adapter_call (es_adapter x) (SignerRequest_Node (NodeRequest_SignGossipMessage (es_to_hex x msg))))
       (\<lambda>response. case response of
            SignerResponse_Node (NodeResponse_Signature signature_hex) \<Rightarrow>
              some_or_err (es_parse_signature x signature_hex) Returns
          | _ \<Rightarrow> Errs)"

definition es_sign_message :: "'s external_signer \<Rightarrow> bytes \<Rightarrow> ('s, string) signer_op" where
  "es_sign_message x msg =
     or_err (adapter_call (es_adapter x) (SignerRequest_Node (NodeRequest_SignMessageRaw (es_to_hex x msg))))
       (\<lambda>response. case response of
            SignerResponse_Node (NodeResponse_RecoverableSignature signature_hex recovery_id) \<Rightarrow>
              some_or_err (ln_signed_message_from_compact (es_from_hex x) signature_hex recovery_id) Returns
          | _ \<Rightarrow> Errs)"


section \<open>Channels and outputs\<close>

definition es_generate_channel_keys_id :: "'s external_signer \<Rightarrow> bool \<Rightarrow> u128 \<Rightarrow> ('s, bytes) signer_op" where
  "es_generate_channel_keys_id x inbound user_channel_id =
     or_panic (adapter_generate_channel_keys_id (es_adapter x) inbound 0 user_channel_id)
       (\<lambda>keys_hex. some_or_panic (es_from_hex x keys_hex)
          (\<lambda>b. if length b < 32 then Panics else Returns (take 32 b)))"

definition es_channel_signer :: "'s external_signer \<Rightarrow> string \<Rightarrow> channel_public_keys \<Rightarrow> 's channel_signer" where
  "es_channel_signer x keys_id_hex keys =
     \<lparr>cg_call = adapter_call (es_adapter x), cg_debug = ad_debug (es_adapter x), cg_keys_id_hex = keys_id_hex,
      cg_pubkeys = keys, cg_to_hex = es_to_hex x, cg_from_hex = es_from_hex x,
      cg_sig_from_der = es_sig_from_der x, cg_sig_from_compact = es_sig_from_compact x,
      cg_key_from_slice = es_key_from_slice x\<rparr>"

definition es_derive_channel_signer :: "'s external_signer \<Rightarrow> bytes \<Rightarrow> ('s, 's channel_signer) signer_op" where
  "es_derive_channel_signer x keys_id =
     or_panic (adapter_derive_channel_signer (es_adapter x) 0 (es_to_hex x keys_id))
       (\<lambda>(state_hex, keys). Returns (es_channel_signer x (es_to_hex x keys_id) keys))"

definition es_get_destination_script :: "'s external_signer \<Rightarrow> bytes \<Rightarrow> ('s, bytes) signer_op" where
  "es_get_destination_script x keys_id =
     or_err (adapter_node_get_destination_script (es_adapter x) (es_to_hex x keys_id))
       (\<lambda>script_hex. some_or_err (es_from_hex x script_hex) Returns)"

definition es_get_shutdown_scriptpubkey :: "'s external_signer \<Rightarrow> ('s, bytes) signer_op" where
  "es_get_shutdown_scriptpubkey x =
     or_err (adapter_node_get_shutdown_scriptpubkey (es_adapter x))
       (\<lambda>script_hex. some_or_err (es_from_hex x script_hex) (\<lambda>b. some_or_err (es_shutdown_script x b) Returns))"

definition MAX_DERIVATION_SEARCH_INDEX :: u32 where
  "MAX_DERIVATION_SEARCH_INDEX = 10000"

definition find_derivation_match_for_script ::
  "'s external_signer \<Rightarrow> string \<Rightarrow> ('s, derived_address_match option) signer_op" where
  "find_derivation_match_for_script x script_pubkey_hex =
     or_err (adapter_find_derivation_matches_for_script (es_adapter x) script_pubkey_hex MAX_DERIVATION_SEARCH_INDEX)
       (\<lambda>matches. Returns (case matches of [] \<Rightarrow> None | m # _ \<Rightarrow> Some m))"

text \<open>What is read of LDK's spendable outputs: the txid as text, the index, the value, the script, and
  the keys of the channel (with the point and the delay for a delayed payment).\<close>

datatype spendable_output =
    SpendableStatic string u16 u64 bytes "bytes option"
  | SpendableDelayedPayment string u16 u64 bytes bytes bytes u16
  | SpendableStaticPayment string u16 u64 bytes bytes

fun derivation_match :: "derived_address_match \<Rightarrow> wallet_derivation_match" where
  "derivation_match (DerivedAddressMatch keyindex address derivation_path account_name) =
     WalletDerivationMatch account_name keyindex derivation_path"

fun spendable_descriptor_to_input ::
  "'s external_signer \<Rightarrow> spendable_output \<Rightarrow> ('s, spendable_output_sign_input) signer_op" where
  "spendable_descriptor_to_input x (SpendableStatic txid vout amount script keys_id) s =
     (case find_derivation_match_for_script x (es_to_hex x script) s of
        (Returns m, s) \<Rightarrow>
          (Returns (SpendableOutputSignInput StaticOutput txid (ucast vout) amount (es_to_hex x script)
             (map_option (es_to_hex x) keys_id) (map_option derivation_match m) None None None None), s)
      | (Errs, s) \<Rightarrow> (Errs, s)
      | (Panics, s) \<Rightarrow> (Panics, s))"
| "spendable_descriptor_to_input x (SpendableDelayedPayment txid vout amount script keys_id point delay) s =
     (Returns (SpendableOutputSignInput DelayedPaymentOutput txid (ucast vout) amount (es_to_hex x script)
        (Some (es_to_hex x keys_id)) None None None (Some (es_to_hex x point)) (Some delay)), s)"
| "spendable_descriptor_to_input x (SpendableStaticPayment txid vout amount script keys_id) s =
     (Returns (SpendableOutputSignInput StaticPaymentOutput txid (ucast vout) amount (es_to_hex x script)
        (Some (es_to_hex x keys_id)) None None None None None), s)"

fun descriptor_inputs ::
  "'s external_signer \<Rightarrow> spendable_output list \<Rightarrow> ('s, spendable_output_sign_input list) signer_op" where
  "descriptor_inputs x [] s = (Returns [], s)"
| "descriptor_inputs x (d # ds) s =
     (case spendable_descriptor_to_input x d s of
        (Returns i, s) \<Rightarrow>
          (case descriptor_inputs x ds s of
             (Returns is, s) \<Rightarrow> (Returns (i # is), s)
           | (r, s) \<Rightarrow> (r, s))
      | (Errs, s) \<Rightarrow> (Errs, s)
      | (Panics, s) \<Rightarrow> (Panics, s))"

definition es_sign_spendable_outputs_psbt ::
  "'s external_signer \<Rightarrow> spendable_output list \<Rightarrow> string \<Rightarrow> ('s, string) signer_op" where
  "es_sign_spendable_outputs_psbt x descriptors psbt s =
     (case descriptor_inputs x descriptors s of
        (Returns inputs, s) \<Rightarrow>
          or_err (adapter_sign_spendable_outputs_psbt (es_adapter x) inputs psbt)
            (\<lambda>out. some_or_err (es_psbt_from_str x out) Returns) s
      | (Errs, s) \<Rightarrow> (Errs, s)
      | (Panics, s) \<Rightarrow> (Panics, s))"

text \<open>The unsigned transaction LDK makes of the outputs and the extraction of the signed one (where a
  missing input value is let through) are arguments.\<close>

definition es_spend_spendable_outputs ::
  "'s external_signer \<Rightarrow> (spendable_output list \<Rightarrow> string option) \<Rightarrow> (string \<Rightarrow> bytes option)
     \<Rightarrow> spendable_output list \<Rightarrow> ('s, bytes) signer_op" where
  "es_spend_spendable_outputs x create_psbt extract_tx descriptors s =
     (case create_psbt descriptors of
        None \<Rightarrow> (Errs, s)
      | Some psbt \<Rightarrow>
          (case es_sign_spendable_outputs_psbt x descriptors psbt s of
             (Returns psbt', s) \<Rightarrow> (some_or_err (extract_tx psbt') Returns, s)
           | (Errs, s) \<Rightarrow> (Errs, s)
           | (Panics, s) \<Rightarrow> (Panics, s)))"

end
