(* ===== verification/External_Signer_Props.thy ===== *)
theory External_Signer_Props
  imports External_Signer
begin

text \<open>
  What LDK gets of the external signer: which calls survive a link that is down, and signed messages
  that carry the recovery id and the signature.
\<close>

text \<open>A link over which no call succeeds.\<close>

definition link_down :: "'s adapter \<Rightarrow> bool" where
  "link_down a = (\<forall>w s. \<exists>e s'. ad_transport a w s = (Inl e, s'))"

lemma link_down_call:
  assumes "link_down a"
  shows "\<exists>e s'. adapter_call a r s = (Inl e, s')"
proof (cases "encode_signer_request (ad_prost a) r")
  case (Inr w)
  from assms obtain e s' where "ad_transport a w s = (Inl e, s')" unfolding link_down_def by blast
  with Inr show ?thesis by (simp add: adapter_call_def)
qed (simp add: adapter_call_def)

lemma link_down_expecting: "link_down a \<Longrightarrow> \<exists>e s'. expecting a what pick r s = (Inl e, s')"
  using link_down_call [of a r s] by (auto simp: expecting_def)

lemma link_down_outcomes:
  assumes "link_down a"
  shows "fst (or_panic (expecting a what pick r) f s) = Panics"
    "fst (or_err (expecting a what pick r) f s) = Errs"
    "fst (or_err (adapter_call a r) g s) = Errs"
  using link_down_expecting [OF assms, of what pick r s] link_down_call [OF assms, of r s]
  by (auto simp: or_panic_def or_err_def)

lemmas adapter_ops = adapter_bootstrap_def adapter_node_get_node_id_def adapter_node_get_destination_script_def
  adapter_node_get_shutdown_scriptpubkey_def adapter_node_encrypt_peer_storage_payload_def
  adapter_node_decrypt_peer_storage_payload_def adapter_node_encrypt_blinded_message_payload_def
  adapter_node_decrypt_blinded_message_payload_def adapter_node_get_hmac_for_offer_key_def
  adapter_node_crypt_for_offer_def adapter_node_create_inbound_payment_def
  adapter_node_create_inbound_payment_for_hash_def adapter_node_create_spontaneous_payment_secret_def
  adapter_node_verify_inbound_payment_def adapter_node_get_payment_preimage_def
  adapter_generate_channel_keys_id_def adapter_derive_channel_signer_def
  adapter_find_derivation_matches_for_script_def adapter_sign_spendable_outputs_psbt_def

text \<open>While the link to the signer is down, opening a channel, an offer, stored data for a peer or
  a message over a blinded path takes the calling task of the node down with it: the keys of a channel,
  its signer, the encryption for offers and their HMAC, and the encryption of peer storage and of blinded
  messages panic. The signatures, scripts, payment secrets and preimages report an error.\<close>

theorem link_down_panics:
  assumes "link_down (es_adapter x)"
  shows "fst (es_generate_channel_keys_id x inbound ucid s) = Panics
    \<and> fst (es_derive_channel_signer x keys_id s) = Panics
    \<and> fst (es_crypt_for_offer x payment_id nonce s) = Panics
    \<and> fst (es_hmac_for_offer x s) = Panics
    \<and> fst (es_encrypt_peer_storage_payload x plaintext rand s) = Panics
    \<and> fst (es_encrypt_blinded_message_payload x plaintext rho s) = Panics
    \<and> fst (es_create_inbound_payment x mv ex rand t cltv s) = Errs
    \<and> fst (es_create_inbound_payment_for_hash x ph mv ex t cltv s) = Errs
    \<and> fst (es_create_spontaneous_payment_secret x mv ex t cltv s) = Errs
    \<and> fst (es_verify_inbound_payment x ph ps msat ts s) = Errs
    \<and> fst (es_get_payment_preimage x ph ps s) = Errs
    \<and> fst (es_decrypt_peer_storage_payload x ciphertext s) = Errs
    \<and> fst (es_decrypt_blinded_message_payload x ciphertext rho s) = Errs
    \<and> fst (es_get_node_id x rc s) = Errs
    \<and> fst (es_ecdh x rc key tweak s) = Errs
    \<and> fst (es_sign_invoice x hrp u5 s) = Errs
    \<and> fst (es_sign_bolt12_invoice x invoice s) = Errs
    \<and> fst (es_sign_gossip_message x msg s) = Errs
    \<and> fst (es_sign_message x msg s) = Errs
    \<and> fst (es_get_destination_script x keys_id s) = Errs
    \<and> fst (es_get_shutdown_scriptpubkey x s) = Errs"
  unfolding es_generate_channel_keys_id_def es_derive_channel_signer_def es_crypt_for_offer_def
    es_hmac_for_offer_def es_encrypt_peer_storage_payload_def es_encrypt_blinded_message_payload_def
    es_create_inbound_payment_def es_create_inbound_payment_for_hash_def
    es_create_spontaneous_payment_secret_def es_verify_inbound_payment_def es_get_payment_preimage_def
    es_decrypt_peer_storage_payload_def es_decrypt_blinded_message_payload_def es_get_node_id_def
    es_ecdh_def es_sign_invoice_def es_sign_bolt12_invoice_def es_sign_gossip_message_def
    es_sign_message_def es_get_destination_script_def es_get_shutdown_scriptpubkey_def adapter_ops
  by (intro conjI link_down_outcomes [OF assms])

definition dead_adapter :: "unit adapter" where
  "dead_adapter =
     \<lparr>ad_prost = \<lparr>pr_envelope = (\<lambda>_. Inr [], \<lambda>_. Inl []), pr_request = (\<lambda>_. Inr [], \<lambda>_. Inl []),
        pr_response = (\<lambda>_. Inr [], \<lambda>_. Inl [])\<rparr>,
      ad_transport = \<lambda>w s. (Inl (Transport Unavailable), s), ad_debug = \<lambda>_. []\<rparr>"

definition dead_signer :: "unit external_signer" where
  "dead_signer =
     \<lparr>es_adapter = dead_adapter, es_to_hex = from_bytes, es_from_hex = Some \<circ> as_bytes,
      es_sig_from_der = Some, es_sig_from_compact = Some, es_key_from_slice = Some,
      es_schnorr_from_slice = Some, es_recoverable_from_compact = \<lambda>b _. Some b,
      es_shutdown_script = Some, es_psbt_from_str = Some\<rparr>"

theorem link_down_panics_witness:
  "fst (es_generate_channel_keys_id dead_signer True 7 ()) = Panics
   \<and> fst (es_sign_message dead_signer [1, 2] ()) = Errs"
proof -
  have "link_down (es_adapter dead_signer)"
    by (simp add: link_down_def dead_signer_def dead_adapter_def)
  from link_down_panics [OF this, where inbound = True and ucid = 7 and msg = "[1, 2]" and s = "()"]
  show ?thesis by simp
qed


section \<open>Signed messages\<close>

text \<open>C32. A signed message carries the signature. The loop that writes z-base-32 writes the bits of
  the data in groups of five, from the highest. So where the signer answers with a recovery id up to 3
  and a signature of 64 bytes, the node returns a text of 104 characters, and answers with the same
  text come only from the same recovery id and signature.\<close>

theorem signed_message_exact:
  "zbase32_encode data = zbase32_spec (data_bits data)
   \<and> (ln_signed_message_from_compact from_hex sig rid = Some t \<longrightarrow>
        recovery_id_ok rid \<and> length t = 104
      \<and> (\<forall>sig' rid'. ln_signed_message_from_compact from_hex sig' rid' = Some t \<longrightarrow>
           rid' = rid \<and> from_hex sig' = from_hex sig))"
proof (intro conjI impI allI)
  show "zbase32_encode data = zbase32_spec (data_bits data)" by (rule zbase32_encode_spec)
next
  assume a: "ln_signed_message_from_compact from_hex sig rid = Some t"
  then obtain b where b: "recovery_id_ok rid" "from_hex sig = Some b" "length b = 64"
    "t = zbase32_encode ((31 + rid) # b)"
    by (auto simp: ln_signed_message_from_compact_def split: if_splits option.splits)
  show "recovery_id_ok rid" by (rule b(1))
  have "length (groups5 bs) = n" if "length bs = 5 * n" for bs n
    using that
  proof (induction n arbitrary: bs)
    case (Suc n)
    then show ?case by (subst groups5_take) simp_all
  qed (simp add: groups5_short)
  then show "length t = 104"
    using b(3,4) by (simp add: zbase32_encode_spec zbase32_spec_def)
  fix sig' rid'
  assume "ln_signed_message_from_compact from_hex sig' rid' = Some t"
  then obtain b' where b': "from_hex sig' = Some b'" "length b' = 64"
    "t = zbase32_encode ((31 + rid') # b')"
    by (auto simp: ln_signed_message_from_compact_def split: if_splits option.splits)
  have "(31 + rid') # b' = (31 + rid) # b"
    by (rule zbase32_encode_inj) (use b b' in simp_all)
  with b b' show "rid' = rid" "from_hex sig' = from_hex sig" by simp_all
qed

theorem signed_message_exact_witness:
  "\<exists>t. ln_signed_message_from_compact (\<lambda>_. Some (replicate 64 5)) ''x'' 2 = Some t \<and> length t = 104"
proof -
  obtain t where "ln_signed_message_from_compact (\<lambda>_. Some (replicate 64 5)) ''x'' 2 = Some t"
    by (simp add: ln_signed_message_from_compact_def recovery_id_ok_def)
  with signed_message_exact [of "[]" "\<lambda>_. Some (replicate 64 5)" "''x''" 2 t] show ?thesis by blast
qed

end
