(* ===== verification/Rgb_Sweep.thy ===== *)
theory Rgb_Sweep
  imports Synced_Claims External_Signer
begin

text \<open>
  Sweeping the outputs of closed channels with RGB assets: the receipts of prepared sweeps
  (\<open>src/src/rgb_sweep.rs\<close>) and the output spender LDK calls (\<open>RgbOutputSpender\<close> of \<open>src/src/ldk.rs\<close>).
  rgb-lib, the signer, the PSBT library, the codecs and the file system are arguments; a store is given
  by its operations. Error messages are dropped.
\<close>

section \<open>Transactions and codecs\<close>

type_synonym outpoint = "string \<times> u32"
type_synonym txout = "u64 \<times> bytes"

record unsigned_tx =
  ut_inputs :: "outpoint list"
  ut_rest :: bytes

record psbt =
  ps_unsigned_tx :: unsigned_tx
  ps_rest :: bytes

record transaction =
  tx_unsigned :: unsigned_tx
  tx_witness :: bytes

record prepared_sweep =
  sw_psbt :: string
  sw_batch_transfer_idx :: int
  sw_consignments :: "(string \<times> bytes) list"

record transfer_info =
  ti_contract_id :: string
  ti_output_map :: "(u32 \<times> u64) list"

type_synonym output_spender_txes = "(u64 \<times> transaction) list"

record sweep_codec =
  cd_psbt_from_str :: "string \<Rightarrow> psbt option"
  cd_psbt_to_string :: "psbt \<Rightarrow> string"
  cd_compute_txid :: "unsigned_tx \<Rightarrow> string"
  cd_encode_sweep :: "prepared_sweep \<Rightarrow> bytes option"
  cd_decode_sweep :: "bytes \<Rightarrow> prepared_sweep option"
  cd_encode_txes :: "output_spender_txes \<Rightarrow> bytes"
  cd_decode_txes :: "bytes \<Rightarrow> output_spender_txes option"
  cd_decode_transfer_info :: "bytes \<Rightarrow> transfer_info option"

record 'st kv_ops =
  ko_read :: "'st \<Rightarrow> kv_key \<Rightarrow> (failure + bytes) \<times> 'st"
  ko_write :: "'st \<Rightarrow> kv_key \<Rightarrow> bytes \<Rightarrow> (failure + unit) \<times> 'st"
  ko_remove :: "'st \<Rightarrow> kv_key \<Rightarrow> (failure + unit) \<times> 'st"
  ko_list :: "'st \<Rightarrow> string \<Rightarrow> string \<Rightarrow> (failure + string list) \<times> 'st"

datatype sweep_fail = SweepErr | SweepPanic

fun sweep_fail_of :: "failure \<Rightarrow> sweep_fail" where
  "sweep_fail_of (Io _) = SweepErr"
| "sweep_fail_of Panic = SweepPanic"

abbreviation tx_inputs :: "unsigned_tx \<Rightarrow> outpoint set" where
  "tx_inputs u \<equiv> set (ut_inputs u)"


section \<open>Receipts of prepared sweeps\<close>

definition SWEEP_NAMESPACE :: string where
  "SWEEP_NAMESPACE = ''rgb_sweeps''"

text \<open>The consignments are saved to a temporary directory and read back: what becomes of that is given
  for each.\<close>

fun saved_consignments :: "(string \<times> bytes option) list \<Rightarrow> (string \<times> bytes) list option" where
  "saved_consignments [] = Some []"
| "saved_consignments ((asset_id, saved) # transfers) =
     (case saved of
        None \<Rightarrow> None
      | Some b \<Rightarrow> map_option ((#) (asset_id, b)) (saved_consignments transfers))"

definition sweep_new :: "bool \<Rightarrow> string \<Rightarrow> int \<Rightarrow> (string \<times> bytes option) list \<Rightarrow> prepared_sweep option" where
  "sweep_new tempdir psbt batch_transfer_idx transfers =
     (if \<not> tempdir then None
      else map_option (\<lambda>consignments. \<lparr>sw_psbt = psbt, sw_batch_transfer_idx = batch_transfer_idx,
                                        sw_consignments = consignments\<rparr>)
             (saved_consignments transfers))"

definition sweep_txid :: "sweep_codec \<Rightarrow> prepared_sweep \<Rightarrow> string option" where
  "sweep_txid cd sweep =
     map_option (\<lambda>psbt. cd_compute_txid cd (ps_unsigned_tx psbt)) (cd_psbt_from_str cd (sw_psbt sweep))"

definition sweep_read ::
  "'st kv_ops \<Rightarrow> sweep_codec \<Rightarrow> string \<Rightarrow> 'st \<Rightarrow> (sweep_fail + prepared_sweep option) \<times> 'st" where
  "sweep_read ops cd key st =
     (case ko_read ops st (SWEEP_NAMESPACE, [], key) of
        (Inr bytes, st) \<Rightarrow>
          (case cd_decode_sweep cd bytes of
             Some sweep \<Rightarrow> (Inr (Some sweep), st)
           | None \<Rightarrow> (Inl SweepErr, st))
      | (Inl e, st) \<Rightarrow>
          if e = Io NotFound then (Inr None, st) else (Inl (sweep_fail_of e), st))"

definition sweep_persist ::
  "'st kv_ops \<Rightarrow> sweep_codec \<Rightarrow> prepared_sweep \<Rightarrow> string \<Rightarrow> 'st \<Rightarrow> (sweep_fail + unit) \<times> 'st" where
  "sweep_persist ops cd sweep key st =
     (case cd_encode_sweep cd sweep of
        None \<Rightarrow> (Inl SweepErr, st)
      | Some bytes \<Rightarrow>
          (case ko_write ops st (SWEEP_NAMESPACE, [], key) bytes of
             (Inl e, st) \<Rightarrow> (Inl (sweep_fail_of e), st)
           | (Inr _, st) \<Rightarrow> (Inr (), st)))"

fun find_loop ::
  "'st kv_ops \<Rightarrow> sweep_codec \<Rightarrow> outpoint set \<Rightarrow> string list \<Rightarrow> prepared_sweep option \<Rightarrow> bool \<Rightarrow> 'st
     \<Rightarrow> (sweep_fail + prepared_sweep option) \<times> 'st" where
  "find_loop ops cd inputs [] matching unreadable st =
     (if matching = None \<and> unreadable then (Inl SweepErr, st) else (Inr matching, st))"
| "find_loop ops cd inputs (key # keys) matching unreadable st =
     (case sweep_read ops cd key st of
        (Inl SweepPanic, st) \<Rightarrow> (Inl SweepPanic, st)
      | (Inl SweepErr, st) \<Rightarrow> find_loop ops cd inputs keys matching True st
      | (Inr None, st) \<Rightarrow> find_loop ops cd inputs keys matching unreadable st
      | (Inr (Some sweep), st) \<Rightarrow>
          (case cd_psbt_from_str cd (sw_psbt sweep) of
             None \<Rightarrow> find_loop ops cd inputs keys matching True st
           | Some psbt \<Rightarrow>
               (let saved = tx_inputs (ps_unsigned_tx psbt)
                in if saved \<inter> inputs = {} then find_loop ops cd inputs keys matching unreadable st
                   else if saved \<noteq> inputs \<or> matching \<noteq> None then (Inl SweepErr, st)
                   else find_loop ops cd inputs keys (Some sweep) unreadable st)))"

definition find_prepared_sweep ::
  "'st kv_ops \<Rightarrow> sweep_codec \<Rightarrow> outpoint set \<Rightarrow> 'st \<Rightarrow> (sweep_fail + prepared_sweep option) \<times> 'st" where
  "find_prepared_sweep ops cd inputs st =
     (case ko_list ops st SWEEP_NAMESPACE [] of
        (Inl e, st) \<Rightarrow> (Inl (sweep_fail_of e), st)
      | (Inr keys, st) \<Rightarrow> find_loop ops cd inputs keys None False st)"

text \<open>One receipt, and all of them: an error leaves the receipt and goes on with the next.\<close>

definition reconcile_one ::
  "'st kv_ops \<Rightarrow> sweep_codec \<Rightarrow> (string \<Rightarrow> 'w \<Rightarrow> (unit + bool) \<times> 'w) \<Rightarrow> (int \<Rightarrow> 'w \<Rightarrow> (unit + unit) \<times> 'w)
     \<Rightarrow> string \<Rightarrow> 'st \<times> 'w \<Rightarrow> (sweep_fail + unit) \<times> 'st \<times> 'w" where
  "reconcile_one ops cd is_confirmed consume key s =
     (case sweep_read ops cd key (fst s) of
        (Inl e, st) \<Rightarrow> (Inl e, st, snd s)
      | (Inr None, st) \<Rightarrow> (Inr (), st, snd s)
      | (Inr (Some sweep), st) \<Rightarrow>
          (case sweep_txid cd sweep of
             None \<Rightarrow> (Inl SweepErr, st, snd s)
           | Some txid \<Rightarrow>
               (case is_confirmed txid (snd s) of
                  (Inl _, w) \<Rightarrow> (Inl SweepErr, st, w)
                | (Inr False, w) \<Rightarrow> (Inr (), st, w)
                | (Inr True, w) \<Rightarrow>
                    (case consume (sw_batch_transfer_idx sweep) w of
                       (Inl _, w) \<Rightarrow> (Inl SweepErr, st, w)
                     | (Inr _, w) \<Rightarrow>
                         (case ko_remove ops st (SWEEP_NAMESPACE, [], key) of
                            (Inl e, st) \<Rightarrow> (Inl (sweep_fail_of e), st, w)
                          | (Inr _, st) \<Rightarrow> (Inr (), st, w))))))"

fun reconcile_loop ::
  "'st kv_ops \<Rightarrow> sweep_codec \<Rightarrow> (string \<Rightarrow> 'w \<Rightarrow> (unit + bool) \<times> 'w) \<Rightarrow> (int \<Rightarrow> 'w \<Rightarrow> (unit + unit) \<times> 'w)
     \<Rightarrow> string list \<Rightarrow> 'st \<times> 'w \<Rightarrow> unit option \<times> 'st \<times> 'w" where
  "reconcile_loop ops cd is_confirmed consume [] s = (Some (), s)"
| "reconcile_loop ops cd is_confirmed consume (key # keys) s =
     (case reconcile_one ops cd is_confirmed consume key s of
        (Inl SweepPanic, s) \<Rightarrow> (None, s)
      | (_, s) \<Rightarrow> reconcile_loop ops cd is_confirmed consume keys s)"

definition reconcile_prepared_sweeps ::
  "'st kv_ops \<Rightarrow> sweep_codec \<Rightarrow> (string \<Rightarrow> 'w \<Rightarrow> (unit + bool) \<times> 'w) \<Rightarrow> (int \<Rightarrow> 'w \<Rightarrow> (unit + unit) \<times> 'w)
     \<Rightarrow> 'st \<times> 'w \<Rightarrow> unit option \<times> 'st \<times> 'w" where
  "reconcile_prepared_sweeps ops cd is_confirmed consume s =
     (case ko_list ops (fst s) SWEEP_NAMESPACE [] of
        (Inl Panic, st) \<Rightarrow> (None, st, snd s)
      | (Inl _, st) \<Rightarrow> (Some (), st, snd s)
      | (Inr keys, st) \<Rightarrow> reconcile_loop ops cd is_confirmed consume keys (st, snd s))"


section \<open>The output spender\<close>

definition OUTPUT_SPENDER_TXES_KEY :: string where
  "OUTPUT_SPENDER_TXES_KEY = ''output_spender_txes''"

definition RGB_TRANSFER_CHAN_EXPIRATION_SECS :: u64 where
  "RGB_TRANSFER_CHAN_EXPIRATION_SECS = 86400"

definition RGB_RECEIVE_REUSE_MARGIN_SECS :: u64 where
  "RGB_RECEIVE_REUSE_MARGIN_SECS = 3600"

definition RGB_RECEIVE_REUSE_MARGIN_ADDR_REUSE_SECS :: u64 where
  "RGB_RECEIVE_REUSE_MARGIN_ADDR_REUSE_SECS = 300"

definition sweep_receive_is_reusable :: "u64 \<Rightarrow> u64 \<Rightarrow> bool \<Rightarrow> bool" where
  "sweep_receive_is_reusable now expiration reuse_addresses =
     (let margin = (if reuse_addresses then RGB_RECEIVE_REUSE_MARGIN_ADDR_REUSE_SECS
                    else RGB_RECEIVE_REUSE_MARGIN_SECS)
      in now + margin < expiration)"

definition rgb_amount_for_spendable_output :: "(u32 \<times> u64) list \<Rightarrow> u32 \<Rightarrow> u64 option" where
  "rgb_amount_for_spendable_output output_map vout =
     (case map_of output_map vout of
        Some amt \<Rightarrow> Some amt
      | None \<Rightarrow> if output_map = [] then Some 0 else None)"

fun descriptor_outpoint :: "spendable_output \<Rightarrow> outpoint" where
  "descriptor_outpoint (SpendableStatic txid vout _ _ _) = (txid, ucast vout)"
| "descriptor_outpoint (SpendableDelayedPayment txid vout _ _ _ _ _) = (txid, ucast vout)"
| "descriptor_outpoint (SpendableStaticPayment txid vout _ _ _) = (txid, ucast vout)"

datatype transfer_status =
    StInitiated | StWaitingCounterparty | StWaitingConfirmations | StSettled | StFailed | StOther

record transfer =
  tr_batch_transfer_idx :: int
  tr_status :: transfer_status
  tr_txid :: "string option"
  tr_receive_witness :: bool

text \<open>rgb-lib, the signer, the PSBT library, the clock and the file system, over a state of their own.
  An update of witnesses yields whether none failed; a file is given by its name.\<close>

record 'w sweep_world =
  ow_hash :: "spendable_output list \<Rightarrow> u64"
  ow_now :: "'w \<Rightarrow> u64"
  ow_get_tx_height :: "string \<Rightarrow> 'w \<Rightarrow> (unit + u32 option) \<times> 'w"
  ow_update_witnesses :: "u32 \<Rightarrow> string \<Rightarrow> 'w \<Rightarrow> (unit + bool) \<times> 'w"
  ow_witness_receive :: "u64 \<Rightarrow> 'w \<Rightarrow> (unit + string) \<times> 'w"
  ow_recipient_script :: "string \<Rightarrow> bytes option"
  ow_create_psbt :: "spendable_output list \<Rightarrow> txout list \<Rightarrow> bytes \<Rightarrow> u32 \<Rightarrow> u32 option \<Rightarrow> psbt option"
  ow_color_psbt :: "psbt \<Rightarrow> (string \<times> u32 \<times> u64) list \<Rightarrow> 'w
    \<Rightarrow> (unit + psbt \<times> int \<times> (string \<times> bytes option) list) \<times> 'w"
  ow_tempdir :: "'w \<Rightarrow> bool \<times> 'w"
  ow_fail_transfers :: "int \<Rightarrow> 'w \<Rightarrow> 'w"
  ow_list_transfers :: "string option \<Rightarrow> string \<Rightarrow> 'w \<Rightarrow> (unit + transfer list) \<times> 'w"
  ow_sign_psbt :: "spendable_output list \<Rightarrow> psbt \<Rightarrow> 'w \<Rightarrow> (unit + psbt) \<times> 'w"
  ow_extract_tx :: "psbt \<Rightarrow> transaction option"
  ow_write_file :: "string \<Rightarrow> bytes \<Rightarrow> 'w \<Rightarrow> bool \<times> 'w"
  ow_provide_consignment :: "string \<Rightarrow> 'w \<Rightarrow> (unit + unit) \<times> 'w"
  ow_remove_file :: "string \<Rightarrow> 'w \<Rightarrow> 'w"
  ow_spend_plain :: "spendable_output list \<Rightarrow> txout list \<Rightarrow> bytes \<Rightarrow> u32 \<Rightarrow> u32 option \<Rightarrow> 'w
    \<Rightarrow> (unit + transaction) \<times> 'w"

record sweep_config =
  oc_transfer_info_ns :: "string \<times> string"
  oc_dust_limit_msat :: u64
  oc_fee_rate_sat_vb :: u64
  oc_reuse_addresses :: bool

record ('st, 'w) spender =
  sp_txes :: output_spender_txes
  sp_recipients :: "((u64 \<times> string) \<times> string \<times> u64) list"
  sp_store :: 'st
  sp_world :: 'w

text \<open>The spender a node starts with (\<open>None\<close> where start-up panics).\<close>

definition load_spender ::
  "'st kv_ops \<Rightarrow> sweep_codec \<Rightarrow> 'st \<Rightarrow> 'w \<Rightarrow> ('st, 'w) spender option \<times> 'st" where
  "load_spender ops cd st w =
     (case ko_read ops st ([], [], OUTPUT_SPENDER_TXES_KEY) of
        (Inr bytes, st) \<Rightarrow>
          (Some \<lparr>sp_txes = (case cd_decode_txes cd bytes of Some txes \<Rightarrow> txes | None \<Rightarrow> []),
                 sp_recipients = [], sp_store = st, sp_world = w\<rparr>, st)
      | (Inl e, st) \<Rightarrow>
          if e = Io NotFound
          then (Some \<lparr>sp_txes = [], sp_recipients = [], sp_store = st, sp_world = w\<rparr>, st)
          else (None, st))"


subsection \<open>What the descriptors carry\<close>

record sweep_plan =
  pl_vout :: u32
  pl_vanilla :: bool
  pl_txouts :: "txout list"
  pl_assets :: "(string \<times> u32 \<times> u64 \<times> string) list"

text \<open>The recipient for a contract: the one issued at an earlier attempt unless it expires soon, or a
  new one.\<close>

definition sweep_recipient ::
  "'w sweep_world \<Rightarrow> sweep_config \<Rightarrow> u64 \<Rightarrow> string \<Rightarrow> ('st, 'w) spender \<Rightarrow> (sweep_fail + string) \<times> ('st, 'w) spender" where
  "sweep_recipient ow cfg h contract s =
     (let key = (h, contract);
          reusable = (\<lambda>expiration. sweep_receive_is_reusable (ow_now ow (sp_world s)) expiration (oc_reuse_addresses cfg));
          cached = (case map_of (sp_recipients s) key of
                      Some (recipient_id, expiration) \<Rightarrow> if reusable expiration then Some recipient_id else None
                    | None \<Rightarrow> None);
          s = (if cached = None then s\<lparr>sp_recipients := filter (\<lambda>e. fst e \<noteq> key) (sp_recipients s)\<rparr> else s)
      in case cached of
           Some recipient_id \<Rightarrow> (Inr recipient_id, s)
         | None \<Rightarrow>
             (let expiration = ow_now ow (sp_world s) + RGB_TRANSFER_CHAN_EXPIRATION_SECS
              in case ow_witness_receive ow expiration (sp_world s) of
                   (Inl _, w) \<Rightarrow> (Inl SweepErr, s\<lparr>sp_world := w\<rparr>)
                 | (Inr recipient_id, w) \<Rightarrow>
                     (Inr recipient_id,
                      s\<lparr>sp_world := w, sp_recipients := (key, recipient_id, expiration) # sp_recipients s\<rparr>)))"

text \<open>The witnesses of the closing transaction are brought up to date once it is confirmed.\<close>

definition settle_closing ::
  "'w sweep_world \<Rightarrow> string \<Rightarrow> ('st, 'w) spender \<Rightarrow> (sweep_fail + unit) \<times> ('st, 'w) spender" where
  "settle_closing ow txid s =
     (case ow_get_tx_height ow txid (sp_world s) of
        (Inl _, w) \<Rightarrow> (Inl SweepErr, s\<lparr>sp_world := w\<rparr>)
      | (Inr None, w) \<Rightarrow> (Inl SweepErr, s\<lparr>sp_world := w\<rparr>)
      | (Inr (Some height), w) \<Rightarrow>
          (case ow_update_witnesses ow height txid w of
             (Inr True, w) \<Rightarrow> (Inr (), s\<lparr>sp_world := w\<rparr>)
           | (_, w) \<Rightarrow> (Inl SweepErr, s\<lparr>sp_world := w\<rparr>)))"

definition add_asset ::
  "'w sweep_world \<Rightarrow> sweep_config \<Rightarrow> u64 \<Rightarrow> string \<Rightarrow> u64 \<Rightarrow> sweep_plan \<Rightarrow> ('st, 'w) spender
     \<Rightarrow> (sweep_fail + sweep_plan) \<times> ('st, 'w) spender" where
  "add_asset ow cfg h contract amt pl s =
     (case map_of (pl_assets pl) contract of
        Some (vout, a, recipient_id) \<Rightarrow>
          (Inr (pl\<lparr>pl_assets := AList.update contract (vout, a + amt, recipient_id) (pl_assets pl)\<rparr>), s)
      | None \<Rightarrow>
          (case sweep_recipient ow cfg h contract s of
             (Inl e, s) \<Rightarrow> (Inl e, s)
           | (Inr recipient_id, s) \<Rightarrow>
               (case ow_recipient_script ow recipient_id of
                  None \<Rightarrow> (Inl SweepErr, s)
                | Some script \<Rightarrow>
                    (Inr (pl\<lparr>pl_txouts := pl_txouts pl @ [(oc_dust_limit_msat cfg div 1000, script)],
                             pl_assets := AList.update contract (pl_vout pl, amt, recipient_id) (pl_assets pl),
                             pl_vout := pl_vout pl + 1\<rparr>), s))))"

definition collect_descriptor ::
  "'w sweep_world \<Rightarrow> sweep_config \<Rightarrow> 'st kv_ops \<Rightarrow> sweep_codec \<Rightarrow> u64 \<Rightarrow> spendable_output \<Rightarrow> sweep_plan
     \<Rightarrow> ('st, 'w) spender \<Rightarrow> (sweep_fail + sweep_plan) \<times> ('st, 'w) spender" where
  "collect_descriptor ow cfg ops cd h d pl s =
     (let txid = fst (descriptor_outpoint d)
      in case ko_read ops (sp_store s) (fst (oc_transfer_info_ns cfg), snd (oc_transfer_info_ns cfg), txid) of
           (Inl Panic, st) \<Rightarrow> (Inl SweepPanic, s\<lparr>sp_store := st\<rparr>)
         | (Inl _, st) \<Rightarrow> (Inr pl, s\<lparr>sp_store := st\<rparr>)
         | (Inr bytes, st) \<Rightarrow>
             (let s = s\<lparr>sp_store := st\<rparr>
              in case cd_decode_transfer_info cd bytes of
                   None \<Rightarrow> (Inl SweepErr, s)
                 | Some transfer_info \<Rightarrow>
                     (case rgb_amount_for_spendable_output (ti_output_map transfer_info) (snd (descriptor_outpoint d)) of
                        None \<Rightarrow> (Inl SweepErr, s)
                      | Some amt \<Rightarrow>
                          if amt = 0 then (Inr pl, s)
                          else case settle_closing ow txid s of
                                 (Inl e, s) \<Rightarrow> (Inl e, s)
                               | (Inr _, s) \<Rightarrow>
                                   add_asset ow cfg h (ti_contract_id transfer_info) amt
                                     (pl\<lparr>pl_vanilla := False\<rparr>) s)))"

fun collect_descriptors ::
  "'w sweep_world \<Rightarrow> sweep_config \<Rightarrow> 'st kv_ops \<Rightarrow> sweep_codec \<Rightarrow> u64 \<Rightarrow> spendable_output list \<Rightarrow> sweep_plan
     \<Rightarrow> ('st, 'w) spender \<Rightarrow> (sweep_fail + sweep_plan) \<times> ('st, 'w) spender" where
  "collect_descriptors ow cfg ops cd h [] pl s = (Inr pl, s)"
| "collect_descriptors ow cfg ops cd h (d # ds) pl s =
     (case collect_descriptor ow cfg ops cd h d pl s of
        (Inl e, s) \<Rightarrow> (Inl e, s)
      | (Inr pl, s) \<Rightarrow> collect_descriptors ow cfg ops cd h ds pl s)"



subsection \<open>Finishing a prepared sweep\<close>

definition batch_is_active :: "int \<Rightarrow> transfer list \<Rightarrow> bool" where
  "batch_is_active batch_transfer_idx transfers =
     list_ex (\<lambda>t. tr_batch_transfer_idx t = batch_transfer_idx
                \<and> tr_status t \<in> {StInitiated, StWaitingConfirmations, StSettled}) transfers"

definition already_received :: "string \<Rightarrow> transfer list \<Rightarrow> bool" where
  "already_received closing_txid transfers =
     list_ex (\<lambda>t. tr_txid t = Some closing_txid \<and> tr_receive_witness t
                \<and> tr_status t \<noteq> StFailed \<and> tr_status t \<noteq> StWaitingCounterparty) transfers"

text \<open>Each consignment is handed to rgb-lib unless an earlier attempt did.\<close>

fun provide_consignments ::
  "'w sweep_world \<Rightarrow> string \<Rightarrow> (string \<times> bytes) list \<Rightarrow> 'w \<Rightarrow> (sweep_fail + unit) \<times> 'w" where
  "provide_consignments ow closing_txid [] w = (Inr (), w)"
| "provide_consignments ow closing_txid ((asset_id, consignment) # rest) w =
     (case ow_list_transfers ow (Some asset_id) closing_txid w of
        (Inl _, w) \<Rightarrow> (Inl SweepErr, w)
      | (Inr transfers, w) \<Rightarrow>
          if already_received closing_txid transfers then provide_consignments ow closing_txid rest w
          else
            (let path = ''consignment_'' @ closing_txid @ ''_'' @ asset_id
             in case ow_write_file ow path consignment w of
                  (False, w) \<Rightarrow> (Inl SweepErr, w)
                | (True, w) \<Rightarrow>
                    (case ow_provide_consignment ow path w of
                       (Inl _, w) \<Rightarrow> (Inl SweepErr, w)
                     | (Inr _, w) \<Rightarrow> provide_consignments ow closing_txid rest (ow_remove_file ow path w))))"

text \<open>The signed transaction of a prepared sweep, once its batch is known to be active.\<close>

definition sign_prepared ::
  "'w sweep_world \<Rightarrow> sweep_codec \<Rightarrow> spendable_output list \<Rightarrow> prepared_sweep \<Rightarrow> 'w \<Rightarrow> (sweep_fail + transaction) \<times> 'w" where
  "sign_prepared ow cd descriptors prepared w =
     (case cd_psbt_from_str cd (sw_psbt prepared) of
        None \<Rightarrow> (Inl SweepErr, w)
      | Some psbt \<Rightarrow>
          (case ow_list_transfers ow None (cd_compute_txid cd (ps_unsigned_tx psbt)) w of
             (Inl _, w) \<Rightarrow> (Inl SweepErr, w)
           | (Inr transfers, w) \<Rightarrow>
               if \<not> batch_is_active (sw_batch_transfer_idx prepared) transfers then (Inl SweepErr, w)
               else case ow_sign_psbt ow descriptors psbt w of
                      (Inl _, w) \<Rightarrow> (Inl SweepErr, w)
                    | (Inr signed_psbt, w) \<Rightarrow>
                        if ps_unsigned_tx signed_psbt \<noteq> ps_unsigned_tx psbt then (Inl SweepErr, w)
                        else case ow_extract_tx ow signed_psbt of
                               None \<Rightarrow> (Inl SweepPanic, w)
                             | Some spending_tx \<Rightarrow>
                                 if Some (cd_compute_txid cd (tx_unsigned spending_tx)) \<noteq> sweep_txid cd prepared
                                 then (Inl SweepErr, w)
                                 else (Inr spending_tx, w)))"

definition finish_prepared_rgb_sweep ::
  "'w sweep_world \<Rightarrow> 'st kv_ops \<Rightarrow> sweep_codec \<Rightarrow> spendable_output list \<Rightarrow> u64 \<Rightarrow> prepared_sweep
     \<Rightarrow> ('st, 'w) spender \<Rightarrow> (sweep_fail + transaction) \<times> ('st, 'w) spender" where
  "finish_prepared_rgb_sweep ow ops cd descriptors descriptors_hash prepared s =
     (case sign_prepared ow cd descriptors prepared (sp_world s) of
        (Inl e, w) \<Rightarrow> (Inl e, s\<lparr>sp_world := w\<rparr>)
      | (Inr spending_tx, w) \<Rightarrow>
          (case provide_consignments ow (cd_compute_txid cd (tx_unsigned spending_tx)) (sw_consignments prepared) w of
             (Inl e, w) \<Rightarrow> (Inl e, s\<lparr>sp_world := w\<rparr>)
           | (Inr _, w) \<Rightarrow>
               (let txes = AList.update descriptors_hash spending_tx (sp_txes s)
                in case ko_write ops (sp_store s) ([], [], OUTPUT_SPENDER_TXES_KEY) (cd_encode_txes cd txes) of
                     (Inl e, st) \<Rightarrow>
                       (Inl (sweep_fail_of e),
                        s\<lparr>sp_world := w, sp_store := st,
                          sp_txes := (if e = Panic then txes else filter (\<lambda>x. fst x \<noteq> descriptors_hash) txes)\<rparr>)
                   | (Inr _, st) \<Rightarrow>
                       (Inr spending_tx,
                        s\<lparr>sp_world := w, sp_store := st, sp_txes := txes,
                          sp_recipients := filter (\<lambda>x. fst (fst x) \<noteq> descriptors_hash) (sp_recipients s)\<rparr>))))"


subsection \<open>An attempt to spend\<close>

text \<open>The transactions signed before: the same inputs give the same transaction, an overlap none.\<close>

fun signed_before :: "transaction list \<Rightarrow> outpoint set \<Rightarrow> sweep_fail + transaction option" where
  "signed_before [] inputs = Inr None"
| "signed_before (tx # txs) inputs =
     (let saved = tx_inputs (tx_unsigned tx)
      in if saved = inputs then Inr (Some tx)
         else if saved \<inter> inputs \<noteq> {} then Inl SweepErr
         else signed_before txs inputs)"

text \<open>A new sweep is coloured, recorded and only then signed; where it cannot be recorded its batch is
  failed.\<close>

definition prepare_sweep ::
  "'w sweep_world \<Rightarrow> sweep_config \<Rightarrow> 'st kv_ops \<Rightarrow> sweep_codec \<Rightarrow> spendable_output list \<Rightarrow> u64 \<Rightarrow> sweep_plan
     \<Rightarrow> bytes \<Rightarrow> u32 option \<Rightarrow> ('st, 'w) spender \<Rightarrow> (sweep_fail + prepared_sweep) \<times> ('st, 'w) spender" where
  "prepare_sweep ow cfg ops cd descriptors h pl change locktime s =
     (case ow_create_psbt ow descriptors (pl_txouts pl) change (ucast (oc_fee_rate_sat_vb cfg) * 250) locktime of
        None \<Rightarrow> (Inl SweepErr, s)
      | Some psbt \<Rightarrow>
          (case cd_psbt_from_str cd (cd_psbt_to_string cd psbt) of
             None \<Rightarrow> (Inl SweepPanic, s)
           | Some psbt \<Rightarrow>
               (case ow_color_psbt ow psbt (map (\<lambda>(contract, vout, amt, _). (contract, vout, amt)) (pl_assets pl))
                       (sp_world s) of
                  (Inl _, w) \<Rightarrow> (Inl SweepErr, s\<lparr>sp_world := w\<rparr>)
                | (Inr (psbt, batch_transfer_idx, transfers), w) \<Rightarrow>
                    (case ow_tempdir ow w of
                       (tempdir, w) \<Rightarrow>
                         (case sweep_new tempdir (cd_psbt_to_string cd psbt) batch_transfer_idx transfers of
                            None \<Rightarrow> (Inl SweepErr, s\<lparr>sp_world := ow_fail_transfers ow batch_transfer_idx w\<rparr>)
                          | Some prepared \<Rightarrow>
                              (case sweep_persist ops cd prepared (show_u64 h) (sp_store s) of
                                 (Inl SweepPanic, st) \<Rightarrow> (Inl SweepPanic, s\<lparr>sp_world := w, sp_store := st\<rparr>)
                               | (Inl SweepErr, st) \<Rightarrow>
                                   (Inl SweepErr,
                                    s\<lparr>sp_world := ow_fail_transfers ow batch_transfer_idx w, sp_store := st\<rparr>)
                               | (Inr _, st) \<Rightarrow> (Inr prepared, s\<lparr>sp_world := w, sp_store := st\<rparr>)))))))"

definition new_sweep ::
  "'w sweep_world \<Rightarrow> sweep_config \<Rightarrow> 'st kv_ops \<Rightarrow> sweep_codec \<Rightarrow> spendable_output list \<Rightarrow> txout list \<Rightarrow> bytes
     \<Rightarrow> u32 \<Rightarrow> u32 option \<Rightarrow> ('st, 'w) spender \<Rightarrow> (sweep_fail + transaction) \<times> ('st, 'w) spender" where
  "new_sweep ow cfg ops cd descriptors outputs change feerate locktime s =
     (case collect_descriptors ow cfg ops cd (ow_hash ow descriptors) descriptors
             \<lparr>pl_vout = 0, pl_vanilla = True, pl_txouts = outputs, pl_assets = []\<rparr> s of
        (Inl e, s) \<Rightarrow> (Inl e, s)
      | (Inr pl, s) \<Rightarrow>
          if pl_vanilla pl then
            (case ow_spend_plain ow descriptors (pl_txouts pl) change feerate locktime (sp_world s) of
               (Inl _, w) \<Rightarrow> (Inl SweepErr, s\<lparr>sp_world := w\<rparr>)
             | (Inr tx, w) \<Rightarrow> (Inr tx, s\<lparr>sp_world := w\<rparr>))
          else
            (case prepare_sweep ow cfg ops cd descriptors (ow_hash ow descriptors) pl change locktime s of
               (Inl e, s) \<Rightarrow> (Inl e, s)
             | (Inr prepared, s) \<Rightarrow>
                 finish_prepared_rgb_sweep ow ops cd descriptors (ow_hash ow descriptors) prepared s))"

definition try_spend_spendable_outputs ::
  "'w sweep_world \<Rightarrow> sweep_config \<Rightarrow> 'st kv_ops \<Rightarrow> sweep_codec \<Rightarrow> spendable_output list \<Rightarrow> txout list \<Rightarrow> bytes
     \<Rightarrow> u32 \<Rightarrow> u32 option \<Rightarrow> ('st, 'w) spender \<Rightarrow> (sweep_fail + transaction) \<times> ('st, 'w) spender" where
  "try_spend_spendable_outputs ow cfg ops cd descriptors outputs change feerate locktime s =
     (let descriptors_hash = ow_hash ow descriptors;
          inputs = set (map descriptor_outpoint descriptors)
      in case map_of (sp_txes s) descriptors_hash of
           Some tx \<Rightarrow> (Inr tx, s)
         | None \<Rightarrow>
             (case signed_before (map snd (sp_txes s)) inputs of
                Inl e \<Rightarrow> (Inl e, s)
              | Inr (Some tx) \<Rightarrow> (Inr tx, s)
              | Inr None \<Rightarrow>
                  (case find_prepared_sweep ops cd inputs (sp_store s) of
                     (Inl e, st) \<Rightarrow> (Inl e, s\<lparr>sp_store := st\<rparr>)
                   | (Inr (Some prepared), st) \<Rightarrow>
                       finish_prepared_rgb_sweep ow ops cd descriptors descriptors_hash prepared (s\<lparr>sp_store := st\<rparr>)
                   | (Inr None, st) \<Rightarrow>
                       new_sweep ow cfg ops cd descriptors outputs change feerate locktime (s\<lparr>sp_store := st\<rparr>))))"

end
