(* ===== verification/Rgb_Sweep_Props.thy ===== *)
theory Rgb_Sweep_Props
  imports Rgb_Sweep
begin

text \<open>
  What the sweeps of RGB outputs keep to, through attempts over changing sets of outputs, failures of the
  store and of rgb-lib, reconciliations and restarts: no two sweeps that are handed to LDK spend a
  common output. The proof is made once for every store with the contract of \<open>KVStoreSync\<close> and a
  listing, and used for the replicating store.
\<close>

section \<open>The record of sweeps\<close>

text \<open>The receipts of a store by key, and the transactions it keeps.\<close>

definition sweeps_of :: "kv_view \<Rightarrow> string \<Rightarrow> bytes option" where
  "sweeps_of v k = v (SWEEP_NAMESPACE, [], k)"

definition txes_of :: "kv_view \<Rightarrow> bytes option" where
  "txes_of v = v ([], [], OUTPUT_SPENDER_TXES_KEY)"

definition receipt_of :: "sweep_codec \<Rightarrow> bytes \<Rightarrow> unsigned_tx option" where
  "receipt_of cd b =
     Option.bind (cd_decode_sweep cd b) (\<lambda>sw. map_option ps_unsigned_tx (cd_psbt_from_str cd (sw_psbt sw)))"

definition receipts :: "sweep_codec \<Rightarrow> (string \<Rightarrow> bytes option) \<Rightarrow> unsigned_tx set" where
  "receipts cd R = {u. \<exists>k b. R k = Some b \<and> receipt_of cd b = Some u}"

definition stored_txes :: "sweep_codec \<Rightarrow> bytes option \<Rightarrow> output_spender_txes option" where
  "stored_txes cd t = (case t of None \<Rightarrow> Some [] | Some b \<Rightarrow> cd_decode_txes cd b)"

definition compatible :: "unsigned_tx \<Rightarrow> unsigned_tx \<Rightarrow> bool" where
  "compatible u u' \<longleftrightarrow> u = u' \<or> tx_inputs u \<inter> tx_inputs u' = {}"

abbreviation outpoints :: "spendable_output list \<Rightarrow> outpoint set" where
  "outpoints D \<equiv> set (map descriptor_outpoint D)"

abbreviation unsigneds :: "output_spender_txes \<Rightarrow> unsigned_tx set" where
  "unsigneds txes \<equiv> tx_unsigned ` snd ` set txes"

text \<open>The invariant, for attempts over the sets \<open>DD\<close> of descriptors. Every receipt is readable and stands
  under the hash of descriptors with its inputs. The kept transactions include those in memory; each is
  in memory or still has a receipt. All transactions in play are compatible.\<close>

definition receipts_ok ::
  "(spendable_output list \<Rightarrow> u64) \<Rightarrow> sweep_codec \<Rightarrow> spendable_output list set \<Rightarrow> (string \<Rightarrow> bytes option) \<Rightarrow> bool" where
  "receipts_ok hash cd DD R \<longleftrightarrow>
     (\<forall>k b. R k = Some b \<longrightarrow>
        (\<exists>u. \<exists>D \<in> DD. receipt_of cd b = Some u \<and> k = show_u64 (hash D) \<and> tx_inputs u = outpoints D))"

definition kept_ok ::
  "(spendable_output list \<Rightarrow> u64) \<Rightarrow> spendable_output list set \<Rightarrow> output_spender_txes \<Rightarrow> bool" where
  "kept_ok hash DD stored \<longleftrightarrow>
     (\<forall>h tx. (h, tx) \<in> set stored \<longrightarrow> (\<exists>D \<in> DD. h = hash D \<and> tx_inputs (tx_unsigned tx) = outpoints D))"

definition all_compatible :: "unsigned_tx set \<Rightarrow> bool" where
  "all_compatible U \<longleftrightarrow> (\<forall>u \<in> U. \<forall>u' \<in> U. compatible u u')"

definition sweep_inv ::
  "(spendable_output list \<Rightarrow> u64) \<Rightarrow> sweep_codec \<Rightarrow> spendable_output list set \<Rightarrow> (string \<Rightarrow> bytes option)
     \<Rightarrow> bytes option \<Rightarrow> output_spender_txes \<Rightarrow> transaction list \<Rightarrow> bool" where
  "sweep_inv hash cd DD R t txes handed \<longleftrightarrow>
     receipts_ok hash cd DD R
     \<and> (\<exists>stored. stored_txes cd t = Some stored \<and> set txes \<subseteq> set stored \<and> kept_ok hash DD stored
          \<and> unsigneds stored \<subseteq> unsigneds txes \<union> receipts cd R)
     \<and> all_compatible (unsigneds txes \<union> receipts cd R)
     \<and> set handed \<subseteq> snd ` set txes"

text \<open>What is relied on of the codecs, the PSBT library and rgb-lib: what was encoded is decoded, the
  unsigned transaction spends the outputs of the descriptors, colouring keeps its inputs, and
  extraction keeps the transaction.\<close>

definition sweep_laws :: "'w sweep_world \<Rightarrow> sweep_codec \<Rightarrow> bool" where
  "sweep_laws ow cd \<longleftrightarrow>
     (\<forall>p. cd_psbt_from_str cd (cd_psbt_to_string cd p) = Some p)
     \<and> (\<forall>sw b. cd_encode_sweep cd sw = Some b \<longrightarrow> cd_decode_sweep cd b = Some sw)
     \<and> (\<forall>txes. cd_decode_txes cd (cd_encode_txes cd txes) = Some txes)
     \<and> (\<forall>D outs change fee lock p. ow_create_psbt ow D outs change fee lock = Some p \<longrightarrow>
          tx_inputs (ps_unsigned_tx p) = outpoints D)
     \<and> (\<forall>p info w q batch transfers w'. ow_color_psbt ow p info w = (Inr (q, batch, transfers), w') \<longrightarrow>
          tx_inputs (ps_unsigned_tx q) = tx_inputs (ps_unsigned_tx p))
     \<and> (\<forall>p tx. ow_extract_tx ow p = Some tx \<longrightarrow> tx_unsigned tx = ps_unsigned_tx p)"

lemma sweep_lawsD:
  assumes "sweep_laws ow cd"
  shows "cd_psbt_from_str cd (cd_psbt_to_string cd p) = Some p"
    "cd_encode_sweep cd sw = Some b \<Longrightarrow> cd_decode_sweep cd b = Some sw"
    "cd_decode_txes cd (cd_encode_txes cd txes) = Some txes"
    "ow_create_psbt ow D outs change fee lock = Some p \<Longrightarrow> tx_inputs (ps_unsigned_tx p) = outpoints D"
    "ow_color_psbt ow p info w = (Inr (q, batch, transfers), w') \<Longrightarrow>
       tx_inputs (ps_unsigned_tx q) = tx_inputs (ps_unsigned_tx p)"
    "ow_extract_tx ow p = Some tx \<Longrightarrow> tx_unsigned tx = ps_unsigned_tx p"
  using assms unfolding sweep_laws_def by ((elim conjE; simp; fail) | (elim conjE; metis))+

lemma show_u64_inj: "show_u64 x = show_u64 y \<Longrightarrow> x = y"
  by (metis option.inject parse_u64_show_u64)

lemma compatible_sym: "compatible u u' \<Longrightarrow> compatible u' u"
  by (auto simp: compatible_def)

lemma receipts_remove: "receipts cd (R(k := None)) \<subseteq> receipts cd R"
  by (auto simp: receipts_def split: if_splits)

lemma receipts_add:
  assumes "R k = None" "receipt_of cd b = Some u"
  shows "receipts cd (R(k \<mapsto> b)) = insert u (receipts cd R)"
proof (intro equalityI subsetI)
  fix x assume "x \<in> insert u (receipts cd R)"
  then consider "x = u" | k' b' where "R k' = Some b'" "receipt_of cd b' = Some x"
    by (auto simp: receipts_def)
  then show "x \<in> receipts cd (R(k \<mapsto> b))"
  proof cases
    case 1
    with assms(2) show ?thesis unfolding receipts_def by (auto intro!: exI [of _ k])
  next
    case 2
    with assms(1) have "k' \<noteq> k" by auto
    with 2 show ?thesis unfolding receipts_def by (auto intro!: exI [of _ k'])
  qed
qed (use assms(2) in \<open>auto simp: receipts_def split: if_splits\<close>)

lemma all_compatible_insert:
  "all_compatible U \<Longrightarrow> \<forall>u' \<in> U. tx_inputs u' \<inter> tx_inputs u = {} \<Longrightarrow> all_compatible (insert u U)"
  unfolding all_compatible_def compatible_def by blast

lemma inv_new_receipt:
  assumes inv: "sweep_inv hash cd DD R t txes handed" and D: "D \<in> DD" "D \<noteq> []" and hash: "inj_on hash DD"
    and b: "receipt_of cd b = Some u" "tx_inputs u = outpoints D"
    and fresh: "\<forall>u' \<in> unsigneds txes \<union> receipts cd R. tx_inputs u' \<inter> outpoints D = {}"
  shows "sweep_inv hash cd DD (R(show_u64 (hash D) \<mapsto> b)) t txes handed"
proof -
  have "R (show_u64 (hash D)) = None"
  proof (rule ccontr)
    assume "R (show_u64 (hash D)) \<noteq> None"
    then obtain b' where b': "R (show_u64 (hash D)) = Some b'" by blast
    from inv have "receipts_ok hash cd DD R" by (simp only: sweep_inv_def)
    with b' obtain u' D' where u': "receipt_of cd b' = Some u'" "D' \<in> DD" "show_u64 (hash D) = show_u64 (hash D')"
      "tx_inputs u' = outpoints D'" unfolding receipts_ok_def by blast
    have "D' = D" by (rule inj_onD [OF hash show_u64_inj [OF u'(3), symmetric] u'(2) D(1)])
    have "u' \<in> receipts cd R" using b' u'(1) by (auto simp: receipts_def)
    with fresh have "tx_inputs u' \<inter> outpoints D = {}" by blast
    with u'(4) \<open>D' = D\<close> D(2) show False by simp
  qed
  note ins = receipts_add [of R "show_u64 (hash D)", OF this b(1)]
  from inv have "all_compatible (unsigneds txes \<union> receipts cd R)" by (simp only: sweep_inv_def)
  then have "all_compatible (unsigneds txes \<union> insert u (receipts cd R))"
    using all_compatible_insert [of "unsigneds txes \<union> receipts cd R" u] fresh b(2) by simp
  moreover from inv have "receipts_ok hash cd DD R" by (simp only: sweep_inv_def)
  then have "receipts_ok hash cd DD (R(show_u64 (hash D) \<mapsto> b))"
    using b D(1) unfolding receipts_ok_def by (auto simp del: set_map)
  moreover from inv obtain stored where "stored_txes cd t = Some stored" "set txes \<subseteq> set stored" "kept_ok hash DD stored"
    "unsigneds stored \<subseteq> unsigneds txes \<union> receipts cd R" "set handed \<subseteq> snd ` set txes"
    unfolding sweep_inv_def by blast
  moreover from this(4) have "unsigneds stored \<subseteq> unsigneds txes \<union> insert u (receipts cd R)" by blast
  ultimately show ?thesis
    unfolding sweep_inv_def ins by simp
qed

lemma inv_same_receipts:
  assumes "sweep_inv hash cd DD R t txes handed" "receipts_ok hash cd DD R'"
    and "unsigneds txes \<union> receipts cd R' = unsigneds txes \<union> receipts cd R"
  shows "sweep_inv hash cd DD R' t txes handed"
  using assms unfolding sweep_inv_def by simp

lemma inv_drop_receipt:
  assumes inv: "sweep_inv hash cd DD R t txes handed"
    and h: "\<And>b u. R k = Some b \<Longrightarrow> receipt_of cd b = Some u \<Longrightarrow> u \<in> tx_unsigned ` set handed"
  shows "sweep_inv hash cd DD (R(k := None)) t txes handed"
proof (rule inv_same_receipts [OF inv])
  have "u \<in> receipts cd (R(k := None)) \<union> unsigneds txes" if "u \<in> receipts cd R" for u
  proof -
    from that obtain k' b where b: "R k' = Some b" "receipt_of cd b = Some u" by (auto simp: receipts_def)
    show ?thesis
    proof (cases "k' = k")
      case True
      with h b have "u \<in> tx_unsigned ` set handed" by blast
      moreover have "set handed \<subseteq> snd ` set txes" using inv by (simp add: sweep_inv_def)
      ultimately show ?thesis by blast
    next
      case False
      with b show ?thesis unfolding receipts_def by (auto intro!: exI [of _ k'])
    qed
  qed
  with receipts_remove [of cd R k] show
    "unsigneds txes \<union> receipts cd (R(k := None)) = unsigneds txes \<union> receipts cd R" by blast
  show "receipts_ok hash cd DD (R(k := None))"
    using inv unfolding sweep_inv_def receipts_ok_def by auto
qed

lemma inv_keep_tx:
  assumes inv: "sweep_inv hash cd DD R t txes handed" and enc: "cd_decode_txes cd b = Some (txes @ [(h, tx)])"
    and tx: "tx_unsigned tx \<in> receipts cd R" "D \<in> DD" "h = hash D" "tx_inputs (tx_unsigned tx) = outpoints D"
  shows "sweep_inv hash cd DD R (Some b) txes handed
    \<and> sweep_inv hash cd DD R (Some b) (txes @ [(h, tx)]) (tx # handed)"
proof -
  from inv obtain stored where st: "set txes \<subseteq> set stored" "kept_ok hash DD stored"
    unfolding sweep_inv_def by blast
  have "kept_ok hash DD (txes @ [(h, tx)])"
    using st tx(2-4) unfolding kept_ok_def by auto
  moreover have "stored_txes cd (Some b) = Some (txes @ [(h, tx)])" by (simp add: stored_txes_def enc)
  moreover have "unsigneds (txes @ [(h, tx)]) \<union> receipts cd R = unsigneds txes \<union> receipts cd R"
    using tx(1) by auto
  moreover have "unsigneds (txes @ [(h, tx)]) \<subseteq> unsigneds txes \<union> receipts cd R" using tx(1) by auto
  ultimately show ?thesis
    using inv unfolding sweep_inv_def by simp blast
qed

lemma inv_load:
  assumes "sweep_inv hash cd DD R t txes handed" "stored_txes cd t = Some stored"
  shows "sweep_inv hash cd DD R t stored handed"
proof -
  from assms(1) obtain stored' where e: "stored_txes cd t = Some stored'" and s': "set txes \<subseteq> set stored'"
    "kept_ok hash DD stored'" "unsigneds stored' \<subseteq> unsigneds txes \<union> receipts cd R"
    and h: "receipts_ok hash cd DD R" "all_compatible (unsigneds txes \<union> receipts cd R)" "set handed \<subseteq> snd ` set txes"
    unfolding sweep_inv_def by (elim conjE exE)
  from e assms(2) have "stored' = stored" by simp
  note s = s' [unfolded this]
  have u: "unsigneds stored \<union> receipts cd R = unsigneds txes \<union> receipts cd R"
    by (rule equalityI [OF Un_least [OF s(3) Un_upper2] Un_mono [OF image_mono [OF image_mono [OF s(1)]] subset_refl]])
  have "set handed \<subseteq> snd ` set stored"
    by (rule subset_trans [OF h(3) image_mono [OF s(1)]])
  with h(1,2) assms(2) s(2) show ?thesis
    unfolding sweep_inv_def u by (intro conjI exI [of _ stored]) (assumption | rule subset_refl | rule s(3))+
qed


section \<open>The operations on a store\<close>

lemma filter_fresh: "map_of xs h = None \<Longrightarrow> filter (\<lambda>x. fst x \<noteq> h) xs = xs"
  by (induction xs) (auto split: if_splits)

lemma sign_prepared_unsigned:
  assumes "sweep_laws ow cd" "sign_prepared ow cd D prepared w = (Inr tx, w')"
    and "cd_psbt_from_str cd (sw_psbt prepared) = Some p"
  shows "tx_unsigned tx = ps_unsigned_tx p"
proof -
  from assms(2,3) obtain q where "ow_extract_tx ow q = Some tx" "ps_unsigned_tx q = ps_unsigned_tx p"
    by (auto simp: sign_prepared_def split: sum.splits prod.splits option.splits if_splits)
  moreover from this(1) have "tx_unsigned tx = ps_unsigned_tx q" by (rule sweep_lawsD(6) [OF assms(1)])
  ultimately show ?thesis by simp
qed

lemma signed_before_spec:
  "signed_before txs I = r \<Longrightarrow> r \<noteq> Inl SweepPanic
    \<and> (\<forall>tx. r = Inr (Some tx) \<longrightarrow> tx \<in> set txs \<and> tx_inputs (tx_unsigned tx) = I)
    \<and> (r = Inr None \<longrightarrow> (\<forall>tx \<in> set txs. tx_inputs (tx_unsigned tx) \<inter> I = {}))"
proof (induction txs arbitrary: r)
  case (Cons tx txs)
  from Cons.IH [of "signed_before txs I"] Cons.prems show ?case
    by (auto simp: Let_def split: if_splits)
qed auto

definition spender_inv ::
  "(spendable_output list \<Rightarrow> u64) \<Rightarrow> sweep_codec \<Rightarrow> spendable_output list set \<Rightarrow> ('st \<Rightarrow> kv_view)
     \<Rightarrow> output_spender_txes \<Rightarrow> 'st \<Rightarrow> transaction list \<Rightarrow> bool" where
  "spender_inv hash cd DD view txes st handed =
     sweep_inv hash cd DD (sweeps_of (view st)) (txes_of (view st)) txes handed"

text \<open>What an attempt over \<open>D\<close> leaves: after a panic the memory is lost, and what is returned is kept,
  with the inputs of \<open>D\<close>, or is a plain spend.\<close>

definition attempt_ok ::
  "'w sweep_world \<Rightarrow> sweep_codec \<Rightarrow> spendable_output list set \<Rightarrow> ('st \<Rightarrow> kv_view) \<Rightarrow> spendable_output list
     \<Rightarrow> txout list \<Rightarrow> bytes \<Rightarrow> u32 \<Rightarrow> u32 option \<Rightarrow> transaction list \<Rightarrow> ('st, 'w) spender
     \<Rightarrow> sweep_fail + transaction \<Rightarrow> ('st, 'w) spender \<Rightarrow> bool" where
  "attempt_ok ow cd DD view D outs change fee lock handed s r s' \<longleftrightarrow>
     (case r of
        Inl SweepPanic \<Rightarrow> spender_inv (ow_hash ow) cd DD view (sp_txes s) (sp_store s') handed
      | Inl SweepErr \<Rightarrow> spender_inv (ow_hash ow) cd DD view (sp_txes s') (sp_store s') handed
      | Inr tx \<Rightarrow>
          spender_inv (ow_hash ow) cd DD view (sp_txes s') (sp_store s') (tx # handed)
            \<and> tx_inputs (tx_unsigned tx) = outpoints D
          \<or> spender_inv (ow_hash ow) cd DD view (sp_txes s') (sp_store s') handed \<and> sp_txes s' = sp_txes s
            \<and> (\<forall>tx \<in> set handed. tx_inputs (tx_unsigned tx) \<inter> outpoints D = {})
            \<and> (\<exists>outs w w'. ow_spend_plain ow D outs change fee lock w = (Inr tx, w')))"

lemma attempt_cong:
  "sp_txes s1 = sp_txes s \<Longrightarrow> attempt_ok ow cd DD view D outs change fee lock handed s1 r s'
     = attempt_ok ow cd DD view D outs change fee lock handed s r s'"
  by (simp only: attempt_ok_def)

lemma inv_handed:
  "spender_inv hash cd DD view txes st handed \<Longrightarrow> tx \<in> snd ` set txes \<Longrightarrow>
   spender_inv hash cd DD view txes st (tx # handed)"
  by (simp add: spender_inv_def sweep_inv_def)

lemma inv_handed_kept:
  "spender_inv hash cd DD view txes st handed \<Longrightarrow> set handed \<subseteq> snd ` set txes"
  by (simp add: spender_inv_def sweep_inv_def)

lemma inv_kept_inputs:
  assumes "spender_inv hash cd DD view txes st handed" "(hash D, tx) \<in> set txes" "D \<in> DD" "inj_on hash DD"
  shows "tx_inputs (tx_unsigned tx) = outpoints D"
proof -
  from assms(1) obtain stored where "set txes \<subseteq> set stored" "kept_ok hash DD stored"
    unfolding spender_inv_def sweep_inv_def by (elim conjE exE)
  with assms(2) obtain D' where D': "D' \<in> DD" "hash D = hash D'" "tx_inputs (tx_unsigned tx) = outpoints D'"
    unfolding kept_ok_def by blast
  with inj_onD [OF assms(4) D'(2) assms(3) D'(1)] show ?thesis by simp
qed

text \<open>A run of the spender from a store with no sweep: attempts over sets of \<open>DD\<close>, where a panic takes the
  node down with the memory of the spender (\<open>supervise_background_processor\<close>), reconciliations in which
  the chain confirms only what was handed over, restarts, and anything else the node does with the
  store. It collects the RGB sweeps that were handed to LDK.\<close>

definition handed_over ::
  "sweep_fail + transaction \<Rightarrow> ('st, 'w) spender \<Rightarrow> transaction list \<Rightarrow> transaction list" where
  "handed_over r s handed =
     (case r of Inr tx \<Rightarrow> if tx \<in> snd ` set (sp_txes s) then tx # handed else handed | Inl _ \<Rightarrow> handed)"

inductive sweep_run ::
  "'w sweep_world \<Rightarrow> sweep_config \<Rightarrow> 'st kv_ops \<Rightarrow> sweep_codec \<Rightarrow> ('st \<Rightarrow> kv_view) \<Rightarrow> spendable_output list set
     \<Rightarrow> ('st, 'w) spender \<Rightarrow> transaction list \<Rightarrow> bool"
  for ow cfg ops cd view DD where
  start: "sweeps_of (view st0) = (\<lambda>_. None) \<Longrightarrow> txes_of (view st0) = None \<Longrightarrow>
    load_spender ops cd st0 w = (Some s, st) \<Longrightarrow> sweep_run ow cfg ops cd view DD s []"
| attempt: "sweep_run ow cfg ops cd view DD s handed \<Longrightarrow> D \<in> DD \<Longrightarrow>
    try_spend_spendable_outputs ow cfg ops cd D outs change fee lock s = (r, s') \<Longrightarrow> r \<noteq> Inl SweepPanic \<Longrightarrow>
    sweep_run ow cfg ops cd view DD s' (handed_over r s' handed)"
| crash: "sweep_run ow cfg ops cd view DD s handed \<Longrightarrow> D \<in> DD \<Longrightarrow>
    try_spend_spendable_outputs ow cfg ops cd D outs change fee lock s = (Inl SweepPanic, s') \<Longrightarrow>
    load_spender ops cd (sp_store s') w = (Some s'', st) \<Longrightarrow> sweep_run ow cfg ops cd view DD s'' handed"
| reconcile: "sweep_run ow cfg ops cd view DD s handed \<Longrightarrow>
    (\<And>u w w'. is_confirmed (cd_compute_txid cd u) w = (Inr True, w') \<Longrightarrow> u \<in> tx_unsigned ` set handed) \<Longrightarrow>
    reconcile_prepared_sweeps ops cd is_confirmed consume (sp_store s, sp_world s) = (q, st, w) \<Longrightarrow>
    sweep_run ow cfg ops cd view DD (s\<lparr>sp_store := st, sp_world := w\<rparr>) handed"
| restart: "sweep_run ow cfg ops cd view DD s handed \<Longrightarrow> load_spender ops cd (sp_store s) w = (Some s', st) \<Longrightarrow>
    sweep_run ow cfg ops cd view DD s' handed"
| others: "sweep_run ow cfg ops cd view DD s handed \<Longrightarrow>
    sweeps_of (view st) = sweeps_of (view (sp_store s)) \<Longrightarrow> txes_of (view st) = txes_of (view (sp_store s)) \<Longrightarrow>
    sweep_run ow cfg ops cd view DD (s\<lparr>sp_store := st, sp_world := w, sp_recipients := rs\<rparr>) handed"

text \<open>A receipt is settled when its transaction was found confirmed and its batch was then consumed.\<close>

definition settled ::
  "sweep_codec \<Rightarrow> (string \<Rightarrow> 'w \<Rightarrow> (unit + bool) \<times> 'w) \<Rightarrow> (int \<Rightarrow> 'w \<Rightarrow> (unit + unit) \<times> 'w) \<Rightarrow> bytes \<Rightarrow> bool" where
  "settled cd is_confirmed consume b \<longleftrightarrow>
     (\<exists>sw txid w w1 w2. cd_decode_sweep cd b = Some sw \<and> sweep_txid cd sw = Some txid
        \<and> is_confirmed txid w = (Inr True, w1) \<and> consume (sw_batch_transfer_idx sw) w1 = (Inr (), w2))"

definition only_settled_removed ::
  "sweep_codec \<Rightarrow> (string \<Rightarrow> 'w \<Rightarrow> (unit + bool) \<times> 'w) \<Rightarrow> (int \<Rightarrow> 'w \<Rightarrow> (unit + unit) \<times> 'w)
     \<Rightarrow> (string \<Rightarrow> bytes option) \<Rightarrow> (string \<Rightarrow> bytes option) \<Rightarrow> bool" where
  "only_settled_removed cd is_confirmed consume R R' \<longleftrightarrow>
     (\<forall>k. R' k = R k \<or> R' k = None \<and> (\<exists>b. R k = Some b \<and> settled cd is_confirmed consume b))"

lemma only_settled_refl [simp]: "only_settled_removed cd is_confirmed consume R R"
  by (simp add: only_settled_removed_def)

lemma only_settled_trans:
  "only_settled_removed cd is_confirmed consume R R' \<Longrightarrow> only_settled_removed cd is_confirmed consume R' R'' \<Longrightarrow>
   only_settled_removed cd is_confirmed consume R R''"
  unfolding only_settled_removed_def by (metis option.simps(3))

lemma upd_or_same:
  assumes "\<And>j. j \<noteq> k \<Longrightarrow> f j = g j" "f k = x \<or> P \<and> f k = g k"
  shows "f = g(k := x) \<or> P \<and> f = g"
proof (cases "f k = x")
  case True
  have "f = g(k := x)"
  proof
    fix j show "f j = (g(k := x)) j"
      using True assms(1) [of j] by (cases "j = k") simp_all
  qed
  then show ?thesis ..
next
  case False
  with assms(2) have "P" and k: "f k = g k" by blast+
  have "f = g"
  proof
    fix j show "f j = g j"
      using k assms(1) [of j] by (cases "j = k") simp_all
  qed
  with \<open>P\<close> have "P \<and> f = g" by (rule conjI)
  then show ?thesis ..
qed

locale sweep_store = kv_store_sync "ko_read ops" "ko_write ops" "ko_remove ops" view ok
  for ops :: "'st kv_ops" and view :: "'st \<Rightarrow> kv_view" and ok :: "kv_key \<Rightarrow> bool" +
  assumes ls_view: "ok x \<Longrightarrow> view (snd (ko_list ops st p q)) x = view st x"
    and ls_Ok: "fst (ko_list ops st p q) = Inr keys \<Longrightarrow> ok (p, q, k) \<Longrightarrow> k \<in> set keys \<longleftrightarrow> view st (p, q, k) \<noteq> None"
    and ok_sweeps: "ok (SWEEP_NAMESPACE, [], k)"
    and ok_txes: "ok ([], [], OUTPUT_SPENDER_TXES_KEY)"
begin

lemma namespaces_differ: "(SWEEP_NAMESPACE, [], k) \<noteq> ([], [], OUTPUT_SPENDER_TXES_KEY)"
  by (simp add: SWEEP_NAMESPACE_def)

lemma rd_same:
  assumes "ko_read ops st k = (r, st')" "ok k"
  shows "sweeps_of (view st') = sweeps_of (view st) \<and> txes_of (view st') = txes_of (view st)"
  using rd_view [OF assms(2), of _ st] assms(1) ok_sweeps ok_txes
  by (auto simp: sweeps_of_def txes_of_def fun_eq_iff)

lemma ls_same:
  assumes "ko_list ops st p q = (r, st')"
  shows "sweeps_of (view st') = sweeps_of (view st) \<and> txes_of (view st') = txes_of (view st)"
  using ls_view [of _ st p q] assms ok_sweeps ok_txes
  by (auto simp: sweeps_of_def txes_of_def fun_eq_iff)

lemma wr_txes:
  assumes "ko_write ops st ([], [], OUTPUT_SPENDER_TXES_KEY) b = (r, st')"
  shows "sweeps_of (view st') = sweeps_of (view st)
    \<and> (txes_of (view st') = Some b \<or> r \<noteq> Inr () \<and> txes_of (view st') = txes_of (view st))"
  using wr_other [OF ok_txes ok_sweeps namespaces_differ, of st b] wr_Ok [OF ok_txes, of st b]
    wr_Err [OF ok_txes, of st b] assms
  by (auto simp: sweeps_of_def txes_of_def fun_eq_iff)

lemma wr_sweep:
  assumes "ko_write ops st (SWEEP_NAMESPACE, [], k) b = (r, st')"
  shows "txes_of (view st') = txes_of (view st)
    \<and> (sweeps_of (view st') = (sweeps_of (view st))(k \<mapsto> b)
       \<or> r \<noteq> Inr () \<and> sweeps_of (view st') = sweeps_of (view st))"
proof -
  have "sweeps_of (view st') = (sweeps_of (view st))(k \<mapsto> b)
      \<or> r \<noteq> Inr () \<and> sweeps_of (view st') = sweeps_of (view st)"
  proof (rule upd_or_same)
    show "sweeps_of (view st') j = sweeps_of (view st) j" if "j \<noteq> k" for j
      using wr_other [OF ok_sweeps ok_sweeps, of j k st b] assms that by (simp add: sweeps_of_def)
    show "sweeps_of (view st') k = Some b \<or> r \<noteq> Inr () \<and> sweeps_of (view st') k = sweeps_of (view st) k"
      using wr_Ok [OF ok_sweeps, of st k b] wr_Err [OF ok_sweeps, of st k b] assms by (auto simp: sweeps_of_def)
  qed
  moreover have "txes_of (view st') = txes_of (view st)"
    using wr_other [OF ok_sweeps ok_txes, of k st b] namespaces_differ [of k] assms by (auto simp: txes_of_def)
  ultimately show ?thesis by blast
qed

lemma rm_sweep:
  assumes "ko_remove ops st (SWEEP_NAMESPACE, [], k) = (r, st')"
  shows "txes_of (view st') = txes_of (view st)
    \<and> (sweeps_of (view st') = (sweeps_of (view st))(k := None)
       \<or> r \<noteq> Inr () \<and> sweeps_of (view st') = sweeps_of (view st))"
proof -
  have "sweeps_of (view st') = (sweeps_of (view st))(k := None)
      \<or> r \<noteq> Inr () \<and> sweeps_of (view st') = sweeps_of (view st)"
  proof (rule upd_or_same)
    show "sweeps_of (view st') j = sweeps_of (view st) j" if "j \<noteq> k" for j
      using rm_other [OF ok_sweeps ok_sweeps, of j k st] assms that by (simp add: sweeps_of_def)
    show "sweeps_of (view st') k = None \<or> r \<noteq> Inr () \<and> sweeps_of (view st') k = sweeps_of (view st) k"
      using rm_Ok [OF ok_sweeps, of st k] rm_Err [OF ok_sweeps, of st k] assms by (auto simp: sweeps_of_def)
  qed
  moreover have "txes_of (view st') = txes_of (view st)"
    using rm_other [OF ok_sweeps ok_txes, of k st] namespaces_differ [of k] assms by (auto simp: txes_of_def)
  ultimately show ?thesis by blast
qed

lemma sweep_read_spec:
  assumes "sweep_read ops cd key st = (r, st')"
  shows "sweeps_of (view st') = sweeps_of (view st) \<and> txes_of (view st') = txes_of (view st)
    \<and> (r = Inr None \<longrightarrow> sweeps_of (view st) key = None)
    \<and> (\<forall>sw. r = Inr (Some sw) \<longrightarrow> (\<exists>b. sweeps_of (view st) key = Some b \<and> cd_decode_sweep cd b = Some sw))"
proof -
  obtain q st1 where q: "ko_read ops st (SWEEP_NAMESPACE, [], key) = (q, st1)"
    by (cases "ko_read ops st (SWEEP_NAMESPACE, [], key)")
  note same = rd_same [OF q ok_sweeps]
  show ?thesis
  proof (cases q)
    case (Inl e)
    with assms q have r: "st' = st1" "r = (if e = Io NotFound then Inr None else Inl (sweep_fail_of e))"
      by (simp_all add: sweep_read_def split: if_splits)
    have "sweeps_of (view st) key = None" if "r = Inr None"
      using rd_NotFound [OF ok_sweeps, of st key] q Inl r(2) that by (simp add: sweeps_of_def split: if_splits)
    with r same show ?thesis by (simp split: if_splits)
  next
    case (Inr b)
    with assms q have r: "st' = st1"
      "r = (case cd_decode_sweep cd b of Some sw \<Rightarrow> Inr (Some sw) | None \<Rightarrow> Inl SweepErr)"
      by (simp_all add: sweep_read_def split: option.splits)
    have "sweeps_of (view st) key = Some b"
      using rd_Ok [OF ok_sweeps, of st key b] q Inr by (simp add: sweeps_of_def)
    with r same show ?thesis by (simp split: option.splits)
  qed
qed

lemma find_loop_spec:
  assumes "find_loop ops cd I keys m u st = (r, st')"
  shows "sweeps_of (view st') = sweeps_of (view st) \<and> txes_of (view st') = txes_of (view st)
    \<and> (\<forall>sw. r = Inr (Some sw) \<longrightarrow> m = Some sw \<or> (\<exists>k b x. sweeps_of (view st) k = Some b
         \<and> cd_decode_sweep cd b = Some sw \<and> receipt_of cd b = Some x \<and> tx_inputs x = I))
    \<and> (r = Inr None \<longrightarrow> m = None \<and> \<not> u \<and> (\<forall>k \<in> set keys. \<forall>b x. sweeps_of (view st) k = Some b
         \<longrightarrow> receipt_of cd b = Some x \<longrightarrow> tx_inputs x \<inter> I = {}))"
  using assms
proof (induction keys arbitrary: m u st)
  case Nil
  then show ?case by (auto split: if_splits)
next
  case (Cons key keys)
  obtain q st1 where q: "sweep_read ops cd key st = (q, st1)" by (cases "sweep_read ops cd key st")
  note sp = sweep_read_spec [OF q]
  show ?case
  proof (cases q)
    case (Inl e)
    with Cons.prems q have "e = SweepPanic \<and> r = Inl SweepPanic \<and> st' = st1
        \<or> find_loop ops cd I keys m True st1 = (r, st')" by (cases e) simp_all
    then show ?thesis using Cons.IH [of m True st1] sp by auto
  next
    case (Inr x)
    show ?thesis
    proof (cases x)
      case None
      with Cons.prems q Inr have "find_loop ops cd I keys m u st1 = (r, st')" by simp
      from Cons.IH [OF this] sp Inr None show ?thesis by simp
    next
      case (Some sw)
      with sp Inr obtain b where b: "sweeps_of (view st) key = Some b" "cd_decode_sweep cd b = Some sw" by blast
      show ?thesis
      proof (cases "cd_psbt_from_str cd (sw_psbt sw)")
        case None
        with Cons.prems q Inr Some have "find_loop ops cd I keys m True st1 = (r, st')" by simp
        from Cons.IH [OF this] sp show ?thesis by simp
      next
        case p: (Some p)
        then have rc: "receipt_of cd b = Some (ps_unsigned_tx p)" using b by (simp add: receipt_of_def)
        consider "tx_inputs (ps_unsigned_tx p) \<inter> I = {}" "find_loop ops cd I keys m u st1 = (r, st')"
          | "r = Inl SweepErr" "st' = st1"
          | "tx_inputs (ps_unsigned_tx p) = I" "find_loop ops cd I keys (Some sw) u st1 = (r, st')"
          using Cons.prems q Inr Some p by (auto simp: Let_def split: if_splits)
        then show ?thesis
        proof cases
          case 1
          from Cons.IH [OF 1(2)] sp 1(1) b rc show ?thesis by simp
        next
          case 2
          with sp show ?thesis by simp
        next
          case 3
          from Cons.IH [OF 3(2)] sp 3(1) b rc show ?thesis by auto
        qed
      qed
    qed
  qed
qed

lemma find_prepared_spec:
  assumes "find_prepared_sweep ops cd I st = (r, st')"
  shows "sweeps_of (view st') = sweeps_of (view st) \<and> txes_of (view st') = txes_of (view st)
    \<and> (\<forall>sw. r = Inr (Some sw) \<longrightarrow> (\<exists>k b x. sweeps_of (view st) k = Some b
         \<and> cd_decode_sweep cd b = Some sw \<and> receipt_of cd b = Some x \<and> tx_inputs x = I))
    \<and> (r = Inr None \<longrightarrow> (\<forall>x \<in> receipts cd (sweeps_of (view st)). tx_inputs x \<inter> I = {}))"
proof -
  obtain q st1 where q: "ko_list ops st SWEEP_NAMESPACE [] = (q, st1)" by (cases "ko_list ops st SWEEP_NAMESPACE []")
  note sp = ls_same [OF q]
  show ?thesis
  proof (cases q)
    case (Inl e)
    with assms q sp show ?thesis by (auto simp: find_prepared_sweep_def)
  next
    case (Inr keys)
    have keys: "k \<in> set keys \<longleftrightarrow> sweeps_of (view st) k \<noteq> None" for k
      using ls_Ok [of st SWEEP_NAMESPACE "[]" keys k] q Inr ok_sweeps by (simp add: sweeps_of_def)
    from assms q Inr have "find_loop ops cd I keys None False st1 = (r, st')" by (simp add: find_prepared_sweep_def)
    note fl = find_loop_spec [OF this, unfolded conjunct1 [OF sp] conjunct2 [OF sp]]
    have "tx_inputs x \<inter> I = {}" if "r = Inr None" "x \<in> receipts cd (sweeps_of (view st))" for x
    proof -
      from that(2) obtain k b where kb: "sweeps_of (view st) k = Some b" "receipt_of cd b = Some x"
        by (auto simp: receipts_def)
      then have "k \<in> set keys" by (simp add: keys)
      with fl kb that(1) show ?thesis by blast
    qed
    with fl show ?thesis by simp
  qed
qed

text \<open>Collecting the descriptors leaves the record of sweeps alone.\<close>

lemma collect_one_spec:
  assumes "collect_descriptor ow cfg ops cd h d pl s = (r, s')"
    and "\<And>k. ok (fst (oc_transfer_info_ns cfg), snd (oc_transfer_info_ns cfg), k)"
  shows "sp_txes s' = sp_txes s \<and> sweeps_of (view (sp_store s')) = sweeps_of (view (sp_store s))
    \<and> txes_of (view (sp_store s')) = txes_of (view (sp_store s))"
proof -
  let ?k = "(fst (oc_transfer_info_ns cfg), snd (oc_transfer_info_ns cfg), fst (descriptor_outpoint d))"
  obtain q st where q: "ko_read ops (sp_store s) ?k = (q, st)" by (cases "ko_read ops (sp_store s) ?k")
  have "sp_txes s' = sp_txes s \<and> sp_store s' = st"
    using assms(1) q
    by (auto simp: collect_descriptor_def Let_def settle_closing_def add_asset_def sweep_recipient_def
        split: sum.splits failure.splits option.splits if_splits prod.splits bool.splits)
  with rd_same [OF q assms(2)] show ?thesis by simp
qed

lemma collect_spec:
  assumes "collect_descriptors ow cfg ops cd h ds pl s = (r, s')"
    and "\<And>k. ok (fst (oc_transfer_info_ns cfg), snd (oc_transfer_info_ns cfg), k)"
  shows "sp_txes s' = sp_txes s \<and> sweeps_of (view (sp_store s')) = sweeps_of (view (sp_store s))
    \<and> txes_of (view (sp_store s')) = txes_of (view (sp_store s))"
  using assms(1)
proof (induction ds arbitrary: pl s)
  case (Cons d ds)
  obtain q s1 where q: "collect_descriptor ow cfg ops cd h d pl s = (q, s1)"
    by (cases "collect_descriptor ow cfg ops cd h d pl s")
  note c = collect_one_spec [OF q assms(2)]
  show ?case
  proof (cases q)
    case (Inl e)
    with Cons.prems q c show ?thesis by simp
  next
    case (Inr pl')
    with Cons.prems q have "collect_descriptors ow cfg ops cd h ds pl' s1 = (r, s')" by simp
    from Cons.IH [OF this] c show ?thesis by simp
  qed
qed simp

lemma persist_spec:
  assumes "sweep_persist ops cd sw key st = (r, st')"
  shows "txes_of (view st') = txes_of (view st)
    \<and> (sweeps_of (view st') = sweeps_of (view st) \<and> r \<noteq> Inr ()
       \<or> (\<exists>b. cd_encode_sweep cd sw = Some b \<and> sweeps_of (view st') = (sweeps_of (view st))(key \<mapsto> b)))"
proof (cases "cd_encode_sweep cd sw")
  case None
  with assms show ?thesis by (auto simp: sweep_persist_def)
next
  case (Some b)
  obtain q st1 where q: "ko_write ops st (SWEEP_NAMESPACE, [], key) b = (q, st1)"
    by (cases "ko_write ops st (SWEEP_NAMESPACE, [], key) b")
  with assms Some have "st' = st1" "r = Inr () \<Longrightarrow> q = Inr ()"
    by (auto simp: sweep_persist_def split: sum.splits)
  with wr_sweep [OF q] Some show ?thesis by auto
qed

lemma prepare_spec:
  assumes laws: "sweep_laws ow cd" and p: "prepare_sweep ow cfg ops cd D h pl change lock s = (r, s')"
  shows "sp_txes s' = sp_txes s \<and> txes_of (view (sp_store s')) = txes_of (view (sp_store s))
    \<and> (sweeps_of (view (sp_store s')) = sweeps_of (view (sp_store s)) \<and> (\<exists>e. r = Inl e)
       \<or> (\<exists>b u. sweeps_of (view (sp_store s')) = (sweeps_of (view (sp_store s)))(show_u64 h \<mapsto> b)
            \<and> receipt_of cd b = Some u \<and> tx_inputs u = outpoints D
            \<and> (\<forall>sw. r = Inr sw \<longrightarrow> cd_decode_sweep cd b = Some sw)))"
proof -
  note L = sweep_lawsD [OF laws]
  let ?cr = "ow_create_psbt ow D (pl_txouts pl) change (ucast (oc_fee_rate_sat_vb cfg) * 250) lock"
  show ?thesis
  proof (cases ?cr)
    case None
    with p show ?thesis by (auto simp: prepare_sweep_def)
  next
    case p0: (Some p0)
    have rt: "cd_psbt_from_str cd (cd_psbt_to_string cd p0) = Some p0" by (rule L(1))
    let ?I = "map (\<lambda>(contract, vout, amt, _). (contract, vout, amt)) (pl_assets pl)"
    obtain c w where c: "ow_color_psbt ow p0 ?I (sp_world s) = (c, w)" by (cases "ow_color_psbt ow p0 ?I (sp_world s)")
    show ?thesis
    proof (cases c)
      case (Inl e)
      with p p0 rt c show ?thesis by (auto simp: prepare_sweep_def)
    next
      case (Inr x)
      then obtain q batch transfers where x: "c = Inr (q, batch, transfers)" by (cases x) auto
      have inputs: "tx_inputs (ps_unsigned_tx q) = outpoints D"
        using L(4) [OF p0] L(5) [OF c [unfolded x]] by simp
      obtain t w2 where t: "ow_tempdir ow w = (t, w2)" by (cases "ow_tempdir ow w")
      show ?thesis
      proof (cases "sweep_new t (cd_psbt_to_string cd q) batch transfers")
        case None
        with p p0 rt c x t show ?thesis by (auto simp: prepare_sweep_def)
      next
        case sw: (Some sw)
        obtain e st where e: "sweep_persist ops cd sw (show_u64 h) (sp_store s) = (e, st)"
          by (cases "sweep_persist ops cd sw (show_u64 h) (sp_store s)")
        have s': "sp_txes s' = sp_txes s \<and> sp_store s' = st \<and> r = map_sum id (\<lambda>_. sw) e"
          using p p0 rt c x t sw e
          by (auto simp: prepare_sweep_def split: sum.splits sweep_fail.splits)
        have psbt: "cd_psbt_from_str cd (sw_psbt sw) = Some q"
          using sw L(1) by (auto simp: sweep_new_def split: if_splits)
        from persist_spec [OF e] consider
            "txes_of (view st) = txes_of (view (sp_store s))" "sweeps_of (view st) = sweeps_of (view (sp_store s))" "e \<noteq> Inr ()"
          | b where "txes_of (view st) = txes_of (view (sp_store s))" "cd_encode_sweep cd sw = Some b"
              "sweeps_of (view st) = (sweeps_of (view (sp_store s)))(show_u64 h \<mapsto> b)" by blast
        then show ?thesis
        proof cases
          case 1
          with s' show ?thesis by (cases e) simp_all
        next
          case (2 b)
          have dec: "cd_decode_sweep cd b = Some sw" by (rule L(2) [OF 2(2)])
          then have "receipt_of cd b = Some (ps_unsigned_tx q)" using psbt by (simp add: receipt_of_def)
          with 2 dec inputs s' show ?thesis by (cases e) auto
        qed
      qed
    qed
  qed
qed

lemma finish_spec:
  assumes laws: "sweep_laws ow cd" and f: "finish_prepared_rgb_sweep ow ops cd D h prepared s = (r, s')"
    and h: "map_of (sp_txes s) h = None" and p: "cd_psbt_from_str cd (sw_psbt prepared) = Some p"
  shows "sweeps_of (view (sp_store s')) = sweeps_of (view (sp_store s))
    \<and> (txes_of (view (sp_store s')) = txes_of (view (sp_store s))
       \<or> (\<exists>tx. tx_unsigned tx = ps_unsigned_tx p
            \<and> txes_of (view (sp_store s')) = Some (cd_encode_txes cd (sp_txes s @ [(h, tx)]))))
    \<and> (r = Inl SweepErr \<longrightarrow> sp_txes s' = sp_txes s)
    \<and> (\<forall>tx. r = Inr tx \<longrightarrow> tx_unsigned tx = ps_unsigned_tx p \<and> sp_txes s' = sp_txes s @ [(h, tx)]
         \<and> txes_of (view (sp_store s')) = Some (cd_encode_txes cd (sp_txes s @ [(h, tx)])))"
proof -
  note up = update_fresh [OF h] filter_fresh [OF h]
  obtain o1 w1 where sg: "sign_prepared ow cd D prepared (sp_world s) = (o1, w1)"
    by (cases "sign_prepared ow cd D prepared (sp_world s)")
  show ?thesis
  proof (cases o1)
    case (Inl e)
    with f sg show ?thesis by (auto simp: finish_prepared_rgb_sweep_def)
  next
    case (Inr tx)
    have tx: "tx_unsigned tx = ps_unsigned_tx p"
      by (rule sign_prepared_unsigned [OF laws _ p]) (use sg Inr in simp)
    let ?c = "provide_consignments ow (cd_compute_txid cd (tx_unsigned tx)) (sw_consignments prepared) w1"
    obtain o2 w2 where pc: "?c = (o2, w2)" by (cases ?c)
    let ?b = "cd_encode_txes cd (sp_txes s @ [(h, tx)])"
    let ?w = "ko_write ops (sp_store s) ([], [], OUTPUT_SPENDER_TXES_KEY) ?b"
    obtain q st where wr: "?w = (q, st)" by (cases ?w)
    show ?thesis
    proof (cases o2)
      case (Inl e)
      with f sg \<open>o1 = Inr tx\<close> pc show ?thesis by (auto simp: finish_prepared_rgb_sweep_def)
    next
      case o2: (Inr x)
      have fin: "(r, s') = (case q of
            Inl e \<Rightarrow> (Inl (sweep_fail_of e), s\<lparr>sp_world := w2, sp_store := st,
              sp_txes := (if e = Panic then sp_txes s @ [(h, tx)] else sp_txes s)\<rparr>)
          | Inr _ \<Rightarrow> (Inr tx, s\<lparr>sp_world := w2, sp_store := st, sp_txes := sp_txes s @ [(h, tx)],
              sp_recipients := filter (\<lambda>x. fst (fst x) \<noteq> h) (sp_recipients s)\<rparr>))"
        using f sg Inr pc wr o2 by (cases q) (auto simp: finish_prepared_rgb_sweep_def Let_def up split: if_splits)
      show ?thesis
      proof (cases q)
        case (Inl e)
        with fin wr_txes [OF wr] tx show ?thesis by (cases e) auto
      next
        case (Inr _)
        with fin wr_txes [OF wr] tx show ?thesis by auto
      qed
    qed
  qed
qed

lemma finish_inv:
  assumes laws: "sweep_laws ow cd" and inv: "spender_inv (ow_hash ow) cd DD view (sp_txes s) (sp_store s) handed"
    and D: "D \<in> DD" and h: "map_of (sp_txes s) (ow_hash ow D) = None"
    and b: "sweeps_of (view (sp_store s)) k = Some b" "cd_decode_sweep cd b = Some prepared"
      "receipt_of cd b = Some u" "tx_inputs u = outpoints D"
    and f: "finish_prepared_rgb_sweep ow ops cd D (ow_hash ow D) prepared s = (r, s')"
  shows "attempt_ok ow cd DD view D outs change fee lock handed s r s'"
proof -
  from b(2,3) obtain p where p: "cd_psbt_from_str cd (sw_psbt prepared) = Some p" "ps_unsigned_tx p = u"
    by (auto simp: receipt_of_def)
  note F = finish_spec [OF laws f h p(1), unfolded p(2)]
  have u: "u \<in> receipts cd (sweeps_of (view (sp_store s)))" using b(1,3) by (auto simp: receipts_def)
  have keep: "sweep_inv (ow_hash ow) cd DD (sweeps_of (view (sp_store s))) (Some (cd_encode_txes cd (sp_txes s @ [(ow_hash ow D, tx)])))
        (sp_txes s) handed
      \<and> sweep_inv (ow_hash ow) cd DD (sweeps_of (view (sp_store s))) (Some (cd_encode_txes cd (sp_txes s @ [(ow_hash ow D, tx)])))
        (sp_txes s @ [(ow_hash ow D, tx)]) (tx # handed)" if "tx_unsigned tx = u" for tx
    by (rule inv_keep_tx [OF inv [unfolded spender_inv_def] sweep_lawsD(3) [OF laws] _ D refl])
      (use that u b(4) in simp_all)
  have old: "spender_inv (ow_hash ow) cd DD view (sp_txes s) (sp_store s') handed"
    using F keep inv unfolding spender_inv_def by auto
  show ?thesis
  proof (cases r)
    case (Inl e)
    with old F show ?thesis by (cases e) (simp_all add: attempt_ok_def)
  next
    case (Inr tx)
    with F keep [of tx] b(4) show ?thesis by (simp add: attempt_ok_def spender_inv_def)
  qed
qed

lemma new_sweep_inv:
  assumes laws: "sweep_laws ow cd" and hash: "inj_on (ow_hash ow) DD" and D: "D \<in> DD"
    and ns: "\<And>k. ok (fst (oc_transfer_info_ns cfg), snd (oc_transfer_info_ns cfg), k)"
    and inv: "spender_inv (ow_hash ow) cd DD view (sp_txes s) (sp_store s) handed"
    and h: "map_of (sp_txes s) (ow_hash ow D) = None"
    and fresh: "\<forall>u \<in> unsigneds (sp_txes s) \<union> receipts cd (sweeps_of (view (sp_store s))). tx_inputs u \<inter> outpoints D = {}"
    and n: "new_sweep ow cfg ops cd D outs change fee lock s = (r, s')"
  shows "attempt_ok ow cd DD view D outs change fee lock handed s r s'"
proof -
  let ?pl = "\<lparr>pl_vout = 0, pl_vanilla = True, pl_txouts = outs, pl_assets = []\<rparr>"
  obtain c s1 where c: "collect_descriptors ow cfg ops cd (ow_hash ow D) D ?pl s = (c, s1)"
    by (cases "collect_descriptors ow cfg ops cd (ow_hash ow D) D ?pl s")
  note C = collect_spec [OF c ns]
  have inv1: "spender_inv (ow_hash ow) cd DD view (sp_txes s) (sp_store s1) handed"
    using inv C by (simp add: spender_inv_def)
  show ?thesis
  proof (cases c)
    case (Inl e)
    with n c inv1 C show ?thesis by (cases e) (auto simp: new_sweep_def attempt_ok_def)
  next
    case (Inr pl)
    show ?thesis
    proof (cases "pl_vanilla pl")
      case True
      obtain q w where q: "ow_spend_plain ow D (pl_txouts pl) change fee lock (sp_world s1) = (q, w)"
        by (cases "ow_spend_plain ow D (pl_txouts pl) change fee lock (sp_world s1)")
      with n c Inr True have "sp_txes s' = sp_txes s1 \<and> sp_store s' = sp_store s1 \<and> r = map_sum (\<lambda>_. SweepErr) id q"
        by (auto simp: new_sweep_def split: sum.splits)
      moreover have "\<forall>tx \<in> set handed. tx_inputs (tx_unsigned tx) \<inter> outpoints D = {}"
        using fresh inv_handed_kept [OF inv] by (simp add: ball_Un subset_iff image_iff) blast
      ultimately show ?thesis using q inv1 C by (cases q) (auto simp: attempt_ok_def)
    next
      case False
      then have ne: "D \<noteq> []" using c Inr by auto
      obtain q s2 where q: "prepare_sweep ow cfg ops cd D (ow_hash ow D) pl change lock s1 = (q, s2)"
        by (cases "prepare_sweep ow cfg ops cd D (ow_hash ow D) pl change lock s1")
      note P = prepare_spec [OF laws q]
      have fresh': "\<forall>u' \<in> unsigneds (sp_txes s) \<union> receipts cd (sweeps_of (view (sp_store s1))). tx_inputs u' \<inter> outpoints D = {}"
        using fresh C by simp
      have add: "sweep_inv (ow_hash ow) cd DD ((sweeps_of (view (sp_store s1)))(show_u64 (ow_hash ow D) \<mapsto> b))
          (txes_of (view (sp_store s1))) (sp_txes s) handed"
        if "receipt_of cd b = Some u" "tx_inputs u = outpoints D" for b u
        by (rule inv_new_receipt [OF inv1 [unfolded spender_inv_def] D ne hash that fresh'])
      have inv2: "spender_inv (ow_hash ow) cd DD view (sp_txes s) (sp_store s2) handed"
        using P inv1 add by (auto simp: spender_inv_def)
      show ?thesis
      proof (cases q)
        case (Inl e)
        with n c Inr False q inv2 C P show ?thesis by (cases e) (auto simp: new_sweep_def attempt_ok_def)
      next
        case qr: (Inr prepared)
        with P obtain b u where b: "sweeps_of (view (sp_store s2)) (show_u64 (ow_hash ow D)) = Some b"
          "cd_decode_sweep cd b = Some prepared" "receipt_of cd b = Some u" "tx_inputs u = outpoints D"
          by auto
        have s2: "sp_txes s2 = sp_txes s" using C P by simp
        from n c Inr False q qr have
          "finish_prepared_rgb_sweep ow ops cd D (ow_hash ow D) prepared s2 = (r, s')" by (simp add: new_sweep_def)
        from finish_inv [OF laws _ D _ b this] inv2 h s2 show ?thesis by (simp only: attempt_cong [OF s2])
      qed
    qed
  qed
qed

lemma attempt_inv:
  assumes laws: "sweep_laws ow cd" and hash: "inj_on (ow_hash ow) DD" and D: "D \<in> DD"
    and ns: "\<And>k. ok (fst (oc_transfer_info_ns cfg), snd (oc_transfer_info_ns cfg), k)"
    and inv: "spender_inv (ow_hash ow) cd DD view (sp_txes s) (sp_store s) handed"
    and t: "try_spend_spendable_outputs ow cfg ops cd D outs change fee lock s = (r, s')"
  shows "attempt_ok ow cd DD view D outs change fee lock handed s r s'"
proof (cases "map_of (sp_txes s) (ow_hash ow D)")
  case (Some tx)
  then have tx: "(ow_hash ow D, tx) \<in> set (sp_txes s)" by (rule map_of_SomeD)
  then have k: "tx \<in> snd ` set (sp_txes s)" by force
  from t Some have "r = Inr tx" "s' = s" by (simp_all add: try_spend_spendable_outputs_def Let_def)
  with inv_handed [OF inv k] inv_kept_inputs [OF inv tx D hash] show ?thesis
    by (simp add: attempt_ok_def)
next
  case h: None
  let ?sb = "signed_before (map snd (sp_txes s)) (outpoints D)"
  note S = signed_before_spec [of "map snd (sp_txes s)" "outpoints D" ?sb, OF refl]
  consider (err) "?sb = Inl SweepErr" | (same) tx where "?sb = Inr (Some tx)" | (none) "?sb = Inr None"
    by (cases ?sb; (cases "projl ?sb"; use S in simp)?; cases "projr ?sb"; simp)
  then show ?thesis
  proof cases
    case err
    with t h have "r = Inl SweepErr" "s' = s" by (simp_all add: try_spend_spendable_outputs_def Let_def)
    with inv show ?thesis by (simp add: attempt_ok_def)
  next
    case same
    with S have k: "tx \<in> snd ` set (sp_txes s)" "tx_inputs (tx_unsigned tx) = outpoints D" by simp_all
    from t h same have "r = Inr tx" "s' = s" by (simp_all add: try_spend_spendable_outputs_def Let_def)
    with inv_handed [OF inv k(1)] k(2) show ?thesis by (simp add: attempt_ok_def)
  next
    case none
    obtain q st where q: "find_prepared_sweep ops cd (outpoints D) (sp_store s) = (q, st)"
      by (cases "find_prepared_sweep ops cd (outpoints D) (sp_store s)")
    note F = find_prepared_spec [OF q]
    let ?s = "s\<lparr>sp_store := st\<rparr>"
    have inv1: "spender_inv (ow_hash ow) cd DD view (sp_txes ?s) (sp_store ?s) handed"
      using inv F by (simp add: spender_inv_def)
    have same_txes: "sp_txes ?s = sp_txes s" by simp
    show ?thesis
    proof (cases q)
      case (Inl e)
      with t h none q have "r = Inl e" "s' = ?s" by (simp_all add: try_spend_spendable_outputs_def Let_def)
      with inv1 show ?thesis by (cases e) (simp_all add: attempt_ok_def)
    next
      case qr: (Inr x)
      show ?thesis
      proof (cases x)
        case (Some prepared)
        with F qr obtain k b u where b: "sweeps_of (view (sp_store ?s)) k = Some b"
          "cd_decode_sweep cd b = Some prepared" "receipt_of cd b = Some u" "tx_inputs u = outpoints D" by auto
        from t h none q qr Some have
          "finish_prepared_rgb_sweep ow ops cd D (ow_hash ow D) prepared ?s = (r, s')"
          by (simp add: try_spend_spendable_outputs_def Let_def)
        with inv1 h have "attempt_ok ow cd DD view D outs change fee lock handed ?s r s'"
          by (intro finish_inv [OF laws _ D _ b]) simp_all
        then show ?thesis by (simp only: attempt_cong [OF same_txes])
      next
        case None
        with t h none q qr have n: "new_sweep ow cfg ops cd D outs change fee lock ?s = (r, s')"
          by (simp add: try_spend_spendable_outputs_def Let_def)
        have "\<forall>u \<in> unsigneds (sp_txes ?s) \<union> receipts cd (sweeps_of (view (sp_store ?s))). tx_inputs u \<inter> outpoints D = {}"
          using S none F qr None by (simp add: ball_Un)
        with h have "attempt_ok ow cd DD view D outs change fee lock handed ?s r s'"
          by (intro new_sweep_inv [OF laws hash D ns inv1 _ _ n]) simp_all
        then show ?thesis by (simp only: attempt_cong [OF same_txes])
      qed
    qed
  qed
qed

lemma reconcile_one_inv:
  assumes inv: "spender_inv hash cd DD view txes (fst s) handed"
    and conf: "\<And>u w w'. is_confirmed (cd_compute_txid cd u) w = (Inr True, w') \<Longrightarrow> u \<in> tx_unsigned ` set handed"
    and r: "reconcile_one ops cd is_confirmed consume key s = (r, s')"
  shows "spender_inv hash cd DD view txes (fst s') handed"
proof -
  obtain q st where q: "sweep_read ops cd key (fst s) = (q, st)" by (cases "sweep_read ops cd key (fst s)")
  note R = sweep_read_spec [OF q]
  have inv1: "spender_inv hash cd DD view txes st handed" using inv R by (simp add: spender_inv_def)
  have rm: "spender_inv hash cd DD view txes st' handed"
    if rd: "q = Inr (Some sw)" and p: "cd_psbt_from_str cd (sw_psbt sw) = Some p"
      and c: "is_confirmed (cd_compute_txid cd (ps_unsigned_tx p)) w = (Inr True, w')"
      and m: "ko_remove ops st (SWEEP_NAMESPACE, [], key) = (x, st')" for sw p w w' x st'
  proof -
    from rd R obtain b where b: "sweeps_of (view st) key = Some b" "cd_decode_sweep cd b = Some sw" by auto
    have "sweep_inv hash cd DD ((sweeps_of (view st))(key := None)) (txes_of (view st)) txes handed"
      by (rule inv_drop_receipt [OF inv1 [unfolded spender_inv_def]])
        (use b p conf [OF c] in \<open>simp add: receipt_of_def\<close>)
    with rm_sweep [OF m] inv1 show ?thesis by (auto simp: spender_inv_def)
  qed
  from r q inv1 rm show ?thesis
    by (auto simp: reconcile_one_def sweep_txid_def split: sum.splits option.splits prod.splits bool.splits)
qed

lemma reconcile_loop_inv:
  "spender_inv hash cd DD view txes (fst s) handed \<Longrightarrow>
   (\<And>u w w'. is_confirmed (cd_compute_txid cd u) w = (Inr True, w') \<Longrightarrow> u \<in> tx_unsigned ` set handed) \<Longrightarrow>
   spender_inv hash cd DD view txes (fst (snd (reconcile_loop ops cd is_confirmed consume keys s))) handed"
proof (induction keys arbitrary: s)
  case (Cons key keys)
  obtain r s1 where r: "reconcile_one ops cd is_confirmed consume key s = (r, s1)"
    by (cases "reconcile_one ops cd is_confirmed consume key s")
  note inv1 = reconcile_one_inv [OF Cons.prems r]
  show ?case using r inv1 Cons.IH [OF inv1 Cons.prems(2)]
    by (simp split: sum.split sweep_fail.split)
qed simp

lemma reconcile_inv:
  assumes inv: "spender_inv hash cd DD view txes st handed"
    and conf: "\<And>u w w'. is_confirmed (cd_compute_txid cd u) w = (Inr True, w') \<Longrightarrow> u \<in> tx_unsigned ` set handed"
    and r: "reconcile_prepared_sweeps ops cd is_confirmed consume (st, w) = (q, st', w')"
  shows "spender_inv hash cd DD view txes st' handed"
proof -
  obtain l st1 where l: "ko_list ops st SWEEP_NAMESPACE [] = (l, st1)" by (cases "ko_list ops st SWEEP_NAMESPACE []")
  have inv1: "spender_inv hash cd DD view txes st1 handed" using inv ls_same [OF l] by (simp add: spender_inv_def)
  show ?thesis
  proof (cases l)
    case (Inl e)
    with r l inv1 show ?thesis by (cases e) (simp_all add: reconcile_prepared_sweeps_def)
  next
    case (Inr keys)
    with r l have "fst (snd (reconcile_loop ops cd is_confirmed consume keys (st1, w))) = st'"
      by (simp add: reconcile_prepared_sweeps_def)
    with reconcile_loop_inv [of hash cd DD txes "(st1, w)" handed is_confirmed consume keys, OF _ conf] inv1
    show ?thesis by simp
  qed
qed

lemma load_inv:
  assumes inv: "spender_inv hash cd DD view txes st handed" and l: "load_spender ops cd st w = (Some s, st')"
  shows "spender_inv hash cd DD view (sp_txes s) (sp_store s) handed"
proof -
  obtain q st1 where q: "ko_read ops st ([], [], OUTPUT_SPENDER_TXES_KEY) = (q, st1)"
    by (cases "ko_read ops st ([], [], OUTPUT_SPENDER_TXES_KEY)")
  note same = rd_same [OF q ok_txes]
  from inv obtain stored where e: "stored_txes cd (txes_of (view st)) = Some stored"
    unfolding spender_inv_def sweep_inv_def by (elim conjE exE)
  have t: "txes_of (view st) = (case q of Inr b \<Rightarrow> Some b | Inl _ \<Rightarrow> None)" if "\<And>x. q = Inl x \<Longrightarrow> x = Io NotFound"
    using rd_Ok [OF ok_txes, of st] rd_NotFound [OF ok_txes, of st] q that by (cases q) (simp_all add: txes_of_def)
  from l q have "sp_txes s = stored \<and> sp_store s = st1"
    using t e by (cases q) (auto simp: load_spender_def stored_txes_def split: if_splits)
  with inv_load [OF inv [unfolded spender_inv_def] e] same show ?thesis by (simp add: spender_inv_def)
qed

lemma run_inv:
  assumes "sweep_run ow cfg ops cd view DD s handed" and laws: "sweep_laws ow cd" and hash: "inj_on (ow_hash ow) DD"
    and ns: "\<And>k. ok (fst (oc_transfer_info_ns cfg), snd (oc_transfer_info_ns cfg), k)"
  shows "spender_inv (ow_hash ow) cd DD view (sp_txes s) (sp_store s) handed"
  using assms(1)
proof induction
  case (start st0 w s st)
  from start(1,2) have "spender_inv (ow_hash ow) cd DD view [] st0 []"
    by (simp add: spender_inv_def sweep_inv_def receipts_ok_def stored_txes_def kept_ok_def all_compatible_def receipts_def)
  from load_inv [OF this start(3)] show ?case .
next
  case (attempt s handed D outs change fee lock r s')
  from attempt_inv [OF laws hash attempt.hyps(2) ns attempt.IH attempt.hyps(3)] attempt.hyps(4) show ?case
    by (cases r; cases "projl r") (auto simp: attempt_ok_def handed_over_def dest: inv_handed inv_handed_kept)
next
  case (crash s handed D outs change fee lock s' w s'' st)
  from attempt_inv [OF laws hash crash.hyps(2) ns crash.IH crash.hyps(3)]
  have "spender_inv (ow_hash ow) cd DD view (sp_txes s) (sp_store s') handed" by (simp add: attempt_ok_def)
  from load_inv [OF this crash.hyps(4)] show ?case .
next
  case (reconcile s handed is_confirmed consume q st w)
  from reconcile_inv [OF reconcile.IH reconcile.hyps(2,3)] show ?case by simp
next
  case (restart s handed w s' st)
  from load_inv [OF restart.IH restart.hyps(2)] show ?case .
next
  case (others s handed st w rs)
  then show ?case by (simp add: spender_inv_def)
qed

lemma run_attempt:
  assumes run: "sweep_run ow cfg ops cd view DD s handed" and laws: "sweep_laws ow cd" and hash: "inj_on (ow_hash ow) DD"
    and ns: "\<And>k. ok (fst (oc_transfer_info_ns cfg), snd (oc_transfer_info_ns cfg), k)"
    and D: "D \<in> DD" and t: "try_spend_spendable_outputs ow cfg ops cd D outs change fee lock s = (Inr tx, s')"
  shows "(\<forall>tx' \<in> set handed. tx_unsigned tx' = tx_unsigned tx \<or> tx_inputs (tx_unsigned tx') \<inter> outpoints D = {})
    \<and> (\<exists>stored. stored_txes cd (txes_of (view (sp_store s'))) = Some stored \<and> set handed \<subseteq> snd ` set stored
         \<and> (tx_inputs (tx_unsigned tx) = outpoints D \<and> tx \<in> snd ` set stored
            \<or> (\<exists>outs w w'. ow_spend_plain ow D outs change fee lock w = (Inr tx, w'))))"
proof -
  have kept: "\<exists>stored. stored_txes cd (txes_of (view (sp_store s'))) = Some stored \<and> set hs \<subseteq> snd ` set stored"
    "all_compatible (tx_unsigned ` set hs)"
    if inv: "spender_inv (ow_hash ow) cd DD view (sp_txes s') (sp_store s') hs" for hs
  proof -
    from inv obtain stored where st: "stored_txes cd (txes_of (view (sp_store s'))) = Some stored"
      "set (sp_txes s') \<subseteq> set stored" and c: "all_compatible (unsigneds (sp_txes s') \<union> receipts cd (sweeps_of (view (sp_store s'))))"
      unfolding spender_inv_def sweep_inv_def by (elim conjE exE)
    note h = inv_handed_kept [OF inv]
    from st h image_mono [OF st(2), of snd] show
      "\<exists>stored. stored_txes cd (txes_of (view (sp_store s'))) = Some stored \<and> set hs \<subseteq> snd ` set stored"
      by (intro exI [of _ stored]) simp
    from image_mono [OF h, of tx_unsigned] c show "all_compatible (tx_unsigned ` set hs)"
      by (simp add: all_compatible_def subset_iff)
  qed
  from attempt_inv [OF laws hash D ns run_inv [OF run laws hash ns] t] show ?thesis
    unfolding attempt_ok_def sum.case
  proof (elim disjE conjE)
    assume inv: "spender_inv (ow_hash ow) cd DD view (sp_txes s') (sp_store s') (tx # handed)"
      and i: "tx_inputs (tx_unsigned tx) = outpoints D"
    from kept(2) [OF inv] i have
      "\<forall>tx' \<in> set handed. tx_unsigned tx' = tx_unsigned tx \<or> tx_inputs (tx_unsigned tx') \<inter> outpoints D = {}"
      by (simp add: all_compatible_def compatible_def)
    with kept(1) [OF inv] i show ?thesis by auto
  next
    assume inv: "spender_inv (ow_hash ow) cd DD view (sp_txes s') (sp_store s') handed"
      and p: "\<forall>tx \<in> set handed. tx_inputs (tx_unsigned tx) \<inter> outpoints D = {}"
        "\<exists>outs w w'. ow_spend_plain ow D outs change fee lock w = (Inr tx, w')"
    with kept(1) [OF inv] show ?thesis by blast
  qed
qed

lemma reconcile_one_receipts:
  assumes r: "reconcile_one ops cd is_confirmed consume key s = (r, s')"
  shows "only_settled_removed cd is_confirmed consume (sweeps_of (view (fst s))) (sweeps_of (view (fst s')))
    \<and> txes_of (view (fst s')) = txes_of (view (fst s))"
proof -
  obtain q st where q: "sweep_read ops cd key (fst s) = (q, st)" by (cases "sweep_read ops cd key (fst s)")
  note R = sweep_read_spec [OF q]
  have rm: "only_settled_removed cd is_confirmed consume (sweeps_of (view st)) (sweeps_of (view st'))
      \<and> txes_of (view st') = txes_of (view st)"
    if rd: "q = Inr (Some sw)" and x: "sweep_txid cd sw = Some txid" "is_confirmed txid w = (Inr True, w1)"
        "consume (sw_batch_transfer_idx sw) w1 = (Inr u, w2)"
      and m: "ko_remove ops st (SWEEP_NAMESPACE, [], key) = (y, st')" for sw txid w w1 w2 u y st'
  proof -
    from rd R obtain b where b: "sweeps_of (view st) key = Some b" "cd_decode_sweep cd b = Some sw" by auto
    with x have "settled cd is_confirmed consume b" by (auto simp: settled_def)
    with b rm_sweep [OF m] show ?thesis by (auto simp: only_settled_removed_def split: if_splits)
  qed
  from r q R rm show ?thesis
    by (auto simp: reconcile_one_def split: sum.splits option.splits prod.splits bool.splits)
qed

lemma reconcile_loop_receipts:
  "only_settled_removed cd is_confirmed consume (sweeps_of (view (fst s)))
     (sweeps_of (view (fst (snd (reconcile_loop ops cd is_confirmed consume keys s)))))
   \<and> txes_of (view (fst (snd (reconcile_loop ops cd is_confirmed consume keys s)))) = txes_of (view (fst s))"
proof (induction keys arbitrary: s)
  case (Cons key keys)
  obtain r s1 where r: "reconcile_one ops cd is_confirmed consume key s = (r, s1)"
    by (cases "reconcile_one ops cd is_confirmed consume key s")
  from reconcile_one_receipts [OF r] Cons.IH [of s1] r show ?case
    by (auto split: sum.split sweep_fail.split intro: only_settled_trans)
qed simp

lemma reconcile_receipts:
  "only_settled_removed cd is_confirmed consume (sweeps_of (view st))
     (sweeps_of (view (fst (snd (reconcile_prepared_sweeps ops cd is_confirmed consume (st, w))))))
   \<and> txes_of (view (fst (snd (reconcile_prepared_sweeps ops cd is_confirmed consume (st, w))))) = txes_of (view st)"
proof -
  obtain l st1 where l: "ko_list ops st SWEEP_NAMESPACE [] = (l, st1)" by (cases "ko_list ops st SWEEP_NAMESPACE []")
  note same = ls_same [OF l]
  show ?thesis
  proof (cases l)
    case (Inl e)
    with l same show ?thesis by (cases e) (simp_all add: reconcile_prepared_sweeps_def)
  next
    case (Inr keys)
    with l same reconcile_loop_receipts [of cd is_confirmed consume "(st1, w)" keys] show ?thesis
      by (simp add: reconcile_prepared_sweeps_def)
  qed
qed

end

end
