(* ===== verification/Rgb_Sweep_Claims.thy ===== *)
theory Rgb_Sweep_Claims
  imports Rgb_Sweep_Props
begin

text \<open>
  The sweeps of RGB outputs on the replicating store: the contract of \<open>sweep_store\<close> is discharged for the
  operations of \<open>SyncedKvStore\<close>, and the properties of runs and of reconciliations are stated for it,
  with a codec and a wallet on which their hypotheses hold.
\<close>

section \<open>The replicating store\<close>

definition synced_ops :: "'s synced_ctx \<Rightarrow> 's synced_kv kv_ops" where
  "synced_ops c =
     \<lparr>ko_read = synced_read, ko_write = write_with_durability c, ko_remove = synced_remove c, ko_list = synced_list\<rparr>"

lemma rows_keys:
  "k \<in> set (map (\<lambda>((p, s, k), v). k) (filter (\<lambda>((p', s, k), v). p' = p \<and> s = q) rows))
     \<longleftrightarrow> map_of rows (p, q, k) \<noteq> None"
  by (induction rows) auto

lemma local_list_keys:
  "fst (local_list db p q) = Inr keys \<Longrightarrow> k \<in> set keys \<longleftrightarrow> map_of (lk_rows db) (p, q, k) \<noteq> None"
proof -
  assume "fst (local_list db p q) = Inr keys"
  then have "keys = map (\<lambda>((p, s, k), v). k) (filter (\<lambda>((p', s, k), v). p' = p \<and> s = q) (lk_rows db))"
    by (cases "db_step db"; cases "fst (db_step db)") (simp_all add: local_list_def)
  then show ?thesis by (simp only: rows_keys)
qed

interpretation ssw: sweep_store "synced_ops c" local_value "\<lambda>k. fst k \<noteq> PENDING_NS" for c :: "'s synced_ctx"
proof -
  have kv: "kv_store_sync (ko_read (synced_ops c)) (ko_write (synced_ops c)) (ko_remove (synced_ops c))
      local_value (\<lambda>k. fst k \<noteq> PENDING_NS)"
    using skv.kv_store_sync_axioms [of c] by (simp add: synced_ops_def)
  show "sweep_store (synced_ops c) local_value (\<lambda>k. fst k \<noteq> PENDING_NS)"
  proof (rule sweep_store.intro [OF kv], unfold_locales)
    show "local_value (snd (ko_list (synced_ops c) st p q)) x = local_value st x"
      if "fst x \<noteq> PENDING_NS" for x st p q
      using local_list_rows [of "sy_local st" p q]
      by (auto simp: synced_ops_def synced_list_def local_value_def split: prod.splits)
    show "k \<in> set keys \<longleftrightarrow> local_value st (p, q, k) \<noteq> None"
      if "fst (ko_list (synced_ops c) st p q) = Inr keys" "fst (p, q, k) \<noteq> PENDING_NS" for st p q keys k
      using that(1) local_list_keys [of "sy_local st" p q keys k]
      by (auto simp: synced_ops_def synced_list_def local_value_def split: prod.splits)
  qed (simp_all add: SWEEP_NAMESPACE_def PENDING_NS_def)
qed

section \<open>A codec and a wallet\<close>

text \<open>Coders of values as bytes: a byte of an item is marked by 1, its end by 0, the end of a list by 2.\<close>

fun put_item :: "bytes \<Rightarrow> bytes \<Rightarrow> bytes" where
  "put_item [] rest = 0 # rest"
| "put_item (b # bs) rest = 1 # b # put_item bs rest"

fun put_items :: "bytes list \<Rightarrow> bytes" where
  "put_items [] = [2]"
| "put_items (x # xs) = put_item x (put_items xs)"

fun get_items :: "bytes \<Rightarrow> bytes \<Rightarrow> bytes list option" where
  "get_items acc [] = None"
| "get_items acc [m] = (if m = 2 then Some [] else None)"
| "get_items acc (m # b # bs) =
     (if m = 1 then get_items (acc @ [b]) bs
      else if m = 0 then map_option ((#) acc) (get_items [] (b # bs)) else None)"

lemma put_items_ne: "put_items xs \<noteq> []"
proof (cases xs)
  case (Cons x ys)
  then show ?thesis by (cases x) simp_all
qed simp

lemma get_put_item: "rest \<noteq> [] \<Longrightarrow> get_items acc (put_item x rest) = map_option ((#) (acc @ x)) (get_items [] rest)"
  by (induction x arbitrary: acc) (auto simp: neq_Nil_conv)

lemma get_put_items: "get_items [] (put_items xs) = Some xs"
  by (induction xs) (simp_all add: get_put_item put_items_ne)

type_synonym 'a coder = "('a \<Rightarrow> bytes) \<times> (bytes \<Rightarrow> 'a option)"

definition coder_ok :: "'a coder \<Rightarrow> bool" where
  "coder_ok c \<longleftrightarrow> (\<forall>x. snd c (fst c x) = Some x)"

definition bytes_coder :: "bytes coder" where
  "bytes_coder = (\<lambda>b. b, Some)"

definition string_coder :: "string coder" where
  "string_coder = (as_bytes, \<lambda>b. Some (from_bytes b))"

definition word_coder :: "'a::len word coder" where
  "word_coder = (\<lambda>w. be_bytes 8 (unat w), \<lambda>b. Some (word_of_nat (be_val b)))"

definition list_coder :: "'a coder \<Rightarrow> 'a list coder" where
  "list_coder c =
     (\<lambda>xs. put_items (map (fst c) xs), \<lambda>b. Option.bind (get_items [] b) (\<lambda>is. those (map (snd c) is)))"

definition pair_coder :: "'a coder \<Rightarrow> 'b coder \<Rightarrow> ('a \<times> 'b) coder" where
  "pair_coder c d =
     (\<lambda>(x, y). put_items [fst c x, fst d y],
      \<lambda>b. case get_items [] b of
            Some [p, q] \<Rightarrow> Option.bind (snd c p) (\<lambda>x. map_option (Pair x) (snd d q))
          | _ \<Rightarrow> None)"

definition via :: "('b \<Rightarrow> 'a) \<Rightarrow> ('a \<Rightarrow> 'b) \<Rightarrow> 'a coder \<Rightarrow> 'b coder" where
  "via f g c = (\<lambda>x. fst c (f x), \<lambda>b. map_option g (snd c b))"

lemma those_ok: "coder_ok c \<Longrightarrow> those (map (\<lambda>x. snd c (fst c x)) xs) = Some xs"
  by (induction xs) (simp_all add: coder_ok_def)

lemma bytes_coder_ok: "coder_ok bytes_coder"
  by (simp add: coder_ok_def bytes_coder_def)

lemma string_coder_ok: "coder_ok string_coder"
  by (simp add: coder_ok_def string_coder_def)

lemma word_coder_ok:
  assumes "LENGTH('a::len) \<le> 64"
  shows "coder_ok (word_coder :: 'a word coder)"
proof -
  have "unat w < 256 ^ 8" for w :: "'a word"
  proof -
    have "unat w < 2 ^ LENGTH('a)" by (rule unsigned_less)
    also have "\<dots> \<le> 2 ^ 64" by (rule power_increasing [OF assms]) simp
    finally show ?thesis by simp
  qed
  then show ?thesis by (simp add: coder_ok_def word_coder_def be_val_be_bytes)
qed

lemma list_coder_ok: "coder_ok c \<Longrightarrow> coder_ok (list_coder c)"
  by (subst coder_ok_def) (simp add: list_coder_def get_put_items comp_def those_ok)

lemma pair_coder_ok: "coder_ok c \<Longrightarrow> coder_ok d \<Longrightarrow> coder_ok (pair_coder c d)"
  unfolding coder_ok_def pair_coder_def fst_conv snd_conv by (simp add: get_put_items del: put_items.simps split: prod.split)

lemma via_ok: "coder_ok c \<Longrightarrow> (\<And>x. g (f x) = x) \<Longrightarrow> coder_ok (via f g c)"
  by (simp add: coder_ok_def via_def)

lemmas coders_ok = bytes_coder_ok string_coder_ok word_coder_ok list_coder_ok pair_coder_ok via_ok

definition unsigned_coder :: "unsigned_tx coder" where
  "unsigned_coder =
     via (\<lambda>u. (ut_inputs u, ut_rest u)) (\<lambda>(i, r). \<lparr>ut_inputs = i, ut_rest = r\<rparr>)
       (pair_coder (list_coder (pair_coder string_coder word_coder)) bytes_coder)"

definition psbt_coder :: "psbt coder" where
  "psbt_coder =
     via (\<lambda>p. (ps_unsigned_tx p, ps_rest p)) (\<lambda>(u, r). \<lparr>ps_unsigned_tx = u, ps_rest = r\<rparr>)
       (pair_coder unsigned_coder bytes_coder)"

definition tx_coder :: "transaction coder" where
  "tx_coder =
     via (\<lambda>t. (tx_unsigned t, tx_witness t)) (\<lambda>(u, w). \<lparr>tx_unsigned = u, tx_witness = w\<rparr>)
       (pair_coder unsigned_coder bytes_coder)"

definition txes_coder :: "output_spender_txes coder" where
  "txes_coder = list_coder (pair_coder word_coder tx_coder)"

text \<open>The batch index is an \<open>i32\<close> in the code.\<close>

definition sweep_coder :: "(string \<times> 32 word \<times> (string \<times> bytes) list) coder" where
  "sweep_coder = pair_coder string_coder (pair_coder word_coder (list_coder (pair_coder string_coder bytes_coder)))"

lemma unsigned_coder_ok: "coder_ok unsigned_coder"
  unfolding unsigned_coder_def by (intro coders_ok) simp_all

lemma psbt_coder_ok: "coder_ok psbt_coder"
  unfolding psbt_coder_def by (intro coders_ok unsigned_coder_ok) simp_all

lemma tx_coder_ok: "coder_ok tx_coder"
  unfolding tx_coder_def by (intro coders_ok unsigned_coder_ok) simp_all

lemma txes_coder_ok: "coder_ok txes_coder"
  unfolding txes_coder_def by (intro coders_ok tx_coder_ok) simp_all

lemma sweep_coder_ok: "coder_ok sweep_coder"
  unfolding sweep_coder_def by (intro coders_ok) simp_all

definition demo_sweep_codec :: sweep_codec where
  "demo_sweep_codec =
     \<lparr>cd_psbt_from_str = (\<lambda>s. snd psbt_coder (as_bytes s)),
      cd_psbt_to_string = (\<lambda>p. from_bytes (fst psbt_coder p)),
      cd_compute_txid = (\<lambda>u. from_bytes (fst unsigned_coder u)),
      cd_encode_sweep = (\<lambda>sw. if sint (word_of_int (sw_batch_transfer_idx sw) :: 32 word) = sw_batch_transfer_idx sw
         then Some (fst sweep_coder (sw_psbt sw, word_of_int (sw_batch_transfer_idx sw), sw_consignments sw)) else None),
      cd_decode_sweep = (\<lambda>b. map_option (\<lambda>(p, i, cs). \<lparr>sw_psbt = p, sw_batch_transfer_idx = sint i, sw_consignments = cs\<rparr>)
         (snd sweep_coder b)),
      cd_encode_txes = fst txes_coder, cd_decode_txes = snd txes_coder,
      cd_decode_transfer_info = (\<lambda>b. if b = [7] then Some \<lparr>ti_contract_id = ''rgb'', ti_output_map = [(0, 5), (1, 6)]\<rparr> else None)\<rparr>"

abbreviation psbt_for :: "spendable_output list \<Rightarrow> psbt" where
  "psbt_for D \<equiv> \<lparr>ps_unsigned_tx = \<lparr>ut_inputs = map descriptor_outpoint D, ut_rest = []\<rparr>, ps_rest = []\<rparr>"

definition demo_sweep_world :: "unit sweep_world" where
  "demo_sweep_world =
     \<lparr>ow_hash = (\<lambda>D. case D of d # _ \<Rightarrow> ucast (snd (descriptor_outpoint d)) | [] \<Rightarrow> 7), ow_now = (\<lambda>_. 0),
      ow_get_tx_height = (\<lambda>_ w. (Inr (Some 100), w)), ow_update_witnesses = (\<lambda>_ _ w. (Inr True, w)),
      ow_witness_receive = (\<lambda>_ w. (Inr ''recipient'', w)), ow_recipient_script = (\<lambda>_. Some [1]),
      ow_create_psbt = (\<lambda>D _ _ _ _. Some (psbt_for D)), ow_color_psbt = (\<lambda>p _ w. (Inr (p, 3, []), w)),
      ow_tempdir = (\<lambda>w. (True, w)), ow_fail_transfers = (\<lambda>_ w. w),
      ow_list_transfers = (\<lambda>_ txid w. (Inr [\<lparr>tr_batch_transfer_idx = 3, tr_status = StInitiated, tr_txid = Some txid,
         tr_receive_witness = False\<rparr>], w)),
      ow_sign_psbt = (\<lambda>_ p w. (Inr p, w)),
      ow_extract_tx = (\<lambda>p. Some \<lparr>tx_unsigned = ps_unsigned_tx p, tx_witness = [9]\<rparr>),
      ow_write_file = (\<lambda>_ _ w. (True, w)), ow_provide_consignment = (\<lambda>_ w. (Inr (), w)), ow_remove_file = (\<lambda>_ w. w),
      ow_spend_plain = (\<lambda>D _ _ _ _ w. (Inr \<lparr>tx_unsigned = ps_unsigned_tx (psbt_for D), tx_witness = [8]\<rparr>, w))\<rparr>"

lemma demo_psbt: "snd psbt_coder (fst psbt_coder p) = Some p"
  using psbt_coder_ok by (simp add: coder_ok_def)

lemma demo_sweep_laws: "sweep_laws demo_sweep_world demo_sweep_codec"
  using txes_coder_ok sweep_coder_ok demo_psbt
  by (auto simp: sweep_laws_def demo_sweep_world_def demo_sweep_codec_def coder_ok_def split: if_splits)

definition demo_sweep_config :: sweep_config where
  "demo_sweep_config =
     \<lparr>oc_transfer_info_ns = (''rgb'', ''transfer_info''), oc_dust_limit_msat = 546000, oc_fee_rate_sat_vb = 7,
      oc_reuse_addresses = False\<rparr>"

definition demo_sweep_store :: "kv_rows \<Rightarrow> bool list \<Rightarrow> mem_vss synced_kv" where
  "demo_sweep_store rows faults =
     local_only [] \<lparr>lk_rows = ((''rgb'', ''transfer_info'', ''close''), [7]) # rows, lk_faults = faults\<rparr>"

definition output_0 :: spendable_output where
  "output_0 = SpendableStaticPayment ''close'' 0 1000 [] []"

definition output_1 :: spendable_output where
  "output_1 = SpendableDelayedPayment ''close'' 1 1000 [] [] [] 144"

definition demo_spender :: "output_spender_txes \<Rightarrow> mem_vss synced_kv \<Rightarrow> (mem_vss synced_kv, unit) spender" where
  "demo_spender txes st = \<lparr>sp_txes = txes, sp_recipients = [], sp_store = st, sp_world = ()\<rparr>"

definition demo_tx :: transaction where
  "demo_tx = \<lparr>tx_unsigned = ps_unsigned_tx (psbt_for [output_0, output_1]), tx_witness = [9]\<rparr>"

definition demo_receipt :: bytes where
  "demo_receipt = fst sweep_coder (from_bytes (fst psbt_coder (psbt_for [output_0, output_1])), 3, [])"

definition swept_store :: "mem_vss synced_kv" where
  "swept_store = demo_sweep_store
     [((SWEEP_NAMESPACE, [], ''0''), demo_receipt), (([], [], OUTPUT_SPENDER_TXES_KEY), fst txes_coder [(0, demo_tx)])] []"

lemmas demo_store_simps = synced_ops_def synced_read_def synced_list_def write_with_durability_def check_mutation_def
  local_read_def local_write_def local_exec_def exec_stmt.simps local_list_def demo_sweep_store_def local_only_def db_step_def

lemma demo_find:
  "find_prepared_sweep (synced_ops mem_ctx) cd I (demo_sweep_store [] []) = (Inr None, demo_sweep_store [] [])"
  by (simp add: find_prepared_sweep_def demo_store_simps SWEEP_NAMESPACE_def)

lemma demo_load:
  "load_spender (synced_ops mem_ctx) demo_sweep_codec (demo_sweep_store [] []) () =
     (Some (demo_spender [] (demo_sweep_store [] [])), demo_sweep_store [] [])"
  by (simp add: load_spender_def demo_store_simps demo_spender_def OUTPUT_SPENDER_TXES_KEY_def)

lemma demo_reload:
  "load_spender (synced_ops mem_ctx) demo_sweep_codec swept_store () = (Some (demo_spender [(0, demo_tx)] swept_store), swept_store)"
  using txes_coder_ok
  by (simp add: load_spender_def demo_store_simps swept_store_def demo_spender_def OUTPUT_SPENDER_TXES_KEY_def SWEEP_NAMESPACE_def
      demo_sweep_codec_def coder_ok_def)

lemma demo_collect:
  "collect_descriptors demo_sweep_world demo_sweep_config (synced_ops mem_ctx) demo_sweep_codec 0 [output_0, output_1]
     \<lparr>pl_vout = 0, pl_vanilla = True, pl_txouts = [], pl_assets = []\<rparr> (demo_spender [] (demo_sweep_store [] []))
   = (Inr \<lparr>pl_vout = 1, pl_vanilla = False, pl_txouts = [(546, [1])], pl_assets = [(''rgb'', 0, 11, ''recipient'')]\<rparr>,
      (demo_spender [] (demo_sweep_store [] []))\<lparr>sp_recipients := [((0, ''rgb''), ''recipient'', 86400)]\<rparr>)"
  by (simp add: collect_descriptor_def Let_def demo_store_simps demo_spender_def demo_sweep_codec_def demo_sweep_config_def
      demo_sweep_world_def output_0_def output_1_def rgb_amount_for_spendable_output_def settle_closing_def add_asset_def
      sweep_recipient_def RGB_TRANSFER_CHAN_EXPIRATION_SECS_def)

lemma show_u64_0: "show_u64 0 = ''0''"
  by code_simp

lemma demo_sweep_prepared:
  "prepare_sweep demo_sweep_world demo_sweep_config (synced_ops mem_ctx) demo_sweep_codec [output_0, output_1] 0 pl [] None
     ((demo_spender [] (demo_sweep_store [] []))\<lparr>sp_recipients := rs\<rparr>)
   = (Inr \<lparr>sw_psbt = from_bytes (fst psbt_coder (psbt_for [output_0, output_1])), sw_batch_transfer_idx = 3, sw_consignments = []\<rparr>,
      (demo_spender [] (demo_sweep_store [((SWEEP_NAMESPACE, [], ''0''), demo_receipt)] []))\<lparr>sp_recipients := rs\<rparr>)"
  by (simp add: prepare_sweep_def demo_store_simps demo_spender_def demo_sweep_codec_def demo_sweep_world_def demo_psbt
      sweep_new_def sweep_persist_def demo_receipt_def SWEEP_NAMESPACE_def show_u64_0)

lemma demo_finish:
  "finish_prepared_rgb_sweep demo_sweep_world (synced_ops mem_ctx) demo_sweep_codec [output_0, output_1] 0
     \<lparr>sw_psbt = from_bytes (fst psbt_coder (psbt_for [output_0, output_1])), sw_batch_transfer_idx = 3, sw_consignments = []\<rparr>
     ((demo_spender [] (demo_sweep_store [((SWEEP_NAMESPACE, [], ''0''), demo_receipt)] []))
        \<lparr>sp_recipients := [((0, ''rgb''), ''recipient'', 86400)]\<rparr>)
   = (Inr demo_tx, demo_spender [(0, demo_tx)] swept_store)"
  by (simp add: finish_prepared_rgb_sweep_def sign_prepared_def demo_store_simps demo_spender_def demo_sweep_codec_def
      demo_sweep_world_def demo_psbt demo_tx_def swept_store_def batch_is_active_def sweep_txid_def Let_def
      SWEEP_NAMESPACE_def OUTPUT_SPENDER_TXES_KEY_def)

lemma demo_spender_fields:
  "sp_txes (demo_spender txes st) = txes" "sp_store (demo_spender txes st) = st"
  "(demo_spender txes st)\<lparr>sp_store := st\<rparr> = demo_spender txes st"
  by (simp_all add: demo_spender_def)

lemma demo_attempt:
  "try_spend_spendable_outputs demo_sweep_world demo_sweep_config (synced_ops mem_ctx) demo_sweep_codec
     [output_0, output_1] [] [] 253 None (demo_spender [] (demo_sweep_store [] []))
   = (Inr demo_tx, demo_spender [(0, demo_tx)] swept_store)"
proof -
  have "ow_hash demo_sweep_world [output_0, output_1] = 0" by (simp add: demo_sweep_world_def output_0_def)
  then show ?thesis
    by (simp add: try_spend_spendable_outputs_def new_sweep_def Let_def demo_spender_fields demo_find demo_collect
        demo_sweep_prepared demo_finish [unfolded list.map] del: collect_descriptors.simps)
qed

lemma demo_attempt_again:
  "try_spend_spendable_outputs demo_sweep_world demo_sweep_config (synced_ops mem_ctx) demo_sweep_codec
     [output_1, output_0] [] [] 253 None (demo_spender [(0, demo_tx)] swept_store)
   = (Inr demo_tx, demo_spender [(0, demo_tx)] swept_store)"
  by (simp add: try_spend_spendable_outputs_def Let_def demo_spender_def demo_sweep_world_def output_0_def output_1_def
      demo_tx_def insert_commute)

section \<open>Properties\<close>

text \<open>C6. Sweeps of RGB outputs never contradict each other. In every run of the spender on the
  replicating store, with attempts over changing sets of outputs, failing reads and writes, panics,
  restarts and reconciliations, an attempt that succeeds either gives a transaction handed over before or
  spends outputs no sweep handed over before spends; all of these stay in the store, and what it
  gives spends exactly the outputs of the attempt and is in the store, or is a plain spend.\<close>

theorem sweeps_never_conflict:
  assumes "sweep_run ow cfg (synced_ops c) cd local_value DD s handed"
    and "sweep_laws ow cd" "inj_on (ow_hash ow) DD" "fst (oc_transfer_info_ns cfg) \<noteq> PENDING_NS"
    and "D \<in> DD" "try_spend_spendable_outputs ow cfg (synced_ops c) cd D outs change fee lock s = (Inr tx, s')"
  shows "(\<forall>tx' \<in> set handed. tx_unsigned tx' = tx_unsigned tx \<or> tx_inputs (tx_unsigned tx') \<inter> outpoints D = {})
    \<and> (\<exists>stored. stored_txes cd (txes_of (local_value (sp_store s'))) = Some stored \<and> set handed \<subseteq> snd ` set stored
         \<and> (tx_inputs (tx_unsigned tx) = outpoints D \<and> tx \<in> snd ` set stored
            \<or> (\<exists>outs w w'. ow_spend_plain ow D outs change fee lock w = (Inr tx, w'))))"
  by (rule ssw.run_attempt [OF assms(1-3) _ assms(5,6)]) (simp add: assms(4))

lemma demo_run:
  "sweep_run demo_sweep_world demo_sweep_config (synced_ops mem_ctx) demo_sweep_codec local_value
     {[output_0, output_1], [output_1, output_0]} (demo_spender [(0, demo_tx)] swept_store) [demo_tx]"
proof -
  have "sweeps_of (local_value (demo_sweep_store [] [])) = (\<lambda>_. None)" "txes_of (local_value (demo_sweep_store [] [])) = None"
    by (simp_all add: fun_eq_iff sweeps_of_def txes_of_def local_value_def demo_sweep_store_def local_only_def SWEEP_NAMESPACE_def)
  from sweep_run.start [where view = local_value, OF this demo_load]
  have "sweep_run demo_sweep_world demo_sweep_config (synced_ops mem_ctx) demo_sweep_codec local_value
     {[output_0, output_1], [output_1, output_0]} (demo_spender [] (demo_sweep_store [] [])) []" .
  from sweep_run.attempt [OF this _ demo_attempt]
  have "sweep_run demo_sweep_world demo_sweep_config (synced_ops mem_ctx) demo_sweep_codec local_value
     {[output_0, output_1], [output_1, output_0]} (demo_spender [(0, demo_tx)] swept_store) [demo_tx]"
    by (simp add: handed_over_def demo_spender_def)
  from sweep_run.restart [OF this, of "()"] demo_reload show ?thesis by (simp add: demo_spender_def)
qed

theorem sweeps_never_conflict_witness:
  "sweep_run demo_sweep_world demo_sweep_config (synced_ops mem_ctx) demo_sweep_codec local_value
     {[output_0, output_1], [output_1, output_0]} (demo_spender [(0, demo_tx)] swept_store) [demo_tx]
   \<and> try_spend_spendable_outputs demo_sweep_world demo_sweep_config (synced_ops mem_ctx) demo_sweep_codec
       [output_1, output_0] [] [] 253 None (demo_spender [(0, demo_tx)] swept_store)
     = (Inr demo_tx, demo_spender [(0, demo_tx)] swept_store)
   \<and> tx_inputs (tx_unsigned demo_tx) = outpoints [output_1, output_0]
   \<and> (\<exists>stored. stored_txes demo_sweep_codec (txes_of (local_value swept_store)) = Some stored \<and> demo_tx \<in> snd ` set stored)"
proof -
  have "inj_on (ow_hash demo_sweep_world) {[output_0, output_1], [output_1, output_0]}"
    by (simp add: demo_sweep_world_def output_0_def output_1_def)
  from sweeps_never_conflict [OF demo_run demo_sweep_laws this _ _ demo_attempt_again]
  have "\<exists>stored. stored_txes demo_sweep_codec (txes_of (local_value swept_store)) = Some stored \<and> demo_tx \<in> snd ` set stored"
    by (auto simp: demo_sweep_config_def PENDING_NS_def demo_spender_fields)
  with demo_run demo_attempt_again show ?thesis by (simp add: demo_tx_def insert_commute)
qed

text \<open>C33. A reconciliation on the replicating store gives up a receipt only after its transaction was found
  confirmed and its batch was then consumed; it changes no other receipt and none of the kept
  transactions, whatever the chain, rgb-lib and the store do.\<close>

theorem receipts_outlive_reconciliation:
  "only_settled_removed cd is_confirmed consume (sweeps_of (local_value st))
     (sweeps_of (local_value (fst (snd (reconcile_prepared_sweeps (synced_ops c) cd is_confirmed consume (st, w))))))
   \<and> txes_of (local_value (fst (snd (reconcile_prepared_sweeps (synced_ops c) cd is_confirmed consume (st, w)))))
     = txes_of (local_value st)"
  by (rule ssw.reconcile_receipts)

text \<open>C40. A read that fails is taken for an output without assets: with a record that gives the output an
  amount of an asset, one failing read of the database makes an attempt spend it as plain bitcoin.\<close>

theorem failed_read_spends_assets_as_bitcoin:
  assumes "sp_txes s = []" "\<forall>k. local_value (sp_store s) (SWEEP_NAMESPACE, [], k) = None"
    and "lk_faults (sy_local (sp_store s)) = [False, True]"
    and "local_value (sp_store s) (fst (oc_transfer_info_ns cfg), snd (oc_transfer_info_ns cfg), fst (descriptor_outpoint d)) = Some b"
    and "cd_decode_transfer_info cd b = Some ti"
      "rgb_amount_for_spendable_output (ti_output_map ti) (snd (descriptor_outpoint d)) = Some amt" "0 < amt"
  shows "fst (try_spend_spendable_outputs ow cfg (synced_ops c) cd [d] outs change fee lock s)
    = map_sum (\<lambda>_. SweepErr) id (fst (ow_spend_plain ow [d] outs change fee lock (sp_world s)))"
proof -
  let ?db = "sy_local (sp_store s)"
  have rows: "map_of (lk_rows ?db) (SWEEP_NAMESPACE, [], k) = None" for k
    using assms(2) by (simp add: local_value_def)
  have f: "filter (\<lambda>((p', s, k), v). p' = SWEEP_NAMESPACE \<and> s = []) (lk_rows ?db) = []"
    using rows by (force simp: filter_empty_conv map_of_eq_None_iff)
  have find: "find_prepared_sweep (synced_ops c) cd I (sp_store s)
      = (Inr None, (sp_store s)\<lparr>sy_local := ?db\<lparr>lk_faults := [True]\<rparr>\<rparr>)" for I
    using assms(3) f by (simp add: find_prepared_sweep_def synced_ops_def synced_list_def local_list_def db_step_def)
  have collect: "collect_descriptor ow cfg (synced_ops c) cd h d pl (s\<lparr>sp_store := (sp_store s)\<lparr>sy_local := ?db\<lparr>lk_faults := [True]\<rparr>\<rparr>\<rparr>)
      = (Inr pl, s\<lparr>sp_store := (sp_store s)\<lparr>sy_local := ?db\<lparr>lk_faults := []\<rparr>\<rparr>\<rparr>)" for h pl
    by (simp add: collect_descriptor_def synced_ops_def synced_read_def local_read_def db_step_def)
  show ?thesis
    using assms(1) find collect
    by (simp add: try_spend_spendable_outputs_def new_sweep_def Let_def split: sum.split prod.split)
qed

theorem failed_read_spends_assets_as_bitcoin_witness:
  "local_value (demo_sweep_store [] [False, True]) (''rgb'', ''transfer_info'', ''close'') = Some [7]
   \<and> rgb_amount_for_spendable_output [(0, 5), (1, 6)] 0 = Some 5
   \<and> fst (try_spend_spendable_outputs demo_sweep_world demo_sweep_config (synced_ops mem_ctx) demo_sweep_codec
        [output_0] [] [] 253 None (demo_spender [] (demo_sweep_store [] [False, True])))
     = Inr \<lparr>tx_unsigned = ps_unsigned_tx (psbt_for [output_0]), tx_witness = [8]\<rparr>"
  using failed_read_spends_assets_as_bitcoin [of "demo_spender [] (demo_sweep_store [] [False, True])" demo_sweep_config output_0 "[7]"
      demo_sweep_codec "\<lparr>ti_contract_id = ''rgb'', ti_output_map = [(0, 5), (1, 6)]\<rparr>" 5 demo_sweep_world mem_ctx "[]" "[]" 253 None]
  by (simp add: demo_spender_def demo_sweep_store_def local_only_def local_value_def demo_sweep_config_def output_0_def
      demo_sweep_codec_def demo_sweep_world_def rgb_amount_for_spendable_output_def SWEEP_NAMESPACE_def)

end
