(* ===== verification/Spec2Isabelle.thy ===== *)
theory Spec2Isabelle
  imports Rln_Hex Apay_Merkle Mainnet_Boundary Vss_Session Apay_Commit Async_Client_Props Swap_Props
    Invoice_Provider Virtual_Channel_Props File_Transfer_Staging Signer_Stack Channel_Signer_Props
    External_Signer_Props Rgb_Sweep_Claims
begin

text \<open>
  A verification development of the RGB Lightning node.

  \<^bold>\<open>The program.\<close> The node runs LDK's channel manager with RGB assets on its channels. Around it the
  repository builds the parts that are modelled here: the stores that keep its state on disk and on a
  VSS server, the protocols it speaks with its peers in custom messages (asynchronous orders, asset
  links, files), swaps, the books of payments, virtual channels, the sweeps of closed channels, the
  signer that may run in another process, and the routes of its HTTP interface over them. Paths below are relative to the root of the repository.

  \<^bold>\<open>Conventions.\<close> A \<open>Result\<close> is a sum with \<^const>\<open>Inl\<close> for \<open>Err\<close>, a panic is \<^const>\<open>None\<close> or the
  failure \<open>Panic\<close>; machine integers whose overflow matters are words; strings are lists of UTF-8
  bytes; maps are association lists. State is a record that an operation takes and returns. Code of
  other crates (LDK's channel manager, the \<open>lightning\<close> fork's asset records, rgb-lib, \<open>serde\<close>,
  SHA-256, BIP-32, HTTP, the VSS server, SQLite, clocks and random numbers) is an argument of the
  definitions that call it; what the code relies on is a hypothesis or a locale, and each theorem with
  hypotheses has a witness, an instance in which they hold.

  \<^bold>\<open>Libraries.\<close> \<open>Rln_Prelude\<close> (integers, bytes, strings, decimal numbers), \<open>Rln_Assoc\<close> (association
  lists), \<open>Rln_Utf8\<close>, \<open>Rln_Hex\<close> (\<open>src/utils.rs\<close>) and \<open>Rln_Wire\<close> (readers of byte streams).

  \<^bold>\<open>Stores.\<close> \<open>Kv_Base\<close> states the contract of LDK's \<open>KVStoreSync\<close> as a locale. \<open>Local_Kv\<close> models
  \<open>src/kv_store.rs\<close>, with a schedule of database failures; over the contract of database
  transactions, the locale \<open>transactional_db\<close>, a change and its intent become durable together
  whenever a process dies. \<open>Vss_Kv\<close> and \<open>Vss_Service\<close> model \<open>src/vss_kv_store.rs\<close> over the contract
  of the server, with a server in memory on which it holds; whoever acquires the fence keeps it until
  it releases it or an operator deletes it.
  \<open>Synced_Kv\<close> models \<open>src/synced_kv_store.rs\<close>; \<open>Synced_Inv\<close> is its replication invariant,
  \<open>Synced_Props\<close> the steps of a store including crashes, \<open>Synced_Claims\<close> and \<open>Synced_Bulk\<close> what
  follows: durability, convergence, recovery, and that to its client the store is one map. \<open>Kv_Routes\<close>
  and \<open>Mainnet_Boundary\<close> cover \<open>src/mainnet_state.rs\<close>: a store opened for the common configuration
  changes nothing else, but for the fence that it releases at its teardown. \<open>Remote_First_Kv\<close> models
  \<open>src/async_kv_store.rs\<close>; its retry loop is a partial function and hangs exactly when the outage
  lasts and no shutdown reaches it, and a \<open>stop\<close> while no mutation is in flight is lost. \<open>Vss_Session\<close>
  composes them into a session of a node, from unlock to shutdown (\<open>src/ldk.rs\<close>).

  \<^bold>\<open>Peer protocols.\<close> \<open>Custom_Msg\<close> (\<open>src/custom_msg_rpc.rs\<close>), \<open>Async_Order\<close>, \<open>Async_Client\<close>,
  \<open>Apay_Merkle\<close> and \<open>Apay_Commit\<close> (\<open>src/async_order.rs\<close>, \<open>src/apay_merkle.rs\<close>): the books of an
  order host keep their numbering, batches a recipient prepares are accepted, committed batches open
  at every index, and proofs are sound up to a collision. \<open>File_Transfer\<close>
  (\<open>src/rgb_file_transfer.rs\<close>): \<open>File_Transfer_Props\<close> has the exact wire form and the limits that
  hold in every reachable state, and the one that does not; \<open>File_Transfer_Delivery\<close> follows a file
  from the sender's queue to the receiver's disk; \<open>File_Transfer_Staging\<close> says exactly when the sweeps
  remove a staged file, and that peers who name one funding share it.

  \<^bold>\<open>Swaps.\<close> \<open>Swap_Core\<close> (\<open>src/swap.rs\<close>, parts of \<open>src/ldk.rs\<close> and \<open>src/routes.rs\<close>) and
  \<open>Asset_Link\<close> (\<open>src/asset_link.rs\<close>); \<open>Swap_Props\<close> shows that a payment is forwarded only against a
  matching entry, and once for each time the offer was entered, that authorized swaps fit in the liquidity, and that offers are parsed back.

  \<^bold>\<open>Payments.\<close> \<open>Payments\<close> has both books and the routes over them, \<open>Payment_Events\<close> the events of the
  channel manager (\<open>src/ldk.rs\<close>); \<open>Payment_Props\<close> shows that indexes are unique, that pages list the
  payments, and that a held invoice is claimed once; \<open>Payment_Ledger\<close> runs the events on the local
  store and shows what is booked; \<open>Invoice_Provider\<close> when an invoice of an asynchronous payment
  settles. \<open>Virtual_Channels\<close> and \<open>Virtual_Channel_Props\<close> cover virtual channels and the closing
  route.

  \<^bold>\<open>Sweeps.\<close> \<open>Rgb_Sweep\<close> models the receipts of prepared sweeps (\<open>src/rgb_sweep.rs\<close>) and the output
  spender (\<open>RgbOutputSpender\<close> of \<open>src/ldk.rs\<close>) over the operations of any store. \<open>Rgb_Sweep_Props\<close> has the
  steps of a run, crashes and restarts included, and its invariant, for every store with the contract
  of \<open>KVStoreSync\<close> and a listing; \<open>Rgb_Sweep_Claims\<close> interprets it on the replicated store: sweeps of RGB
  outputs never spend a common output unless they are the same transaction, and a receipt is given up
  only after its sweep was confirmed and consumed. It also shows that a failed read lets an output with
  assets be spent as plain bitcoin.

  \<^bold>\<open>The external signer.\<close> \<open>Signer_Messages\<close> and \<open>Signer_Proto\<close> are the messages of the signer and their
  conversions (\<open>src/signer/types.rs\<close>, \<open>src/signer/proto.rs\<close>); \<open>Signer_Proto_Props\<close> has their round trips.
  \<open>Remote_Signer\<close> models frames, the handshake, the daemon and the reconnecting client
  (\<open>src/signer/remote/\<close>), and \<open>Remote_Signer_Props\<close> shows that only the holder of the token is served.
  \<open>Signer_Adapter\<close> (\<open>src/signer/vls_adapter.rs\<close>) and \<open>Vls_Signer\<close> (\<open>src/signer/in_process_vls.rs\<close>) are the two
  ends of a call, and \<open>Signer_Stack\<close> composes all of these: a call returns the answer of the backend.
  \<open>Channel_Signer\<close> (\<open>src/signer/channel_signer.rs\<close>) puts off the first validation until the channel is set
  up; \<open>Channel_Signer_Props\<close> shows that nothing is signed for the counterparty before it was made up for.
  \<open>Zbase32\<close>, \<open>External_Signer\<close> and \<open>External_Signer_Props\<close> (\<open>src/signer/external.rs\<close>) are the operations LDK
  calls, with the ones that panic while the link is down, and the form of signed messages.

  \<^bold>\<open>Bounds and fuel.\<close> Loops are structural recursions or have a termination proof; none uses fuel. The
  retry loop of \<open>Remote_First_Kv\<close> and the flush loop of \<open>Synced_Claims\<close> are stated with what makes them
  end.

  \<^bold>\<open>Not modelled.\<close> The arms of LDK's event handler and the routes that only pass a request on to LDK or
  rgb-lib; the wallet wrapper over rgb-lib (\<open>src/rgb.rs\<close>), the chain backends and gossip, authentication,
  ciphers and backups, configuration, logging and the database schema; the signer of LDK itself and the
  set-up of TLS; the SDK and the foreign interfaces, which repeat the routes; and the browser SDK and its
  gateway (\<open>bindings/\<close>, \<open>tools/\<close>), a second node with stores of its own. An operation is one step of the
  model: where the code holds no lock across an operation (a reconciliation of sweeps during an attempt,
  two routes on one book) their interleaving inside an operation is not considered.
\<close>

end
